(* ===== verification/Prelude.thy ===== *)
theory Prelude
  imports Complex_Main "HOL-Library.Char_ord" "HOL-Library.List_Lexorder"
begin

text \<open>
  Shared vocabulary of the development: time, ASCII text helpers of the Rust standard
  library, decimal printing and parsing of integers, the automation collections, and the
  interface locale \<open>guarded_machine\<close> for components that are driven by events.
\<close>

section \<open>Automation collections\<close>

named_theorems qf_defs \<open>definitions that a component's proofs unfold\<close>
named_theorems qf_inv \<open>preservation lemmas of a component's invariant\<close>

section \<open>Time\<close>

text \<open>
  A \<open>tokio::time::Instant\<close>, a \<open>std::time::Duration\<close> and a \<open>chrono::DateTime<Utc>\<close>
  are counted in nanoseconds on their own clocks.
\<close>

type_synonym instant = int
type_synonym duration = int
type_synonym utc = int

definition secs :: "int \<Rightarrow> duration" where
  "secs n = n * 1000000000"

definition mins :: "int \<Rightarrow> duration" where
  "mins n = secs (60 * n)"

definition hours :: "int \<Rightarrow> duration" where
  "hours n = secs (3600 * n)"

definition days :: "int \<Rightarrow> duration" where
  "days n = secs (86400 * n)"

lemma time_units [simp]:
  "secs n < secs m \<longleftrightarrow> n < m" "secs n \<le> secs m \<longleftrightarrow> n \<le> m"
  by (simp_all add: secs_def)

text \<open>\<open>chrono::Duration::num_seconds\<close> truncates towards zero.\<close>

definition num_seconds :: "duration \<Rightarrow> int" where
  "num_seconds d = sgn d * (\<bar>d\<bar> div 1000000000)"

lemma num_seconds_nonneg: "0 \<le> d \<Longrightarrow> num_seconds d = d div 1000000000"
  by (cases "d = 0") (auto simp: num_seconds_def)

text \<open>
  \<open>collector::ts\<close> prints a UTC time as RFC 3339 text of fixed width in whole seconds, so
  that text comparison is time order. A timestamp column is modelled by that second.
\<close>

type_synonym stamp = int

definition ts :: "utc \<Rightarrow> stamp" where
  "ts t = t div 1000000000"

lemma ts_mono: "a \<le> b \<Longrightarrow> ts a \<le> ts b"
  by (simp add: ts_def zdiv_mono1)

lemma ts_diff_secs: "ts (a - secs n) = ts a - n"
  by (simp add: ts_def secs_def)

lemma ts_add_secs: "ts (a + secs n) = ts a + n"
  by (simp add: ts_def secs_def)

section \<open>Text\<close>

text \<open>
  A Rust \<open>String\<close> is its sequence of UTF-8 bytes, so a \<open>char\<close> of HOL is one byte; the text
  order of \<open>List_Lexorder\<close> over \<open>Char_ord\<close> is the byte order of \<open>str\<close>.
  \<open>to_ascii_lowercase\<close>, \<open>starts_with\<close>, \<open>strip_prefix\<close> and \<open>contains\<close> of \<open>str\<close>.\<close>

definition ascii_lower :: "char \<Rightarrow> char" where
  "ascii_lower c = (if 65 \<le> (of_char c :: nat) \<and> (of_char c :: nat) \<le> 90 then char_of ((of_char c :: nat) + 32) else c)"

definition to_ascii_lowercase :: "string \<Rightarrow> string" where
  "to_ascii_lowercase s = map ascii_lower s"

definition eq_ignore_ascii_case :: "string \<Rightarrow> string \<Rightarrow> bool" where
  "eq_ignore_ascii_case a b \<longleftrightarrow> to_ascii_lowercase a = to_ascii_lowercase b"

fun starts_with :: "'a list \<Rightarrow> 'a list \<Rightarrow> bool" where
  "starts_with s [] = True"
| "starts_with [] (p # ps) = False"
| "starts_with (c # s) (p # ps) = (c = p \<and> starts_with s ps)"

definition strip_prefix :: "'a list \<Rightarrow> 'a list \<Rightarrow> 'a list option" where
  "strip_prefix p s = (if starts_with s p then Some (drop (length p) s) else None)"

definition ends_with :: "'a list \<Rightarrow> 'a list \<Rightarrow> bool" where
  "ends_with s p = starts_with (rev s) (rev p)"

fun str_contains :: "'a list \<Rightarrow> 'a list \<Rightarrow> bool" where
  "str_contains [] p = (p = [])"
| "str_contains (c # s) p = (starts_with (c # s) p \<or> str_contains s p)"

lemma starts_with_append [simp]: "starts_with (p @ s) p"
  by (induction p) auto

lemma starts_with_iff: "starts_with s p \<longleftrightarrow> (\<exists>r. s = p @ r)"
  by (induction s p rule: starts_with.induct) auto

lemma starts_with_length: "starts_with s p \<Longrightarrow> length p \<le> length s"
  by (auto simp: starts_with_iff)

lemma strip_prefix_Some: "strip_prefix p s = Some r \<longleftrightarrow> s = p @ r"
  by (auto simp: strip_prefix_def starts_with_iff)

lemma str_contains_iff: "str_contains s p \<longleftrightarrow> (\<exists>a b. s = a @ p @ b)"
proof (induction s)
  case Nil
  then show ?case by simp
next
  case (Cons c s)
  have "(\<exists>a b. c # s = a @ p @ b) \<longleftrightarrow> (\<exists>b. c # s = p @ b) \<or> (\<exists>a b. s = a @ p @ b)"
    by (metis append_Cons append_Nil list.inject neq_Nil_conv)
  with Cons show ?case by (simp add: starts_with_iff)
qed

text \<open>\<open>join\<close>, \<open>split\<close> and \<open>split_once\<close> at one ASCII character, \<open>trim\<close> for ASCII white space.\<close>

fun str_join :: "'a list \<Rightarrow> 'a list list \<Rightarrow> 'a list" where
  "str_join sep [] = []"
| "str_join sep [p] = p"
| "str_join sep (p # q # ps) = p @ sep @ str_join sep (q # ps)"

fun str_split :: "'a \<Rightarrow> 'a list \<Rightarrow> 'a list list" where
  "str_split sep [] = [[]]"
| "str_split sep (c # s) =
     (if c = sep then [] # str_split sep s
      else case str_split sep s of [] \<Rightarrow> [[c]] | p # ps \<Rightarrow> (c # p) # ps)"

definition split_once :: "'a \<Rightarrow> 'a list \<Rightarrow> ('a list \<times> 'a list) option" where
  "split_once sep s =
     (if sep \<in> set s then Some (takeWhile (\<lambda>c. c \<noteq> sep) s, tl (dropWhile (\<lambda>c. c \<noteq> sep) s)) else None)"

definition is_space :: "char \<Rightarrow> bool" where
  "is_space c \<longleftrightarrow> (of_char c :: nat) \<in> {9, 10, 11, 12, 13, 32}"

definition str_trim :: "string \<Rightarrow> string" where
  "str_trim s = rev (dropWhile is_space (rev (dropWhile is_space s)))"

lemma str_split_nonempty [simp]: "str_split sep s \<noteq> []"
  by (induction s) (auto split: list.splits)

lemma str_split_plain: "sep \<notin> set s \<Longrightarrow> str_split sep s = [s]"
  by (induction s) auto

lemma str_split_cons: "sep \<notin> set p \<Longrightarrow> str_split sep (p @ sep # s) = p # str_split sep s"
  by (induction p) auto

lemma str_split_join:
  "ps \<noteq> [] \<Longrightarrow> \<forall>p\<in>set ps. sep \<notin> set p \<Longrightarrow> str_split sep (str_join [sep] ps) = ps"
  by (induction "[sep]" ps rule: str_join.induct) (auto simp: str_split_plain str_split_cons)

lemma split_once_app: "sep \<notin> set a \<Longrightarrow> split_once sep (a @ sep # b) = Some (a, b)"
proof -
  assume a: "sep \<notin> set a"
  then have "takeWhile (\<lambda>c. c \<noteq> sep) (a @ sep # b) = a" "dropWhile (\<lambda>c. c \<noteq> sep) (a @ sep # b) = sep # b"
    by (auto simp: takeWhile_tail dropWhile_append3)
  then show ?thesis by (simp add: split_once_def)
qed

section \<open>Decimal numbers\<close>

definition digit_char :: "nat \<Rightarrow> char" where
  "digit_char d = char_of (48 + d)"

definition char_digit :: "char \<Rightarrow> nat option" where
  "char_digit c = (let n = of_char c :: nat in if 48 \<le> n \<and> n \<le> 57 then Some (n - 48) else None)"

fun show_nat :: "nat \<Rightarrow> string" where
  "show_nat n = (if n < 10 then [digit_char n] else show_nat (n div 10) @ [digit_char (n mod 10)])"

declare show_nat.simps [simp del]

definition show_int :: "int \<Rightarrow> string" where
  "show_int i = (if i < 0 then ''-'' @ show_nat (nat (- i)) else show_nat (nat i))"

fun parse_digits :: "string \<Rightarrow> nat \<Rightarrow> nat option" where
  "parse_digits [] acc = Some acc"
| "parse_digits (c # s) acc = (case char_digit c of None \<Rightarrow> None | Some d \<Rightarrow> parse_digits s (10 * acc + d))"

text \<open>
  \<open>str::parse\<close> for an integer type with the given range: an optional sign (a minus only for
  signed types, where \<open>lo < 0\<close>), at least one digit, no overflow.
\<close>

definition parse_integer :: "int \<Rightarrow> int \<Rightarrow> string \<Rightarrow> int option" where
  "parse_integer lo hi s =
     (case s of
        [] \<Rightarrow> None
      | c # rest \<Rightarrow>
          (let (neg, body) = (if c = CHR ''-'' \<and> lo < 0 then (True, rest)
                              else if c = CHR ''+'' then (False, rest) else (False, s))
           in if body = [] then None
              else case parse_digits body 0 of
                None \<Rightarrow> None
              | Some n \<Rightarrow> (let v = (if neg then - int n else int n) in if lo \<le> v \<and> v \<le> hi then Some v else None)))"

lemma char_digit_char [simp]: "d < 10 \<Longrightarrow> char_digit (digit_char d) = Some d"
  by (simp add: char_digit_def digit_char_def Let_def)

lemma digit_char_not_sign [simp]:
  "d < 10 \<Longrightarrow> digit_char d \<noteq> CHR ''-''" "d < 10 \<Longrightarrow> digit_char d \<noteq> CHR ''+''"
  using char_digit_char[of d] by (auto simp: char_digit_def simp del: char_digit_char)

lemma parse_digits_append:
  "parse_digits (a @ b) acc = Option.bind (parse_digits a acc) (parse_digits b)"
  by (induction a arbitrary: acc) (auto split: option.splits)

lemma parse_digits_show [simp]: "parse_digits (show_nat n) 0 = Some n"
proof (induction n rule: show_nat.induct)
  case (1 n)
  then show ?case
    by (subst show_nat.simps) (auto simp: parse_digits_append)
qed

lemma show_nat_hd: "\<exists>d s. show_nat n = digit_char d # s \<and> d < 10"
proof (induction n rule: show_nat.induct)
  case (1 n)
  show ?case
  proof (cases "n < 10")
    case True
    then show ?thesis by (subst show_nat.simps) auto
  next
    case False
    with 1 obtain d s where "show_nat (n div 10) = digit_char d # s" "d < 10" by blast
    with False show ?thesis by (subst show_nat.simps) auto
  qed
qed

lemma show_nat_chars: "c \<in> set (show_nat n) \<Longrightarrow> \<exists>d<10. c = digit_char d"
proof (induction n rule: show_nat.induct)
  case (1 n)
  show ?case
  proof (cases "n < 10")
    case True
    with 1 show ?thesis by (auto simp: show_nat.simps[of n])
  next
    case False
    with 1(2) have "c \<in> set (show_nat (n div 10)) \<or> c = digit_char (n mod 10)"
      by (auto simp: show_nat.simps[of n])
    with 1(1) False show ?thesis by (auto intro: exI[of _ "n mod 10"])
  qed
qed

lemma parse_integer_show_nat [simp]:
  "lo \<le> 0 \<Longrightarrow> parse_integer lo hi (show_nat n) = (if int n \<le> hi then Some (int n) else None)"
proof -
  assume lo: "lo \<le> 0"
  obtain d s where ds: "show_nat n = digit_char d # s" "d < 10"
    using show_nat_hd by blast
  have "parse_digits (digit_char d # s) 0 = Some n"
    using parse_digits_show[of n] by (simp only: ds(1))
  with ds lo show ?thesis by (simp add: parse_integer_def Let_def)
qed

lemma parse_integer_show_int:
  "lo \<le> i \<Longrightarrow> i \<le> hi \<Longrightarrow> lo \<le> 0 \<Longrightarrow> parse_integer lo hi (show_int i) = Some i"
proof (cases "i < 0")
  case True
  assume "lo \<le> i" "i \<le> hi"
  moreover have "show_nat n \<noteq> []" for n using show_nat_hd[of n] by auto
  ultimately show ?thesis using True
    by (simp add: show_int_def parse_integer_def Let_def)
qed (simp add: show_int_def)

section \<open>Errors\<close>

text \<open>
  \<open>utils::Error\<close>, as far as the modelled code reads it: where it was raised, its message and
  cause, the rendered JSON of its properties, and the text of their field \<open>type\<close> (empty when
  there is none).
\<close>

record qf_error =
  er_component :: string
  er_message :: string
  er_cause :: string
  er_props :: "string option"
  er_type :: string

definition new_error :: "string \<Rightarrow> string \<Rightarrow> qf_error" where
  "new_error component msg =
     \<lparr>er_component = component, er_message = msg, er_cause = [], er_props = None, er_type = []\<rparr>"

section \<open>Lists by position\<close>

definition remove_nth :: "nat \<Rightarrow> 'a list \<Rightarrow> 'a list" where
  "remove_nth i xs = take i xs @ drop (Suc i) xs"

lemma filter_split_nth:
  assumes "i < length xs"
  shows "filter P xs = filter P (take i xs) @ (if P (xs ! i) then [xs ! i] else []) @ filter P (drop (Suc i) xs)"
proof -
  have "filter P xs = filter P (take i xs @ xs ! i # drop (Suc i) xs)"
    using assms by (simp add: id_take_nth_drop[symmetric])
  then show ?thesis by (simp add: filter_append del: append_take_drop_id)
qed

lemma remove_nth_filter:
  "i < length xs \<Longrightarrow>
   length (filter P (remove_nth i xs)) = length (filter P xs) - (if P (xs ! i) then 1 else 0)"
  by (subst (2) filter_split_nth[of i]) (simp_all add: remove_nth_def)

lemma update_filter:
  assumes "i < length xs" "P (f (xs ! i)) = P (xs ! i)"
  shows "length (filter P (xs[i := f (xs ! i)])) = length (filter P xs)"
  using assms by (subst (2) filter_split_nth[of i]) (simp_all add: upd_conv_take_nth_drop)

section \<open>Machines driven by events\<close>

text \<open>A run of a step function over a list of events, each enabled where it happens.\<close>

fun run :: "('s \<Rightarrow> 'e \<Rightarrow> 's) \<Rightarrow> 's \<Rightarrow> 'e list \<Rightarrow> 's" where
  "run step s [] = s"
| "run step s (e # es) = run step (step s e) es"

fun all_enabled :: "('s \<Rightarrow> 'e \<Rightarrow> 's) \<Rightarrow> ('s \<Rightarrow> 'e \<Rightarrow> bool) \<Rightarrow> 's \<Rightarrow> 'e list \<Rightarrow> bool" where
  "all_enabled step enabled s [] = True"
| "all_enabled step enabled s (e # es) = (enabled s e \<and> all_enabled step enabled (step s e) es)"

lemma run_append: "run step s (es @ fs) = run step (run step s es) fs"
  by (induction es arbitrary: s) auto

text \<open>
  The contract of a component with an invariant: every enabled step keeps it. The client
  lemma lifts it to whole runs.
\<close>

locale guarded_machine =
  fixes step :: "'s \<Rightarrow> 'e \<Rightarrow> 's"
    and enabled :: "'s \<Rightarrow> 'e \<Rightarrow> bool"
    and inv :: "'s \<Rightarrow> bool"
  assumes step_inv: "inv s \<Longrightarrow> enabled s e \<Longrightarrow> inv (step s e)"
begin

lemma run_inv: "inv s \<Longrightarrow> all_enabled step enabled s es \<Longrightarrow> inv (run step s es)"
  by (induction es arbitrary: s) (auto intro: step_inv)

end

end
