(* ===== verification/Market_Limiter.thy ===== *)
theory Market_Limiter
  imports Prelude
begin

text \<open>
  The shared warframe.market request budget: \<open>qf_core/src/market/limiter.rs\<close>,
  the adapter \<open>qf_core/src/market/gate.rs\<close> and \<open>wf-market/src/gate.rs\<close>.

  The mutex-protected \<open>State\<close> is the record \<open>limiter\<close>; each locked section is one
  definition that takes the two clocks it reads (\<open>Instant::now\<close> and \<open>Utc::now\<close>) as
  arguments. The loop of \<open>wait_for_slot\<close> is cut at its await points: \<open>poll_slot\<close> is one
  pass of it, and \<open>lstep\<close> interleaves the passes of any number of waiting requests with
  reports, rate changes, cancelled futures and the passing of time. Log lines are left out.
  The \<open>f64\<close> rate is a real number; the interval is the nearest nanosecond of its
  reciprocal.
\<close>

section \<open>Constants, lanes and outcomes\<close>

definition default_rate_per_second :: real where
  "default_rate_per_second = 2.5"

definition rate_lo :: real where "rate_lo = 0.2"
definition rate_hi :: real where "rate_hi = 2.9"

definition breaker_steps :: "duration list" where
  "breaker_steps = [secs (15 * 60), secs (60 * 60), secs (4 * 60 * 60)]"

definition trip_after_transport_errors :: nat where
  "trip_after_transport_errors = 5"

definition probe_timeout :: duration where
  "probe_timeout = secs 60"

definition ladder_reset_after :: duration where
  "ladder_reset_after = secs (24 * 60 * 60)"

datatype lane = Trader | Hot | Cold

fun lane_index :: "lane \<Rightarrow> nat" where
  "lane_index Trader = 0"
| "lane_index Hot = 1"
| "lane_index Cold = 2"

text \<open>Lanes are ordered by their index: a smaller lane is served first.\<close>

instantiation lane :: linorder
begin

definition less_eq_lane :: "lane \<Rightarrow> lane \<Rightarrow> bool" where
  "less_eq_lane a b \<longleftrightarrow> lane_index a \<le> lane_index b"

definition less_lane :: "lane \<Rightarrow> lane \<Rightarrow> bool" where
  "less_lane a b \<longleftrightarrow> lane_index a < lane_index b"

instance
proof
  fix x y :: lane
  show "x \<le> y \<Longrightarrow> y \<le> x \<Longrightarrow> x = y"
    by (cases x; cases y) (auto simp: less_eq_lane_def)
qed (auto simp: less_eq_lane_def less_lane_def)

end

lemma lane_less:
  "\<not> l < Trader" "l < Hot \<longleftrightarrow> l = Trader" "l < Cold \<longleftrightarrow> l = Trader \<or> l = Hot"
  by (cases l; simp add: less_lane_def)+

datatype outcome = OutOk | Challenge | RateLimited | TransportError

text \<open>
  Headers are read through \<open>headers.get(name).and_then(to_str)\<close>, so a header map is the
  partial map from a name to the text of its first value.
\<close>

type_synonym header_map = "string \<Rightarrow> string option"

definition header :: "header_map \<Rightarrow> string \<Rightarrow> string" where
  "header headers name = (case headers name of Some v \<Rightarrow> v | None \<Rightarrow> [])"

definition outcome_of :: "nat \<Rightarrow> header_map \<Rightarrow> outcome" where
  "outcome_of status headers =
     (if status = 429 then RateLimited
      else if (400 \<le> status \<and> eq_ignore_ascii_case (header headers ''cf-mitigated'') ''challenge'')
            \<or> (status \<in> {403, 503} \<and> starts_with (to_ascii_lowercase (header headers ''content-type'')) ''text/html'')
      then Challenge
      else if 500 \<le> status then TransportError
      else OutOk)"

section \<open>The breaker\<close>

record open_state =
  op_reason :: string
  op_opened_at :: utc
  op_until :: instant
  op_step :: nat
  op_probe :: "instant option"

record limiter =
  rate_per_second :: real
  interval :: duration
  last_grant :: "instant option"
  waiting :: "nat list"
  granted :: "nat list"
  rate_limited_total :: nat
  breaker :: "open_state option"
  transport_errors_in_row :: nat
  last_trip_at :: "(instant \<times> nat) option"
  trips_total :: nat

datatype pass = PassYes | PassProbe | Blocked instant string

definition breaker_period :: "nat \<Rightarrow> duration" where
  "breaker_period step = breaker_steps ! min step (length breaker_steps - 1)"

definition trip_step :: "limiter \<Rightarrow> instant \<Rightarrow> nat" where
  "trip_step s now =
     (case (breaker s, last_trip_at s) of
        (Some op, _) \<Rightarrow> op_step op + 1
      | (None, Some (t, step)) \<Rightarrow> if now < t + ladder_reset_after then step + 1 else 0
      | (None, None) \<Rightarrow> 0)"

definition trip :: "limiter \<Rightarrow> instant \<Rightarrow> utc \<Rightarrow> string \<Rightarrow> limiter" where
  "trip s now utc_now reason =
     (let step = trip_step s now;
          opened_at = (case breaker s of Some op \<Rightarrow> op_opened_at op | None \<Rightarrow> utc_now)
      in s\<lparr>breaker := Some \<lparr>op_reason = reason, op_opened_at = opened_at,
                            op_until = now + breaker_period step, op_step = step, op_probe = None\<rparr>,
           last_trip_at := Some (now, step),
           transport_errors_in_row := 0,
           trips_total := trips_total s + 1\<rparr>)"

definition expire_lost_probe :: "limiter \<Rightarrow> instant \<Rightarrow> utc \<Rightarrow> limiter" where
  "expire_lost_probe s now utc_now =
     (case breaker s of
        Some op \<Rightarrow>
          (case op_probe op of
             Some t \<Rightarrow> if t + probe_timeout \<le> now
                        then trip s now utc_now ''the probe got no response within 60 s'' else s
           | None \<Rightarrow> s)
      | None \<Rightarrow> s)"

text \<open>\<open>State::pass\<close> first expires a lost probe, so it returns the state as well.\<close>

definition pass_of :: "limiter \<Rightarrow> instant \<Rightarrow> pass" where
  "pass_of s now =
     (case breaker s of
        None \<Rightarrow> PassYes
      | Some op \<Rightarrow>
          (case op_probe op of
             None \<Rightarrow> if op_until op \<le> now then PassProbe else Blocked (op_until op) (op_reason op)
           | Some t \<Rightarrow> Blocked (t + probe_timeout) (op_reason op)))"

definition lim_pass :: "limiter \<Rightarrow> instant \<Rightarrow> utc \<Rightarrow> pass \<times> limiter" where
  "lim_pass s now utc_now = (let s1 = expire_lost_probe s now utc_now in (pass_of s1 now, s1))"

definition to_utc :: "instant \<Rightarrow> instant \<Rightarrow> utc \<Rightarrow> utc" where
  "to_utc t now utc_now = utc_now + max 0 (t - now)"

section \<open>Slots\<close>

text \<open>\<open>Duration::from_secs_f64(1.0 / rate)\<close> for a positive rate.\<close>

definition interval_of :: "real \<Rightarrow> duration" where
  "interval_of rate = round (1000000000 / rate)"

definition new_limiter :: "real \<Rightarrow> limiter" where
  "new_limiter rate =
     \<lparr>rate_per_second = rate, interval = interval_of rate, last_grant = None,
      waiting = [0, 0, 0], granted = [0, 0, 0], rate_limited_total = 0, breaker = None,
      transport_errors_in_row = 0, last_trip_at = None, trips_total = 0\<rparr>"

definition incr :: "nat list \<Rightarrow> nat \<Rightarrow> nat list" where
  "incr xs i = xs[i := xs ! i + 1]"

definition decr :: "nat list \<Rightarrow> nat \<Rightarrow> nat list" where
  "decr xs i = xs[i := xs ! i - 1]"

definition start_wait :: "limiter \<Rightarrow> lane \<Rightarrow> limiter" where
  "start_wait s lane = s\<lparr>waiting := incr (waiting s) (lane_index lane)\<rparr>"

text \<open>
  \<open>Waiting::drop\<close> of a request that was not granted: a refused request leaves its count
  behind until its guard is dropped, which is a locked section of its own.
\<close>

definition drop_wait :: "limiter \<Rightarrow> lane \<Rightarrow> limiter" where
  "drop_wait s lane = s\<lparr>waiting := decr (waiting s) (lane_index lane)\<rparr>"

datatype poll_result = Granted | Refused utc string | WaitNotify | WaitUntil instant

definition higher_waits :: "limiter \<Rightarrow> lane \<Rightarrow> bool" where
  "higher_waits s lane = list_ex (\<lambda>n. 0 < n) (take (lane_index lane) (waiting s))"

definition next_slot :: "limiter \<Rightarrow> instant \<Rightarrow> instant" where
  "next_slot s now = (case last_grant s of None \<Rightarrow> now | Some t \<Rightarrow> t + interval s)"

definition ready_at :: "limiter \<Rightarrow> pass \<Rightarrow> instant \<Rightarrow> instant" where
  "ready_at s p now = (case p of Blocked until _ \<Rightarrow> max until (next_slot s now) | _ \<Rightarrow> next_slot s now)"

definition grant :: "limiter \<Rightarrow> pass \<Rightarrow> lane \<Rightarrow> instant \<Rightarrow> limiter" where
  "grant s p lane now =
     (let s1 = (case (p, breaker s) of
                  (PassProbe, Some op) \<Rightarrow> s\<lparr>breaker := Some (op\<lparr>op_probe := Some now\<rparr>)\<rparr>
                | _ \<Rightarrow> s)
      in s1\<lparr>last_grant := Some now,
            waiting := decr (waiting s1) (lane_index lane),
            granted := incr (granted s1) (lane_index lane)\<rparr>)"

definition poll_slot :: "limiter \<Rightarrow> lane \<Rightarrow> bool \<Rightarrow> instant \<Rightarrow> utc \<Rightarrow> poll_result \<times> limiter" where
  "poll_slot s lane fail_fast now utc_now =
     (let (p, s1) = lim_pass s now utc_now in
      case (fail_fast, p) of
        (True, Blocked until reason) \<Rightarrow>
          (Refused (to_utc until now utc_now) reason, s1)
      | _ \<Rightarrow>
          if higher_waits s1 lane then (WaitNotify, s1)
          else if ready_at s1 p now \<le> now then (Granted, grant s1 p lane now)
          else (WaitUntil (ready_at s1 p now), s1))"

section \<open>Reports, rate and snapshots\<close>

definition report :: "limiter \<Rightarrow> outcome \<Rightarrow> instant \<Rightarrow> utc \<Rightarrow> limiter" where
  "report s0 out now utc_now =
     (let s1 = expire_lost_probe s0 now utc_now;
          s = (if out = RateLimited then s1\<lparr>rate_limited_total := rate_limited_total s1 + 1\<rparr> else s1);
          probing = (case breaker s of Some op \<Rightarrow> op_probe op \<noteq> None | None \<Rightarrow> False)
      in if breaker s \<noteq> None \<and> \<not> probing then s
         else (case out of
             OutOk \<Rightarrow> s\<lparr>transport_errors_in_row := 0, breaker := None\<rparr>
           | Challenge \<Rightarrow> trip s now utc_now ''Cloudflare challenge''
           | RateLimited \<Rightarrow> trip s now utc_now ''HTTP 429 rate limited''
           | TransportError \<Rightarrow>
               if probing then trip s now utc_now ''the probe failed with a transport error''
               else (let s2 = s\<lparr>transport_errors_in_row := transport_errors_in_row s + 1\<rparr>
                     in if trip_after_transport_errors \<le> transport_errors_in_row s2
                        then trip s2 now utc_now ''5 transport errors in a row'' else s2)))"

definition set_rate_per_second :: "limiter \<Rightarrow> real \<Rightarrow> limiter" where
  "set_rate_per_second s rate =
     (let r = max rate_lo (min rate_hi rate)
      in s\<lparr>rate_per_second := r, interval := interval_of r\<rparr>)"

definition is_blocked :: "limiter \<Rightarrow> instant \<Rightarrow> utc \<Rightarrow> bool \<times> limiter" where
  "is_blocked s now utc_now =
     (let s1 = expire_lost_probe s now utc_now in (breaker s1 \<noteq> None, s1))"

record breaker_snapshot =
  bs_state :: string
  bs_reason :: "string option"
  bs_opened_at :: "utc option"
  bs_until :: "utc option"
  bs_step :: nat
  bs_trips_total :: nat

record limiter_snapshot =
  ls_granted_trader :: nat
  ls_granted_hot :: nat
  ls_granted_cold :: nat
  ls_waiting :: nat
  ls_paused_ms :: int
  ls_rate_limited_total :: nat
  ls_rate_per_second :: real
  ls_breaker :: breaker_snapshot

definition snapshot :: "limiter \<Rightarrow> instant \<Rightarrow> utc \<Rightarrow> limiter_snapshot \<times> limiter" where
  "snapshot s0 now utc_now =
     (let s = expire_lost_probe s0 now utc_now;
          op = breaker s;
          b = \<lparr>bs_state = (case op of None \<Rightarrow> ''closed''
                            | Some o1 \<Rightarrow> (if op_probe o1 = None then ''open'' else ''probing'')),
               bs_reason = map_option op_reason op,
               bs_opened_at = map_option op_opened_at op,
               bs_until = map_option (\<lambda>o1. to_utc (op_until o1) now utc_now) op,
               bs_step = (case last_trip_at s of None \<Rightarrow> 0 | Some (_, step) \<Rightarrow> step),
               bs_trips_total = trips_total s\<rparr>
      in (\<lparr>ls_granted_trader = granted s ! lane_index Trader,
           ls_granted_hot = granted s ! lane_index Hot,
           ls_granted_cold = granted s ! lane_index Cold,
           ls_waiting = sum_list (waiting s),
           ls_paused_ms = (case op of None \<Rightarrow> 0 | Some o1 \<Rightarrow> max 0 (op_until o1 - now) div 1000000),
           ls_rate_limited_total = rate_limited_total s,
           ls_rate_per_second = rate_per_second s,
           ls_breaker = b\<rparr>, s))"

section \<open>The gates\<close>

text \<open>\<open>wf_market::gate::is_challenge\<close> and the adapter's \<open>outcome\<close> and \<open>refusal\<close>.\<close>

definition is_challenge :: "nat \<Rightarrow> header_map \<Rightarrow> bool" where
  "is_challenge status headers \<longleftrightarrow>
     (400 \<le> status \<and> eq_ignore_ascii_case (header headers ''cf-mitigated'') ''challenge'')
   \<or> (status \<in> {403, 503} \<and> starts_with (to_ascii_lowercase (header headers ''content-type'')) ''text/html'')"

definition gate_outcome :: "nat \<Rightarrow> bool \<Rightarrow> outcome" where
  "gate_outcome status challenge =
     outcome_of status (if challenge then [''cf-mitigated'' \<mapsto> ''challenge''] else Map.empty)"

definition two_digits :: "int \<Rightarrow> string" where
  "two_digits n = [char_of (48 + nat n div 10), char_of (48 + nat n mod 10)]"

text \<open>\<open>format("%H:%M")\<close> of a UTC time.\<close>

definition hh_mm :: "utc \<Rightarrow> string" where
  "hh_mm t = two_digits (t div secs 3600 mod 24) @ '':'' @ two_digits (t div secs 60 mod 60)"

definition unreachable_text :: string where
  "unreachable_text = ''warframe.market unreachable''"

definition refusal :: "utc \<Rightarrow> string" where
  "refusal until = unreachable_text @ '': breaker open until '' @ hh_mm until @ '' UTC''"


section \<open>The limiter and its waiting requests as one system\<close>

text \<open>
  A waiting request is one call of \<open>wait_for_slot\<close>: its lane, whether it came through
  \<open>try_acquire\<close>, and whether it was refused (it then only has to drop its guard).
  \<open>sys_grants\<close> logs every grant, newest first: when, to which lane and, for a probe, the
  open period (its number \<open>trips_total\<close> and its end) it was granted in.
\<close>

record waiter =
  wt_lane :: lane
  wt_fail_fast :: bool
  wt_refused :: bool

record grant_entry =
  gr_at :: instant
  gr_lane :: lane
  gr_period :: "(nat \<times> instant) option"

record lsys =
  sys_lim :: limiter
  sys_now :: instant
  sys_utc :: utc
  sys_waiters :: "waiter list"
  sys_grants :: "grant_entry list"

datatype lim_event =
    EvStart lane bool
  | EvPoll nat
  | EvDrop nat
  | EvReport outcome
  | EvRate real
  | EvLook
  | EvTick duration duration

definition grant_of :: "limiter \<Rightarrow> lane \<Rightarrow> instant \<Rightarrow> grant_entry" where
  "grant_of s lane now =
     \<lparr>gr_at = now, gr_lane = lane,
      gr_period = map_option (\<lambda>op. (trips_total s, op_until op)) (breaker s)\<rparr>"

fun lstep :: "lsys \<Rightarrow> lim_event \<Rightarrow> lsys" where
  "lstep y (EvStart lane ff) =
     y\<lparr>sys_lim := start_wait (sys_lim y) lane,
       sys_waiters := sys_waiters y @ [\<lparr>wt_lane = lane, wt_fail_fast = ff, wt_refused = False\<rparr>]\<rparr>"
| "lstep y (EvPoll i) =
     (let w = sys_waiters y ! i;
          (r, s1) = poll_slot (sys_lim y) (wt_lane w) (wt_fail_fast w) (sys_now y) (sys_utc y)
      in case r of
           Granted \<Rightarrow> y\<lparr>sys_lim := s1, sys_waiters := remove_nth i (sys_waiters y),
                        sys_grants := grant_of s1 (wt_lane w) (sys_now y) # sys_grants y\<rparr>
         | Refused _ _ \<Rightarrow> y\<lparr>sys_lim := s1, sys_waiters := (sys_waiters y)[i := w\<lparr>wt_refused := True\<rparr>]\<rparr>
         | _ \<Rightarrow> y\<lparr>sys_lim := s1\<rparr>)"
| "lstep y (EvDrop i) =
     y\<lparr>sys_lim := drop_wait (sys_lim y) (wt_lane (sys_waiters y ! i)),
       sys_waiters := remove_nth i (sys_waiters y)\<rparr>"
| "lstep y (EvReport out) = y\<lparr>sys_lim := report (sys_lim y) out (sys_now y) (sys_utc y)\<rparr>"
| "lstep y (EvRate r) = y\<lparr>sys_lim := set_rate_per_second (sys_lim y) r\<rparr>"
| "lstep y EvLook = y\<lparr>sys_lim := expire_lost_probe (sys_lim y) (sys_now y) (sys_utc y)\<rparr>"
| "lstep y (EvTick d du) = y\<lparr>sys_now := sys_now y + d, sys_utc := sys_utc y + du\<rparr>"

fun lenabled :: "lsys \<Rightarrow> lim_event \<Rightarrow> bool" where
  "lenabled y (EvPoll i) = (i < length (sys_waiters y) \<and> \<not> wt_refused (sys_waiters y ! i))"
| "lenabled y (EvDrop i) = (i < length (sys_waiters y))"
| "lenabled y (EvTick d du) = (0 \<le> d)"
| "lenabled y _ = True"

definition linit :: "real \<Rightarrow> instant \<Rightarrow> utc \<Rightarrow> lsys" where
  "linit rate now utc_now =
     \<lparr>sys_lim = new_limiter rate, sys_now = now, sys_utc = utc_now, sys_waiters = [], sys_grants = []\<rparr>"

text \<open>How many requests of a lane wait, and what the counters say about it.\<close>

definition waits_in :: "waiter list \<Rightarrow> lane \<Rightarrow> nat" where
  "waits_in ws lane = length (filter (\<lambda>w. wt_lane w = lane) ws)"

definition counts_inv :: "lsys \<Rightarrow> bool" where
  "counts_inv y \<longleftrightarrow>
     waiting (sys_lim y) = map (waits_in (sys_waiters y)) [Trader, Hot, Cold]
   \<and> granted (sys_lim y) = map (\<lambda>l. length (filter (\<lambda>g. gr_lane g = l) (sys_grants y))) [Trader, Hot, Cold]"

text \<open>The shortest interval a rate in the clamp range can give.\<close>

definition min_interval :: duration where
  "min_interval = interval_of rate_hi"

fun spaced :: "grant_entry list \<Rightarrow> bool" where
  "spaced (g # h # gs) = (gr_at h + min_interval \<le> gr_at g \<and> spaced (h # gs))"
| "spaced _ = True"

definition spacing_inv :: "lsys \<Rightarrow> bool" where
  "spacing_inv y \<longleftrightarrow>
     min_interval \<le> interval (sys_lim y)
   \<and> last_grant (sys_lim y) = (case sys_grants y of [] \<Rightarrow> None | g # _ \<Rightarrow> Some (gr_at g))
   \<and> spaced (sys_grants y)"

text \<open>
  The breaker: a period in the log has ended when its probe was granted, no period has two
  probes, and the open breaker's probe is out exactly when the current period is in the log.
\<close>

definition probes :: "grant_entry list \<Rightarrow> (nat \<times> instant) list" where
  "probes gs = List.map_filter gr_period gs"

definition breaker_ok :: "limiter \<Rightarrow> grant_entry list \<Rightarrow> bool" where
  "breaker_ok s gs \<longleftrightarrow>
     (\<forall>g\<in>set gs. \<forall>n u. gr_period g = Some (n, u) \<longrightarrow> u \<le> gr_at g)
   \<and> distinct (map fst (probes gs))
   \<and> (\<forall>n\<in>fst ` set (probes gs). n \<le> trips_total s)
   \<and> (\<forall>op. breaker s = Some op \<and> op_probe op = None \<longrightarrow> trips_total s \<notin> fst ` set (probes gs))"

definition breaker_inv :: "lsys \<Rightarrow> bool" where
  "breaker_inv y = breaker_ok (sys_lim y) (sys_grants y)"

section \<open>What the locked sections leave alone\<close>

lemma trip_frame [simp]:
  "rate_per_second (trip s now u r) = rate_per_second s" "interval (trip s now u r) = interval s"
  "last_grant (trip s now u r) = last_grant s" "waiting (trip s now u r) = waiting s"
  "granted (trip s now u r) = granted s" "rate_limited_total (trip s now u r) = rate_limited_total s"
  by (simp_all add: trip_def Let_def)

lemma trip_effect [simp]:
  "trips_total (trip s now u r) = Suc (trips_total s)"
  "transport_errors_in_row (trip s now u r) = 0"
  "last_trip_at (trip s now u r) = Some (now, trip_step s now)"
  by (simp_all add: trip_def Let_def)

lemma trip_breaker:
  "breaker (trip s now u r) =
     Some \<lparr>op_reason = r, op_opened_at = (case breaker s of Some op \<Rightarrow> op_opened_at op | None \<Rightarrow> u),
           op_until = now + breaker_period (trip_step s now), op_step = trip_step s now, op_probe = None\<rparr>"
  by (simp add: trip_def Let_def)

lemma expire_cases:
  obtains (kept) "expire_lost_probe s now u = s"
      "\<And>op t. breaker s = Some op \<Longrightarrow> op_probe op = Some t \<Longrightarrow> now < t + probe_timeout"
  | (lost) op t where "breaker s = Some op" "op_probe op = Some t" "t + probe_timeout \<le> now"
      "expire_lost_probe s now u = trip s now u ''the probe got no response within 60 s''"
proof (cases "\<exists>op t. breaker s = Some op \<and> op_probe op = Some t \<and> t + probe_timeout \<le> now")
  case True
  then show ?thesis using lost by (auto simp: expire_lost_probe_def)
next
  case False
  then have "expire_lost_probe s now u = s"
    by (auto simp: expire_lost_probe_def split: option.splits)
  with False show ?thesis using kept by (meson not_le)
qed

lemma expire_frame [simp]:
  "rate_per_second (expire_lost_probe s now u) = rate_per_second s"
  "interval (expire_lost_probe s now u) = interval s"
  "last_grant (expire_lost_probe s now u) = last_grant s"
  "waiting (expire_lost_probe s now u) = waiting s"
  "granted (expire_lost_probe s now u) = granted s"
  "rate_limited_total (expire_lost_probe s now u) = rate_limited_total s"
  by (rule expire_cases[of s now u]; simp)+

lemma expire_open: "breaker (expire_lost_probe s now u) = None \<longleftrightarrow> breaker s = None"
  by (rule expire_cases[of s now u]) (simp_all add: trip_breaker)

text \<open>After the expiry check a probe that is out is still within its minute.\<close>

lemma expire_probe_fresh:
  "breaker (expire_lost_probe s now u) = Some op \<Longrightarrow> op_probe op = Some t \<Longrightarrow> now < t + probe_timeout"
  by (rule expire_cases[of s now u]) (auto simp: trip_breaker)

section \<open>A pass of the waiting loop\<close>

lemma grant_frame [simp]:
  "interval (grant s p lane now) = interval s" "last_grant (grant s p lane now) = Some now"
  "waiting (grant s p lane now) = decr (waiting s) (lane_index lane)"
  "granted (grant s p lane now) = incr (granted s) (lane_index lane)"
  "trips_total (grant s p lane now) = trips_total s"
  by (auto simp: grant_def Let_def split: pass.splits option.splits)

lemma grant_breaker:
  "breaker (grant s p lane now) =
     (case (p, breaker s) of (PassProbe, Some op) \<Rightarrow> Some (op\<lparr>op_probe := Some now\<rparr>) | _ \<Rightarrow> breaker s)"
  by (auto simp: grant_def Let_def split: pass.splits option.splits)

lemma pass_blocked_later:
  assumes "pass_of (expire_lost_probe s now u) now = Blocked until reason"
  shows "now < until"
  using assms expire_probe_fresh[of s now u]
  by (auto simp: pass_of_def not_le split: option.splits if_splits)

text \<open>
  A slot is granted exactly when no higher lane waits, the slot's time has come and the
  breaker is closed or its period has ended with no probe out.
\<close>

lemma poll_granted_iff:
  "fst (poll_slot s lane ff now u) = Granted \<longleftrightarrow>
     (let s1 = expire_lost_probe s now u in
      \<not> higher_waits s1 lane \<and> next_slot s1 now \<le> now \<and> (\<forall>t r. pass_of s1 now \<noteq> Blocked t r))"
proof -
  define s1 where "s1 = expire_lost_probe s now u"
  have later: "pass_of s1 now = Blocked t r \<Longrightarrow> now < t" for t r
    using pass_blocked_later unfolding s1_def by blast
  show ?thesis
    by (cases "pass_of s1 now")
       (auto simp: poll_slot_def lim_pass_def Let_def s1_def[symmetric] ready_at_def split: bool.splits
             dest: later)
qed

lemma poll_granted_state:
  assumes "fst (poll_slot s lane ff now u) = Granted"
  shows "snd (poll_slot s lane ff now u) =
           grant (expire_lost_probe s now u) (pass_of (expire_lost_probe s now u) now) lane now"
  using assms
  by (auto simp: poll_slot_def lim_pass_def Let_def split: bool.splits pass.splits if_splits)

lemma poll_other_state:
  assumes "fst (poll_slot s lane ff now u) \<noteq> Granted"
  shows "snd (poll_slot s lane ff now u) = expire_lost_probe s now u"
  using assms
  by (auto simp: poll_slot_def lim_pass_def Let_def split: bool.splits pass.splits if_splits)

lemma poll_slot_pair:
  "poll_slot s lane ff now u =
     (fst (poll_slot s lane ff now u),
      if fst (poll_slot s lane ff now u) = Granted
      then grant (expire_lost_probe s now u) (pass_of (expire_lost_probe s now u) now) lane now
      else expire_lost_probe s now u)"
  by (simp add: prod_eq_iff poll_granted_state poll_other_state)

lemma pass_open_cases:
  assumes "\<forall>t r. pass_of s now \<noteq> Blocked t r"
  obtains (closed) "breaker s = None" "pass_of s now = PassYes"
  | (probe) op where "breaker s = Some op" "op_probe op = None" "op_until op \<le> now" "pass_of s now = PassProbe"
  using assms by (auto simp: pass_of_def split: option.splits if_splits)

section \<open>Reports\<close>

lemma report_frame [simp]:
  "interval (report s out now u) = interval s" "last_grant (report s out now u) = last_grant s"
  "waiting (report s out now u) = waiting s" "granted (report s out now u) = granted s"
  by (auto simp: report_def Let_def split: outcome.splits)

section \<open>Waiting and granted counts\<close>

lemma waits_in_start [simp]:
  "waits_in (ws @ [w]) l = waits_in ws l + (if wt_lane w = l then 1 else 0)"
  by (simp add: waits_in_def)

lemma waits_in_remove [simp]:
  "i < length ws \<Longrightarrow> waits_in (remove_nth i ws) l = waits_in ws l - (if wt_lane (ws ! i) = l then 1 else 0)"
  by (simp add: waits_in_def remove_nth_filter)

lemma waits_in_refuse [simp]:
  "i < length ws \<Longrightarrow> waits_in (ws[i := (ws ! i)\<lparr>wt_refused := b\<rparr>]) l = waits_in ws l"
  by (simp add: waits_in_def update_filter)

lemma waits_in_pos: "0 < waits_in ws l \<longleftrightarrow> (\<exists>w\<in>set ws. wt_lane w = l)"
  by (auto simp: waits_in_def filter_empty_conv)

lemma report_counts [simp]:
  "waiting (set_rate_per_second s r) = waiting s" "granted (set_rate_per_second s r) = granted s"
  "last_grant (set_rate_per_second s r) = last_grant s" "breaker (set_rate_per_second s r) = breaker s"
  "trips_total (set_rate_per_second s r) = trips_total s"
  by (simp_all add: set_rate_per_second_def Let_def)

lemma wait_frame [simp]:
  "granted (start_wait s l) = granted s" "granted (drop_wait s l) = granted s"
  "interval (start_wait s l) = interval s" "interval (drop_wait s l) = interval s"
  "last_grant (start_wait s l) = last_grant s" "last_grant (drop_wait s l) = last_grant s"
  "breaker (start_wait s l) = breaker s" "breaker (drop_wait s l) = breaker s"
  "trips_total (start_wait s l) = trips_total s" "trips_total (drop_wait s l) = trips_total s"
  by (simp_all add: start_wait_def drop_wait_def)

text \<open>One step of a waiting request, in the two shapes it has.\<close>

lemma lstep_poll_cases:
  assumes "lenabled y (EvPoll i)"
  obtains (granted) s1 where
      "s1 = expire_lost_probe (sys_lim y) (sys_now y) (sys_utc y)"
      "\<not> higher_waits s1 (wt_lane (sys_waiters y ! i))" "next_slot s1 (sys_now y) \<le> sys_now y"
      "\<forall>t r. pass_of s1 (sys_now y) \<noteq> Blocked t r"
      "lstep y (EvPoll i) = y\<lparr>
         sys_lim := grant s1 (pass_of s1 (sys_now y)) (wt_lane (sys_waiters y ! i)) (sys_now y),
         sys_waiters := remove_nth i (sys_waiters y),
         sys_grants := grant_of (grant s1 (pass_of s1 (sys_now y)) (wt_lane (sys_waiters y ! i)) (sys_now y))
                         (wt_lane (sys_waiters y ! i)) (sys_now y) # sys_grants y\<rparr>"
  | (waits) ws where
      "ws = sys_waiters y \<or> ws = (sys_waiters y)[i := (sys_waiters y ! i)\<lparr>wt_refused := True\<rparr>]"
      "lstep y (EvPoll i) = y\<lparr>
         sys_lim := expire_lost_probe (sys_lim y) (sys_now y) (sys_utc y), sys_waiters := ws\<rparr>"
proof -
  let ?w = "sys_waiters y ! i"
  let ?s1 = "expire_lost_probe (sys_lim y) (sys_now y) (sys_utc y)"
  define r where "r = fst (poll_slot (sys_lim y) (wt_lane ?w) (wt_fail_fast ?w) (sys_now y) (sys_utc y))"
  show ?thesis
  proof (cases "r = Granted")
    case True
    with granted[of ?s1] show ?thesis
      using poll_granted_iff[of "sys_lim y" "wt_lane ?w" "wt_fail_fast ?w" "sys_now y" "sys_utc y"]
        poll_slot_pair[of "sys_lim y" "wt_lane ?w" "wt_fail_fast ?w" "sys_now y" "sys_utc y"]
      by (simp add: r_def Let_def)
  next
    case False
    have "poll_slot (sys_lim y) (wt_lane ?w) (wt_fail_fast ?w) (sys_now y) (sys_utc y) = (r, ?s1)"
      using poll_slot_pair[of "sys_lim y" "wt_lane ?w" "wt_fail_fast ?w" "sys_now y" "sys_utc y"] False
      by (simp add: r_def)
    with False show ?thesis
      by (intro waits[of "sys_waiters (lstep y (EvPoll i))"]) (auto simp: Let_def split: poll_result.splits)
  qed
qed

lemmas lstep_poll_simp = lstep.simps(2)
declare lstep.simps(2) [simp del]

lemma counts_inv_step: "counts_inv y \<Longrightarrow> lenabled y e \<Longrightarrow> counts_inv (lstep y e)"
proof (cases e)
  case (EvStart l ff)
  then show "counts_inv y \<Longrightarrow> ?thesis"
    by (cases l) (simp_all add: counts_inv_def start_wait_def incr_def)
next
  case (EvDrop i)
  then show "counts_inv y \<Longrightarrow> lenabled y e \<Longrightarrow> ?thesis"
    by (cases "wt_lane (sys_waiters y ! i)") (simp_all add: counts_inv_def drop_wait_def decr_def)
next
  case (EvPoll i)
  assume inv: "counts_inv y" and en: "lenabled y e"
  then have en': "lenabled y (EvPoll i)" "i < length (sys_waiters y)" by (simp_all add: EvPoll)
  from en'(1) show ?thesis
  proof (cases rule: lstep_poll_cases)
    case (granted s1)
    with inv en'(2) show ?thesis
      by (cases "wt_lane (sys_waiters y ! i)")
         (simp_all add: EvPoll counts_inv_def decr_def incr_def grant_of_def)
  next
    case (waits ws)
    with inv en'(2) show ?thesis by (auto simp: EvPoll counts_inv_def)
  qed
qed (auto simp: counts_inv_def)

interpretation lim_counts: guarded_machine lstep lenabled counts_inv
  by unfold_locales (rule counts_inv_step)

lemma counts_inv_init: "counts_inv (linit rate now u)"
  by (simp add: counts_inv_def linit_def new_limiter_def waits_in_def)

section \<open>Spacing of the grants\<close>

lemma interval_of_antimono: "0 < a \<Longrightarrow> a \<le> b \<Longrightarrow> interval_of b \<le> interval_of a"
  unfolding interval_of_def by (intro round_mono divide_left_mono) auto

lemma set_rate_interval: "min_interval \<le> interval (set_rate_per_second s r)"
  unfolding min_interval_def set_rate_per_second_def Let_def
  by (simp, intro interval_of_antimono) (auto simp: rate_lo_def rate_hi_def)

lemma spacing_inv_step: "spacing_inv y \<Longrightarrow> lenabled y e \<Longrightarrow> spacing_inv (lstep y e)"
proof (cases e)
  case (EvPoll i)
  assume inv: "spacing_inv y" and en: "lenabled y e"
  then have "lenabled y (EvPoll i)" by (simp add: EvPoll)
  then show ?thesis
  proof (cases rule: lstep_poll_cases)
    case (granted s1)
    with inv show ?thesis
      by (cases "sys_grants y") (auto simp: EvPoll spacing_inv_def grant_of_def next_slot_def)
  next
    case (waits ws)
    with inv show ?thesis by (simp add: EvPoll spacing_inv_def)
  qed
qed (auto simp: spacing_inv_def set_rate_interval)

interpretation lim_spacing: guarded_machine lstep lenabled spacing_inv
  by unfold_locales (rule spacing_inv_step)

lemma spacing_inv_init: "0 < rate \<Longrightarrow> rate \<le> rate_hi \<Longrightarrow> spacing_inv (linit rate now u)"
  by (simp add: spacing_inv_def linit_def new_limiter_def min_interval_def interval_of_antimono)

section \<open>Probes of the open breaker\<close>

lemma probes_simps [simp]:
  "probes [] = []" "probes (g # gs) = (case gr_period g of None \<Rightarrow> probes gs | Some p \<Rightarrow> p # probes gs)"
  by (auto simp: probes_def List.map_filter_def split: option.splits)

lemma breaker_ok_trip: "breaker_ok s gs \<Longrightarrow> breaker_ok (trip s now u r) gs"
  by (fastforce simp: breaker_ok_def trip_breaker)

lemma breaker_ok_close: "breaker_ok s gs \<Longrightarrow> breaker_ok (s\<lparr>transport_errors_in_row := n, breaker := None\<rparr>) gs"
  by (auto simp: breaker_ok_def)

lemma breaker_ok_count:
  "breaker_ok (s\<lparr>rate_limited_total := n\<rparr>) gs = breaker_ok s gs"
  "breaker_ok (s\<lparr>transport_errors_in_row := n\<rparr>) gs = breaker_ok s gs"
  by (simp_all add: breaker_ok_def)

lemma breaker_ok_expire: "breaker_ok s gs \<Longrightarrow> breaker_ok (expire_lost_probe s now u) gs"
  by (rule expire_cases[of s now u]) (simp_all add: breaker_ok_trip)

lemma breaker_ok_report: "breaker_ok s gs \<Longrightarrow> breaker_ok (report s out now u) gs"
  by (cases out)
     (auto simp: report_def Let_def breaker_ok_count breaker_ok_close intro!: breaker_ok_close breaker_ok_trip breaker_ok_expire
        simp del: fun_upd_apply)

lemma breaker_ok_grant:
  assumes ok: "breaker_ok s gs" and free: "\<forall>t r. pass_of s now \<noteq> Blocked t r"
  shows "breaker_ok (grant s (pass_of s now) lane now) (grant_of (grant s (pass_of s now) lane now) lane now # gs)"
  using free
proof (cases rule: pass_open_cases)
  case closed
  with ok show ?thesis
    by (simp add: breaker_ok_def grant_of_def grant_breaker)
next
  case (probe op)
  with ok show ?thesis
    by (fastforce simp: breaker_ok_def grant_of_def grant_breaker)
qed

lemma breaker_inv_step: "breaker_inv y \<Longrightarrow> lenabled y e \<Longrightarrow> breaker_inv (lstep y e)"
proof (cases e)
  case (EvPoll i)
  assume inv: "breaker_inv y" and en: "lenabled y e"
  then have "lenabled y (EvPoll i)" by (simp add: EvPoll)
  then show ?thesis
  proof (cases rule: lstep_poll_cases)
    case (granted s1)
    with inv show ?thesis
      by (simp add: EvPoll breaker_inv_def breaker_ok_expire breaker_ok_grant)
  next
    case (waits ws)
    with inv show ?thesis by (simp add: EvPoll breaker_inv_def breaker_ok_expire)
  qed
next
  case (EvReport out)
  then show "breaker_inv y \<Longrightarrow> ?thesis" by (simp add: breaker_inv_def breaker_ok_report)
next
  case EvLook
  then show "breaker_inv y \<Longrightarrow> ?thesis" by (simp add: breaker_inv_def breaker_ok_expire)
next
  case (EvStart l ff)
  then show "breaker_inv y \<Longrightarrow> ?thesis" by (simp add: breaker_inv_def start_wait_def breaker_ok_def)
next
  case (EvDrop i)
  then show "breaker_inv y \<Longrightarrow> ?thesis" by (simp add: breaker_inv_def drop_wait_def breaker_ok_def)
next
  case (EvRate r)
  then show "breaker_inv y \<Longrightarrow> ?thesis" by (simp add: breaker_inv_def set_rate_per_second_def Let_def breaker_ok_def)
qed (simp add: breaker_inv_def)

interpretation lim_breaker: guarded_machine lstep lenabled breaker_inv
  by unfold_locales (rule breaker_inv_step)

lemma breaker_inv_init: "breaker_inv (linit rate now u)"
  by (simp add: breaker_inv_def breaker_ok_def linit_def new_limiter_def)

section \<open>Properties\<close>


definition demo_events :: "lim_event list" where
  "demo_events =
     [EvReport Challenge, EvStart Hot False, EvTick (secs 899) 0, EvPoll 0, EvTick (secs 1) 0, EvPoll 0,
      EvStart Trader False, EvPoll 0, EvReport OutOk, EvTick (secs 1) 0, EvPoll 0]"

lemmas lim_eval = demo_events_def linit_def new_limiter_def interval_of_def report_def expire_lost_probe_def
  trip_def trip_step_def breaker_period_def breaker_steps_def start_wait_def incr_def decr_def secs_def
  poll_slot_def lim_pass_def pass_of_def higher_waits_def ready_at_def next_slot_def grant_def grant_of_def
  remove_nth_def probe_timeout_def ladder_reset_after_def Let_def lstep_poll_simp

lemma demo_run:
  "all_enabled lstep lenabled (linit 2 0 0) demo_events"
  "length (sys_grants (run lstep (linit 2 0 0) demo_events)) = 2"
  "map fst (probes (sys_grants (run lstep (linit 2 0 0) demo_events))) = [1]"
  by (simp_all add: lim_eval)



lemma spaced_nth: "spaced gs \<Longrightarrow> Suc i < length gs \<Longrightarrow> gr_at (gs ! Suc i) + min_interval \<le> gr_at (gs ! i)"
proof (induction gs arbitrary: i rule: spaced.induct)
  case (1 g h gs)
  then show ?case by (cases i) auto
qed auto

lemma min_interval_value: "min_interval = 344827586"
  by (simp add: min_interval_def interval_of_def rate_hi_def round_def floor_eq_iff)

text \<open>
  C2. Whatever rates are set on the way, two consecutive grants of a run that starts with a
  rate of at most 2.9 per second are at least the reciprocal of 2.9, 344827586 ns, apart:
  a rate change, an open breaker or a lane change never lets two requests through together.
\<close>

theorem grants_are_spaced:
  assumes "0 < rate" "rate \<le> rate_hi" "all_enabled lstep lenabled (linit rate now u) es"
    and "Suc i < length (sys_grants (run lstep (linit rate now u) es))"
  shows "gr_at (sys_grants (run lstep (linit rate now u) es) ! Suc i) + 344827586
           \<le> gr_at (sys_grants (run lstep (linit rate now u) es) ! i)"
  using lim_spacing.run_inv[OF spacing_inv_init[OF assms(1,2)] assms(3)] assms(4) spaced_nth
  by (auto simp: spacing_inv_def min_interval_value[symmetric])

theorem grants_are_spaced_witness:
  "gr_at (sys_grants (run lstep (linit 2 0 0) demo_events) ! Suc 0) + 344827586
     \<le> gr_at (sys_grants (run lstep (linit 2 0 0) demo_events) ! 0)"
  using grants_are_spaced[of 2 0 0 demo_events 0] by (simp add: demo_run rate_hi_def)

lemma higher_waits_iff:
  assumes "counts_inv y"
  shows "higher_waits (sys_lim y) l \<longleftrightarrow> (\<exists>w\<in>set (sys_waiters y). wt_lane w < l)"
  using assms
  by (cases l) (auto simp: counts_inv_def higher_waits_def waits_in_pos lane_less)

text \<open>
  In every reachable state a waiting request gets its slot exactly when no request of a
  higher lane is waiting, its slot time has come, and the breaker is closed or its period is
  over with no probe out (the request then becomes the probe). So a lane is served only while
  no higher lane waits, and nothing else holds a request back.
\<close>

theorem slot_granted_iff:
  assumes "all_enabled lstep lenabled (linit rate now0 u0) es"
  defines "y \<equiv> run lstep (linit rate now0 u0) es"
  defines "s1 \<equiv> expire_lost_probe (sys_lim y) (sys_now y) (sys_utc y)"
  shows "fst (poll_slot (sys_lim y) lane ff (sys_now y) (sys_utc y)) = Granted \<longleftrightarrow>
           \<not> (\<exists>w\<in>set (sys_waiters y). wt_lane w < lane)
         \<and> next_slot s1 (sys_now y) \<le> sys_now y
         \<and> (case breaker s1 of None \<Rightarrow> True | Some op \<Rightarrow> op_probe op = None \<and> op_until op \<le> sys_now y)"
proof -
  have inv: "counts_inv y"
    unfolding y_def by (rule lim_counts.run_inv[OF counts_inv_init assms(1)])
  have "higher_waits s1 lane = higher_waits (sys_lim y) lane"
    by (simp add: s1_def higher_waits_def)
  moreover have "(\<forall>t r. pass_of s1 (sys_now y) \<noteq> Blocked t r) \<longleftrightarrow>
      (case breaker s1 of None \<Rightarrow> True | Some op \<Rightarrow> op_probe op = None \<and> op_until op \<le> sys_now y)"
    by (auto simp: pass_of_def split: option.splits)
  ultimately show ?thesis
    by (simp add: poll_granted_iff Let_def s1_def[symmetric] higher_waits_iff[OF inv])
qed

theorem slot_granted_iff_witness:
  "fst (poll_slot (sys_lim (run lstep (linit 2 0 0) demo_events)) Cold True
          (sys_now (run lstep (linit 2 0 0) demo_events)) (sys_utc (run lstep (linit 2 0 0) demo_events))) \<noteq> Granted"
  using slot_granted_iff[OF demo_run(1), of Cold True] by (simp add: lim_eval)

text \<open>
  The waiting counters are exact in every reachable state: each lane's counter is the
  number of its live waiters, so dropping a waiter's guard or granting a slot never takes a
  counter of zero down (in the code an unsigned underflow), and the granted counters count the
  grants.
\<close>

theorem waiting_counts_exact:
  assumes "all_enabled lstep lenabled (linit rate now u) es"
  shows "let y = run lstep (linit rate now u) es in
           waiting (sys_lim y) ! lane_index l = length (filter (\<lambda>w. wt_lane w = l) (sys_waiters y))
         \<and> granted (sys_lim y) ! lane_index l = length (filter (\<lambda>g. gr_lane g = l) (sys_grants y))
         \<and> (\<forall>i<length (sys_waiters y). 0 < waiting (sys_lim y) ! lane_index (wt_lane (sys_waiters y ! i)))"
proof -
  have inv: "counts_inv (run lstep (linit rate now u) es)"
    by (rule lim_counts.run_inv[OF counts_inv_init assms])
  have count: "waiting (sys_lim (run lstep (linit rate now u) es)) ! lane_index l =
      waits_in (sys_waiters (run lstep (linit rate now u) es)) l" for l
    using inv by (cases l) (simp_all add: counts_inv_def)
  have "granted (sys_lim (run lstep (linit rate now u) es)) ! lane_index l =
      length (filter (\<lambda>g. gr_lane g = l) (sys_grants (run lstep (linit rate now u) es)))"
    using inv by (cases l) (simp_all add: counts_inv_def)
  then show ?thesis
    by (auto simp: Let_def count waits_in_pos) (simp add: waits_in_def)
qed

theorem waiting_counts_exact_witness:
  "waiting (sys_lim (run lstep (linit 2 0 0) demo_events)) ! lane_index Trader = 0"
  using waiting_counts_exact[OF demo_run(1), of Trader] by (simp add: lim_eval)

text \<open>
  A request at the head of its queue that is told to wait until some instant does get its
  slot when it wakes then, if the breaker had no probe out: the wake-up time is neither early
  (it lies in the future) nor too late to need another wait.
\<close>

theorem wake_up_is_enough:
  assumes "poll_slot s lane ff now u = (WaitUntil t, s1)"
    and "\<forall>op. breaker s1 = Some op \<longrightarrow> op_probe op = None"
  shows "now < t \<and> fst (poll_slot s1 lane ff t u') = Granted"
proof -
  have s1: "s1 = expire_lost_probe s now u"
    using poll_other_state[of s lane ff now u] assms(1) by simp
  have t: "t = ready_at s1 (pass_of s1 now) now" "\<not> higher_waits s1 lane" "now < t"
    using assms(1)
    by (auto simp: poll_slot_def lim_pass_def Let_def s1[symmetric] split: bool.splits pass.splits if_splits)
  have "expire_lost_probe s1 t u' = s1"
    using assms(2) by (auto simp: expire_lost_probe_def split: option.splits)
  then show ?thesis
    using t assms(2)
    by (auto simp: poll_granted_iff Let_def ready_at_def next_slot_def pass_of_def
        split: option.splits pass.splits if_splits)
qed

theorem wake_up_is_enough_witness:
  "fst (poll_slot (report (new_limiter 2) RateLimited 0 0) Hot False (secs 900) 0) = Granted"
  using wake_up_is_enough[of "report (new_limiter 2) RateLimited 0 0" Hot False 0 0 "secs 900"
      "report (new_limiter 2) RateLimited 0 0" 0]
  by (simp add: lim_eval)


text \<open>
  What a report does while the breaker is open. With no probe out it is a straggler: only
  the 429 counter may move. With a probe out for less than a minute, a normal response closes
  the breaker, and any other outcome reopens it one step higher on the ladder of 15 minutes,
  1 hour, 4 hours, 4 hours, ..., keeping the time it was first opened.
\<close>

theorem report_while_open:
  assumes "breaker s = Some op" "\<forall>t. op_probe op = Some t \<longrightarrow> now < t + probe_timeout"
  shows "case op_probe op of
      None \<Rightarrow> report s out now u = s\<lparr>rate_limited_total := rate_limited_total s + of_bool (out = RateLimited)\<rparr>
    | Some _ \<Rightarrow>
        if out = OutOk then breaker (report s out now u) = None \<and> trips_total (report s out now u) = trips_total s
        else (\<exists>op'. breaker (report s out now u) = Some op'
                \<and> op_step op' = op_step op + 1 \<and> op_probe op' = None \<and> op_opened_at op' = op_opened_at op
                \<and> op_until op' = now + mins ([15, 60, 240] ! min (op_step op + 1) 2)
                \<and> last_trip_at (report s out now u) = Some (now, op_step op + 1))"
proof -
  have kept: "expire_lost_probe s now u = s"
    using assms by (auto simp: expire_lost_probe_def split: option.splits)
  have period: "breaker_period k = mins ([15, 60, 240] ! min k 2)" for k
    by (cases k; cases "k - 1"; cases "k - 2")
       (auto simp: breaker_period_def breaker_steps_def mins_def secs_def min_def numeral_2_eq_2 less_Suc_eq)
  show ?thesis
    using assms(1) kept
    by (cases "op_probe op"; cases out)
       (auto simp: report_def Let_def trip_breaker trip_step_def period)
qed

theorem report_while_open_witness:
  "breaker (report ((report (new_limiter 2) Challenge 0 0)\<lparr>rate_limited_total := 4\<rparr>) OutOk 5 0) \<noteq> None
   \<and> report (report (new_limiter 2) Challenge 0 0) OutOk 5 0 = report (new_limiter 2) Challenge 0 0"
  using report_while_open[of "report (new_limiter 2) Challenge 0 0"
      "the (breaker (report (new_limiter 2) Challenge 0 0))" 5 OutOk 0]
  by (simp add: lim_eval)

lemma gate_outcome_eq:
  "gate_outcome status challenge =
     (if status = 429 then RateLimited
      else if challenge \<and> 400 \<le> status then Challenge
      else if 500 \<le> status then TransportError else OutOk)"
  by (simp add: gate_outcome_def outcome_of_def header_def eq_ignore_ascii_case_def
      to_ascii_lowercase_def ascii_lower_def)

text \<open>
  The flag that wf-market's gate computes carries all the adapter needs: judging a response
  by its status and the flag \<open>is_challenge\<close> gives the same outcome as judging its headers.
\<close>

theorem gate_agrees_with_limiter:
  "gate_outcome status (is_challenge status headers) = outcome_of status headers"
proof -
  have "is_challenge status headers \<Longrightarrow> 400 \<le> status"
    by (auto simp: is_challenge_def)
  then show ?thesis
    unfolding gate_outcome_eq outcome_of_def is_challenge_def[symmetric] by auto
qed

lemma flagged_is_not_always_challenge:
  "gate_outcome 429 True = RateLimited" "gate_outcome 200 True = OutOk"
  by (simp_all add: gate_outcome_eq)

end
