(* ===== verification/Session_Health.thy ===== *)
theory Session_Health
  imports Prelude
begin

text \<open>
  What the trader knows about its two counterparts: the warframe.market session
  (\<open>qf_core/src/trader/session.rs\<close>) and the latest qf-helper heartbeat
  (\<open>qf_core/src/helper_link/presence.rs\<close>). Each mutex-protected cell is a record; its
  methods are state transformers that take the clock reading the code passes in.
\<close>

section \<open>The warframe.market session\<close>

definition token_fresh_minutes :: int where
  "token_fresh_minutes = 20"

definition expiry_warning_days :: int where
  "expiry_warning_days = 7"

record session_snapshot =
  sn_signed_in :: bool
  sn_token_valid :: bool
  sn_unauthorized :: bool
  sn_ws_connected :: bool
  sn_ws_down_for_s :: "int option"
  sn_last_me_ok_at :: "stamp option"
  sn_token_expires_at :: "stamp option"

record session =
  se_signed_in :: bool
  se_unauthorized :: bool
  se_last_me_ok :: "utc option"
  se_ws_connected :: bool
  se_ws_down_since :: "utc option"
  se_token_expires_at :: "utc option"
  se_last_expiry_alert :: "utc option"

definition new_session :: session where
  "new_session = \<lparr>se_signed_in = False, se_unauthorized = False, se_last_me_ok = None,
     se_ws_connected = False, se_ws_down_since = None, se_token_expires_at = None,
     se_last_expiry_alert = None\<rparr>"

definition mark_signed_in :: "session \<Rightarrow> utc \<Rightarrow> utc option \<Rightarrow> session" where
  "mark_signed_in s now expires =
     s\<lparr>se_signed_in := True, se_unauthorized := False, se_last_me_ok := Some now,
       se_token_expires_at := expires, se_last_expiry_alert := None\<rparr>"

definition mark_signed_out :: "session \<Rightarrow> session" where
  "mark_signed_out s =
     s\<lparr>se_signed_in := False, se_unauthorized := False, se_last_me_ok := None,
       se_token_expires_at := None, se_last_expiry_alert := None\<rparr>"

definition mark_me_ok :: "session \<Rightarrow> utc \<Rightarrow> session" where
  "mark_me_ok s now =
     (if se_signed_in s then s\<lparr>se_last_me_ok := Some now, se_unauthorized := False\<rparr> else s)"

definition mark_unauthorized :: "session \<Rightarrow> session" where
  "mark_unauthorized s = s\<lparr>se_unauthorized := True\<rparr>"

definition set_ws_connected :: "session \<Rightarrow> bool \<Rightarrow> utc \<Rightarrow> session" where
  "set_ws_connected s up now =
     (if up then s\<lparr>se_ws_connected := True, se_ws_down_since := None\<rparr>
      else s\<lparr>se_ws_connected := False,
             se_ws_down_since := (case se_ws_down_since s of None \<Rightarrow> Some now | Some t \<Rightarrow> Some t)\<rparr>)"

definition session_snapshot_of :: "session \<Rightarrow> utc \<Rightarrow> session_snapshot" where
  "session_snapshot_of s now =
     \<lparr>sn_signed_in = se_signed_in s,
      sn_token_valid = (se_signed_in s \<and> \<not> se_unauthorized s
        \<and> (case se_last_me_ok s of None \<Rightarrow> False | Some t \<Rightarrow> now - t \<le> mins token_fresh_minutes)),
      sn_unauthorized = se_unauthorized s,
      sn_ws_connected = se_ws_connected s,
      sn_ws_down_for_s = (if se_ws_connected s then None
                          else map_option (\<lambda>t. num_seconds (now - t)) (se_ws_down_since s)),
      sn_last_me_ok_at = map_option ts (se_last_me_ok s),
      sn_token_expires_at = map_option ts (se_token_expires_at s)\<rparr>"

definition expiry_alert_due :: "session \<Rightarrow> utc \<Rightarrow> utc option \<times> session" where
  "expiry_alert_due s now =
     (case se_token_expires_at s of
        None \<Rightarrow> (None, s)
      | Some expires \<Rightarrow>
          if \<not> se_signed_in s \<or> days expiry_warning_days < expires - now then (None, s)
          else if (case se_last_expiry_alert s of None \<Rightarrow> False | Some t \<Rightarrow> now - t < hours 24) then (None, s)
          else (Some expires, s\<lparr>se_last_expiry_alert := Some now\<rparr>))"

text \<open>What \<open>check_me_once\<close> does with the answer of \<open>/me\<close>; without app state nothing is asked.\<close>

datatype me_answer = MeOk | MeUnauthorized | MeFailed

definition check_me_once :: "session \<Rightarrow> utc \<Rightarrow> me_answer option \<Rightarrow> utc \<Rightarrow> session" where
  "check_me_once s now answer later =
     (if \<not> sn_signed_in (session_snapshot_of s now) then s
      else case answer of
        None \<Rightarrow> s
      | Some MeOk \<Rightarrow> mark_me_ok s later
      | Some MeUnauthorized \<Rightarrow> mark_unauthorized s
      | Some MeFailed \<Rightarrow> s)"

section \<open>The helper's heartbeat\<close>

definition ready_within_s :: int where "ready_within_s = 30"
definition silent_after_s :: int where "silent_after_s = 60"

record heartbeat =
  hb_warframe_running :: bool
  hb_version :: string

record helper_snapshot =
  hs_connected :: bool
  hs_warframe_running :: bool
  hs_seconds_since_heartbeat :: "int option"
  hs_last_heartbeat_at :: "stamp option"
  hs_device_name :: "string option"
  hs_version :: "string option"

record last_beat =
  lb_at :: utc
  lb_device_name :: string
  lb_heartbeat :: heartbeat

type_synonym presence = "last_beat option"

definition presence_record :: "presence \<Rightarrow> string \<Rightarrow> heartbeat \<Rightarrow> utc \<Rightarrow> presence" where
  "presence_record p device hb now =
     Some \<lparr>lb_at = now, lb_device_name = device, lb_heartbeat = hb\<rparr>"

definition no_helper :: helper_snapshot where
  "no_helper = \<lparr>hs_connected = False, hs_warframe_running = False, hs_seconds_since_heartbeat = None,
     hs_last_heartbeat_at = None, hs_device_name = None, hs_version = None\<rparr>"

definition presence_snapshot :: "presence \<Rightarrow> utc \<Rightarrow> helper_snapshot" where
  "presence_snapshot p now =
     (case p of
        None \<Rightarrow> no_helper
      | Some lb \<Rightarrow>
          let since = max 0 (num_seconds (now - lb_at lb)) in
          \<lparr>hs_connected = (since \<le> ready_within_s),
           hs_warframe_running = hb_warframe_running (lb_heartbeat lb),
           hs_seconds_since_heartbeat = Some since,
           hs_last_heartbeat_at = Some (ts (lb_at lb)),
           hs_device_name = Some (lb_device_name lb),
           hs_version = Some (hb_version (lb_heartbeat lb))\<rparr>)"

lemmas session_ops = new_session_def mark_signed_in_def mark_signed_out_def mark_me_ok_def
  mark_unauthorized_def set_ws_connected_def session_snapshot_of_def expiry_alert_due_def check_me_once_def

section \<open>The session as a machine\<close>

datatype session_event =
    SeSignIn utc "utc option"
  | SeSignOut
  | SeUnauthorized
  | SeWs bool utc
  | SeMe utc "me_answer option" utc
  | SeAlert utc

record session_sys =
  sy_session :: session
  sy_alerts :: "utc list"
  sy_clock :: utc

text \<open>
  The alerts sent (newest first) since the last sign-in or sign-out are logged beside the session.
\<close>

fun session_step :: "session_sys \<Rightarrow> session_event \<Rightarrow> session_sys" where
  "session_step y (SeSignIn now ex) =
     y\<lparr>sy_session := mark_signed_in (sy_session y) now ex, sy_alerts := [], sy_clock := now\<rparr>"
| "session_step y SeSignOut = y\<lparr>sy_session := mark_signed_out (sy_session y), sy_alerts := []\<rparr>"
| "session_step y SeUnauthorized = y\<lparr>sy_session := mark_unauthorized (sy_session y)\<rparr>"
| "session_step y (SeWs c now) = y\<lparr>sy_session := set_ws_connected (sy_session y) c now, sy_clock := now\<rparr>"
| "session_step y (SeMe now a later) =
     y\<lparr>sy_session := check_me_once (sy_session y) now a later, sy_clock := later\<rparr>"
| "session_step y (SeAlert now) =
     (case expiry_alert_due (sy_session y) now of
        (None, s) \<Rightarrow> y\<lparr>sy_session := s, sy_clock := now\<rparr>
      | (Some _, s) \<Rightarrow> y\<lparr>sy_session := s, sy_alerts := now # sy_alerts y, sy_clock := now\<rparr>)"

text \<open>Clock readings never go back.\<close>

fun session_enabled :: "session_sys \<Rightarrow> session_event \<Rightarrow> bool" where
  "session_enabled y (SeSignIn now ex) = (sy_clock y \<le> now)"
| "session_enabled y (SeWs c now) = (sy_clock y \<le> now)"
| "session_enabled y (SeMe now a later) = (sy_clock y \<le> now \<and> now \<le> later)"
| "session_enabled y (SeAlert now) = (sy_clock y \<le> now)"
| "session_enabled y _ = True"

definition session_init :: "utc \<Rightarrow> session_sys" where
  "session_init now = \<lparr>sy_session = new_session, sy_alerts = [], sy_clock = now\<rparr>"

fun daily :: "utc list \<Rightarrow> bool" where
  "daily (a # b # as) = (b + hours 24 \<le> a \<and> daily (b # as))"
| "daily _ = True"

definition session_inv :: "session_sys \<Rightarrow> bool" where
  "session_inv y \<longleftrightarrow>
     (let s = sy_session y in
      (\<not> se_signed_in s \<longrightarrow> se_last_me_ok s = None \<and> se_token_expires_at s = None)
    \<and> (se_signed_in s \<longrightarrow> (\<exists>t. se_last_me_ok s = Some t \<and> t \<le> sy_clock y))
    \<and> (se_ws_connected s \<longrightarrow> se_ws_down_since s = None)
    \<and> (\<forall>t. se_ws_down_since s = Some t \<longrightarrow> t \<le> sy_clock y)
    \<and> se_last_expiry_alert s = (case sy_alerts y of [] \<Rightarrow> None | a # _ \<Rightarrow> Some a)
    \<and> daily (sy_alerts y))"

lemma session_inv_step: "session_inv y \<Longrightarrow> session_enabled y e \<Longrightarrow> session_inv (session_step y e)"
proof (cases e)
  case (SeAlert now)
  assume inv: "session_inv y" and en: "session_enabled y e"
  show ?thesis
  proof (cases "expiry_alert_due (sy_session y) now")
    case (Pair due s)
    with inv en show ?thesis
      by (cases "sy_alerts y")
         (force simp: SeAlert session_inv_def Let_def expiry_alert_due_def split: option.splits if_splits)+
  qed
next
  case (SeMe now a later)
  then show "session_inv y \<Longrightarrow> session_enabled y e \<Longrightarrow> ?thesis"
    by (cases a) (auto simp: session_inv_def Let_def session_ops split: me_answer.splits)
qed (force simp: session_inv_def Let_def session_ops split: option.splits)+

interpretation session_machine: guarded_machine session_step session_enabled session_inv
  by unfold_locales (rule session_inv_step)

lemma session_inv_init: "session_inv (session_init now)"
  by (simp add: session_inv_def session_init_def new_session_def)


lemma session_expires_signed_in:
  "session_inv y \<Longrightarrow> se_token_expires_at (sy_session y) \<noteq> None \<Longrightarrow> se_signed_in (sy_session y)"
  by (auto simp: session_inv_def Let_def)

lemma daily_head: "daily (a # as) \<Longrightarrow> j < length as \<Longrightarrow> as ! j + hours 24 * (int j + 1) \<le> a"
proof (induction as arbitrary: a j)
  case (Cons b as)
  show ?case
  proof (cases j)
    case 0
    with Cons.prems show ?thesis by simp
  next
    case (Suc k)
    with Cons.prems have "as ! k + hours 24 * (int k + 1) \<le> b" by (intro Cons.IH) auto
    with Cons.prems Suc show ?thesis by (simp add: algebra_simps)
  qed
qed simp

lemma daily_tail: "daily (a # as) \<Longrightarrow> daily as"
  by (cases as) auto

lemma daily_nth: "daily as \<Longrightarrow> i < j \<Longrightarrow> j < length as \<Longrightarrow> as ! j + hours 24 * (int j - int i) \<le> as ! i"
proof (induction as arbitrary: i j)
  case (Cons a as)
  then obtain k where k: "j = Suc k" by (cases j) auto
  show ?case
  proof (cases i)
    case 0
    with Cons.prems k daily_head[of a as k] show ?thesis by (simp add: algebra_simps)
  next
    case (Suc l)
    with Cons.prems k Cons.IH[of l k] daily_tail show ?thesis by auto
  qed
qed simp

section \<open>Properties\<close>

text \<open>
  In every history of sign-ins, sign-outs, /me checks, 401 answers, websocket changes and
  alert checks whose clock does not run backwards, two token expiry alerts of one sign-in are
  at least 24 hours apart (k alerts apart: k days), and the snapshot calls the token valid only
  if the last successful sign-in or /me check is at most 20 minutes old.
\<close>

theorem session_alerts_and_validity:
  assumes "all_enabled session_step session_enabled (session_init now0) es"
  shows "let y = run session_step (session_init now0) es in
           (\<forall>i j. i < j \<and> j < length (sy_alerts y) \<longrightarrow> sy_alerts y ! j + hours 24 * (int j - int i) \<le> sy_alerts y ! i)
         \<and> (\<forall>now. sn_token_valid (session_snapshot_of (sy_session y) now) \<longrightarrow>
              (\<exists>t. se_last_me_ok (sy_session y) = Some t \<and> t \<le> sy_clock y \<and> now - t \<le> mins 20)
              \<and> \<not> sn_unauthorized (session_snapshot_of (sy_session y) now))"
proof -
  have "session_inv (run session_step (session_init now0) es)"
    by (rule session_machine.run_inv[OF session_inv_init assms])
  then show ?thesis
    by (auto simp: session_inv_def Let_def session_snapshot_of_def token_fresh_minutes_def
        split: option.splits intro!: daily_nth)
qed

definition demo_session :: "session_event list" where
  "demo_session = [SeSignIn 0 (Some (days 6)), SeAlert 1, SeAlert (hours 23), SeAlert (hours 24 + 1),
     SeMe (hours 25) (Some MeOk) (hours 25)]"

lemma demo_session_run:
  "all_enabled session_step session_enabled (session_init 0) demo_session"
  "sy_alerts (run session_step (session_init 0) demo_session) = [hours 24 + 1, 1]"
  by (simp_all add: demo_session_def session_init_def session_ops days_def hours_def secs_def expiry_warning_days_def)

theorem session_alerts_and_validity_witness:
  "sy_alerts (run session_step (session_init 0) demo_session) ! 1 + hours 24
     \<le> sy_alerts (run session_step (session_init 0) demo_session) ! 0"
  using session_alerts_and_validity[OF demo_session_run(1)] demo_session_run(2)
  by (auto simp: Let_def dest!: spec[of _ "0::nat"] spec[of _ "1::nat"])

lemma presence_latest:
  "presence_snapshot (presence_record p d hb t) now =
     (let since = max 0 (num_seconds (now - t)) in
      \<lparr>hs_connected = (since \<le> 30), hs_warframe_running = hb_warframe_running hb,
       hs_seconds_since_heartbeat = Some since, hs_last_heartbeat_at = Some (ts t),
       hs_device_name = Some d, hs_version = Some (hb_version hb)\<rparr>)"
  by (simp add: presence_snapshot_def presence_record_def Let_def ready_within_s_def)

lemma presence_connected_not_silent:
  "hs_connected (presence_snapshot p now) \<Longrightarrow>
   \<exists>s. hs_seconds_since_heartbeat (presence_snapshot p now) = Some s \<and> 0 \<le> s \<and> s \<le> silent_after_s"
  by (auto simp: presence_snapshot_def no_helper_def Let_def ready_within_s_def silent_after_s_def split: option.splits)

end
