(* ===== verification/Lifecycle.thy ===== *)
theory Lifecycle
  imports Session_Health
begin

text \<open>
  The trader's pure rules: the start checklist and the stop triggers
  (\<open>qf_core/src/trader/lifecycle.rs\<close>), and the engine's run loop with its error
  classification (\<open>qf_core/src/trader/engine.rs\<close>).

  A cycle of the loop is the record of what the loop observes in it, in the order it looks:
  the running flag, the breaker, the result of \<open>check\<close>, the breaker again (only after an
  error), the breaker once more and the failure counter. \<open>run_loop\<close> consumes one such record
  per cycle; it returns \<open>None\<close> when the given cycles do not end it.
\<close>

section \<open>Checklist and stop triggers\<close>

definition ws_down_limit_s :: int where
  "ws_down_limit_s = 60"

datatype lifecycle_state = Offline | Ready | Trading | Stopping

record checklist =
  ck_token_valid :: bool
  ck_ws_connected :: bool
  ck_game_data_loaded :: bool
  ck_helper_connected :: bool
  ck_warframe_running :: bool
  ck_auto_delete_off :: bool
  ck_market_reachable :: bool

definition ready :: "checklist \<Rightarrow> bool" where
  "ready c \<longleftrightarrow> ck_token_valid c \<and> ck_ws_connected c \<and> ck_game_data_loaded c
     \<and> ck_helper_connected c \<and> ck_warframe_running c \<and> ck_market_reachable c"

definition ready_for :: "checklist \<Rightarrow> bool \<Rightarrow> bool" where
  "ready_for c dry_run \<longleftrightarrow> ready c \<and> (dry_run \<or> ck_auto_delete_off c)"

datatype stop_reason =
    UserStop
  | SignedOut
  | UnauthorizedStop
  | WebsocketDown
  | HelperSilent
  | WarframeClosed
  | TraderCritical string
  | OrderFailures nat
  | TraderPanic string
  | MarketBlocked string

fun describe :: "stop_reason \<Rightarrow> string" where
  "describe UserStop = ''Stop button''"
| "describe SignedOut = ''Signed out of warframe.market''"
| "describe UnauthorizedStop = ''warframe.market returned 401 Unauthorized''"
| "describe WebsocketDown =
     ''warframe.market websocket down for more than '' @ show_int ws_down_limit_s @ '' s''"
| "describe HelperSilent = ''No qf-helper heartbeat for more than '' @ show_int silent_after_s @ '' s''"
| "describe WarframeClosed = ''Warframe closed on the gaming PC''"
| "describe (TraderCritical msg) = ''Trader error: '' @ msg"
| "describe (OrderFailures count) = show_nat count @ '' consecutive order failures''"
| "describe (TraderPanic msg) = ''Trader panicked: '' @ msg"
| "describe (MarketBlocked until) = ''warframe.market is blocking requests (until '' @ until @ '')''"

record trigger_input =
  ti_signed_in :: bool
  ti_unauthorized :: bool
  ti_ws_down_for_s :: "int option"
  ti_helper_seconds_since :: "int option"
  ti_warframe_running :: bool
  ti_market_blocked :: bool
  ti_market_until :: string

definition stop_trigger :: "trigger_input \<Rightarrow> stop_reason option" where
  "stop_trigger i =
     (if ti_market_blocked i then Some (MarketBlocked (ti_market_until i))
      else if \<not> ti_signed_in i then Some SignedOut
      else if ti_unauthorized i then Some UnauthorizedStop
      else if (case ti_ws_down_for_s i of Some s \<Rightarrow> ws_down_limit_s < s | None \<Rightarrow> False) then Some WebsocketDown
      else if (case ti_helper_seconds_since i of Some s \<Rightarrow> silent_after_s < s | None \<Rightarrow> True) then Some HelperSilent
      else if \<not> ti_warframe_running i then Some WarframeClosed
      else None)"

section \<open>The engine's run loop\<close>

definition cycle_pause :: duration where "cycle_pause = secs 1"
definition idle_pause :: duration where "idle_pause = secs 30"
definition max_consecutive_failures :: nat where "max_consecutive_failures = 5"

definition market_unreachable :: string where
  "market_unreachable = ''warframe.market unreachable''"

datatype engine_exit = EngStopped | EngCritical string | EngOrderFailures nat | EngMarketBlocked

datatype log_level = LvCritical | LvWarning

definition classify :: "qf_error \<Rightarrow> log_level" where
  "classify e =
     (if er_type e \<in> {''ParsingError'', ''BadRequest'', ''Unknown'', ''InternalServerError'', ''InvalidType''}
      then LvCritical else LvWarning)"

definition is_market_refusal :: "qf_error \<Rightarrow> bool" where
  "is_market_refusal e \<longleftrightarrow>
     str_contains (er_message e) market_unreachable
   \<or> str_contains (er_cause e) market_unreachable
   \<or> (case er_props e of Some p \<Rightarrow> str_contains p market_unreachable | None \<Rightarrow> False)"

record cycle =
  cy_running :: bool
  cy_blocked_before :: bool
  cy_check :: "qf_error + nat"
  cy_blocked_on_error :: bool
  cy_blocked_after :: bool
  cy_failures :: nat

datatype cycle_end = Exits engine_exit | Pauses duration

definition cycle_of :: "duration \<Rightarrow> duration \<Rightarrow> cycle \<Rightarrow> cycle_end" where
  "cycle_of pause idle c =
     (if \<not> cy_running c then Exits EngStopped
      else if cy_blocked_before c then Exits EngMarketBlocked
      else
        (let refused = (case cy_check c of Inr _ \<Rightarrow> False | Inl e \<Rightarrow> is_market_refusal e \<or> cy_blocked_on_error c) in
         case (if refused then None else case cy_check c of Inl e \<Rightarrow> Some e | Inr _ \<Rightarrow> None) of
           Some e \<Rightarrow>
             if classify e = LvCritical then Exits (EngCritical (er_component e @ '': '' @ er_message e))
             else if cy_blocked_after c then Exits EngMarketBlocked
             else if max_consecutive_failures \<le> cy_failures c then Exits (EngOrderFailures (cy_failures c))
             else Pauses pause
         | None \<Rightarrow>
             if refused \<or> cy_blocked_after c then Exits EngMarketBlocked
             else if max_consecutive_failures \<le> cy_failures c then Exits (EngOrderFailures (cy_failures c))
             else Pauses (if cy_check c = Inr 0 then idle else pause)))"

text \<open>
  Beside the exit, the loop's trace gives for each completed cycle whether \<open>just_started\<close> was
  set while it ran, and the pause after it.
\<close>

fun run_loop :: "duration \<Rightarrow> duration \<Rightarrow> bool \<Rightarrow> cycle list \<Rightarrow> engine_exit option \<times> (bool \<times> duration) list" where
  "run_loop pause idle just_started [] = (None, [])"
| "run_loop pause idle just_started (c # cs) =
     (case cycle_of pause idle c of
        Exits x \<Rightarrow> (Some x, [])
      | Pauses d \<Rightarrow> (let (x, tr) = run_loop pause idle False cs in (x, (just_started, d) # tr)))"

text \<open>
  \<open>sleep_while_running\<close>: the slices slept, where \<open>flags\<close> are the readings of the running flag
  (a missing reading is a cleared flag).
\<close>

definition sleep_slice :: duration where "sleep_slice = secs 1"

fun sleep_while_running :: "bool list \<Rightarrow> duration \<Rightarrow> duration list" where
  "sleep_while_running [] left = []"
| "sleep_while_running (r # rs) left =
     (if left \<le> 0 \<or> \<not> r then []
      else (let st = min left sleep_slice in st # sleep_while_running rs (left - st)))"

section \<open>Lemmas\<close>

lemma stop_trigger_None:
  "stop_trigger i = None \<longleftrightarrow>
     \<not> ti_market_blocked i \<and> ti_signed_in i \<and> \<not> ti_unauthorized i
   \<and> (\<forall>s. ti_ws_down_for_s i = Some s \<longrightarrow> s \<le> 60)
   \<and> (\<exists>s. ti_helper_seconds_since i = Some s \<and> s \<le> 60) \<and> ti_warframe_running i"
  by (auto simp: stop_trigger_def ws_down_limit_s_def silent_after_s_def split: option.splits if_splits)

lemma cycle_exits_iff:
  "(\<exists>x. cycle_of p i c = Exits x) \<longleftrightarrow>
     \<not> cy_running c \<or> cy_blocked_before c \<or> cy_blocked_after c
   \<or> max_consecutive_failures \<le> cy_failures c
   \<or> (\<exists>e. cy_check c = Inl e \<and> (is_market_refusal e \<or> cy_blocked_on_error c \<or> classify e = LvCritical))"
  by (auto simp: cycle_of_def Let_def split: sum.splits)

lemma run_loop_trace:
  "run_loop p i js cs = (x, tr) \<Longrightarrow> length tr \<le> length cs
     \<and> (\<forall>k<length tr. fst (tr ! k) = (js \<and> k = 0) \<and> cycle_of p i (cs ! k) = Pauses (snd (tr ! k)))
     \<and> (case x of None \<Rightarrow> length tr = length cs
         | Some e \<Rightarrow> length tr < length cs \<and> cycle_of p i (cs ! length tr) = Exits e)"
proof (induction cs arbitrary: js x tr)
  case (Cons c cs)
  show ?case
  proof (cases "cycle_of p i c")
    case (Exits e)
    with Cons.prems show ?thesis by auto
  next
    case (Pauses d)
    with Cons.prems obtain tr' where tr': "run_loop p i False cs = (x, tr')" "tr = (js, d) # tr'"
      by (auto split: prod.splits)
    with Cons.IH[OF tr'(1)] Pauses show ?thesis
      by (auto simp: nth_Cons' split: option.splits)
  qed
qed auto

lemma sleep_total:
  "0 \<le> left \<Longrightarrow> sum_list (sleep_while_running rs left) \<le> left
     \<and> (\<forall>d\<in>set (sleep_while_running rs left). 0 < d \<and> d \<le> sleep_slice)
     \<and> (list_all id rs \<and> left \<le> sleep_slice * int (length rs) \<longrightarrow> sum_list (sleep_while_running rs left) = left)"
proof (induction rs arbitrary: left)
  case (Cons r rs)
  show ?case
  proof (cases "left \<le> 0 \<or> \<not> r")
    case False
    define st where "st = min left sleep_slice"
    have "0 \<le> left - st" "0 < st" using False by (auto simp: st_def sleep_slice_def secs_def)
    moreover have "left \<le> sleep_slice * int (length (r # rs)) \<Longrightarrow> left - st \<le> sleep_slice * int (length rs)"
      by (auto simp: st_def min_def algebra_simps sleep_slice_def secs_def)
    ultimately show ?thesis using False Cons.IH[of "left - st"]
      by (auto simp: Let_def st_def[symmetric]) (auto simp: st_def)
  qed (use Cons in auto)
qed (auto simp: sleep_slice_def)

section \<open>Properties\<close>

text \<open>
  The engine loop's exits are the right ones: it ends in the first cycle whose flag is
  cleared, that sees the breaker, a refused call, a critical error or five order failures in a
  row; it never reports a refusal by the gate (or an error while the breaker is closed to it)
  as a critical error, and \<open>just_started\<close> is set in the first cycle alone.
\<close>

theorem run_loop_exits:
  assumes "run_loop pause idle True cs = (exit, tr)"
  shows "(exit = None \<longleftrightarrow> (\<forall>c\<in>set cs. \<nexists>x. cycle_of pause idle c = Exits x))
    \<and> (\<forall>k<length tr. fst (tr ! k) \<longleftrightarrow> k = 0)
    \<and> (\<forall>m. exit = Some (EngCritical m) \<longrightarrow>
         (\<exists>e. cy_check (cs ! length tr) = Inl e \<and> classify e = LvCritical \<and> \<not> is_market_refusal e
            \<and> \<not> cy_blocked_before (cs ! length tr) \<and> \<not> cy_blocked_on_error (cs ! length tr)))
    \<and> (\<forall>n. exit = Some (EngOrderFailures n) \<longrightarrow> 5 \<le> n \<and> n = cy_failures (cs ! length tr)
         \<and> \<not> cy_blocked_after (cs ! length tr))
    \<and> (exit = Some EngStopped \<longrightarrow> \<not> cy_running (cs ! length tr))"
proof -
  note tr = run_loop_trace[OF assms]
  have "exit = None \<longleftrightarrow> (\<forall>c\<in>set cs. \<nexists>x. cycle_of pause idle c = Exits x)"
    using tr by (auto simp: in_set_conv_nth split: option.splits) (metis cycle_end.distinct(1) nth_mem)+
  with tr show ?thesis
    by (auto simp: cycle_of_def Let_def max_consecutive_failures_def split: option.splits if_splits sum.splits)
qed

definition demo_cycle :: cycle where
  "demo_cycle = \<lparr>cy_running = True, cy_blocked_before = False, cy_check = Inr 0, cy_blocked_on_error = False,
     cy_blocked_after = False, cy_failures = 0\<rparr>"

definition demo_refusal :: qf_error where
  "demo_refusal = \<lparr>er_component = ''Orders'', er_message = ''warframe.market unreachable: x'',
     er_cause = [], er_props = None, er_type = ''ParsingError''\<rparr>"

lemma demo_loop:
  "run_loop cycle_pause idle_pause True [demo_cycle, demo_cycle\<lparr>cy_check := Inl demo_refusal\<rparr>] =
     (Some EngMarketBlocked, [(True, secs 30)])"
  by (simp add: demo_cycle_def cycle_of_def demo_refusal_def is_market_refusal_def market_unreachable_def idle_pause_def max_consecutive_failures_def)

theorem run_loop_exits_witness:
  "(\<exists>c\<in>{demo_cycle, demo_cycle\<lparr>cy_check := Inl demo_refusal\<rparr>}. \<exists>x. cycle_of cycle_pause idle_pause c = Exits x)"
  using run_loop_exits[OF demo_loop] by auto

end
