(* ===== verification/Controller.thy ===== *)
theory Controller
  imports Lifecycle
begin

text \<open>
  The trader controller (\<open>qf_core/src/trader/controller.rs\<close>) with its saved options
  (\<open>qf_core/src/trader/store.rs\<close>, table \<open>trader_state\<close>).

  The trait \<open>Platform\<close> is everything the controller does outside itself: what it reads comes in
  as arguments (one \<open>readings\<close> record per point where the code asks again after an await), what
  it does is the list of effects each operation returns. The lock on \<open>Inner\<close> is held for a
  whole operation, so operations do not interleave. The row of \<open>trader_state\<close> is part of the
  state, because a failed write leaves it behind the options in memory.
\<close>

section \<open>State and effects\<close>

record readings =
  rd_session :: session_snapshot
  rd_helper :: helper_snapshot
  rd_game_data_loaded :: bool
  rd_auto_delete :: bool
  rd_market_block :: "string option"

record trader_options =
  to_dry_run :: bool
  to_delete_buy_orders_on_stop :: bool
  to_last_stop_reason :: "string option"
  to_last_stop_at :: "stamp option"

record running =
  rn_started_at :: utc
  rn_dry_run :: bool

record ctl =
  ct_state :: lifecycle_state
  ct_options :: trader_options
  ct_running :: "running option"
  ct_saved :: trader_options

record trader_status =
  st_state :: lifecycle_state
  st_checklist :: checklist
  st_options :: trader_options
  st_session :: session_snapshot
  st_helper :: helper_snapshot
  st_running_since :: "stamp option"
  st_running_dry_run :: "bool option"

datatype effect =
    SetStatus string bool
  | SpawnEngine bool
  | ClearFlag
  | DeleteBuyOrders
  | NotifyStopped stop_reason bool utc
  | NotifyExpiring utc
  | Broadcast trader_status

datatype joined = Exited engine_exit | Panicked string

section \<open>Operations\<close>

text \<open>\<open>TraderController::new\<close>: the saved row, never trading.\<close>

definition new_controller :: "trader_options \<Rightarrow> ctl" where
  "new_controller saved = \<lparr>ct_state = Offline, ct_options = saved, ct_running = None, ct_saved = saved\<rparr>"

definition checklist_of :: "readings \<Rightarrow> checklist" where
  "checklist_of rd =
     \<lparr>ck_token_valid = sn_token_valid (rd_session rd),
      ck_ws_connected = sn_ws_connected (rd_session rd),
      ck_game_data_loaded = rd_game_data_loaded rd,
      ck_helper_connected = hs_connected (rd_helper rd),
      ck_warframe_running = hs_warframe_running (rd_helper rd),
      ck_auto_delete_off = (\<not> rd_auto_delete rd),
      ck_market_reachable = (rd_market_block rd = None)\<rparr>"

definition status_of :: "ctl \<Rightarrow> readings \<Rightarrow> trader_status" where
  "status_of c rd =
     \<lparr>st_state = ct_state c, st_checklist = checklist_of rd, st_options = ct_options c,
      st_session = rd_session rd, st_helper = rd_helper rd,
      st_running_since = map_option (\<lambda>r. ts (rn_started_at r)) (ct_running c),
      st_running_dry_run = map_option rn_dry_run (ct_running c)\<rparr>"

definition idle_state :: "bool \<Rightarrow> readings \<Rightarrow> lifecycle_state" where
  "idle_state dry_run rd = (if ready_for (checklist_of rd) dry_run then Ready else Offline)"

text \<open>
  \<open>start\<close>: \<open>rd0\<close> is read for the checklist, \<open>status_result\<close> answers \<open>set_status("ingame")\<close>,
  \<open>rd1\<close> is read for the broadcast.
\<close>

definition ctl_start ::
  "ctl \<Rightarrow> readings \<Rightarrow> qf_error option \<Rightarrow> readings \<Rightarrow> utc \<Rightarrow> (qf_error + trader_status) \<times> ctl \<times> effect list" where
  "ctl_start c rd0 status_result rd1 now =
     (if ct_running c \<noteq> None then (Inr (status_of c rd0), c, [])
      else let dry_run = to_dry_run (ct_options c) in
        if \<not> ready_for (checklist_of rd0) dry_run then
          (Inl (new_error ''Trader:Start'' ''The trader is not ready; see the start checklist''), c, [])
        else case (if dry_run then None else status_result) of
          Some e \<Rightarrow> (Inl e, c, [SetStatus ''ingame'' False])
        | None \<Rightarrow>
            let c1 = c\<lparr>ct_running := Some \<lparr>rn_started_at = now, rn_dry_run = dry_run\<rparr>, ct_state := Trading\<rparr>;
                status = status_of c1 rd1
            in (Inr status, c1,
                (if dry_run then [] else [SetStatus ''ingame'' True]) @ [SpawnEngine dry_run, Broadcast status]))"

text \<open>
  What \<open>finish\<close> meets on its way: the readings for the \<open>Stopping\<close> broadcast, how the engine
  ended, the breaker after that, the answers of \<open>set_status\<close> and of the two row writes, and the
  readings for the idle state and the last broadcast.
\<close>

record finish_env =
  fe_stopping :: readings
  fe_exit :: joined
  fe_block :: "string option"
  fe_status_ok :: bool
  fe_record_ok :: bool
  fe_idle :: readings
  fe_final :: readings

definition finish_reason :: "stop_reason option \<Rightarrow> joined \<Rightarrow> string option \<Rightarrow> stop_reason" where
  "finish_reason reason exit block =
     (case reason of
        Some r \<Rightarrow> r
      | None \<Rightarrow>
          (case exit of
             Exited (EngCritical msg) \<Rightarrow> TraderCritical msg
           | Exited (EngOrderFailures count) \<Rightarrow> OrderFailures count
           | Exited EngStopped \<Rightarrow> UserStop
           | Exited EngMarketBlocked \<Rightarrow>
               MarketBlocked (case block of Some t \<Rightarrow> t | None \<Rightarrow> ''the breaker closes'')
           | Panicked msg \<Rightarrow> TraderPanic msg))"

definition is_market_blocked :: "stop_reason \<Rightarrow> bool" where
  "is_market_blocked r = (case r of MarketBlocked _ \<Rightarrow> True | _ \<Rightarrow> False)"

definition record_stop :: "trader_options \<Rightarrow> string \<Rightarrow> utc \<Rightarrow> trader_options" where
  "record_stop row reason now = row\<lparr>to_last_stop_reason := Some reason, to_last_stop_at := Some (ts now)\<rparr>"

definition ctl_finish ::
  "ctl \<Rightarrow> stop_reason option \<Rightarrow> finish_env \<Rightarrow> utc \<Rightarrow> stop_reason option \<times> ctl \<times> effect list" where
  "ctl_finish c reason0 fe now =
     (case ct_running c of
        None \<Rightarrow> (None, c, [])
      | Some r \<Rightarrow>
          let c1 = c\<lparr>ct_running := None, ct_state := Stopping\<rparr>;
              reason = finish_reason reason0 (fe_exit fe) (fe_block fe);
              blocked = (fe_block fe \<noteq> None \<or> is_market_blocked reason);
              sweeps = (to_delete_buy_orders_on_stop (ct_options c1) \<and> \<not> rn_dry_run r \<and> \<not> blocked);
              description = describe reason;
              saved = (if fe_record_ok fe then record_stop (ct_saved c1) description now else ct_saved c1);
              c2 = c1\<lparr>ct_saved := saved, ct_options := record_stop (ct_options c1) description now\<rparr>;
              c3 = c2\<lparr>ct_state := idle_state (to_dry_run (ct_options c2)) (fe_idle fe)\<rparr>
          in (Some reason, c3,
              [Broadcast (status_of c1 (fe_stopping fe)), ClearFlag, SetStatus ''invisible'' (fe_status_ok fe)]
              @ (if sweeps then [DeleteBuyOrders] else [])
              @ [NotifyStopped reason (rn_dry_run r) now, Broadcast (status_of c3 (fe_final fe))]))"

definition ctl_stop ::
  "ctl \<Rightarrow> stop_reason \<Rightarrow> finish_env \<Rightarrow> readings \<Rightarrow> utc \<Rightarrow> trader_status \<times> ctl \<times> effect list" where
  "ctl_stop c reason fe rd now =
     (let (_, c1, es) = ctl_finish c (Some reason) fe now in (status_of c1 rd, c1, es))"

record tick_env =
  te_alert :: "utc option"
  te_readings :: readings
  te_status :: readings
  te_finished :: bool
  te_block :: "string option"
  te_finish :: finish_env

definition tick_input :: "readings \<Rightarrow> string option \<Rightarrow> trigger_input" where
  "tick_input rd block =
     \<lparr>ti_signed_in = sn_signed_in (rd_session rd),
      ti_unauthorized = sn_unauthorized (rd_session rd),
      ti_ws_down_for_s = sn_ws_down_for_s (rd_session rd),
      ti_helper_seconds_since = hs_seconds_since_heartbeat (rd_helper rd),
      ti_warframe_running = hs_warframe_running (rd_helper rd),
      ti_market_blocked = (block \<noteq> None),
      ti_market_until = (case block of Some t \<Rightarrow> t | None \<Rightarrow> [])\<rparr>"

definition ctl_tick :: "ctl \<Rightarrow> tick_env \<Rightarrow> utc \<Rightarrow> stop_reason option \<times> ctl \<times> effect list" where
  "ctl_tick c te now =
     (let alerts = (case te_alert te of Some t \<Rightarrow> [NotifyExpiring t] | None \<Rightarrow> []) in
      case ct_running c of
        None \<Rightarrow>
          (let next_st = (if ready_for (checklist_of (te_readings te)) (to_dry_run (ct_options c)) then Ready else Offline)
           in if next_st \<noteq> ct_state c
              then (let c1 = c\<lparr>ct_state := next_st\<rparr> in (None, c1, alerts @ [Broadcast (status_of c1 (te_status te))]))
              else (None, c, alerts))
      | Some r \<Rightarrow>
          if te_finished te
          then (let (x, c1, es) = ctl_finish c None (te_finish te) now in (x, c1, alerts @ es))
          else (case stop_trigger (tick_input (te_readings te) (te_block te)) of
                  Some reason \<Rightarrow> (let (x, c1, es) = ctl_finish c (Some reason) (te_finish te) now in (x, c1, alerts @ es))
                | None \<Rightarrow> (None, c, alerts)))"

definition save_flags :: "trader_options \<Rightarrow> bool \<Rightarrow> bool \<Rightarrow> trader_options" where
  "save_flags row dry_run delete = row\<lparr>to_dry_run := dry_run, to_delete_buy_orders_on_stop := delete\<rparr>"

definition ctl_set_options ::
  "ctl \<Rightarrow> bool option \<Rightarrow> bool option \<Rightarrow> qf_error option \<Rightarrow> readings \<Rightarrow> readings
     \<Rightarrow> (qf_error + trader_options) \<times> ctl \<times> effect list" where
  "ctl_set_options c dry_run delete save_result rd0 rd1 =
     (if (case dry_run of Some v \<Rightarrow> ct_running c \<noteq> None \<and> v \<noteq> to_dry_run (ct_options c) | None \<Rightarrow> False)
      then (Inl (new_error ''Trader:Options'' ''Stop the trader before changing dry-run''), c, [])
      else let n1 = (case dry_run of Some v \<Rightarrow> (ct_options c)\<lparr>to_dry_run := v\<rparr> | None \<Rightarrow> ct_options c);
               n2 = (case delete of Some v \<Rightarrow> n1\<lparr>to_delete_buy_orders_on_stop := v\<rparr> | None \<Rightarrow> n1)
           in case save_result of
                Some e \<Rightarrow> (Inl e, c, [])
              | None \<Rightarrow>
                  let c1 = c\<lparr>ct_saved := save_flags (ct_saved c) (to_dry_run n2) (to_delete_buy_orders_on_stop n2),
                             ct_options := n2\<rparr>;
                      c2 = (if ct_running c1 = None
                            then c1\<lparr>ct_state := idle_state (to_dry_run n2) rd0\<rparr> else c1)
                  in (Inr n2, c2, [Broadcast (status_of c2 rd1)]))"

section \<open>The controller as a machine\<close>

datatype ctl_event =
    CtStart readings "qf_error option" readings utc
  | CtStop stop_reason finish_env readings utc
  | CtTick tick_env utc
  | CtSet "bool option" "bool option" "qf_error option" readings readings

record ctl_sys =
  cs_ctl :: ctl
  cs_effects :: "effect list"

fun ctl_op :: "ctl \<Rightarrow> ctl_event \<Rightarrow> ctl \<times> effect list" where
  "ctl_op c (CtStart rd0 res rd1 now) = snd (ctl_start c rd0 res rd1 now)"
| "ctl_op c (CtStop reason fe rd now) = snd (ctl_stop c reason fe rd now)"
| "ctl_op c (CtTick te now) = snd (ctl_tick c te now)"
| "ctl_op c (CtSet dry delete res rd0 rd1) = snd (ctl_set_options c dry delete res rd0 rd1)"

definition ctl_step :: "ctl_sys \<Rightarrow> ctl_event \<Rightarrow> ctl_sys" where
  "ctl_step y e = (let (c, es) = ctl_op (cs_ctl y) e in \<lparr>cs_ctl = c, cs_effects = cs_effects y @ es\<rparr>)"

definition ctl_enabled :: "ctl_sys \<Rightarrow> ctl_event \<Rightarrow> bool" where
  "ctl_enabled y e = True"

definition ctl_init :: "trader_options \<Rightarrow> ctl_sys" where
  "ctl_init saved = \<lparr>cs_ctl = new_controller saved, cs_effects = []\<rparr>"

text \<open>
  The abstract session protocol over the effects: a live session announces itself before its
  engine starts; every session clears the flag, goes invisible, and is reported once; only a
  live one that did not end on a blocked market may delete buy orders, and only then.
\<close>

datatype phase = Idle | Announced | Runs bool | Halting bool | Hidden bool | Swept

fun proto :: "phase \<Rightarrow> effect \<Rightarrow> phase option" where
  "proto ph (Broadcast st) = Some ph"
| "proto ph (NotifyExpiring t) = Some ph"
| "proto Idle (SetStatus s ok) = (if s = ''ingame'' then Some (if ok then Announced else Idle) else None)"
| "proto Idle (SpawnEngine dry) = (if dry then Some (Runs True) else None)"
| "proto Announced (SpawnEngine dry) = (if dry then None else Some (Runs False))"
| "proto (Runs dry) ClearFlag = Some (Halting dry)"
| "proto (Halting dry) (SetStatus s ok) = (if s = ''invisible'' then Some (Hidden dry) else None)"
| "proto (Hidden dry) DeleteBuyOrders = (if dry then None else Some Swept)"
| "proto (Hidden dry) (NotifyStopped r dry' t) = (if dry = dry' then Some Idle else None)"
| "proto Swept (NotifyStopped r dry' t) = (if dry' \<or> is_market_blocked r then None else Some Idle)"
| "proto ph e = None"

fun accepts :: "phase \<Rightarrow> effect list \<Rightarrow> phase option" where
  "accepts ph [] = Some ph"
| "accepts ph (e # es) = (case proto ph e of None \<Rightarrow> None | Some ph' \<Rightarrow> accepts ph' es)"

lemma accepts_append: "accepts ph (es @ fs) = Option.bind (accepts ph es) (\<lambda>ph'. accepts ph' fs)"
  by (induction es arbitrary: ph) (auto split: option.splits)

definition phase_of :: "ctl \<Rightarrow> phase" where
  "phase_of c = (case ct_running c of None \<Rightarrow> Idle | Some r \<Rightarrow> Runs (rn_dry_run r))"

definition ctl_wf :: "ctl \<Rightarrow> bool" where
  "ctl_wf c \<longleftrightarrow>
     (ct_state c = Trading \<longleftrightarrow> ct_running c \<noteq> None) \<and> ct_state c \<noteq> Stopping
   \<and> (\<forall>r. ct_running c = Some r \<longrightarrow> rn_dry_run r = to_dry_run (ct_options c))
   \<and> to_dry_run (ct_saved c) = to_dry_run (ct_options c)
   \<and> to_delete_buy_orders_on_stop (ct_saved c) = to_delete_buy_orders_on_stop (ct_options c)"

definition ctl_inv :: "ctl_sys \<Rightarrow> bool" where
  "ctl_inv y \<longleftrightarrow> ctl_wf (cs_ctl y) \<and> accepts Idle (cs_effects y) = Some (phase_of (cs_ctl y))"

lemma idle_state_idle [simp]: "idle_state d rd \<noteq> Trading" "idle_state d rd \<noteq> Stopping"
  by (simp_all add: idle_state_def)

text \<open>Each operation keeps the state well formed and walks the protocol from phase to phase.\<close>

definition op_ok :: "ctl \<Rightarrow> ctl \<times> effect list \<Rightarrow> bool" where
  "op_ok c r \<longleftrightarrow> (case r of (c', es) \<Rightarrow> ctl_wf c' \<and> accepts (phase_of c) es = Some (phase_of c'))"

lemma finish_ok: "ctl_wf c \<Longrightarrow> op_ok c (snd (ctl_finish c reason fe now))"
  by (cases "ct_running c"; cases "fe_block fe")
     (auto simp: op_ok_def ctl_finish_def Let_def ctl_wf_def phase_of_def record_stop_def)

lemma start_ok: "ctl_wf c \<Longrightarrow> op_ok c (snd (ctl_start c rd0 res rd1 now))"
  by (auto simp: op_ok_def ctl_start_def Let_def ctl_wf_def phase_of_def split: option.splits)

lemma stop_ok: "ctl_wf c \<Longrightarrow> op_ok c (snd (ctl_stop c reason fe rd now))"
  using finish_ok[of c "Some reason" fe now] by (auto simp: ctl_stop_def Let_def split: prod.splits)

lemma op_ok_alert: "op_ok c (c', es) \<Longrightarrow> op_ok c (c', NotifyExpiring t # es)"
  by (auto simp: op_ok_def phase_of_def split: option.splits)

lemma finish_ok': "ctl_wf c \<Longrightarrow> ctl_finish c reason fe now = (x, c', es) \<Longrightarrow> op_ok c (c', es)"
  using finish_ok[of c reason fe now] by simp

lemma tick_ok: "ctl_wf c \<Longrightarrow> op_ok c (snd (ctl_tick c te now))"
proof (cases "ct_running c")
  case None
  assume "ctl_wf c"
  with None show ?thesis
    by (auto simp: op_ok_def ctl_tick_def Let_def ctl_wf_def phase_of_def split: option.splits)
next
  case (Some r)
  assume wf: "ctl_wf c"
  then have "op_ok c (c, [])" by (simp add: op_ok_def)
  with wf Some show ?thesis
    by (auto simp: ctl_tick_def Let_def split: option.splits prod.splits intro!: op_ok_alert finish_ok' finish_ok)
qed

lemma set_options_ok: "ctl_wf c \<Longrightarrow> op_ok c (snd (ctl_set_options c dry delete res rd0 rd1))"
  by (auto simp: op_ok_def ctl_set_options_def Let_def ctl_wf_def phase_of_def save_flags_def split: option.splits)

lemma ctl_inv_step: "ctl_inv y \<Longrightarrow> ctl_enabled y e \<Longrightarrow> ctl_inv (ctl_step y e)"
proof -
  assume inv: "ctl_inv y"
  then have "op_ok (cs_ctl y) (ctl_op (cs_ctl y) e)"
    by (cases e) (auto simp: ctl_inv_def start_ok stop_ok tick_ok set_options_ok)
  with inv show ?thesis
    by (auto simp: ctl_inv_def ctl_step_def op_ok_def Let_def accepts_append split: prod.splits)
qed

interpretation ctl_machine: guarded_machine ctl_step ctl_enabled ctl_inv
  by unfold_locales (rule ctl_inv_step)

lemma ctl_inv_init: "ctl_inv (ctl_init saved)"
  by (simp add: ctl_inv_def ctl_init_def new_controller_def ctl_wf_def phase_of_def)

lemma all_ctl_enabled: "all_enabled ctl_step ctl_enabled y es"
  by (induction es arbitrary: y) (auto simp: ctl_enabled_def)

lemma reachable_inv: "ctl_inv (run ctl_step (ctl_init saved) es)"
  by (rule ctl_machine.run_inv[OF ctl_inv_init all_ctl_enabled])


section \<open>Properties\<close>

text \<open>
  C3. Whatever the platform answers and in whatever order operations come, the controller's
  effects follow the session protocol: a live engine is spawned only after a successful
  \<open>ingame\<close> status, no engine is spawned while one runs, every session clears its flag, sets
  \<open>invisible\<close> and is reported exactly once, and buy orders are deleted only in a live session
  that was not stopped because the market is blocked. The state is \<open>Trading\<close> exactly while an
  engine runs, the running mode is the configured one, and the flags in memory are the saved
  ones.
\<close>

theorem controller_follows_protocol:
  "let y = run ctl_step (ctl_init saved) es; c = cs_ctl y in
     accepts Idle (cs_effects y) = Some (case ct_running c of None \<Rightarrow> Idle | Some r \<Rightarrow> Runs (rn_dry_run r))
   \<and> (ct_state c = Trading \<longleftrightarrow> ct_running c \<noteq> None) \<and> ct_state c \<noteq> Stopping
   \<and> (\<forall>r. ct_running c = Some r \<longrightarrow> rn_dry_run r = to_dry_run (ct_options c))
   \<and> to_dry_run (ct_saved c) = to_dry_run (ct_options c)
   \<and> to_delete_buy_orders_on_stop (ct_saved c) = to_delete_buy_orders_on_stop (ct_options c)"
  using reachable_inv[of saved es] by (simp add: ctl_inv_def ctl_wf_def phase_of_def Let_def)

definition good_readings :: readings where
  "good_readings =
     \<lparr>rd_session = \<lparr>sn_signed_in = True, sn_token_valid = True, sn_unauthorized = False, sn_ws_connected = True,
        sn_ws_down_for_s = None, sn_last_me_ok_at = None, sn_token_expires_at = None\<rparr>,
      rd_helper = \<lparr>hs_connected = True, hs_warframe_running = True, hs_seconds_since_heartbeat = Some 3,
        hs_last_heartbeat_at = None, hs_device_name = None, hs_version = None\<rparr>,
      rd_game_data_loaded = True, rd_auto_delete = False, rd_market_block = None\<rparr>"

definition live_options :: trader_options where
  "live_options = \<lparr>to_dry_run = False, to_delete_buy_orders_on_stop = True,
     to_last_stop_reason = None, to_last_stop_at = None\<rparr>"

definition plain_finish :: finish_env where
  "plain_finish = \<lparr>fe_stopping = good_readings, fe_exit = Exited EngStopped, fe_block = None,
     fe_status_ok = True, fe_record_ok = True, fe_idle = good_readings, fe_final = good_readings\<rparr>"

definition demo_session_events :: "ctl_event list" where
  "demo_session_events = [CtStart good_readings None good_readings 0, CtStop UserStop plain_finish good_readings 9]"

theorem controller_follows_protocol_witness:
  "accepts Idle (cs_effects (run ctl_step (ctl_init live_options) demo_session_events)) = Some Idle
   \<and> DeleteBuyOrders \<in> set (cs_effects (run ctl_step (ctl_init live_options) demo_session_events))"
proof -
  have "ct_running (cs_ctl (run ctl_step (ctl_init live_options) demo_session_events)) = None"
    "DeleteBuyOrders \<in> set (cs_effects (run ctl_step (ctl_init live_options) demo_session_events))"
    by (simp_all add: demo_session_events_def ctl_init_def ctl_step_def new_controller_def ctl_start_def
        ctl_stop_def ctl_finish_def Let_def ready_for_def ready_def checklist_of_def good_readings_def
        live_options_def plain_finish_def finish_reason_def is_market_blocked_def)
  then show ?thesis
    using controller_follows_protocol[of live_options demo_session_events] by (simp add: Let_def)
qed

text \<open>
  The trader starts only from a full checklist: when a start spawns an engine, the session
  token was valid, the websocket up, the game data loaded, the helper heard within 30 s, the
  game running, the market reachable and, for a live start, \<open>auto_delete\<close> off.
\<close>

theorem start_needs_checklist:
  assumes "SpawnEngine dry \<in> set (snd (snd (ctl_start c rd0 res rd1 now)))"
  shows "ct_running c = None \<and> dry = to_dry_run (ct_options c)
    \<and> sn_token_valid (rd_session rd0) \<and> sn_ws_connected (rd_session rd0) \<and> rd_game_data_loaded rd0
    \<and> hs_connected (rd_helper rd0) \<and> hs_warframe_running (rd_helper rd0) \<and> rd_market_block rd0 = None
    \<and> (\<not> dry \<longrightarrow> \<not> rd_auto_delete rd0 \<and> res = None)
    \<and> ct_state (fst (snd (ctl_start c rd0 res rd1 now))) = Trading"
  using assms
  by (auto simp: ctl_start_def Let_def ready_for_def ready_def checklist_of_def split: if_splits option.splits)

theorem start_needs_checklist_witness:
  "\<not> rd_auto_delete good_readings"
  using start_needs_checklist[of False "new_controller live_options" good_readings None good_readings 0]
  by (simp add: ctl_start_def Let_def ready_for_def ready_def checklist_of_def good_readings_def
      live_options_def new_controller_def)

text \<open>
  The monitor ends trading exactly when it has to: a tick of a running session leaves it
  running if and only if the engine has not ended, the market is not blocked, the session is
  signed in and authorised, the websocket has not been down for more than 60 s, a heartbeat of
  the last 60 s reports the game running; and a blocked market always leaves the buy orders in
  place.
\<close>

theorem tick_keeps_trading_iff:
  assumes "ct_running c = Some r"
  shows "(ct_running (fst (snd (ctl_tick c te now))) = Some r \<longleftrightarrow>
           \<not> te_finished te \<and> te_block te = None
         \<and> sn_signed_in (rd_session (te_readings te)) \<and> \<not> sn_unauthorized (rd_session (te_readings te))
         \<and> (\<forall>s. sn_ws_down_for_s (rd_session (te_readings te)) = Some s \<longrightarrow> s \<le> 60)
         \<and> (\<exists>s. hs_seconds_since_heartbeat (rd_helper (te_readings te)) = Some s \<and> s \<le> 60)
         \<and> hs_warframe_running (rd_helper (te_readings te)))
    \<and> (\<not> te_finished te \<and> te_block te \<noteq> None \<longrightarrow>
         is_market_blocked (the (fst (ctl_tick c te now))) \<and> DeleteBuyOrders \<notin> set (snd (snd (ctl_tick c te now))))"
proof -
  have stopped: "ct_running (fst (snd (ctl_finish c x fe now))) = None" for x fe
    using assms by (simp add: ctl_finish_def Let_def)
  have trig: "stop_trigger (tick_input rd (Some b)) = Some (MarketBlocked b)" for rd b
    by (simp add: stop_trigger_def tick_input_def)
  have "stop_trigger (tick_input rd b) = None \<longleftrightarrow>
      b = None \<and> sn_signed_in (rd_session rd) \<and> \<not> sn_unauthorized (rd_session rd)
    \<and> (\<forall>s. sn_ws_down_for_s (rd_session rd) = Some s \<longrightarrow> s \<le> 60)
    \<and> (\<exists>s. hs_seconds_since_heartbeat (rd_helper rd) = Some s \<and> s \<le> 60)
    \<and> hs_warframe_running (rd_helper rd)" for rd b
    by (auto simp: stop_trigger_None tick_input_def)
  note none = this
  have "ct_running (fst (snd (ctl_tick c te now))) = Some r \<longleftrightarrow>
      \<not> te_finished te \<and> stop_trigger (tick_input (te_readings te) (te_block te)) = None"
    using assms stopped[of None "te_finish te"] stopped[of "stop_trigger (tick_input (te_readings te) (te_block te))" "te_finish te"]
    by (auto simp: ctl_tick_def Let_def split: option.splits prod.splits)
  moreover have "\<not> te_finished te \<and> te_block te \<noteq> None \<longrightarrow>
      is_market_blocked (the (fst (ctl_tick c te now))) \<and> DeleteBuyOrders \<notin> set (snd (snd (ctl_tick c te now)))"
    using assms
    by (auto simp: ctl_tick_def Let_def trig ctl_finish_def finish_reason_def is_market_blocked_def split: option.splits)
  ultimately show ?thesis by (simp add: none)
qed

definition quiet_tick :: tick_env where
  "quiet_tick = \<lparr>te_alert = None, te_readings = good_readings, te_status = good_readings, te_finished = False,
     te_block = None, te_finish = plain_finish\<rparr>"

theorem tick_keeps_trading_iff_witness:
  "ct_running (fst (snd (ctl_tick ((new_controller live_options)\<lparr>ct_running := Some \<lparr>rn_started_at = 0, rn_dry_run = False\<rparr>\<rparr>)
     quiet_tick 0))) \<noteq> None"
  using tick_keeps_trading_iff[of "(new_controller live_options)\<lparr>ct_running := Some \<lparr>rn_started_at = 0, rn_dry_run = False\<rparr>\<rparr>"
      "\<lparr>rn_started_at = 0, rn_dry_run = False\<rparr>" quiet_tick 0]
  by (simp add: quiet_tick_def good_readings_def)

end
