(* ===== verification/Sub_Types.thy ===== *)
theory Sub_Types
  imports Prelude
begin

text \<open>
  Item sub-types: the server's \<open>SubType\<close> (\<open>utils/src/sub_type.rs\<close>), the marketplace client's
  (\<open>wf-market/src/types/sub_type.rs\<close>), the conversions between them
  (\<open>qf_core/src/utils/sub_type_ext.rs\<close>), and the text key of the \<open>sub_type\<close> columns
  (\<open>sub_type_key\<close> of \<open>collector/orders.rs\<close>, \<open>key_of\<close> and \<open>sub_type_from_key\<close> of
  \<open>trader/price_source.rs\<close>). An \<open>i64\<close> field is an integer; the round trip asks for its range.
\<close>

section \<open>Data\<close>

record sub_type =
  sub_rank :: "int option"
  sub_charges :: "int option"
  sub_variant :: "string option"
  sub_amber_stars :: "int option"
  sub_cyan_stars :: "int option"

record wfm_sub_type =
  wsub_subtype :: "string option"
  wsub_rank :: "int option"
  wsub_charges :: "int option"
  wsub_amber_stars :: "int option"
  wsub_cyan_stars :: "int option"

definition empty_sub :: sub_type where
  "empty_sub = \<lparr>sub_rank = None, sub_charges = None, sub_variant = None, sub_amber_stars = None, sub_cyan_stars = None\<rparr>"

definition rank_sub :: "int \<Rightarrow> sub_type" where
  "rank_sub r = empty_sub\<lparr>sub_rank := Some r\<rparr>"

definition variant_sub :: "string \<Rightarrow> sub_type" where
  "variant_sub v = empty_sub\<lparr>sub_variant := Some v\<rparr>"

definition ayatan_sub :: "int \<Rightarrow> int \<Rightarrow> sub_type" where
  "ayatan_sub cyan amber = empty_sub\<lparr>sub_amber_stars := Some amber, sub_cyan_stars := Some cyan\<rparr>"

definition sub_is_empty :: "sub_type \<Rightarrow> bool" where
  "sub_is_empty s \<longleftrightarrow> sub_rank s = None \<and> sub_variant s = None \<and> sub_charges s = None
     \<and> sub_amber_stars s = None \<and> sub_cyan_stars s = None"

definition wsub_default :: wfm_sub_type where
  "wsub_default = \<lparr>wsub_subtype = None, wsub_rank = None, wsub_charges = None, wsub_amber_stars = None, wsub_cyan_stars = None\<rparr>"

definition wsub_is_empty :: "wfm_sub_type \<Rightarrow> bool" where
  "wsub_is_empty s \<longleftrightarrow> wsub_subtype s = None \<and> wsub_rank s = None \<and> wsub_charges s = None
     \<and> wsub_amber_stars s = None \<and> wsub_cyan_stars s = None"

definition to_entity :: "wfm_sub_type \<Rightarrow> sub_type option" where
  "to_entity s =
     (if wsub_is_empty s then None
      else Some \<lparr>sub_rank = wsub_rank s, sub_charges = wsub_charges s, sub_variant = wsub_subtype s,
                 sub_amber_stars = wsub_amber_stars s, sub_cyan_stars = wsub_cyan_stars s\<rparr>)"

definition from_entity :: "sub_type option \<Rightarrow> wfm_sub_type" where
  "from_entity e =
     (case e of
        None \<Rightarrow> wsub_default
      | Some s \<Rightarrow>
          if sub_is_empty s then wsub_default
          else \<lparr>wsub_subtype = sub_variant s, wsub_rank = sub_rank s, wsub_charges = sub_charges s,
                wsub_amber_stars = sub_amber_stars s, wsub_cyan_stars = sub_cyan_stars s\<rparr>)"

section \<open>Display\<close>

definition field_text :: "string \<Rightarrow> string option \<Rightarrow> string" where
  "field_text name v = (case v of Some t \<Rightarrow> name @ t @ '' '' | None \<Rightarrow> [])"

definition sub_display :: "sub_type \<Rightarrow> string" where
  "sub_display s =
     field_text ''Rank: '' (map_option show_int (sub_rank s))
   @ field_text ''Charges: '' (map_option show_int (sub_charges s))
   @ field_text ''Variant: '' (sub_variant s)
   @ field_text ''Amber Stars: '' (map_option show_int (sub_amber_stars s))
   @ field_text ''Cyan Stars: '' (map_option show_int (sub_cyan_stars s))"

definition sub_shot_display :: "sub_type \<Rightarrow> string" where
  "sub_shot_display s = str_trim
    (field_text ''R '' (map_option show_int (sub_rank s))
   @ field_text ''Ch '' (map_option show_int (sub_charges s))
   @ field_text ''V '' (sub_variant s)
   @ field_text ''A '' (map_option show_int (sub_amber_stars s))
   @ field_text ''C '' (map_option show_int (sub_cyan_stars s)))"

section \<open>The column key\<close>

definition key_part :: "string \<Rightarrow> string option \<Rightarrow> string list" where
  "key_part name v = (case v of Some t \<Rightarrow> [name @ ''='' @ t] | None \<Rightarrow> [])"

definition sub_type_key ::
  "int option \<Rightarrow> int option \<Rightarrow> string option \<Rightarrow> int option \<Rightarrow> int option \<Rightarrow> string" where
  "sub_type_key rank charges variant amber cyan =
     str_join '';'' (key_part ''rank'' (map_option show_int rank)
       @ key_part ''charges'' (map_option show_int charges)
       @ key_part ''subtype'' variant
       @ key_part ''amber'' (map_option show_int amber)
       @ key_part ''cyan'' (map_option show_int cyan))"

definition key_of :: "sub_type option \<Rightarrow> string" where
  "key_of sub = (case sub of None \<Rightarrow> []
     | Some s \<Rightarrow> sub_type_key (sub_rank s) (sub_charges s) (sub_variant s) (sub_amber_stars s) (sub_cyan_stars s))"

definition i64_parse :: "string \<Rightarrow> int option" where
  "i64_parse = parse_integer (- (2 ^ 63)) (2 ^ 63 - 1)"

definition key_field :: "sub_type \<Rightarrow> string \<Rightarrow> sub_type" where
  "key_field s part =
     (case split_once (CHR ''='') part of
        None \<Rightarrow> s
      | Some (name, v) \<Rightarrow>
          if name = ''rank'' then s\<lparr>sub_rank := i64_parse v\<rparr>
          else if name = ''charges'' then s\<lparr>sub_charges := i64_parse v\<rparr>
          else if name = ''subtype'' then s\<lparr>sub_variant := Some v\<rparr>
          else if name = ''amber'' then s\<lparr>sub_amber_stars := i64_parse v\<rparr>
          else if name = ''cyan'' then s\<lparr>sub_cyan_stars := i64_parse v\<rparr>
          else s)"

definition sub_type_from_key :: "string \<Rightarrow> sub_type option" where
  "sub_type_from_key key =
     (if key = [] then None else Some (foldl key_field empty_sub (str_split (CHR '';'') key)))"

section \<open>Lemmas\<close>

definition i64 :: "int \<Rightarrow> bool" where
  "i64 i \<longleftrightarrow> - (2 ^ 63) \<le> i \<and> i \<le> 2 ^ 63 - 1"

definition key_safe :: "sub_type \<Rightarrow> bool" where
  "key_safe s \<longleftrightarrow> pred_option i64 (sub_rank s) \<and> pred_option i64 (sub_charges s)
     \<and> pred_option i64 (sub_amber_stars s) \<and> pred_option i64 (sub_cyan_stars s)
     \<and> pred_option (\<lambda>v. CHR '';'' \<notin> set v) (sub_variant s)"

lemma i64_parse_show [simp]: "i64 i \<Longrightarrow> i64_parse (show_int i) = Some i"
  by (simp add: i64_parse_def i64_def parse_integer_show_int)

lemma show_int_no_semicolon [simp]: "CHR '';'' \<notin> set (show_int i)"
proof -
  have "digit_char d \<noteq> CHR '';''" if "d < 10" for d
    using char_digit_char[OF that] by (auto simp: char_digit_def simp del: char_digit_char)
  then show ?thesis
    by (auto simp: show_int_def dest!: show_nat_chars) metis+
qed

lemma split_once_part [simp]:
  "CHR ''='' \<notin> set name \<Longrightarrow> split_once (CHR ''='') (name @ CHR ''='' # v) = Some (name, v)"
  by (rule split_once_app)

definition key_parts :: "sub_type \<Rightarrow> string list" where
  "key_parts s = key_part ''rank'' (map_option show_int (sub_rank s))
       @ key_part ''charges'' (map_option show_int (sub_charges s))
       @ key_part ''subtype'' (sub_variant s)
       @ key_part ''amber'' (map_option show_int (sub_amber_stars s))
       @ key_part ''cyan'' (map_option show_int (sub_cyan_stars s))"

lemma key_of_parts: "key_of (Some s) = str_join '';'' (key_parts s)"
  by (simp add: key_of_def sub_type_key_def key_parts_def)

lemma key_parts_safe: "key_safe s \<Longrightarrow> p \<in> set (key_parts s) \<Longrightarrow> CHR '';'' \<notin> set p"
  by (cases "sub_variant s") (auto simp: key_parts_def key_part_def key_safe_def split: option.splits)

lemma key_parts_Nil: "key_parts s = [] \<longleftrightarrow> sub_is_empty s"
  by (auto simp: key_parts_def key_part_def sub_is_empty_def split: option.splits)

lemma str_join_Nil: "\<forall>p\<in>set ps. p \<noteq> [] \<Longrightarrow> str_join sep ps = [] \<longleftrightarrow> ps = []"
  by (cases "(sep, ps)" rule: str_join.cases) auto

lemma key_of_empty: "key_of (Some s) = [] \<longleftrightarrow> sub_is_empty s"
proof -
  have "\<forall>p\<in>set (key_parts s). p \<noteq> []"
    by (auto simp: key_parts_def key_part_def split: option.splits)
  then show ?thesis by (simp add: key_of_parts str_join_Nil key_parts_Nil)
qed

lemma key_field_part:
  "key_field s (''rank='' @ v) = s\<lparr>sub_rank := i64_parse v\<rparr>"
  "key_field s (''charges='' @ v) = s\<lparr>sub_charges := i64_parse v\<rparr>"
  "key_field s (''subtype='' @ v) = s\<lparr>sub_variant := Some v\<rparr>"
  "key_field s (''amber='' @ v) = s\<lparr>sub_amber_stars := i64_parse v\<rparr>"
  "key_field s (''cyan='' @ v) = s\<lparr>sub_cyan_stars := i64_parse v\<rparr>"
  using split_once_part[of "''rank''" v] split_once_part[of "''charges''" v] split_once_part[of "''subtype''" v]
    split_once_part[of "''amber''" v] split_once_part[of "''cyan''" v]
  by (simp_all add: key_field_def)

lemma foldl_key_parts: "key_safe s \<Longrightarrow> foldl key_field empty_sub (key_parts s) = s"
  by (cases s)
     (auto simp: key_parts_def key_part_def key_safe_def empty_sub_def key_field_part[simplified] split: option.splits)

section \<open>Properties\<close>

text \<open>
  C8. The column key loses nothing: reading the key of a sub-type back gives the sub-type, and
  one without any field reads back as none, as long as numbers are 64-bit and the variant has
  no semicolon. So two such sub-types share a key only if they are equal.
\<close>

theorem sub_type_key_roundtrip:
  assumes "key_safe s"
  shows "sub_type_from_key (key_of (Some s)) = (if sub_is_empty s then None else Some s)"
proof (cases "sub_is_empty s")
  case True
  then show ?thesis using key_of_empty by (simp add: sub_type_from_key_def)
next
  case False
  then have "str_split (CHR '';'') (key_of (Some s)) = key_parts s"
    using key_parts_safe[OF assms] by (simp add: key_of_parts str_split_join key_parts_Nil)
  with False assms show ?thesis
    by (simp add: sub_type_from_key_def key_of_empty foldl_key_parts)
qed

theorem sub_type_key_roundtrip_witness:
  "sub_type_from_key (key_of (Some (ayatan_sub 2 (-1)))) = Some (ayatan_sub 2 (-1))"
  using sub_type_key_roundtrip[of "ayatan_sub 2 (-1)"]
  by (simp add: ayatan_sub_def empty_sub_def key_safe_def i64_def sub_is_empty_def)

lemma wfm_sub_type_roundtrip: "from_entity (to_entity w) = w"
  by (cases w) (auto simp: from_entity_def to_entity_def wsub_is_empty_def sub_is_empty_def wsub_default_def)

lemma entity_sub_type_roundtrip: "to_entity (from_entity (Some s)) = (if sub_is_empty s then None else Some s)"
  by (cases s) (auto simp: from_entity_def to_entity_def wsub_is_empty_def sub_is_empty_def wsub_default_def)

end
