(* ===== verification/Operation_Set.thy ===== *)
theory Operation_Set
  imports Prelude
begin

text \<open>
  The ordered set of operation tags a trader entry carries (\<open>utils/src/operation_set.rs\<close>):
  a list of strings without repetitions, plus the \<open>Prefix:value\<close> tags read back by
  \<open>get_value_after\<close>. The trim of \<open>get_value_after\<close> is the ASCII one.
\<close>

type_synonym operation_set = "string list"

definition os_new :: operation_set where
  "os_new = []"

definition os_has :: "operation_set \<Rightarrow> string \<Rightarrow> bool" where
  "os_has ops opn = list_ex (\<lambda>q. q = opn) ops"

definition os_add :: "operation_set \<Rightarrow> string \<Rightarrow> operation_set" where
  "os_add ops opn = (if os_has ops opn then ops else ops @ [opn])"

definition os_remove :: "operation_set \<Rightarrow> string \<Rightarrow> operation_set" where
  "os_remove ops opn = filter (\<lambda>q. q \<noteq> opn) ops"

definition os_ends_with :: "operation_set \<Rightarrow> string \<Rightarrow> bool" where
  "os_ends_with ops suffix = list_ex (\<lambda>q. ends_with q suffix) ops"

definition os_any :: "operation_set \<Rightarrow> string list \<Rightarrow> bool" where
  "os_any ops qs = list_ex (os_has ops) qs"

definition os_all :: "operation_set \<Rightarrow> string list \<Rightarrow> bool" where
  "os_all ops qs = list_all (os_has ops) qs"

definition os_remove_prefix :: "operation_set \<Rightarrow> string \<Rightarrow> operation_set" where
  "os_remove_prefix ops prefix = filter (\<lambda>q. \<not> starts_with q (prefix @ '':'')) ops"

definition os_merge :: "operation_set \<Rightarrow> operation_set \<Rightarrow> operation_set" where
  "os_merge ops other = foldl os_add ops other"

definition os_get_value_after :: "operation_set \<Rightarrow> string \<Rightarrow> string option" where
  "os_get_value_after ops prefix =
     (case List.find (\<lambda>q. starts_with q (prefix @ '':'')) ops of
        None \<Rightarrow> None
      | Some q \<Rightarrow>
          (case strip_prefix (prefix @ '':'') q of
             None \<Rightarrow> None
           | Some v \<Rightarrow> (let t = str_trim v in if t = [] then None else Some t)))"

definition os_contains :: "operation_set \<Rightarrow> string \<Rightarrow> bool" where
  "os_contains ops opn = list_ex (\<lambda>q. str_contains q opn) ops"

definition os_is_subset :: "operation_set \<Rightarrow> operation_set \<Rightarrow> bool" where
  "os_is_subset ops other = list_all (os_has other) ops"

definition os_from :: "string list \<Rightarrow> operation_set" where
  "os_from qs = foldl os_add os_new qs"

section \<open>The set it stands for\<close>

definition os_wf :: "operation_set \<Rightarrow> bool" where
  "os_wf ops = distinct ops"

lemma os_has_iff [simp]: "os_has ops q \<longleftrightarrow> q \<in> set ops"
  by (auto simp: os_has_def list_ex_iff)

lemma os_add_set [simp]: "set (os_add ops q) = insert q (set ops)"
  by (auto simp: os_add_def)

lemma os_remove_set [simp]: "set (os_remove ops q) = set ops - {q}"
  by (auto simp: os_remove_def)

lemma os_merge_set [simp]: "set (os_merge ops other) = set ops \<union> set other"
  unfolding os_merge_def by (induction other arbitrary: ops) auto

lemma os_remove_prefix_set:
  "set (os_remove_prefix ops p) = {q \<in> set ops. \<nexists>v. q = p @ '':'' @ v}"
  by (auto simp: os_remove_prefix_def starts_with_iff)

lemma os_from_set [simp]: "set (os_from qs) = set qs"
  using os_merge_set[of os_new qs] by (simp add: os_from_def os_merge_def os_new_def)

lemma os_wf_new [intro]: "os_wf os_new"
  by (simp add: os_wf_def os_new_def)

lemma os_wf_add [intro]: "os_wf ops \<Longrightarrow> os_wf (os_add ops q)"
  by (simp add: os_wf_def os_add_def)

lemma os_wf_remove [intro]: "os_wf ops \<Longrightarrow> os_wf (os_remove ops q)"
  by (simp add: os_wf_def os_remove_def)

lemma os_wf_remove_prefix [intro]: "os_wf ops \<Longrightarrow> os_wf (os_remove_prefix ops p)"
  by (simp add: os_wf_def os_remove_prefix_def)

lemma os_wf_merge [intro]: "os_wf ops \<Longrightarrow> os_wf (os_merge ops other)"
  unfolding os_merge_def by (induction other arbitrary: ops) auto

lemma os_wf_from [intro]: "os_wf (os_from qs)"
  using os_wf_merge[OF os_wf_new, of qs] by (simp add: os_from_def os_merge_def)

lemma os_any_iff [simp]: "os_any ops qs \<longleftrightarrow> (\<exists>q\<in>set qs. q \<in> set ops)"
  by (simp add: os_any_def list_ex_iff)

lemma os_all_iff [simp]: "os_all ops qs \<longleftrightarrow> set qs \<subseteq> set ops"
  by (auto simp: os_all_def list_all_iff)

lemma os_is_subset_iff [simp]: "os_is_subset ops other \<longleftrightarrow> set ops \<subseteq> set other"
  by (auto simp: os_is_subset_def list_all_iff)

text \<open>A value written as a tag is read back, once earlier tags of the prefix are gone.\<close>

lemma os_get_value_after_tag:
  assumes "str_trim v = v" "v \<noteq> []"
  shows "os_get_value_after (os_add (os_remove_prefix ops p) (p @ '':'' @ v)) p = Some v"
proof -
  have none: "List.find (\<lambda>q. starts_with q (p @ '':'')) (os_remove_prefix ops p) = None"
    by (simp add: os_remove_prefix_def find_None_iff)
  have "p @ '':'' @ v \<notin> set (os_remove_prefix ops p)"
    by (auto simp: os_remove_prefix_set)
  then have "os_add (os_remove_prefix ops p) (p @ '':'' @ v) = os_remove_prefix ops p @ [p @ '':'' @ v]"
    by (simp add: os_add_def)
  moreover have "List.find P (xs @ [x]) = (case List.find P xs of None \<Rightarrow> if P x then Some x else None | Some y \<Rightarrow> Some y)"
    for P xs and x :: string
    by (induction xs) auto
  moreover have "starts_with (p @ '':'' @ v) (p @ '':'')"
    by (auto simp: starts_with_iff)
  moreover have "strip_prefix (p @ '':'') (p @ '':'' @ v) = Some v"
    by (simp add: strip_prefix_Some)
  ultimately show ?thesis
    using assms none by (simp add: os_get_value_after_def Let_def)
qed

end
