(* ===== verification/Row_Store.thy ===== *)
theory Row_Store
  imports Prelude
begin

text \<open>
  Tables with a primary key, as the collector, the stock lists and the order caches use them: a
  list of rows in insertion order with the SQL operations on it, the interface
  \<open>keyed_store\<close> they share, and what a batch of writes through that interface leaves behind.
\<close>

section \<open>Rows by key\<close>

definition row_lookup :: "('r \<Rightarrow> 'k) \<Rightarrow> 'r list \<Rightarrow> 'k \<Rightarrow> 'r option" where
  "row_lookup key rows k = List.find (\<lambda>r. key r = k) rows"

definition row_delete :: "('r \<Rightarrow> 'k) \<Rightarrow> 'k \<Rightarrow> 'r list \<Rightarrow> 'r list" where
  "row_delete key k rows = filter (\<lambda>r. key r \<noteq> k) rows"

text \<open>\<open>INSERT OR REPLACE\<close>: the old row of the key is deleted and the new one appended.\<close>

definition row_replace :: "('r \<Rightarrow> 'k) \<Rightarrow> 'r \<Rightarrow> 'r list \<Rightarrow> 'r list" where
  "row_replace key r rows = row_delete key (key r) rows @ [r]"

text \<open>\<open>UPDATE ... WHERE key = ?\<close>.\<close>

definition row_modify :: "('r \<Rightarrow> 'k) \<Rightarrow> 'k \<Rightarrow> ('r \<Rightarrow> 'r) \<Rightarrow> 'r list \<Rightarrow> 'r list" where
  "row_modify key k f rows = map (\<lambda>r. if key r = k then f r else r) rows"

lemma find_filter: "List.find P (filter Q xs) = List.find (\<lambda>x. Q x \<and> P x) xs"
  by (induction xs) auto

lemma find_append: "List.find P (xs @ ys) = (case List.find P xs of None \<Rightarrow> List.find P ys | Some x \<Rightarrow> Some x)"
  by (induction xs) auto

lemma find_map: "List.find P (map f xs) = map_option f (List.find (\<lambda>x. P (f x)) xs)"
  by (induction xs) auto

lemma find_false [simp]: "List.find (\<lambda>x. False) xs = None"
  by (induction xs) auto

lemma find_cong_set: "(\<And>x. x \<in> set xs \<Longrightarrow> P x = Q x) \<Longrightarrow> List.find P xs = List.find Q xs"
  by (induction xs) auto

lemma find_SomeD: "List.find P xs = Some x \<Longrightarrow> x \<in> set xs \<and> P x"
  by (auto simp: find_Some_iff)

lemma row_lookup_delete: "row_lookup key (row_delete key k rows) k' = (if k' = k then None else row_lookup key rows k')"
proof (cases "k' = k")
  case True
  then show ?thesis by (simp add: row_lookup_def row_delete_def find_filter)
next
  case False
  then have "List.find (\<lambda>x. key x \<noteq> k \<and> key x = k') rows = List.find (\<lambda>x. key x = k') rows"
    by (intro find_cong_set) auto
  with False show ?thesis by (simp add: row_lookup_def row_delete_def find_filter)
qed

lemma row_lookup_replace: "row_lookup key (row_replace key r rows) k = (if k = key r then Some r else row_lookup key rows k)"
  using row_lookup_delete[of key "key r" rows k]
  by (auto simp: row_replace_def row_lookup_def find_append split: option.splits if_splits)

lemma row_lookup_Some: "row_lookup key rows k = Some r \<Longrightarrow> r \<in> set rows \<and> key r = k"
  by (auto simp: row_lookup_def find_Some_iff)

lemma row_lookup_modify:
  assumes "\<And>r. key (f r) = key r"
  shows "row_lookup key (row_modify key k f rows) k' =
           (if k' = k then map_option f (row_lookup key rows k) else row_lookup key rows k')"
proof -
  have "key (if key r = k then f r else r) = key r" for r by (simp add: assms)
  then have "row_lookup key (row_modify key k f rows) k' =
      map_option (\<lambda>r. if key r = k then f r else r) (row_lookup key rows k')"
    by (simp add: row_lookup_def row_modify_def find_map)
  also have "\<dots> = (if k' = k then map_option f (row_lookup key rows k) else row_lookup key rows k')"
    using row_lookup_Some[of key rows k'] by (cases "row_lookup key rows k'") auto
  finally show ?thesis .
qed

lemma row_lookup_None: "row_lookup key rows k = None \<longleftrightarrow> k \<notin> key ` set rows"
  by (auto simp: row_lookup_def find_None_iff)

lemma find_key_None: "k \<notin> key ` set xs \<Longrightarrow> List.find (\<lambda>x. key x = k) xs = None"
  using row_lookup_None[of key xs k] by (simp add: row_lookup_def)

lemma row_lookup_in: "distinct (map key rows) \<Longrightarrow> r \<in> set rows \<Longrightarrow> row_lookup key rows (key r) = Some r"
  by (induction rows) (auto simp: row_lookup_def)

lemma row_distinct_delete: "distinct (map key rows) \<Longrightarrow> distinct (map key (row_delete key k rows))"
  by (simp add: row_delete_def distinct_map_filter)

lemma row_distinct_replace: "distinct (map key rows) \<Longrightarrow> distinct (map key (row_replace key r rows))"
  by (auto simp: row_replace_def row_delete_def distinct_map_filter)

lemma row_keys_modify: "(\<And>r. key (f r) = key r) \<Longrightarrow> map key (row_modify key k f rows) = map key rows"
  by (simp add: row_modify_def)

text \<open>Two keys of one table name the same row.\<close>

lemma row_same:
  assumes "distinct (map key1 rows)" "distinct (map key2 rows)" "m \<in> set rows" "r \<in> set rows"
  shows "key1 r = key1 m \<longleftrightarrow> key2 r = key2 m"
  using assms by (metis distinct_map inj_onD)

lemma row_modify_other_key:
  assumes "distinct (map key1 rows)" "distinct (map key2 rows)" "m \<in> set rows"
  shows "row_modify key1 (key1 m) f rows = row_modify key2 (key2 m) f rows"
  unfolding row_modify_def using row_same[OF assms] by (intro map_cong) auto

lemma row_delete_other_key:
  assumes "distinct (map key1 rows)" "distinct (map key2 rows)" "m \<in> set rows"
  shows "row_delete key1 (key1 m) rows = row_delete key2 (key2 m) rows"
  unfolding row_delete_def using row_same[OF assms] by (intro filter_cong) auto

lemma row_modify_const_keys:
  assumes "distinct (map key1 rows)" "m \<in> set rows" "key2 m1 = key2 m"
  shows "map key2 (row_modify key1 (key1 m) (\<lambda>_. m1) rows) = map key2 rows"
  unfolding row_modify_def using assms by (auto simp: distinct_map dest: inj_onD)

lemma row_lookup_modify_const:
  assumes "key m1 = k"
  shows "row_lookup key (row_modify key k (\<lambda>_. m1) rows) k' =
     (if k' = k then map_option (\<lambda>_. m1) (row_lookup key rows k) else row_lookup key rows k')"
  unfolding row_lookup_def row_modify_def using assms by (induction rows) auto

lemma row_modify_set:
  "r \<in> set (row_modify key k (\<lambda>_. m1) rows) \<Longrightarrow> r = m1 \<or> r \<in> set rows"
  by (auto simp: row_modify_def split: if_splits)

section \<open>The interface\<close>

text \<open>
  A store of rows found by their key: what a lookup returns after a row is put, dropped or
  changed in place. The client lemmas say what whole batches leave behind.
\<close>

locale keyed_store =
  fixes key :: "'r \<Rightarrow> 'k"
    and look :: "'s \<Rightarrow> 'k \<Rightarrow> 'r option"
    and put :: "'r \<Rightarrow> 's \<Rightarrow> 's"
    and drop_key :: "'k \<Rightarrow> 's \<Rightarrow> 's"
  assumes look_put: "look (put r s) k = (if k = key r then Some r else look s k)"
    and look_drop: "look (drop_key k s) k' = (if k' = k then None else look s k')"
begin

definition put_all :: "'r list \<Rightarrow> 's \<Rightarrow> 's" where
  "put_all rs s = foldl (\<lambda>s r. put r s) s rs"

definition drop_all :: "'k list \<Rightarrow> 's \<Rightarrow> 's" where
  "drop_all ks s = foldl (\<lambda>s k. drop_key k s) s ks"

lemma look_put_all:
  "distinct (map key rs) \<Longrightarrow>
   look (put_all rs s) k = (case List.find (\<lambda>r. key r = k) rs of Some r \<Rightarrow> Some r | None \<Rightarrow> look s k)"
  unfolding put_all_def
proof (induction rs arbitrary: s)
  case (Cons r rs)
  moreover have "k = key r \<Longrightarrow> List.find (\<lambda>r. key r = k) rs = None"
    using Cons.prems by (auto simp: find_None_iff) (metis image_eqI)
  ultimately show ?case by (auto simp: look_put split: option.splits)
qed simp

lemma look_drop_all: "look (drop_all ks s) k = (if k \<in> set ks then None else look s k)"
  unfolding drop_all_def by (induction ks arbitrary: s) (auto simp: look_drop)

end

end
