(* ===== verification/Collector_Diff.thy ===== *)
theory Collector_Diff
  imports Sub_Types
begin

text \<open>
  Sweeps of one item's order book: the order as the collector parses it
  (\<open>qf_core/src/collector/orders.rs\<close>), the rows it keeps between sweeps, the summary per
  sub-type and the difference between two sweeps (\<open>qf_core/src/collector/diff.rs\<close>).
  JSON decoding is not modelled. The hash maps of \<open>diff_orders\<close> are looked up only, so
  \<open>map_of\<close> over the reversed list gives what the code's map holds (a later row wins).
\<close>

record v2_order =
  vo_id :: string
  vo_side :: string
  vo_platinum :: int
  vo_quantity :: int
  vo_rank :: "int option"
  vo_charges :: "int option"
  vo_subtype :: "string option"
  vo_amber_stars :: "int option"
  vo_cyan_stars :: "int option"
  vo_visible :: bool
  vo_item_id :: string
  vo_user_id :: string
  vo_user_name :: string
  vo_user_status :: string

definition order_sub_type_key :: "v2_order \<Rightarrow> string" where
  "order_sub_type_key o1 =
     sub_type_key (vo_rank o1) (vo_charges o1) (vo_subtype o1) (vo_amber_stars o1) (vo_cyan_stars o1)"

definition is_ingame :: "v2_order \<Rightarrow> bool" where
  "is_ingame o1 \<longleftrightarrow> vo_user_status o1 = ''ingame''"

definition top_orders :: nat where
  "top_orders = 5"

record seen_order =
  so_order_id :: string
  so_sub_type :: string
  so_side :: string
  so_platinum :: int
  so_quantity :: int
  so_user_id :: string
  so_first_seen :: stamp

record sweep_summary =
  ss_sub_type :: string
  ss_min_sell :: "int option"
  ss_max_buy :: "int option"
  ss_sell_count :: nat
  ss_buy_count :: nat
  ss_sell_ingame :: nat
  ss_buy_ingame :: nat
  ss_top_sells :: "(int \<times> int) list"
  ss_top_buys :: "(int \<times> int) list"

record changed =
  ch_before :: seen_order
  ch_after :: seen_order

definition quantity_drop :: "changed \<Rightarrow> int" where
  "quantity_drop c = max 0 (so_quantity (ch_before c) - so_quantity (ch_after c))"

record order_diff =
  df_new :: "seen_order list"
  df_changed :: "changed list"
  df_vanished :: "seen_order list"

definition to_seen :: "v2_order list \<Rightarrow> stamp \<Rightarrow> seen_order list" where
  "to_seen orders swept_at =
     map (\<lambda>o1. \<lparr>so_order_id = vo_id o1, so_sub_type = order_sub_type_key o1, so_side = vo_side o1,
                so_platinum = vo_platinum o1, so_quantity = vo_quantity o1, so_user_id = vo_user_id o1,
                so_first_seen = swept_at\<rparr>)
       (filter vo_visible orders)"

definition first_of :: "'a list \<Rightarrow> 'a option" where
  "first_of xs = (case xs of [] \<Rightarrow> None | x # _ \<Rightarrow> Some x)"

definition summarize_group :: "string \<Rightarrow> v2_order list \<Rightarrow> sweep_summary" where
  "summarize_group key orders =
     (let sells = filter (\<lambda>o1. vo_side o1 = ''sell'') orders;
          buys = filter (\<lambda>o1. vo_side o1 = ''buy'') orders;
          ingame_sells = sort_key vo_platinum (filter is_ingame sells);
          ingame_buys = sort_key (\<lambda>o1. - vo_platinum o1) (filter is_ingame buys)
      in \<lparr>ss_sub_type = key,
          ss_min_sell = map_option vo_platinum (first_of ingame_sells),
          ss_max_buy = map_option vo_platinum (first_of ingame_buys),
          ss_sell_count = length sells,
          ss_buy_count = length buys,
          ss_sell_ingame = length ingame_sells,
          ss_buy_ingame = length ingame_buys,
          ss_top_sells = map (\<lambda>o1. (vo_platinum o1, vo_quantity o1)) (take top_orders ingame_sells),
          ss_top_buys = map (\<lambda>o1. (vo_platinum o1, vo_quantity o1)) (take top_orders ingame_buys)\<rparr>)"

text \<open>The \<open>BTreeMap\<close> iterates its keys in ascending text order; each group keeps the book's order.\<close>

definition summarize :: "v2_order list \<Rightarrow> sweep_summary list" where
  "summarize orders =
     (let visible = filter vo_visible orders
      in map (\<lambda>k. summarize_group k (filter (\<lambda>o1. order_sub_type_key o1 = k) visible))
           (sort (remdups (map order_sub_type_key visible))))"

definition before_map :: "seen_order list \<Rightarrow> string \<Rightarrow> seen_order option" where
  "before_map previous = map_of (rev (map (\<lambda>o1. (so_order_id o1, o1)) previous))"

fun diff_current :: "(string \<Rightarrow> seen_order option) \<Rightarrow> seen_order list \<Rightarrow> order_diff \<Rightarrow> order_diff" where
  "diff_current before [] d = d"
| "diff_current before (o1 # os) d =
     diff_current before os
       (case before (so_order_id o1) of
          None \<Rightarrow> d\<lparr>df_new := df_new d @ [o1]\<rparr>
        | Some prev \<Rightarrow>
            if so_platinum prev \<noteq> so_platinum o1 \<or> so_quantity prev \<noteq> so_quantity o1
            then d\<lparr>df_changed := df_changed d @
                     [\<lparr>ch_before = prev, ch_after = o1\<lparr>so_first_seen := so_first_seen prev\<rparr>\<rparr>]\<rparr>
            else d)"

definition diff_orders :: "seen_order list \<Rightarrow> seen_order list \<Rightarrow> order_diff" where
  "diff_orders previous current =
     (let d = diff_current (before_map previous) current \<lparr>df_new = [], df_changed = [], df_vanished = []\<rparr>;
          ids = map so_order_id current
      in d\<lparr>df_vanished := df_vanished d @ filter (\<lambda>p. so_order_id p \<notin> set ids) previous\<rparr>)"

end
