(* ===== verification/Collector_Stats.thy ===== *)
theory Collector_Stats
  imports Prelude "HOL-Library.Multiset"
begin

text \<open>
  The probable-trade statistics (\<open>qf_core/src/collector/stats.rs\<close>). A calendar day is its
  number since the epoch. The \<open>f64\<close> values are reals: sums of whole prices and halves below
  2^53 are exact in \<open>f64\<close> too, quotients are rounded there and exact here.
\<close>

record stats_config =
  cf_relist_window :: duration
  cf_bulk_pull_threshold :: int
  cf_bulk_window :: duration
  cf_gap_factor :: real
  cf_window :: duration
  cf_avg_window :: duration
  cf_warm_days :: int
  cf_warm_min_trades :: nat
  cf_side_min_trades :: nat

definition default_stats_config :: stats_config where
  "default_stats_config =
     \<lparr>cf_relist_window = hours 2, cf_bulk_pull_threshold = 3, cf_bulk_window = mins 30, cf_gap_factor = 3,
      cf_window = days 7, cf_avg_window = hours 48, cf_warm_days = 7, cf_warm_min_trades = 10,
      cf_side_min_trades = 3\<rparr>"

datatype resolution = ResTrade | ResRelist | ResBulk

fun resolution_str :: "resolution \<Rightarrow> string" where
  "resolution_str ResTrade = ''trade''"
| "resolution_str ResRelist = ''relist''"
| "resolution_str ResBulk = ''bulk''"

definition resolve_vanish :: "int \<Rightarrow> bool \<Rightarrow> stats_config \<Rightarrow> resolution" where
  "resolve_vanish vanishes relisted cfg =
     (if cf_bulk_pull_threshold cfg \<le> vanishes then ResBulk
      else if relisted then ResRelist else ResTrade)"

record trade =
  tr_side :: string
  tr_platinum :: int
  tr_at :: utc

record live_spread =
  sp_min_sell :: "int option"
  sp_max_buy :: "int option"

definition no_spread :: live_spread where
  "no_spread = \<lparr>sp_min_sell = None, sp_max_buy = None\<rparr>"

record item_stats =
  is_item_id :: string
  is_sub_type :: string
  is_volume :: real
  is_avg_price :: "real option"
  is_moving_avg :: "real option"
  is_profit :: "real option"
  is_min_price :: "int option"
  is_max_price :: "int option"
  is_median :: "real option"
  is_history_days :: int
  is_warm :: bool
  is_updated_at :: stamp

record daily_stat =
  ds_day :: int
  ds_volume :: int
  ds_median :: "real option"
  ds_min_price :: "int option"
  ds_max_price :: "int option"

definition day_of :: "utc \<Rightarrow> int" where
  "day_of t = t div days 1"

definition num_days :: "duration \<Rightarrow> int" where
  "num_days d = sgn d * (\<bar>d\<bar> div days 1)"

definition median_of :: "int list \<Rightarrow> real option" where
  "median_of vals =
     (if vals = [] then None
      else let sorted_vals = sort vals; mid = length sorted_vals div 2 in
        Some (if length sorted_vals mod 2 = 0
              then real_of_int (sorted_vals ! (mid - 1) + sorted_vals ! mid) / 2
              else real_of_int (sorted_vals ! mid)))"

definition mean :: "real list \<Rightarrow> real option" where
  "mean vals = (if vals = [] then None else Some (sum_list vals / real (length vals)))"

definition min_of :: "int list \<Rightarrow> int option" where
  "min_of vals = (if vals = [] then None else Some (foldr min (tl vals) (hd vals)))"

definition max_of :: "int list \<Rightarrow> int option" where
  "max_of vals = (if vals = [] then None else Some (foldr max (tl vals) (hd vals)))"

text \<open>The values of a \<open>BTreeMap\<close> from day to prices, in the order of the days.\<close>

definition by_day :: "trade list \<Rightarrow> (int \<times> int list) list" where
  "by_day trades =
     map (\<lambda>d. (d, map tr_platinum (filter (\<lambda>t. day_of (tr_at t) = d) trades)))
       (sort (remdups (map (\<lambda>t. day_of (tr_at t)) trades)))"

definition in_window :: "utc \<Rightarrow> duration \<Rightarrow> trade \<Rightarrow> bool" where
  "in_window now d t \<longleftrightarrow> now - d < tr_at t \<and> tr_at t \<le> now"

definition stats_profit :: "stats_config \<Rightarrow> int list \<Rightarrow> int list \<Rightarrow> live_spread \<Rightarrow> real option" where
  "stats_profit cfg sells buys spread =
     (case (median_of sells, median_of buys) of
        (Some sell, Some buy) \<Rightarrow>
          if cf_side_min_trades cfg \<le> length sells \<and> cf_side_min_trades cfg \<le> length buys then Some (sell - buy)
          else (case (sp_min_sell spread, sp_max_buy spread) of
                  (Some s, Some b) \<Rightarrow> Some (real_of_int (s - b)) | _ \<Rightarrow> None)
      | _ \<Rightarrow> (case (sp_min_sell spread, sp_max_buy spread) of
                  (Some s, Some b) \<Rightarrow> Some (real_of_int (s - b)) | _ \<Rightarrow> None))"

definition compute_item_stats ::
  "string \<Rightarrow> string \<Rightarrow> trade list \<Rightarrow> live_spread \<Rightarrow> utc option \<Rightarrow> utc \<Rightarrow> stats_config \<Rightarrow> item_stats" where
  "compute_item_stats item_id sub_type trades spread first_swept_at now cfg =
     (let week = filter (in_window now (cf_window cfg)) trades;
          prices = map tr_platinum week;
          recent = map (\<lambda>t. real_of_int (tr_platinum t)) (filter (\<lambda>t. now - cf_avg_window cfg < tr_at t) week);
          daily_medians = List.map_filter (\<lambda>(d, v). median_of v) (by_day week);
          sells = map tr_platinum (filter (\<lambda>t. tr_side t = ''sell'') week);
          buys = map tr_platinum (filter (\<lambda>t. tr_side t = ''buy'') week);
          history = (case first_swept_at of Some f \<Rightarrow> max 0 (num_days (now - f)) | None \<Rightarrow> 0)
      in \<lparr>is_item_id = item_id, is_sub_type = sub_type,
          is_volume = real (length week) / real_of_int (num_days (cf_window cfg)),
          is_avg_price = mean recent,
          is_moving_avg = mean daily_medians,
          is_profit = stats_profit cfg sells buys spread,
          is_min_price = min_of prices,
          is_max_price = max_of prices,
          is_median = median_of prices,
          is_history_days = history,
          is_warm = (cf_warm_days cfg \<le> history \<and> cf_warm_min_trades cfg \<le> length week),
          is_updated_at = ts now\<rparr>)"

definition daily_rollup :: "trade list \<Rightarrow> daily_stat list" where
  "daily_rollup trades =
     map (\<lambda>(d, prices). \<lparr>ds_day = d, ds_volume = int (length prices), ds_median = median_of prices,
                          ds_min_price = min_of prices, ds_max_price = max_of prices\<rparr>) (by_day trades)"

section \<open>Lemmas\<close>

lemma foldr_min_hd: "foldr min xs a = Min (insert a (set xs))" for a :: int
  by (induction xs) (auto simp: insert_commute)

lemma foldr_max_hd: "foldr max xs a = Max (insert a (set xs))" for a :: int
  by (induction xs) (auto simp: insert_commute)

lemma min_of_Min: "xs \<noteq> [] \<Longrightarrow> min_of xs = Some (Min (set xs))"
  by (cases xs) (auto simp: min_of_def foldr_min_hd)

lemma max_of_Max: "xs \<noteq> [] \<Longrightarrow> max_of xs = Some (Max (set xs))"
  by (cases xs) (auto simp: max_of_def foldr_max_hd)

lemma median_of_mset: "mset xs = mset ys \<Longrightarrow> median_of xs = median_of ys"
proof -
  assume m: "mset xs = mset ys"
  then have "sort xs = sort ys"
    by (metis mset_sort properties_for_sort sorted_sort)
  with m show ?thesis by (auto simp: median_of_def Let_def)
qed

lemma mean_mset: "mset xs = mset ys \<Longrightarrow> mean xs = mean ys"
  by (auto simp: mean_def dest: mset_eq_length) (metis sum_mset_sum_list mset_eq_length)

lemma min_of_mset: "mset xs = mset ys \<Longrightarrow> min_of xs = min_of ys"
  using min_of_Min[of xs] min_of_Min[of ys] mset_eq_setD[of xs ys] by (cases "xs = []"; cases "ys = []") auto

lemma max_of_mset: "mset xs = mset ys \<Longrightarrow> max_of xs = max_of ys"
  using max_of_Max[of xs] max_of_Max[of ys] mset_eq_setD[of xs ys] by (cases "xs = []"; cases "ys = []") auto

lemma sort_remdups_set: "set xs = set ys \<Longrightarrow> sort (remdups xs) = sort (remdups ys)" for xs :: "int list"
  by (metis sorted_list_of_set_sort_remdups)

lemma by_day_cong:
  assumes "mset xs = mset ys"
  shows "map (\<lambda>(d, v). (d, mset v)) (by_day xs) = map (\<lambda>(d, v). (d, mset v)) (by_day ys)"
proof -
  have "set xs = set ys" using assms by (rule mset_eq_setD)
  then have "sort (remdups (map (\<lambda>t. day_of (tr_at t)) xs)) = sort (remdups (map (\<lambda>t. day_of (tr_at t)) ys))"
    by (intro sort_remdups_set) auto
  moreover have "mset (map tr_platinum (filter P xs)) = mset (map tr_platinum (filter P ys))" for P
    using assms by simp
  ultimately show ?thesis by (simp add: by_day_def comp_def)
qed

lemma map_mset_cong:
  assumes "\<And>d v w. mset v = mset w \<Longrightarrow> f (d, v) = f (d, w)"
  shows "map (\<lambda>(d, v). (d, mset v)) as = map (\<lambda>(d, v). (d, mset v)) bs \<Longrightarrow> map f as = map f bs"
proof (induction as bs rule: list_induct2')
  case (4 a as b bs)
  obtain d v where a: "a = (d, v)" by (cases a)
  obtain e w where b: "b = (e, w)" by (cases b)
  have eqs: "(d, mset v) = (e, mset w) \<and> map (\<lambda>(d, v). (d, mset v)) as = map (\<lambda>(d, v). (d, mset v)) bs"
    using "4.prems" unfolding a b by (simp only: list.map list.inject prod.case)
  then have "f a = f b" using assms[of v w d] unfolding a b by (simp only: prod.inject)
  with "4.IH"[OF eqs[THEN conjunct2]] show ?case by (simp only: list.map)
qed simp_all

lemma map_filter_the: "List.map_filter f zs = map the (filter (\<lambda>x. x \<noteq> None) (map f zs))"
  by (induction zs) (auto simp: List.map_filter_def)

lemma by_day_map_filter:
  assumes "mset xs = mset ys"
  shows "List.map_filter (\<lambda>(d, v). median_of v) (by_day xs) = List.map_filter (\<lambda>(d, v). median_of v) (by_day ys)"
proof -
  have "(case (d, v) of (d, v) \<Rightarrow> median_of v) = (case (d, w) of (d, v) \<Rightarrow> median_of v)"
    if "mset v = mset w" for d :: int and v w
    using median_of_mset[OF that] by (simp only: prod.case)
  from map_mset_cong[where f = "\<lambda>(d, v). median_of v", OF this by_day_cong[OF assms]]
  show ?thesis by (simp only: map_filter_the)
qed

lemma median_between:
  assumes "median_of xs = Some m"
  shows "real_of_int (Min (set xs)) \<le> m \<and> m \<le> real_of_int (Max (set xs))"
proof -
  have ne: "xs \<noteq> []" using assms by (auto simp: median_of_def)
  have nth: "Min (set xs) \<le> sort xs ! i \<and> sort xs ! i \<le> Max (set xs)" if "i < length xs" for i
    using that nth_mem[of i "sort xs"] by simp
  have "length xs div 2 < length xs" "length xs div 2 - 1 < length xs" using ne by (cases xs; simp)+
  with nth[of "length xs div 2"] nth[of "length xs div 2 - 1"] assms ne show ?thesis
    by (auto simp: median_of_def Let_def field_simps split: if_splits)
qed

text \<open>The daily roll-up counts every trade once.\<close>

lemma sum_by_day:
  "(\<Sum>(d, v)\<leftarrow>by_day trs. int (length v)) = int (length trs)"
proof -
  define ks where "ks = sort (remdups (map (\<lambda>t. day_of (tr_at t)) trs))"
  have ks: "distinct ks" "set ks = day_of ` tr_at ` set trs" by (auto simp: ks_def)
  have "(\<Sum>d\<leftarrow>ks. int (length (filter (\<lambda>t. day_of (tr_at t) = d) us))) = int (length us)"
    if "day_of ` tr_at ` set us \<subseteq> set ks" for us
    using that
  proof (induction us)
    case (Cons u us)
    have "(\<Sum>d\<leftarrow>ks. int (length (filter (\<lambda>t. day_of (tr_at t) = d) (u # us))))
        = (\<Sum>d\<leftarrow>ks. (if d = day_of (tr_at u) then 1 else 0) + int (length (filter (\<lambda>t. day_of (tr_at t) = d) us)))"
      by (rule arg_cong[where f = sum_list]) auto
    also have "\<dots> = (\<Sum>d\<leftarrow>ks. if d = day_of (tr_at u) then 1 else 0)
        + (\<Sum>d\<leftarrow>ks. int (length (filter (\<lambda>t. day_of (tr_at t) = d) us)))"
      by (simp add: sum_list_addf)
    also have "(\<Sum>d\<leftarrow>ks. if d = day_of (tr_at u) then 1 else 0) = (1::int)"
      using Cons.prems ks(1) by (simp add: sum_list_distinct_conv_sum_set)
    finally show ?case using Cons by simp
  qed simp
  from this[of trs] ks(2) show ?thesis
    by (simp add: by_day_def ks_def[symmetric] comp_def)
qed

section \<open>Properties\<close>

lemma stats_profit_mset:
  assumes "mset xs = mset xs'" "mset ys = mset ys'"
  shows "stats_profit cfg xs ys spread = stats_profit cfg xs' ys' spread"
  unfolding stats_profit_def median_of_mset[OF assms(1)] median_of_mset[OF assms(2)]
    mset_eq_length[OF assms(1)] mset_eq_length[OF assms(2)] ..

text \<open>
  The statistics of an item depend on which trades there are, not on the order the database
  returns them in; their median lies between the lowest and the highest price of the window;
  and an item is warm exactly with enough history and enough trades in the window.
\<close>

theorem stats_order_independent:
  assumes "mset trades = mset trades'"
  shows "compute_item_stats it sub trades spread first now cfg = compute_item_stats it sub trades' spread first now cfg
    \<and> (\<forall>m. is_median (compute_item_stats it sub trades spread first now cfg) = Some m \<longrightarrow>
         (\<exists>lo hi. is_min_price (compute_item_stats it sub trades spread first now cfg) = Some lo
           \<and> is_max_price (compute_item_stats it sub trades spread first now cfg) = Some hi
           \<and> real_of_int lo \<le> m \<and> m \<le> real_of_int hi))"
proof (intro conjI allI impI)
  have week: "mset (filter (in_window now (cf_window cfg)) trades) =
      mset (filter (in_window now (cf_window cfg)) trades')"
    using assms by simp
  have parts: "mset (map f (filter P (filter (in_window now (cf_window cfg)) trades))) =
      mset (map f (filter P (filter (in_window now (cf_window cfg)) trades')))" for f :: "trade \<Rightarrow> 'a" and P
    using week by (metis mset_filter mset_map)
  note all = parts[of _ "\<lambda>_. True", unfolded filter_True[OF ballI[OF TrueI]]]
  show "compute_item_stats it sub trades spread first now cfg =
      compute_item_stats it sub trades' spread first now cfg"
    unfolding compute_item_stats_def Let_def by_day_map_filter[OF week] mset_eq_length[OF week]
      min_of_mset[OF all] max_of_mset[OF all] median_of_mset[OF all] mean_mset[OF parts]
      stats_profit_mset[OF parts parts] ..
next
  fix m
  assume "is_median (compute_item_stats it sub trades spread first now cfg) = Some m"
  then have med: "median_of (map tr_platinum (filter (in_window now (cf_window cfg)) trades)) = Some m"
    by (simp add: compute_item_stats_def Let_def)
  then have "map tr_platinum (filter (in_window now (cf_window cfg)) trades) \<noteq> []"
    by (auto simp: median_of_def)
  with median_between[OF med] show "\<exists>lo hi. is_min_price (compute_item_stats it sub trades spread first now cfg) = Some lo
         \<and> is_max_price (compute_item_stats it sub trades spread first now cfg) = Some hi
         \<and> real_of_int lo \<le> m \<and> m \<le> real_of_int hi"
    by (simp add: compute_item_stats_def Let_def min_of_Min max_of_Max del: map_is_Nil_conv)
qed

definition sale :: "int \<Rightarrow> trade" where
  "sale p = \<lparr>tr_side = ''sell'', tr_platinum = p, tr_at = 0\<rparr>"

theorem stats_order_independent_witness:
  "is_median (compute_item_stats [] [] [sale 4, sale 9, sale 5] no_spread None 0 default_stats_config) =
   is_median (compute_item_stats [] [] [sale 9, sale 5, sale 4] no_spread None 0 default_stats_config)"
  using stats_order_independent[of "[sale 4, sale 9, sale 5]" "[sale 9, sale 5, sale 4]"] by (simp add: add_mset_commute)

end
