(* ===== verification/Collector_Store.thy ===== *)
theory Collector_Store
  imports Collector_Diff Collector_Stats Row_Store
begin

text \<open>
  The collector's tables and the statements it runs on them
  (\<open>qf_core/src/collector/store.rs\<close>). A table is the list of its rows; \<open>collector_db\<close> holds the
  tables of the migration \<open>m20260915_000001_create_collector_tables\<close> the modelled code uses.
  A transaction is one state transformer; a failing statement rolls it back and is not
  modelled further. \<open>ORDER BY\<close> is a stable sort, text columns of times are whole seconds.
\<close>

record sweep_target =
  tg_item_id :: string
  tg_slug :: string
  tg_last_attempt_at :: "stamp option"

record sweep_input =
  si_item_id :: string
  si_lane :: string
  si_orders :: "v2_order list"
  si_swept_at :: utc
  si_expected_interval_s :: int
  si_gap_factor :: real

record sweep_outcome =
  sw_orders :: nat
  sw_groups :: nat
  sw_new :: nat
  sw_vanished :: nat
  sw_partials :: nat
  sw_gap :: bool

record item_counts =
  ic_active :: nat
  ic_inactive :: nat
  ic_behind :: nat

record sweep_row =
  sr_item_id :: string
  sr_slug :: string
  sr_active :: bool
  sr_first_swept_at :: "stamp option"
  sr_last_swept_at :: "stamp option"
  sr_last_attempt_at :: "stamp option"
  sr_expected_interval_s :: int
  sr_consecutive_errors :: int

record seen_row =
  sn_item_id :: string
  sn_order :: seen_order
  sn_updated_at :: stamp

record vanish_row =
  vr_id :: nat
  vr_order :: seen_order
  vr_item_id :: string
  vr_quantity :: int
  vr_vanished_at :: stamp
  vr_gap_seconds :: "int option"
  vr_kind :: string
  vr_status :: string

record summary_row =
  sm_item_id :: string
  sm_swept_at :: stamp
  sm_lane :: string
  sm_summary :: sweep_summary

record collector_db =
  db_sweep_state :: "sweep_row list"
  db_last_seen :: "seen_row list"
  db_vanished :: "vanish_row list"
  db_next_vanish :: nat
  db_summaries :: "summary_row list"
  db_item_stats :: "item_stats list"

section \<open>Items and targets\<close>

definition new_sweep_row :: "string \<Rightarrow> string \<Rightarrow> sweep_row" where
  "new_sweep_row item slug =
     \<lparr>sr_item_id = item, sr_slug = slug, sr_active = True, sr_first_swept_at = None, sr_last_swept_at = None,
      sr_last_attempt_at = None, sr_expected_interval_s = 0, sr_consecutive_errors = 0\<rparr>"

definition upsert_item :: "sweep_row list \<Rightarrow> string \<times> string \<Rightarrow> sweep_row list" where
  "upsert_item rows item =
     (if row_lookup sr_item_id rows (fst item) = None then rows @ [new_sweep_row (fst item) (snd item)]
      else row_modify sr_item_id (fst item) (\<lambda>r. r\<lparr>sr_slug := snd item, sr_active := True\<rparr>) rows)"

definition sync_items :: "collector_db \<Rightarrow> (string \<times> string) list \<Rightarrow> collector_db" where
  "sync_items db items =
     db\<lparr>db_sweep_state := foldl upsert_item (map (\<lambda>r. r\<lparr>sr_active := False\<rparr>) (db_sweep_state db)) items\<rparr>"

text \<open>\<open>ORDER BY last_attempt_at IS NOT NULL, last_attempt_at, item_id\<close>.\<close>

definition order_by_attempt :: "sweep_row list \<Rightarrow> sweep_row list" where
  "order_by_attempt rows =
     sort_key (\<lambda>r. case sr_last_attempt_at r of None \<Rightarrow> False | Some _ \<Rightarrow> True)
       (sort_key (\<lambda>r. case sr_last_attempt_at r of None \<Rightarrow> 0 | Some t \<Rightarrow> t)
         (sort_key sr_item_id rows))"

definition target_of :: "sweep_row \<Rightarrow> sweep_target" where
  "target_of r = \<lparr>tg_item_id = sr_item_id r, tg_slug = sr_slug r, tg_last_attempt_at = sr_last_attempt_at r\<rparr>"

definition hot_targets :: "collector_db \<Rightarrow> string set \<Rightarrow> sweep_target list" where
  "hot_targets db hot =
     map target_of (order_by_attempt (filter (\<lambda>r. sr_active r \<and> sr_item_id r \<in> hot) (db_sweep_state db)))"

definition cold_candidates :: "collector_db \<Rightarrow> nat \<Rightarrow> sweep_target list" where
  "cold_candidates db limit =
     take limit (map target_of (order_by_attempt (filter sr_active (db_sweep_state db))))"

definition active_count :: "collector_db \<Rightarrow> nat" where
  "active_count db = length (filter sr_active (db_sweep_state db))"

definition modify_item :: "collector_db \<Rightarrow> string \<Rightarrow> (sweep_row \<Rightarrow> sweep_row) \<Rightarrow> collector_db" where
  "modify_item db item f = db\<lparr>db_sweep_state := row_modify sr_item_id item f (db_sweep_state db)\<rparr>"

definition mark_attempt :: "collector_db \<Rightarrow> string \<Rightarrow> utc \<Rightarrow> collector_db" where
  "mark_attempt db item now = modify_item db item (\<lambda>r. r\<lparr>sr_last_attempt_at := Some (ts now)\<rparr>)"

definition restore_attempt :: "collector_db \<Rightarrow> string \<Rightarrow> stamp option \<Rightarrow> collector_db" where
  "restore_attempt db item previous = modify_item db item (\<lambda>r. r\<lparr>sr_last_attempt_at := previous\<rparr>)"

definition record_sweep_error :: "collector_db \<Rightarrow> string \<Rightarrow> collector_db" where
  "record_sweep_error db item = modify_item db item (\<lambda>r. r\<lparr>sr_consecutive_errors := sr_consecutive_errors r + 1\<rparr>)"

definition deactivate :: "collector_db \<Rightarrow> string \<Rightarrow> collector_db" where
  "deactivate db item = modify_item db item (\<lambda>r. r\<lparr>sr_active := False\<rparr>)"

section \<open>A sweep\<close>

definition insert_vanish ::
  "collector_db \<Rightarrow> string \<Rightarrow> seen_order \<Rightarrow> int \<Rightarrow> stamp \<Rightarrow> int option \<Rightarrow> string \<Rightarrow> string \<Rightarrow> collector_db" where
  "insert_vanish db item o1 quantity at_stamp gap kind status =
     db\<lparr>db_vanished := db_vanished db @
          [\<lparr>vr_id = db_next_vanish db, vr_order = o1, vr_item_id = item, vr_quantity = quantity,
            vr_vanished_at = at_stamp, vr_gap_seconds = gap, vr_kind = kind, vr_status = status\<rparr>],
        db_next_vanish := db_next_vanish db + 1\<rparr>"

definition seen_key :: "seen_row \<Rightarrow> string" where
  "seen_key r = so_order_id (sn_order r)"

definition sweep_vanished :: "string \<Rightarrow> stamp \<Rightarrow> int option \<Rightarrow> string \<Rightarrow> collector_db \<Rightarrow> seen_order \<Rightarrow> collector_db" where
  "sweep_vanished item swept gap status db o1 =
     (let db1 = insert_vanish db item o1 (so_quantity o1) swept gap ''full'' status
      in db1\<lparr>db_last_seen := row_delete seen_key (so_order_id o1) (db_last_seen db1)\<rparr>)"

definition sweep_changed :: "string \<Rightarrow> stamp \<Rightarrow> int option \<Rightarrow> collector_db \<Rightarrow> changed \<Rightarrow> collector_db" where
  "sweep_changed item swept gap db c =
     (let dropped = quantity_drop c;
          db1 = (if 0 < dropped then insert_vanish db item (ch_before c) dropped swept gap ''partial'' ''trade'' else db);
          new_order = ch_after c
      in db1\<lparr>db_last_seen := row_modify seen_key (so_order_id new_order)
               (\<lambda>r. r\<lparr>sn_order := (sn_order r)\<lparr>so_platinum := so_platinum new_order, so_quantity := so_quantity new_order\<rparr>,
                      sn_updated_at := swept\<rparr>) (db_last_seen db1)\<rparr>)"

definition sweep_new :: "string \<Rightarrow> stamp \<Rightarrow> collector_db \<Rightarrow> seen_order \<Rightarrow> collector_db" where
  "sweep_new item swept db o1 =
     db\<lparr>db_last_seen := row_replace seen_key \<lparr>sn_item_id = item, sn_order = o1, sn_updated_at = swept\<rparr> (db_last_seen db)\<rparr>"

definition stamp_secs :: "stamp \<Rightarrow> utc" where
  "stamp_secs t = secs t"

text \<open>\<open>gap\<close>: the time since the last sweep against \<open>gap_factor\<close> times the expected interval.\<close>

definition sweep_gap :: "collector_db \<Rightarrow> sweep_input \<Rightarrow> int option \<times> bool" where
  "sweep_gap db inp =
     (let (last_swept, previous_expected) =
            (case row_lookup sr_item_id (db_sweep_state db) (si_item_id inp) of
               Some r \<Rightarrow> (sr_last_swept_at r, sr_expected_interval_s r) | None \<Rightarrow> (None, 0));
          gap_seconds = map_option (\<lambda>t. num_seconds (si_swept_at inp - stamp_secs t)) last_swept;
          allowed = si_gap_factor inp * real_of_int (max previous_expected (si_expected_interval_s inp))
      in (gap_seconds, case gap_seconds of Some g \<Rightarrow> allowed < real_of_int g | None \<Rightarrow> False))"

definition seen_of_item :: "collector_db \<Rightarrow> string \<Rightarrow> seen_order list" where
  "seen_of_item db item = map sn_order (filter (\<lambda>r. sn_item_id r = item) (db_last_seen db))"

definition finish_sweep :: "sweep_input \<Rightarrow> stamp \<Rightarrow> sweep_row \<Rightarrow> sweep_row" where
  "finish_sweep inp swept r =
     r\<lparr>sr_last_swept_at := Some swept, sr_last_attempt_at := Some swept,
       sr_first_swept_at := (case sr_first_swept_at r of None \<Rightarrow> Some swept | Some t \<Rightarrow> Some t),
       sr_expected_interval_s := si_expected_interval_s inp, sr_consecutive_errors := 0\<rparr>"

definition apply_sweep :: "collector_db \<Rightarrow> sweep_input \<Rightarrow> sweep_outcome \<times> collector_db" where
  "apply_sweep db inp =
     (let swept = ts (si_swept_at inp); item = si_item_id inp;
          (gap_seconds, gap) = sweep_gap db inp;
          previous = seen_of_item db item;
          current = to_seen (si_orders inp) swept;
          diff = diff_orders previous current;
          status = (if gap then ''gap'' else ''pending'');
          db1 = foldl (sweep_vanished item swept gap_seconds status) db (df_vanished diff);
          db2 = foldl (sweep_changed item swept gap_seconds) db1 (df_changed diff);
          db3 = foldl (sweep_new item swept) db2 (df_new diff);
          summaries = summarize (si_orders inp);
          db4 = db3\<lparr>db_summaries := db_summaries db3 @
                  map (\<lambda>s. \<lparr>sm_item_id = item, sm_swept_at = swept, sm_lane = si_lane inp, sm_summary = s\<rparr>) summaries\<rparr>;
          db5 = modify_item db4 item (finish_sweep inp swept)
      in (\<lparr>sw_orders = length current, sw_groups = length summaries, sw_new = length (df_new diff),
           sw_vanished = length (df_vanished diff),
           sw_partials = length (filter (\<lambda>c. 0 < quantity_drop c) (df_changed diff)), sw_gap = gap\<rparr>, db5))"

definition item_counts_of :: "collector_db \<Rightarrow> utc \<Rightarrow> string set \<Rightarrow> int \<Rightarrow> int \<Rightarrow> item_counts" where
  "item_counts_of db now hot hot_interval_s cold_expected_s =
     (let cold_cutoff = ts (now - secs (cold_expected_s * 2));
          hot_cutoff = ts (now - secs (hot_interval_s + 60));
          behind = (\<lambda>r. sr_active r \<and>
             (case sr_last_swept_at r of None \<Rightarrow> True
              | Some t \<Rightarrow> t < cold_cutoff \<or> (sr_item_id r \<in> hot \<and> t < hot_cutoff)))
      in \<lparr>ic_active = active_count db,
          ic_inactive = length (filter (\<lambda>r. \<not> sr_active r) (db_sweep_state db)),
          ic_behind = length (filter behind (db_sweep_state db))\<rparr>)"

section \<open>The difference of two sweeps\<close>

definition change_of :: "(string \<Rightarrow> seen_order option) \<Rightarrow> seen_order \<Rightarrow> changed option" where
  "change_of before o1 =
     (case before (so_order_id o1) of
        None \<Rightarrow> None
      | Some prev \<Rightarrow>
          if so_platinum prev \<noteq> so_platinum o1 \<or> so_quantity prev \<noteq> so_quantity o1
          then Some \<lparr>ch_before = prev, ch_after = o1\<lparr>so_first_seen := so_first_seen prev\<rparr>\<rparr> else None)"

lemma map_filter_simps:
  "List.map_filter f [] = []"
  "List.map_filter f (x # xs) = (case f x of None \<Rightarrow> List.map_filter f xs | Some y \<Rightarrow> y # List.map_filter f xs)"
  by (simp_all add: List.map_filter_def split: option.splits)

lemma diff_current_eq:
  "diff_current before cur d =
     d\<lparr>df_new := df_new d @ filter (\<lambda>o1. before (so_order_id o1) = None) cur,
       df_changed := df_changed d @ List.map_filter (change_of before) cur\<rparr>"
  by (induction cur arbitrary: d) (auto simp: map_filter_simps change_of_def split: option.splits)

lemma diff_orders_eq:
  "diff_orders previous current =
     \<lparr>df_new = filter (\<lambda>o1. before_map previous (so_order_id o1) = None) current,
      df_changed = List.map_filter (change_of (before_map previous)) current,
      df_vanished = filter (\<lambda>p. so_order_id p \<notin> so_order_id ` set current) previous\<rparr>"
  by (simp add: diff_orders_def diff_current_eq Let_def)

lemma before_map_lookup:
  "distinct (map so_order_id previous) \<Longrightarrow> before_map previous k = row_lookup so_order_id previous k"
proof -
  assume d: "distinct (map so_order_id previous)"
  then have "map_of (rev (map (\<lambda>o1. (so_order_id o1, o1)) previous)) = map_of (map (\<lambda>o1. (so_order_id o1, o1)) previous)"
    by (subst map_of_inject_set) (simp_all add: comp_def rev_map[symmetric])
  moreover have "map_of (map (\<lambda>o1. (so_order_id o1, o1)) previous) k = row_lookup so_order_id previous k"
    by (induction previous) (auto simp: row_lookup_def)
  ultimately show ?thesis by (simp add: before_map_def)
qed

lemma find_map_filter:
  assumes "distinct (map key xs)" "\<And>x y. f x = Some y \<Longrightarrow> key' y = key x"
  shows "List.find (\<lambda>y. key' y = k) (List.map_filter f xs) =
           Option.bind (List.find (\<lambda>x. key x = k) xs) f"
  using assms(1)
proof (induction xs)
  case (Cons x xs)
  have "List.find (\<lambda>x. key x = k) xs = None" if "key x = k"
    using that Cons.prems by (auto simp: find_None_iff) (metis image_eqI)
  with Cons assms(2)[of x] show ?case
    by (auto simp: map_filter_simps split: option.splits)
qed (simp add: map_filter_simps)

lemma map_filter_keys:
  assumes "distinct (map key xs)" "\<And>x y. f x = Some y \<Longrightarrow> key' y = key x"
  shows "distinct (map key' (List.map_filter f xs)) \<and> key' ` set (List.map_filter f xs) \<subseteq> key ` set xs"
  using assms(1)
proof (induction xs)
  case (Cons x xs)
  with assms(2)[of x] show ?case by (auto simp: map_filter_simps split: option.splits)
qed (simp add: map_filter_simps)

section \<open>What a sweep leaves in the tables\<close>

interpretation seen: keyed_store seen_key "row_lookup seen_key" "row_replace seen_key" "row_delete seen_key"
  by unfold_locales (simp_all add: row_lookup_replace row_lookup_delete)

definition vanish_of :: "nat \<Rightarrow> string \<Rightarrow> seen_order \<Rightarrow> int \<Rightarrow> stamp \<Rightarrow> int option \<Rightarrow> string \<Rightarrow> string \<Rightarrow> vanish_row" where
  "vanish_of i item o1 q swept gap kind status =
     \<lparr>vr_id = i, vr_order = o1, vr_item_id = item, vr_quantity = q, vr_vanished_at = swept,
      vr_gap_seconds = gap, vr_kind = kind, vr_status = status\<rparr>"

lemma vanished_seen:
  "db_last_seen (foldl (sweep_vanished item swept gap status) db os) =
     seen.drop_all (map so_order_id os) (db_last_seen db)"
  unfolding seen.drop_all_def
  by (induction os arbitrary: db) (auto simp: sweep_vanished_def insert_vanish_def Let_def)

lemma new_seen:
  "db_last_seen (foldl (sweep_new item swept) db os) =
     seen.put_all (map (\<lambda>o1. \<lparr>sn_item_id = item, sn_order = o1, sn_updated_at = swept\<rparr>) os) (db_last_seen db)"
  unfolding seen.put_all_def by (induction os arbitrary: db) (auto simp: sweep_new_def)

definition change_row :: "stamp \<Rightarrow> changed \<Rightarrow> seen_row \<Rightarrow> seen_row" where
  "change_row swept c r =
     r\<lparr>sn_order := (sn_order r)\<lparr>so_platinum := so_platinum (ch_after c), so_quantity := so_quantity (ch_after c)\<rparr>,
       sn_updated_at := swept\<rparr>"

lemma seen_key_change_row [simp]: "seen_key (change_row swept c r) = seen_key r"
  by (simp add: seen_key_def change_row_def)

lemma change_seen_step:
  "db_last_seen (sweep_changed item swept gap db c) =
     row_modify seen_key (so_order_id (ch_after c)) (change_row swept c) (db_last_seen db)"
  by (simp add: sweep_changed_def Let_def insert_vanish_def change_row_def[abs_def])

lemma changed_seen:
  "distinct (map (\<lambda>c. so_order_id (ch_after c)) cs) \<Longrightarrow>
   row_lookup seen_key (db_last_seen (foldl (sweep_changed item swept gap) db cs)) k =
     (case List.find (\<lambda>c. so_order_id (ch_after c) = k) cs of
        None \<Rightarrow> row_lookup seen_key (db_last_seen db) k
      | Some c \<Rightarrow> map_option (change_row swept c) (row_lookup seen_key (db_last_seen db) k))"
proof (induction cs arbitrary: db)
  case (Cons c cs)
  have "List.find (\<lambda>c. so_order_id (ch_after c) = k) cs = None" if "so_order_id (ch_after c) = k"
    using that Cons.prems by (auto simp: find_None_iff) (metis image_eqI)
  with Cons show ?case by (auto simp: change_seen_step row_lookup_modify split: option.splits)
qed simp

lemma changed_keeps_others:
  "db_last_seen (sweep_new item swept db o1) =
     row_replace seen_key \<lparr>sn_item_id = item, sn_order = o1, sn_updated_at = swept\<rparr> (db_last_seen db)"
  by (simp add: sweep_new_def)

lemma seen_of_item_lookup:
  assumes "distinct (map seen_key (db_last_seen db))"
  shows "row_lookup so_order_id (seen_of_item db item) k =
           (case row_lookup seen_key (db_last_seen db) k of
              Some r \<Rightarrow> if sn_item_id r = item then Some (sn_order r) else None | None \<Rightarrow> None)"
  using assms unfolding seen_of_item_def
proof (induction "db_last_seen db" arbitrary: db)
  case Nil
  then show ?case by (simp add: row_lookup_def)
next
  case (Cons r rows)
  have "row_lookup seen_key rows (seen_key r) = None"
    using Cons.prems Cons.hyps(2)[symmetric] by (simp add: row_lookup_None)
  moreover have "row_lookup so_order_id (map sn_order (filter (\<lambda>r. sn_item_id r = item) rows)) k =
      (case row_lookup seen_key rows k of
         Some r \<Rightarrow> if sn_item_id r = item then Some (sn_order r) else None | None \<Rightarrow> None)"
    using Cons.hyps(1)[of "db\<lparr>db_last_seen := rows\<rparr>"] Cons.prems Cons.hyps(2)[symmetric] by simp
  ultimately show ?case
    using Cons.hyps(2)[symmetric] by (auto simp: row_lookup_def seen_key_def split: option.splits)
qed

lemma seen_of_item_distinct:
  "distinct (map seen_key (db_last_seen db)) \<Longrightarrow> distinct (map so_order_id (seen_of_item db item))"
  by (simp add: seen_of_item_def comp_def seen_key_def[abs_def, symmetric] distinct_map_filter)


lemma sweep_seen:
  assumes keys: "distinct (map seen_key (db_last_seen db))"
    and cur: "distinct (map so_order_id current)"
    and current: "current = to_seen (si_orders inp) (ts (si_swept_at inp))"
    and previous: "previous = seen_of_item db (si_item_id inp)"
  shows "row_lookup seen_key (db_last_seen (snd (apply_sweep db inp))) k =
    (case List.find (\<lambda>o1. so_order_id o1 = k) current of
       None \<Rightarrow> if k \<in> so_order_id ` set previous then None else row_lookup seen_key (db_last_seen db) k
     | Some o1 \<Rightarrow>
         (case row_lookup so_order_id previous k of
            None \<Rightarrow> Some \<lparr>sn_item_id = si_item_id inp, sn_order = o1, sn_updated_at = ts (si_swept_at inp)\<rparr>
          | Some p \<Rightarrow>
              (case change_of (before_map previous) o1 of
                 None \<Rightarrow> row_lookup seen_key (db_last_seen db) k
               | Some c \<Rightarrow> map_option (change_row (ts (si_swept_at inp)) c) (row_lookup seen_key (db_last_seen db) k))))"
proof -
  let ?swept = "ts (si_swept_at inp)" and ?item = "si_item_id inp"
  define gs where "gs = sweep_gap db inp"
  define st where "st = (if snd gs then ''gap'' else ''pending'')"
  define van where "van = filter (\<lambda>p. so_order_id p \<notin> so_order_id ` set current) previous"
  define cs where "cs = List.map_filter (change_of (before_map previous)) current"
  define ns where "ns = filter (\<lambda>o1. before_map previous (so_order_id o1) = None) current"
  define db1 where "db1 = foldl (sweep_vanished ?item ?swept (fst gs) st) db van"
  define db2 where "db2 = foldl (sweep_changed ?item ?swept (fst gs)) db1 cs"
  have prev: "distinct (map so_order_id previous)"
    using seen_of_item_distinct[OF keys] previous by simp
  have bm: "before_map previous k = row_lookup so_order_id previous k" for k
    by (rule before_map_lookup[OF prev])
  have last: "db_last_seen (snd (apply_sweep db inp)) =
      db_last_seen (foldl (sweep_new ?item ?swept) db2 ns)"
    by (simp add: apply_sweep_def Let_def diff_orders_eq modify_item_def current[symmetric] previous[symmetric]
        gs_def[symmetric] st_def van_def[symmetric] cs_def[symmetric] ns_def[symmetric] db1_def db2_def
        split: prod.splits)
  have cid: "so_order_id (ch_after c) = so_order_id o1" if "change_of (before_map previous) o1 = Some c" for o1 c
    using that by (auto simp: change_of_def split: option.splits if_splits)
  have dcs: "distinct (map (\<lambda>c. so_order_id (ch_after c)) cs)"
    unfolding cs_def
    using map_filter_keys[OF cur, of "change_of (before_map previous)" "\<lambda>c. so_order_id (ch_after c)"] cid by blast
  have fcs: "List.find (\<lambda>c. so_order_id (ch_after c) = k) cs =
      Option.bind (List.find (\<lambda>o1. so_order_id o1 = k) current) (change_of (before_map previous))"
    unfolding cs_def by (rule find_map_filter[OF cur]) (rule cid)
  have look1: "row_lookup seen_key (db_last_seen db1) k =
      (if k \<in> so_order_id ` set van then None else row_lookup seen_key (db_last_seen db) k)"
    by (simp add: db1_def vanished_seen seen.look_drop_all)
  have look2: "row_lookup seen_key (db_last_seen db2) k =
      (case Option.bind (List.find (\<lambda>o1. so_order_id o1 = k) current) (change_of (before_map previous)) of
        None \<Rightarrow> (if k \<in> so_order_id ` set van then None else row_lookup seen_key (db_last_seen db) k)
      | Some c \<Rightarrow> map_option (change_row ?swept c)
          (if k \<in> so_order_id ` set van then None else row_lookup seen_key (db_last_seen db) k))"
    unfolding db2_def changed_seen[OF dcs] fcs look1 ..
  have dns: "distinct (map so_order_id ns)"
    using cur by (simp add: ns_def distinct_map_filter)
  have look3: "row_lookup seen_key (db_last_seen (foldl (sweep_new ?item ?swept) db2 ns)) k =
      (case List.find (\<lambda>o1. so_order_id o1 = k) ns of
         Some o1 \<Rightarrow> Some \<lparr>sn_item_id = ?item, sn_order = o1, sn_updated_at = ?swept\<rparr>
       | None \<Rightarrow> row_lookup seen_key (db_last_seen db2) k)"
    using dns by (simp add: new_seen seen.look_put_all find_map seen_key_def comp_def option.case_eq_if)
  have fns: "List.find (\<lambda>o1. so_order_id o1 = k) ns =
      (if row_lookup so_order_id previous k = None then List.find (\<lambda>o1. so_order_id o1 = k) current else None)"
  proof (cases "row_lookup so_order_id previous k")
    case None
    then have "List.find (\<lambda>o1. before_map previous (so_order_id o1) = None \<and> so_order_id o1 = k) current =
        List.find (\<lambda>o1. so_order_id o1 = k) current"
      by (intro find_cong_set) (auto simp: bm)
    with None show ?thesis by (simp add: ns_def find_filter)
  next
    case (Some p)
    then show ?thesis by (auto simp: ns_def find_filter find_None_iff bm)
  qed
  have vk: "k \<in> so_order_id ` set van \<longleftrightarrow>
      k \<in> so_order_id ` set previous \<and> List.find (\<lambda>o1. so_order_id o1 = k) current = None"
  proof -
    have "List.find (\<lambda>o1. so_order_id o1 = k) current = None \<longleftrightarrow> k \<notin> so_order_id ` set current"
      using row_lookup_None[of so_order_id current k] by (simp add: row_lookup_def)
    then show ?thesis by (auto simp: van_def) (metis image_eqI)+
  qed
  show ?thesis
  proof (cases "List.find (\<lambda>o1. so_order_id o1 = k) current")
    case None
    then show ?thesis unfolding last look3 fns look2 vk by simp
  next
    case (Some o1)
    note cur1 = this
    show ?thesis
    proof (cases "row_lookup so_order_id previous k")
      case None
      with cur1 show ?thesis unfolding last look3 fns by simp
    next
      case (Some p)
      with cur1 show ?thesis unfolding last look3 fns look2 vk
        by (cases "change_of (before_map previous) o1") simp_all
    qed
  qed
qed


section \<open>Properties\<close>


definition book_order :: "string \<Rightarrow> int \<Rightarrow> int \<Rightarrow> v2_order" where
  "book_order i p q = \<lparr>vo_id = i, vo_side = ''sell'', vo_platinum = p, vo_quantity = q, vo_rank = None, vo_charges = None,
     vo_subtype = None, vo_amber_stars = None, vo_cyan_stars = None, vo_visible = True, vo_item_id = ''it'',
     vo_user_id = ''u'', vo_user_name = ''n'', vo_user_status = ''ingame''\<rparr>"

definition empty_db :: collector_db where
  "empty_db = \<lparr>db_sweep_state = [], db_last_seen = [], db_vanished = [], db_next_vanish = 1, db_summaries = [], db_item_stats = []\<rparr>"

definition sweep_of :: "v2_order list \<Rightarrow> utc \<Rightarrow> sweep_input" where
  "sweep_of os now = \<lparr>si_item_id = ''it'', si_lane = ''hot'', si_orders = os, si_swept_at = now,
     si_expected_interval_s = 300, si_gap_factor = 3\<rparr>"

definition first_sweep :: collector_db where
  "first_sweep = snd (apply_sweep empty_db (sweep_of [book_order ''a'' 10 3, book_order ''b'' 12 1] (secs 5)))"

lemmas sweep_eval = apply_sweep_def first_sweep_def empty_db_def sweep_of_def sweep_gap_def seen_of_item_def to_seen_def
  book_order_def diff_orders_eq before_map_def change_of_def map_filter_simps sweep_vanished_def sweep_new_def
  sweep_changed_def insert_vanish_def row_lookup_def row_replace_def row_delete_def row_modify_def seen_key_def
  modify_item_def order_sub_type_key_def sub_type_key_def key_part_def quantity_drop_def ts_def secs_def Let_def

lemma first_sweep_seen:
  "db_last_seen first_sweep = [\<lparr>sn_item_id = ''it'', sn_order = \<lparr>so_order_id = ''a'', so_sub_type = [], so_side = ''sell'',
      so_platinum = 10, so_quantity = 3, so_user_id = ''u'', so_first_seen = 5\<rparr>, sn_updated_at = 5\<rparr>,
    \<lparr>sn_item_id = ''it'', sn_order = \<lparr>so_order_id = ''b'', so_sub_type = [], so_side = ''sell'',
      so_platinum = 12, so_quantity = 1, so_user_id = ''u'', so_first_seen = 5\<rparr>, sn_updated_at = 5\<rparr>]"
  by (simp add: sweep_eval)



section \<open>Quantities that left the book\<close>

lemma sum_pick:
  fixes f :: "'b \<Rightarrow> int"
  shows "distinct (map key ys) \<Longrightarrow>
    (\<Sum>y\<leftarrow>ys. if key y = k then f y else 0) = (case row_lookup key ys k of Some y \<Rightarrow> f y | None \<Rightarrow> 0)"
proof (induction ys)
  case (Cons y ys)
  have "row_lookup key ys k = None" if "key y = k"
    using that Cons.prems by (auto simp: row_lookup_None)
  with Cons show ?case by (auto simp: row_lookup_def split: option.splits)
qed (simp add: row_lookup_def)

lemma sum_join_swap:
  fixes f :: "'a \<Rightarrow> 'b \<Rightarrow> int"
  assumes "distinct (map kx xs)" "distinct (map ky ys)"
  shows "(\<Sum>x\<leftarrow>xs. case row_lookup ky ys (kx x) of Some y \<Rightarrow> f x y | None \<Rightarrow> 0)
       = (\<Sum>y\<leftarrow>ys. case row_lookup kx xs (ky y) of Some x \<Rightarrow> f x y | None \<Rightarrow> 0)"
  using assms(1)
proof (induction xs)
  case Nil
  then show ?case by (simp add: row_lookup_def)
next
  case (Cons x xs)
  have none: "row_lookup kx xs (kx x) = None"
    using Cons.prems by (auto simp: row_lookup_None)
  have split: "(case row_lookup kx (x # xs) (ky y) of Some x \<Rightarrow> f x y | None \<Rightarrow> 0) =
      (if ky y = kx x then f x y else 0) + (case row_lookup kx xs (ky y) of Some x \<Rightarrow> f x y | None \<Rightarrow> 0)" for y
    using none by (auto simp: row_lookup_def)
  have "(\<Sum>y\<leftarrow>ys. case row_lookup kx (x # xs) (ky y) of Some x \<Rightarrow> f x y | None \<Rightarrow> 0) =
      (\<Sum>y\<leftarrow>ys. if ky y = kx x then f x y else 0)
    + (\<Sum>y\<leftarrow>ys. case row_lookup kx xs (ky y) of Some x \<Rightarrow> f x y | None \<Rightarrow> 0)"
    unfolding split by (rule sum_list_addf)
  then show ?case using Cons by (simp add: sum_pick[OF assms(2)])
qed

lemma vanished_rows:
  "\<exists>rows. db_vanished (foldl (sweep_vanished item swept gap status) db os) = db_vanished db @ rows
     \<and> map vr_quantity rows = map so_quantity os \<and> (\<forall>r\<in>set rows. vr_kind r = ''full'' \<and> vr_status r = status \<and> vr_item_id r = item)"
proof (induction os arbitrary: db)
  case (Cons o1 os)
  obtain r where r: "db_vanished (sweep_vanished item swept gap status db o1) = db_vanished db @ [r]"
    "vr_quantity r = so_quantity o1" "vr_kind r = ''full''" "vr_status r = status" "vr_item_id r = item"
    by (auto simp: sweep_vanished_def insert_vanish_def Let_def)
  obtain rows where "db_vanished (foldl (sweep_vanished item swept gap status) (sweep_vanished item swept gap status db o1) os) =
      db_vanished (sweep_vanished item swept gap status db o1) @ rows" "map vr_quantity rows = map so_quantity os"
    "\<forall>r\<in>set rows. vr_kind r = ''full'' \<and> vr_status r = status \<and> vr_item_id r = item"
    using Cons by blast
  with r show ?case by (intro exI[of _ "r # rows"]) simp
qed simp

lemma changed_rows:
  "\<exists>rows. db_vanished (foldl (sweep_changed item swept gap) db cs) = db_vanished db @ rows
     \<and> sum_list (map vr_quantity rows) = (\<Sum>c\<leftarrow>cs. quantity_drop c)
     \<and> (\<forall>r\<in>set rows. 0 < vr_quantity r \<and> vr_kind r = ''partial'' \<and> vr_status r = ''trade'' \<and> vr_item_id r = item)"
proof (induction cs arbitrary: db)
  case (Cons c cs)
  obtain rs where r: "db_vanished (sweep_changed item swept gap db c) = db_vanished db @ rs"
    "sum_list (map vr_quantity rs) = quantity_drop c"
    "\<forall>r\<in>set rs. 0 < vr_quantity r \<and> vr_kind r = ''partial'' \<and> vr_status r = ''trade'' \<and> vr_item_id r = item"
    by (cases "0 < quantity_drop c") (auto simp: sweep_changed_def insert_vanish_def Let_def quantity_drop_def max_def split: if_splits)
  obtain rows where "db_vanished (foldl (sweep_changed item swept gap) (sweep_changed item swept gap db c) cs) =
      db_vanished (sweep_changed item swept gap db c) @ rows" "sum_list (map vr_quantity rows) = (\<Sum>c\<leftarrow>cs. quantity_drop c)"
    "\<forall>r\<in>set rows. 0 < vr_quantity r \<and> vr_kind r = ''partial'' \<and> vr_status r = ''trade'' \<and> vr_item_id r = item"
    using Cons by blast
  with r show ?case by (intro exI[of _ "rs @ rows"]) auto
qed simp

lemma new_rows: "db_vanished (foldl (sweep_new item swept) db os) = db_vanished db"
  by (induction os arbitrary: db) (auto simp: sweep_new_def)

lemma sum_map_filter: "(\<Sum>y\<leftarrow>List.map_filter f xs. g y) = (\<Sum>x\<leftarrow>xs. case f x of Some y \<Rightarrow> g y | None \<Rightarrow> (0::int))"
  by (induction xs) (auto simp: map_filter_simps split: option.splits)

lemma sum_filter: "(\<Sum>x\<leftarrow>filter P xs. g x) = (\<Sum>x\<leftarrow>xs. if P x then g x else (0::int))"
  by (induction xs) auto

definition left_of :: "seen_order list \<Rightarrow> seen_order \<Rightarrow> int" where
  "left_of current p =
     (case row_lookup so_order_id current (so_order_id p) of
        Some o1 \<Rightarrow> max 0 (so_quantity p - so_quantity o1) | None \<Rightarrow> so_quantity p)"

lemma drops_of_changes:
  assumes "distinct (map so_order_id previous)" "distinct (map so_order_id current)"
  shows "(\<Sum>c\<leftarrow>List.map_filter (change_of (before_map previous)) current. quantity_drop c)
       = (\<Sum>p\<leftarrow>previous. case row_lookup so_order_id current (so_order_id p) of
            Some o1 \<Rightarrow> max 0 (so_quantity p - so_quantity o1) | None \<Rightarrow> 0)"
proof -
  have "(case change_of (before_map previous) o1 of Some c \<Rightarrow> quantity_drop c | None \<Rightarrow> 0) =
      (case row_lookup so_order_id previous (so_order_id o1) of
         Some p \<Rightarrow> max 0 (so_quantity p - so_quantity o1) | None \<Rightarrow> 0)" for o1
    by (auto simp: change_of_def before_map_lookup[OF assms(1)] quantity_drop_def split: option.splits)
  then show ?thesis
    by (simp add: sum_map_filter sum_join_swap[OF assms(2,1), where f = "\<lambda>o1 p. max 0 (so_quantity p - so_quantity o1)"])
qed

lemma sum_left_of:
  "(\<Sum>p\<leftarrow>filter (\<lambda>p. so_order_id p \<notin> so_order_id ` set current) previous. so_quantity p)
   + (\<Sum>p\<leftarrow>previous. case row_lookup so_order_id current (so_order_id p) of
        Some o1 \<Rightarrow> max 0 (so_quantity p - so_quantity o1) | None \<Rightarrow> 0)
   = (\<Sum>p\<leftarrow>previous. left_of current p)"
proof -
  have "(if so_order_id p \<notin> so_order_id ` set current then so_quantity p else 0)
      + (case row_lookup so_order_id current (so_order_id p) of
           Some o1 \<Rightarrow> max 0 (so_quantity p - so_quantity o1) | None \<Rightarrow> 0) = left_of current p" for p
    using row_lookup_None[of so_order_id current "so_order_id p"]
    by (auto simp: left_of_def split: option.splits)
  then show ?thesis by (simp add: sum_filter sum_list_addf[symmetric])
qed

text \<open>
  C6. The vanish records of a sweep account for exactly the quantity that left the book: they
  add up, over the orders stored before, to the whole quantity of each order that is gone and to
  the drop of each order whose quantity fell; nothing else is recorded, and full vanishes are
  pending (or marked as a gap) while partial ones count as trades at once.
\<close>

theorem vanish_records_account_for_the_book:
  assumes keys: "distinct (map seen_key (db_last_seen db))"
    and ids: "distinct (map vo_id (filter vo_visible (si_orders inp)))"
  shows "\<exists>rows. db_vanished (snd (apply_sweep db inp)) = db_vanished db @ rows
    \<and> sum_list (map vr_quantity rows) =
        (\<Sum>p\<leftarrow>seen_of_item db (si_item_id inp). left_of (to_seen (si_orders inp) (ts (si_swept_at inp))) p)
    \<and> (\<forall>r\<in>set rows. vr_item_id r = si_item_id inp
        \<and> (vr_kind r = ''full'' \<and> vr_status r = (if sw_gap (fst (apply_sweep db inp)) then ''gap'' else ''pending'')
           \<or> vr_kind r = ''partial'' \<and> vr_status r = ''trade'' \<and> 0 < vr_quantity r))"
proof -
  define current where "current = to_seen (si_orders inp) (ts (si_swept_at inp))"
  define previous where "previous = seen_of_item db (si_item_id inp)"
  define gs where "gs = sweep_gap db inp"
  define st where "st = (if snd gs then ''gap'' else ''pending'')"
  define van where "van = filter (\<lambda>p. so_order_id p \<notin> so_order_id ` set current) previous"
  define cs where "cs = List.map_filter (change_of (before_map previous)) current"
  define db1 where "db1 = foldl (sweep_vanished (si_item_id inp) (ts (si_swept_at inp)) (fst gs) st) db van"
  define db2 where "db2 = foldl (sweep_changed (si_item_id inp) (ts (si_swept_at inp)) (fst gs)) db1 cs"
  have cur: "distinct (map so_order_id current)"
    using ids by (simp add: current_def to_seen_def comp_def)
  have prev: "distinct (map so_order_id previous)"
    using seen_of_item_distinct[OF keys] by (simp add: previous_def)
  have van_db: "db_vanished (snd (apply_sweep db inp)) = db_vanished db2" "sw_gap (fst (apply_sweep db inp)) = snd gs"
    by (simp_all add: apply_sweep_def Let_def diff_orders_eq modify_item_def new_rows current_def[symmetric]
        previous_def[symmetric] gs_def[symmetric] st_def van_def[symmetric] cs_def[symmetric] db1_def db2_def
        split: prod.splits)
  obtain r1 where r1: "db_vanished db1 = db_vanished db @ r1" "map vr_quantity r1 = map so_quantity van"
    "\<forall>r\<in>set r1. vr_kind r = ''full'' \<and> vr_status r = st \<and> vr_item_id r = si_item_id inp"
    using vanished_rows unfolding db1_def by blast
  obtain r2 where r2: "db_vanished db2 = db_vanished db1 @ r2"
    "sum_list (map vr_quantity r2) = (\<Sum>c\<leftarrow>cs. quantity_drop c)"
    "\<forall>r\<in>set r2. 0 < vr_quantity r \<and> vr_kind r = ''partial'' \<and> vr_status r = ''trade'' \<and> vr_item_id r = si_item_id inp"
    using changed_rows unfolding db2_def by blast
  have "sum_list (map vr_quantity (r1 @ r2)) = (\<Sum>p\<leftarrow>previous. left_of current p)"
    using sum_left_of[of current previous] drops_of_changes[OF prev cur] r1(2) r2(2)
    by (simp add: van_def cs_def)
  with r1 r2 van_db show ?thesis
    unfolding current_def[symmetric] previous_def[symmetric]
    by (intro exI[of _ "r1 @ r2"]) (auto simp: st_def)
qed

theorem vanish_records_account_for_the_book_witness:
  "\<exists>rows. db_vanished (snd (apply_sweep first_sweep (sweep_of [book_order ''a'' 11 1] (secs 9)))) = db_vanished first_sweep @ rows
     \<and> sum_list (map vr_quantity rows) = 3"
  using vanish_records_account_for_the_book[of first_sweep "sweep_of [book_order ''a'' 11 1] (secs 9)"]
  by (auto simp: first_sweep_seen seen_key_def sweep_of_def book_order_def seen_of_item_def to_seen_def left_of_def
      row_lookup_def)

text \<open>
  An edited sub-type is the case the hypothesis of \<open>sweep_stores_the_book\<close> excludes: the stored
  row keeps the old one.
\<close>

lemma sweep_misses_sub_type_edit:
  "so_sub_type (sn_order (the (row_lookup seen_key
     (db_last_seen (snd (apply_sweep first_sweep (sweep_of [(book_order ''a'' 11 1)\<lparr>vo_rank := Some 5\<rparr>] (secs 9))))) ''a'')))
   = []"
proof -
  have prev: "seen_of_item first_sweep ''it'' = map sn_order (db_last_seen first_sweep)"
    by (simp add: seen_of_item_def first_sweep_seen)
  show ?thesis
    by (simp add: apply_sweep_def sweep_of_def prev first_sweep_seen Let_def to_seen_def book_order_def diff_orders_eq
        before_map_def change_of_def map_filter_simps sweep_vanished_def sweep_changed_def insert_vanish_def
        row_lookup_def row_delete_def row_modify_def seen_key_def modify_item_def quantity_drop_def split: prod.splits)
qed

end
