(* ===== verification/Collector_Maintenance.thy ===== *)
theory Collector_Maintenance
  imports Collector_Store
begin

text \<open>
  The periodic jobs over the collector's tables (\<open>qf_core/src/collector/maintenance.rs\<close>):
  resolving pending vanishes, recomputing the item statistics, the hourly and daily roll-ups
  and the retention. A stored time that does not parse cannot occur here, since a stamp is its
  second.
\<close>

definition raw_summary_retention_days :: int where "raw_summary_retention_days = 30"
definition vanished_retention_days :: int where "vanished_retention_days = 90"

section \<open>Resolving vanishes\<close>

definition bulk_count :: "stats_config \<Rightarrow> vanish_row list \<Rightarrow> vanish_row \<Rightarrow> int" where
  "bulk_count cfg rows v =
     (let at0 = stamp_secs (vr_vanished_at v); half = cf_bulk_window cfg div 2
      in int (length (filter (\<lambda>w. so_user_id (vr_order w) = so_user_id (vr_order v) \<and> vr_kind w = ''full''
               \<and> ts (at0 - half) \<le> vr_vanished_at w \<and> vr_vanished_at w \<le> ts (at0 + half)) rows)))"

definition same_offer :: "string \<Rightarrow> seen_order \<Rightarrow> vanish_row \<Rightarrow> bool" where
  "same_offer item o1 v \<longleftrightarrow>
     so_user_id o1 = so_user_id (vr_order v) \<and> item = vr_item_id v
   \<and> so_sub_type o1 = so_sub_type (vr_order v) \<and> so_side o1 = so_side (vr_order v)"

definition relisted :: "stats_config \<Rightarrow> seen_row list \<Rightarrow> vanish_row list \<Rightarrow> vanish_row \<Rightarrow> bool" where
  "relisted cfg seen_rows rows v =
     (let at0 = stamp_secs (vr_vanished_at v); until = ts (at0 + cf_relist_window cfg);
          fresh = (\<lambda>o1. ts at0 < so_first_seen o1 \<and> so_first_seen o1 \<le> until)
      in list_ex (\<lambda>r. same_offer (sn_item_id r) (sn_order r) v \<and> fresh (sn_order r)) seen_rows
       \<or> list_ex (\<lambda>w. vr_id w \<noteq> vr_id v \<and> same_offer (vr_item_id w) (vr_order w) v \<and> fresh (vr_order w)) rows)"

definition resolution_of :: "stats_config \<Rightarrow> collector_db \<Rightarrow> vanish_row \<Rightarrow> resolution" where
  "resolution_of cfg db v =
     resolve_vanish (bulk_count cfg (db_vanished db) v) (relisted cfg (db_last_seen db) (db_vanished db) v) cfg"

definition resolve_row :: "stats_config \<Rightarrow> collector_db \<Rightarrow> vanish_row \<Rightarrow> collector_db" where
  "resolve_row cfg db v =
     db\<lparr>db_vanished := row_modify vr_id (vr_id v)
          (\<lambda>w. w\<lparr>vr_status := resolution_str (resolution_of cfg db v)\<rparr>) (db_vanished db)\<rparr>"

definition is_due :: "stats_config \<Rightarrow> utc \<Rightarrow> vanish_row \<Rightarrow> bool" where
  "is_due cfg now v \<longleftrightarrow> vr_status v = ''pending'' \<and> vr_vanished_at v \<le> ts (now - cf_relist_window cfg)"

definition resolve_pending :: "collector_db \<Rightarrow> utc \<Rightarrow> stats_config \<Rightarrow> string list \<times> collector_db" where
  "resolve_pending db now cfg =
     (let rows = sort_key vr_id (filter (is_due cfg now) (db_vanished db))
      in (sort (remdups (map vr_item_id rows)), foldl (resolve_row cfg) db rows))"

section \<open>Item statistics\<close>

definition stats_key :: "item_stats \<Rightarrow> string \<times> string" where
  "stats_key s = (is_item_id s, is_sub_type s)"

definition item_trades :: "collector_db \<Rightarrow> string \<Rightarrow> stamp \<Rightarrow> (string \<times> trade) list" where
  "item_trades db item after =
     map (\<lambda>v. (so_sub_type (vr_order v),
               \<lparr>tr_side = so_side (vr_order v), tr_platinum = so_platinum (vr_order v), tr_at = stamp_secs (vr_vanished_at v)\<rparr>))
       (filter (\<lambda>v. vr_item_id v = item \<and> vr_status v = ''trade'' \<and> after < vr_vanished_at v) (db_vanished db))"

definition latest_spreads :: "collector_db \<Rightarrow> string \<Rightarrow> (string \<times> live_spread) list" where
  "latest_spreads db item =
     (let rows = filter (\<lambda>r. sm_item_id r = item) (db_summaries db)
      in case max_of (map sm_swept_at rows) of
           None \<Rightarrow> []
         | Some newest \<Rightarrow>
             map (\<lambda>r. (ss_sub_type (sm_summary r),
                       \<lparr>sp_min_sell = ss_min_sell (sm_summary r), sp_max_buy = ss_max_buy (sm_summary r)\<rparr>))
               (filter (\<lambda>r. sm_swept_at r = newest) rows))"

definition recompute_item_stats :: "collector_db \<Rightarrow> string \<Rightarrow> utc \<Rightarrow> stats_config \<Rightarrow> nat \<times> collector_db" where
  "recompute_item_stats db item now cfg =
     (let first_swept = (case row_lookup sr_item_id (db_sweep_state db) item of
                           Some r \<Rightarrow> map_option stamp_secs (sr_first_swept_at r) | None \<Rightarrow> None);
          trades = item_trades db item (ts (now - cf_window cfg));
          spreads = latest_spreads db item;
          groups = sort (remdups (map fst trades @ map fst spreads));
          stats_for = (\<lambda>sub. compute_item_stats item sub (map snd (filter (\<lambda>t. fst t = sub) trades))
                         (case map_of (rev spreads) sub of Some sp \<Rightarrow> sp | None \<Rightarrow> no_spread) first_swept now cfg)
      in (length groups,
          db\<lparr>db_item_stats := foldl (\<lambda>rows sub. row_replace stats_key (stats_for sub) rows) (db_item_stats db) groups\<rparr>))"

definition resolve_and_recompute :: "collector_db \<Rightarrow> utc \<Rightarrow> stats_config \<Rightarrow> nat \<times> collector_db" where
  "resolve_and_recompute db now cfg =
     (let (items, db1) = resolve_pending db now cfg
      in (length items, foldl (\<lambda>d item. snd (recompute_item_stats d item now cfg)) db1 items))"

section \<open>Roll-ups and retention\<close>

record daily_row =
  dr_item_id :: string
  dr_sub_type :: string
  dr_stat :: daily_stat

definition daily_key :: "daily_row \<Rightarrow> string \<times> string \<times> int" where
  "daily_key r = (dr_item_id r, dr_sub_type r, ds_day (dr_stat r))"

text \<open>Groups are visited in the order of the \<open>BTreeMap\<close>: by item, then by sub-type.\<close>

definition rollup_daily :: "collector_db \<Rightarrow> daily_row list \<Rightarrow> utc \<Rightarrow> nat \<times> daily_row list" where
  "rollup_daily db days_tbl now =
     (let start = ts (days (day_of now) - days 2);
          rows = filter (\<lambda>v. vr_status v = ''trade'' \<and> start \<le> vr_vanished_at v) (db_vanished db);
          items = sort (remdups (map vr_item_id rows));
          keys = concat (map (\<lambda>i. map (\<lambda>s. (i, s))
                   (sort (remdups (map (\<lambda>v. so_sub_type (vr_order v)) (filter (\<lambda>v. vr_item_id v = i) rows))))) items);
          trades_of = (\<lambda>(i, s). map (\<lambda>v. \<lparr>tr_side = so_side (vr_order v), tr_platinum = so_platinum (vr_order v),
                                          tr_at = stamp_secs (vr_vanished_at v)\<rparr>)
                         (filter (\<lambda>v. vr_item_id v = i \<and> so_sub_type (vr_order v) = s) rows));
          new_rows = concat (map (\<lambda>k. map (\<lambda>d. \<lparr>dr_item_id = fst k, dr_sub_type = snd k, dr_stat = d\<rparr>)
                       (daily_rollup (trades_of k))) keys)
      in (length new_rows, foldl (\<lambda>t r. row_replace daily_key r t) days_tbl new_rows))"

definition collector_retention :: "collector_db \<Rightarrow> utc \<Rightarrow> (nat \<times> nat) \<times> collector_db" where
  "collector_retention db now =
     (let old_summary = (\<lambda>r. sm_swept_at r < ts (now - days raw_summary_retention_days));
          old_vanish = (\<lambda>v. vr_vanished_at v < ts (now - days vanished_retention_days))
      in ((length (filter old_summary (db_summaries db)), length (filter old_vanish (db_vanished db))),
          db\<lparr>db_summaries := filter (\<lambda>r. \<not> old_summary r) (db_summaries db),
             db_vanished := filter (\<lambda>v. \<not> old_vanish v) (db_vanished db)\<rparr>))"

section \<open>Lemmas\<close>

text \<open>Resolving a row changes nothing that deciding another row looks at.\<close>

definition unresolved :: "vanish_row \<Rightarrow> vanish_row" where
  "unresolved v = v\<lparr>vr_status := []\<rparr>"

lemma bulk_count_unresolved: "map unresolved rows = map unresolved rows' \<Longrightarrow> bulk_count cfg rows v = bulk_count cfg rows' v"
proof -
  have "length (filter P rows) = length (filter P (map unresolved rows))" if "\<And>v. P (unresolved v) = P v" for P rows
    by (induction rows) (simp_all add: that)
  note len = this
  define P where "P = (\<lambda>w::vanish_row. so_user_id (vr_order w) = so_user_id (vr_order v) \<and> vr_kind w = ''full''
      \<and> ts (stamp_secs (vr_vanished_at v) - cf_bulk_window cfg div 2) \<le> vr_vanished_at w
      \<and> vr_vanished_at w \<le> ts (stamp_secs (vr_vanished_at v) + cf_bulk_window cfg div 2))"
  have inv: "\<And>v. P (unresolved v) = P v" by (simp add: P_def unresolved_def)
  from len[of P rows, OF inv] len[of P rows', OF inv] show "map unresolved rows = map unresolved rows' \<Longrightarrow> ?thesis"
    unfolding bulk_count_def Let_def P_def[symmetric] by (simp only:)
qed

lemma relisted_unresolved: "map unresolved rows = map unresolved rows' \<Longrightarrow> relisted cfg seen_rows rows v = relisted cfg seen_rows rows' v"
proof -
  have "list_ex P rows = list_ex P (map unresolved rows)" if "\<And>v. P (unresolved v) = P v" for P rows
    by (induction rows) (simp_all add: that)
  note ex = this
  define P where "P = (\<lambda>w::vanish_row. vr_id w \<noteq> vr_id v \<and> same_offer (vr_item_id w) (vr_order w) v
      \<and> ts (stamp_secs (vr_vanished_at v)) < so_first_seen (vr_order w)
      \<and> so_first_seen (vr_order w) \<le> ts (stamp_secs (vr_vanished_at v) + cf_relist_window cfg))"
  have inv: "\<And>v. P (unresolved v) = P v" by (simp add: P_def unresolved_def)
  from ex[of P rows, OF inv] ex[of P rows', OF inv] show "map unresolved rows = map unresolved rows' \<Longrightarrow> ?thesis"
    unfolding relisted_def Let_def P_def[symmetric] by (simp only:)
qed

lemma resolution_of_unresolved:
  "map unresolved (db_vanished db) = map unresolved (db_vanished db') \<Longrightarrow> db_last_seen db = db_last_seen db' \<Longrightarrow>
   resolution_of cfg db v = resolution_of cfg db' v"
  using bulk_count_unresolved[of "db_vanished db" "db_vanished db'"] relisted_unresolved[of "db_vanished db" "db_vanished db'"]
  by (simp add: resolution_of_def)

lemma unresolved_resolve_row:
  "map unresolved (db_vanished (resolve_row cfg db v)) = map unresolved (db_vanished db)"
  by (simp add: resolve_row_def row_modify_def comp_def unresolved_def)

lemma resolve_row_frame [simp]:
  "db_last_seen (resolve_row cfg db v) = db_last_seen db" "db_sweep_state (resolve_row cfg db v) = db_sweep_state db"
  "db_summaries (resolve_row cfg db v) = db_summaries db" "db_item_stats (resolve_row cfg db v) = db_item_stats db"
  by (simp_all add: resolve_row_def)

lemma resolve_fold:
  assumes "distinct (map vr_id vs)" "map unresolved (db_vanished db) = map unresolved (db_vanished db0)"
    "db_last_seen db = db_last_seen db0"
  shows "db_vanished (foldl (resolve_row cfg) db vs) =
    map (\<lambda>w. case row_lookup vr_id vs (vr_id w) of
           Some v \<Rightarrow> w\<lparr>vr_status := resolution_str (resolution_of cfg db0 v)\<rparr> | None \<Rightarrow> w) (db_vanished db)"
  using assms
proof (induction vs arbitrary: db)
  case Nil
  then show ?case by (simp add: row_lookup_def)
next
  case (Cons v vs)
  have none: "row_lookup vr_id vs (vr_id v) = None"
    using Cons.prems(1) by (auto simp: row_lookup_None)
  have res: "resolution_of cfg db v = resolution_of cfg db0 v"
    using Cons.prems(2,3) by (rule resolution_of_unresolved)
  have "db_vanished (foldl (resolve_row cfg) (resolve_row cfg db v) vs) =
    map (\<lambda>w. case row_lookup vr_id vs (vr_id w) of
           Some v \<Rightarrow> w\<lparr>vr_status := resolution_str (resolution_of cfg db0 v)\<rparr> | None \<Rightarrow> w)
      (db_vanished (resolve_row cfg db v))"
    using Cons.prems by (intro Cons.IH) (simp_all add: unresolved_resolve_row)
  also have "\<dots> = map (\<lambda>w. case row_lookup vr_id (v # vs) (vr_id w) of
           Some v \<Rightarrow> w\<lparr>vr_status := resolution_str (resolution_of cfg db0 v)\<rparr> | None \<Rightarrow> w) (db_vanished db)"
    using none by (auto simp: resolve_row_def row_modify_def row_lookup_def res split: option.splits)
  finally show ?case by simp
qed

section \<open>Properties\<close>

text \<open>
  Resolving pending vanishes decides every row whose two-hour window has closed, and only
  those, by the tables as they were before: the order in which rows are visited does not matter,
  because a decision reads no status. Afterwards no row is due any more, so running the job
  again changes nothing.
\<close>

theorem resolve_pending_decides_once:
  assumes "distinct (map vr_id (db_vanished db))"
  shows "db_vanished (snd (resolve_pending db now cfg)) =
      map (\<lambda>w. if is_due cfg now w then w\<lparr>vr_status := resolution_str (resolution_of cfg db w)\<rparr> else w) (db_vanished db)
    \<and> snd (resolve_pending (snd (resolve_pending db now cfg)) now cfg) = snd (resolve_pending db now cfg)
    \<and> set (fst (resolve_pending db now cfg)) = vr_item_id ` {w \<in> set (db_vanished db). is_due cfg now w}"
proof (intro conjI)
  define vs where "vs = sort_key vr_id (filter (is_due cfg now) (db_vanished db))"
  have vs: "distinct (map vr_id vs)" "set vs = {w \<in> set (db_vanished db). is_due cfg now w}"
    using assms by (auto simp: vs_def distinct_map inj_on_def)
  have "row_lookup vr_id vs (vr_id w) = (if is_due cfg now w then Some w else None)" if "w \<in> set (db_vanished db)" for w
  proof (cases "is_due cfg now w")
    case True
    then show ?thesis using vs that row_lookup_in[OF vs(1), of w] by simp
  next
    case False
    then have "vr_id w \<notin> vr_id ` set vs"
      using assms that by (auto simp: vs(2) distinct_map inj_on_def)
    with False show ?thesis by (simp add: row_lookup_None)
  qed
  then show 1: "db_vanished (snd (resolve_pending db now cfg)) =
      map (\<lambda>w. if is_due cfg now w then w\<lparr>vr_status := resolution_str (resolution_of cfg db w)\<rparr> else w) (db_vanished db)"
    using resolve_fold[OF vs(1) refl refl, of cfg db]
    by (auto simp: resolve_pending_def Let_def vs_def[symmetric])
  have "\<not> is_due cfg now (w\<lparr>vr_status := resolution_str r\<rparr>)" for w r
    by (cases r) (simp_all add: is_due_def)
  then have "filter (is_due cfg now) (db_vanished (snd (resolve_pending db now cfg))) = []"
    unfolding 1 by (auto simp: filter_empty_conv)
  then show "snd (resolve_pending (snd (resolve_pending db now cfg)) now cfg) = snd (resolve_pending db now cfg)"
    by (simp add: resolve_pending_def[of "snd (resolve_pending db now cfg)"])
  show "set (fst (resolve_pending db now cfg)) = vr_item_id ` {w \<in> set (db_vanished db). is_due cfg now w}"
    by (simp add: resolve_pending_def Let_def)
qed

definition demo_vanish :: "nat \<Rightarrow> stamp \<Rightarrow> vanish_row" where
  "demo_vanish i t = vanish_of i ''it'' \<lparr>so_order_id = ''a'', so_sub_type = [], so_side = ''sell'', so_platinum = 10,
     so_quantity = 1, so_user_id = ''u'', so_first_seen = 0\<rparr> 1 t None ''full'' ''pending''"

theorem resolve_pending_decides_once_witness:
  "map vr_status (db_vanished (snd (resolve_pending (empty_db\<lparr>db_vanished := [demo_vanish 1 0, demo_vanish 2 9000]\<rparr>)
     (hours 2) default_stats_config))) = [''trade'', ''pending'']"
  using resolve_pending_decides_once[of "empty_db\<lparr>db_vanished := [demo_vanish 1 0, demo_vanish 2 9000]\<rparr>" "hours 2" default_stats_config]
  by (simp add: demo_vanish_def vanish_of_def empty_db_def is_due_def default_stats_config_def resolution_of_def
      resolve_vanish_def bulk_count_def relisted_def same_offer_def ts_def hours_def mins_def secs_def stamp_secs_def Let_def)

end
