(* ===== verification/Collector_Runner.thy ===== *)
theory Collector_Runner
  imports Collector_Maintenance Market_Limiter
begin

text \<open>
  How the collector's loops fetch and record order books: \<open>qf_core/src/collector/fetch.rs\<close>
  (one limiter token and one report per attempt), \<open>health.rs\<close> (the in-memory counters) and
  \<open>runner.rs\<close> (claims, hot and cold steps, books handed over by the trader). The HTTP client and
  the JSON decoder are parameters: an attempt comes in as the response it got.

  A sweep is two events, because the network lies between them: it is begun (the item is chosen,
  claimed and its attempt marked) and ended (the result is written and the claim released).
\<close>

section \<open>Fetching\<close>

definition max_retries :: nat where "max_retries = 2"

datatype fetch_error = FNotFound | FRateLimited | FBlocked | FTransient string | FInvalid string

fun fetch_outcome :: "fetch_error \<Rightarrow> outcome" where
  "fetch_outcome FNotFound = OutOk"
| "fetch_outcome (FInvalid m) = OutOk"
| "fetch_outcome FRateLimited = RateLimited"
| "fetch_outcome FBlocked = Challenge"
| "fetch_outcome (FTransient m) = TransportError"

fun fetch_display :: "fetch_error \<Rightarrow> string" where
  "fetch_display FNotFound = ''not found''"
| "fetch_display FRateLimited = ''rate limited''"
| "fetch_display FBlocked = ''blocked by a Cloudflare challenge''"
| "fetch_display (FTransient m) = m"
| "fetch_display (FInvalid m) = m"

text \<open>
  \<open>get_body\<close>: what sending gave (an error text, or status, headers, URL and the result of
  reading the body).
\<close>

record http_answer =
  ha_status :: nat
  ha_headers :: header_map
  ha_url :: string
  ha_body :: "string + string"

definition get_body :: "string + http_answer \<Rightarrow> fetch_error + string" where
  "get_body sent =
     (case sent of
        Inl e \<Rightarrow> Inl (FTransient e)
      | Inr a \<Rightarrow>
          (let what = ''HTTP '' @ show_nat (ha_status a) @ '' for '' @ ha_url a in
           case outcome_of (ha_status a) (ha_headers a) of
             Challenge \<Rightarrow> Inl FBlocked
           | RateLimited \<Rightarrow> Inl FRateLimited
           | TransportError \<Rightarrow> Inl (FTransient what)
           | OutOk \<Rightarrow>
               if ha_status a = 404 then Inl FNotFound
               else if ha_status a \<noteq> 200 then Inl (FInvalid what)
               else (case ha_body a of Inl e \<Rightarrow> Inl (FTransient e) | Inr b \<Rightarrow> Inr b)))"

text \<open>The outcomes are the reports to the breaker, one per attempt; \<open>None\<close> if the attempts given run out.\<close>

definition attempt_outcome :: "fetch_error + 'b \<Rightarrow> outcome" where
  "attempt_outcome r = (case r of Inr _ \<Rightarrow> OutOk | Inl e \<Rightarrow> fetch_outcome e)"

fun fetch_from :: "nat \<Rightarrow> (fetch_error + 'b) list \<Rightarrow> (fetch_error + 'b) option \<times> outcome list" where
  "fetch_from retries [] = (None, [])"
| "fetch_from retries (r # rs) =
     (case r of
        Inr b \<Rightarrow> (Some (Inr b), [attempt_outcome r])
      | Inl e \<Rightarrow>
          if e \<in> {FNotFound, FBlocked, FRateLimited} \<or> max_retries \<le> retries then (Some (Inl e), [attempt_outcome r])
          else (let (x, os) = fetch_from (retries + 1) rs in (x, attempt_outcome r # os)))"

definition fetch_with_retries :: "(fetch_error + 'b) list \<Rightarrow> (fetch_error + 'b) option \<times> outcome list" where
  "fetch_with_retries rs = fetch_from 0 rs"

lemma fetch_from_spec:
  "fetch_from n rs = (x, os) \<Longrightarrow>
     os = map attempt_outcome (take (length os) rs) \<and> length os \<le> length rs
   \<and> (n \<le> max_retries \<longrightarrow> length os \<le> max_retries + 1 - n)
   \<and> (case x of None \<Rightarrow> length os = length rs | Some r \<Rightarrow> os \<noteq> [] \<and> r = rs ! (length os - 1))
   \<and> (\<forall>i. Suc i < length os \<longrightarrow> (\<exists>m. rs ! i = Inl (FTransient m) \<or> rs ! i = Inl (FInvalid m)))"
proof (induction rs arbitrary: n x os)
  case (Cons r rs)
  show ?case
  proof (cases "\<exists>e. r = Inl e \<and> e \<notin> {FNotFound, FBlocked, FRateLimited} \<and> \<not> max_retries \<le> n")
    case False
    with Cons.prems show ?thesis by (cases r) (auto split: option.splits if_splits)
  next
    case True
    then obtain e where e: "r = Inl e" "e \<notin> {FNotFound, FBlocked, FRateLimited}" "n < max_retries" by auto
    obtain os' where os': "fetch_from (n + 1) rs = (x, os')" "os = attempt_outcome r # os'"
      using Cons.prems e by (auto split: prod.splits)
    have "\<exists>m. e = FTransient m \<or> e = FInvalid m" using e(2) by (cases e) auto
    with Cons.IH[OF os'(1)] os'(2) e show ?thesis
      by (auto simp: nth_Cons' split: option.splits)
  qed
qed auto

section \<open>Health counters\<close>

record lane_health =
  lh_swept :: nat
  lh_errors :: nat
  lh_last_sweep_at :: "stamp option"

record health_event =
  he_at :: utc
  he_lane :: lane
  he_ok :: bool

record health =
  hl_started_at :: "utc option"
  hl_events :: "health_event list"
  hl_last_ok_hot :: "utc option"
  hl_last_ok_cold :: "utc option"
  hl_last_ok_trader :: "utc option"
  hl_hot_items :: nat
  hl_cold_pass_started_at :: "utc option"
  hl_last_cold_pass_seconds :: "int option"
  hl_last_error :: "string option"
  hl_last_item_refresh_at :: "utc option"
  hl_last_maintenance_at :: "utc option"

definition new_health :: health where
  "new_health = \<lparr>hl_started_at = None, hl_events = [], hl_last_ok_hot = None, hl_last_ok_cold = None,
     hl_last_ok_trader = None, hl_hot_items = 0, hl_cold_pass_started_at = None, hl_last_cold_pass_seconds = None,
     hl_last_error = None, hl_last_item_refresh_at = None, hl_last_maintenance_at = None\<rparr>"

definition mark_started :: "health \<Rightarrow> utc \<Rightarrow> health" where
  "mark_started h now = h\<lparr>hl_started_at := Some now\<rparr>"

definition health_record :: "health \<Rightarrow> utc \<Rightarrow> lane \<Rightarrow> bool \<Rightarrow> string option \<Rightarrow> health" where
  "health_record h now lane ok err =
     (let h1 = h\<lparr>hl_events := dropWhile (\<lambda>e. he_at e < now - hours 1)
                   (hl_events h @ [\<lparr>he_at = now, he_lane = lane, he_ok = ok\<rparr>])\<rparr>;
          h2 = (if ok then (case lane of
                              Hot \<Rightarrow> h1\<lparr>hl_last_ok_hot := Some now\<rparr>
                            | Cold \<Rightarrow> h1\<lparr>hl_last_ok_cold := Some now\<rparr>
                            | Trader \<Rightarrow> h1\<lparr>hl_last_ok_trader := Some now\<rparr>) else h1)
      in case err of Some e \<Rightarrow> h2\<lparr>hl_last_error := Some e\<rparr> | None \<Rightarrow> h2)"

definition set_hot_items :: "health \<Rightarrow> nat \<Rightarrow> health" where
  "set_hot_items h n = h\<lparr>hl_hot_items := n\<rparr>"

definition cold_pass_start_or_init :: "health \<Rightarrow> utc \<Rightarrow> utc \<times> health" where
  "cold_pass_start_or_init h now =
     (case hl_cold_pass_started_at h of
        Some t \<Rightarrow> (t, h) | None \<Rightarrow> (now, h\<lparr>hl_cold_pass_started_at := Some now\<rparr>))"

definition finish_cold_pass :: "health \<Rightarrow> utc \<Rightarrow> health" where
  "finish_cold_pass h now =
     (let h1 = (case hl_cold_pass_started_at h of
                  Some s \<Rightarrow> h\<lparr>hl_last_cold_pass_seconds := Some (num_seconds (now - s))\<rparr> | None \<Rightarrow> h)
      in h1\<lparr>hl_cold_pass_started_at := Some now\<rparr>)"

definition item_refresh_done :: "health \<Rightarrow> utc \<Rightarrow> health" where
  "item_refresh_done h now = h\<lparr>hl_last_item_refresh_at := Some now\<rparr>"

definition maintenance_done :: "health \<Rightarrow> utc \<Rightarrow> health" where
  "maintenance_done h now = h\<lparr>hl_last_maintenance_at := Some now\<rparr>"

definition lane_health_of :: "health \<Rightarrow> lane \<Rightarrow> utc \<Rightarrow> lane_health" where
  "lane_health_of h lane now =
     (let recent = filter (\<lambda>e. he_lane e = lane \<and> now - hours 1 \<le> he_at e) (hl_events h);
          newest = (case lane of Hot \<Rightarrow> hl_last_ok_hot h | Cold \<Rightarrow> hl_last_ok_cold h | Trader \<Rightarrow> hl_last_ok_trader h)
      in \<lparr>lh_swept = length (filter he_ok recent), lh_errors = length (filter (\<lambda>e. \<not> he_ok e) recent),
          lh_last_sweep_at = map_option ts newest\<rparr>)"

text \<open>Recording a whole history of (time, lane, ok, error).\<close>

fun record_all :: "health \<Rightarrow> (utc \<times> lane \<times> bool \<times> string option) list \<Rightarrow> health" where
  "record_all h [] = h"
| "record_all h ((now, lane, ok, err) # es) = record_all (health_record h now lane ok err) es"

definition event_of :: "utc \<times> lane \<times> bool \<times> string option \<Rightarrow> health_event" where
  "event_of e = (case e of (now, lane, ok, err) \<Rightarrow> \<lparr>he_at = now, he_lane = lane, he_ok = ok\<rparr>)"

lemma health_record_events:
  "hl_events (health_record h now lane ok err) =
     dropWhile (\<lambda>e. he_at e < now - hours 1) (hl_events h @ [\<lparr>he_at = now, he_lane = lane, he_ok = ok\<rparr>])"
  by (auto simp: health_record_def Let_def split: lane.splits option.splits)

lemma filter_dropWhile:
  "(\<And>x. D x \<Longrightarrow> \<not> P x) \<Longrightarrow> filter P (dropWhile D xs) = filter P xs"
  by (induction xs) auto

lemma record_all_events:
  "sorted (map fst es) \<Longrightarrow> \<forall>e\<in>set es. fst e \<le> now \<Longrightarrow>
   filter (\<lambda>e. now - hours 1 \<le> he_at e \<and> P e) (hl_events (record_all h es)) =
   filter (\<lambda>e. now - hours 1 \<le> he_at e \<and> P e) (hl_events h @ map event_of es)"
proof (induction es arbitrary: h)
  case (Cons e es)
  obtain t l ok err where e: "e = (t, l, ok, err)" by (cases e)
  have "filter (\<lambda>e. now - hours 1 \<le> he_at e \<and> P e) (hl_events (health_record h t l ok err)) =
      filter (\<lambda>e. now - hours 1 \<le> he_at e \<and> P e) (hl_events h @ [event_of e])"
    unfolding health_record_events e event_of_def prod.case
    by (rule filter_dropWhile) (use Cons.prems(2) e in auto)
  with Cons show ?case by (simp add: e event_of_def)
qed simp

section \<open>Claims and steps\<close>

definition hot_interval_s :: int where "hot_interval_s = 300"
definition cold_limit :: nat where "cold_limit = 200"
definition min_cold_interval_s :: int where "min_cold_interval_s = 60"
definition cold_pace :: duration where "cold_pace = secs 5"
definition idle_sleep :: duration where "idle_sleep = secs 1"
definition error_pause :: duration where "error_pause = secs 5"

fun lane_name :: "lane \<Rightarrow> string" where
  "lane_name Trader = ''trader''"
| "lane_name Hot = ''hot''"
| "lane_name Cold = ''cold''"

record sweep_task =
  tk_target :: sweep_target
  tk_lane :: lane
  tk_started :: utc
  tk_expected :: int

record collector =
  co_db :: collector_db
  co_health :: health
  co_hot :: "string set"
  co_in_flight :: "string list"
  co_tasks :: "sweep_task list"
  co_cfg :: stats_config

definition set_hot :: "collector \<Rightarrow> string list \<Rightarrow> collector" where
  "set_hot c ids = c\<lparr>co_health := set_hot_items (co_health c) (length (remdups ids)), co_hot := set ids\<rparr>"

definition claim :: "collector \<Rightarrow> string \<Rightarrow> collector option" where
  "claim c item = (if item \<in> set (co_in_flight c) then None else Some (c\<lparr>co_in_flight := item # co_in_flight c\<rparr>))"

definition release :: "collector \<Rightarrow> string \<Rightarrow> collector" where
  "release c item = c\<lparr>co_in_flight := filter (\<lambda>i. i \<noteq> item) (co_in_flight c)\<rparr>"

definition cold_expected_interval_s :: "collector \<Rightarrow> int" where
  "cold_expected_interval_s c =
     max (case hl_last_cold_pass_seconds (co_health c) of Some s \<Rightarrow> s | None \<Rightarrow> int (active_count (co_db c)))
         min_cold_interval_s"

definition begin_sweep :: "collector \<Rightarrow> sweep_target \<Rightarrow> lane \<Rightarrow> int \<Rightarrow> utc \<Rightarrow> collector" where
  "begin_sweep c t lane expected now =
     c\<lparr>co_db := mark_attempt (co_db c) (tg_item_id t) now,
       co_tasks := \<lparr>tk_target = t, tk_lane = lane, tk_started = now, tk_expected = expected\<rparr> # co_tasks c\<rparr>"

text \<open>The first target of the list that is due and not in flight is claimed.\<close>

fun hot_pick :: "collector \<Rightarrow> stamp \<Rightarrow> sweep_target list \<Rightarrow> (sweep_target \<times> collector) option" where
  "hot_pick c due_before [] = None"
| "hot_pick c due_before (t # tgs) =
     (if (case tg_last_attempt_at t of Some a \<Rightarrow> due_before < a | None \<Rightarrow> False) then hot_pick c due_before tgs
      else case claim c (tg_item_id t) of Some c1 \<Rightarrow> Some (t, c1) | None \<Rightarrow> hot_pick c due_before tgs)"

definition hot_step :: "collector \<Rightarrow> utc \<Rightarrow> utc \<Rightarrow> string option \<times> collector" where
  "hot_step c now later =
     (case hot_pick c (ts (now - secs hot_interval_s)) (hot_targets (co_db c) (co_hot c)) of
        None \<Rightarrow> (None, c)
      | Some (t, c1) \<Rightarrow> (Some (tg_item_id t), begin_sweep c1 t Hot hot_interval_s later))"

fun cold_pick :: "collector \<Rightarrow> sweep_target list \<Rightarrow> (sweep_target \<times> collector) option" where
  "cold_pick c [] = None"
| "cold_pick c (t # tgs) =
     (if tg_item_id t \<in> co_hot c then cold_pick c tgs
      else case claim c (tg_item_id t) of Some c1 \<Rightarrow> Some (t, c1) | None \<Rightarrow> cold_pick c tgs)"

definition cold_step :: "collector \<Rightarrow> utc \<Rightarrow> utc \<Rightarrow> string option \<times> collector" where
  "cold_step c now later =
     (case cold_pick c (cold_candidates (co_db c) cold_limit) of
        None \<Rightarrow> (None, c)
      | Some (t, c1) \<Rightarrow>
          let (started, h1) = cold_pass_start_or_init (co_health c1) now;
              h2 = (case tg_last_attempt_at t of
                      Some a \<Rightarrow> if ts started \<le> a then finish_cold_pass h1 now else h1 | None \<Rightarrow> h1);
              c2 = c1\<lparr>co_health := h2\<rparr>
          in (Some (tg_item_id t), begin_sweep c2 t Cold (cold_expected_interval_s c2) later))"

definition record_sweep ::
  "collector \<Rightarrow> sweep_target \<Rightarrow> lane \<Rightarrow> fetch_error + v2_order list \<Rightarrow> utc \<Rightarrow> int \<Rightarrow> utc \<Rightarrow> collector" where
  "record_sweep c t lane result started expected now =
     (case result of
        Inr orders \<Rightarrow>
          let db1 = snd (apply_sweep (co_db c)
                \<lparr>si_item_id = tg_item_id t, si_lane = lane_name lane, si_orders = orders, si_swept_at = started,
                 si_expected_interval_s = expected, si_gap_factor = cf_gap_factor (co_cfg c)\<rparr>);
              db2 = snd (recompute_item_stats db1 (tg_item_id t) now (co_cfg c))
          in c\<lparr>co_db := db2, co_health := health_record (co_health c) now lane True None\<rparr>
      | Inl FNotFound \<Rightarrow>
          c\<lparr>co_db := deactivate (co_db c) (tg_item_id t),
            co_health := health_record (co_health c) now lane False
              (Some (tg_slug t @ '': not found, inactive until the next item refresh''))\<rparr>
      | Inl FBlocked \<Rightarrow> c\<lparr>co_db := restore_attempt (co_db c) (tg_item_id t) (tg_last_attempt_at t)\<rparr>
      | Inl FRateLimited \<Rightarrow> c\<lparr>co_db := restore_attempt (co_db c) (tg_item_id t) (tg_last_attempt_at t)\<rparr>
      | Inl e \<Rightarrow>
          c\<lparr>co_db := record_sweep_error (co_db c) (tg_item_id t),
            co_health := health_record (co_health c) now lane False
              (Some (tg_slug t @ '': '' @ fetch_display e))\<rparr>)"

definition end_sweep :: "collector \<Rightarrow> sweep_task \<Rightarrow> fetch_error + v2_order list \<Rightarrow> utc \<Rightarrow> collector" where
  "end_sweep c k result now =
     release ((record_sweep c (tk_target k) (tk_lane k) result (tk_started k) (tk_expected k) now)
                \<lparr>co_tasks := remove1 k (co_tasks c)\<rparr>) (tg_item_id (tk_target k))"

definition ingest_book :: "collector \<Rightarrow> string \<Rightarrow> string \<Rightarrow> v2_order list \<Rightarrow> int \<Rightarrow> utc \<Rightarrow> utc \<Rightarrow> collector" where
  "ingest_book c item slug orders expected started now =
     (case claim c item of
        None \<Rightarrow> c
      | Some c1 \<Rightarrow>
          release (record_sweep c1 \<lparr>tg_item_id = item, tg_slug = slug, tg_last_attempt_at = None\<rparr> Trader (Inr orders)
                     started expected now) item)"

text \<open>How long \<open>cold_loop\<close> waits: \<open>None\<close> stands for an error of the step.\<close>

definition cold_loop_pace :: "string option option \<Rightarrow> duration" where
  "cold_loop_pace r = (case r of Some (Some _) \<Rightarrow> cold_pace | Some None \<Rightarrow> idle_sleep | None \<Rightarrow> error_pause)"

section \<open>The loops as one machine\<close>

datatype collector_event =
    CoHot utc utc
  | CoCold utc utc
  | CoEnd nat "fetch_error + v2_order list" utc
  | CoIngest string string "v2_order list" int utc utc
  | CoSetHot "string list"

fun collector_step :: "collector \<Rightarrow> collector_event \<Rightarrow> collector" where
  "collector_step c (CoHot now later) = snd (hot_step c now later)"
| "collector_step c (CoCold now later) = snd (cold_step c now later)"
| "collector_step c (CoEnd i result now) = end_sweep c (co_tasks c ! i) result now"
| "collector_step c (CoIngest item slug orders expected started now) = ingest_book c item slug orders expected started now"
| "collector_step c (CoSetHot ids) = set_hot c ids"

fun collector_enabled :: "collector \<Rightarrow> collector_event \<Rightarrow> bool" where
  "collector_enabled c (CoEnd i result now) = (i < length (co_tasks c))"
| "collector_enabled c _ = True"

definition task_item :: "sweep_task \<Rightarrow> string" where
  "task_item k = tg_item_id (tk_target k)"

definition claims_inv :: "collector \<Rightarrow> bool" where
  "claims_inv c \<longleftrightarrow> distinct (map task_item (co_tasks c)) \<and> set (co_in_flight c) = task_item ` set (co_tasks c)"

lemma record_sweep_frame [simp]:
  "co_in_flight (record_sweep c t l r st ex now) = co_in_flight c"
  "co_tasks (record_sweep c t l r st ex now) = co_tasks c"
  "co_hot (record_sweep c t l r st ex now) = co_hot c"
  by (auto simp: record_sweep_def Let_def split: sum.splits fetch_error.splits)

lemma claim_Some:
  "claim c i = Some c1 \<longleftrightarrow> i \<notin> set (co_in_flight c) \<and> c1 = c\<lparr>co_in_flight := i # co_in_flight c\<rparr>"
  by (auto simp: claim_def)

lemma hot_pick_Some:
  "hot_pick c d tgs = Some (t, c1) \<Longrightarrow> t \<in> set tgs \<and> claim c (tg_item_id t) = Some c1
     \<and> (\<forall>a. tg_last_attempt_at t = Some a \<longrightarrow> a \<le> d)"
  by (induction tgs) (auto split: option.splits if_splits)

lemma cold_pick_Some:
  "cold_pick c tgs = Some (t, c1) \<Longrightarrow> t \<in> set tgs \<and> claim c (tg_item_id t) = Some c1 \<and> tg_item_id t \<notin> co_hot c"
  by (induction tgs) (auto split: option.splits if_splits)

lemma begin_sweep_inv:
  assumes "claims_inv c" "claim c (tg_item_id t) = Some c1" "co_in_flight c2 = co_in_flight c1" "co_tasks c2 = co_tasks c1"
  shows "claims_inv (begin_sweep c2 t l ex now)"
  using assms by (auto simp: claims_inv_def claim_Some begin_sweep_def task_item_def)

lemma claims_inv_step: "claims_inv c \<Longrightarrow> collector_enabled c e \<Longrightarrow> claims_inv (collector_step c e)"
proof (cases e)
  case (CoHot now later)
  then show "claims_inv c \<Longrightarrow> ?thesis"
    by (auto simp: hot_step_def split: option.splits dest!: hot_pick_Some intro: begin_sweep_inv)
next
  case (CoCold now later)
  then show "claims_inv c \<Longrightarrow> ?thesis"
    by (auto simp: cold_step_def Let_def split: option.splits prod.splits dest!: cold_pick_Some intro!: begin_sweep_inv)
next
  case (CoEnd i result now)
  assume inv: "claims_inv c" and "collector_enabled c e"
  then have k: "co_tasks c ! i \<in> set (co_tasks c)" by (simp add: CoEnd)
  have d: "distinct (co_tasks c)" using inv by (simp add: claims_inv_def distinct_map)
  have "task_item ` set (remove1 (co_tasks c ! i) (co_tasks c)) = task_item ` set (co_tasks c) - {task_item (co_tasks c ! i)}"
    using inv k d by (auto simp: claims_inv_def distinct_map inj_on_def)
  with inv d show ?thesis
    by (auto simp: CoEnd end_sweep_def release_def claims_inv_def task_item_def distinct_map set_remove1_eq
        intro: inj_on_subset)
next
  case (CoIngest item slug orders expected started now)
  then show "claims_inv c \<Longrightarrow> ?thesis"
    by (auto simp: ingest_book_def release_def claims_inv_def claim_Some split: option.splits)
next
  case (CoSetHot ids)
  then show "claims_inv c \<Longrightarrow> ?thesis" by (simp add: set_hot_def claims_inv_def)
qed

interpretation collector_claims: guarded_machine collector_step collector_enabled claims_inv
  by unfold_locales (rule claims_inv_step)


section \<open>Properties\<close>

text \<open>
  A fetch makes at most three attempts and reports each of them to the breaker exactly once;
  only transient or unusable answers are retried, so a 404, a block or a 429 ends it, and the
  result is that of the last attempt.
\<close>

theorem fetch_reports_every_attempt:
  assumes "fetch_with_retries rs = (x, os)"
  shows "os = map attempt_outcome (take (length os) rs) \<and> length os \<le> 3
    \<and> (\<forall>r. x = Some r \<longrightarrow> os \<noteq> [] \<and> r = rs ! (length os - 1))
    \<and> (x = None \<longrightarrow> length os = length rs)
    \<and> (\<forall>i. Suc i < length os \<longrightarrow> attempt_outcome (rs ! i) \<noteq> Challenge \<and> attempt_outcome (rs ! i) \<noteq> RateLimited
         \<and> rs ! i \<noteq> Inl FNotFound \<and> (\<forall>b. rs ! i \<noteq> Inr b))"
proof -
  have "os = map attempt_outcome (take (length os) rs) \<and> length os \<le> length rs
   \<and> (0 \<le> max_retries \<longrightarrow> length os \<le> max_retries + 1 - 0)
   \<and> (case x of None \<Rightarrow> length os = length rs | Some r \<Rightarrow> os \<noteq> [] \<and> r = rs ! (length os - 1))
   \<and> (\<forall>i. Suc i < length os \<longrightarrow> (\<exists>m. rs ! i = Inl (FTransient m) \<or> rs ! i = Inl (FInvalid m)))"
    using assms unfolding fetch_with_retries_def by (rule fetch_from_spec)
  then show ?thesis
    by (auto simp: max_retries_def attempt_outcome_def split: option.splits)
qed

theorem fetch_reports_every_attempt_witness:
  "length (snd (fetch_with_retries [Inl (FTransient ''x''), Inl FBlocked, Inr (7::nat)])) \<le> 3"
  using fetch_reports_every_attempt[of "[Inl (FTransient ''x''), Inl FBlocked, Inr (7::nat)]"
      "Some (Inl FBlocked)" "[TransportError, Challenge]"]
  by (simp add: fetch_with_retries_def max_retries_def attempt_outcome_def)

text \<open>
  Forgetting old events never shows: for any history of recorded sweeps with a clock that
  does not run back, the lane counters a page reads at a later time count exactly the successes
  and failures of that lane in the last hour of the whole history.
\<close>

theorem lane_health_counts_history:
  assumes "sorted (map fst es)" "\<forall>e\<in>set es. fst e \<le> now"
  shows "lh_swept (lane_health_of (record_all new_health es) lane now) =
           length (filter (\<lambda>(t, l, ok, _). now - hours 1 \<le> t \<and> l = lane \<and> ok) es)
       \<and> lh_errors (lane_health_of (record_all new_health es) lane now) =
           length (filter (\<lambda>(t, l, ok, _). now - hours 1 \<le> t \<and> l = lane \<and> \<not> ok) es)"
proof -
  have count: "length (filter (\<lambda>e. now - hours 1 \<le> he_at e \<and> P e) (hl_events (record_all new_health es))) =
      length (filter (\<lambda>x. now - hours 1 \<le> fst x \<and> P (event_of x)) es)" for P
    using record_all_events[OF assms, of P new_health]
    by (simp add: new_health_def filter_map comp_def event_of_def case_prod_beta)
  have "lh_swept (lane_health_of h lane now) = length (filter (\<lambda>e. now - hours 1 \<le> he_at e \<and> (he_lane e = lane \<and> he_ok e)) (hl_events h))"
    "lh_errors (lane_health_of h lane now) = length (filter (\<lambda>e. now - hours 1 \<le> he_at e \<and> (he_lane e = lane \<and> \<not> he_ok e)) (hl_events h))" for h
    by (auto simp: lane_health_of_def Let_def intro!: arg_cong[where f = length] filter_cong)
  then show ?thesis
    by (simp only: count) (simp add: event_of_def case_prod_unfold)
qed

theorem lane_health_counts_history_witness:
  "lh_swept (lane_health_of (record_all new_health [(0, Hot, True, None), (hours 1, Cold, True, None), (hours 2, Hot, True, None)])
     Hot (hours 2)) = 1"
  using lane_health_counts_history[of "[(0, Hot, True, None), (hours 1, Cold, True, None), (hours 2, Hot, True, None)]" "hours 2" Hot]
  by (simp add: hours_def secs_def)

text \<open>
  C7. However the hot loop, the cold loop, the trader's hand-over and the ends of sweeps
  interleave, no item is ever swept by two tasks at once: the running sweeps have distinct
  items, and the in-flight set is exactly their items, so no claim is lost or left behind.
\<close>

theorem no_item_swept_twice:
  assumes "all_enabled collector_step collector_enabled c es" "co_tasks c = []" "co_in_flight c = []"
  shows "distinct (map task_item (co_tasks (run collector_step c es)))
    \<and> set (co_in_flight (run collector_step c es)) = task_item ` set (co_tasks (run collector_step c es))"
  using collector_claims.run_inv[of c es] assms by (simp add: claims_inv_def)

definition demo_collector :: collector where
  "demo_collector = \<lparr>co_db = empty_db\<lparr>db_sweep_state := [new_sweep_row ''a'' ''x'', new_sweep_row ''b'' ''y'']\<rparr>,
     co_health = new_health, co_hot = {''a''}, co_in_flight = [], co_tasks = [], co_cfg = default_stats_config\<rparr>"

lemma demo_collector_run:
  "all_enabled collector_step collector_enabled demo_collector [CoHot 0 0, CoCold 0 0]"
  "map task_item (co_tasks (run collector_step demo_collector [CoHot 0 0, CoCold 0 0])) = [''b'', ''a'']"
  by (simp_all add: demo_collector_def empty_db_def new_sweep_row_def hot_step_def hot_targets_def order_by_attempt_def
      target_of_def claim_def begin_sweep_def mark_attempt_def modify_item_def row_modify_def task_item_def cold_step_def
      cold_candidates_def cold_limit_def Let_def cold_pass_start_or_init_def new_health_def split: prod.splits)

theorem no_item_swept_twice_witness:
  "set (co_in_flight (run collector_step demo_collector [CoHot 0 0, CoCold 0 0])) = {''a'', ''b''}"
proof -
  have "set (co_in_flight (run collector_step demo_collector [CoHot 0 0, CoCold 0 0])) =
      set (map task_item (co_tasks (run collector_step demo_collector [CoHot 0 0, CoCold 0 0])))"
    using no_item_swept_twice[OF demo_collector_run(1)] by (simp add: demo_collector_def)
  then show ?thesis by (simp only: demo_collector_run(2)) auto
qed

lemma row_modify_back:
  assumes "distinct (map key rows)" "row_lookup key rows k = Some r" "g (f r) = r" "\<And>r. key (f r) = key r"
  shows "row_modify key k g (row_modify key k f rows) = rows"
proof -
  have "(if key (if key x = k then f x else x) = k then g (if key x = k then f x else x) else (if key x = k then f x else x)) = x"
    if "x \<in> set rows" for x
    using row_lookup_in[OF assms(1) that] assms(2,3,4) by auto
  then show ?thesis by (simp add: row_modify_def comp_def cong: map_cong)
qed

lemma hot_target_row:
  assumes "distinct (map sr_item_id (db_sweep_state db))" "t \<in> set (hot_targets db hot)"
  shows "\<exists>r. row_lookup sr_item_id (db_sweep_state db) (tg_item_id t) = Some r \<and> sr_last_attempt_at r = tg_last_attempt_at t
     \<and> sr_active r \<and> sr_item_id r \<in> hot"
  using assms(2) row_lookup_in[OF assms(1)]
  by (force simp: hot_targets_def order_by_attempt_def target_of_def)

text \<open>
  A block is no attempt: when a hot sweep is answered by a challenge or a 429, ending it
  leaves the tables, the health counters and the claims as they were before the sweep began, so
  the item is due again at once; the item swept was active, hot, not in flight and not attempted
  in the last five minutes.
\<close>

theorem blocked_hot_sweep_is_no_attempt:
  assumes ids: "distinct (map sr_item_id (db_sweep_state (co_db c)))"
    and inv: "item \<notin> set (co_in_flight c)"
    and begun: "hot_step c now later = (Some item, c1)" "co_tasks c1 = k # ks"
    and blocked: "e = FBlocked \<or> e = FRateLimited"
  shows "co_db (end_sweep c1 k (Inl e) t) = co_db c \<and> co_health (end_sweep c1 k (Inl e) t) = co_health c
    \<and> co_in_flight (end_sweep c1 k (Inl e) t) = co_in_flight c \<and> co_tasks (end_sweep c1 k (Inl e) t) = co_tasks c
    \<and> item \<in> co_hot c
    \<and> (\<exists>r. row_lookup sr_item_id (db_sweep_state (co_db c)) item = Some r \<and> sr_active r
         \<and> (\<forall>a. sr_last_attempt_at r = Some a \<longrightarrow> a \<le> ts (now - secs 300)))"
proof -
  obtain tg c0 where pick: "hot_pick c (ts (now - secs hot_interval_s)) (hot_targets (co_db c) (co_hot c)) = Some (tg, c0)"
    and c1: "c1 = begin_sweep c0 tg Hot hot_interval_s later" "item = tg_item_id tg"
    using begun(1) by (auto simp: hot_step_def split: option.splits)
  note p = hot_pick_Some[OF pick]
  then have c0: "c0 = c\<lparr>co_in_flight := item # co_in_flight c\<rparr>" using c1 by (simp add: claim_Some)
  obtain r where r: "row_lookup sr_item_id (db_sweep_state (co_db c)) item = Some r"
    "sr_last_attempt_at r = tg_last_attempt_at tg" "sr_active r" "sr_item_id r \<in> co_hot c"
    using hot_target_row[OF ids] p c1 by blast
  have "sr_item_id r = item" using row_lookup_Some[OF r(1)] by simp
  have k: "k = \<lparr>tk_target = tg, tk_lane = Hot, tk_started = later, tk_expected = hot_interval_s\<rparr>" "ks = co_tasks c"
    using begun(2) by (simp_all add: c1 begin_sweep_def c0)
  have "restore_attempt (mark_attempt (co_db c) item later) item (tg_last_attempt_at tg) = co_db c"
    using row_modify_back[OF ids r(1), of "\<lambda>r. r\<lparr>sr_last_attempt_at := tg_last_attempt_at tg\<rparr>"
        "\<lambda>r. r\<lparr>sr_last_attempt_at := Some (ts later)\<rparr>"] r(2)
    by (simp add: restore_attempt_def mark_attempt_def modify_item_def)
  moreover have "filter (\<lambda>i. i \<noteq> item) (co_in_flight c) = co_in_flight c"
    using inv by (auto simp: filter_id_conv)
  ultimately show ?thesis
    using blocked r p \<open>sr_item_id r = item\<close>
    by (auto simp: end_sweep_def record_sweep_def release_def k c1 c0 begin_sweep_def hot_interval_s_def)
qed

theorem blocked_hot_sweep_is_no_attempt_witness:
  "co_db (end_sweep (snd (hot_step demo_collector 0 5)) (hd (co_tasks (snd (hot_step demo_collector 0 5)))) (Inl FBlocked) 9)
     = co_db demo_collector"
proof -
  have "hot_step demo_collector 0 5 = (Some ''a'', snd (hot_step demo_collector 0 5))"
    "co_tasks (snd (hot_step demo_collector 0 5)) = hd (co_tasks (snd (hot_step demo_collector 0 5))) # []"
    by (simp_all add: demo_collector_def empty_db_def new_sweep_row_def hot_step_def hot_targets_def order_by_attempt_def
        target_of_def claim_def begin_sweep_def)
  from blocked_hot_sweep_is_no_attempt[OF _ _ this] show ?thesis
    by (simp add: demo_collector_def empty_db_def new_sweep_row_def)
qed

end
