(* ===== verification/Wfm_Orders.thy ===== *)
theory Wfm_Orders
  imports Sub_Types Row_Store Operation_Set "HOL-Library.Word" "HOL-Library.Multiset"
begin

text \<open>
  The marketplace client's orders: the order and its JSON properties
  (\<open>wf-market/src/types/order.rs\<close>, \<open>properties.rs\<close>, \<open>create_order.rs\<close>, \<open>update_order.rs\<close>), the
  list of sell and buy orders (\<open>types/order_list.rs\<close>) and the cache that mirrors the account's
  orders (\<open>endpoints/order.rs\<close>). Prices and quantities are 32-bit words, so subtraction wraps as
  in a release build. The answer of the marketplace to a call is a parameter.

  A JSON object is an association list. \<open>OrderList\<close> is generic over \<open>Order\<close> and
  \<open>OrderWithUser\<close>; its reading methods take the projection to the order.
\<close>

section \<open>JSON properties\<close>

datatype json =
    JNull
  | JBool bool
  | JInt int
  | JReal real
  | JStr string
  | JArr "json list"
  | JObj "(string \<times> json) list"

type_synonym properties = "json option"

fun json_insert :: "string \<Rightarrow> json \<Rightarrow> (string \<times> json) list \<Rightarrow> (string \<times> json) list" where
  "json_insert k v [] = [(k, v)]"
| "json_insert k v ((k', v') # m) = (if k' = k then (k, v) # m else (k', v') # json_insert k v m)"

definition prop_get :: "properties \<Rightarrow> string \<Rightarrow> json option" where
  "prop_get p k = (case p of Some (JObj m) \<Rightarrow> map_of m k | _ \<Rightarrow> None)"

definition prop_set :: "properties \<Rightarrow> string \<Rightarrow> json \<Rightarrow> properties" where
  "prop_set p k v =
     (case p of
        None \<Rightarrow> Some (JObj [(k, v)])
      | Some (JObj m) \<Rightarrow> Some (JObj (json_insert k v m))
      | Some j \<Rightarrow> Some j)"

text \<open>\<open>get_property_value\<close> at the types the modelled code reads: a value that does not decode is the default.\<close>

definition prop_int :: "properties \<Rightarrow> string \<Rightarrow> int \<Rightarrow> int" where
  "prop_int p k dflt = (case prop_get p k of Some (JInt i) \<Rightarrow> if i64 i then i else dflt | _ \<Rightarrow> dflt)"

definition prop_str :: "properties \<Rightarrow> string \<Rightarrow> string \<Rightarrow> string" where
  "prop_str p k dflt = (case prop_get p k of Some (JStr s) \<Rightarrow> s | _ \<Rightarrow> dflt)"

fun json_strings :: "json list \<Rightarrow> string list option" where
  "json_strings [] = Some []"
| "json_strings (JStr s # js) = map_option (Cons s) (json_strings js)"
| "json_strings (_ # js) = None"

definition json_ops :: "operation_set \<Rightarrow> json" where
  "json_ops ops = JObj [(''operations'', JArr (map JStr ops))]"

definition prop_ops :: "properties \<Rightarrow> string \<Rightarrow> operation_set" where
  "prop_ops p k =
     (case prop_get p k of
        Some (JObj m) \<Rightarrow>
          (case map_of m ''operations'' of
             Some (JArr js) \<Rightarrow> (case json_strings js of Some ops \<Rightarrow> ops | None \<Rightarrow> os_new)
           | _ \<Rightarrow> os_new)
      | _ \<Rightarrow> os_new)"

lemma map_of_json_insert: "map_of (json_insert k v m) = (map_of m)(k \<mapsto> v)"
  by (induction k v m rule: json_insert.induct) auto

lemma prop_get_set:
  "(\<And>j. p = Some j \<Longrightarrow> \<exists>m. j = JObj m) \<Longrightarrow> prop_get (prop_set p k v) k' = (if k' = k then Some v else prop_get p k')"
  by (cases p) (auto simp: prop_get_def prop_set_def map_of_json_insert split: json.splits)

lemma json_strings_map [simp]: "json_strings (map JStr xs) = Some xs"
  by (induction xs) auto

lemma prop_ops_set: "prop_ops (prop_set None k (json_ops ops)) k = ops"
  by (simp add: prop_ops_def prop_get_def prop_set_def json_ops_def)

section \<open>Orders\<close>

datatype order_type = BuyOrder | SellOrder

datatype user_status = UserOffline | UserOnline | UserInGame

record wfm_order =
  or_id :: string
  or_type :: order_type
  or_platinum :: "32 word"
  or_quantity :: "32 word"
  or_per_trade :: "8 word option"
  or_subtype :: wfm_sub_type
  or_visible :: bool
  or_item_id :: string
  or_created_at :: string
  or_updated_at :: string
  or_properties :: properties

record user_short =
  us_id :: string
  us_name :: string
  us_status :: user_status

record order_with_user =
  ow_order :: wfm_order
  ow_user :: user_short

record create_params =
  cp_item_id :: string
  cp_type :: order_type
  cp_platinum :: "32 word"
  cp_quantity :: "32 word"
  cp_visible :: bool
  cp_per_trade :: "32 word option"
  cp_subtype :: "wfm_sub_type option"
  cp_properties :: properties

record update_params =
  up_platinum :: "32 word option"
  up_quantity :: "32 word option"
  up_per_trade :: "32 word option"
  up_rank :: "32 word option"
  up_visible :: "bool option"
  up_properties :: properties

definition no_update :: update_params where
  "no_update = \<lparr>up_platinum = None, up_quantity = None, up_per_trade = None, up_rank = None,
     up_visible = None, up_properties = None\<rparr>"

text \<open>\<open>Order::update\<close>; \<open>per_trade as u8\<close> keeps the low eight bits.\<close>

definition update_order :: "update_params \<Rightarrow> wfm_order \<Rightarrow> wfm_order" where
  "update_order args o1 =
     (let o2 = (case up_platinum args of Some p \<Rightarrow> o1\<lparr>or_platinum := p\<rparr> | None \<Rightarrow> o1);
          o3 = (case up_quantity args of Some q \<Rightarrow> o2\<lparr>or_quantity := q\<rparr> | None \<Rightarrow> o2);
          o4 = (case up_per_trade args of Some n \<Rightarrow> o3\<lparr>or_per_trade := Some (ucast n)\<rparr> | None \<Rightarrow> o3);
          o5 = (case up_rank args of Some r \<Rightarrow> o4\<lparr>or_subtype := (or_subtype o4)\<lparr>wsub_rank := Some (uint r)\<rparr>\<rparr> | None \<Rightarrow> o4);
          o6 = (case up_visible args of Some v \<Rightarrow> o5\<lparr>or_visible := v\<rparr> | None \<Rightarrow> o5)
      in (case up_properties args of Some j \<Rightarrow> o6\<lparr>or_properties := Some j\<rparr> | None \<Rightarrow> o6))"

lemma update_order_keeps [simp]:
  "or_id (update_order args o1) = or_id o1" "or_type (update_order args o1) = or_type o1"
  "or_item_id (update_order args o1) = or_item_id o1"
  by (auto simp: update_order_def Let_def split: option.splits)

lemma update_order_quantity:
  "update_order (no_update\<lparr>up_quantity := Some q\<rparr>) o1 = o1\<lparr>or_quantity := q\<rparr>"
  by (simp add: update_order_def no_update_def Let_def)

section \<open>Order lists\<close>

record 's order_list =
  ol_sell :: "'s list"
  ol_buy :: "'s list"

definition price :: "('s \<Rightarrow> wfm_order) \<Rightarrow> 's \<Rightarrow> int" where
  "price proj s = uint (or_platinum (proj s))"

definition ol_new :: "('s \<Rightarrow> wfm_order) \<Rightarrow> 's list \<Rightarrow> 's order_list" where
  "ol_new proj orders =
     \<lparr>ol_sell = sort_key (price proj) (filter (\<lambda>s. or_type (proj s) = SellOrder) orders),
      ol_buy = sort_key (\<lambda>s. - price proj s) (filter (\<lambda>s. or_type (proj s) = BuyOrder) orders)\<rparr>"

definition ol_sort_by_platinum :: "('s \<Rightarrow> wfm_order) \<Rightarrow> 's order_list \<Rightarrow> 's order_list" where
  "ol_sort_by_platinum proj l =
     l\<lparr>ol_sell := sort_key (price proj) (ol_sell l), ol_buy := sort_key (\<lambda>s. - price proj s) (ol_buy l)\<rparr>"

definition ol_to_vec :: "'s order_list \<Rightarrow> 's list" where
  "ol_to_vec l = ol_sell l @ ol_buy l"

definition ol_total :: "'s order_list \<Rightarrow> nat" where
  "ol_total l = length (ol_sell l) + length (ol_buy l)"

definition ol_side :: "'s order_list \<Rightarrow> order_type \<Rightarrow> 's list" where
  "ol_side l t = (case t of SellOrder \<Rightarrow> ol_sell l | BuyOrder \<Rightarrow> ol_buy l)"

definition ol_find_order :: "('s \<Rightarrow> wfm_order) \<Rightarrow> 's order_list \<Rightarrow> string \<Rightarrow> wfm_sub_type \<Rightarrow> order_type \<Rightarrow> 's option" where
  "ol_find_order proj l wfm_id sub t =
     List.find (\<lambda>s. or_item_id (proj s) = wfm_id \<and> or_subtype (proj s) = sub) (ol_side l t)"

definition ol_retain :: "('s \<Rightarrow> bool) \<Rightarrow> 's order_list \<Rightarrow> 's order_list" where
  "ol_retain P l = l\<lparr>ol_sell := filter P (ol_sell l), ol_buy := filter P (ol_buy l)\<rparr>"

definition ol_filter_by_sub_type :: "('s \<Rightarrow> wfm_order) \<Rightarrow> 's order_list \<Rightarrow> wfm_sub_type \<Rightarrow> bool \<Rightarrow> 's order_list" where
  "ol_filter_by_sub_type proj l sub exclude =
     (if exclude then ol_retain (\<lambda>s. or_subtype (proj s) \<noteq> sub) l
      else ol_retain (\<lambda>s. or_subtype (proj s) = sub) l)"

text \<open>\<open>min_by\<close> keeps the first minimum, \<open>max_by\<close> the last maximum.\<close>

fun first_min :: "('s \<Rightarrow> int) \<Rightarrow> 's list \<Rightarrow> 's option" where
  "first_min f [] = None"
| "first_min f (x # xs) = (case first_min f xs of None \<Rightarrow> Some x | Some y \<Rightarrow> Some (if f y < f x then y else x))"

fun last_max :: "('s \<Rightarrow> int) \<Rightarrow> 's list \<Rightarrow> 's option" where
  "last_max f [] = None"
| "last_max f (x # xs) = (case last_max f xs of None \<Rightarrow> Some x | Some y \<Rightarrow> Some (if f y < f x then x else y))"

definition ol_lowest_order :: "('s \<Rightarrow> wfm_order) \<Rightarrow> 's order_list \<Rightarrow> order_type \<Rightarrow> 's option" where
  "ol_lowest_order proj l t = first_min (price proj) (ol_side l t)"

definition ol_lowest_price :: "('s \<Rightarrow> wfm_order) \<Rightarrow> 's order_list \<Rightarrow> order_type \<Rightarrow> int" where
  "ol_lowest_price proj l t = (case ol_lowest_order proj l t of Some s \<Rightarrow> price proj s | None \<Rightarrow> 0)"

definition ol_highest_order :: "('s \<Rightarrow> wfm_order) \<Rightarrow> 's order_list \<Rightarrow> order_type \<Rightarrow> 's option" where
  "ol_highest_order proj l t = last_max (price proj) (ol_side l t)"

definition ol_highest_price :: "('s \<Rightarrow> wfm_order) \<Rightarrow> 's order_list \<Rightarrow> order_type \<Rightarrow> int" where
  "ol_highest_price proj l t = (case ol_highest_order proj l t of Some s \<Rightarrow> price proj s | None \<Rightarrow> 0)"

definition ol_price_range :: "('s \<Rightarrow> wfm_order) \<Rightarrow> 's order_list \<Rightarrow> order_type \<Rightarrow> int" where
  "ol_price_range proj l t =
     (let lowest = ol_lowest_price proj l SellOrder; highest = ol_highest_price proj l BuyOrder
      in case t of SellOrder \<Rightarrow> highest - lowest | BuyOrder \<Rightarrow> lowest - highest)"

definition ol_take_top :: "'s order_list \<Rightarrow> nat \<Rightarrow> order_type \<Rightarrow> 's list" where
  "ol_take_top l n t = take n (ol_side l t)"

definition ol_price_list :: "('s \<Rightarrow> wfm_order) \<Rightarrow> 's order_list \<Rightarrow> order_type \<Rightarrow> ('s \<Rightarrow> bool) option \<Rightarrow> int list" where
  "ol_price_list proj l t P =
     map (price proj) (case P of Some p \<Rightarrow> filter p (ol_side l t) | None \<Rightarrow> ol_side l t)"

definition ol_order_ids :: "('s \<Rightarrow> wfm_order) \<Rightarrow> 's order_list \<Rightarrow> order_type \<Rightarrow> string list" where
  "ol_order_ids proj l t = map (\<lambda>s. or_id (proj s)) (ol_side l t)"

definition ol_filter_user_status :: "order_with_user order_list \<Rightarrow> user_status \<Rightarrow> bool \<Rightarrow> order_with_user order_list" where
  "ol_filter_user_status l status exclude =
     (if exclude then ol_retain (\<lambda>s. us_status (ow_user s) \<noteq> status) l
      else ol_retain (\<lambda>s. us_status (ow_user s) = status) l)"

definition ol_filter_username :: "order_with_user order_list \<Rightarrow> string \<Rightarrow> bool \<Rightarrow> order_with_user order_list" where
  "ol_filter_username l name exclude =
     (if exclude then ol_retain (\<lambda>s. us_name (ow_user s) \<noteq> name) l
      else ol_retain (\<lambda>s. us_name (ow_user s) = name) l)"

text \<open>The writing methods, on the account's own orders.\<close>

type_synonym own_orders = "wfm_order order_list"

definition ol_empty :: own_orders where
  "ol_empty = \<lparr>ol_sell = [], ol_buy = []\<rparr>"

definition ol_add :: "own_orders \<Rightarrow> wfm_order \<Rightarrow> own_orders" where
  "ol_add l o1 =
     (case or_type o1 of
        SellOrder \<Rightarrow> l\<lparr>ol_sell := ol_sell l @ [o1]\<rparr>
      | BuyOrder \<Rightarrow> l\<lparr>ol_buy := ol_buy l @ [o1]\<rparr>)"

definition ol_remove_by_id :: "own_orders \<Rightarrow> string \<Rightarrow> own_orders" where
  "ol_remove_by_id l i = ol_retain (\<lambda>o1. or_id o1 \<noteq> i) l"

text \<open>The first order of the list with the id is changed; \<open>None\<close> when there is none.\<close>

fun update_first :: "string \<Rightarrow> (wfm_order \<Rightarrow> wfm_order) \<Rightarrow> wfm_order list \<Rightarrow> wfm_order list option" where
  "update_first i f [] = None"
| "update_first i f (o1 # os) =
     (if or_id o1 = i then Some (f o1 # os) else map_option (Cons o1) (update_first i f os))"

definition ol_update :: "own_orders \<Rightarrow> string \<Rightarrow> update_params \<Rightarrow> own_orders" where
  "ol_update l i args =
     (case update_first i (update_order args) (ol_buy l) of
        Some bs \<Rightarrow> l\<lparr>ol_buy := bs\<rparr>
      | None \<Rightarrow>
          (case update_first i (update_order args) (ol_sell l) of
             Some ss \<Rightarrow> l\<lparr>ol_sell := ss\<rparr> | None \<Rightarrow> l))"

definition ol_close_order :: "own_orders \<Rightarrow> string \<Rightarrow> 32 word \<Rightarrow> own_orders" where
  "ol_close_order l i quantity =
     (case List.find (\<lambda>o1. or_id o1 = i) (ol_buy l @ ol_sell l) of
        None \<Rightarrow> l
      | Some o1 \<Rightarrow>
          (let new_quantity = or_quantity o1 - quantity
           in if new_quantity \<le> 0 then ol_remove_by_id l i
              else ol_update l i (no_update\<lparr>up_quantity := Some new_quantity\<rparr>)))"

definition ol_get_by_id :: "own_orders \<Rightarrow> string \<Rightarrow> wfm_order option" where
  "ol_get_by_id l i = List.find (\<lambda>o1. or_id o1 = i) (ol_sell l @ ol_buy l)"

section \<open>The order cache\<close>

datatype api_error =
    LimitExceeded
  | LimitExceededSamePrice
  | ApiNotFound
  | ApiUnauthorized
  | ApiOther string

record route_cache =
  rc_orders :: own_orders
  rc_limit :: nat

definition route_new :: route_cache where
  "route_new = \<lparr>rc_orders = ol_empty, rc_limit = 100\<rparr>"

definition rc_can_create :: "route_cache \<Rightarrow> bool" where
  "rc_can_create rc \<longleftrightarrow> ol_total (rc_orders rc) < rc_limit rc"

definition rc_my_orders :: "route_cache \<Rightarrow> api_error + wfm_order list \<Rightarrow> (api_error + own_orders) \<times> route_cache" where
  "rc_my_orders rc answer =
     (case answer of
        Inr os \<Rightarrow> (Inr (ol_new id os), rc\<lparr>rc_orders := ol_new id os\<rparr>)
      | Inl e \<Rightarrow> (Inl e, rc))"

definition rc_update :: "route_cache \<Rightarrow> string \<Rightarrow> update_params \<Rightarrow> api_error + wfm_order \<Rightarrow> (api_error + wfm_order) \<times> route_cache" where
  "rc_update rc i args answer =
     (case answer of
        Inr o1 \<Rightarrow> (Inr (o1\<lparr>or_properties := up_properties args\<rparr>), rc\<lparr>rc_orders := ol_update (rc_orders rc) i args\<rparr>)
      | Inl e \<Rightarrow> (Inl e, rc))"

text \<open>A create at the limit is refused without being sent.\<close>

definition rc_create :: "route_cache \<Rightarrow> create_params \<Rightarrow> api_error + wfm_order \<Rightarrow> (api_error + wfm_order) \<times> route_cache" where
  "rc_create rc args answer =
     (if \<not> rc_can_create rc then (Inl LimitExceeded, rc)
      else case answer of
        Inr o1 \<Rightarrow> (let o2 = o1\<lparr>or_properties := cp_properties args\<rparr> in (Inr o2, rc\<lparr>rc_orders := ol_add (rc_orders rc) o2\<rparr>))
      | Inl e \<Rightarrow> (Inl e, rc))"

definition rc_close :: "route_cache \<Rightarrow> string \<Rightarrow> 32 word \<Rightarrow> api_error + 't \<Rightarrow> (api_error + 't) \<times> route_cache" where
  "rc_close rc i quantity answer =
     (case answer of
        Inr t \<Rightarrow> (Inr t, rc\<lparr>rc_orders := ol_close_order (rc_orders rc) i quantity\<rparr>)
      | Inl e \<Rightarrow> (Inl e, rc))"

definition rc_delete :: "route_cache \<Rightarrow> string \<Rightarrow> api_error + wfm_order \<Rightarrow> (api_error + wfm_order) \<times> route_cache" where
  "rc_delete rc i answer =
     (case answer of
        Inr o1 \<Rightarrow> (Inr o1, rc\<lparr>rc_orders := ol_remove_by_id (rc_orders rc) (or_id o1)\<rparr>)
      | Inl e \<Rightarrow> (Inl e, rc))"

definition rc_set_limit :: "route_cache \<Rightarrow> nat \<Rightarrow> route_cache" where
  "rc_set_limit rc n = rc\<lparr>rc_limit := n\<rparr>"

section \<open>Lemmas\<close>

lemma first_min_spec:
  "first_min f xs = None \<longleftrightarrow> xs = []"
  "first_min f xs = Some x \<Longrightarrow> x \<in> set xs \<and> (\<forall>y\<in>set xs. f x \<le> f y)"
  by (induction xs arbitrary: x) (auto split: option.splits if_splits)

lemma last_max_spec:
  "last_max f xs = None \<longleftrightarrow> xs = []"
  "last_max f xs = Some x \<Longrightarrow> x \<in> set xs \<and> (\<forall>y\<in>set xs. f y \<le> f x)"
  by (induction xs arbitrary: x) (auto split: option.splits if_splits)

definition ol_wf :: "own_orders \<Rightarrow> bool" where
  "ol_wf l \<longleftrightarrow> (\<forall>o1\<in>set (ol_sell l). or_type o1 = SellOrder) \<and> (\<forall>o1\<in>set (ol_buy l). or_type o1 = BuyOrder)
     \<and> distinct (map or_id (ol_to_vec l))"

lemma ol_new_mset: "mset (ol_to_vec (ol_new proj os)) = mset os"
proof -
  have sides: "or_type (proj s) = BuyOrder \<longleftrightarrow> \<not> or_type (proj s) = SellOrder" for s
    by (cases "or_type (proj s)") simp_all
  show ?thesis
    unfolding ol_to_vec_def ol_new_def sides by (simp add: multiset_partition[symmetric])
qed

lemma ol_get_Some: "ol_get_by_id l i = Some o1 \<Longrightarrow> o1 \<in> set (ol_to_vec l) \<and> or_id o1 = i"
  unfolding ol_get_by_id_def ol_to_vec_def using find_SomeD by fastforce

lemma ol_get_row: "ol_get_by_id l i = row_lookup or_id (ol_to_vec l) i"
  by (simp add: ol_get_by_id_def row_lookup_def ol_to_vec_def)

lemma ol_get_in: "ol_wf l \<Longrightarrow> o1 \<in> set (ol_to_vec l) \<Longrightarrow> ol_get_by_id l (or_id o1) = Some o1"
  by (simp add: ol_get_row ol_wf_def row_lookup_in)

lemma ol_get_add:
  "or_id o1 \<notin> or_id ` set (ol_to_vec l) \<Longrightarrow>
   ol_get_by_id (ol_add l o1) i = (if i = or_id o1 then Some o1 else ol_get_by_id l i)"
proof -
  assume "or_id o1 \<notin> or_id ` set (ol_to_vec l)"
  then have "List.find (\<lambda>o1'. or_id o1' = or_id o1) (ol_sell l) = None" "List.find (\<lambda>o1'. or_id o1' = or_id o1) (ol_buy l) = None"
    by (simp_all add: find_key_None ol_to_vec_def image_Un)
  then show ?thesis
    by (cases "or_type o1") (auto simp: ol_get_by_id_def ol_add_def find_append split: option.splits)
qed

lemma ol_get_remove: "ol_get_by_id (ol_remove_by_id l j) i = (if i = j then None else ol_get_by_id l i)"
  using row_lookup_delete[of or_id j "ol_to_vec l" i]
  by (simp add: ol_get_row ol_remove_by_id_def ol_retain_def ol_to_vec_def row_delete_def)

lemma ol_wf_add [qf_inv]: "ol_wf l \<Longrightarrow> or_id o1 \<notin> or_id ` set (ol_to_vec l) \<Longrightarrow> ol_wf (ol_add l o1)"
  by (cases "or_type o1") (auto simp: ol_wf_def ol_add_def ol_to_vec_def)

lemma ol_wf_retain [qf_inv]: "ol_wf l \<Longrightarrow> ol_wf (ol_retain P l)"
  by (auto simp: ol_wf_def ol_retain_def ol_to_vec_def distinct_map_filter)

lemma ol_wf_remove [qf_inv]: "ol_wf l \<Longrightarrow> ol_wf (ol_remove_by_id l i)"
  by (simp add: ol_remove_by_id_def ol_wf_retain)

lemma ol_wf_new [qf_inv]: "distinct (map or_id os) \<Longrightarrow> ol_wf (ol_new id os)"
proof -
  assume d: "distinct (map or_id os)"
  have "mset (map or_id (ol_to_vec (ol_new id os))) = mset (map or_id os)"
    using ol_new_mset[of id os] by simp
  then have "distinct (map or_id (ol_to_vec (ol_new id os)))"
    using d mset_eq_imp_distinct_iff by blast
  then show ?thesis by (simp add: ol_wf_def ol_new_def)
qed

lemma update_first_None: "update_first i f os = None \<longleftrightarrow> i \<notin> or_id ` set os"
  by (induction os) auto

lemma update_first_Some:
  assumes "distinct (map or_id os)" "update_first i f os = Some os'" "\<And>o1. or_id (f o1) = or_id o1"
  shows "os' = row_modify or_id i f os"
  using assms(1,2)
proof (induction os arbitrary: os')
  case (Cons o1 os)
  show ?case
  proof (cases "or_id o1 = i")
    case True
    with Cons.prems have "i \<notin> or_id ` set os" by auto
    then have "map (\<lambda>r. if or_id r = i then f r else r) os = os" by (intro map_idI) auto
    with True Cons.prems show ?thesis by (simp add: row_modify_def)
  next
    case False
    with Cons show ?thesis by (auto simp: row_modify_def)
  qed
qed simp

lemma row_modify_absent: "i \<notin> key ` set rows \<Longrightarrow> row_modify key i f rows = rows"
  by (auto simp: row_modify_def intro!: map_idI)

lemma ol_update_rows:
  assumes "ol_wf l"
  shows "ol_update l i args = l\<lparr>ol_sell := row_modify or_id i (update_order args) (ol_sell l),
                                ol_buy := row_modify or_id i (update_order args) (ol_buy l)\<rparr>"
proof -
  have d: "distinct (map or_id (ol_sell l))" "distinct (map or_id (ol_buy l))"
    "or_id ` set (ol_sell l) \<inter> or_id ` set (ol_buy l) = {}"
    using assms by (auto simp: ol_wf_def ol_to_vec_def)
  show ?thesis
  proof (cases "update_first i (update_order args) (ol_buy l)")
    case None
    then have nb: "i \<notin> or_id ` set (ol_buy l)" by (simp add: update_first_None)
    show ?thesis
    proof (cases "update_first i (update_order args) (ol_sell l)")
      case None
      with nb \<open>update_first i (update_order args) (ol_buy l) = None\<close> show ?thesis
        using update_first_None[of i "update_order args" "ol_sell l"] by (simp add: ol_update_def row_modify_absent)
    next
      case (Some ss)
      with nb \<open>update_first i (update_order args) (ol_buy l) = None\<close> update_first_Some[OF d(1) Some] show ?thesis
        by (simp add: ol_update_def row_modify_absent)
    qed
  next
    case (Some bs)
    then have "i \<in> or_id ` set (ol_buy l)" using update_first_None[of i "update_order args" "ol_buy l"] by fastforce
    with d(3) have "i \<notin> or_id ` set (ol_sell l)" by blast
    with Some update_first_Some[OF d(2) Some] show ?thesis
      by (simp add: ol_update_def row_modify_absent)
  qed
qed

lemma ol_update_vec: "ol_wf l \<Longrightarrow> ol_to_vec (ol_update l i args) = row_modify or_id i (update_order args) (ol_to_vec l)"
  by (simp add: ol_update_rows ol_to_vec_def row_modify_def)

lemma row_modify_types:
  "\<forall>o1\<in>set os. or_type o1 = t \<Longrightarrow> \<forall>o1\<in>set (row_modify or_id i (update_order args) os). or_type o1 = t"
  by (auto simp: row_modify_def)

lemma ol_wf_update [qf_inv]:
  assumes wf: "ol_wf l"
  shows "ol_wf (ol_update l i args)"
  unfolding ol_wf_def
proof (intro conjI)
  have sides: "\<forall>o1\<in>set (ol_sell l). or_type o1 = SellOrder" "\<forall>o1\<in>set (ol_buy l). or_type o1 = BuyOrder"
    using wf unfolding ol_wf_def by blast+
  show "\<forall>o1\<in>set (ol_sell (ol_update l i args)). or_type o1 = SellOrder"
    using row_modify_types[OF sides(1)] by (simp add: ol_update_rows[OF wf])
  show "\<forall>o1\<in>set (ol_buy (ol_update l i args)). or_type o1 = BuyOrder"
    using row_modify_types[OF sides(2)] by (simp add: ol_update_rows[OF wf])
  have "map or_id (ol_to_vec (ol_update l i args)) = map or_id (ol_to_vec l)"
    unfolding ol_update_vec[OF wf] by (rule row_keys_modify) simp
  then show "distinct (map or_id (ol_to_vec (ol_update l i args)))"
    using wf by (simp only: ol_wf_def)
qed

lemma ol_get_update:
  assumes "ol_wf l"
  shows "ol_get_by_id (ol_update l i args) j = (if j = i then map_option (update_order args) (ol_get_by_id l i) else ol_get_by_id l j)"
  by (simp add: ol_get_row ol_update_vec[OF assms] row_lookup_modify)

lemma ol_wf_close [qf_inv]: "ol_wf l \<Longrightarrow> ol_wf (ol_close_order l i q)"
  by (auto simp: ol_close_order_def Let_def split: option.splits intro: ol_wf_remove ol_wf_update)

lemma ol_total_length: "ol_total l = length (ol_to_vec l)"
  by (simp add: ol_total_def ol_to_vec_def)

lemma ol_total_add [simp]: "ol_total (ol_add l o1) = Suc (ol_total l)"
  by (cases "or_type o1") (simp_all add: ol_total_def ol_add_def)

end
