(* ===== verification/Trade_Orders.thy ===== *)
theory Trade_Orders
  imports Wfm_Orders
begin

text \<open>
  The trader's order writes (\<open>qf_core/src/trader/orders.rs\<close>): every create, update and delete
  goes either to the account's live orders or to a simulated book, and is logged when simulated.
  The live client is the order cache of \<open>Wfm_Orders\<close>; an operation takes the marketplace's
  answer to the call it may send and the answer to the refresh that follows some errors.
  \<open>tq_sent\<close> counts the write calls that left the process, and \<open>tq_unauthorized\<close> stands for
  \<open>session::mark_unauthorized\<close>.

  The rows of the database log are not modelled beside the in-memory log. A simulated id is
  \<open>dry-\<close> and a fresh UUID, which comes in as an argument.
\<close>

section \<open>Routes and the dry-run log\<close>

definition sell_slot_margin :: nat where "sell_slot_margin = 5"
definition dry_log_memory :: nat where "dry_log_memory = 1000"
definition max_order_failures :: nat where "max_order_failures = 5"

record slots =
  sl_sell_backlog :: nat
  sl_wish_list :: "(string \<times> string) list"

definition no_slots :: slots where
  "no_slots = \<lparr>sl_sell_backlog = 0, sl_wish_list = []\<rparr>"

datatype forced_by = ForcedGlobal | ForcedNotWarm

fun forced_by_str :: "forced_by \<Rightarrow> string" where
  "forced_by_str ForcedGlobal = ''global''"
| "forced_by_str ForcedNotWarm = ''not_warm''"

datatype route = LiveRoute | DryRun forced_by

definition route_for :: "bool \<Rightarrow> bool \<Rightarrow> route" where
  "route_for global_dry_run warm =
     (if global_dry_run then DryRun ForcedGlobal else if \<not> warm then DryRun ForcedNotWarm else LiveRoute)"

record write_meta =
  wm_sub_type :: string
  wm_reason :: string

fun side_str :: "order_type \<Rightarrow> string" where
  "side_str BuyOrder = ''buy''"
| "side_str SellOrder = ''sell''"

record dry_run_entry =
  de_at :: stamp
  de_action :: string
  de_side :: string
  de_item_id :: string
  de_sub_type :: string
  de_price :: "int option"
  de_quantity :: "int option"
  de_reason :: string
  de_forced_by :: string

definition simulated_order :: "create_params \<Rightarrow> string \<Rightarrow> string \<Rightarrow> wfm_order" where
  "simulated_order params uuid now_text =
     \<lparr>or_id = ''dry-'' @ uuid, or_type = cp_type params, or_platinum = cp_platinum params,
      or_quantity = cp_quantity params,
      or_per_trade = map_option (\<lambda>p. ucast (min p 255)) (cp_per_trade params),
      or_subtype = (case cp_subtype params of Some s \<Rightarrow> s | None \<Rightarrow> wsub_default),
      or_visible = cp_visible params, or_item_id = cp_item_id params,
      or_created_at = now_text, or_updated_at = now_text, or_properties = cp_properties params\<rparr>"

record trade_orders =
  tq_live :: "route_cache option"
  tq_global :: bool
  tq_book :: own_orders
  tq_log :: "dry_run_entry list"
  tq_failures :: nat
  tq_unauthorized :: bool
  tq_sent :: nat

definition trade_orders_new :: "route_cache option \<Rightarrow> bool \<Rightarrow> trade_orders" where
  "trade_orders_new live global =
     \<lparr>tq_live = live, tq_global = global,
      tq_book = (case (live, global) of (Some rc, True) \<Rightarrow> rc_orders rc | _ \<Rightarrow> ol_new id []),
      tq_log = [], tq_failures = 0, tq_unauthorized = False, tq_sent = 0\<rparr>"

section \<open>Reading\<close>

definition all_orders :: "trade_orders \<Rightarrow> own_orders" where
  "all_orders t =
     (case (tq_live t, tq_global t) of
        (Some rc, False) \<Rightarrow> ol_new id (ol_to_vec (rc_orders rc) @ ol_to_vec (tq_book t))
      | _ \<Rightarrow> tq_book t)"

definition live_buy_order_ids :: "trade_orders \<Rightarrow> string list" where
  "live_buy_order_ids t = (case tq_live t of Some rc \<Rightarrow> ol_order_ids id (rc_orders rc) BuyOrder | None \<Rightarrow> [])"

definition find_order :: "trade_orders \<Rightarrow> string \<Rightarrow> wfm_sub_type \<Rightarrow> order_type \<Rightarrow> route \<Rightarrow> wfm_order option" where
  "find_order t wfm_id sub ty route =
     (case route of
        DryRun _ \<Rightarrow> ol_find_order id (tq_book t) wfm_id sub ty
      | LiveRoute \<Rightarrow> (case tq_live t of Some rc \<Rightarrow> ol_find_order id (rc_orders rc) wfm_id sub ty | None \<Rightarrow> None))"

definition can_create_order :: "trade_orders \<Rightarrow> route \<Rightarrow> bool" where
  "can_create_order t route =
     (case route of
        DryRun _ \<Rightarrow> True
      | LiveRoute \<Rightarrow> (case tq_live t of Some rc \<Rightarrow> rc_can_create rc | None \<Rightarrow> False))"

definition can_create_buy :: "trade_orders \<Rightarrow> route \<Rightarrow> nat \<Rightarrow> bool" where
  "can_create_buy t route reserve =
     (case route of
        DryRun _ \<Rightarrow> True
      | LiveRoute \<Rightarrow> (case tq_live t of Some rc \<Rightarrow> ol_total (rc_orders rc) + reserve < rc_limit rc | None \<Rightarrow> False))"

text \<open>\<open>min_by_key\<close> of (profit, price) keeps the first minimum.\<close>

fun first_min2 :: "('s \<Rightarrow> int \<times> int) \<Rightarrow> 's list \<Rightarrow> 's option" where
  "first_min2 f [] = None"
| "first_min2 f (x # xs) =
     (case first_min2 f xs of
        None \<Rightarrow> Some x
      | Some y \<Rightarrow> Some (if fst (f y) < fst (f x) \<or> (fst (f y) = fst (f x) \<and> snd (f y) < snd (f x)) then y else x))"

definition order_key :: "wfm_order \<Rightarrow> string \<times> string" where
  "order_key o1 = (or_item_id o1, key_of (to_entity (or_subtype o1)))"

definition lowest_profit_buy_order :: "trade_orders \<Rightarrow> (string \<times> string) list \<Rightarrow> wfm_order option" where
  "lowest_profit_buy_order t wish_list =
     (case tq_live t of
        None \<Rightarrow> None
      | Some rc \<Rightarrow>
          first_min2 (\<lambda>o1. (prop_int (or_properties o1) ''potential_profit'' 0, uint (or_platinum o1)))
            (filter (\<lambda>o1. \<not> os_has (prop_ops (or_properties o1) ''operations'') ''WishList'')
              (filter (\<lambda>o1. order_key o1 \<notin> set wish_list) (ol_buy (rc_orders rc)))))"

section \<open>Writing\<close>

definition in_book :: "trade_orders \<Rightarrow> string \<Rightarrow> bool" where
  "in_book t i \<longleftrightarrow> tq_global t \<or> ol_get_by_id (tq_book t) i \<noteq> None"

definition book_forced_by :: "trade_orders \<Rightarrow> forced_by" where
  "book_forced_by t = (if tq_global t then ForcedGlobal else ForcedNotWarm)"

definition tq_record ::
  "trade_orders \<Rightarrow> string \<Rightarrow> wfm_order \<Rightarrow> int option \<Rightarrow> int option \<Rightarrow> write_meta \<Rightarrow> forced_by \<Rightarrow> stamp \<Rightarrow> trade_orders" where
  "tq_record t action o1 p q meta forced now =
     (let log = tq_log t @ [\<lparr>de_at = now, de_action = action, de_side = side_str (or_type o1), de_item_id = or_item_id o1,
                  de_sub_type = wm_sub_type meta, de_price = p, de_quantity = q, de_reason = wm_reason meta,
                  de_forced_by = forced_by_str forced\<rparr>]
      in t\<lparr>tq_log := (if dry_log_memory < length log then drop (length log - dry_log_memory) log else log)\<rparr>)"

text \<open>An error of \<open>create\<close>, \<open>update\<close> or \<open>delete\<close>.\<close>

datatype order_error = NoClient | SimulatedNotFound string | ApiFailed string api_error

definition tq_refresh :: "trade_orders \<Rightarrow> api_error + wfm_order list \<Rightarrow> trade_orders" where
  "tq_refresh t mine = (case tq_live t of Some rc \<Rightarrow> t\<lparr>tq_live := Some (snd (rc_my_orders rc mine))\<rparr> | None \<Rightarrow> t)"

definition needs_refresh :: "api_error \<Rightarrow> bool" where
  "needs_refresh e \<longleftrightarrow> e \<in> {LimitExceededSamePrice, ApiNotFound, LimitExceeded}"

definition finish_live ::
  "trade_orders \<Rightarrow> string \<Rightarrow> api_error + 'v \<Rightarrow> api_error + wfm_order list \<Rightarrow> (order_error + 'v) \<times> trade_orders" where
  "finish_live t action result mine =
     (case result of
        Inr v \<Rightarrow> (Inr v, t\<lparr>tq_failures := 0\<rparr>)
      | Inl e \<Rightarrow>
          (let t1 = t\<lparr>tq_failures := tq_failures t + 1\<rparr>;
               t2 = (if needs_refresh e then tq_refresh t1 mine
                     else if e = ApiUnauthorized then t1\<lparr>tq_unauthorized := True\<rparr> else t1)
           in (Inl (ApiFailed action e), t2)))"

text \<open>What a live call meets: the answer to the write and to a following refresh.\<close>

record answers =
  an_order :: "api_error + wfm_order"
  an_mine :: "api_error + wfm_order list"

definition no_client :: "trade_orders \<Rightarrow> (order_error + 'v) \<times> trade_orders" where
  "no_client t = (Inl NoClient, t\<lparr>tq_failures := tq_failures t + 1\<rparr>)"

definition tq_create ::
  "trade_orders \<Rightarrow> create_params \<Rightarrow> route \<Rightarrow> write_meta \<Rightarrow> string \<Rightarrow> stamp \<Rightarrow> string \<Rightarrow> answers
     \<Rightarrow> (order_error + wfm_order) \<times> trade_orders" where
  "tq_create t params route meta uuid now now_text an =
     (case route of
        DryRun forced \<Rightarrow>
          (let o1 = simulated_order params uuid now_text;
               t1 = t\<lparr>tq_book := ol_add (tq_book t) o1\<rparr>
           in (Inr o1, tq_record t1 ''create'' o1 (Some (uint (or_platinum o1))) (Some (uint (or_quantity o1))) meta forced now))
      | LiveRoute \<Rightarrow>
          (case tq_live t of
             None \<Rightarrow> no_client t
           | Some rc \<Rightarrow>
               (let (r, rc1) = rc_create rc params (an_order an)
                in finish_live (t\<lparr>tq_live := Some rc1, tq_sent := tq_sent t + (if rc_can_create rc then 1 else 0)\<rparr>)
                     ''Create'' r (an_mine an))))"

definition tq_update ::
  "trade_orders \<Rightarrow> string \<Rightarrow> update_params \<Rightarrow> write_meta \<Rightarrow> stamp \<Rightarrow> answers \<Rightarrow> (order_error + wfm_order) \<times> trade_orders" where
  "tq_update t i params meta now an =
     (if in_book t i then
        (let t1 = t\<lparr>tq_book := ol_update (tq_book t) i params\<rparr>
         in case ol_get_by_id (tq_book t1) i of
              None \<Rightarrow> (Inl (SimulatedNotFound i), t1)
            | Some o1 \<Rightarrow> (Inr o1, tq_record t1 ''update'' o1 (map_option uint (up_platinum params))
                            (map_option uint (up_quantity params)) meta (book_forced_by t1) now))
      else case tq_live t of
        None \<Rightarrow> no_client t
      | Some rc \<Rightarrow>
          (let (r, rc1) = rc_update rc i params (an_order an)
           in finish_live (t\<lparr>tq_live := Some rc1, tq_sent := tq_sent t + 1\<rparr>) ''Update'' r (an_mine an)))"

definition tq_update_local :: "trade_orders \<Rightarrow> string \<Rightarrow> update_params \<Rightarrow> trade_orders" where
  "tq_update_local t i params =
     (if in_book t i then t\<lparr>tq_book := ol_update (tq_book t) i params\<rparr>
      else case tq_live t of
        Some rc \<Rightarrow> t\<lparr>tq_live := Some (rc\<lparr>rc_orders := ol_update (rc_orders rc) i params\<rparr>)\<rparr>
      | None \<Rightarrow> t)"

definition tq_delete ::
  "trade_orders \<Rightarrow> string \<Rightarrow> write_meta \<Rightarrow> stamp \<Rightarrow> answers \<Rightarrow> (order_error + route) \<times> trade_orders" where
  "tq_delete t i meta now an =
     (if in_book t i then
        (let t1 = t\<lparr>tq_book := ol_remove_by_id (tq_book t) i\<rparr>;
             forced = book_forced_by t1
         in (Inr (DryRun forced),
             case ol_get_by_id (tq_book t) i of
               Some o1 \<Rightarrow> tq_record t1 ''delete'' o1 None None meta forced now | None \<Rightarrow> t1))
      else case tq_live t of
        None \<Rightarrow> no_client t
      | Some rc \<Rightarrow>
          (let (r, rc1) = rc_delete rc i (an_order an);
               (x, t1) = finish_live (t\<lparr>tq_live := Some rc1, tq_sent := tq_sent t + 1\<rparr>) ''Delete'' r (an_mine an)
           in (case x of Inr _ \<Rightarrow> Inr LiveRoute | Inl e \<Rightarrow> Inl e, t1)))"

section \<open>A trader session as a machine\<close>

datatype order_event =
    OqCreate create_params bool write_meta string stamp string answers
  | OqUpdate string update_params write_meta stamp answers
  | OqUpdateLocal string update_params
  | OqDelete string write_meta stamp answers
  | OqRefresh "api_error + wfm_order list"

text \<open>The route of a create comes from \<open>route_for\<close> with the item's warmth, as in every caller.\<close>

fun order_step :: "trade_orders \<Rightarrow> order_event \<Rightarrow> trade_orders" where
  "order_step t (OqCreate ps warm meta uuid now txt an) = snd (tq_create t ps (route_for (tq_global t) warm) meta uuid now txt an)"
| "order_step t (OqUpdate i ps meta now an) = snd (tq_update t i ps meta now an)"
| "order_step t (OqUpdateLocal i ps) = tq_update_local t i ps"
| "order_step t (OqDelete i meta now an) = snd (tq_delete t i meta now an)"
| "order_step t (OqRefresh mine) = tq_refresh t mine"

text \<open>A UUID is fresh, and the marketplace's answers name orders under their own ids.\<close>

definition live_ids :: "trade_orders \<Rightarrow> string set" where
  "live_ids t = (case tq_live t of Some rc \<Rightarrow> or_id ` set (ol_to_vec (rc_orders rc)) | None \<Rightarrow> {})"

definition mine_ok :: "api_error + wfm_order list \<Rightarrow> bool" where
  "mine_ok mine = (case mine of Inr os \<Rightarrow> distinct (map or_id os) | Inl _ \<Rightarrow> True)"

fun order_enabled :: "trade_orders \<Rightarrow> order_event \<Rightarrow> bool" where
  "order_enabled t (OqCreate ps warm meta uuid now txt an) =
     (''dry-'' @ uuid \<notin> or_id ` set (ol_to_vec (tq_book t))
    \<and> (case an_order an of Inr o1 \<Rightarrow> or_id o1 \<notin> live_ids t | Inl _ \<Rightarrow> True) \<and> mine_ok (an_mine an))"
| "order_enabled t (OqUpdate i ps meta now an) = mine_ok (an_mine an)"
| "order_enabled t (OqDelete i meta now an) = mine_ok (an_mine an)"
| "order_enabled t (OqRefresh mine) = mine_ok mine"
| "order_enabled t _ = True"

definition orders_inv :: "trade_orders \<Rightarrow> bool" where
  "orders_inv t \<longleftrightarrow>
     ol_wf (tq_book t) \<and> (\<forall>rc. tq_live t = Some rc \<longrightarrow> ol_wf (rc_orders rc)) \<and> length (tq_log t) \<le> dry_log_memory"

lemma tq_record_frame [simp]:
  "tq_live (tq_record t a o1 p q m f now) = tq_live t" "tq_global (tq_record t a o1 p q m f now) = tq_global t"
  "tq_book (tq_record t a o1 p q m f now) = tq_book t" "tq_sent (tq_record t a o1 p q m f now) = tq_sent t"
  "tq_failures (tq_record t a o1 p q m f now) = tq_failures t"
  "tq_unauthorized (tq_record t a o1 p q m f now) = tq_unauthorized t"
  by (simp_all add: tq_record_def Let_def)

lemma tq_record_log:
  "length (tq_log (tq_record t a o1 p q m f now)) \<le> dry_log_memory"
  "\<exists>e. tq_log (tq_record t a o1 p q m f now) = drop (Suc (length (tq_log t)) - dry_log_memory) (tq_log t @ [e])
     \<and> de_action e = a \<and> de_item_id e = or_item_id o1"
  by (auto simp: tq_record_def Let_def dry_log_memory_def)

lemma refresh_inv: "orders_inv t \<Longrightarrow> mine_ok mine \<Longrightarrow> orders_inv (tq_refresh t mine)"
  by (auto simp: orders_inv_def tq_refresh_def rc_my_orders_def mine_ok_def intro!: ol_wf_new split: option.splits sum.splits)

lemma refresh_frame [simp]:
  "tq_global (tq_refresh t mine) = tq_global t" "tq_book (tq_refresh t mine) = tq_book t"
  "tq_log (tq_refresh t mine) = tq_log t" "tq_sent (tq_refresh t mine) = tq_sent t"
  "tq_failures (tq_refresh t mine) = tq_failures t" "tq_live (tq_refresh t mine) = None \<longleftrightarrow> tq_live t = None"
  by (auto simp: tq_refresh_def split: option.splits)

lemma finish_live_frame [simp]:
  "tq_global (snd (finish_live t a r mine)) = tq_global t" "tq_book (snd (finish_live t a r mine)) = tq_book t"
  "tq_log (snd (finish_live t a r mine)) = tq_log t" "tq_sent (snd (finish_live t a r mine)) = tq_sent t"
  by (auto simp: finish_live_def Let_def split: sum.splits)

lemma finish_live_inv: "orders_inv t \<Longrightarrow> mine_ok mine \<Longrightarrow> orders_inv (snd (finish_live t a r mine))"
proof (cases r)
  case (Inl e)
  assume "orders_inv t" "mine_ok mine"
  then have "orders_inv (tq_refresh (t\<lparr>tq_failures := tq_failures t + 1\<rparr>) mine)"
    by (intro refresh_inv) (auto simp: orders_inv_def)
  with Inl \<open>orders_inv t\<close> show ?thesis by (auto simp: finish_live_def Let_def orders_inv_def)
qed (auto simp: finish_live_def orders_inv_def)

lemma create_inv:
  "orders_inv t \<Longrightarrow> order_enabled t (OqCreate ps warm meta uuid now txt an) \<Longrightarrow>
   orders_inv (snd (tq_create t ps route meta uuid now txt an))"
proof (cases route)
  case (DryRun f)
  assume "orders_inv t" "order_enabled t (OqCreate ps warm meta uuid now txt an)"
  with DryRun show ?thesis
    by (auto simp: tq_create_def Let_def orders_inv_def tq_record_log simulated_order_def intro!: ol_wf_add)
next
  case LiveRoute
  assume inv: "orders_inv t" and en: "order_enabled t (OqCreate ps warm meta uuid now txt an)"
  show ?thesis
  proof (cases "tq_live t")
    case None
    with LiveRoute inv show ?thesis by (simp add: tq_create_def no_client_def orders_inv_def)
  next
    case (Some rc)
    have "ol_wf (rc_orders (snd (rc_create rc ps (an_order an))))"
      using Some inv en
      by (auto simp: rc_create_def Let_def orders_inv_def live_ids_def split: sum.splits intro!: ol_wf_add)
    with Some LiveRoute inv en show ?thesis
      by (auto simp: tq_create_def Let_def split: prod.splits intro!: finish_live_inv) (auto simp: orders_inv_def)
  qed
qed

lemma update_inv: "orders_inv t \<Longrightarrow> mine_ok (an_mine an) \<Longrightarrow> orders_inv (snd (tq_update t i ps meta now an))"
proof (cases "in_book t i")
  case True
  assume "orders_inv t"
  with True show ?thesis
    by (auto simp: tq_update_def Let_def orders_inv_def tq_record_log ol_wf_update split: option.splits)
next
  case False
  assume inv: "orders_inv t" and m: "mine_ok (an_mine an)"
  show ?thesis
  proof (cases "tq_live t")
    case None
    with False inv show ?thesis by (simp add: tq_update_def no_client_def orders_inv_def)
  next
    case (Some rc)
    have "ol_wf (rc_orders (snd (rc_update rc i ps (an_order an))))"
      using Some inv by (auto simp: rc_update_def orders_inv_def ol_wf_update split: sum.splits)
    with Some False inv m show ?thesis
      by (auto simp: tq_update_def Let_def split: prod.splits intro!: finish_live_inv) (auto simp: orders_inv_def)
  qed
qed

lemma delete_inv: "orders_inv t \<Longrightarrow> mine_ok (an_mine an) \<Longrightarrow> orders_inv (snd (tq_delete t i meta now an))"
proof (cases "in_book t i")
  case True
  assume "orders_inv t"
  with True show ?thesis
    by (auto simp: tq_delete_def Let_def orders_inv_def tq_record_log ol_wf_remove split: option.splits)
next
  case False
  assume inv: "orders_inv t" and m: "mine_ok (an_mine an)"
  show ?thesis
  proof (cases "tq_live t")
    case None
    with False inv show ?thesis by (simp add: tq_delete_def no_client_def orders_inv_def)
  next
    case (Some rc)
    have wf: "ol_wf (rc_orders (snd (rc_delete rc i (an_order an))))"
      using Some inv by (auto simp: rc_delete_def orders_inv_def ol_wf_remove split: sum.splits)
    have "orders_inv (snd (finish_live (t\<lparr>tq_live := Some (snd (rc_delete rc i (an_order an))), tq_sent := tq_sent t + 1\<rparr>)
        ''Delete'' (fst (rc_delete rc i (an_order an))) (an_mine an)))"
      using wf inv m by (intro finish_live_inv) (auto simp: orders_inv_def)
    with Some False show ?thesis
      by (simp add: tq_delete_def Let_def case_prod_unfold)
  qed
qed

lemma update_local_inv: "orders_inv t \<Longrightarrow> orders_inv (tq_update_local t i ps)"
  by (auto simp: tq_update_local_def orders_inv_def ol_wf_update split: option.splits)

lemma orders_inv_step: "orders_inv t \<Longrightarrow> order_enabled t e \<Longrightarrow> orders_inv (order_step t e)"
  by (cases e) (auto simp del: order_enabled.simps(1) simp: create_inv update_inv delete_inv update_local_inv refresh_inv)

interpretation orders_machine: guarded_machine order_step order_enabled orders_inv
  by unfold_locales (rule orders_inv_step)

lemma orders_inv_init: "(\<forall>rc. live = Some rc \<longrightarrow> ol_wf (rc_orders rc)) \<Longrightarrow> orders_inv (trade_orders_new live global)"
  by (cases live; cases global) (auto simp: orders_inv_def trade_orders_new_def intro!: ol_wf_new)

section \<open>Properties\<close>

lemma dry_step_sends_nothing:
  "tq_global t \<Longrightarrow> tq_sent (order_step t e) = tq_sent t \<and> tq_global (order_step t e)"
  by (cases e)
     (auto simp: route_for_def tq_create_def tq_update_def tq_update_local_def tq_delete_def in_book_def Let_def split: option.splits)

lemma dry_run_sends_nothing:
  "tq_global t \<Longrightarrow> tq_sent (run order_step t es) = tq_sent t \<and> tq_global (run order_step t es)"
  by (induction es arbitrary: t) (auto simp: dry_step_sends_nothing)

lemma dry_step_live:
  "tq_global t \<Longrightarrow> (\<And>mine. e \<noteq> OqRefresh mine) \<Longrightarrow> tq_live (order_step t e) = tq_live t"
  by (cases e)
     (auto simp: route_for_def tq_create_def tq_update_def tq_update_local_def tq_delete_def in_book_def Let_def split: option.splits)

lemma dry_run_live:
  "tq_global t \<Longrightarrow> (\<And>mine. OqRefresh mine \<notin> set es) \<Longrightarrow> tq_live (run order_step t es) = tq_live t"
proof (induction es arbitrary: t)
  case (Cons e es)
  have "tq_live (order_step t e) = tq_live t" using Cons.prems by (intro dry_step_live) auto
  moreover have "tq_global (order_step t e)" using Cons.prems dry_step_sends_nothing by blast
  ultimately show ?case using Cons by auto
qed simp

text \<open>
  Under global dry-run no write ever leaves the process: whatever is created, updated or
  deleted, no live call is sent, and the mirror of the account's orders stays as it was, until
  it is refreshed from the marketplace; the simulated book keeps unique ids with sells and buys
  apart, and its log keeps at most the last thousand entries.
\<close>

theorem dry_run_never_writes:
  assumes "all_enabled order_step order_enabled (trade_orders_new (Some rc) True) es" "ol_wf (rc_orders rc)"
  shows "tq_sent (run order_step (trade_orders_new (Some rc) True) es) = 0
    \<and> ((\<forall>mine. OqRefresh mine \<notin> set es) \<longrightarrow> tq_live (run order_step (trade_orders_new (Some rc) True) es) = Some rc)
    \<and> ol_wf (tq_book (run order_step (trade_orders_new (Some rc) True) es))
    \<and> length (tq_log (run order_step (trade_orders_new (Some rc) True) es)) \<le> 1000"
proof -
  have "orders_inv (run order_step (trade_orders_new (Some rc) True) es)"
    using assms by (intro orders_machine.run_inv orders_inv_init) auto
  moreover have "tq_global (trade_orders_new (Some rc) True)" "tq_live (trade_orders_new (Some rc) True) = Some rc"
    "tq_sent (trade_orders_new (Some rc) True) = 0"
    by (simp_all add: trade_orders_new_def)
  ultimately show ?thesis
    using dry_run_sends_nothing[of "trade_orders_new (Some rc) True" es] dry_run_live[of "trade_orders_new (Some rc) True" es]
    by (auto simp: orders_inv_def dry_log_memory_def)
qed

definition demo_params :: create_params where
  "demo_params = \<lparr>cp_item_id = ''it'', cp_type = BuyOrder, cp_platinum = 12, cp_quantity = 2, cp_visible = True,
     cp_per_trade = Some 300, cp_subtype = None, cp_properties = None\<rparr>"

definition demo_meta :: write_meta where
  "demo_meta = \<lparr>wm_sub_type = [], wm_reason = ''Create''\<rparr>"

definition failing :: answers where
  "failing = \<lparr>an_order = Inl (ApiOther ''500''), an_mine = Inl (ApiOther ''500'')\<rparr>"

theorem dry_run_never_writes_witness:
  "tq_sent (run order_step (trade_orders_new (Some route_new) True)
     [OqCreate demo_params True demo_meta ''1'' 0 [] failing, OqDelete ''dry-1'' demo_meta 0 failing]) = 0"
  using dry_run_never_writes[of route_new "[OqCreate demo_params True demo_meta ''1'' 0 [] failing, OqDelete ''dry-1'' demo_meta 0 failing]"]
  by (simp add: route_new_def ol_empty_def ol_wf_def ol_to_vec_def trade_orders_new_def failing_def mine_ok_def)



text \<open>The failure counter is the number of live calls that failed since the last one that worked.\<close>

lemma failures_counted:
  "tq_failures (snd (finish_live t a r mine)) = (case r of Inr _ \<Rightarrow> 0 | Inl _ \<Rightarrow> tq_failures t + 1)"
  by (auto simp: finish_live_def Let_def split: sum.splits)

lemma first_min2_spec:
  "first_min2 f xs = None \<longleftrightarrow> xs = []"
  "first_min2 f xs = Some x \<Longrightarrow> x \<in> set xs \<and> (\<forall>y\<in>set xs. fst (f x) < fst (f y) \<or> fst (f x) = fst (f y) \<and> snd (f x) \<le> snd (f y))"
  by (induction xs arbitrary: x) (auto split: option.splits if_splits)

text \<open>
  The buy order a blocked sale may replace is never one of the wish list: its key is not
  among the wish-list keys and its own operations do not name the wish list; among the live buy
  orders left it has the lowest expected profit and then the lowest price.
\<close>

theorem replaced_order_is_cheapest_non_wish:
  assumes "lowest_profit_buy_order t wish_list = Some o1"
  shows "\<exists>rc. tq_live t = Some rc \<and> o1 \<in> set (ol_buy (rc_orders rc)) \<and> order_key o1 \<notin> set wish_list
    \<and> ''WishList'' \<notin> set (prop_ops (or_properties o1) ''operations'')
    \<and> (\<forall>o2\<in>set (ol_buy (rc_orders rc)).
         order_key o2 \<in> set wish_list \<or> ''WishList'' \<in> set (prop_ops (or_properties o2) ''operations'')
       \<or> prop_int (or_properties o1) ''potential_profit'' 0 < prop_int (or_properties o2) ''potential_profit'' 0
       \<or> (prop_int (or_properties o1) ''potential_profit'' 0 = prop_int (or_properties o2) ''potential_profit'' 0
          \<and> or_platinum o1 \<le> or_platinum o2))"
  using assms first_min2_spec(2)[of "\<lambda>o1. (prop_int (or_properties o1) ''potential_profit'' 0, uint (or_platinum o1))"]
  by (auto simp: lowest_profit_buy_order_def word_le_def split: option.splits dest!: first_min2_spec(2))

theorem replaced_order_is_cheapest_non_wish_witness:
  "order_key (simulated_order demo_params ''x'' []) \<notin> set [(''other'', [])]"
proof -
  have "lowest_profit_buy_order (trade_orders_new (Some (route_new\<lparr>rc_orders := ol_add ol_empty (simulated_order demo_params ''x'' [])\<rparr>)) False)
      [(''other'', [])] = Some (simulated_order demo_params ''x'' [])"
    by (simp add: lowest_profit_buy_order_def trade_orders_new_def route_new_def ol_add_def ol_empty_def simulated_order_def
        demo_params_def order_key_def prop_ops_def prop_get_def os_new_def)
  from replaced_order_is_cheapest_non_wish[OF this] show ?thesis by blast
qed

end
