(* ===== verification/Knapsack.thy ===== *)
theory Knapsack
  imports Prelude "HOL-Library.Sublist" "HOL-Library.Multiset"
begin

text \<open>
  The 0/1 knapsack the trader uses to fit its buy orders under a total price cap
  (\<open>knapsack\<close> in \<open>qf_core/src/trader/helpers.rs\<close>): the table is filled in place from the highest
  capacity down, with the choices kept per item, and the choices are then read back from the
  last item. Items are (price, profit, item id, order id); \<open>f64\<close> values are reals.
\<close>

section \<open>The code\<close>

type_synonym knapsack_item = "int \<times> real \<times> string \<times> string"

definition item_weight :: "knapsack_item \<Rightarrow> nat" where
  "item_weight x = nat (max (fst x) 0)"

definition item_value :: "knapsack_item \<Rightarrow> real" where
  "item_value x = fst (snd x)"

text \<open>One iteration of the inner loop, at capacity \<open>w\<close>.\<close>

definition relax_cell :: "nat \<Rightarrow> real \<Rightarrow> real list \<times> bool list \<Rightarrow> nat \<Rightarrow> real list \<times> bool list" where
  "relax_cell weight v st w =
     (let (dp, row) = st; new_val = dp ! (w - weight) + v
      in if dp ! w < new_val then (dp[w := new_val], row[w := True]) else (dp, row))"

definition relax_row :: "nat \<Rightarrow> knapsack_item \<Rightarrow> real list \<Rightarrow> real list \<times> bool list" where
  "relax_row w_max x dp =
     (if w_max < item_weight x then (dp, replicate (w_max + 1) False)
      else foldl (relax_cell (item_weight x) (item_value x)) (dp, replicate (w_max + 1) False)
             (rev [item_weight x..<w_max + 1]))"

fun choice_table :: "nat \<Rightarrow> real list \<Rightarrow> knapsack_item list \<Rightarrow> bool list list" where
  "choice_table w_max dp [] = []"
| "choice_table w_max dp (x # xs) =
     (let (dp1, row) = relax_row w_max x dp in row # choice_table w_max dp1 xs)"

text \<open>Items and their rows come last first; both results are in that order.\<close>

fun backtrack :: "(knapsack_item \<times> bool list) list \<Rightarrow> nat \<Rightarrow> knapsack_item list \<times> knapsack_item list" where
  "backtrack [] w = ([], [])"
| "backtrack ((x, row) # rest) w =
     (if item_weight x \<le> w \<and> row ! w
      then (let (sel, unsel) = backtrack rest (w - item_weight x) in (x # sel, unsel))
      else (let (sel, unsel) = backtrack rest w in (sel, x # unsel)))"

definition knapsack :: "knapsack_item list \<Rightarrow> int \<Rightarrow> knapsack_item list \<times> knapsack_item list" where
  "knapsack items max_weight =
     (let w_max = nat (max max_weight 0);
          choice = choice_table w_max (replicate (w_max + 1) 0) items;
          (sel, unsel) = backtrack (rev (zip items choice)) w_max
      in (rev sel, rev unsel))"

section \<open>The reference: best value over the first items\<close>

text \<open>\<open>best xs w\<close> is the value of dynamic programming for the items \<open>xs\<close>, last one first.\<close>

fun best :: "knapsack_item list \<Rightarrow> nat \<Rightarrow> real" where
  "best [] w = 0"
| "best (x # xs) w =
     (if item_weight x \<le> w \<and> best xs w < best xs (w - item_weight x) + item_value x
      then best xs (w - item_weight x) + item_value x else best xs w)"

definition total_weight :: "knapsack_item list \<Rightarrow> nat" where
  "total_weight xs = sum_list (map item_weight xs)"

definition total_value :: "knapsack_item list \<Rightarrow> real" where
  "total_value xs = sum_list (map item_value xs)"

lemma totals [simp]:
  "total_weight [] = 0" "total_weight (x # xs) = item_weight x + total_weight xs" "total_weight (rev xs) = total_weight xs"
  "total_value [] = 0" "total_value (x # xs) = item_value x + total_value xs" "total_value (rev xs) = total_value xs"
  by (simp_all add: total_weight_def total_value_def rev_map[symmetric])

lemma best_mono: "best xs w \<le> best (x # xs) w"
  by simp

lemma best_is_upper_bound: "subseq ys xs \<Longrightarrow> total_weight ys \<le> w \<Longrightarrow> total_value ys \<le> best xs w"
proof (induction xs arbitrary: ys w)
  case (Cons x xs)
  show ?case
  proof (cases ys)
    case Nil
    then show ?thesis using Cons.IH[of "[]" w] best_mono[of xs w x] by simp
  next
    case (Cons y zs)
    show ?thesis
    proof (cases "y = x")
      case True
      then have "subseq zs xs" "total_weight zs \<le> w - item_weight x" "item_weight x \<le> w"
        using Cons Cons.prems by auto
      then have "total_value zs \<le> best xs (w - item_weight x)" by (intro Cons.IH)
      then show ?thesis using Cons True \<open>item_weight x \<le> w\<close> by auto
    next
      case False
      then have "subseq ys xs" using Cons Cons.prems by auto
      then show ?thesis using Cons.IH Cons.prems best_mono[of xs w x] by (meson order_trans)
    qed
  qed
qed (auto dest: list_emb_Nil2)

section \<open>The table holds the reference\<close>

lemma relax_cell_eq:
  "relax_cell weight v (dp, row) w =
     (if dp ! w < dp ! (w - weight) + v then (dp[w := dp ! (w - weight) + v], row[w := True]) else (dp, row))"
  by (simp add: relax_cell_def Let_def)

lemma relax_fold:
  assumes "weight \<le> k" "k \<le> n" "length dp = n"
  shows "foldl (relax_cell weight v) (dp, replicate n False) (rev [k..<n]) =
     (map (\<lambda>w. if k \<le> w \<and> dp ! w < dp ! (w - weight) + v then dp ! (w - weight) + v else dp ! w) [0..<n],
      map (\<lambda>w. k \<le> w \<and> dp ! w < dp ! (w - weight) + v) [0..<n])"
  using assms(2,1)
proof (induction rule: inc_induct)
  case base
  then show ?case using assms(3) by (auto intro!: nth_equalityI)
next
  case (step k)
  let ?d = "\<lambda>k. map (\<lambda>w. if k \<le> w \<and> dp ! w < dp ! (w - weight) + v then dp ! (w - weight) + v else dp ! w) [0..<n]"
  let ?r = "\<lambda>k. map (\<lambda>w. k \<le> w \<and> dp ! w < dp ! (w - weight) + v) [0..<n]"
  have fold: "foldl (relax_cell weight v) (dp, replicate n False) (rev [k..<n]) = relax_cell weight v (?d (Suc k), ?r (Suc k)) k"
    using step by (simp add: upt_rec[of k n])
  have old: "?d (Suc k) ! (k - weight) = dp ! (k - weight)" "?d (Suc k) ! k = dp ! k"
    using step by auto
  have upd: "(?d (Suc k))[k := dp ! (k - weight) + v] = ?d k" "(?r (Suc k))[k := True] = ?r k"
    if "dp ! k < dp ! (k - weight) + v"
  proof -
    have "(?d (Suc k))[k := dp ! (k - weight) + v] ! i = ?d k ! i \<and> (?r (Suc k))[k := True] ! i = ?r k ! i" if "i < n" for i
      using step that \<open>dp ! k < dp ! (k - weight) + v\<close> by (cases "i = k") auto
    then show "(?d (Suc k))[k := dp ! (k - weight) + v] = ?d k" "(?r (Suc k))[k := True] = ?r k"
      by (auto intro!: nth_equalityI)
  qed
  have same: "?d (Suc k) = ?d k" "?r (Suc k) = ?r k" if "\<not> dp ! k < dp ! (k - weight) + v"
    using that by (auto simp: Suc_le_eq order_le_less)
  show ?case
  proof (cases "dp ! k < dp ! (k - weight) + v")
    case True
    have "relax_cell weight v (?d (Suc k), ?r (Suc k)) k = ((?d (Suc k))[k := dp ! (k - weight) + v], (?r (Suc k))[k := True])"
      using True by (simp only: relax_cell_eq old if_True)
    also have "\<dots> = (?d k, ?r k)" by (simp only: upd[OF True])
    finally show ?thesis by (simp only: fold)
  next
    case False
    have "relax_cell weight v (?d (Suc k), ?r (Suc k)) k = (?d (Suc k), ?r (Suc k))"
      using False by (simp only: relax_cell_eq old if_False)
    also have "\<dots> = (?d k, ?r k)" by (simp only: same[OF False])
    finally show ?thesis by (simp only: fold)
  qed
qed

definition table_row :: "nat \<Rightarrow> knapsack_item list \<Rightarrow> real list" where
  "table_row w_max xs = map (best xs) [0..<w_max + 1]"

lemma relax_row_best:
  "relax_row w_max x (table_row w_max xs) =
     (table_row w_max (x # xs),
      map (\<lambda>w. item_weight x \<le> w \<and> best xs w < best xs (w - item_weight x) + item_value x) [0..<w_max + 1])"
proof (cases "w_max < item_weight x")
  case True
  then show ?thesis 
    by (auto simp: relax_row_def table_row_def intro!: nth_equalityI simp del: upt_Suc replicate_Suc)
next
  case False
  then have "foldl (relax_cell (item_weight x) (item_value x)) (table_row w_max xs, replicate (w_max + 1) False) (rev [item_weight x..<w_max + 1])
    = (map (\<lambda>w. if item_weight x \<le> w \<and> table_row w_max xs ! w < table_row w_max xs ! (w - item_weight x) + item_value x
              then table_row w_max xs ! (w - item_weight x) + item_value x else table_row w_max xs ! w) [0..<w_max + 1],
       map (\<lambda>w. item_weight x \<le> w \<and> table_row w_max xs ! w < table_row w_max xs ! (w - item_weight x) + item_value x) [0..<w_max + 1])"
    by (intro relax_fold) (auto simp: table_row_def)
  moreover have "table_row w_max xs ! w = best xs w" if "w \<le> w_max" for w
    using that by (simp add: table_row_def del: upt_Suc)
  ultimately show ?thesis
    using False by (auto simp: relax_row_def table_row_def[of _ "x # xs"] simp del: upt_Suc intro!: map_cong)
qed

fun choices :: "nat \<Rightarrow> knapsack_item list \<Rightarrow> knapsack_item list \<Rightarrow> bool list list" where
  "choices w_max seen [] = []"
| "choices w_max seen (x # xs) =
     map (\<lambda>w. item_weight x \<le> w \<and> best seen w < best seen (w - item_weight x) + item_value x) [0..<w_max + 1]
       # choices w_max (x # seen) xs"

lemma choice_table_eq: "choice_table w_max (table_row w_max seen) xs = choices w_max seen xs"
  by (induction xs arbitrary: seen) (simp_all add: relax_row_best del: upt_Suc)

section \<open>Reading the choices back\<close>

text \<open>The rows last first: each belongs to the items before its own.\<close>

fun rows_ok :: "nat \<Rightarrow> (knapsack_item \<times> bool list) list \<Rightarrow> bool" where
  "rows_ok w_max [] = True"
| "rows_ok w_max ((x, row) # rest) =
     ((\<forall>w\<le>w_max. row ! w \<longleftrightarrow> item_weight x \<le> w \<and> best (map fst rest) w < best (map fst rest) (w - item_weight x) + item_value x)
      \<and> rows_ok w_max rest)"

lemma rows_ok_choices:
  "rows_ok w_max acc \<Longrightarrow> rows_ok w_max (rev (zip xs (choices w_max (map fst acc) xs)) @ acc)"
proof (induction xs arbitrary: acc)
  case (Cons x xs)
  let ?row = "map (\<lambda>w. item_weight x \<le> w \<and> best (map fst acc) w < best (map fst acc) (w - item_weight x) + item_value x) [0..<w_max + 1]"
  have "rows_ok w_max ((x, ?row) # acc)" using Cons.prems by (auto simp del: upt_Suc)
  from Cons.IH[OF this] show ?case by (simp del: upt_Suc)
qed simp

lemma backtrack_spec:
  assumes "rows_ok w_max rest" "w \<le> w_max" "backtrack rest w = (sel, unsel)"
  shows "subseq sel (map fst rest) \<and> subseq unsel (map fst rest) \<and> mset sel + mset unsel = mset (map fst rest)
    \<and> total_weight sel \<le> w \<and> total_value sel = best (map fst rest) w"
  using assms
proof (induction rest w arbitrary: sel unsel rule: backtrack.induct)
  case (2 x row rest w)
  show ?case
  proof (cases "item_weight x \<le> w \<and> row ! w")
    case True
    obtain s u where su: "backtrack rest (w - item_weight x) = (s, u)" by fastforce
    with True 2 have IH: "subseq s (map fst rest) \<and> subseq u (map fst rest) \<and> mset s + mset u = mset (map fst rest)
        \<and> total_weight s \<le> w - item_weight x \<and> total_value s = best (map fst rest) (w - item_weight x)"
      by (intro "2.IH"(1)) auto
    moreover have "sel = x # s" "unsel = u" using 2(5) su True by auto
    ultimately show ?thesis using True 2(3,4) by auto
  next
    case False
    obtain s u where su: "backtrack rest w = (s, u)" by fastforce
    with False 2 have "subseq s (map fst rest) \<and> subseq u (map fst rest) \<and> mset s + mset u = mset (map fst rest)
        \<and> total_weight s \<le> w \<and> total_value s = best (map fst rest) w"
      by (intro "2.IH"(2)) auto
    moreover have "sel = s" "unsel = x # u" using 2(5) su False by auto
    ultimately show ?thesis using False 2(3,4) by auto
  qed
qed simp

lemma length_choice_table [simp]: "length (choice_table w_max dp xs) = length xs"
  by (induction xs arbitrary: dp) (simp_all add: case_prod_unfold Let_def)

lemma best_Nil_row: "replicate (w + 1) 0 = table_row w []"
  by (rule nth_equalityI) (simp_all add: table_row_def del: upt_Suc replicate_Suc)

section \<open>Property\<close>

lemma subseq_rev: "subseq xs ys \<Longrightarrow> subseq (rev xs) (rev ys)"
  by (induction rule: list_emb.induct) (auto intro: list_emb_append_mono)

text \<open>
  C9. The knapsack is optimal: the selected and unselected orders split the given ones, each in
  their order; the selected prices stay within the cap (a negative cap or price counts as 0);
  and no selection of orders within the cap has more profit.
\<close>

theorem knapsack_optimal:
  assumes "knapsack items cap = (sel, unsel)"
  shows "subseq sel items \<and> subseq unsel items \<and> mset sel + mset unsel = mset items
    \<and> int (total_weight sel) \<le> max cap 0
    \<and> (\<forall>ys. subseq ys items \<and> int (total_weight ys) \<le> max cap 0 \<longrightarrow> total_value ys \<le> total_value sel)"
proof -
  define w where "w = nat (max cap 0)"
  define rest where "rest = rev (zip items (choice_table w (replicate (w + 1) 0) items))"
  have fst_rest: "map fst rest = rev items" by (simp add: rest_def rev_map[symmetric])
  have "rows_ok w rest"
    using rows_ok_choices[of w "[]" items] unfolding rest_def best_Nil_row choice_table_eq by simp
  moreover obtain s u where su: "backtrack rest w = (s, u)" by fastforce
  ultimately have *: "subseq s (rev items) \<and> subseq u (rev items) \<and> mset s + mset u = mset (rev items)
      \<and> total_weight s \<le> w \<and> total_value s = best (rev items) w"
    using backtrack_spec[of w rest w s u] by (simp add: fst_rest)
  have sel: "sel = rev s" "unsel = rev u"
    using assms su by (auto simp: knapsack_def w_def rest_def Let_def)
  have "total_value ys \<le> total_value sel" if "subseq ys items" "int (total_weight ys) \<le> max cap 0" for ys
    using best_is_upper_bound[OF subseq_rev[OF that(1)], of w] that(2) * by (simp add: sel w_def)
  then show ?thesis using * subseq_rev[of s "rev items"] subseq_rev[of u "rev items"] by (auto simp: sel w_def)
qed

theorem knapsack_optimal_witness:
  "knapsack [(3, 4, [], ''a''), (2, 3, [], ''b''), (2, 3, [], ''c'')] 4 = ([(2, 3, [], ''b''), (2, 3, [], ''c'')], [(3, 4, [], ''a'')])
   \<and> total_value [(3, 4, [], ''a'')] \<le> total_value [(2, 3, [], ''b''), (2, 3, [], ''c'')]"
proof -
  have k: "knapsack [(3, 4, [], ''a''), (2, 3, [], ''b''), (2, 3, [], ''c'')] 4 = ([(2, 3, [], ''b''), (2, 3, [], ''c'')], [(3, 4, [], ''a'')])"
    by (simp add: knapsack_def relax_row_def relax_cell_def item_weight_def item_value_def Let_def eval_nat_numeral)
  have "subseq [(3, 4, [], ''a'')] [(3::int, 4::real, []::string, ''a''), (2, 3, [], ''b''), (2, 3, [], ''c'')]" by simp
  moreover have "int (total_weight [(3::int, 4::real, []::string, ''a'')]) \<le> max 4 0" by (simp add: item_weight_def)
  ultimately show ?thesis using knapsack_optimal[OF k] k by blast
qed

end
