(* ===== verification/Stock_Model.thy ===== *)
theory Stock_Model
  imports Wfm_Orders
begin

text \<open>
  The stock and wish-list rows (\<open>entity/src/stock_item/\<close>, \<open>entity/src/wish_list/\<close>), their
  status, price history and setters, the update payloads with their merge of user properties,
  and the property helpers of \<open>utils/src/properties.rs\<close> those need. Prices and quantities are
  unbounded \<open>int\<close>s here where the code has \<open>i64\<close>: platinum amounts stay far from the limits.
\<close>

section \<open>Property helpers\<close>

definition prop_has :: "properties \<Rightarrow> string \<Rightarrow> bool" where
  "prop_has p k \<longleftrightarrow> prop_get p k \<noteq> None"

definition prop_filter :: "(string \<Rightarrow> bool) \<Rightarrow> properties \<Rightarrow> properties" where
  "prop_filter P p =
     (case p of Some (JObj m) \<Rightarrow> Some (JObj (filter (\<lambda>(k, v). P k) m)) | _ \<Rightarrow> p)"

definition prop_keep :: "string list \<Rightarrow> properties \<Rightarrow> properties" where
  "prop_keep keys p = prop_filter (\<lambda>k. k \<in> set keys) p"

definition prop_remove :: "string \<Rightarrow> properties \<Rightarrow> properties" where
  "prop_remove key p = prop_filter (\<lambda>k. k \<noteq> key) p"

definition prop_real :: "properties \<Rightarrow> string \<Rightarrow> real \<Rightarrow> real" where
  "prop_real p k dflt = (case prop_get p k of Some (JInt i) \<Rightarrow> real_of_int i | Some (JReal r) \<Rightarrow> r | _ \<Rightarrow> dflt)"

definition prop_opt_int :: "properties \<Rightarrow> string \<Rightarrow> int option" where
  "prop_opt_int p k = (case prop_get p k of Some (JInt i) \<Rightarrow> if i64 i then Some i else None | _ \<Rightarrow> None)"

definition nullify_key :: "properties \<Rightarrow> string \<Rightarrow> properties" where
  "nullify_key p k = (if prop_real p k 0 = 0 \<and> prop_has p k then prop_set p k JNull else p)"

definition prop_nullify_zeroed :: "string list \<Rightarrow> properties \<Rightarrow> properties" where
  "prop_nullify_zeroed keys p = foldl nullify_key p keys"

text \<open>One entry of \<open>merge_properties\<close> on the two maps.\<close>

definition json_delete :: "string \<Rightarrow> (string \<times> json) list \<Rightarrow> (string \<times> json) list" where
  "json_delete k m = filter (\<lambda>(k', v). k' \<noteq> k) m"

definition merge_entry :: "bool \<Rightarrow> bool \<Rightarrow> (string \<times> json) list \<Rightarrow> string \<times> json \<Rightarrow> (string \<times> json) list" where
  "merge_entry overwrite remove_if_null m kv =
     (let (k, v) = kv in
      if overwrite \<or> map_of m k = None
      then (if remove_if_null \<and> v = JNull then json_delete k m else json_insert k v m)
      else m)"

definition prop_merge :: "properties \<Rightarrow> properties \<Rightarrow> bool \<Rightarrow> bool \<Rightarrow> properties" where
  "prop_merge p new_props overwrite remove_if_null =
     (case new_props of
        None \<Rightarrow> p
      | Some n \<Rightarrow>
          (case p of
             None \<Rightarrow> Some n
           | Some (JObj m) \<Rightarrow>
               (case n of JObj nm \<Rightarrow> Some (JObj (foldl (merge_entry overwrite remove_if_null) m nm)) | _ \<Rightarrow> p)
           | Some j \<Rightarrow> p))"

lemma map_of_filter_key: "map_of (filter (\<lambda>(k, v). P k) m) k = (if P k then map_of m k else None)"
  by (induction m) auto

lemma map_of_json_delete: "map_of (json_delete k m) k' = (if k' = k then None else map_of m k')"
  unfolding json_delete_def by (induction m) auto

lemma prop_get_filter: "prop_get (prop_filter P p) k = (if P k then prop_get p k else None)"
  by (auto simp: prop_get_def prop_filter_def map_of_filter_key split: option.splits json.splits)

lemma prop_get_keep: "prop_get (prop_keep keys p) k = (if k \<in> set keys then prop_get p k else None)"
  by (simp add: prop_keep_def prop_get_filter)

lemma prop_get_remove: "prop_get (prop_remove key p) k = (if k = key then None else prop_get p k)"
  by (simp add: prop_remove_def prop_get_filter)

text \<open>What an overwriting merge that drops nulls leaves under each key.\<close>

lemma map_of_merge:
  "distinct (map fst nm) \<Longrightarrow> map_of (foldl (merge_entry True True) m nm) k =
     (case map_of nm k of None \<Rightarrow> map_of m k | Some v \<Rightarrow> if v = JNull then None else Some v)"
proof (induction nm arbitrary: m)
  case (Cons kv nm)
  obtain k0 v0 where kv: "kv = (k0, v0)" by fastforce
  with Cons.prems have "map_of nm k0 = None" by (simp add: map_of_eq_None_iff)
  with Cons kv show ?case
    by (auto simp: merge_entry_def map_of_json_insert map_of_json_delete split: option.splits)
qed simp

section \<open>Status and price history\<close>

datatype stock_status = StPending | StLive | StToLowProfit | StNoSellers | StNoBuyers | StInActive | StSMALimit
  | StOrderLimit | StOverpriced | StUnderpriced | StMaxPriceDrop

fun status_str :: "stock_status \<Rightarrow> string" where
  "status_str StPending = ''pending''"
| "status_str StLive = ''live''"
| "status_str StToLowProfit = ''to_low_profit''"
| "status_str StNoSellers = ''no_sellers''"
| "status_str StNoBuyers = ''no_buyers''"
| "status_str StInActive = ''inactive''"
| "status_str StSMALimit = ''sma_limit''"
| "status_str StOrderLimit = ''order_limit''"
| "status_str StOverpriced = ''overpriced''"
| "status_str StUnderpriced = ''underpriced''"
| "status_str StMaxPriceDrop = ''max_price_drop''"

definition status_from_string :: "string \<Rightarrow> stock_status" where
  "status_from_string s =
     (case map_of (map (\<lambda>x. (status_str x, x)) [StPending, StLive, StToLowProfit, StNoSellers, StNoBuyers, StInActive,
         StSMALimit, StOrderLimit, StOverpriced, StUnderpriced, StMaxPriceDrop]) s of
        Some x \<Rightarrow> x | None \<Rightarrow> StPending)"

lemma status_from_string_str [simp]: "status_from_string (status_str s) = s"
  by (cases s) (simp_all add: status_from_string_def)

record price_history =
  ph_created_at :: string
  ph_price :: int

definition add_price_history :: "price_history list \<Rightarrow> price_history \<Rightarrow> price_history list" where
  "add_price_history items p =
     (if map_option ph_price (if items = [] then None else Some (last items)) \<noteq> Some (ph_price p)
      then (if 5 \<le> length items then tl items else items) @ [p]
      else items)"

lemma add_price_history_bound: "length items \<le> 5 \<Longrightarrow> length (add_price_history items p) \<le> 5"
  by (auto simp: add_price_history_def)

lemma add_price_history_last: "ph_price (last (add_price_history items p)) = ph_price p"
  by (auto simp: add_price_history_def split: if_splits)

definition no_repeat :: "price_history list \<Rightarrow> bool" where
  "no_repeat items \<longleftrightarrow> successively (\<lambda>a b. ph_price a \<noteq> ph_price b) items"

lemma no_repeat_tl: "no_repeat items \<Longrightarrow> no_repeat (tl items)"
  unfolding no_repeat_def by (cases items) (auto simp: successively_Cons)

lemma add_price_history_no_repeat: "no_repeat items \<Longrightarrow> no_repeat (add_price_history items p)"
  using no_repeat_tl[of items]
  by (cases "tl items = []") (auto simp: add_price_history_def no_repeat_def successively_append_iff last_tl)

section \<open>Stock rows\<close>

text \<open>\<open>stk_is_dirty\<close>, \<open>stk_locked\<close> and \<open>stk_changes\<close> are no columns: a row read back has their defaults.\<close>

record stock_item =
  stk_id :: int
  stk_wfm_id :: string
  stk_wfm_url :: string
  stk_item_name :: string
  stk_unique_name :: string
  stk_sub_type :: "sub_type option"
  stk_bought :: int
  stk_list_price :: "int option"
  stk_owned :: int
  stk_is_hidden :: bool
  stk_status :: stock_status
  stk_price_history :: "price_history list"
  stk_updated_at :: utc
  stk_created_at :: utc
  stk_is_dirty :: bool
  stk_locked :: bool
  stk_changes :: "string list"
  stk_properties :: properties

definition stock_item_new ::
  "string \<Rightarrow> string \<Rightarrow> string \<Rightarrow> string \<Rightarrow> sub_type option \<Rightarrow> int \<Rightarrow> int \<Rightarrow> bool \<Rightarrow> properties \<Rightarrow> stock_item" where
  "stock_item_new wfm_id wfm_url item_name unique_name sub bought owned hidden props =
     \<lparr>stk_id = 0, stk_wfm_id = wfm_id, stk_wfm_url = wfm_url, stk_item_name = item_name,
      stk_unique_name = unique_name, stk_sub_type = sub, stk_bought = bought, stk_list_price = None,
      stk_owned = owned, stk_is_hidden = hidden, stk_status = StPending, stk_price_history = [],
      stk_updated_at = 0, stk_created_at = 0, stk_is_dirty = True, stk_locked = False, stk_changes = [],
      stk_properties = props\<rparr>"

definition stk_add_change :: "string \<Rightarrow> stock_item \<Rightarrow> stock_item" where
  "stk_add_change field m = (if field \<in> set (stk_changes m) then m else m\<lparr>stk_changes := stk_changes m @ [field]\<rparr>)"

definition stk_set_list_price :: "int option \<Rightarrow> stock_item \<Rightarrow> stock_item" where
  "stk_set_list_price p m =
     (if stk_locked m then m
      else if stk_list_price m \<noteq> p then stk_add_change ''list_price'' (m\<lparr>stk_list_price := p, stk_is_dirty := True\<rparr>)
      else m)"

definition stk_set_status :: "stock_status \<Rightarrow> stock_item \<Rightarrow> stock_item" where
  "stk_set_status s m =
     (if stk_locked m then m
      else if stk_status m \<noteq> s then stk_add_change ''status'' (m\<lparr>stk_status := s, stk_is_dirty := True\<rparr>)
      else m)"

definition stk_add_history :: "price_history \<Rightarrow> stock_item \<Rightarrow> stock_item" where
  "stk_add_history p m = m\<lparr>stk_price_history := add_price_history (stk_price_history m) p\<rparr>"

definition stk_lock :: "stock_item \<Rightarrow> stock_item" where
  "stk_lock m = m\<lparr>stk_locked := True\<rparr>"

definition row_uuid :: "string \<Rightarrow> sub_type option \<Rightarrow> string" where
  "row_uuid url sub = (case sub of Some s \<Rightarrow> url @ ''-'' @ sub_shot_display s | None \<Rightarrow> url)"

definition stk_uuid :: "stock_item \<Rightarrow> string" where
  "stk_uuid m = row_uuid (stk_wfm_url m) (stk_sub_type m)"

lemmas stk_setter_defs = stk_set_list_price_def stk_set_status_def stk_add_change_def stk_add_history_def stk_lock_def

section \<open>Update payloads\<close>

datatype 'a field_change = FcIgnore | FcValue 'a | FcNull

definition fc_set :: "'a field_change \<Rightarrow> ('a \<Rightarrow> 'm \<Rightarrow> 'm) \<Rightarrow> 'm \<Rightarrow> 'm" where
  "fc_set c f m = (case c of FcValue v \<Rightarrow> f v m | _ \<Rightarrow> m)"

definition fc_set_opt :: "'a field_change \<Rightarrow> ('a option \<Rightarrow> 'm \<Rightarrow> 'm) \<Rightarrow> 'm \<Rightarrow> 'm" where
  "fc_set_opt c f m = (case c of FcValue v \<Rightarrow> f (Some v) m | FcNull \<Rightarrow> f None m | FcIgnore \<Rightarrow> m)"

lemma fc_set_simps [simp]:
  "fc_set FcIgnore f m = m" "fc_set FcNull f m = m" "fc_set (FcValue v) f m = f v m"
  "fc_set_opt FcIgnore g m = m" "fc_set_opt FcNull g m = g None m" "fc_set_opt (FcValue v) g m = g (Some v) m"
  by (simp_all add: fc_set_def fc_set_opt_def)

text \<open>User properties: only the allowed keys, a zero meaning "remove".\<close>

definition merge_user_properties :: "string list \<Rightarrow> properties \<Rightarrow> properties \<Rightarrow> properties" where
  "merge_user_properties allowed existing v =
     prop_merge existing (prop_nullify_zeroed allowed (prop_keep allowed v)) True True"

definition stock_allowed :: "string list" where
  "stock_allowed = [''min_sma'', ''min_profit'', ''min_price'']"

definition wish_allowed :: "string list" where
  "wish_allowed = [''max_price'', ''min_price'']"

record update_stock =
  ustk_id :: int
  ustk_owned :: "int field_change"
  ustk_bought :: "int field_change"
  ustk_list_price :: "int field_change"
  ustk_status :: "stock_status field_change"
  ustk_is_hidden :: "bool field_change"
  ustk_price_history :: "price_history list field_change"
  ustk_sub_type :: "sub_type option field_change"
  ustk_properties :: "properties field_change"

definition update_stock_new :: "int \<Rightarrow> update_stock" where
  "update_stock_new i = \<lparr>ustk_id = i, ustk_owned = FcIgnore, ustk_bought = FcIgnore, ustk_list_price = FcIgnore,
     ustk_status = FcIgnore, ustk_is_hidden = FcIgnore, ustk_price_history = FcIgnore, ustk_sub_type = FcIgnore,
     ustk_properties = FcIgnore\<rparr>"

definition apply_stock_update :: "update_stock \<Rightarrow> stock_item \<Rightarrow> stock_item" where
  "apply_stock_update u m =
     (let m1 = fc_set (ustk_owned u) (\<lambda>v m. m\<lparr>stk_owned := v\<rparr>) m;
          m2 = fc_set (ustk_bought u) (\<lambda>v m. m\<lparr>stk_bought := v\<rparr>) m1;
          m3 = fc_set_opt (ustk_list_price u) (\<lambda>v m. m\<lparr>stk_list_price := v\<rparr>) m2;
          m4 = fc_set (ustk_is_hidden u) (\<lambda>v m. m\<lparr>stk_is_hidden := v\<rparr>) m3;
          m5 = fc_set (ustk_status u) (\<lambda>v m. m\<lparr>stk_status := v\<rparr>) m4;
          m6 = fc_set (ustk_price_history u) (\<lambda>v m. m\<lparr>stk_price_history := v\<rparr>) m5;
          m7 = (case ustk_sub_type u of FcValue v \<Rightarrow> m6\<lparr>stk_sub_type := v\<rparr> | FcNull \<Rightarrow> m6\<lparr>stk_sub_type := None\<rparr> | FcIgnore \<Rightarrow> m6)
      in fc_set (ustk_properties u)
           (\<lambda>v m. m\<lparr>stk_properties := merge_user_properties stock_allowed (stk_properties m) v\<rparr>) m7)"

definition stock_to_update :: "stock_item \<Rightarrow> update_stock" where
  "stock_to_update m =
     \<lparr>ustk_id = stk_id m, ustk_owned = FcValue (stk_owned m), ustk_bought = FcValue (stk_bought m),
      ustk_list_price = (case stk_list_price m of None \<Rightarrow> FcNull | Some v \<Rightarrow> FcValue v),
      ustk_status = FcValue (stk_status m), ustk_is_hidden = FcValue (stk_is_hidden m),
      ustk_price_history = FcValue (stk_price_history m), ustk_sub_type = FcValue (stk_sub_type m),
      ustk_properties = FcValue (stk_properties m)\<rparr>"

section \<open>Wish-list rows\<close>

record wish_item =
  wl_id :: int
  wl_wfm_id :: string
  wl_wfm_url :: string
  wl_item_name :: string
  wl_unique_name :: string
  wl_sub_type :: "sub_type option"
  wl_quantity :: int
  wl_list_price :: "int option"
  wl_price_history :: "price_history list"
  wl_status :: stock_status
  wl_updated_at :: utc
  wl_created_at :: utc
  wl_is_hidden :: bool
  wl_is_dirty :: bool
  wl_locked :: bool
  wl_changes :: "string option"
  wl_properties :: properties

definition wish_item_new :: "string \<Rightarrow> string \<Rightarrow> string \<Rightarrow> string \<Rightarrow> sub_type option \<Rightarrow> int \<Rightarrow> properties \<Rightarrow> wish_item" where
  "wish_item_new wfm_id wfm_url item_name unique_name sub qty props =
     \<lparr>wl_id = 0, wl_wfm_id = wfm_id, wl_wfm_url = wfm_url, wl_item_name = item_name, wl_unique_name = unique_name,
      wl_sub_type = sub, wl_quantity = qty, wl_list_price = None, wl_price_history = [], wl_status = StPending,
      wl_updated_at = 0, wl_created_at = 0, wl_is_hidden = False, wl_is_dirty = True, wl_locked = False,
      wl_changes = None, wl_properties = props\<rparr>"

definition wl_set_list_price :: "int option \<Rightarrow> wish_item \<Rightarrow> wish_item" where
  "wl_set_list_price p m =
     (if wl_locked m then m
      else if wl_list_price m \<noteq> p then m\<lparr>wl_list_price := p, wl_is_dirty := True, wl_changes := Some ''list_price''\<rparr>
      else m)"

definition wl_set_status :: "stock_status \<Rightarrow> wish_item \<Rightarrow> wish_item" where
  "wl_set_status s m =
     (if wl_locked m then m
      else if wl_status m \<noteq> s then m\<lparr>wl_status := s, wl_is_dirty := True, wl_changes := Some ''status''\<rparr>
      else m)"

definition wl_add_history :: "price_history \<Rightarrow> wish_item \<Rightarrow> wish_item" where
  "wl_add_history p m = m\<lparr>wl_price_history := add_price_history (wl_price_history m) p\<rparr>"

definition wl_lock :: "wish_item \<Rightarrow> wish_item" where
  "wl_lock m = m\<lparr>wl_locked := True\<rparr>"

definition wl_uuid :: "wish_item \<Rightarrow> string" where
  "wl_uuid m = row_uuid (wl_wfm_url m) (wl_sub_type m)"

lemmas wl_setter_defs = wl_set_list_price_def wl_set_status_def wl_add_history_def wl_lock_def

record update_wish =
  uwl_id :: int
  uwl_quantity :: "int field_change"
  uwl_list_price :: "int field_change"
  uwl_status :: "stock_status field_change"
  uwl_is_hidden :: "bool field_change"
  uwl_price_history :: "price_history list field_change"
  uwl_properties :: "properties field_change"

definition update_wish_new :: "int \<Rightarrow> update_wish" where
  "update_wish_new i = \<lparr>uwl_id = i, uwl_quantity = FcIgnore, uwl_list_price = FcIgnore, uwl_status = FcIgnore,
     uwl_is_hidden = FcIgnore, uwl_price_history = FcIgnore, uwl_properties = FcIgnore\<rparr>"

definition apply_wish_update :: "update_wish \<Rightarrow> wish_item \<Rightarrow> wish_item" where
  "apply_wish_update u m =
     (let m1 = fc_set (uwl_quantity u) (\<lambda>v m. m\<lparr>wl_quantity := v\<rparr>) m;
          m2 = fc_set_opt (uwl_list_price u) (\<lambda>v m. m\<lparr>wl_list_price := v\<rparr>) m1;
          m3 = fc_set (uwl_is_hidden u) (\<lambda>v m. m\<lparr>wl_is_hidden := v\<rparr>) m2;
          m4 = fc_set (uwl_status u) (\<lambda>v m. m\<lparr>wl_status := v\<rparr>) m3;
          m5 = fc_set (uwl_price_history u) (\<lambda>v m. m\<lparr>wl_price_history := v\<rparr>) m4
      in fc_set (uwl_properties u)
           (\<lambda>v m. m\<lparr>wl_properties := merge_user_properties wish_allowed (wl_properties m) v\<rparr>) m5)"

definition wish_to_update :: "wish_item \<Rightarrow> update_wish" where
  "wish_to_update m =
     \<lparr>uwl_id = wl_id m, uwl_quantity = FcValue (wl_quantity m),
      uwl_list_price = (case wl_list_price m of None \<Rightarrow> FcNull | Some v \<Rightarrow> FcValue v),
      uwl_status = FcValue (wl_status m), uwl_is_hidden = FcValue (wl_is_hidden m),
      uwl_price_history = FcValue (wl_price_history m), uwl_properties = FcValue (wl_properties m)\<rparr>"

end
