(* ===== verification/Stock_Store.thy ===== *)
theory Stock_Store
  imports Stock_Model "HOL-Library.Signed_Division"
begin

text \<open>
  The stock and wish-list tables and the statements on them
  (\<open>service/src/mutation/stock_item_mutation.rs\<close>, \<open>wish_list_mutation.rs\<close> and the queries they
  use). A statement that fails in the database ends the call with an error and changes nothing;
  only the failures the code itself raises are modelled. Ids are handed out by \<open>AUTOINCREMENT\<close>.
  A division by zero, a panic in Rust, is a result of its own.
\<close>

section \<open>State and results\<close>

datatype fault = Failed qf_error | Panicked

record stock_db =
  sd_items :: "stock_item list"
  sd_next_item :: int
  sd_wishes :: "wish_item list"
  sd_next_wish :: int

definition empty_stock :: stock_db where
  "empty_stock = \<lparr>sd_items = [], sd_next_item = 1, sd_wishes = [], sd_next_wish = 1\<rparr>"

text \<open>\<open>i64\<close> division truncates towards zero and panics on zero.\<close>

definition checked_div :: "int \<Rightarrow> int \<Rightarrow> fault + int" where
  "checked_div a b = (if b = 0 then Inl Panicked else Inr (a sdiv b))"

section \<open>Stock items\<close>

definition stock_find_id :: "stock_db \<Rightarrow> int \<Rightarrow> stock_item option" where
  "stock_find_id db i = row_lookup stk_id (sd_items db) i"

definition stock_find_url :: "stock_db \<Rightarrow> string \<Rightarrow> stock_item list" where
  "stock_find_url db url = filter (\<lambda>m. stk_wfm_url m = url) (sd_items db)"

definition stock_find :: "stock_db \<Rightarrow> string \<Rightarrow> sub_type option \<Rightarrow> stock_item option" where
  "stock_find db url sub = List.find (\<lambda>m. stk_sub_type m = sub) (stock_find_url db url)"

definition stock_create :: "stock_db \<Rightarrow> stock_item \<Rightarrow> utc \<Rightarrow> stock_item \<times> stock_db" where
  "stock_create db m now =
     (let row = m\<lparr>stk_id := sd_next_item db, stk_created_at := now, stk_updated_at := now,
                  stk_is_dirty := False, stk_locked := False, stk_changes := []\<rparr>
      in (row, db\<lparr>sd_items := sd_items db @ [row], sd_next_item := sd_next_item db + 1\<rparr>))"

definition stock_update_by_id :: "stock_db \<Rightarrow> update_stock \<Rightarrow> utc \<Rightarrow> (fault + stock_item) \<times> stock_db" where
  "stock_update_by_id db u now =
     (case stock_find_id db (ustk_id u) of
        None \<Rightarrow> (Inl (Failed (new_error ''StockItemMutation:UpdateById'' ''Stock Item not found'')), db)
      | Some m \<Rightarrow>
          (let m1 = (apply_stock_update u m)\<lparr>stk_updated_at := now\<rparr>
           in (Inr m1, db\<lparr>sd_items := row_modify stk_id (ustk_id u) (\<lambda>_. m1) (sd_items db)\<rparr>)))"

definition stock_delete_by_id :: "stock_db \<Rightarrow> int \<Rightarrow> (fault + unit) \<times> stock_db" where
  "stock_delete_by_id db i =
     (case stock_find_id db i of
        None \<Rightarrow> (Inl (Failed (new_error ''StockItemMutation:DeleteById'' ''Stock Item not found'')), db)
      | Some m \<Rightarrow> (Inr (), db\<lparr>sd_items := row_delete stk_id i (sd_items db)\<rparr>))"

definition stock_sold_by_id :: "stock_db \<Rightarrow> int \<Rightarrow> int \<Rightarrow> utc \<Rightarrow> (fault + string \<times> stock_item option) \<times> stock_db" where
  "stock_sold_by_id db i quantity now =
     (case stock_find_id db i of
        None \<Rightarrow> (Inr (''NotFound'', None), db)
      | Some m \<Rightarrow>
          (let q = (if quantity = 0 then 1 else quantity); owned = stk_owned m - q in
           if owned \<le> 0 then
             (case stock_delete_by_id db i of
                (Inr _, db1) \<Rightarrow> (Inr (''Deleted'', Some m), db1) | (Inl e, db1) \<Rightarrow> (Inl e, db1))
           else
             (case stock_update_by_id db ((update_stock_new (stk_id m))\<lparr>ustk_owned := FcValue owned\<rparr>) now of
                (Inr _, db1) \<Rightarrow> (Inr (''Updated'', Some m), db1) | (Inl e, db1) \<Rightarrow> (Inl e, db1))))"

definition stock_sold :: "stock_db \<Rightarrow> string \<Rightarrow> sub_type option \<Rightarrow> int \<Rightarrow> utc \<Rightarrow> (fault + string \<times> stock_item option) \<times> stock_db" where
  "stock_sold db url sub quantity now =
     (case List.find (\<lambda>m. stk_sub_type m = sub) (stock_find_url db url) of
        Some m \<Rightarrow> stock_sold_by_id db (stk_id m) quantity now
      | None \<Rightarrow> (Inr (''NotFound'', None), db))"

definition stock_add_item :: "stock_db \<Rightarrow> stock_item \<Rightarrow> utc \<Rightarrow> (fault + string \<times> stock_item) \<times> stock_db" where
  "stock_add_item db stock now =
     (case stock_find db (stk_wfm_url stock) (stk_sub_type stock) of
        None \<Rightarrow>
          (let stock1 = (if 1 < stk_owned stock then stock\<lparr>stk_bought := stk_bought stock sdiv stk_owned stock\<rparr> else stock);
               (row, db1) = stock_create db stock1 now
           in (Inr (''Created'', row), db1))
      | Some item \<Rightarrow>
          (let total_owned = stk_owned item + stk_owned stock;
               total_cost = stk_bought item * stk_owned item + stk_bought stock
           in case (if 0 < stk_bought stock then checked_div total_cost total_owned else Inr (stk_bought item)) of
                Inl e \<Rightarrow> (Inl e, db)
              | Inr weighted_average \<Rightarrow>
                  (case stock_update_by_id db ((update_stock_new (stk_id item))\<lparr>ustk_bought := FcValue weighted_average,
                          ustk_owned := FcValue total_owned\<rparr>) now of
                     (Inr row, db1) \<Rightarrow> (Inr (''Updated'', row), db1) | (Inl e, db1) \<Rightarrow> (Inl e, db1))))"

definition stock_update_all :: "stock_db \<Rightarrow> stock_status \<Rightarrow> int option \<Rightarrow> stock_item list \<times> stock_db" where
  "stock_update_all db status p =
     (let rows = map (\<lambda>m. m\<lparr>stk_status := status, stk_list_price := p\<rparr>) (sd_items db)
      in (rows, db\<lparr>sd_items := rows\<rparr>))"

definition stock_delete_all :: "stock_db \<Rightarrow> nat \<times> stock_db" where
  "stock_delete_all db = (length (sd_items db), db\<lparr>sd_items := []\<rparr>)"

text \<open>\<open>ItemEntry::finalize_stock_item\<close>: the trader writes the row it read at the start of its step back.\<close>

definition finalize_stock_item :: "stock_db \<Rightarrow> stock_item \<Rightarrow> utc \<Rightarrow> (fault + unit) \<times> stock_db" where
  "finalize_stock_item db m now =
     (if stk_is_dirty m
      then (case stock_update_by_id db (stock_to_update m) now of (Inr _, db1) \<Rightarrow> (Inr (), db1) | (Inl e, db1) \<Rightarrow> (Inl e, db1))
      else (Inr (), db))"

section \<open>Wish list\<close>

definition wish_find_id :: "stock_db \<Rightarrow> int \<Rightarrow> wish_item option" where
  "wish_find_id db i = row_lookup wl_id (sd_wishes db) i"

definition wish_find :: "stock_db \<Rightarrow> string \<Rightarrow> sub_type option \<Rightarrow> wish_item option" where
  "wish_find db url sub = List.find (\<lambda>m. wl_sub_type m = sub) (filter (\<lambda>m. wl_wfm_url m = url) (sd_wishes db))"

text \<open>The insert leaves price, history and status to the column defaults.\<close>

definition wish_create :: "stock_db \<Rightarrow> wish_item \<Rightarrow> utc \<Rightarrow> wish_item \<times> stock_db" where
  "wish_create db m now =
     (let row = m\<lparr>wl_id := sd_next_wish db, wl_created_at := now, wl_updated_at := now, wl_list_price := None,
                  wl_price_history := [], wl_status := StPending, wl_is_dirty := False, wl_locked := False, wl_changes := None\<rparr>
      in (row, db\<lparr>sd_wishes := sd_wishes db @ [row], sd_next_wish := sd_next_wish db + 1\<rparr>))"

definition wish_update_by_id :: "stock_db \<Rightarrow> update_wish \<Rightarrow> utc \<Rightarrow> (fault + wish_item) \<times> stock_db" where
  "wish_update_by_id db u now =
     (case wish_find_id db (uwl_id u) of
        None \<Rightarrow> (Inl (Failed (new_error ''WishListMutation:UpdateById'' ''Wish List item not found'')), db)
      | Some m \<Rightarrow>
          (let m1 = (apply_wish_update u m)\<lparr>wl_updated_at := now\<rparr>
           in (Inr m1, db\<lparr>sd_wishes := row_modify wl_id (uwl_id u) (\<lambda>_. m1) (sd_wishes db)\<rparr>)))"

definition wish_delete_by_id :: "stock_db \<Rightarrow> int \<Rightarrow> (fault + unit) \<times> stock_db" where
  "wish_delete_by_id db i =
     (case wish_find_id db i of
        None \<Rightarrow> (Inl (Failed (new_error ''WishListMutation:DeleteById'' ''Wish List item not found'')), db)
      | Some m \<Rightarrow> (Inr (), db\<lparr>sd_wishes := row_delete wl_id i (sd_wishes db)\<rparr>))"

definition wish_add_item :: "stock_db \<Rightarrow> wish_item \<Rightarrow> utc \<Rightarrow> (fault + string \<times> wish_item) \<times> stock_db" where
  "wish_add_item db item now =
     (case wish_find db (wl_wfm_url item) (wl_sub_type item) of
        None \<Rightarrow> (let (row, db1) = wish_create db item now in (Inr (''Created'', row), db1))
      | Some found \<Rightarrow>
          (case wish_update_by_id db ((update_wish_new (wl_id found))\<lparr>uwl_quantity := FcValue (wl_quantity found + wl_quantity item)\<rparr>) now of
             (Inr row, db1) \<Rightarrow> (Inr (''Updated'', row), db1) | (Inl e, db1) \<Rightarrow> (Inl e, db1)))"

definition wish_bought_by_id :: "stock_db \<Rightarrow> int \<Rightarrow> int \<Rightarrow> utc \<Rightarrow> (fault + string \<times> wish_item option) \<times> stock_db" where
  "wish_bought_by_id db i quantity now =
     (case wish_find_id db i of
        None \<Rightarrow> (Inr (''NotFound'', None), db)
      | Some m \<Rightarrow>
          (let q = (if quantity = 0 then 1 else quantity); item = m\<lparr>wl_quantity := wl_quantity m - q\<rparr> in
           if wl_quantity item \<le> 0 then
             (case wish_delete_by_id db i of
                (Inr _, db1) \<Rightarrow> (Inr (''Deleted'', Some item), db1) | (Inl e, db1) \<Rightarrow> (Inl e, db1))
           else
             (case wish_update_by_id db ((update_wish_new i)\<lparr>uwl_quantity := FcValue (wl_quantity item)\<rparr>) now of
                (Inr _, db1) \<Rightarrow> (Inr (''Updated'', Some item), db1) | (Inl e, db1) \<Rightarrow> (Inl e, db1))))"

definition wish_bought :: "stock_db \<Rightarrow> string \<Rightarrow> sub_type option \<Rightarrow> int \<Rightarrow> utc \<Rightarrow> (fault + string \<times> wish_item option) \<times> stock_db" where
  "wish_bought db url sub quantity now =
     wish_bought_by_id db (case wish_find db url sub of Some i \<Rightarrow> wl_id i | None \<Rightarrow> -1) quantity now"

definition finalize_wishlist_item :: "stock_db \<Rightarrow> wish_item \<Rightarrow> utc \<Rightarrow> (fault + unit) \<times> stock_db" where
  "finalize_wishlist_item db m now =
     (if wl_is_dirty m
      then (case wish_update_by_id db (wish_to_update m) now of (Inr _, db1) \<Rightarrow> (Inr (), db1) | (Inl e, db1) \<Rightarrow> (Inl e, db1))
      else (Inr (), db))"

section \<open>What a table row is found by\<close>

definition stk_key :: "stock_item \<Rightarrow> string \<times> sub_type option" where
  "stk_key m = (stk_wfm_url m, stk_sub_type m)"

definition wl_key :: "wish_item \<Rightarrow> string \<times> sub_type option" where
  "wl_key m = (wl_wfm_url m, wl_sub_type m)"

text \<open>The quantity held, or wanted, of an item and sub-type.\<close>

definition stock_owned :: "stock_db \<Rightarrow> string \<times> sub_type option \<Rightarrow> int" where
  "stock_owned db k = (case row_lookup stk_key (sd_items db) k of Some m \<Rightarrow> stk_owned m | None \<Rightarrow> 0)"

definition wish_wanted :: "stock_db \<Rightarrow> string \<times> sub_type option \<Rightarrow> int" where
  "wish_wanted db k = (case row_lookup wl_key (sd_wishes db) k of Some m \<Rightarrow> wl_quantity m | None \<Rightarrow> 0)"

definition stock_wf :: "stock_db \<Rightarrow> bool" where
  "stock_wf db \<longleftrightarrow> distinct (map stk_id (sd_items db)) \<and> distinct (map stk_key (sd_items db))
     \<and> (\<forall>m\<in>set (sd_items db). stk_id m < sd_next_item db \<and> 0 < stk_owned m)"

definition wish_wf :: "stock_db \<Rightarrow> bool" where
  "wish_wf db \<longleftrightarrow> distinct (map wl_id (sd_wishes db)) \<and> distinct (map wl_key (sd_wishes db)) \<and> 0 < sd_next_wish db
     \<and> (\<forall>m\<in>set (sd_wishes db). 0 < wl_id m \<and> wl_id m < sd_next_wish db \<and> 0 < wl_quantity m)"

lemma stock_find_key: "stock_find db url sub = row_lookup stk_key (sd_items db) (url, sub)"
  by (auto simp: stock_find_def stock_find_url_def row_lookup_def find_filter stk_key_def intro: find_cong_set)

lemma wish_find_key: "wish_find db url sub = row_lookup wl_key (sd_wishes db) (url, sub)"
  by (auto simp: wish_find_def row_lookup_def find_filter wl_key_def intro: find_cong_set)

lemma stock_sold_find:
  "stock_sold db url sub q now =
     (case row_lookup stk_key (sd_items db) (url, sub) of
        Some m \<Rightarrow> stock_sold_by_id db (stk_id m) q now | None \<Rightarrow> (Inr (''NotFound'', None), db))"
  using stock_find_key[of db url sub] by (simp add: stock_sold_def stock_find_def)

section \<open>Updates by id\<close>

lemma apply_stock_update_keeps [simp]:
  "stk_id (apply_stock_update u m) = stk_id m"
  "stk_wfm_url (apply_stock_update u m) = stk_wfm_url m"
  "stk_sub_type (apply_stock_update u m) =
     (case ustk_sub_type u of FcValue v \<Rightarrow> v | FcNull \<Rightarrow> None | FcIgnore \<Rightarrow> stk_sub_type m)"
  "stk_owned (apply_stock_update u m) = fc_set (ustk_owned u) (\<lambda>v _. v) (stk_owned m)"
  "stk_bought (apply_stock_update u m) = fc_set (ustk_bought u) (\<lambda>v _. v) (stk_bought m)"
  by (simp_all add: apply_stock_update_def Let_def fc_set_def fc_set_opt_def split: field_change.splits)

lemma apply_wish_update_keeps [simp]:
  "wl_id (apply_wish_update u m) = wl_id m"
  "wl_wfm_url (apply_wish_update u m) = wl_wfm_url m"
  "wl_sub_type (apply_wish_update u m) = wl_sub_type m"
  "wl_quantity (apply_wish_update u m) = fc_set (uwl_quantity u) (\<lambda>v _. v) (wl_quantity m)"
  by (simp_all add: apply_wish_update_def Let_def fc_set_def fc_set_opt_def split: field_change.splits)

text \<open>An update that keeps the row's key and a positive quantity.\<close>

definition stock_update_ok :: "stock_db \<Rightarrow> update_stock \<Rightarrow> bool" where
  "stock_update_ok db u \<longleftrightarrow>
     (\<forall>m\<in>set (sd_items db). stk_id m = ustk_id u \<longrightarrow>
        stk_key (apply_stock_update u m) = stk_key m \<and> 0 < stk_owned (apply_stock_update u m))"

definition wish_update_ok :: "stock_db \<Rightarrow> update_wish \<Rightarrow> bool" where
  "wish_update_ok db u \<longleftrightarrow>
     (\<forall>m\<in>set (sd_wishes db). wl_id m = uwl_id u \<longrightarrow> 0 < wl_quantity (apply_wish_update u m))"

lemma stock_update_by_id_spec:
  assumes wf: "stock_wf db" and ok: "stock_update_ok db u"
  shows "case stock_update_by_id db u now of
      (Inl e, db') \<Rightarrow> db' = db \<and> stock_find_id db (ustk_id u) = None
    | (Inr row, db') \<Rightarrow> stock_wf db' \<and> sd_wishes db' = sd_wishes db \<and> sd_next_wish db' = sd_next_wish db
        \<and> (\<exists>m. row_lookup stk_key (sd_items db) (stk_key m) = Some m \<and> stk_id m = ustk_id u
            \<and> row = (apply_stock_update u m)\<lparr>stk_updated_at := now\<rparr>
            \<and> row_lookup stk_key (sd_items db') = (row_lookup stk_key (sd_items db))(stk_key m := Some row))"
proof (cases "stock_find_id db (ustk_id u)")
  case None
  then show ?thesis by (simp add: stock_update_by_id_def)
next
  case (Some m)
  define row where "row = (apply_stock_update u m)\<lparr>stk_updated_at := now\<rparr>"
  define rows where "rows = sd_items db"
  have m: "m \<in> set rows" "stk_id m = ustk_id u"
    using row_lookup_Some[of stk_id rows "ustk_id u" m] Some by (auto simp: stock_find_id_def rows_def)
  have d: "distinct (map stk_id rows)" "distinct (map stk_key rows)" "\<forall>r\<in>set rows. stk_id r < sd_next_item db \<and> 0 < stk_owned r"
    using wf by (auto simp: stock_wf_def rows_def)
  have row: "stk_key row = stk_key m" "0 < stk_owned row" "stk_id row = stk_id m"
    using ok m unfolding stock_update_ok_def rows_def row_def by (auto simp: stk_key_def)
  have mod: "row_modify stk_id (ustk_id u) (\<lambda>_. row) rows = row_modify stk_key (stk_key m) (\<lambda>_. row) rows"
    using row_modify_other_key[OF d(1,2) m(1)] m(2) by simp
  have "map stk_id (row_modify stk_id (ustk_id u) (\<lambda>_. row) rows) = map stk_id rows"
    "map stk_key (row_modify stk_id (ustk_id u) (\<lambda>_. row) rows) = map stk_key rows"
    using row_modify_const_keys[OF d(1) m(1) row(3)] row_modify_const_keys[OF d(1) m(1) row(1)] m(2) by simp_all
  then have "stock_wf (db\<lparr>sd_items := row_modify stk_id (ustk_id u) (\<lambda>_. row) rows\<rparr>)"
    using d row m by (auto simp: stock_wf_def dest!: row_modify_set)
  moreover have "stock_update_by_id db u now = (Inr row, db\<lparr>sd_items := row_modify stk_id (ustk_id u) (\<lambda>_. row) rows\<rparr>)"
    using Some by (simp add: stock_update_by_id_def Let_def row_def rows_def)
  moreover have "row_lookup stk_key (row_modify stk_id (ustk_id u) (\<lambda>_. row) rows) = (row_lookup stk_key rows)(stk_key m := Some row)"
    using row_lookup_modify_const[of stk_key row, OF row(1)] row_lookup_in[OF d(2) m(1)] by (simp add: mod fun_eq_iff)
  ultimately show ?thesis
    using row_lookup_in[OF d(2) m(1)] m(2) by (auto simp: rows_def row_def)
qed

lemma wish_update_by_id_spec:
  assumes wf: "wish_wf db" and ok: "wish_update_ok db u"
  shows "case wish_update_by_id db u now of
      (Inl e, db') \<Rightarrow> db' = db \<and> wish_find_id db (uwl_id u) = None
    | (Inr row, db') \<Rightarrow> wish_wf db' \<and> sd_items db' = sd_items db \<and> sd_next_item db' = sd_next_item db
        \<and> (\<exists>m. row_lookup wl_key (sd_wishes db) (wl_key m) = Some m \<and> wl_id m = uwl_id u
            \<and> row = (apply_wish_update u m)\<lparr>wl_updated_at := now\<rparr>
            \<and> row_lookup wl_key (sd_wishes db') = (row_lookup wl_key (sd_wishes db))(wl_key m := Some row))"
proof (cases "wish_find_id db (uwl_id u)")
  case None
  then show ?thesis by (simp add: wish_update_by_id_def)
next
  case (Some m)
  define row where "row = (apply_wish_update u m)\<lparr>wl_updated_at := now\<rparr>"
  define rows where "rows = sd_wishes db"
  have m: "m \<in> set rows" "wl_id m = uwl_id u"
    using row_lookup_Some[of wl_id rows "uwl_id u" m] Some by (auto simp: wish_find_id_def rows_def)
  have d: "distinct (map wl_id rows)" "distinct (map wl_key rows)" "0 < sd_next_wish db"
    "\<forall>r\<in>set rows. 0 < wl_id r \<and> wl_id r < sd_next_wish db \<and> 0 < wl_quantity r"
    using wf by (auto simp: wish_wf_def rows_def)
  have row: "wl_key row = wl_key m" "0 < wl_quantity row" "wl_id row = wl_id m"
    using ok m unfolding wish_update_ok_def rows_def row_def by (auto simp: wl_key_def)
  have mod: "row_modify wl_id (uwl_id u) (\<lambda>_. row) rows = row_modify wl_key (wl_key m) (\<lambda>_. row) rows"
    using row_modify_other_key[OF d(1,2) m(1)] m(2) by simp
  have "map wl_id (row_modify wl_id (uwl_id u) (\<lambda>_. row) rows) = map wl_id rows"
    "map wl_key (row_modify wl_id (uwl_id u) (\<lambda>_. row) rows) = map wl_key rows"
    using row_modify_const_keys[OF d(1) m(1) row(3)] row_modify_const_keys[OF d(1) m(1) row(1)] m(2) by simp_all
  then have "wish_wf (db\<lparr>sd_wishes := row_modify wl_id (uwl_id u) (\<lambda>_. row) rows\<rparr>)"
    using d row m by (auto simp: wish_wf_def dest!: row_modify_set)
  moreover have "wish_update_by_id db u now = (Inr row, db\<lparr>sd_wishes := row_modify wl_id (uwl_id u) (\<lambda>_. row) rows\<rparr>)"
    using Some by (simp add: wish_update_by_id_def Let_def row_def rows_def)
  moreover have "row_lookup wl_key (row_modify wl_id (uwl_id u) (\<lambda>_. row) rows) = (row_lookup wl_key rows)(wl_key m := Some row)"
    using row_lookup_modify_const[of wl_key row, OF row(1)] row_lookup_in[OF d(2) m(1)] by (simp add: mod fun_eq_iff)
  ultimately show ?thesis
    using row_lookup_in[OF d(2) m(1)] m(2) by (auto simp: rows_def row_def)
qed

section \<open>Deletes and inserts\<close>

lemma stock_delete_by_id_spec:
  assumes wf: "stock_wf db"
  shows "case stock_delete_by_id db i of
      (Inl e, db') \<Rightarrow> db' = db \<and> stock_find_id db i = None
    | (Inr _, db') \<Rightarrow> stock_wf db' \<and> sd_wishes db' = sd_wishes db \<and> sd_next_wish db' = sd_next_wish db
        \<and> (\<exists>m. row_lookup stk_key (sd_items db) (stk_key m) = Some m \<and> stk_id m = i
            \<and> row_lookup stk_key (sd_items db') = (row_lookup stk_key (sd_items db))(stk_key m := None))"
proof (cases "stock_find_id db i")
  case None
  then show ?thesis by (simp add: stock_delete_by_id_def)
next
  case (Some m)
  have m: "m \<in> set (sd_items db)" "stk_id m = i"
    using row_lookup_Some[of stk_id "sd_items db" i m] Some by (auto simp: stock_find_id_def)
  have d: "distinct (map stk_id (sd_items db))" "distinct (map stk_key (sd_items db))"
    using wf by (auto simp: stock_wf_def)
  have "row_delete stk_id i (sd_items db) = row_delete stk_key (stk_key m) (sd_items db)"
    using row_delete_other_key[OF d m(1)] m(2) by simp
  then have "row_lookup stk_key (row_delete stk_id i (sd_items db)) = (row_lookup stk_key (sd_items db))(stk_key m := None)"
    by (simp add: row_lookup_delete fun_eq_iff)
  moreover have "stock_wf (db\<lparr>sd_items := row_delete stk_id i (sd_items db)\<rparr>)"
    using wf by (auto simp: stock_wf_def row_delete_def distinct_map_filter)
  ultimately show ?thesis
    using Some m row_lookup_in[OF d(2) m(1)] by (auto simp: stock_delete_by_id_def)
qed

lemma wish_delete_by_id_spec:
  assumes wf: "wish_wf db"
  shows "case wish_delete_by_id db i of
      (Inl e, db') \<Rightarrow> db' = db \<and> wish_find_id db i = None
    | (Inr _, db') \<Rightarrow> wish_wf db' \<and> sd_items db' = sd_items db \<and> sd_next_item db' = sd_next_item db
        \<and> (\<exists>m. row_lookup wl_key (sd_wishes db) (wl_key m) = Some m \<and> wl_id m = i
            \<and> row_lookup wl_key (sd_wishes db') = (row_lookup wl_key (sd_wishes db))(wl_key m := None))"
proof (cases "wish_find_id db i")
  case None
  then show ?thesis by (simp add: wish_delete_by_id_def)
next
  case (Some m)
  have m: "m \<in> set (sd_wishes db)" "wl_id m = i"
    using row_lookup_Some[of wl_id "sd_wishes db" i m] Some by (auto simp: wish_find_id_def)
  have d: "distinct (map wl_id (sd_wishes db))" "distinct (map wl_key (sd_wishes db))"
    using wf by (auto simp: wish_wf_def)
  have "row_delete wl_id i (sd_wishes db) = row_delete wl_key (wl_key m) (sd_wishes db)"
    using row_delete_other_key[OF d m(1)] m(2) by simp
  then have "row_lookup wl_key (row_delete wl_id i (sd_wishes db)) = (row_lookup wl_key (sd_wishes db))(wl_key m := None)"
    by (simp add: row_lookup_delete fun_eq_iff)
  moreover have "wish_wf (db\<lparr>sd_wishes := row_delete wl_id i (sd_wishes db)\<rparr>)"
    using wf by (auto simp: wish_wf_def row_delete_def distinct_map_filter)
  ultimately show ?thesis
    using Some m row_lookup_in[OF d(2) m(1)] by (auto simp: wish_delete_by_id_def)
qed

lemma row_lookup_snoc:
  "row_lookup key rows (key r) = None \<Longrightarrow>
   row_lookup key (rows @ [r]) = (row_lookup key rows)(key r := Some r)"
  by (auto simp: row_lookup_def find_append fun_eq_iff split: option.splits)

lemma stock_create_spec:
  assumes wf: "stock_wf db" and new: "row_lookup stk_key (sd_items db) (stk_key m) = None" and pos: "0 < stk_owned m"
    and c: "stock_create db m now = (row, db')"
  shows "stock_wf db' \<and> sd_wishes db' = sd_wishes db \<and> sd_next_wish db' = sd_next_wish db
    \<and> stk_owned row = stk_owned m \<and> stk_bought row = stk_bought m
    \<and> row_lookup stk_key (sd_items db') = (row_lookup stk_key (sd_items db))(stk_key m := Some row)"
proof -
  have row: "stk_key row = stk_key m" "stk_id row = sd_next_item db" "stk_owned row = stk_owned m" "stk_bought row = stk_bought m"
    and db': "db' = db\<lparr>sd_items := sd_items db @ [row], sd_next_item := sd_next_item db + 1\<rparr>"
    using c by (auto simp: stock_create_def Let_def stk_key_def)
  have "stk_key m \<notin> stk_key ` set (sd_items db)" using new by (simp add: row_lookup_None)
  moreover have "sd_next_item db \<notin> stk_id ` set (sd_items db)" using wf by (auto simp: stock_wf_def)
  ultimately have "stock_wf db'" using wf pos row by (auto simp: stock_wf_def db')
  then show ?thesis using row_lookup_snoc[of stk_key "sd_items db" row] new row by (simp add: db')
qed

lemma wish_create_spec:
  assumes wf: "wish_wf db" and new: "row_lookup wl_key (sd_wishes db) (wl_key m) = None" and pos: "0 < wl_quantity m"
    and c: "wish_create db m now = (row, db')"
  shows "wish_wf db' \<and> sd_items db' = sd_items db \<and> sd_next_item db' = sd_next_item db \<and> wl_quantity row = wl_quantity m
    \<and> row_lookup wl_key (sd_wishes db') = (row_lookup wl_key (sd_wishes db))(wl_key m := Some row)"
proof -
  have row: "wl_key row = wl_key m" "wl_id row = sd_next_wish db" "wl_quantity row = wl_quantity m"
    and db': "db' = db\<lparr>sd_wishes := sd_wishes db @ [row], sd_next_wish := sd_next_wish db + 1\<rparr>"
    using c by (auto simp: wish_create_def Let_def wl_key_def)
  have "wl_key m \<notin> wl_key ` set (sd_wishes db)" using new by (simp add: row_lookup_None)
  moreover have "sd_next_wish db \<notin> wl_id ` set (sd_wishes db)" using wf by (auto simp: wish_wf_def)
  ultimately have "wish_wf db'" using wf pos row by (auto simp: wish_wf_def db')
  then show ?thesis using row_lookup_snoc[of wl_key "sd_wishes db" row] new row by (simp add: db')
qed

section \<open>Buying and selling stock\<close>

definition sold_quantity :: "int \<Rightarrow> int" where
  "sold_quantity q = (if q = 0 then 1 else q)"

lemma stock_owned_upd:
  "row_lookup stk_key (sd_items db') = (row_lookup stk_key (sd_items db))(k0 := x) \<Longrightarrow>
   stock_owned db' = (stock_owned db)(k0 := (case x of Some m \<Rightarrow> stk_owned m | None \<Rightarrow> 0))"
  by (simp add: stock_owned_def fun_eq_iff)

lemma wish_wanted_upd:
  "row_lookup wl_key (sd_wishes db') = (row_lookup wl_key (sd_wishes db))(k0 := x) \<Longrightarrow>
   wish_wanted db' = (wish_wanted db)(k0 := (case x of Some m \<Rightarrow> wl_quantity m | None \<Rightarrow> 0))"
  by (simp add: wish_wanted_def fun_eq_iff)

text \<open>What a purchase of \<open>n\<close> pieces for \<open>c\<close> platinum in all makes of a row.\<close>

definition bought_after :: "stock_item option \<Rightarrow> int \<Rightarrow> int \<Rightarrow> int" where
  "bought_after old n c =
     (case old of
        None \<Rightarrow> if 1 < n then c sdiv n else c
      | Some m \<Rightarrow> if 0 < c then (stk_bought m * stk_owned m + c) sdiv (stk_owned m + n) else stk_bought m)"

lemma stock_add_spec:
  assumes wf: "stock_wf db" and pos: "0 < stk_owned stock"
  shows "\<exists>tag row db'. stock_add_item db stock now = (Inr (tag, row), db') \<and> stock_wf db'
    \<and> sd_wishes db' = sd_wishes db \<and> sd_next_wish db' = sd_next_wish db
    \<and> tag = (if row_lookup stk_key (sd_items db) (stk_key stock) = None then ''Created'' else ''Updated'')
    \<and> row_lookup stk_key (sd_items db') (stk_key stock) = Some row
    \<and> stk_bought row = bought_after (row_lookup stk_key (sd_items db) (stk_key stock)) (stk_owned stock) (stk_bought stock)
    \<and> stock_owned db' = (stock_owned db)(stk_key stock := stock_owned db (stk_key stock) + stk_owned stock)"
proof (cases "row_lookup stk_key (sd_items db) (stk_key stock)")
  case None
  define s1 where "s1 = (if 1 < stk_owned stock then stock\<lparr>stk_bought := stk_bought stock sdiv stk_owned stock\<rparr> else stock)"
  have s1: "stk_key s1 = stk_key stock" "stk_owned s1 = stk_owned stock" "stk_bought s1 = bought_after None (stk_owned stock) (stk_bought stock)"
    by (simp_all add: s1_def stk_key_def bought_after_def)
  obtain row db' where c: "stock_create db s1 now = (row, db')" by fastforce
  have "stock_add_item db stock now = (Inr (''Created'', row), db')"
    using None c by (simp add: stock_add_item_def stock_find_key stk_key_def s1_def)
  moreover have created: "stock_wf db' \<and> sd_wishes db' = sd_wishes db \<and> sd_next_wish db' = sd_next_wish db
      \<and> stk_owned row = stk_owned stock \<and> stk_bought row = bought_after None (stk_owned stock) (stk_bought stock)
      \<and> row_lookup stk_key (sd_items db') = (row_lookup stk_key (sd_items db))(stk_key stock := Some row)"
    using stock_create_spec[OF wf _ _ c] s1 None pos by simp
  moreover have "stock_owned db' = (stock_owned db)(stk_key stock := stock_owned db (stk_key stock) + stk_owned stock)"
    using created None stock_owned_upd[of db' db "stk_key stock" "Some row"] by (simp add: stock_owned_def)
  ultimately show ?thesis using None by simp
next
  case (Some m)
  define b where "b = bought_after (Some m) (stk_owned stock) (stk_bought stock)"
  define u where "u = (update_stock_new (stk_id m))\<lparr>ustk_bought := FcValue b, ustk_owned := FcValue (stk_owned m + stk_owned stock)\<rparr>"
  have m: "m \<in> set (sd_items db)" "stk_key m = stk_key stock" "0 < stk_owned m"
    using row_lookup_Some[OF Some] wf by (auto simp: stock_wf_def)
  have u: "ustk_id u = stk_id m" "ustk_sub_type u = FcIgnore" by (simp_all add: u_def update_stock_new_def)
  have ok: "stock_update_ok db u"
    using m pos by (auto simp: stock_update_ok_def stk_key_def u_def update_stock_new_def)
  have add: "stock_add_item db stock now =
      (case stock_update_by_id db u now of (Inr row, db1) \<Rightarrow> (Inr (''Updated'', row), db1) | (Inl e, db1) \<Rightarrow> (Inl e, db1))"
    using Some m(3) pos
    by (auto simp: stock_add_item_def stock_find_key stk_key_def Let_def checked_div_def u_def b_def bought_after_def)
  have "stock_find_id db (ustk_id u) = Some m"
    using row_lookup_in[of stk_id "sd_items db" m] m(1) wf u by (simp add: stock_find_id_def stock_wf_def)
  then obtain row db' where up: "stock_update_by_id db u now = (Inr row, db')"
    by (auto simp: stock_update_by_id_def Let_def)
  obtain m' where spec: "stock_wf db'" "sd_wishes db' = sd_wishes db" "sd_next_wish db' = sd_next_wish db"
      "row_lookup stk_key (sd_items db) (stk_key m') = Some m'" "stk_id m' = ustk_id u"
      "row = (apply_stock_update u m')\<lparr>stk_updated_at := now\<rparr>"
      "row_lookup stk_key (sd_items db') = (row_lookup stk_key (sd_items db))(stk_key m' := Some row)"
    using stock_update_by_id_spec[OF wf ok, of now] up by auto
  have "m' = m"
    using row_lookup_Some[OF spec(4)] m(1) spec(5) u(1) wf by (auto simp: stock_wf_def distinct_map dest: inj_onD)
  then have look: "row_lookup stk_key (sd_items db') = (row_lookup stk_key (sd_items db))(stk_key stock := Some row)"
    and row: "stk_owned row = stk_owned m + stk_owned stock" "stk_bought row = b"
    using spec(6,7) m(2) by (simp_all add: u_def update_stock_new_def)
  have "stock_owned db (stk_key stock) = stk_owned m" using Some by (simp add: stock_owned_def)
  then show ?thesis
    using spec(1-3) look row Some stock_owned_upd[OF look] by (simp add: add up b_def)
qed

lemma stock_sold_spec:
  assumes wf: "stock_wf db"
  shows "\<exists>tag old db'. stock_sold db url sub q now = (Inr (tag, old), db') \<and> stock_wf db'
    \<and> sd_wishes db' = sd_wishes db \<and> sd_next_wish db' = sd_next_wish db
    \<and> old = row_lookup stk_key (sd_items db) (url, sub)
    \<and> tag = (if old = None then ''NotFound'' else if stock_owned db (url, sub) \<le> sold_quantity q then ''Deleted'' else ''Updated'')
    \<and> stock_owned db' = (if old = None then stock_owned db
         else (stock_owned db)((url, sub) := max 0 (stock_owned db (url, sub) - sold_quantity q)))"
proof (cases "row_lookup stk_key (sd_items db) (url, sub)")
  case None
  then show ?thesis using wf by (auto simp: stock_sold_find)
next
  case (Some m)
  have m: "m \<in> set (sd_items db)" "stk_key m = (url, sub)" "0 < stk_owned m"
    using row_lookup_Some[OF Some] wf by (auto simp: stock_wf_def)
  have id: "stock_find_id db (stk_id m) = Some m"
    using row_lookup_in[of stk_id "sd_items db" m] m(1) wf by (simp add: stock_find_id_def stock_wf_def)
  have owned: "stock_owned db (url, sub) = stk_owned m" using Some by (simp add: stock_owned_def)
  have same: "m' = m" if "row_lookup stk_key (sd_items db) (stk_key m') = Some m'" "stk_id m' = stk_id m" for m'
    using row_lookup_Some[OF that(1)] that(2) m(1) wf by (auto simp: stock_wf_def distinct_map dest: inj_onD)
  show ?thesis
  proof (cases "stk_owned m \<le> sold_quantity q")
    case True
    obtain db' where del: "stock_delete_by_id db (stk_id m) = (Inr (), db')"
      using id by (simp add: stock_delete_by_id_def)
    have res: "stock_sold db url sub q now = (Inr (''Deleted'', Some m), db')"
      using True Some id del by (auto simp: stock_sold_find stock_sold_by_id_def Let_def sold_quantity_def)
    have "stock_wf db' \<and> sd_wishes db' = sd_wishes db \<and> sd_next_wish db' = sd_next_wish db
        \<and> row_lookup stk_key (sd_items db') = (row_lookup stk_key (sd_items db))(stk_key m := None)"
      using stock_delete_by_id_spec[OF wf, of "stk_id m"] del same by auto
    then show ?thesis
      using True Some owned m stock_owned_upd[of db' db "(url, sub)" None] by (simp add: res)
  next
    case False
    define u where "u = (update_stock_new (stk_id m))\<lparr>ustk_owned := FcValue (stk_owned m - sold_quantity q)\<rparr>"
    have ok: "stock_update_ok db u"
      using False wf m(1) by (auto simp: stock_update_ok_def stk_key_def u_def update_stock_new_def)
    have uid: "ustk_id u = stk_id m" by (simp add: u_def update_stock_new_def)
    obtain row db' where up: "stock_update_by_id db u now = (Inr row, db')"
      using id uid by (auto simp: stock_update_by_id_def Let_def)
    have res: "stock_sold db url sub q now = (Inr (''Updated'', Some m), db')"
      using False Some id up by (auto simp: stock_sold_find stock_sold_by_id_def Let_def sold_quantity_def u_def split: if_splits)
    have "stock_wf db' \<and> sd_wishes db' = sd_wishes db \<and> sd_next_wish db' = sd_next_wish db
        \<and> row = (apply_stock_update u m)\<lparr>stk_updated_at := now\<rparr>
        \<and> row_lookup stk_key (sd_items db') = (row_lookup stk_key (sd_items db))(stk_key m := Some row)"
      using stock_update_by_id_spec[OF wf ok, of now] up same uid by auto
    then show ?thesis
      using False Some owned m stock_owned_upd[of db' db "(url, sub)" "Some row"]
      by (simp add: res u_def update_stock_new_def)
  qed
qed

section \<open>The wish list\<close>

lemma wish_add_spec:
  assumes wf: "wish_wf db" and pos: "0 < wl_quantity item"
  shows "\<exists>tag row db'. wish_add_item db item now = (Inr (tag, row), db') \<and> wish_wf db'
    \<and> sd_items db' = sd_items db \<and> sd_next_item db' = sd_next_item db
    \<and> wish_wanted db' = (wish_wanted db)(wl_key item := wish_wanted db (wl_key item) + wl_quantity item)"
proof (cases "row_lookup wl_key (sd_wishes db) (wl_key item)")
  case None
  obtain row db' where c: "wish_create db item now = (row, db')" by fastforce
  have "wish_add_item db item now = (Inr (''Created'', row), db')"
    using None c by (simp add: wish_add_item_def wish_find_key wl_key_def)
  moreover have created: "wish_wf db' \<and> sd_items db' = sd_items db \<and> sd_next_item db' = sd_next_item db
      \<and> wl_quantity row = wl_quantity item
      \<and> row_lookup wl_key (sd_wishes db') = (row_lookup wl_key (sd_wishes db))(wl_key item := Some row)"
    using wish_create_spec[OF wf None pos c] by simp
  moreover have "wish_wanted db' = (wish_wanted db)(wl_key item := wish_wanted db (wl_key item) + wl_quantity item)"
    using created None wish_wanted_upd[of db' db "wl_key item" "Some row"] by (simp add: wish_wanted_def)
  ultimately show ?thesis by simp
next
  case (Some m)
  define u where "u = (update_wish_new (wl_id m))\<lparr>uwl_quantity := FcValue (wl_quantity m + wl_quantity item)\<rparr>"
  have m: "m \<in> set (sd_wishes db)" "wl_key m = wl_key item" "0 < wl_quantity m"
    using row_lookup_Some[OF Some] wf by (auto simp: wish_wf_def)
  have ok: "wish_update_ok db u"
    using m pos by (simp add: wish_update_ok_def u_def update_wish_new_def)
  have uid: "uwl_id u = wl_id m" by (simp add: u_def update_wish_new_def)
  have "wish_find_id db (uwl_id u) = Some m"
    using row_lookup_in[of wl_id "sd_wishes db" m] m(1) wf uid by (simp add: wish_find_id_def wish_wf_def)
  then obtain row db' where up: "wish_update_by_id db u now = (Inr row, db')"
    by (auto simp: wish_update_by_id_def Let_def)
  obtain m' where spec: "wish_wf db'" "sd_items db' = sd_items db" "sd_next_item db' = sd_next_item db"
      "row_lookup wl_key (sd_wishes db) (wl_key m') = Some m'" "wl_id m' = uwl_id u"
      "row = (apply_wish_update u m')\<lparr>wl_updated_at := now\<rparr>"
      "row_lookup wl_key (sd_wishes db') = (row_lookup wl_key (sd_wishes db))(wl_key m' := Some row)"
    using wish_update_by_id_spec[OF wf ok, of now] up by auto
  have "m' = m"
    using row_lookup_Some[OF spec(4)] m(1) spec(5) uid wf by (auto simp: wish_wf_def distinct_map dest: inj_onD)
  then have look: "row_lookup wl_key (sd_wishes db') = (row_lookup wl_key (sd_wishes db))(wl_key item := Some row)"
    and row: "wl_quantity row = wl_quantity m + wl_quantity item"
    using spec(6,7) m(2) by (simp_all add: u_def update_wish_new_def)
  have "wish_wanted db (wl_key item) = wl_quantity m" using Some by (simp add: wish_wanted_def)
  moreover have "wish_add_item db item now = (Inr (''Updated'', row), db')"
    using Some up by (simp add: wish_add_item_def wish_find_key wl_key_def u_def)
  ultimately show ?thesis using spec(1-3) row wish_wanted_upd[OF look] by simp
qed

lemma wish_bought_spec:
  assumes wf: "wish_wf db"
  shows "\<exists>tag row db'. wish_bought db url sub q now = (Inr (tag, row), db') \<and> wish_wf db'
    \<and> sd_items db' = sd_items db \<and> sd_next_item db' = sd_next_item db
    \<and> tag = (if row_lookup wl_key (sd_wishes db) (url, sub) = None then ''NotFound''
             else if wish_wanted db (url, sub) \<le> sold_quantity q then ''Deleted'' else ''Updated'')
    \<and> wish_wanted db' = (if row_lookup wl_key (sd_wishes db) (url, sub) = None then wish_wanted db
         else (wish_wanted db)((url, sub) := max 0 (wish_wanted db (url, sub) - sold_quantity q)))"
proof (cases "row_lookup wl_key (sd_wishes db) (url, sub)")
  case None
  have "wish_find_id db (-1) = None"
    using wf by (force simp: wish_find_id_def row_lookup_None wish_wf_def)
  with None wf show ?thesis by (simp add: wish_bought_def wish_bought_by_id_def wish_find_key)
next
  case (Some m)
  have m: "m \<in> set (sd_wishes db)" "wl_key m = (url, sub)" "0 < wl_quantity m"
    using row_lookup_Some[OF Some] wf by (auto simp: wish_wf_def)
  have id: "wish_find_id db (wl_id m) = Some m"
    using row_lookup_in[of wl_id "sd_wishes db" m] m(1) wf by (simp add: wish_find_id_def wish_wf_def)
  have wanted: "wish_wanted db (url, sub) = wl_quantity m" using Some by (simp add: wish_wanted_def)
  have same: "m' = m" if "row_lookup wl_key (sd_wishes db) (wl_key m') = Some m'" "wl_id m' = wl_id m" for m'
    using row_lookup_Some[OF that(1)] that(2) m(1) wf by (auto simp: wish_wf_def distinct_map dest: inj_onD)
  show ?thesis
  proof (cases "wl_quantity m \<le> sold_quantity q")
    case True
    obtain db' where del: "wish_delete_by_id db (wl_id m) = (Inr (), db')"
      using id by (simp add: wish_delete_by_id_def)
    have res: "wish_bought db url sub q now = (Inr (''Deleted'', Some (m\<lparr>wl_quantity := wl_quantity m - sold_quantity q\<rparr>)), db')"
      using True Some id del by (auto simp: wish_bought_def wish_bought_by_id_def wish_find_key Let_def sold_quantity_def)
    have "wish_wf db' \<and> sd_items db' = sd_items db \<and> sd_next_item db' = sd_next_item db
        \<and> row_lookup wl_key (sd_wishes db') = (row_lookup wl_key (sd_wishes db))(wl_key m := None)"
      using wish_delete_by_id_spec[OF wf, of "wl_id m"] del same by auto
    then show ?thesis
      using True Some wanted m wish_wanted_upd[of db' db "(url, sub)" None] by (simp add: res)
  next
    case False
    define u where "u = (update_wish_new (wl_id m))\<lparr>uwl_quantity := FcValue (wl_quantity m - sold_quantity q)\<rparr>"
    have ok: "wish_update_ok db u"
      using False by (simp add: wish_update_ok_def u_def update_wish_new_def)
    have uid: "uwl_id u = wl_id m" by (simp add: u_def update_wish_new_def)
    obtain row db' where up: "wish_update_by_id db u now = (Inr row, db')"
      using id uid by (auto simp: wish_update_by_id_def Let_def)
    have res: "wish_bought db url sub q now = (Inr (''Updated'', Some (m\<lparr>wl_quantity := wl_quantity m - sold_quantity q\<rparr>)), db')"
      using False Some id up
      by (auto simp: wish_bought_def wish_bought_by_id_def wish_find_key Let_def sold_quantity_def u_def split: if_splits)
    have "wish_wf db' \<and> sd_items db' = sd_items db \<and> sd_next_item db' = sd_next_item db
        \<and> row = (apply_wish_update u m)\<lparr>wl_updated_at := now\<rparr>
        \<and> row_lookup wl_key (sd_wishes db') = (row_lookup wl_key (sd_wishes db))(wl_key m := Some row)"
      using wish_update_by_id_spec[OF wf ok, of now] up same uid by auto
    then show ?thesis
      using False Some wanted m wish_wanted_upd[of db' db "(url, sub)" "Some row"]
      by (simp add: res u_def update_wish_new_def)
  qed
qed

section \<open>Any history of the tables\<close>

datatype stock_event =
    SkAdd stock_item utc
  | SkSold string "sub_type option" int utc
  | SkUpdate update_stock utc
  | SkDelete int
  | SkUpdateAll stock_status "int option"
  | SkFinalize stock_item utc
  | SkWishAdd wish_item utc
  | SkWishBought string "sub_type option" int utc
  | SkWishUpdate update_wish utc
  | SkWishDelete int
  | SkWishFinalize wish_item utc

fun stock_step :: "stock_db \<Rightarrow> stock_event \<Rightarrow> stock_db" where
  "stock_step db (SkAdd m now) = snd (stock_add_item db m now)"
| "stock_step db (SkSold url sub q now) = snd (stock_sold db url sub q now)"
| "stock_step db (SkUpdate u now) = snd (stock_update_by_id db u now)"
| "stock_step db (SkDelete i) = snd (stock_delete_by_id db i)"
| "stock_step db (SkUpdateAll st p) = snd (stock_update_all db st p)"
| "stock_step db (SkFinalize m now) = snd (finalize_stock_item db m now)"
| "stock_step db (SkWishAdd m now) = snd (wish_add_item db m now)"
| "stock_step db (SkWishBought url sub q now) = snd (wish_bought db url sub q now)"
| "stock_step db (SkWishUpdate u now) = snd (wish_update_by_id db u now)"
| "stock_step db (SkWishDelete i) = snd (wish_delete_by_id db i)"
| "stock_step db (SkWishFinalize m now) = snd (finalize_wishlist_item db m now)"

fun stock_enabled :: "stock_db \<Rightarrow> stock_event \<Rightarrow> bool" where
  "stock_enabled db (SkAdd m now) \<longleftrightarrow> 0 < stk_owned m"
| "stock_enabled db (SkUpdate u now) \<longleftrightarrow> stock_update_ok db u"
| "stock_enabled db (SkFinalize m now) \<longleftrightarrow> stock_update_ok db (stock_to_update m)"
| "stock_enabled db (SkWishAdd m now) \<longleftrightarrow> 0 < wl_quantity m"
| "stock_enabled db (SkWishUpdate u now) \<longleftrightarrow> wish_update_ok db u"
| "stock_enabled db (SkWishFinalize m now) \<longleftrightarrow> wish_update_ok db (wish_to_update m)"
| "stock_enabled db _ \<longleftrightarrow> True"

definition stock_inv :: "stock_db \<Rightarrow> bool" where
  "stock_inv db \<longleftrightarrow> stock_wf db \<and> wish_wf db"

lemma stock_wf_frame: "sd_items db' = sd_items db \<Longrightarrow> sd_next_item db' = sd_next_item db \<Longrightarrow> stock_wf db' = stock_wf db"
  by (simp add: stock_wf_def)

lemma wish_wf_frame: "sd_wishes db' = sd_wishes db \<Longrightarrow> sd_next_wish db' = sd_next_wish db \<Longrightarrow> wish_wf db' = wish_wf db"
  by (simp add: wish_wf_def)

lemma stock_update_inv:
  "stock_inv db \<Longrightarrow> stock_update_ok db u \<Longrightarrow> stock_inv (snd (stock_update_by_id db u now))"
  using stock_update_by_id_spec[of db u now] wish_wf_frame[of "snd (stock_update_by_id db u now)" db]
  by (auto simp: stock_inv_def split: prod.splits sum.splits)

lemma wish_update_inv:
  "stock_inv db \<Longrightarrow> wish_update_ok db u \<Longrightarrow> stock_inv (snd (wish_update_by_id db u now))"
  using wish_update_by_id_spec[of db u now] stock_wf_frame[of "snd (wish_update_by_id db u now)" db]
  by (auto simp: stock_inv_def split: prod.splits sum.splits)

lemma stock_step_inv: "stock_inv db \<Longrightarrow> stock_enabled db e \<Longrightarrow> stock_inv (stock_step db e)"
proof (cases e)
  case (SkAdd m now)
  assume "stock_inv db" "stock_enabled db e"
  with SkAdd show ?thesis
    using stock_add_spec[of db m now] wish_wf_frame[of "stock_step db e" db] by (auto simp: stock_inv_def)
next
  case (SkSold url sub q now)
  assume "stock_inv db" "stock_enabled db e"
  with SkSold show ?thesis
    using stock_sold_spec[of db url sub q now] wish_wf_frame[of "stock_step db e" db] by (auto simp: stock_inv_def)
next
  case (SkUpdate u now)
  assume "stock_inv db" "stock_enabled db e"
  with SkUpdate show ?thesis by (simp add: stock_update_inv)
next
  case (SkDelete i)
  assume "stock_inv db" "stock_enabled db e"
  with SkDelete show ?thesis
    using stock_delete_by_id_spec[of db i] wish_wf_frame[of "stock_step db e" db]
    by (auto simp: stock_inv_def split: prod.splits sum.splits)
next
  case (SkUpdateAll st p)
  assume "stock_inv db" "stock_enabled db e"
  moreover have "stk_key (m\<lparr>stk_status := st, stk_list_price := p\<rparr>) = stk_key m" for m
    by (simp add: stk_key_def)
  ultimately show ?thesis
    using SkUpdateAll wish_wf_frame[of "stock_step db e" db]
    by (auto simp: stock_inv_def stock_wf_def stock_update_all_def Let_def comp_def)
next
  case (SkFinalize m now)
  assume "stock_inv db" "stock_enabled db e"
  with SkFinalize show ?thesis
    using stock_update_inv[of db "stock_to_update m" now]
    by (auto simp: finalize_stock_item_def split: prod.splits sum.splits)
next
  case (SkWishAdd m now)
  assume "stock_inv db" "stock_enabled db e"
  with SkWishAdd show ?thesis
    using wish_add_spec[of db m now] stock_wf_frame[of "stock_step db e" db] by (auto simp: stock_inv_def)
next
  case (SkWishBought url sub q now)
  assume "stock_inv db" "stock_enabled db e"
  with SkWishBought show ?thesis
    using wish_bought_spec[of db url sub q now] stock_wf_frame[of "stock_step db e" db] by (auto simp: stock_inv_def)
next
  case (SkWishUpdate u now)
  assume "stock_inv db" "stock_enabled db e"
  with SkWishUpdate show ?thesis by (simp add: wish_update_inv)
next
  case (SkWishDelete i)
  assume "stock_inv db" "stock_enabled db e"
  with SkWishDelete show ?thesis
    using wish_delete_by_id_spec[of db i] stock_wf_frame[of "stock_step db e" db]
    by (auto simp: stock_inv_def split: prod.splits sum.splits)
next
  case (SkWishFinalize m now)
  assume "stock_inv db" "stock_enabled db e"
  with SkWishFinalize show ?thesis
    using wish_update_inv[of db "wish_to_update m" now]
    by (auto simp: finalize_wishlist_item_def split: prod.splits sum.splits)
qed

interpretation stock_machine: guarded_machine stock_step stock_enabled stock_inv
  by unfold_locales (rule stock_step_inv)

lemma stock_inv_empty: "stock_inv empty_stock"
  by (simp add: stock_inv_def stock_wf_def wish_wf_def empty_stock_def)

section \<open>Properties\<close>

text \<open>
  Buying adds up: after a purchase of some pieces for a total price the row of that item and
  sub-type, and no other, holds that many more; its unit price is the average cost rounded down
  (of the purchase for a new row, of old and new pieces together for an existing one), so its
  book value never exceeds what was paid and misses it by less than one platinum a piece; free
  pieces leave the unit price alone.
\<close>

theorem purchase_averages_the_cost:
  assumes "stock_wf db" "0 < stk_owned stock" "0 \<le> stk_bought stock" "0 \<le> old_price"
    and old: "old_price = (case row_lookup stk_key (sd_items db) (stk_key stock) of Some m \<Rightarrow> stk_bought m | None \<Rightarrow> 0)"
  shows "\<exists>tag row db'. stock_add_item db stock now = (Inr (tag, row), db') \<and> stock_wf db'
    \<and> row_lookup stk_key (sd_items db') (stk_key stock) = Some row
    \<and> stock_owned db' = (stock_owned db)(stk_key stock := stock_owned db (stk_key stock) + stk_owned stock)
    \<and> (if stk_bought stock = 0 then stk_bought row = old_price
       else stk_bought row * stk_owned row \<le> old_price * stock_owned db (stk_key stock) + stk_bought stock
          \<and> old_price * stock_owned db (stk_key stock) + stk_bought stock < (stk_bought row + 1) * stk_owned row)"
proof -
  have avg: "(a sdiv n) * n \<le> a \<and> a < (a sdiv n + 1) * n" if "0 \<le> a" "0 < n" for a n :: int
  proof -
    have "(a sdiv n) * n = a - a mod n"
      using that by (cases "a = 0") (simp_all add: signed_divide_int_eq_divide_int minus_mod_eq_div_mult)
    moreover have "(a sdiv n + 1) * n = (a sdiv n) * n + n" by (simp add: distrib_right)
    ultimately show ?thesis using pos_mod_bound[OF that(2), of a] pos_mod_sign[OF that(2), of a] by linarith
  qed
  define lk where "lk = row_lookup stk_key (sd_items db) (stk_key stock)"
  obtain tag row db' where add: "stock_add_item db stock now = (Inr (tag, row), db')" "stock_wf db'"
      "row_lookup stk_key (sd_items db') (stk_key stock) = Some row"
      "stk_bought row = bought_after lk (stk_owned stock) (stk_bought stock)"
      "stock_owned db' = (stock_owned db)(stk_key stock := stock_owned db (stk_key stock) + stk_owned stock)"
    using stock_add_spec[OF assms(1,2), of now] by (auto simp: lk_def)
  have owned: "stk_owned row = stock_owned db (stk_key stock) + stk_owned stock"
    using fun_cong[OF add(5), of "stk_key stock"] add(3) by (simp add: stock_owned_def)
  have "if stk_bought stock = 0 then stk_bought row = old_price
       else stk_bought row * stk_owned row \<le> old_price * stock_owned db (stk_key stock) + stk_bought stock
          \<and> old_price * stock_owned db (stk_key stock) + stk_bought stock < (stk_bought row + 1) * stk_owned row"
  proof (cases lk)
    case None
    then show ?thesis
      using add(4) owned old assms(2,3) avg[of "stk_bought stock" "stk_owned stock"]
      by (cases "stk_owned stock = 1") (auto simp: bought_after_def lk_def stock_owned_def)
  next
    case (Some m)
    then have "m \<in> set (sd_items db)" using row_lookup_Some[of stk_key "sd_items db" "stk_key stock" m] by (simp add: lk_def)
    then have "0 < stk_owned m" using assms(1) by (simp add: stock_wf_def)
    with Some show ?thesis
      using add(4) owned old assms(2,3,4) avg[of "stk_bought m * stk_owned m + stk_bought stock" "stk_owned m + stk_owned stock"]
      by (auto simp: bought_after_def lk_def stock_owned_def)
  qed
  then show ?thesis using add by blast
qed

definition demo_stock :: "int \<Rightarrow> int \<Rightarrow> stock_item" where
  "demo_stock n c = stock_item_new ''id'' ''url'' ''name'' ''unique'' None c n False None"

lemmas demo_stock_defs = demo_stock_def stock_item_new_def empty_stock_def stock_add_item_def stock_find_key stk_key_def
  row_lookup_def stock_create_def stock_update_by_id_def stock_find_id_def Let_def checked_div_def update_stock_new_def
  apply_stock_update_def row_modify_def stock_sold_def stock_find_url_def stock_sold_by_id_def stock_delete_by_id_def
  row_delete_def stock_to_update_def finalize_stock_item_def

theorem purchase_averages_the_cost_witness:
  "\<exists>tag row db'. stock_add_item empty_stock (demo_stock 3 10) 0 = (Inr (tag, row), db')
     \<and> stk_bought row * stk_owned row \<le> 10 \<and> 10 < (stk_bought row + 1) * stk_owned row"
proof -
  have "stock_wf empty_stock" using stock_inv_empty by (simp add: stock_inv_def)
  then show ?thesis
    using purchase_averages_the_cost[of empty_stock "demo_stock 3 10" 0 0]
    by (auto simp: demo_stock_def stock_item_new_def stock_owned_def row_lookup_def empty_stock_def)
qed

text \<open>
  Selling takes what is there: a sale of a held item lowers its quantity by the sold pieces
  (a quantity of 0 counts as one) and deletes the row when nothing is left, so no row is ever
  left with zero or negative pieces; other rows, and the wish list, are untouched; an item that
  is not held is reported and changes nothing.
\<close>

theorem sale_takes_what_is_there:
  assumes "stock_wf db" "0 \<le> q"
  shows "\<exists>tag old db'. stock_sold db url sub q now = (Inr (tag, old), db') \<and> stock_wf db'
    \<and> sd_wishes db' = sd_wishes db
    \<and> stock_owned db' = (stock_owned db)((url, sub) := max 0 (stock_owned db (url, sub) - (if q = 0 then 1 else q)))
    \<and> (tag = ''NotFound'' \<longleftrightarrow> stock_owned db (url, sub) = 0)
    \<and> (row_lookup stk_key (sd_items db') (url, sub) = None \<longleftrightarrow> stock_owned db (url, sub) \<le> (if q = 0 then 1 else q))"
proof -
  obtain tag old db' where sold: "stock_sold db url sub q now = (Inr (tag, old), db')" "stock_wf db'" "sd_wishes db' = sd_wishes db"
      "old = row_lookup stk_key (sd_items db) (url, sub)"
      "tag = (if old = None then ''NotFound'' else if stock_owned db (url, sub) \<le> sold_quantity q then ''Deleted'' else ''Updated'')"
      "stock_owned db' = (if old = None then stock_owned db
         else (stock_owned db)((url, sub) := max 0 (stock_owned db (url, sub) - sold_quantity q)))"
    using stock_sold_spec[OF assms(1)] by blast
  have pos: "stock_owned d k = 0 \<longleftrightarrow> row_lookup stk_key (sd_items d) k = None" "0 \<le> stock_owned d k" if "stock_wf d" for d k
    using that row_lookup_Some[of stk_key "sd_items d" k]
    by (force simp: stock_owned_def stock_wf_def split: option.splits)+
  have "stock_owned db' = (stock_owned db)((url, sub) := max 0 (stock_owned db (url, sub) - (if q = 0 then 1 else q)))"
  proof (cases old)
    case None
    then have "stock_owned db (url, sub) = 0" using pos[OF assms(1)] sold(4) by simp
    then show ?thesis using None sold(6) assms(2) by (simp add: fun_upd_idem)
  qed (use sold(6) in \<open>simp add: sold_quantity_def\<close>)
  moreover from this have "stock_owned db' (url, sub) = max 0 (stock_owned db (url, sub) - (if q = 0 then 1 else q))" by simp
  then have "row_lookup stk_key (sd_items db') (url, sub) = None \<longleftrightarrow> stock_owned db (url, sub) \<le> (if q = 0 then 1 else q)"
    using pos(1)[OF sold(2), of "(url, sub)"] by auto
  moreover have "tag = ''NotFound'' \<longleftrightarrow> stock_owned db (url, sub) = 0"
    using sold(4,5) pos(1)[OF assms(1)] by auto
  ultimately show ?thesis using sold(1-3) by (intro exI conjI) assumption+
qed

theorem sale_takes_what_is_there_witness:
  "stock_owned (snd (stock_sold (snd (stock_add_item empty_stock (demo_stock 3 10) 0)) ''url'' None 2 0)) (''url'', None) = 1"
proof -
  have "stock_wf (snd (stock_add_item empty_stock (demo_stock 3 10) 0))"
    by (simp add: stock_wf_def demo_stock_defs)
  moreover have "stock_owned (snd (stock_add_item empty_stock (demo_stock 3 10) 0)) (''url'', None) = 3"
    by (simp add: stock_owned_def demo_stock_defs)
  ultimately show ?thesis
    using sale_takes_what_is_there[of "snd (stock_add_item empty_stock (demo_stock 3 10) 0)" 2 "''url''" None 0] by force
qed



section \<open>What is lost\<close>

text \<open>
  The write-back of the trader writes every column of the row it read, so a sale recorded between
  the read and the write-back is undone: here a row of three is read, two are sold, and the
  write-back leaves three again.
\<close>

lemma finalize_undoes_a_sale:
  assumes "db = snd (stock_add_item empty_stock (demo_stock 3 10) 0)" "stock_find_id db 1 = Some m"
  shows "stock_owned (snd (stock_sold db ''url'' None 2 1)) (''url'', None) = 1
    \<and> stock_owned (snd (finalize_stock_item (snd (stock_sold db ''url'' None 2 1)) (stk_set_list_price (Some 9) m) 2)) (''url'', None) = 3"
  using assms by (auto simp: stock_owned_def demo_stock_defs stk_setter_defs)

text \<open>And a row removed in between makes the write-back, and with it the trader's cycle, fail.\<close>

lemma finalize_fails_on_a_removed_row:
  "stk_is_dirty m \<Longrightarrow> stock_find_id db (stk_id m) = None \<Longrightarrow>
   fst (finalize_stock_item db m now) = Inl (Failed (new_error ''StockItemMutation:UpdateById'' ''Stock Item not found''))"
  by (simp add: finalize_stock_item_def stock_update_by_id_def stock_to_update_def)

end
