(* ===== verification/Stock_Handlers.thy ===== *)
theory Stock_Handlers
  imports Stock_Store Collector_Diff
begin

text \<open>
  What a recorded trade does (\<open>qf_core/src/handlers/base.rs\<close>, \<open>stock_item.rs\<close>,
  \<open>wish_list.rs\<close>, the payloads of \<open>entity/src/stock_item/dto/create.rs\<close> and
  \<open>wish_list/dto/create.rs\<close> and their validation): the stock or wish-list row is changed, the
  order on the marketplace is closed, deleted or updated, and a transaction is written. The
  tradable-item cache, the marketplace's answer and the date parser of \<open>chrono\<close> are parameters.
\<close>

section \<open>Items and payloads\<close>

text \<open>The possible sub-types of an item, \<open>SubType\<close> of the item cache.\<close>

record item_sub_type =
  it_max_rank :: "int option"
  it_variants :: "string list option"
  it_amber_stars :: "int option"
  it_cyan_stars :: "int option"

record cache_item =
  ca_name :: string
  ca_unique_name :: string
  ca_wfm_id :: string
  ca_wfm_url :: string
  ca_trade_tax :: int
  ca_mr_requirement :: int
  ca_tags :: "string list"
  ca_icon :: string
  ca_bulk_tradable :: bool
  ca_sub_type :: "item_sub_type option"
  ca_variants :: "(string \<times> string) list"

type_synonym item_cache = "string \<Rightarrow> cache_item option"

definition cache_get :: "item_cache \<Rightarrow> string \<Rightarrow> qf_error + cache_item" where
  "cache_get cache i =
     (case cache i of
        Some it \<Rightarrow> Inr it
      | None \<Rightarrow> Inl (new_error ''Cache:TradableItem:GetBy'' (''Tradable item not found for id '' @ CHR 0x27 # i @ [CHR 0x27])))"

text \<open>\<open>CreateStockItem\<close> and \<open>CreateWishListItem\<close> have the same fields.\<close>

record create_item =
  ci_raw :: string
  ci_bought :: "int option"
  ci_quantity :: int
  ci_sub_type :: "sub_type option"
  ci_wfm_id :: string
  ci_wfm_url :: string
  ci_credits :: int
  ci_item_name :: string
  ci_unique_name :: string
  ci_tags :: "string list"
  ci_properties :: properties
  ci_is_validated :: bool

definition create_item_new :: "string \<Rightarrow> sub_type option \<Rightarrow> int \<Rightarrow> create_item" where
  "create_item_new raw sub quantity =
     \<lparr>ci_raw = raw, ci_bought = None, ci_quantity = quantity, ci_sub_type = sub, ci_wfm_id = [], ci_wfm_url = [],
      ci_credits = 0, ci_item_name = [], ci_unique_name = [], ci_tags = [], ci_properties = None, ci_is_validated = False\<rparr>"

definition ci_price :: "create_item \<Rightarrow> int" where
  "ci_price ci = (case ci_bought ci of Some p \<Rightarrow> p | None \<Rightarrow> 0)"

definition fill_item :: "create_item \<Rightarrow> cache_item \<Rightarrow> create_item" where
  "fill_item ci it = ci\<lparr>ci_wfm_id := ca_wfm_id it, ci_wfm_url := ca_wfm_url it, ci_item_name := ca_name it,
     ci_unique_name := ca_unique_name it, ci_tags := ca_tags it, ci_credits := ca_trade_tax it * ci_quantity ci,
     ci_is_validated := True\<rparr>"

definition no_variant :: qf_error where
  "no_variant = new_error ''CreateStockItemExt:SubTypeVariant'' ''No unique name found for sub_type''"

text \<open>A stock item with variants takes the unique name of its variant; an unknown variant is refused.\<close>

definition validate_stock :: "item_cache \<Rightarrow> create_item \<Rightarrow> qf_error + create_item" where
  "validate_stock cache ci =
     (case cache_get cache (ci_raw ci) of
        Inl e \<Rightarrow> Inl e
      | Inr it \<Rightarrow>
          (case (ca_variants it, ci_sub_type ci) of
             (v # vs, Some s) \<Rightarrow>
               (case map_of (ca_variants it) (case sub_variant s of Some x \<Rightarrow> x | None \<Rightarrow> []) of
                  Some unique \<Rightarrow> Inr ((fill_item ci it)\<lparr>ci_unique_name := unique\<rparr>)
                | None \<Rightarrow> Inl no_variant)
           | _ \<Rightarrow> Inr (fill_item ci it)))"

definition validate_wish :: "item_cache \<Rightarrow> create_item \<Rightarrow> qf_error + create_item" where
  "validate_wish cache ci = map_sum id (fill_item ci) (cache_get cache (ci_raw ci))"

definition stock_to_model :: "create_item \<Rightarrow> stock_item" where
  "stock_to_model ci = stock_item_new (ci_wfm_id ci) (ci_wfm_url ci) (ci_item_name ci) (ci_unique_name ci) (ci_sub_type ci)
     (ci_price ci) (ci_quantity ci) False (ci_properties ci)"

definition wish_to_model :: "create_item \<Rightarrow> wish_item" where
  "wish_to_model ci = wish_item_new (ci_wfm_id ci) (ci_wfm_url ci) (ci_item_name ci) (ci_unique_name ci) (ci_sub_type ci)
     (ci_quantity ci) (ci_properties ci)"

section \<open>Transactions\<close>

datatype transaction_type = Purchase | Sale

datatype transaction_item_type = ItemTx | RivenTx

record transaction =
  tx_id :: int
  tx_wfm_id :: string
  tx_wfm_url :: string
  tx_item_name :: string
  tx_item_type :: transaction_item_type
  tx_unique_name :: string
  tx_sub_type :: "sub_type option"
  tx_tags :: string
  tx_type :: transaction_type
  tx_quantity :: int
  tx_user_name :: string
  tx_price :: int
  tx_profit :: "int option"
  tx_credits :: int
  tx_updated_at :: utc
  tx_created_at :: utc
  tx_properties :: properties

definition transaction_of :: "create_item \<Rightarrow> transaction_type \<Rightarrow> string \<Rightarrow> transaction" where
  "transaction_of ci ty user =
     \<lparr>tx_id = 0, tx_wfm_id = ci_wfm_id ci, tx_wfm_url = ci_wfm_url ci, tx_item_name = ci_item_name ci, tx_item_type = ItemTx,
      tx_unique_name = ci_unique_name ci, tx_sub_type = ci_sub_type ci, tx_tags = str_join '','' (ci_tags ci), tx_type = ty,
      tx_quantity = ci_quantity ci, tx_user_name = user, tx_price = ci_price ci, tx_profit = None, tx_credits = ci_credits ci,
      tx_updated_at = 0, tx_created_at = 0, tx_properties = None\<rparr>"

definition stock_to_transaction :: "create_item \<Rightarrow> string \<Rightarrow> string + transaction" where
  "stock_to_transaction ci user =
     (if \<not> ci_is_validated ci then Inl ''Stock item is not validated yet''
      else Inr (transaction_of ci (if 0 < ci_price ci then Purchase else Sale) user))"

definition wish_to_transaction :: "create_item \<Rightarrow> string \<Rightarrow> string + transaction" where
  "wish_to_transaction ci user =
     (if \<not> ci_is_validated ci then Inl ''Wish list item is not validated yet'' else Inr (transaction_of ci Purchase user))"

text \<open>
  What the handlers change: the tables, the transaction log and the mirror of the account's
  orders; \<open>ap_report\<close> is the setting \<open>report_to_wfm\<close>.
\<close>

record app_state =
  ap_stock :: stock_db
  ap_txs :: "transaction list"
  ap_next_tx :: int
  ap_orders :: route_cache
  ap_report :: bool

definition platinum_tax :: int where
  "platinum_tax = 500"

text \<open>The latest purchase of the item; without a sub-type the query does not filter by it.\<close>

definition last_purchase :: "transaction list \<Rightarrow> transaction \<Rightarrow> transaction option" where
  "last_purchase txs tx =
     first_of (sort_key (\<lambda>t. - tx_created_at t)
       (filter (\<lambda>t. tx_type t = Purchase \<and> tx_wfm_id t = tx_wfm_id tx
                  \<and> (tx_sub_type tx = None \<or> tx_sub_type t = tx_sub_type tx)) txs))"

definition with_profit :: "transaction list \<Rightarrow> transaction \<Rightarrow> fault + transaction" where
  "with_profit txs tx =
     (if tx_type tx = Purchase then Inr tx
      else (let taxed = (\<lambda>t. t\<lparr>tx_credits := tx_price tx * platinum_tax\<rparr>) in
            case last_purchase txs tx of
              None \<Rightarrow> Inr (taxed tx)
            | Some p \<Rightarrow>
                (case (checked_div (tx_price p) (tx_quantity p), checked_div (tx_price tx) (tx_quantity tx)) of
                   (Inr bought, Inr sold) \<Rightarrow> Inr (taxed (tx\<lparr>tx_profit := Some ((sold - bought) * tx_quantity tx)\<rparr>))
                 | _ \<Rightarrow> Inl Panicked)))"

definition bad_date :: qf_error where
  "bad_date = new_error ''HandleTransaction:ParseDate'' ''Failed to parse date''"

definition handle_transaction ::
  "(string \<Rightarrow> utc option) \<Rightarrow> app_state \<Rightarrow> transaction \<Rightarrow> operation_set \<Rightarrow> utc \<Rightarrow> (fault + transaction) \<times> app_state" where
  "handle_transaction parse_date ap tx flags now =
     (case with_profit (ap_txs ap) tx of
        Inl e \<Rightarrow> (Inl e, ap)
      | Inr tx1 \<Rightarrow>
          (let dated = (case os_get_value_after flags ''SetDate'' of
                          None \<Rightarrow> Inr (now, now)
                        | Some d \<Rightarrow> (case parse_date d of Some t \<Rightarrow> Inr (t, t) | None \<Rightarrow> Inl (Failed bad_date)))
           in case dated of
                Inl e \<Rightarrow> (Inl e, ap)
              | Inr (created, updated) \<Rightarrow>
                  (let row = tx1\<lparr>tx_id := ap_next_tx ap, tx_created_at := created, tx_updated_at := updated\<rparr>
                   in (Inr row, ap\<lparr>ap_txs := ap_txs ap @ [row], ap_next_tx := ap_next_tx ap + 1\<rparr>))))"

section \<open>The order on the marketplace\<close>

definition wfm_failed :: "string \<Rightarrow> string \<Rightarrow> fault" where
  "wfm_failed stage msg = Failed (new_error (''HandleWFMItem:'' @ stage) msg)"

definition handle_wfm_item ::
  "app_state \<Rightarrow> string \<Rightarrow> sub_type option \<Rightarrow> int \<Rightarrow> order_type \<Rightarrow> operation_set \<Rightarrow> api_error + wfm_order
     \<Rightarrow> (fault + string) \<times> app_state" where
  "handle_wfm_item ap wfm_id sub quantity ty ops answer =
     (let delete = os_has ops ''ShouldDelete''; rc = ap_orders ap in
      if ty = BuyOrder \<and> \<not> ap_report ap \<and> \<not> os_has ops ''ForceOrderSync'' then (Inr ''SkippedBuyWfmReportDisabled'', ap)
      else case ol_find_order id (rc_orders rc) wfm_id (from_entity sub) ty of
        None \<Rightarrow> (Inr ''NoOrder'', ap)
      | Some o1 \<Rightarrow>
          (let left = (word_of_int (max 0 (uint (or_quantity o1) - quantity)) :: 32 word);
               should_close = ap_report ap \<and> \<not> delete;
               should_delete = delete \<or> left = 0
           in if should_close then
                (case rc_close rc (or_id o1) (word_of_int quantity) answer of
                   (Inr _, rc1) \<Rightarrow> (Inr ''Closed'', ap\<lparr>ap_orders := rc1\<rparr>)
                 | (Inl e, rc1) \<Rightarrow> (Inl (wfm_failed ''Close'' ''Failed to close WFM order''), ap\<lparr>ap_orders := rc1\<rparr>))
              else if should_delete then
                (case rc_delete rc (or_id o1) answer of
                   (Inr _, rc1) \<Rightarrow> (Inr ''Deleted'', ap\<lparr>ap_orders := rc1\<rparr>)
                 | (Inl e, rc1) \<Rightarrow> (Inl (wfm_failed ''Delete'' ''Failed to delete WFM order''), ap\<lparr>ap_orders := rc1\<rparr>))
              else
                (case rc_update rc (or_id o1) (no_update\<lparr>up_quantity := Some left\<rparr>) answer of
                   (Inr _, rc1) \<Rightarrow> (Inr ''Updated'', ap\<lparr>ap_orders := rc1\<rparr>)
                 | (Inl e, rc1) \<Rightarrow> (Inl (wfm_failed ''Update'' ''Failed to update WFM order''), ap\<lparr>ap_orders := rc1\<rparr>))))"

section \<open>Recording a trade\<close>

text \<open>What a handler needs besides the state: the cache, the date parser, the clock, the marketplace's answer.\<close>

record handler_env =
  hv_cache :: item_cache
  hv_parse_date :: "string \<Rightarrow> utc option"
  hv_now :: utc
  hv_answer :: "api_error + wfm_order"

definition should_run_wfm :: "operation_set \<Rightarrow> operation_set \<Rightarrow> bool" where
  "should_run_wfm flags ops =
     (case os_get_value_after flags ''SkipWFMCheck'' of Some v \<Rightarrow> \<not> os_has ops v | None \<Rightarrow> True)"

definition not_a_transaction :: "string \<Rightarrow> string \<Rightarrow> fault" where
  "not_a_transaction component e = Failed (new_error (component @ '':ToTransaction'') (''Failed to create transaction: '' @ e))"

text \<open>The component of the item handler's error is the literal \<open>{component}\<close>: the source does not format it.\<close>

definition recordable :: "string \<Rightarrow> string + transaction \<Rightarrow> fault + transaction" where
  "recordable component = map_sum (not_a_transaction component) id"

text \<open>The end both handlers share: nothing for a free item, a transaction otherwise.\<close>

definition record_transaction ::
  "handler_env \<Rightarrow> app_state \<Rightarrow> create_item \<Rightarrow> fault + transaction \<Rightarrow> order_type \<Rightarrow> operation_set \<Rightarrow> operation_set
     \<Rightarrow> (fault + operation_set) \<times> app_state" where
  "record_transaction env ap ci tx_or_error ty flags ops =
     (if ci_price ci \<le> 0 then (Inr (os_add ops ''PriceZeroNoTransaction''), ap)
      else case tx_or_error of
        Inl e \<Rightarrow> (Inl e, ap)
      | Inr tx \<Rightarrow>
          (case handle_transaction (hv_parse_date env) ap (if ty = SellOrder then tx\<lparr>tx_type := Sale\<rparr> else tx) flags (hv_now env) of
             (Inl e, ap1) \<Rightarrow> (Inl e, ap1) | (Inr _, ap1) \<Rightarrow> (Inr ops, ap1)))"

text \<open>The stock change: \<open>sold_by_url_and_sub_type\<close> or \<open>add_item\<close>, with the tag it leaves and the row it returns.\<close>

definition change_stock ::
  "handler_env \<Rightarrow> app_state \<Rightarrow> create_item \<Rightarrow> order_type \<Rightarrow> (fault + string \<times> stock_item) \<times> app_state" where
  "change_stock env ap ci ty =
     (case ty of
        SellOrder \<Rightarrow>
          (case stock_sold (ap_stock ap) (ci_wfm_url ci) (ci_sub_type ci) (ci_quantity ci) (hv_now env) of
             (Inl e, db) \<Rightarrow> (Inl e, ap\<lparr>ap_stock := db\<rparr>)
           | (Inr (tag, row), db) \<Rightarrow>
               (Inr (''ItemSell_'' @ tag, case row of Some m \<Rightarrow> m | None \<Rightarrow> stock_to_model ci), ap\<lparr>ap_stock := db\<rparr>))
      | BuyOrder \<Rightarrow>
          (case stock_add_item (ap_stock ap) (stock_to_model ci) (hv_now env) of
             (Inl e, db) \<Rightarrow> (Inl e, ap\<lparr>ap_stock := db\<rparr>)
           | (Inr (tag, row), db) \<Rightarrow> (Inr (''ItemBuy_'' @ tag, row), ap\<lparr>ap_stock := db\<rparr>)))"

definition sync_order ::
  "handler_env \<Rightarrow> app_state \<Rightarrow> create_item \<Rightarrow> order_type \<Rightarrow> operation_set \<Rightarrow> (fault + string) \<times> app_state" where
  "sync_order env ap ci ty ops =
     (case handle_wfm_item ap (ci_wfm_id ci) (ci_sub_type ci) (ci_quantity ci) ty ops (hv_answer env) of
        (Inl e, ap1) \<Rightarrow> (Inl e, ap1) | (Inr status, ap1) \<Rightarrow> (Inr (''WFMItem_'' @ status), ap1))"

definition handle_item_by_entity ::
  "handler_env \<Rightarrow> app_state \<Rightarrow> create_item \<Rightarrow> string \<Rightarrow> order_type \<Rightarrow> operation_set
     \<Rightarrow> (fault + operation_set \<times> stock_item) \<times> app_state" where
  "handle_item_by_entity env ap item user ty flags =
     (case validate_stock (hv_cache env) item of
        Inl e \<Rightarrow> (Inl (Failed e), ap)
      | Inr ci \<Rightarrow>
          (case change_stock env ap ci ty of
             (Inl e, ap1) \<Rightarrow> (Inl e, ap1)
           | (Inr (tag, model), ap1) \<Rightarrow>
               (let ops = os_add os_new tag;
                    (synced, ap2) = (if should_run_wfm flags ops then sync_order env ap1 ci ty os_new
                                     else (Inr ''SkippedWFMCheck'', ap1))
                in case synced of
                     Inl e \<Rightarrow> (Inl e, ap2)
                   | Inr stag \<Rightarrow>
                       (case record_transaction env ap2 ci (recordable ''{component}'' (stock_to_transaction ci user)) ty flags (os_add ops stag) of
                          (Inl e, ap3) \<Rightarrow> (Inl e, ap3) | (Inr ops1, ap3) \<Rightarrow> (Inr (ops1, model), ap3)))))"

definition handle_item ::
  "handler_env \<Rightarrow> app_state \<Rightarrow> string \<Rightarrow> sub_type option \<Rightarrow> int \<Rightarrow> int \<Rightarrow> string \<Rightarrow> order_type \<Rightarrow> operation_set
     \<Rightarrow> (fault + operation_set \<times> stock_item) \<times> app_state" where
  "handle_item env ap url sub quantity p user ty flags =
     handle_item_by_entity env ap ((create_item_new url sub quantity)\<lparr>ci_bought := Some p\<rparr>) user ty flags"

definition change_wish ::
  "handler_env \<Rightarrow> app_state \<Rightarrow> create_item \<Rightarrow> order_type \<Rightarrow> (fault + string \<times> wish_item) \<times> app_state" where
  "change_wish env ap ci ty =
     (case ty of
        BuyOrder \<Rightarrow>
          (case wish_bought (ap_stock ap) (ci_wfm_url ci) (ci_sub_type ci) (ci_quantity ci) (hv_now env) of
             (Inl e, db) \<Rightarrow> (Inl e, ap\<lparr>ap_stock := db\<rparr>)
           | (Inr (tag, row), db) \<Rightarrow>
               (Inr (''WishListItemBought_'' @ tag, case row of Some m \<Rightarrow> m | None \<Rightarrow> wish_to_model ci), ap\<lparr>ap_stock := db\<rparr>))
      | SellOrder \<Rightarrow>
          (case wish_add_item (ap_stock ap) (wish_to_model ci) (hv_now env) of
             (Inl e, db) \<Rightarrow> (Inl e, ap\<lparr>ap_stock := db\<rparr>)
           | (Inr (tag, row), db) \<Rightarrow> (Inr (''WishListItemSold_'' @ tag, row), ap\<lparr>ap_stock := db\<rparr>)))"

text \<open>The first \<open>ReturnOn:\<close> flag ends the call early when a tag ends with its value.\<close>

definition returns_early :: "operation_set \<Rightarrow> operation_set \<Rightarrow> bool" where
  "returns_early flags ops =
     (case List.map_filter (strip_prefix ''ReturnOn:'') flags of [] \<Rightarrow> False | suffix # _ \<Rightarrow> os_ends_with ops suffix)"

definition handle_wish_list_by_entity ::
  "handler_env \<Rightarrow> app_state \<Rightarrow> create_item \<Rightarrow> string \<Rightarrow> order_type \<Rightarrow> operation_set
     \<Rightarrow> (fault + operation_set \<times> wish_item) \<times> app_state" where
  "handle_wish_list_by_entity env ap item user ty flags =
     (case validate_wish (hv_cache env) item of
        Inl e \<Rightarrow> (Inl (Failed e), ap)
      | Inr ci \<Rightarrow>
          (case change_wish env ap ci ty of
             (Inl e, ap1) \<Rightarrow> (Inl e, ap1)
           | (Inr (tag, model), ap1) \<Rightarrow>
               (let ops = os_add os_new tag in
                if returns_early flags ops then (Inr (os_add ops ''EarlyReturnFlagTriggered'', model), ap1)
                else case sync_order env ap1 ci ty (os_from [''ForceOrderSync'']) of
                  (Inl e, ap2) \<Rightarrow> (Inl e, ap2)
                | (Inr stag, ap2) \<Rightarrow>
                    (case record_transaction env ap2 ci (recordable ''HandleWishListItem'' (wish_to_transaction ci user)) ty flags (os_add ops stag) of
                       (Inl e, ap3) \<Rightarrow> (Inl e, ap3) | (Inr ops1, ap3) \<Rightarrow> (Inr (ops1, model), ap3)))))"

definition handle_wish_list ::
  "handler_env \<Rightarrow> app_state \<Rightarrow> string \<Rightarrow> sub_type option \<Rightarrow> int \<Rightarrow> int \<Rightarrow> string \<Rightarrow> order_type \<Rightarrow> operation_set
     \<Rightarrow> (fault + operation_set \<times> wish_item) \<times> app_state" where
  "handle_wish_list env ap url sub quantity p user ty flags =
     handle_wish_list_by_entity env ap ((create_item_new url sub quantity)\<lparr>ci_bought := Some p\<rparr>) user ty flags"

section \<open>What each part touches\<close>

lemma handle_wfm_item_frame:
  "handle_wfm_item ap i sub q ty ops answer = (r, ap') \<Longrightarrow> ap' = ap\<lparr>ap_orders := ap_orders ap'\<rparr>"
  by (auto simp: handle_wfm_item_def Let_def split: if_splits option.splits prod.splits sum.splits)

lemma sync_order_frame:
  "sync_order env ap ci ty ops = (r, ap') \<Longrightarrow>
   ap_stock ap' = ap_stock ap \<and> ap_txs ap' = ap_txs ap \<and> ap_next_tx ap' = ap_next_tx ap \<and> ap_report ap' = ap_report ap"
  using handle_wfm_item_frame[of ap "ci_wfm_id ci" "ci_sub_type ci" "ci_quantity ci" ty ops "hv_answer env"]
  by (auto simp: sync_order_def split: prod.splits sum.splits)
     (metis app_state.select_convs app_state.surjective app_state.update_convs(4))+

lemma handle_transaction_cases:
  assumes "handle_transaction parse ap tx flags now = (r, ap')"
  shows "case r of
      Inl e \<Rightarrow> ap' = ap
    | Inr row \<Rightarrow> ap' = ap\<lparr>ap_txs := ap_txs ap @ [row], ap_next_tx := ap_next_tx ap + 1\<rparr>
        \<and> (\<exists>tx1. with_profit (ap_txs ap) tx = Inr tx1 \<and> tx_quantity row = tx_quantity tx1 \<and> tx_price row = tx_price tx1
             \<and> tx_type row = tx_type tx1 \<and> tx_profit row = tx_profit tx1 \<and> tx_credits row = tx_credits tx1
             \<and> tx_wfm_id row = tx_wfm_id tx1 \<and> tx_sub_type row = tx_sub_type tx1)"
  using assms
  by (auto simp: handle_transaction_def Let_def split: sum.splits option.splits prod.splits)

lemma with_profit_keeps:
  "with_profit txs tx = Inr tx1 \<Longrightarrow> tx_quantity tx1 = tx_quantity tx \<and> tx_price tx1 = tx_price tx \<and> tx_type tx1 = tx_type tx
     \<and> tx_wfm_id tx1 = tx_wfm_id tx \<and> tx_sub_type tx1 = tx_sub_type tx"
  by (auto simp: with_profit_def Let_def split: if_splits option.splits sum.splits)

lemma validate_stock_fields:
  "validate_stock cache ci = Inr ci' \<Longrightarrow> ci_sub_type ci' = ci_sub_type ci \<and> ci_quantity ci' = ci_quantity ci
     \<and> ci_bought ci' = ci_bought ci \<and> ci_is_validated ci'"
  by (auto simp: validate_stock_def fill_item_def Let_def split: sum.splits list.splits option.splits)

text \<open>The transaction a sale is written as.\<close>

definition sale_row :: "transaction list \<Rightarrow> create_item \<Rightarrow> transaction \<Rightarrow> bool" where
  "sale_row txs ci row \<longleftrightarrow>
     tx_type row = Sale \<and> tx_wfm_id row = ci_wfm_id ci \<and> tx_sub_type row = ci_sub_type ci
     \<and> tx_quantity row = ci_quantity ci \<and> tx_price row = ci_price ci \<and> tx_credits row = 500 * ci_price ci
     \<and> (tx_profit row = None \<or>
        (\<exists>p\<in>set txs. tx_type p = Purchase \<and> tx_wfm_id p = ci_wfm_id ci \<and> tx_quantity p \<noteq> 0
           \<and> tx_profit row = Some ((ci_price ci sdiv ci_quantity ci - tx_price p sdiv tx_quantity p) * ci_quantity ci)))"

lemma first_of_in: "first_of xs = Some x \<Longrightarrow> x \<in> set xs"
  by (auto simp: first_of_def split: list.splits)

lemma last_purchase_in:
  "last_purchase txs tx = Some p \<Longrightarrow> p \<in> set txs \<and> tx_type p = Purchase \<and> tx_wfm_id p = tx_wfm_id tx"
  unfolding last_purchase_def by (drule first_of_in) auto

lemma record_sale:
  assumes "record_transaction env ap ci (recordable ''{component}'' (stock_to_transaction ci user)) SellOrder flags ops = (r, ap')" "ci_is_validated ci"
  shows "ap_stock ap' = ap_stock ap \<and> (case r of
      Inl e \<Rightarrow> ap_txs ap' = ap_txs ap
    | Inr ops' \<Rightarrow> if 0 < ci_price ci then \<exists>row. ap_txs ap' = ap_txs ap @ [row] \<and> sale_row (ap_txs ap) ci row
               else ap_txs ap' = ap_txs ap)"
proof (cases "0 < ci_price ci")
  case False
  then show ?thesis using assms by (auto simp: record_transaction_def)
next
  case True
  define tx where "tx = (transaction_of ci Purchase user)\<lparr>tx_type := Sale\<rparr>"
  have tx: "tx_quantity tx = ci_quantity ci" "tx_price tx = ci_price ci" "tx_type tx = Sale" "tx_wfm_id tx = ci_wfm_id ci"
    "tx_sub_type tx = ci_sub_type ci" "tx_profit tx = None"
    by (simp_all add: tx_def transaction_of_def)
  obtain r1 where ht: "handle_transaction (hv_parse_date env) ap tx flags (hv_now env) = (r1, ap')"
    and r: "r = (case r1 of Inl e \<Rightarrow> Inl e | Inr _ \<Rightarrow> Inr ops)"
    using assms True by (auto simp: record_transaction_def recordable_def stock_to_transaction_def tx_def split: prod.splits sum.splits)
  show ?thesis
  proof (cases r1)
    case (Inl e)
    then show ?thesis using handle_transaction_cases[OF ht] r by simp
  next
    case (Inr row)
    obtain tx1 where tx1: "with_profit (ap_txs ap) tx = Inr tx1" "tx_quantity row = tx_quantity tx1" "tx_price row = tx_price tx1"
        "tx_type row = tx_type tx1" "tx_profit row = tx_profit tx1" "tx_credits row = tx_credits tx1"
        "tx_wfm_id row = tx_wfm_id tx1" "tx_sub_type row = tx_sub_type tx1"
      and ap': "ap' = ap\<lparr>ap_txs := ap_txs ap @ [row], ap_next_tx := ap_next_tx ap + 1\<rparr>"
      using handle_transaction_cases[OF ht] Inr by auto
    have "tx_credits tx1 = 500 * ci_price ci"
      using tx1(1) tx by (auto simp: with_profit_def Let_def platinum_tax_def split: option.splits sum.splits)
    moreover have "tx_profit tx1 = None \<or>
        (\<exists>p\<in>set (ap_txs ap). tx_type p = Purchase \<and> tx_wfm_id p = ci_wfm_id ci \<and> tx_quantity p \<noteq> 0
           \<and> tx_profit tx1 = Some ((ci_price ci sdiv ci_quantity ci - tx_price p sdiv tx_quantity p) * ci_quantity ci))"
      using tx1(1) tx last_purchase_in[of "ap_txs ap" tx]
      by (auto simp: with_profit_def Let_def checked_div_def split: option.splits sum.splits if_splits)
    ultimately have "sale_row (ap_txs ap) ci row"
      using tx1 tx with_profit_keeps[OF tx1(1)] by (simp add: sale_row_def)
    then show ?thesis using True Inr r ap' by simp
  qed
qed

section \<open>Properties\<close>


definition demo_cache :: item_cache where
  "demo_cache i = (if i = ''raw'' then Some \<lparr>ca_name = ''name'', ca_unique_name = ''unique'', ca_wfm_id = ''id'',
     ca_wfm_url = ''url'', ca_trade_tax = 2000, ca_mr_requirement = 0, ca_tags = [], ca_icon = [], ca_bulk_tradable = False, ca_sub_type = None,
     ca_variants = []\<rparr> else None)"

definition demo_env :: handler_env where
  "demo_env = \<lparr>hv_cache = demo_cache, hv_parse_date = (\<lambda>_. None), hv_now = 7, hv_answer = Inl ApiNotFound\<rparr>"

definition demo_app :: app_state where
  "demo_app = \<lparr>ap_stock = snd (stock_add_item empty_stock (demo_stock 3 10) 0), ap_txs = [], ap_next_tx = 1,
     ap_orders = route_new, ap_report = True\<rparr>"


end
