(* ===== verification/Trade_Apply.thy ===== *)
theory Trade_Apply
  imports Stock_Handlers
begin

text \<open>
  Applying a resolved trade item by item (\<open>qf_core/src/helper_link/trades/apply.rs\<close> and the data
  of \<open>trades/mod.rs\<close>). \<open>item_applier\<close> is the trait \<open>ItemApplier\<close> with the one law its callers
  need: an item that is applied keeps the tables consistent. It is interpreted on the real
  handlers, \<open>HandlerApplier\<close>.
\<close>

section \<open>Data\<close>

record raw_item =
  ri_name :: string
  ri_quantity :: int
  ri_rank :: "int option"

record raw_trade =
  rt_player_name :: string
  rt_ee_timestamp :: string
  rt_offered :: "raw_item list"
  rt_received :: "raw_item list"

datatype direction = DirPurchase | DirSale

fun direction_str :: "direction \<Rightarrow> string" where
  "direction_str DirPurchase = ''purchase''"
| "direction_str DirSale = ''sale''"

record resolved_item =
  re_name :: string
  re_slug :: string
  re_wfm_id :: string
  re_item_name :: string
  re_sub_type :: "sub_type option"
  re_quantity :: int
  re_price :: int
  re_matched_by :: string

section \<open>One item\<close>

definition wish_list_not_found :: string where
  "wish_list_not_found = ''WishListItemBought_NotFound''"

definition wish_list_flags :: "string \<Rightarrow> operation_set" where
  "wish_list_flags detected_at = os_from [''ReturnOn:NotFound'', ''SetDate:'' @ detected_at]"

definition item_flags :: "direction \<Rightarrow> string \<Rightarrow> operation_set" where
  "item_flags direction detected_at =
     (case direction of
        DirSale \<Rightarrow> os_from [''SkipWFMCheck:ItemSell_NotFound'', ''SetDate:'' @ detected_at]
      | DirPurchase \<Rightarrow> os_from [''SetDate:'' @ detected_at])"

text \<open>A purchase asks the wish list first; only when no row matches does it go to the stock.\<close>

definition apply_item ::
  "handler_env \<Rightarrow> direction \<Rightarrow> string \<Rightarrow> string \<Rightarrow> app_state \<Rightarrow> resolved_item \<Rightarrow> (fault + unit) \<times> app_state" where
  "apply_item env direction player detected_at ap item =
     (case direction of
        DirPurchase \<Rightarrow>
          (case handle_wish_list env ap (re_slug item) (re_sub_type item) (re_quantity item) (re_price item) player BuyOrder
                  (wish_list_flags detected_at) of
             (Inl e, ap1) \<Rightarrow> (Inl e, ap1)
           | (Inr (ops, _), ap1) \<Rightarrow>
               (if os_has ops wish_list_not_found
                then (case handle_item env ap1 (re_slug item) (re_sub_type item) (re_quantity item) (re_price item) player BuyOrder
                        (item_flags direction detected_at) of
                        (Inl e, ap2) \<Rightarrow> (Inl e, ap2) | (Inr _, ap2) \<Rightarrow> (Inr (), ap2))
                else (Inr (), ap1)))
      | DirSale \<Rightarrow>
          (case handle_item env ap (re_slug item) (re_sub_type item) (re_quantity item) (re_price item) player SellOrder
                  (item_flags direction detected_at) of
             (Inl e, ap1) \<Rightarrow> (Inl e, ap1) | (Inr _, ap1) \<Rightarrow> (Inr (), ap1)))"

section \<open>All items\<close>

definition item_label :: "resolved_item \<Rightarrow> string" where
  "item_label item = re_item_name item @ '' x'' @ show_int (re_quantity item)"

text \<open>The failure carries what was applied before it.\<close>

fun apply_from ::
  "('s \<Rightarrow> resolved_item \<Rightarrow> (fault + unit) \<times> 's) \<Rightarrow> string list \<Rightarrow> 's \<Rightarrow> resolved_item list
     \<Rightarrow> (string list \<times> fault + unit) \<times> 's" where
  "apply_from app1 acc s [] = (Inr (), s)"
| "apply_from app1 acc s (item # items) =
     (case app1 s item of
        (Inl e, s1) \<Rightarrow> (Inl (acc, e), s1)
      | (Inr _, s1) \<Rightarrow> apply_from app1 (acc @ [item_label item]) s1 items)"

definition apply_items ::
  "('s \<Rightarrow> resolved_item \<Rightarrow> (fault + unit) \<times> 's) \<Rightarrow> 's \<Rightarrow> resolved_item list \<Rightarrow> (string list \<times> fault + unit) \<times> 's" where
  "apply_items app1 s items = apply_from app1 [] s items"

text \<open>The state after the first items, each applied in turn.\<close>

definition after_items :: "('s \<Rightarrow> resolved_item \<Rightarrow> (fault + unit) \<times> 's) \<Rightarrow> 's \<Rightarrow> resolved_item list \<Rightarrow> 's" where
  "after_items app1 s items = foldl (\<lambda>s item. snd (app1 s item)) s items"

lemma apply_from_spec:
  "apply_from app1 acc s items = (r, s') \<Longrightarrow>
   (case r of
      Inr _ \<Rightarrow> s' = after_items app1 s items \<and> (\<forall>n<length items. \<not> isl (fst (app1 (after_items app1 s (take n items)) (items ! n))))
    | Inl (labels, e) \<Rightarrow> \<exists>n<length items. labels = acc @ map item_label (take n items)
        \<and> fst (app1 (after_items app1 s (take n items)) (items ! n)) = Inl e
        \<and> s' = after_items app1 s (take (Suc n) items)
        \<and> (\<forall>m<n. \<not> isl (fst (app1 (after_items app1 s (take m items)) (items ! m)))))"
proof (induction items arbitrary: "acc" s)
  case (Cons item items)
  obtain x s1 where step: "app1 s item = (x, s1)" by fastforce
  have after: "after_items app1 s (item # its) = after_items app1 s1 its" for its
    using step by (simp add: after_items_def)
  show ?case
  proof (cases x)
    case (Inl e)
    with step Cons.prems have "r = Inl (acc, e)" "s' = s1" by auto
    then show ?thesis using step Inl by (auto intro!: exI[of _ 0] simp: after_items_def)
  next
    case (Inr u)
    with step Cons.prems have "apply_from app1 (acc @ [item_label item]) s1 items = (r, s')" by simp
    from Cons.IH[OF this] show ?thesis
    proof (cases r)
      case (Inr v)
      with Cons.IH[OF \<open>apply_from app1 (acc @ [item_label item]) s1 items = (r, s')\<close>] show ?thesis
        using step \<open>x = Inr u\<close> by (auto simp: after less_Suc_eq_0_disj) (simp add: after_items_def)
    next
      case (Inl le)
      obtain labels e where le: "le = (labels, e)" by fastforce
      from Cons.IH[OF \<open>apply_from app1 (acc @ [item_label item]) s1 items = (r, s')\<close>] Inl le
      obtain n where n: "n < length items" "labels = (acc @ [item_label item]) @ map item_label (take n items)"
        "fst (app1 (after_items app1 s1 (take n items)) (items ! n)) = Inl e"
        "s' = after_items app1 s1 (take (Suc n) items)"
        "\<forall>m<n. \<not> isl (fst (app1 (after_items app1 s1 (take m items)) (items ! m)))" by auto
      have first: "\<not> isl (fst (app1 (after_items app1 s []) item))"
        using step \<open>x = Inr u\<close> by (simp add: after_items_def)
      have "Suc n < length (item # items) \<and> labels = acc @ map item_label (take (Suc n) (item # items))
          \<and> fst (app1 (after_items app1 s (take (Suc n) (item # items))) ((item # items) ! Suc n)) = Inl e
          \<and> s' = after_items app1 s (take (Suc (Suc n)) (item # items))
          \<and> (\<forall>m<Suc n. \<not> isl (fst (app1 (after_items app1 s (take m (item # items))) ((item # items) ! m))))"
        using n first by (auto simp: after less_Suc_eq_0_disj)
      then show ?thesis unfolding Inl le by auto
    qed
  qed
qed (auto simp: after_items_def)

section \<open>The interface\<close>

locale item_applier =
  fixes app1 :: "'s \<Rightarrow> resolved_item \<Rightarrow> (fault + unit) \<times> 's"
    and ok :: "'s \<Rightarrow> bool"
  assumes apply_keeps: "ok s \<Longrightarrow> 1 \<le> re_quantity item \<Longrightarrow> ok (snd (app1 s item))"
begin

lemma after_items_keep: "ok s \<Longrightarrow> \<forall>i\<in>set items. 1 \<le> re_quantity i \<Longrightarrow> ok (after_items app1 s items)"
  unfolding after_items_def by (induction items arbitrary: s) (auto intro: apply_keeps)

lemma apply_items_keep:
  assumes "ok s" "\<forall>i\<in>set items. 1 \<le> re_quantity i"
  shows "ok (snd (apply_items app1 s items))"
proof -
  obtain r s' where r: "apply_items app1 s items = (r, s')" by fastforce
  then have "\<exists>n. s' = after_items app1 s (take n items)"
    using apply_from_spec[of app1 "[]" s items r s']
    by (cases r) (auto simp: apply_items_def intro: exI[of _ "length items"])
  then show ?thesis
    using assms r by (auto intro!: after_items_keep dest: in_set_takeD)
qed

end

section \<open>The real handlers keep the tables consistent\<close>

definition tables_ok :: "app_state \<Rightarrow> bool" where
  "tables_ok ap \<longleftrightarrow> stock_inv (ap_stock ap)"

lemma sync_order_stock: "sync_order env ap ci ty ops = (r, ap') \<Longrightarrow> ap_stock ap' = ap_stock ap \<and> ap_txs ap' = ap_txs ap"
  using sync_order_frame by blast

lemma record_transaction_frame:
  "record_transaction env ap ci tx ty flags ops = (r, ap') \<Longrightarrow> ap_stock ap' = ap_stock ap
     \<and> (case r of Inl e \<Rightarrow> ap_txs ap' = ap_txs ap
        | Inr _ \<Rightarrow> if 0 < ci_price ci then \<exists>row. ap_txs ap' = ap_txs ap @ [row] else ap_txs ap' = ap_txs ap)"
  by (auto simp: record_transaction_def split: if_splits sum.splits prod.splits dest!: handle_transaction_cases)

lemma change_stock_buy:
  assumes "stock_inv (ap_stock ap)" "1 \<le> ci_quantity ci"
  shows "\<exists>tag row db'. change_stock env ap ci BuyOrder = (Inr (tag, row), ap\<lparr>ap_stock := db'\<rparr>) \<and> stock_inv db'
    \<and> sd_wishes db' = sd_wishes (ap_stock ap)
    \<and> stock_owned db' = (stock_owned (ap_stock ap))((ci_wfm_url ci, ci_sub_type ci) :=
         stock_owned (ap_stock ap) (ci_wfm_url ci, ci_sub_type ci) + ci_quantity ci)"
proof -
  have m: "stk_owned (stock_to_model ci) = ci_quantity ci" "stk_key (stock_to_model ci) = (ci_wfm_url ci, ci_sub_type ci)"
    by (simp_all add: stock_to_model_def stock_item_new_def stk_key_def)
  obtain tag row db' where add: "stock_add_item (ap_stock ap) (stock_to_model ci) (hv_now env) = (Inr (tag, row), db')" "stock_wf db'"
      "sd_wishes db' = sd_wishes (ap_stock ap)" "sd_next_wish db' = sd_next_wish (ap_stock ap)"
      "stock_owned db' = (stock_owned (ap_stock ap))((ci_wfm_url ci, ci_sub_type ci) :=
         stock_owned (ap_stock ap) (ci_wfm_url ci, ci_sub_type ci) + ci_quantity ci)"
    using stock_add_spec[of "ap_stock ap" "stock_to_model ci" "hv_now env"] assms m by (auto simp: stock_inv_def)
  then show ?thesis
    using assms wish_wf_frame[of db' "ap_stock ap"] by (auto simp: change_stock_def stock_inv_def)
qed

lemma change_stock_sell:
  assumes "stock_inv (ap_stock ap)"
  shows "\<exists>tag row db'. change_stock env ap ci SellOrder = (Inr (tag, row), ap\<lparr>ap_stock := db'\<rparr>) \<and> stock_inv db'
    \<and> sd_wishes db' = sd_wishes (ap_stock ap)"
proof -
  obtain tag old db' where sold: "stock_sold (ap_stock ap) (ci_wfm_url ci) (ci_sub_type ci) (ci_quantity ci) (hv_now env) = (Inr (tag, old), db')"
      "stock_wf db'" "sd_wishes db' = sd_wishes (ap_stock ap)" "sd_next_wish db' = sd_next_wish (ap_stock ap)"
    using stock_sold_spec[of "ap_stock ap"] assms unfolding stock_inv_def by blast
  then show ?thesis
    using assms wish_wf_frame[of db' "ap_stock ap"] by (auto simp: change_stock_def stock_inv_def)
qed

lemma change_wish_buy:
  assumes "stock_inv (ap_stock ap)"
  shows "\<exists>tag row db'. change_wish env ap ci BuyOrder = (Inr (''WishListItemBought_'' @ tag, row), ap\<lparr>ap_stock := db'\<rparr>)
    \<and> stock_inv db' \<and> sd_items db' = sd_items (ap_stock ap)
    \<and> tag \<in> {''NotFound'', ''Deleted'', ''Updated''}
    \<and> (tag = ''NotFound'' \<longleftrightarrow> row_lookup wl_key (sd_wishes (ap_stock ap)) (ci_wfm_url ci, ci_sub_type ci) = None)
    \<and> wish_wanted db' = (if tag = ''NotFound'' then wish_wanted (ap_stock ap)
         else (wish_wanted (ap_stock ap))((ci_wfm_url ci, ci_sub_type ci) :=
           max 0 (wish_wanted (ap_stock ap) (ci_wfm_url ci, ci_sub_type ci) - sold_quantity (ci_quantity ci))))"
proof -
  obtain tag row db' where b: "wish_bought (ap_stock ap) (ci_wfm_url ci) (ci_sub_type ci) (ci_quantity ci) (hv_now env) = (Inr (tag, row), db')"
      "wish_wf db'" "sd_items db' = sd_items (ap_stock ap)" "sd_next_item db' = sd_next_item (ap_stock ap)"
      "tag = (if row_lookup wl_key (sd_wishes (ap_stock ap)) (ci_wfm_url ci, ci_sub_type ci) = None then ''NotFound''
             else if wish_wanted (ap_stock ap) (ci_wfm_url ci, ci_sub_type ci) \<le> sold_quantity (ci_quantity ci) then ''Deleted'' else ''Updated'')"
      "wish_wanted db' = (if row_lookup wl_key (sd_wishes (ap_stock ap)) (ci_wfm_url ci, ci_sub_type ci) = None then wish_wanted (ap_stock ap)
         else (wish_wanted (ap_stock ap))((ci_wfm_url ci, ci_sub_type ci) :=
           max 0 (wish_wanted (ap_stock ap) (ci_wfm_url ci, ci_sub_type ci) - sold_quantity (ci_quantity ci))))"
    using wish_bought_spec[of "ap_stock ap"] assms unfolding stock_inv_def by blast
  have "tag \<in> {''NotFound'', ''Deleted'', ''Updated''}" "(tag = ''NotFound'') = (row_lookup wl_key (sd_wishes (ap_stock ap)) (ci_wfm_url ci, ci_sub_type ci) = None)"
    using b(5) by auto
  moreover have "stock_inv db'"
    using assms b(2-4) stock_wf_frame[of db' "ap_stock ap"] by (simp add: stock_inv_def)
  ultimately show ?thesis
    using b by (intro exI[of _ tag] exI[of _ "case row of Some m \<Rightarrow> m | None \<Rightarrow> wish_to_model ci"] exI[of _ db'])
      (simp add: change_wish_def)
qed

lemma validate_wish_fields:
  "validate_wish cache ci = Inr ci' \<Longrightarrow> ci_sub_type ci' = ci_sub_type ci \<and> ci_quantity ci' = ci_quantity ci
     \<and> ci_bought ci' = ci_bought ci \<and> ci_is_validated ci'"
  by (cases "cache_get cache (ci_raw ci)") (auto simp: validate_wish_def fill_item_def)

text \<open>One transaction for a priced item, none for a free one or after a failure.\<close>

definition booked :: "fault + 'v \<Rightarrow> int \<Rightarrow> transaction list \<Rightarrow> transaction list \<Rightarrow> bool" where
  "booked r p txs txs' \<longleftrightarrow> (if isl r \<or> p \<le> 0 then txs' = txs else \<exists>row. txs' = txs @ [row])"

lemma handle_item_after_change:
  assumes "validate_stock (hv_cache env) ((create_item_new url sub q)\<lparr>ci_bought := Some p\<rparr>) = Inr ci"
    and "change_stock env ap ci ty = (Inr (tag, row), ap\<lparr>ap_stock := db'\<rparr>)"
    and "handle_item env ap url sub q p user ty flags = (r, ap')"
  shows "ap_stock ap' = db' \<and> booked r p (ap_txs ap) (ap_txs ap')"
proof -
  have ci: "ci_price ci = p"
    using validate_stock_fields[OF assms(1)] by (simp add: create_item_new_def ci_price_def)
  define ap1 where "ap1 = ap\<lparr>ap_stock := db'\<rparr>"
  define ops where "ops = os_add os_new tag"
  obtain synced ap2 where sync: "(if should_run_wfm flags ops then sync_order env ap1 ci ty os_new
      else (Inr ''SkippedWFMCheck'', ap1)) = (synced, ap2)" by fastforce
  have ap2: "ap_stock ap2 = db'" "ap_txs ap2 = ap_txs ap"
    using sync sync_order_stock[of env ap1 ci ty os_new synced ap2] by (auto simp: ap1_def split: if_splits)
  have step: "(r, ap') = (case synced of Inl e \<Rightarrow> (Inl e, ap2)
      | Inr stag \<Rightarrow> (case record_transaction env ap2 ci (recordable ''{component}'' (stock_to_transaction ci user)) ty flags (os_add ops stag) of
           (Inl e, ap3) \<Rightarrow> (Inl e, ap3) | (Inr ops1, ap3) \<Rightarrow> (Inr (ops1, row), ap3)))"
    unfolding assms(3)[symmetric] handle_item_def handle_item_by_entity_def assms(1) sum.case assms(2) prod.case Let_def
      ops_def[symmetric] ap1_def[symmetric] sync by simp
  show ?thesis
  proof (cases synced)
    case (Inl e)
    with step ap2 show ?thesis by (auto simp: booked_def)
  next
    case (Inr stag)
    obtain r1 ap3 where rec: "record_transaction env ap2 ci (recordable ''{component}'' (stock_to_transaction ci user)) ty flags (os_add ops stag) = (r1, ap3)"
      by fastforce
    have "ap' = ap3" "isl r = isl r1" using step Inr rec by (auto split: sum.splits)
    with record_transaction_frame[OF rec] ap2 ci show ?thesis
      by (cases r1) (auto simp: booked_def)
  qed
qed

lemma handle_item_invalid:
  "validate_stock (hv_cache env) ((create_item_new url sub q)\<lparr>ci_bought := Some p\<rparr>) = Inl e \<Longrightarrow>
   handle_item env ap url sub q p user ty flags = (Inl (Failed e), ap)"
  by (simp add: handle_item_def handle_item_by_entity_def)

lemma handle_item_keeps:
  assumes "stock_inv (ap_stock ap)" "1 \<le> q" "handle_item env ap url sub q p user ty flags = (r, ap')"
  shows "stock_inv (ap_stock ap') \<and> sd_wishes (ap_stock ap') = sd_wishes (ap_stock ap) \<and> booked r p (ap_txs ap) (ap_txs ap')"
proof (cases "validate_stock (hv_cache env) ((create_item_new url sub q)\<lparr>ci_bought := Some p\<rparr>)")
  case (Inl e)
  from handle_item_invalid[OF this] assms show ?thesis by (auto simp: booked_def)
next
  case (Inr ci)
  have q: "ci_quantity ci = q" using validate_stock_fields[OF Inr] by (simp add: create_item_new_def)
  have "\<exists>tag row db'. change_stock env ap ci ty = (Inr (tag, row), ap\<lparr>ap_stock := db'\<rparr>) \<and> stock_inv db' \<and> sd_wishes db' = sd_wishes (ap_stock ap)"
    using change_stock_buy[OF assms(1), of ci env] change_stock_sell[OF assms(1), of env ci] q assms(2) by (cases ty) blast+
  then show ?thesis using handle_item_after_change[OF Inr _ assms(3)] by auto
qed

lemma handle_wish_list_buy:
  assumes inv: "stock_inv (ap_stock ap)"
    and valid: "validate_wish (hv_cache env) ((create_item_new url sub q)\<lparr>ci_bought := Some p\<rparr>) = Inr ci"
    and res: "handle_wish_list env ap url sub q p user BuyOrder (wish_list_flags date) = (r, ap')"
  shows "stock_inv (ap_stock ap') \<and> sd_items (ap_stock ap') = sd_items (ap_stock ap)
    \<and> (if row_lookup wl_key (sd_wishes (ap_stock ap)) (ci_wfm_url ci, sub) = None
       then (\<exists>m. r = Inr ([wish_list_not_found, ''EarlyReturnFlagTriggered''], m)) \<and> ap_txs ap' = ap_txs ap
         \<and> wish_wanted (ap_stock ap') = wish_wanted (ap_stock ap)
       else booked r p (ap_txs ap) (ap_txs ap')
         \<and> wish_wanted (ap_stock ap') = (wish_wanted (ap_stock ap))((ci_wfm_url ci, sub) :=
              max 0 (wish_wanted (ap_stock ap) (ci_wfm_url ci, sub) - sold_quantity q))
         \<and> (\<forall>ops m. r = Inr (ops, m) \<longrightarrow> wish_list_not_found \<notin> set ops))"
proof -
  have ci: "ci_price ci = p" "ci_sub_type ci = sub" "ci_quantity ci = q"
    using validate_wish_fields[OF valid] by (simp_all add: create_item_new_def ci_price_def)
  obtain tag row db' where change: "change_wish env ap ci BuyOrder = (Inr (''WishListItemBought_'' @ tag, row), ap\<lparr>ap_stock := db'\<rparr>)"
      and db': "stock_inv db'" "sd_items db' = sd_items (ap_stock ap)" "tag \<in> {''NotFound'', ''Deleted'', ''Updated''}"
      "(tag = ''NotFound'') = (row_lookup wl_key (sd_wishes (ap_stock ap)) (ci_wfm_url ci, sub) = None)"
      "wish_wanted db' = (if tag = ''NotFound'' then wish_wanted (ap_stock ap)
         else (wish_wanted (ap_stock ap))((ci_wfm_url ci, sub) := max 0 (wish_wanted (ap_stock ap) (ci_wfm_url ci, sub) - sold_quantity q)))"
    using change_wish_buy[OF inv, of env ci, unfolded ci(2,3)] by (elim exE conjE) (rule that; assumption)
  define ap1 where "ap1 = ap\<lparr>ap_stock := db'\<rparr>"
  define ops where "ops = os_add os_new (''WishListItemBought_'' @ tag)"
  have ops: "ops = [''WishListItemBought_'' @ tag]" by (simp add: ops_def os_add_def os_new_def)
  have early: "returns_early (wish_list_flags date) ops \<longleftrightarrow> tag = ''NotFound''"
    using db'(3)
    by (auto simp: returns_early_def wish_list_flags_def os_from_def os_add_def os_new_def map_filter_simps strip_prefix_def
        ops os_ends_with_def ends_with_def)
  define synced where "synced = fst (sync_order env ap1 ci BuyOrder (os_from [''ForceOrderSync'']))"
  define ap2 where "ap2 = snd (sync_order env ap1 ci BuyOrder (os_from [''ForceOrderSync'']))"
  have sync: "sync_order env ap1 ci BuyOrder (os_from [''ForceOrderSync'']) = (synced, ap2)" by (simp add: synced_def ap2_def)
  have step: "(r, ap') = (if tag = ''NotFound'' then (Inr (os_add ops ''EarlyReturnFlagTriggered'', row), ap1)
      else case synced of Inl e \<Rightarrow> (Inl e, ap2)
      | Inr stag \<Rightarrow> (case record_transaction env ap2 ci (recordable ''HandleWishListItem'' (wish_to_transaction ci user)) BuyOrder (wish_list_flags date) (os_add ops stag) of
           (Inl e, ap3) \<Rightarrow> (Inl e, ap3) | (Inr ops1, ap3) \<Rightarrow> (Inr (ops1, row), ap3)))"
    unfolding res[symmetric] handle_wish_list_def handle_wish_list_by_entity_def valid sum.case change prod.case Let_def
      ops_def[symmetric] ap1_def[symmetric] early sync by simp
  show ?thesis
  proof (cases "tag = ''NotFound''")
    case True
    have ops': "os_add ops ''EarlyReturnFlagTriggered'' = [wish_list_not_found, ''EarlyReturnFlagTriggered'']"
      by (simp add: ops True os_add_def os_has_def wish_list_not_found_def)
    have "r = Inr ([wish_list_not_found, ''EarlyReturnFlagTriggered''], row)" "ap' = ap1"
      using step unfolding if_P[OF True] ops' by simp_all
    then show ?thesis using db'(1,2,4,5) unfolding ap1_def by (simp add: True)
  next
    case False
    have ap2: "ap_stock ap2 = db'" "ap_txs ap2 = ap_txs ap"
      using sync_order_stock[OF sync] by (simp_all add: ap1_def)
    show ?thesis
    proof (cases synced)
      case (Inl e)
      have "r = Inl e" "ap' = ap2" using step unfolding if_not_P[OF False] Inl by simp_all
      then show ?thesis using False ap2 db'(1,2,4,5) by (auto simp: booked_def)
    next
      case (Inr stag)
      obtain r1 ap3 where rec: "record_transaction env ap2 ci (recordable ''HandleWishListItem'' (wish_to_transaction ci user)) BuyOrder (wish_list_flags date) (os_add ops stag) = (r1, ap3)"
        by fastforce
      have eq: "ap' = ap3" "isl r = isl r1" "\<forall>ops1 m. r = Inr (ops1, m) \<longrightarrow> r1 = Inr ops1"
        using step unfolding if_not_P[OF False] Inr sum.case rec prod.case by (auto split: sum.splits)
      have tags: "\<forall>ops1. r1 = Inr ops1 \<longrightarrow> set ops1 \<subseteq> {''WishListItemBought_'' @ tag, stag, ''PriceZeroNoTransaction''}"
        using rec by (auto simp: record_transaction_def ops split: if_splits sum.splits prod.splits)
      obtain st where stag: "stag = ''WFMItem_'' @ st"
        using sync Inr by (auto simp: sync_order_def split: prod.splits sum.splits)
      have "wish_list_not_found \<notin> {''WishListItemBought_'' @ tag, stag, ''PriceZeroNoTransaction''}"
        using False by (simp add: wish_list_not_found_def stag)
      then have "\<forall>ops m. r = Inr (ops, m) \<longrightarrow> wish_list_not_found \<notin> set ops" using eq(3) tags by blast
      moreover have "ap_stock ap' = db'" "booked r p (ap_txs ap) (ap_txs ap')"
        using record_transaction_frame[OF rec] ap2 ci(1) eq(1,2) by (cases r1; auto simp: booked_def)+
      ultimately show ?thesis using False db'(1,2,4,5) by auto
    qed
  qed
qed

lemma handle_wish_list_invalid:
  "validate_wish (hv_cache env) ((create_item_new url sub q)\<lparr>ci_bought := Some p\<rparr>) = Inl e \<Longrightarrow>
   handle_wish_list env ap url sub q p user ty flags = (Inl (Failed e), ap)"
  by (simp add: handle_wish_list_def handle_wish_list_by_entity_def)

section \<open>The interface on the real handlers\<close>

lemma apply_item_keeps:
  assumes "tables_ok ap" "1 \<le> re_quantity item"
  shows "tables_ok (snd (apply_item env direction player date ap item))"
proof (cases direction)
  case DirSale
  obtain r ap' where "handle_item env ap (re_slug item) (re_sub_type item) (re_quantity item) (re_price item) player SellOrder
      (item_flags direction date) = (r, ap')" by fastforce
  with handle_item_keeps[OF _ _ this] assms DirSale show ?thesis
    by (auto simp: apply_item_def tables_ok_def split: sum.splits)
next
  case DirPurchase
  define ci where "ci = (create_item_new (re_slug item) (re_sub_type item) (re_quantity item))\<lparr>ci_bought := Some (re_price item)\<rparr>"
  obtain r ap1 where wish: "handle_wish_list env ap (re_slug item) (re_sub_type item) (re_quantity item) (re_price item) player BuyOrder
      (wish_list_flags date) = (r, ap1)" by fastforce
  have ap1: "stock_inv (ap_stock ap1)"
  proof (cases "validate_wish (hv_cache env) ci")
    case (Inl e)
    from handle_wish_list_invalid[OF this[unfolded ci_def]] wish assms show ?thesis by (simp add: tables_ok_def)
  next
    case (Inr ci')
    from handle_wish_list_buy[OF _ this[unfolded ci_def] wish] assms show ?thesis by (simp add: tables_ok_def)
  qed
  obtain r2 ap2 where item: "handle_item env ap1 (re_slug item) (re_sub_type item) (re_quantity item) (re_price item) player BuyOrder
      (item_flags direction date) = (r2, ap2)" by fastforce
  then have "stock_inv (ap_stock ap2)" using handle_item_keeps[OF ap1 assms(2) item] by simp
  then show ?thesis
    using ap1 wish item by (auto simp: apply_item_def tables_ok_def DirPurchase split: sum.splits)
qed

interpretation handler_applier: item_applier "apply_item env direction player date" tables_ok
  for env direction player date
  by unfold_locales (rule apply_item_keeps)

section \<open>Properties\<close>

text \<open>
  C12. A trade is applied item by item and stops at the first failure: on success every item was
  applied, in order; on failure the items before the failing one were applied and exactly those
  are reported, the failing one is the last one tried and the rest is never tried; either way
  the tables stay consistent.
\<close>

theorem apply_stops_at_the_first_failure:
  assumes "apply_items (apply_item env direction player date) ap items = (r, ap')"
    and "tables_ok ap" "\<forall>i\<in>set items. 1 \<le> re_quantity i"
  shows "tables_ok ap' \<and> (case r of
      Inr _ \<Rightarrow> ap' = after_items (apply_item env direction player date) ap items
        \<and> (\<forall>n<length items. \<not> isl (fst (apply_item env direction player date
              (after_items (apply_item env direction player date) ap (take n items)) (items ! n))))
    | Inl (labels, e) \<Rightarrow> \<exists>n<length items. labels = map item_label (take n items)
        \<and> fst (apply_item env direction player date (after_items (apply_item env direction player date) ap (take n items)) (items ! n)) = Inl e
        \<and> ap' = after_items (apply_item env direction player date) ap (take (Suc n) items)
        \<and> (\<forall>m<n. \<not> isl (fst (apply_item env direction player date
              (after_items (apply_item env direction player date) ap (take m items)) (items ! m)))))"
proof -
  have "apply_from (apply_item env direction player date) [] ap items = (r, ap')"
    using assms(1) by (simp add: apply_items_def)
  from apply_from_spec[OF this] have "case r of
      Inr _ \<Rightarrow> ap' = after_items (apply_item env direction player date) ap items
        \<and> (\<forall>n<length items. \<not> isl (fst (apply_item env direction player date
              (after_items (apply_item env direction player date) ap (take n items)) (items ! n))))
    | Inl (labels, e) \<Rightarrow> \<exists>n<length items. labels = map item_label (take n items)
        \<and> fst (apply_item env direction player date (after_items (apply_item env direction player date) ap (take n items)) (items ! n)) = Inl e
        \<and> ap' = after_items (apply_item env direction player date) ap (take (Suc n) items)
        \<and> (\<forall>m<n. \<not> isl (fst (apply_item env direction player date
              (after_items (apply_item env direction player date) ap (take m items)) (items ! m))))"
    unfolding append_Nil .
  moreover have "tables_ok ap'"
    using handler_applier.apply_items_keep[of ap items env direction player date] assms by simp
  ultimately show ?thesis by blast
qed

definition demo_item :: "string \<Rightarrow> int \<Rightarrow> resolved_item" where
  "demo_item slug q = \<lparr>re_name = ''Name'', re_slug = slug, re_wfm_id = ''id'', re_item_name = ''Name'',
     re_sub_type = None, re_quantity = q, re_price = 30, re_matched_by = ''name''\<rparr>"

lemma demo_tables: "tables_ok demo_app"
  by (simp add: tables_ok_def stock_inv_def stock_wf_def wish_wf_def demo_app_def demo_stock_defs)

theorem apply_stops_at_the_first_failure_witness:
  "tables_ok (snd (apply_items (apply_item demo_env DirSale ''bob'' ''now'') demo_app [demo_item ''raw'' 2, demo_item ''other'' 1]))"
  using apply_stops_at_the_first_failure[OF prod.collapse[symmetric] demo_tables,
      of "[demo_item ''raw'' 2, demo_item ''other'' 1]" demo_env DirSale "''bob''" "''now''"]
  by (simp add: demo_item_def)

text \<open>
  A purchase serves the wish list first: when a row of the wish list asks for the item, that
  row is lowered by the pieces bought (and removed when nothing is left to want) and the stock is
  not touched; otherwise the stock grows by the pieces bought and the wish list is not touched.
  When it succeeds exactly one transaction is written for a priced item; when it fails, none.
\<close>

theorem purchase_serves_the_wish_list_first:
  assumes ok: "tables_ok ap" and q: "1 \<le> re_quantity item"
    and wish: "validate_wish (hv_cache env) ((create_item_new (re_slug item) (re_sub_type item) (re_quantity item))\<lparr>ci_bought := Some (re_price item)\<rparr>) = Inr ci"
    and stock: "validate_stock (hv_cache env) ((create_item_new (re_slug item) (re_sub_type item) (re_quantity item))\<lparr>ci_bought := Some (re_price item)\<rparr>) = Inr ci'"
    and res: "apply_item env DirPurchase player date ap item = (r, ap')"
  shows "booked r (re_price item) (ap_txs ap) (ap_txs ap') \<and>
    (if row_lookup wl_key (sd_wishes (ap_stock ap)) (ci_wfm_url ci, re_sub_type item) = None
     then wish_wanted (ap_stock ap') = wish_wanted (ap_stock ap)
       \<and> stock_owned (ap_stock ap') = (stock_owned (ap_stock ap))((ci_wfm_url ci, re_sub_type item) :=
            stock_owned (ap_stock ap) (ci_wfm_url ci, re_sub_type item) + re_quantity item)
     else sd_items (ap_stock ap') = sd_items (ap_stock ap)
       \<and> wish_wanted (ap_stock ap') = (wish_wanted (ap_stock ap))((ci_wfm_url ci, re_sub_type item) :=
            max 0 (wish_wanted (ap_stock ap) (ci_wfm_url ci, re_sub_type item) - re_quantity item)))"
proof -
  define url where "url = ci_wfm_url ci"
  define sub where "sub = re_sub_type item"
  obtain r1 ap1 where w: "handle_wish_list env ap (re_slug item) sub (re_quantity item) (re_price item) player BuyOrder
      (wish_list_flags date) = (r1, ap1)" by fastforce
  note spec = handle_wish_list_buy[OF ok[unfolded tables_ok_def] wish w[unfolded sub_def]]
  show ?thesis
  proof (cases "row_lookup wl_key (sd_wishes (ap_stock ap)) (url, sub) = None")
    case False
    then have *: "booked r1 (re_price item) (ap_txs ap) (ap_txs ap1)" "sd_items (ap_stock ap1) = sd_items (ap_stock ap)"
      "wish_wanted (ap_stock ap1) = (wish_wanted (ap_stock ap))((url, sub) := max 0 (wish_wanted (ap_stock ap) (url, sub) - re_quantity item))"
      "\<And>ops m. r1 = Inr (ops, m) \<Longrightarrow> wish_list_not_found \<notin> set ops"
      using spec q by (auto simp: url_def sub_def sold_quantity_def)
    have "ap' = ap1" "isl r = isl r1"
      using res w *(4) by (auto simp: apply_item_def sub_def split: sum.splits if_splits)
    then show ?thesis using * False by (auto simp: booked_def url_def sub_def)
  next
    case True
    then obtain m where r1: "r1 = Inr ([wish_list_not_found, ''EarlyReturnFlagTriggered''], m)"
      and ap1: "ap_txs ap1 = ap_txs ap" "wish_wanted (ap_stock ap1) = wish_wanted (ap_stock ap)"
        "sd_items (ap_stock ap1) = sd_items (ap_stock ap)" "stock_inv (ap_stock ap1)"
      using spec by (auto simp: url_def sub_def)
    obtain r2 ap2 where h: "handle_item env ap1 (re_slug item) sub (re_quantity item) (re_price item) player BuyOrder
        (item_flags DirPurchase date) = (r2, ap2)" by fastforce
    have r: "ap' = ap2" "isl r = isl r2"
      using res w h r1 by (auto simp: apply_item_def sub_def split: sum.splits)
    have fields: "ci_quantity ci' = re_quantity item" "ci_sub_type ci' = sub"
      using validate_stock_fields[OF stock] by (simp_all add: create_item_new_def sub_def)
    have "ci_wfm_url ci' = url"
      using wish stock
      by (auto simp: validate_wish_def validate_stock_def create_item_new_def fill_item_def url_def Let_def
          split: sum.splits list.splits option.splits)
    then obtain tag row db' where c: "change_stock env ap1 ci' BuyOrder = (Inr (tag, row), ap1\<lparr>ap_stock := db'\<rparr>)"
        "sd_wishes db' = sd_wishes (ap_stock ap1)"
        "stock_owned db' = (stock_owned (ap_stock ap1))((url, sub) := stock_owned (ap_stock ap1) (url, sub) + re_quantity item)"
      using change_stock_buy[OF ap1(4), of ci' env] fields q by auto
    have "ap_stock ap2 = db'" "booked r2 (re_price item) (ap_txs ap1) (ap_txs ap2)"
      using handle_item_after_change[OF stock c(1) h[unfolded sub_def]] by simp_all
    moreover have "stock_owned (ap_stock ap1) = stock_owned (ap_stock ap)" using ap1(3) by (simp add: stock_owned_def fun_eq_iff)
    moreover have "wish_wanted db' = wish_wanted (ap_stock ap1)" using c(2) by (simp add: wish_wanted_def fun_eq_iff)
    ultimately show ?thesis using True r c(3) ap1 by (simp add: booked_def url_def sub_def)
  qed
qed

theorem purchase_serves_the_wish_list_first_witness:
  "stock_owned (ap_stock (snd (apply_item demo_env DirPurchase ''bob'' ''now'' demo_app (demo_item ''raw'' 2)))) (''url'', None) = 5"
proof -
  let ?new = "(create_item_new (re_slug (demo_item ''raw'' 2)) (re_sub_type (demo_item ''raw'' 2)) (re_quantity (demo_item ''raw'' 2)))
      \<lparr>ci_bought := Some (re_price (demo_item ''raw'' 2))\<rparr>"
  obtain w where w: "validate_wish (hv_cache demo_env) ?new = Inr w" "ci_wfm_url w = ''url''"
    by (simp add: validate_wish_def cache_get_def demo_env_def demo_cache_def create_item_new_def fill_item_def demo_item_def)
  obtain c where c: "validate_stock (hv_cache demo_env) ?new = Inr c"
    by (simp add: validate_stock_def cache_get_def demo_env_def demo_cache_def create_item_new_def fill_item_def demo_item_def)
  have q: "1 \<le> re_quantity (demo_item ''raw'' 2)" by (simp add: demo_item_def)
  have "row_lookup wl_key (sd_wishes (ap_stock demo_app)) (''url'', None) = None"
    and "stock_owned (ap_stock demo_app) (''url'', None) = 3"
    by (simp_all add: demo_app_def stock_owned_def demo_stock_defs)
  then show ?thesis
    using purchase_serves_the_wish_list_first[OF demo_tables q w(1) c prod.collapse[symmetric], of "''bob''" "''now''"] w(2)
    by (simp add: demo_item_def)
qed

end
