(* ===== verification/Trade_Resolve.thy ===== *)
theory Trade_Resolve
  imports Trade_Apply
begin

text \<open>
  From the items of a reported trade to the items to apply
  (\<open>qf_core/src/helper_link/trades/resolve.rs\<close>, \<open>split.rs\<close> and \<open>sets.rs\<close>): names are matched
  with the item list, parts are folded into sets and the platinum is split over the lines. The
  names of the game are ASCII but for the glyphs of the private use area, so lower case and white
  space are those of ASCII here; \<open>f64\<close> is \<open>real\<close>.
\<close>

section \<open>Names\<close>

text \<open>A glyph of U+E000 to U+F8FF is three bytes of UTF-8.\<close>

definition private_use :: "char \<Rightarrow> char \<Rightarrow> char \<Rightarrow> bool" where
  "private_use b1 b2 b3 \<longleftrightarrow>
     (let n1 = of_char b1 :: nat; n2 = of_char b2 :: nat; n3 = of_char b3 :: nat
      in (n1 = 0xEE \<and> 0x80 \<le> n2 \<and> n2 \<le> 0xBF \<or> n1 = 0xEF \<and> 0x80 \<le> n2 \<and> n2 \<le> 0xA3) \<and> 0x80 \<le> n3 \<and> n3 \<le> 0xBF)"

text \<open>\<open>trim_end_matches(is_private_use)\<close> on the reversed bytes.\<close>

fun drop_glyphs :: "string \<Rightarrow> string" where
  "drop_glyphs (b3 # b2 # b1 # s) = (if private_use b1 b2 b3 then drop_glyphs s else b3 # b2 # b1 # s)"
| "drop_glyphs s = s"

fun split_whitespace :: "string \<Rightarrow> string list" where
  "split_whitespace [] = []"
| "split_whitespace (c # s) =
     (if is_space c then split_whitespace s
      else case s of
        [] \<Rightarrow> [[c]]
      | d # _ \<Rightarrow>
          (if is_space d then [c] # split_whitespace s
           else case split_whitespace s of [] \<Rightarrow> [[c]] | w # ws \<Rightarrow> (c # w) # ws))"

definition normalise :: "string \<Rightarrow> string" where
  "normalise name = to_ascii_lowercase (str_join '' '' (split_whitespace (rev (drop_glyphs (rev (str_trim name))))))"

text \<open>\<open>Overrides::parse\<close> from the table \<open>names\<close> that the TOML reader returns.\<close>

definition overrides_of :: "(string \<times> string) list \<Rightarrow> (string \<times> string) list" where
  "overrides_of names = map (\<lambda>(name, slug). (normalise name, str_trim slug)) names"

definition slug_for :: "(string \<times> string) list \<Rightarrow> string \<Rightarrow> string option" where
  "slug_for overrides name = map_of overrides (normalise name)"

section \<open>The item index\<close>

text \<open>By name the first item counts, by slug and by id the last one.\<close>

record item_index =
  ix_names :: "cache_item list"
  ix_slugs :: "cache_item list"
  ix_ids :: "cache_item list"

definition name_key :: "cache_item \<Rightarrow> string" where
  "name_key it = normalise (ca_name it)"

definition index_item :: "item_index \<Rightarrow> cache_item \<Rightarrow> item_index" where
  "index_item ix it =
     \<lparr>ix_names = (if row_lookup name_key (ix_names ix) (name_key it) = None then ix_names ix @ [it] else ix_names ix),
      ix_slugs = row_replace ca_wfm_url it (ix_slugs ix),
      ix_ids = row_replace ca_wfm_id it (ix_ids ix)\<rparr>"

definition from_items :: "cache_item list \<Rightarrow> item_index" where
  "from_items items = foldl index_item \<lparr>ix_names = [], ix_slugs = [], ix_ids = []\<rparr> items"

definition by_name :: "item_index \<Rightarrow> string \<Rightarrow> cache_item option" where
  "by_name ix name = row_lookup name_key (ix_names ix) (normalise name)"

definition by_slug :: "item_index \<Rightarrow> string \<Rightarrow> cache_item option" where
  "by_slug ix slug = row_lookup ca_wfm_url (ix_slugs ix) slug"

definition by_id :: "item_index \<Rightarrow> string \<Rightarrow> cache_item option" where
  "by_id ix i = row_lookup ca_wfm_id (ix_ids ix) i"

definition set_roots :: "item_index \<Rightarrow> cache_item list" where
  "set_roots ix = filter (\<lambda>it. ''set'' \<in> set (ca_tags it)) (ix_slugs ix)"

lemma by_slug_url: "by_slug ix slug = Some it \<Longrightarrow> ca_wfm_url it = slug"
  unfolding by_slug_def by (blast dest: row_lookup_Some)

lemma from_items_snoc: "from_items (items @ [it]) = index_item (from_items items) it"
  by (simp add: from_items_def)

lemma by_slug_from_items: "by_slug (from_items items) slug = List.find (\<lambda>it. ca_wfm_url it = slug) (rev items)"
proof (induction items rule: rev_induct)
  case (snoc it items)
  then show ?case by (simp add: from_items_snoc index_item_def by_slug_def row_lookup_replace)
qed (simp add: from_items_def by_slug_def row_lookup_def)

lemma by_name_from_items: "by_name (from_items items) name = List.find (\<lambda>it. name_key it = normalise name) items"
proof (induction items rule: rev_induct)
  case (snoc it items)
  then show ?case
    by (auto simp: from_items_snoc index_item_def by_name_def row_lookup_def find_append split: option.splits)
qed (simp add: from_items_def by_name_def row_lookup_def)

section \<open>Classifying and resolving\<close>

definition platinum_name :: string where
  "platinum_name = ''Platinum''"

record classified =
  cl_direction :: direction
  cl_platinum :: int
  cl_goods :: "raw_item list"
  cl_extras :: "raw_item list"

definition platinum_of :: "raw_item list \<Rightarrow> int" where
  "platinum_of items = sum_list (map ri_quantity (filter (\<lambda>i. ri_name i = platinum_name) items))"

definition without_platinum :: "raw_item list \<Rightarrow> raw_item list" where
  "without_platinum items = filter (\<lambda>i. ri_name i \<noteq> platinum_name) items"

definition no_platinum_side :: string where
  "no_platinum_side = ''no_platinum_side''"

definition classify_trade :: "raw_trade \<Rightarrow> string + classified" where
  "classify_trade t =
     (let offered = platinum_of (rt_offered t); received = platinum_of (rt_received t)
      in if 0 < offered \<and> \<not> 0 < received then
           Inr \<lparr>cl_direction = DirPurchase, cl_platinum = offered, cl_goods = without_platinum (rt_received t),
                cl_extras = without_platinum (rt_offered t)\<rparr>
         else if \<not> 0 < offered \<and> 0 < received then
           Inr \<lparr>cl_direction = DirSale, cl_platinum = received, cl_goods = without_platinum (rt_offered t),
                cl_extras = without_platinum (rt_received t)\<rparr>
         else Inl no_platinum_side)"

definition resolved_as :: "raw_item \<Rightarrow> cache_item \<Rightarrow> string \<Rightarrow> resolved_item" where
  "resolved_as raw it how =
     (let variant = Option.bind (ca_sub_type it) (\<lambda>s. Option.bind (it_variants s) (\<lambda>v. first_of v));
          rank = map_option (\<lambda>r. case Option.bind (ca_sub_type it) it_max_rank of None \<Rightarrow> r | Some m \<Rightarrow> min r m) (ri_rank raw);
          sub = (if rank \<noteq> None \<or> variant \<noteq> None
                 then Some \<lparr>sub_rank = rank, sub_charges = None, sub_variant = variant, sub_amber_stars = None, sub_cyan_stars = None\<rparr>
                 else None)
      in \<lparr>re_name = ri_name raw, re_slug = ca_wfm_url it, re_wfm_id = ca_wfm_id it, re_item_name = ca_name it,
          re_sub_type = sub, re_quantity = ri_quantity raw, re_price = 0, re_matched_by = how\<rparr>)"

definition resolve_item :: "raw_item \<Rightarrow> item_index \<Rightarrow> (string \<times> string) list \<Rightarrow> resolved_item option" where
  "resolve_item raw ix overrides =
     (case by_name ix (ri_name raw) of
        Some it \<Rightarrow> Some (resolved_as raw it ''name'')
      | None \<Rightarrow> Option.bind (slug_for overrides (ri_name raw))
                  (\<lambda>slug. map_option (\<lambda>it. resolved_as raw it ''override'') (by_slug ix slug)))"

record trade_resolution =
  rl_direction :: "direction option"
  rl_platinum :: int
  rl_items :: "resolved_item list"
  rl_extras :: "raw_item list"

definition no_resolution :: trade_resolution where
  "no_resolution = \<lparr>rl_direction = None, rl_platinum = 0, rl_items = [], rl_extras = []\<rparr>"

text \<open>The loop over the goods: what resolved, and the names that did not.\<close>

fun resolve_goods :: "item_index \<Rightarrow> (string \<times> string) list \<Rightarrow> raw_item list \<Rightarrow> resolved_item list \<times> string list" where
  "resolve_goods ix overrides [] = ([], [])"
| "resolve_goods ix overrides (raw # raws) =
     (let (items, unresolved) = resolve_goods ix overrides raws in
      case resolve_item raw ix overrides of
        Some item \<Rightarrow> (item # items, unresolved)
      | None \<Rightarrow> (items, ri_name raw # unresolved))"

definition resolve_trade ::
  "raw_trade \<Rightarrow> item_index \<Rightarrow> (string \<times> string) list \<Rightarrow> string + trade_resolution \<times> string list" where
  "resolve_trade t ix overrides =
     (case classify_trade t of
        Inl e \<Rightarrow> Inl e
      | Inr c \<Rightarrow>
          (let (items, unresolved) = resolve_goods ix overrides (cl_goods c)
           in Inr (\<lparr>rl_direction = Some (cl_direction c), rl_platinum = cl_platinum c, rl_items = items,
                    rl_extras = cl_extras c\<rparr>, unresolved)))"

section \<open>What resolving keeps\<close>

text \<open>Every good is either an item, with its name and quantity, or an unresolved name.\<close>

lemma resolve_item_fields:
  "resolve_item raw ix overrides = Some item \<Longrightarrow> re_name item = ri_name raw \<and> re_quantity item = ri_quantity raw \<and> re_price item = 0"
  by (auto simp: resolve_item_def resolved_as_def Let_def bind_eq_Some_conv split: option.splits)

lemma resolve_goods_spec:
  "resolve_goods ix overrides raws = (items, unresolved) \<Longrightarrow>
   items = List.map_filter (\<lambda>raw. resolve_item raw ix overrides) raws
   \<and> unresolved = map ri_name (filter (\<lambda>raw. resolve_item raw ix overrides = None) raws)"
  by (induction raws arbitrary: items unresolved) (auto simp: map_filter_simps split: prod.splits option.splits)

lemma classify_goods:
  "classify_trade t = Inr c \<Longrightarrow> 0 < cl_platinum c \<and>
     cl_platinum c = platinum_of (if cl_direction c = DirSale then rt_received t else rt_offered t)
   \<and> cl_goods c = without_platinum (if cl_direction c = DirSale then rt_offered t else rt_received t)
   \<and> platinum_of (if cl_direction c = DirSale then rt_offered t else rt_received t) \<le> 0"
  by (auto simp: classify_trade_def Let_def split: if_splits)

end
