(* ===== verification/Trade_Split.thy ===== *)
theory Trade_Split
  imports Trade_Resolve
begin

text \<open>
  Platinum over the lines of a trade (\<open>helper_link/trades/split.rs\<close>) and parts into sets
  (\<open>sets.rs\<close>), with the cache of the parts of each set. The HTTP client is a function argument
  that returns the decoded item detail or an error text.
\<close>

section \<open>Splitting the platinum\<close>

definition known_weights :: "real option list \<Rightarrow> real list" where
  "known_weights ws = filter (\<lambda>w. 0 < w) (List.map_filter (\<lambda>w. w) ws)"

definition fill_weight :: "real option list \<Rightarrow> real" where
  "fill_weight ws =
     (if known_weights ws = [] then 1 else sum_list (known_weights ws) / real (length (known_weights ws)))"

definition filled_weights :: "real option list \<Rightarrow> real list" where
  "filled_weights ws = map (\<lambda>w. case w of Some v \<Rightarrow> if 0 < v then v else fill_weight ws | None \<Rightarrow> fill_weight ws) ws"

text \<open>The loop that hands out what rounding left over, one at a time from line \<open>i\<close> on.\<close>

fun hand_out :: "int list \<Rightarrow> nat \<Rightarrow> nat \<Rightarrow> int list" where
  "hand_out shares 0 i = shares"
| "hand_out shares (Suc k) i = hand_out (shares[i := shares ! i + 1]) k (Suc i mod length shares)"

definition split_platinum :: "int \<Rightarrow> real option list \<Rightarrow> int list" where
  "split_platinum plat ws =
     (if ws = [] then []
      else let filled = filled_weights ws;
               shares = map (\<lambda>w. \<lfloor>real_of_int plat * w / sum_list filled\<rfloor>) filled;
               leftover = plat - sum_list shares
           in hand_out shares (nat leftover) 0)"

definition order_type_of :: "direction \<Rightarrow> order_type" where
  "order_type_of d = (case d of DirSale \<Rightarrow> SellOrder | DirPurchase \<Rightarrow> BuyOrder)"

definition weights_for ::
  "resolved_item list \<Rightarrow> direction \<Rightarrow> (resolved_item \<Rightarrow> order_type \<Rightarrow> int option) \<Rightarrow> (resolved_item \<Rightarrow> real option)
     \<Rightarrow> real option list" where
  "weights_for items d own_price median =
     map (\<lambda>item. map_option (\<lambda>unit. unit * real_of_int (re_quantity item))
            (case own_price item (order_type_of d) of Some p \<Rightarrow> Some (real_of_int p) | None \<Rightarrow> median item)) items"

definition price_items :: "resolved_item list \<Rightarrow> int \<Rightarrow> real option list \<Rightarrow> resolved_item list" where
  "price_items items plat ws =
     (let prices = split_platinum plat ws
      in map2 (\<lambda>item p. item\<lparr>re_price := p\<rparr>) items prices @ drop (length prices) items)"

text \<open>\<open>medians\<close> looks the median of each item up in \<open>item_stats\<close>.\<close>

definition medians ::
  "(string \<Rightarrow> string \<Rightarrow> real option) \<Rightarrow> resolved_item list \<Rightarrow> string \<times> string \<Rightarrow> real option" where
  "medians stats items =
     foldl (\<lambda>m item. let k = (re_wfm_id item, key_of (re_sub_type item)) in
              case stats (fst k) (snd k) of Some v \<Rightarrow> m(k \<mapsto> v) | None \<Rightarrow> m) Map.empty items"

lemma medians_lookup:
  "medians stats items (i, k) =
     (if (i, k) \<in> set (map (\<lambda>item. (re_wfm_id item, key_of (re_sub_type item))) items) then stats i k else None)"
proof -
  have "foldl (\<lambda>m item. let k = (re_wfm_id item, key_of (re_sub_type item)) in
              case stats (fst k) (snd k) of Some v \<Rightarrow> m(k \<mapsto> v) | None \<Rightarrow> m) m0 items (i, k) =
     (if (i, k) \<in> set (map (\<lambda>item. (re_wfm_id item, key_of (re_sub_type item))) items) \<and> stats i k \<noteq> None
      then stats i k else m0 (i, k))" for m0
    by (induction items arbitrary: m0) (auto simp: Let_def split: option.splits)
  then show ?thesis unfolding medians_def by auto
qed

section \<open>The split adds up\<close>

lemma sum_list_positive: "xs \<noteq> [] \<Longrightarrow> \<forall>x\<in>set xs. 0 < x \<Longrightarrow> 0 < sum_list (xs :: real list)"
  by (induction xs rule: list_nonempty_induct) auto

lemma sum_list_incr: "i < length xs \<Longrightarrow> sum_list (xs[i := xs ! i + 1]) = sum_list (xs :: int list) + 1"
  by (induction xs arbitrary: i) (auto split: nat.splits)

lemma known_weights_pos: "w \<in> set (known_weights ws) \<Longrightarrow> 0 < w"
  by (simp add: known_weights_def)

lemma fill_weight_pos: "0 < fill_weight ws"
proof (cases "known_weights ws = []")
  case False
  then have "0 < sum_list (known_weights ws)" by (intro sum_list_positive) (auto dest: known_weights_pos)
  with False show ?thesis by (simp add: fill_weight_def)
qed (simp add: fill_weight_def)

lemma filled_weights_pos: "w \<in> set (filled_weights ws) \<Longrightarrow> 0 < w"
  using fill_weight_pos[of ws] by (auto simp: filled_weights_def split: option.splits if_splits)

lemma hand_out_nth:
  "i + k \<le> length shares \<Longrightarrow> n < length shares \<Longrightarrow>
   hand_out shares k i ! n = shares ! n + (if i \<le> n \<and> n < i + k then 1 else 0)"
proof (induction k arbitrary: shares i)
  case (Suc k)
  show ?case
  proof (cases "Suc i < length shares")
    case True
    with Suc show ?thesis by (auto simp: nth_list_update)
  next
    case False
    with Suc.prems have "Suc i = length shares" "k = 0" by auto
    then show ?thesis using Suc.prems by (auto simp: nth_list_update \<open>k = 0\<close>)
  qed
qed simp

lemma hand_out_length [simp]: "length (hand_out shares k i) = length shares"
  by (induction shares k i rule: hand_out.induct) auto

lemma hand_out_sum:
  "i < length shares \<Longrightarrow> sum_list (hand_out shares k i) = sum_list shares + int k"
proof (induction k arbitrary: shares i)
  case (Suc k)
  then have "sum_list (shares[i := shares ! i + 1]) = sum_list shares + 1" by (simp add: sum_list_incr)
  moreover have "Suc i mod length shares < length shares" using Suc.prems by (intro mod_less_divisor) auto
  ultimately show ?case using Suc.IH[of "Suc i mod length shares" "shares[i := shares ! i + 1]"] by simp
qed simp

lemma floor_sum:
  "real_of_int (sum_list (map floor xs)) \<le> sum_list xs"
  "xs \<noteq> [] \<Longrightarrow> sum_list xs < real_of_int (sum_list (map floor xs)) + real (length xs)"
proof -
  show "real_of_int (sum_list (map floor xs)) \<le> sum_list xs" by (induction xs) (auto intro: add_mono)
  show "xs \<noteq> [] \<Longrightarrow> sum_list xs < real_of_int (sum_list (map floor xs)) + real (length xs)"
  proof (induction xs rule: list_nonempty_induct)
    case (single x)
    show ?case using real_of_int_floor_add_one_gt[of x] by simp
  next
    case (cons x xs)
    then show ?case by simp linarith
  qed
qed

text \<open>The exact share of line \<open>n\<close>.\<close>

definition exact_share :: "int \<Rightarrow> real option list \<Rightarrow> nat \<Rightarrow> real" where
  "exact_share plat ws n = real_of_int plat * (filled_weights ws ! n) / sum_list (filled_weights ws)"

text \<open>
  The platinum of a trade is split without loss: there is one share per line, the shares add
  up to the platinum of the trade, and each is its proportional share rounded down or that plus
  one, so none is negative.
\<close>

theorem split_adds_up:
  assumes "0 \<le> plat" "ws \<noteq> []"
  shows "length (split_platinum plat ws) = length ws \<and> sum_list (split_platinum plat ws) = plat
    \<and> (\<forall>n<length ws. split_platinum plat ws ! n \<in> {\<lfloor>exact_share plat ws n\<rfloor>, \<lfloor>exact_share plat ws n\<rfloor> + 1}
          \<and> 0 \<le> split_platinum plat ws ! n)"
proof -
  define filled where "filled = filled_weights ws"
  define xs where "xs = map (\<lambda>w. real_of_int plat * w / sum_list filled) filled"
  have len: "length filled = length ws" "filled \<noteq> []" using assms by (auto simp: filled_def filled_weights_def)
  have pos: "\<forall>w\<in>set filled. 0 < w" using filled_weights_pos by (auto simp: filled_def)
  have sum: "sum_list xs = real_of_int plat"
  proof -
    have "sum_list xs = real_of_int plat / sum_list filled * sum_list (map (\<lambda>w. w) filled)"
      unfolding xs_def sum_list_const_mult[symmetric] by simp
    then show ?thesis using sum_list_positive[OF len(2) pos] by simp
  qed
  define shares where "shares = map floor xs"
  define left where "left = plat - sum_list shares"
  have left: "0 \<le> left" "left < int (length ws)"
    using floor_sum[of xs] sum len by (auto simp: left_def shares_def xs_def)
  have split: "split_platinum plat ws = hand_out shares (nat left) 0"
    using assms by (simp add: split_platinum_def Let_def shares_def xs_def left_def filled_def o_def)
  have "length shares = length ws" using len by (simp add: shares_def xs_def)
  moreover have "sum_list (hand_out shares (nat left) 0) = plat"
    using left hand_out_sum[of 0 shares "nat left"] assms \<open>length shares = length ws\<close> by (simp add: left_def)
  moreover have "hand_out shares (nat left) 0 ! n \<in> {\<lfloor>exact_share plat ws n\<rfloor>, \<lfloor>exact_share plat ws n\<rfloor> + 1}
      \<and> 0 \<le> hand_out shares (nat left) 0 ! n" if "n < length ws" for n
  proof -
    have "0 \<le> xs ! n"
      using that len pos assms sum_list_positive[OF len(2) pos] by (auto simp: xs_def less_imp_le)
    moreover have "shares ! n = \<lfloor>xs ! n\<rfloor>" "xs ! n = exact_share plat ws n"
      using that len by (auto simp: shares_def xs_def exact_share_def filled_def)
    ultimately show ?thesis
      using that left hand_out_nth[of 0 "nat left" shares n] \<open>length shares = length ws\<close> by auto
  qed
  ultimately show ?thesis unfolding split by simp
qed

theorem split_adds_up_witness:
  "sum_list (split_platinum 100 [Some 1, None, Some 2]) = 100"
  using split_adds_up[of 100 "[Some 1, None, Some 2]"] by simp

section \<open>Folding parts into sets\<close>

record set_part =
  pt_slug :: string
  pt_quantity :: int

definition own_parts :: "string \<Rightarrow> set_part list \<Rightarrow> set_part list" where
  "own_parts sroot ps = filter (\<lambda>p. pt_slug p \<noteq> sroot) ps"

definition need_of :: "set_part \<Rightarrow> int" where
  "need_of p = max (pt_quantity p) 1"

definition held :: "resolved_item list \<Rightarrow> string \<Rightarrow> int" where
  "held items slug = sum_list (map re_quantity (filter (\<lambda>i. re_slug i = slug) items))"

definition complete_sets :: "resolved_item list \<Rightarrow> set_part list \<Rightarrow> int" where
  "complete_sets items ps =
     (case map (\<lambda>p. held items (pt_slug p) sdiv need_of p) ps of [] \<Rightarrow> 0 | n # ns \<Rightarrow> foldl min n ns)"

text \<open>The loop that takes \<open>r\<close> pieces of one part.\<close>

fun take_part :: "string \<Rightarrow> int \<Rightarrow> resolved_item list \<Rightarrow> resolved_item list" where
  "take_part slug r [] = []"
| "take_part slug r (i # items) =
     (if re_slug i = slug
      then (let t = min r (re_quantity i) in i\<lparr>re_quantity := re_quantity i - t\<rparr> # take_part slug (r - t) items)
      else i # take_part slug r items)"

definition set_item :: "cache_item \<Rightarrow> int \<Rightarrow> resolved_item" where
  "set_item it n = \<lparr>re_name = ca_name it, re_slug = ca_wfm_url it, re_wfm_id = ca_wfm_id it, re_item_name = ca_name it,
     re_sub_type = None, re_quantity = n, re_price = 0, re_matched_by = ''set''\<rparr>"

definition take_sets :: "int \<Rightarrow> resolved_item list \<Rightarrow> set_part list \<Rightarrow> resolved_item list" where
  "take_sets sets items ps = foldl (\<lambda>is p. take_part (pt_slug p) (need_of p * sets) is) items ps"

definition fold_root :: "(string \<times> set_part list) list \<Rightarrow> item_index \<Rightarrow> resolved_item list \<Rightarrow> string \<Rightarrow> resolved_item list" where
  "fold_root parts ix items sroot =
     (case (map_of parts sroot, by_slug ix sroot) of
        (Some all_parts, Some it) \<Rightarrow>
          (let ps = own_parts sroot all_parts; sets = complete_sets items ps
           in if ps = [] \<or> sets \<le> 0 then items
              else filter (\<lambda>i. 0 < re_quantity i) (take_sets sets items ps) @ [set_item it sets])
      | _ \<Rightarrow> items)"

definition fold_sets ::
  "resolved_item list \<Rightarrow> string list \<Rightarrow> (string \<times> set_part list) list \<Rightarrow> item_index \<Rightarrow> resolved_item list" where
  "fold_sets items candidates parts ix = foldl (fold_root parts ix) items candidates"

text \<open>\<open>set_candidates\<close>: the roots whose name prefixes at least two items, sorted.\<close>

definition strip_suffix :: "string \<Rightarrow> string \<Rightarrow> string option" where
  "strip_suffix suffix s = map_option rev (strip_prefix (rev suffix) (rev s))"

definition is_candidate :: "string list \<Rightarrow> cache_item \<Rightarrow> bool" where
  "is_candidate names sroot =
     (case strip_suffix '' Set'' (ca_name sroot) of
        None \<Rightarrow> False
      | Some base \<Rightarrow> 2 \<le> length (filter (\<lambda>n. starts_with n (to_ascii_lowercase base @ '' '')) names))"

definition set_candidates :: "resolved_item list \<Rightarrow> item_index \<Rightarrow> string list" where
  "set_candidates items ix =
     (if length items < 2 then []
      else sort (map ca_wfm_url (filter (is_candidate (map (to_ascii_lowercase \<circ> re_item_name) items)) (set_roots ix))))"

section \<open>Folding keeps every piece\<close>

text \<open>What the items are worth when each piece of \<open>slug\<close> is worth \<open>v slug\<close>.\<close>

definition worth :: "(string \<Rightarrow> int) \<Rightarrow> resolved_item list \<Rightarrow> int" where
  "worth v items = sum_list (map (\<lambda>i. v (re_slug i) * re_quantity i) items)"

definition all_positive :: "resolved_item list \<Rightarrow> bool" where
  "all_positive items \<longleftrightarrow> (\<forall>i\<in>set items. 0 < re_quantity i)"

definition no_negative :: "resolved_item list \<Rightarrow> bool" where
  "no_negative items \<longleftrightarrow> (\<forall>i\<in>set items. 0 \<le> re_quantity i)"

lemma held_nonneg: "no_negative items \<Longrightarrow> 0 \<le> held items slug"
  unfolding held_def no_negative_def by (intro sum_list_nonneg) auto

lemma held_Cons: "held (i # items) slug = (if re_slug i = slug then re_quantity i else 0) + held items slug"
  by (simp add: held_def)

lemma take_part_spec:
  "0 \<le> r \<Longrightarrow> no_negative items \<Longrightarrow>
   no_negative (take_part slug r items)
   \<and> held (take_part slug r items) s = held items s - (if s = slug then min r (held items slug) else 0)
   \<and> worth v (take_part slug r items) = worth v items - v slug * min r (held items slug)"
proof (induction slug r items rule: take_part.induct)
  case (2 slug r i items)
  have rest: "no_negative items" "0 \<le> re_quantity i" "0 \<le> held items slug"
    using 2(4) held_nonneg[of items slug] by (auto simp: no_negative_def)
  show ?case
  proof (cases "re_slug i = slug")
    case True
    define t where "t = min r (re_quantity i)"
    have "0 \<le> r - t" by (simp add: t_def)
    note IH = 2(1)[OF True t_def this rest(1)]
    have split: "min r (re_quantity i + held items slug) = t + min (r - t) (held items slug)"
      using rest 2(3) by (auto simp: t_def min_def)
    show ?thesis
      using IH rest True by (auto simp: t_def[symmetric] held_Cons split worth_def no_negative_def algebra_simps) (simp add: t_def)+
  next
    case False
    with 2(2)[OF False 2(3) rest(1)] rest show ?thesis by (auto simp: held_Cons worth_def no_negative_def)
  qed
qed (simp add: held_def worth_def no_negative_def)

lemma take_sets_spec:
  "distinct (map pt_slug ps) \<Longrightarrow> 0 \<le> sets \<Longrightarrow> no_negative items \<Longrightarrow>
   (\<forall>p\<in>set ps. need_of p * sets \<le> held items (pt_slug p)) \<Longrightarrow>
   no_negative (take_sets sets items ps)
   \<and> worth v (take_sets sets items ps) = worth v items - sets * (\<Sum>p\<leftarrow>ps. need_of p * v (pt_slug p))
   \<and> (\<forall>p\<in>set ps. held (take_sets sets items ps) (pt_slug p) = held items (pt_slug p) - need_of p * sets)
   \<and> (\<forall>s. s \<notin> pt_slug ` set ps \<longrightarrow> held (take_sets sets items ps) s = held items s)"
proof (induction ps arbitrary: items)
  case (Cons p ps)
  have r: "0 \<le> need_of p * sets" using Cons.prems by (simp add: need_of_def)
  let ?items = "take_part (pt_slug p) (need_of p * sets) items"
  have step: "no_negative ?items" "\<And>s. held ?items s = held items s - (if s = pt_slug p then need_of p * sets else 0)"
      "worth v ?items = worth v items - v (pt_slug p) * (need_of p * sets)"
    using take_part_spec[OF r Cons.prems(3), of "pt_slug p"] Cons.prems(4) by auto
  have "\<forall>q\<in>set ps. pt_slug q \<noteq> pt_slug p" using Cons.prems(1) by (auto simp: image_iff)
  then have "\<forall>q\<in>set ps. need_of q * sets \<le> held ?items (pt_slug q)"
    using Cons.prems(4) by (auto simp: step(2))
  with Cons.IH[OF _ Cons.prems(2) step(1)] Cons.prems(1)
  have IH: "no_negative (take_sets sets ?items ps)"
      "worth v (take_sets sets ?items ps) = worth v ?items - sets * (\<Sum>p\<leftarrow>ps. need_of p * v (pt_slug p))"
      "\<forall>q\<in>set ps. held (take_sets sets ?items ps) (pt_slug q) = held ?items (pt_slug q) - need_of q * sets"
      "\<forall>s. s \<notin> pt_slug ` set ps \<longrightarrow> held (take_sets sets ?items ps) s = held ?items s"
    by auto
  have unfold: "take_sets sets items (p # ps) = take_sets sets ?items ps" by (simp add: take_sets_def)
  have "pt_slug p \<notin> pt_slug ` set ps" using Cons.prems(1) by simp
  then show ?case
  proof (intro conjI)
    show "worth v (take_sets sets items (p # ps)) = worth v items - sets * (\<Sum>p\<leftarrow>p # ps. need_of p * v (pt_slug p))"
      unfolding unfold IH(2) step(3) by (simp add: algebra_simps)
  qed (use IH step \<open>\<forall>q\<in>set ps. pt_slug q \<noteq> pt_slug p\<close> in \<open>auto simp: unfold\<close>)
qed (simp add: take_sets_def)

lemma foldl_min: "foldl min (n :: int) ns \<in> set (n # ns) \<and> (\<forall>m\<in>set (n # ns). foldl min n ns \<le> m)"
proof (induction ns arbitrary: n)
  case (Cons m ns)
  from Cons[of "min n m"] show ?case by (auto simp: min_def split: if_splits)
qed simp

lemma complete_sets_spec:
  assumes "ps \<noteq> []" "no_negative items"
  shows "0 \<le> complete_sets items ps"
    "\<forall>p\<in>set ps. need_of p * complete_sets items ps \<le> held items (pt_slug p)"
    "\<exists>p\<in>set ps. held items (pt_slug p) < need_of p * (complete_sets items ps + 1)"
proof -
  let ?f = "\<lambda>p. held items (pt_slug p) div need_of p"
  have div: "held items (pt_slug p) sdiv need_of p = ?f p" for p
    using held_nonneg[OF assms(2), of "pt_slug p"]
    by (cases "held items (pt_slug p) = 0") (simp_all add: signed_divide_int_eq_divide_int need_of_def)
  obtain n ns where ns: "map ?f ps = n # ns" using assms(1) by (cases ps) auto
  have sets: "complete_sets items ps = foldl min n ns"
    using ns unfolding complete_sets_def div by simp
  have in_sets: "complete_sets items ps \<in> ?f ` set ps" "\<forall>p\<in>set ps. complete_sets items ps \<le> ?f p"
    using foldl_min[of n ns] unfolding sets ns[symmetric] by auto
  have need: "0 < need_of p" for p by (simp add: need_of_def)
  show "0 \<le> complete_sets items ps"
    using in_sets(1) held_nonneg[OF assms(2)] need by (auto simp: pos_imp_zdiv_nonneg_iff)
  show "\<forall>p\<in>set ps. need_of p * complete_sets items ps \<le> held items (pt_slug p)"
  proof
    fix p assume "p \<in> set ps"
    then have "need_of p * complete_sets items ps \<le> need_of p * ?f p"
      using in_sets(2) need[of p] by (intro mult_left_mono) auto
    also have "\<dots> \<le> held items (pt_slug p)"
      using need[of p] by (simp add: mult.commute minus_mod_eq_mult_div[symmetric])
    finally show "need_of p * complete_sets items ps \<le> held items (pt_slug p)" .
  qed
  from in_sets(1) obtain p where p: "p \<in> set ps" "complete_sets items ps = ?f p" by auto
  have "held items (pt_slug p) = need_of p * ?f p + held items (pt_slug p) mod need_of p" by simp
  moreover have "held items (pt_slug p) mod need_of p < need_of p" using need by simp
  ultimately have "held items (pt_slug p) < need_of p * (complete_sets items ps + 1)"
    unfolding p(2) distrib_left by linarith
  with p(1) show "\<exists>p\<in>set ps. held items (pt_slug p) < need_of p * (complete_sets items ps + 1)" by blast
qed

text \<open>Every set is worth its parts.\<close>

definition sets_priced :: "(string \<Rightarrow> int) \<Rightarrow> (string \<times> set_part list) list \<Rightarrow> bool" where
  "sets_priced v parts \<longleftrightarrow>
     (\<forall>(sroot, ps)\<in>set parts. v sroot = (\<Sum>p\<leftarrow>own_parts sroot ps. need_of p * v (pt_slug p)))"

definition parts_distinct :: "(string \<times> set_part list) list \<Rightarrow> bool" where
  "parts_distinct parts \<longleftrightarrow> (\<forall>(sroot, ps)\<in>set parts. distinct (map pt_slug ps))"

lemma worth_append: "worth v (xs @ ys) = worth v xs + worth v ys"
  by (simp add: worth_def)

lemma worth_filter: "no_negative items \<Longrightarrow> worth v (filter (\<lambda>i. 0 < re_quantity i) items) = worth v items"
  unfolding no_negative_def worth_def by (induction items) auto

lemma held_filter: "no_negative items \<Longrightarrow> held (filter (\<lambda>i. 0 < re_quantity i) items) s = held items s"
  unfolding no_negative_def held_def by (induction items) auto

lemma fold_root_spec:
  assumes "parts_distinct parts" "all_positive items"
  shows "all_positive (fold_root parts ix items sroot)"
    "sets_priced v parts \<Longrightarrow> worth v (fold_root parts ix items sroot) = worth v items"
    "map_of parts sroot = Some ps \<Longrightarrow> by_slug ix sroot = Some it \<Longrightarrow> own_parts sroot ps \<noteq> [] \<Longrightarrow>
       \<exists>p\<in>set (own_parts sroot ps). held (fold_root parts ix items sroot) (pt_slug p) < need_of p"
proof -
  have nn: "no_negative items" using assms(2) by (auto simp: all_positive_def no_negative_def)
  consider (idle) "fold_root parts ix items sroot = items"
      "map_of parts sroot = Some ps \<and> by_slug ix sroot = Some it \<and> own_parts sroot ps \<noteq> []
         \<Longrightarrow> complete_sets items (own_parts sroot ps) \<le> 0"
    | (fold) all_parts it' where "map_of parts sroot = Some all_parts" "by_slug ix sroot = Some it'"
      "own_parts sroot all_parts \<noteq> []" "0 < complete_sets items (own_parts sroot all_parts)"
      "fold_root parts ix items sroot = filter (\<lambda>i. 0 < re_quantity i)
         (take_sets (complete_sets items (own_parts sroot all_parts)) items (own_parts sroot all_parts))
       @ [set_item it' (complete_sets items (own_parts sroot all_parts))]"
  proof (cases "\<exists>q it'. map_of parts sroot = Some q \<and> by_slug ix sroot = Some it' \<and> own_parts sroot q \<noteq> []
      \<and> 0 < complete_sets items (own_parts sroot q)")
    case True
    then obtain q it' where "map_of parts sroot = Some q" "by_slug ix sroot = Some it'" "own_parts sroot q \<noteq> []"
      "0 < complete_sets items (own_parts sroot q)" by blast
    then show thesis by (intro fold[of q it']) (simp_all add: fold_root_def Let_def)
  next
    case False
    then show thesis by (intro idle) (force simp: fold_root_def Let_def split: option.splits)+
  qed
  then have "all_positive (fold_root parts ix items sroot)
    \<and> (sets_priced v parts \<longrightarrow> worth v (fold_root parts ix items sroot) = worth v items)
    \<and> (map_of parts sroot = Some ps \<longrightarrow> by_slug ix sroot = Some it \<longrightarrow> own_parts sroot ps \<noteq> [] \<longrightarrow>
       (\<exists>p\<in>set (own_parts sroot ps). held (fold_root parts ix items sroot) (pt_slug p) < need_of p))"
  proof cases
    case idle
    have "\<exists>p\<in>set (own_parts sroot ps). held items (pt_slug p) < need_of p"
      if "map_of parts sroot = Some ps" "by_slug ix sroot = Some it" "own_parts sroot ps \<noteq> []"
    proof -
      have "complete_sets items (own_parts sroot ps) = 0"
        using idle(2) that complete_sets_spec(1)[OF that(3) nn] by simp
      then show ?thesis using complete_sets_spec(3)[OF that(3) nn] by simp
    qed
    then show ?thesis using idle(1) assms by simp
  next
    case fold
    define own where "own = own_parts sroot all_parts"
    define n where "n = complete_sets items own"
    have "(sroot, all_parts) \<in> set parts" using fold(1) by (rule map_of_SomeD)
    then have dist: "distinct (map pt_slug own)"
      using assms(1) by (auto simp: own_def own_parts_def parts_distinct_def distinct_map_filter)
    have n: "0 \<le> n" "\<forall>p\<in>set own. need_of p * n \<le> held items (pt_slug p)"
      using complete_sets_spec[OF fold(3) nn] by (auto simp: own_def n_def)
    note taken = take_sets_spec[OF dist n(1) nn n(2)]
    have result: "fold_root parts ix items sroot = filter (\<lambda>i. 0 < re_quantity i) (take_sets n items own) @ [set_item it' n]"
      using fold(5) by (simp add: own_def n_def)
    have "0 < n" using fold(4) by (simp add: own_def n_def)
    have url: "ca_wfm_url it' = sroot" by (rule by_slug_url[OF fold(2)])
    have worth: "worth v (fold_root parts ix items sroot) = worth v items" if "sets_priced v parts"
    proof -
      have "v sroot = (\<Sum>p\<leftarrow>own. need_of p * v (pt_slug p))"
        using that \<open>(sroot, all_parts) \<in> set parts\<close> by (auto simp: sets_priced_def own_def)
      then show ?thesis
        unfolding result worth_append using taken[of v] by (simp add: worth_filter) (simp add: worth_def set_item_def url)
    qed
    have "\<exists>p\<in>set own. held items (pt_slug p) < need_of p * (n + 1)"
      using complete_sets_spec(3)[OF fold(3) nn] by (simp add: own_def n_def)
    then obtain p where p: "p \<in> set own" "held items (pt_slug p) < need_of p * (n + 1)" by blast
    have "pt_slug p \<noteq> sroot" using p(1) by (simp add: own_def own_parts_def)
    then have "held (fold_root parts ix items sroot) (pt_slug p) = held items (pt_slug p) - need_of p * n"
      unfolding result using taken[of v] p(1) held_filter[of "take_sets n items own"]
      by (simp add: held_def set_item_def url)
    then have "\<exists>p\<in>set own. held (fold_root parts ix items sroot) (pt_slug p) < need_of p"
      using p by (intro bexI[of _ p]) (simp_all add: distrib_left)
    then show ?thesis
      using worth fold(1) \<open>0 < n\<close> unfolding result by (auto simp: all_positive_def set_item_def own_def)
  qed
  then show "all_positive (fold_root parts ix items sroot)"
    "sets_priced v parts \<Longrightarrow> worth v (fold_root parts ix items sroot) = worth v items"
    "map_of parts sroot = Some ps \<Longrightarrow> by_slug ix sroot = Some it \<Longrightarrow> own_parts sroot ps \<noteq> [] \<Longrightarrow>
       \<exists>p\<in>set (own_parts sroot ps). held (fold_root parts ix items sroot) (pt_slug p) < need_of p"
    by blast+
qed

text \<open>
  Folding parts into sets neither loses nor makes up a piece: however the pieces are valued,
  as long as a set is worth its parts, the items are worth the same before and after, and every
  quantity stays positive. After a candidate is folded, at least one of its parts is short of
  another set.
\<close>

theorem fold_sets_keeps_every_piece:
  assumes "parts_distinct parts" "all_positive items" "sets_priced v parts"
  shows "worth v (fold_sets items candidates parts ix) = worth v items
    \<and> all_positive (fold_sets items candidates parts ix)
    \<and> (\<forall>sroot ps. map_of parts sroot = Some ps \<and> by_slug ix sroot \<noteq> None \<and> own_parts sroot ps \<noteq> [] \<longrightarrow>
         (\<exists>p\<in>set (own_parts sroot ps). held (fold_sets items (candidates @ [sroot]) parts ix) (pt_slug p) < need_of p))"
proof -
  have kept: "worth v (fold_sets items candidates parts ix) = worth v items \<and> all_positive (fold_sets items candidates parts ix)"
    using assms(2) unfolding fold_sets_def
  proof (induction candidates arbitrary: items)
    case (Cons c candidates)
    show ?case using Cons.IH[OF fold_root_spec(1)[OF assms(1) Cons.prems]] fold_root_spec(2)[OF assms(1) Cons.prems assms(3)] by simp
  qed simp
  then show ?thesis
    using fold_root_spec(3)[OF assms(1), of "fold_sets items candidates parts ix"] by (fastforce simp: fold_sets_def)
qed

definition demo_part :: "string \<Rightarrow> int \<Rightarrow> resolved_item" where
  "demo_part slug n = \<lparr>re_name = slug, re_slug = slug, re_wfm_id = slug, re_item_name = slug, re_sub_type = None,
     re_quantity = n, re_price = 0, re_matched_by = ''name''\<rparr>"

definition demo_parts :: "(string \<times> set_part list) list" where
  "demo_parts = [(''set'', [\<lparr>pt_slug = ''hilt'', pt_quantity = 1\<rparr>, \<lparr>pt_slug = ''blade'', pt_quantity = 2\<rparr>])]"

theorem fold_sets_keeps_every_piece_witness:
  "worth (\<lambda>s. if s = ''set'' then 7 else if s = ''hilt'' then 3 else 2)
     (fold_sets [demo_part ''hilt'' 2, demo_part ''blade'' 5] [''set''] demo_parts (from_items [])) = 16"
  using fold_sets_keeps_every_piece[of demo_parts "[demo_part ''hilt'' 2, demo_part ''blade'' 5]"
      "\<lambda>s. if s = ''set'' then 7 else if s = ''hilt'' then 3 else 2" "[''set'']" "from_items []"]
  by (simp add: demo_part_def demo_parts_def parts_distinct_def all_positive_def sets_priced_def own_parts_def need_of_def worth_def)

section \<open>The cache of set parts\<close>

record item_detail =
  dt_set_parts :: "string list"
  dt_quantity_in_set :: "int option"

text \<open>\<open>collect\<close> into a \<open>Result\<close>: the first error wins.\<close>

fun collect_results :: "('e + 'a) list \<Rightarrow> 'e + 'a list" where
  "collect_results [] = Inr []"
| "collect_results (Inl e # rs) = Inl e"
| "collect_results (Inr a # rs) = map_sum id (\<lambda>xs. a # xs) (collect_results rs)"

definition parse_set_parts :: "item_detail \<Rightarrow> item_index \<Rightarrow> string + string list" where
  "parse_set_parts detail ix =
     collect_results (map (\<lambda>i. case by_id ix i of Some it \<Rightarrow> Inr (ca_wfm_url it) | None \<Rightarrow> Inl (''unknown item id '' @ i))
       (dt_set_parts detail))"

definition parse_quantity_in_set :: "item_detail \<Rightarrow> int" where
  "parse_quantity_in_set detail =
     (case dt_quantity_in_set detail of Some q \<Rightarrow> if 1 \<le> q then q else 1 | None \<Rightarrow> 1)"

definition assemble :: "string list \<Rightarrow> (string \<rightharpoonup> string + int) \<Rightarrow> string + set_part list" where
  "assemble root_parts quantities =
     collect_results (map (\<lambda>slug. case quantities slug of
          Some (Inl e) \<Rightarrow> Inl e
        | Some (Inr q) \<Rightarrow> Inr \<lparr>pt_slug = slug, pt_quantity = q\<rparr>
        | None \<Rightarrow> Inr \<lparr>pt_slug = slug, pt_quantity = 1\<rparr>) root_parts)"

definition fetch_parts :: "(string \<Rightarrow> string + item_detail) \<Rightarrow> string \<Rightarrow> item_index \<Rightarrow> string + set_part list" where
  "fetch_parts get sroot ix =
     (case get sroot of
        Inl e \<Rightarrow> Inl e
      | Inr detail \<Rightarrow>
          (case parse_set_parts detail ix of
             Inl e \<Rightarrow> Inl e
           | Inr slugs \<Rightarrow>
               assemble slugs (foldl (\<lambda>m slug. m(slug \<mapsto> map_sum id parse_quantity_in_set (get slug))) Map.empty
                 (filter (\<lambda>slug. slug \<noteq> sroot) slugs))))"

text \<open>An empty list is not kept, so that the next trade asks again.\<close>

definition remember :: "(string \<rightharpoonup> set_part list) \<Rightarrow> string \<Rightarrow> set_part list \<Rightarrow> bool \<times> (string \<rightharpoonup> set_part list)" where
  "remember m sroot ps = (if ps = [] then (False, m) else (True, m(sroot \<mapsto> ps)))"

definition cache_root ::
  "(string \<Rightarrow> string + item_detail) \<Rightarrow> item_index \<Rightarrow> (string \<rightharpoonup> set_part list) \<Rightarrow> string \<Rightarrow> (string \<rightharpoonup> set_part list)" where
  "cache_root get ix m sroot =
     (if m sroot \<noteq> None then m
      else case fetch_parts get sroot ix of Inl e \<Rightarrow> m | Inr ps \<Rightarrow> snd (remember m sroot ps))"

definition parts_for ::
  "(string \<Rightarrow> string + item_detail) \<Rightarrow> item_index \<Rightarrow> (string \<rightharpoonup> set_part list) \<Rightarrow> string list
     \<Rightarrow> (string \<times> set_part list) list \<times> (string \<rightharpoonup> set_part list)" where
  "parts_for get ix m roots =
     (let m1 = foldl (cache_root get ix) m roots
      in (List.map_filter (\<lambda>r. map_option (\<lambda>ps. (r, ps)) (m1 r)) roots, m1))"

lemma collect_results_Inr:
  "collect_results rs = Inr xs \<longleftrightarrow> rs = map Inr xs"
proof (induction rs arbitrary: xs rule: collect_results.induct)
  case (3 a rs)
  show ?case
  proof (cases "collect_results rs")
    case (Inl e)
    have "rs \<noteq> map Inr ys" for ys using 3[of ys] Inl by simp
    then show ?thesis using Inl by (auto simp: Cons_eq_map_conv)
  next
    case (Inr ys)
    have rs: "rs = map Inr ys" using 3[of ys] Inr by simp
    show ?thesis using Inr inj_map_eq_map[of Inr "a # ys" xs] by (auto simp: rs inj_on_def)
  qed
qed auto

text \<open>A cached list of parts is complete: it names every part the marketplace lists, in order.\<close>

lemma fetched_parts_complete:
  assumes "fetch_parts get sroot ix = Inr ps"
  shows "\<exists>detail. get sroot = Inr detail \<and> length ps = length (dt_set_parts detail)
    \<and> (\<forall>n<length ps. \<exists>it. by_id ix (dt_set_parts detail ! n) = Some it \<and> pt_slug (ps ! n) = ca_wfm_url it)"
proof -
  obtain detail slugs qs where d: "get sroot = Inr detail" "parse_set_parts detail ix = Inr slugs" "assemble slugs qs = Inr ps"
    using assms by (auto simp: fetch_parts_def split: sum.splits)
  note slugs = d(2)[unfolded parse_set_parts_def collect_results_Inr]
  note ps = d(3)[unfolded assemble_def collect_results_Inr]
  have len: "length slugs = length (dt_set_parts detail)" "length ps = length slugs"
    using arg_cong[OF slugs, of length] arg_cong[OF ps, of length] by simp_all
  have "\<exists>it. by_id ix (dt_set_parts detail ! n) = Some it \<and> pt_slug (ps ! n) = ca_wfm_url it" if "n < length ps" for n
    using arg_cong[OF slugs, of "\<lambda>xs. xs ! n"] arg_cong[OF ps, of "\<lambda>xs. xs ! n"] that len
    by (auto split: option.splits sum.splits) (metis set_part.select_convs(1))+
  with d(1) len show ?thesis by auto
qed

lemma cache_never_empty: "m sroot \<noteq> Some [] \<Longrightarrow> foldl (cache_root get ix) m roots sroot \<noteq> Some []"
  by (induction roots arbitrary: m) (auto simp: cache_root_def remember_def split: sum.splits)

end
