(* ===== verification/Trade_Pipeline.thy ===== *)
theory Trade_Pipeline
  imports Trade_Split
begin

text \<open>
  The pipeline of reported trades (\<open>qf_core/src/helper_link/trades/mod.rs\<close> and \<open>events.rs\<close>):
  a report is checked, stored under its event id, resolved, applied or parked for review; a
  review applies the user's items or ignores the event; a sweep alerts on what got stuck. The
  trait \<open>TradeEnv\<close> is the record \<open>trade_env\<close>; the handlers' state is a type variable.
\<close>

section \<open>Events\<close>

record incoming_trade =
  in_event_id :: string
  in_detected_at :: string
  in_trade :: raw_trade

record helper_event =
  ev_id :: string
  ev_device_name :: string
  ev_received_at :: stamp
  ev_detected_at :: stamp
  ev_status :: string
  ev_reason :: "string option"
  ev_payload :: raw_trade
  ev_resolution :: "trade_resolution option"
  ev_reviewed_at :: "stamp option"
  ev_alerted_at :: "stamp option"

definition applied_status :: string where "applied_status = ''applied''"
definition needs_review :: string where "needs_review = ''needs_review''"
definition ignored_status :: string where "ignored_status = ''ignored''"
definition duplicate_status :: string where "duplicate_status = ''duplicate''"
definition applying_reason :: string where "applying_reason = ''applying''"
definition apply_interrupted :: string where "apply_interrupted = ''apply_interrupted''"
definition auto_trade_off :: string where "auto_trade_off = ''auto_trade_off''"
definition no_goods :: string where "no_goods = ''no_goods''"
definition reviewed_reason :: string where "reviewed_reason = ''reviewed''"
definition stuck_after_s :: int where "stuck_after_s = 180"
definition retention_days :: int where "retention_days = 90"

lemmas status_defs = applied_status_def needs_review_def ignored_status_def duplicate_status_def

section \<open>The table \<open>helper_events\<close>\<close>

text \<open>Rows in the order of their \<open>rowid\<close>; the event id is the primary key.\<close>

definition event_exists :: "helper_event list \<Rightarrow> string \<Rightarrow> bool" where
  "event_exists rows i \<longleftrightarrow> row_lookup ev_id rows i \<noteq> None"

definition insert_event :: "helper_event list \<Rightarrow> helper_event \<Rightarrow> helper_event list option" where
  "insert_event rows e = (if event_exists rows (ev_id e) then None else Some (rows @ [e]))"

definition get_event :: "helper_event list \<Rightarrow> string \<Rightarrow> helper_event option" where
  "get_event rows i = row_lookup ev_id rows i"

definition list_events :: "helper_event list \<Rightarrow> string option \<Rightarrow> int \<Rightarrow> int \<Rightarrow> int \<times> int \<times> int \<times> helper_event list" where
  "list_events rows status page limit =
     (let page = max page 1; limit = min (max limit 1) 200;
          hits = filter (\<lambda>e. case status of Some s \<Rightarrow> ev_status e = s | None \<Rightarrow> True) rows
      in (int (length hits), page, limit,
          take (nat limit) (drop (nat ((page - 1) * limit)) (sort_key (\<lambda>e. - ev_received_at e) (rev hits)))))"

definition set_status ::
  "helper_event list \<Rightarrow> string \<Rightarrow> string \<Rightarrow> string option \<Rightarrow> trade_resolution option \<Rightarrow> utc option \<Rightarrow> helper_event list" where
  "set_status rows i status reason res reviewed =
     row_modify ev_id i (\<lambda>e. e\<lparr>ev_status := status, ev_reason := reason, ev_resolution := res,
       ev_reviewed_at := map_option ts reviewed\<rparr>) rows"

text \<open>\<open>LIKE 'apply_failed:%'\<close>: the underscore stands for any character and ASCII case does not count.\<close>

definition like_apply_failed :: "string \<Rightarrow> bool" where
  "like_apply_failed s \<longleftrightarrow> starts_with (to_ascii_lowercase (s[5 := CHR ''_''])) ''apply_failed:''"

definition wants_alert :: "utc \<Rightarrow> helper_event \<Rightarrow> bool" where
  "wants_alert stuck_before e \<longleftrightarrow> ev_status e = needs_review \<and> ev_alerted_at e = None
     \<and> (case ev_reason e of None \<Rightarrow> False
        | Some r \<Rightarrow> like_apply_failed r \<or> r = applying_reason \<and> ev_received_at e \<le> ts stuck_before)"

definition needing_alert :: "helper_event list \<Rightarrow> utc \<Rightarrow> helper_event list" where
  "needing_alert rows stuck_before = sort_key ev_received_at (filter (wants_alert stuck_before) rows)"

definition mark_alerted :: "helper_event list \<Rightarrow> string \<Rightarrow> utc \<Rightarrow> helper_event list" where
  "mark_alerted rows i t = row_modify ev_id i (\<lambda>e. e\<lparr>ev_alerted_at := Some (ts t)\<rparr>) rows"

definition set_reason :: "helper_event list \<Rightarrow> string \<Rightarrow> string \<Rightarrow> helper_event list" where
  "set_reason rows i reason = row_modify ev_id i (\<lambda>e. e\<lparr>ev_reason := Some reason\<rparr>) rows"

definition event_retention :: "helper_event list \<Rightarrow> utc \<Rightarrow> nat \<times> helper_event list" where
  "event_retention rows now =
     (let old = (\<lambda>e. ev_received_at e < ts (now - days retention_days))
      in (length (filter old rows), filter (\<lambda>e. \<not> old e) rows))"

section \<open>The environment and the state\<close>

record 's trade_env =
  en_auto :: bool
  en_items :: "cache_item list"
  en_overrides :: "(string \<times> string) list"
  en_own_price :: "resolved_item \<Rightarrow> order_type \<Rightarrow> int option"
  en_parts :: "string list \<Rightarrow> item_index \<Rightarrow> (string \<times> set_part list) list"
  en_stats :: "string \<Rightarrow> string \<Rightarrow> real option"
  en_apply :: "direction \<Rightarrow> string \<Rightarrow> stamp \<Rightarrow> 's \<Rightarrow> resolved_item \<Rightarrow> (fault + unit) \<times> 's"

text \<open>The table, the handlers' state, and what was notified and alerted, in order.\<close>

record 's trade_state =
  tp_rows :: "helper_event list"
  tp_app :: 's
  tp_notes :: "helper_event list"
  tp_alerts :: "helper_event list"

record trade_reply =
  rp_status :: string
  rp_reason :: "string option"

definition duplicate_reply :: trade_reply where
  "duplicate_reply = \<lparr>rp_status = duplicate_status, rp_reason = None\<rparr>"

definition reply_of :: "helper_event \<Rightarrow> trade_reply" where
  "reply_of e = \<lparr>rp_status = ev_status e, rp_reason = ev_reason e\<rparr>"

section \<open>Checking and resolving a report\<close>

definition is_hex_id :: "string \<Rightarrow> bool" where
  "is_hex_id i \<longleftrightarrow> length i = 64
     \<and> list_all (\<lambda>c. let n = of_char c :: nat in 48 \<le> n \<and> n \<le> 57 \<or> 97 \<le> n \<and> n \<le> 102) i"

definition validate_incoming :: "(string \<Rightarrow> utc option) \<Rightarrow> incoming_trade \<Rightarrow> string + utc" where
  "validate_incoming parse_date inc =
     (if \<not> is_hex_id (in_event_id inc) then Inl ''event_id must be 64 lowercase hex characters''
      else case parse_date (in_detected_at inc) of None \<Rightarrow> Inl ''detected_at is not RFC 3339'' | Some t \<Rightarrow> Inr t)"

definition price_resolution :: "'s trade_env \<Rightarrow> trade_resolution \<Rightarrow> trade_resolution" where
  "price_resolution env res =
     (case rl_direction res of
        None \<Rightarrow> res
      | Some d \<Rightarrow>
          (let meds = medians (en_stats env) (rl_items res);
               ws = weights_for (rl_items res) d (en_own_price env) (\<lambda>i. meds (re_wfm_id i, key_of (re_sub_type i)))
           in res\<lparr>rl_items := price_items (rl_items res) (rl_platinum res) ws\<rparr>))"

definition unresolved_reason :: "string list \<Rightarrow> string" where
  "unresolved_reason names = ''unresolved: '' @ str_join '', '' names"

definition resolve_event :: "'s trade_env \<Rightarrow> raw_trade \<Rightarrow> trade_resolution \<times> string option" where
  "resolve_event env t =
     (let ix = from_items (en_items env) in
      case resolve_trade t ix (en_overrides env) of
        Inl reason \<Rightarrow> (no_resolution, Some reason)
      | Inr (res, unresolved) \<Rightarrow>
          (let candidates = set_candidates (rl_items res) ix;
               folded = (if candidates = [] then res
                         else res\<lparr>rl_items := fold_sets (rl_items res) candidates (en_parts env candidates ix) ix\<rparr>);
               priced = price_resolution env folded
           in (priced, if unresolved \<noteq> [] then Some (unresolved_reason unresolved)
                       else if rl_items priced = [] then Some no_goods
                       else if \<not> en_auto env then Some auto_trade_off
                       else None)))"

section \<open>Applying and recording\<close>

definition notify :: "helper_event \<Rightarrow> 's trade_state \<Rightarrow> 's trade_state" where
  "notify e st = st\<lparr>tp_notes := tp_notes st @ [e]\<rparr>"

text \<open>
  A panicking handler ends the request with nothing recorded: the row keeps its reason
  \<open>applying\<close>. Otherwise the event, as the caller holds it and in the table, gets its outcome.
\<close>

definition apply_and_record ::
  "'s trade_env \<Rightarrow> 's trade_state \<Rightarrow> helper_event \<Rightarrow> direction \<Rightarrow> trade_resolution \<Rightarrow> utc option
     \<Rightarrow> (fault option \<times> helper_event) \<times> 's trade_state" where
  "apply_and_record env st e d res reviewed =
     (let (r, app1) = apply_items (en_apply env d (rt_player_name (ev_payload e)) (ev_detected_at e)) (tp_app st) (rl_items res);
          st1 = st\<lparr>tp_app := app1\<rparr>
      in case r of
           Inr _ \<Rightarrow>
             (let e1 = e\<lparr>ev_status := applied_status, ev_reason := None, ev_resolution := Some res,
                         ev_reviewed_at := map_option ts reviewed\<rparr>;
                  rows = set_status (tp_rows st1) (ev_id e) applied_status None (Some res) reviewed
              in ((None, e1), notify e1 (st1\<lparr>tp_rows := rows\<rparr>)))
         | Inl (labels, Panicked) \<Rightarrow> ((Some Panicked, e), st1)
         | Inl (labels, Failed err) \<Rightarrow>
             (let reason = ''apply_failed: '' @ er_component err;
                  e1 = e\<lparr>ev_status := needs_review, ev_reason := Some reason, ev_resolution := Some res\<rparr>;
                  rows = set_status (tp_rows st1) (ev_id e) needs_review (Some reason) (Some res) None
              in ((Some (Failed err), e1), notify e1 (st1\<lparr>tp_rows := rows\<rparr>))))"

section \<open>A report\<close>

text \<open>The request up to its insert: an error, a duplicate, or the event to store.\<close>

definition receive ::
  "(string \<Rightarrow> utc option) \<Rightarrow> 's trade_env \<Rightarrow> helper_event list \<Rightarrow> string \<Rightarrow> incoming_trade \<Rightarrow> utc
     \<Rightarrow> fault + trade_reply + helper_event \<times> bool" where
  "receive parse_date env rows device inc now =
     (case validate_incoming parse_date inc of
        Inl msg \<Rightarrow> Inl (Failed (new_error ''HelperLink:Trade'' msg))
      | Inr detected \<Rightarrow>
          (if event_exists rows (in_event_id inc) then Inr (Inl duplicate_reply)
           else let (res, review) = resolve_event env (in_trade inc)
                in Inr (Inr (\<lparr>ev_id = in_event_id inc, ev_device_name = device, ev_received_at = ts now,
                     ev_detected_at = ts detected, ev_status = needs_review,
                     ev_reason = Some (case review of Some r \<Rightarrow> r | None \<Rightarrow> applying_reason),
                     ev_payload = in_trade inc, ev_resolution = Some res, ev_reviewed_at = None, ev_alerted_at = None\<rparr>,
                     review = None))))"

definition event_resolution :: "helper_event \<Rightarrow> trade_resolution" where
  "event_resolution e = (case ev_resolution e of Some r \<Rightarrow> r | None \<Rightarrow> no_resolution)"

text \<open>The request after its insert.\<close>

definition proceed :: "'s trade_env \<Rightarrow> 's trade_state \<Rightarrow> helper_event \<Rightarrow> bool \<Rightarrow> (fault + trade_reply) \<times> 's trade_state" where
  "proceed env st e clear =
     (case (clear, rl_direction (event_resolution e)) of
        (True, Some d) \<Rightarrow>
          (case apply_and_record env st e d (event_resolution e) None of
             ((Some Panicked, _), st1) \<Rightarrow> (Inl Panicked, st1)
           | ((_, e1), st1) \<Rightarrow> (Inr (reply_of e1), st1))
      | _ \<Rightarrow> (Inr (reply_of e), notify e st))"

definition handle_incoming ::
  "(string \<Rightarrow> utc option) \<Rightarrow> 's trade_env \<Rightarrow> 's trade_state \<Rightarrow> string \<Rightarrow> incoming_trade \<Rightarrow> utc
     \<Rightarrow> (fault + trade_reply) \<times> 's trade_state" where
  "handle_incoming parse_date env st device inc now =
     (case receive parse_date env (tp_rows st) device inc now of
        Inl err \<Rightarrow> (Inl err, st)
      | Inr (Inl reply) \<Rightarrow> (Inr reply, st)
      | Inr (Inr (e, clear)) \<Rightarrow>
          (case insert_event (tp_rows st) e of
             None \<Rightarrow> (Inr duplicate_reply, st)
           | Some rows \<Rightarrow> proceed env (st\<lparr>tp_rows := rows\<rparr>) e clear))"

section \<open>Reviews\<close>

record review_item =
  rv_slug :: string
  rv_sub_type :: "sub_type option"
  rv_quantity :: int
  rv_price :: int

definition review_error :: "string \<Rightarrow> fault" where
  "review_error msg = Failed (new_error ''HelperLink:Review'' msg)"

definition reviewable :: "helper_event list \<Rightarrow> string \<Rightarrow> fault + helper_event" where
  "reviewable rows i =
     (case get_event rows i of
        None \<Rightarrow> Inl (review_error (''Unknown trade event '' @ i))
      | Some e \<Rightarrow>
          (if ev_status e \<noteq> needs_review
           then Inl (review_error (''This trade is already '' @ ev_status e @ ''; only trades that need review can change''))
           else Inr e))"

definition review_item_of :: "item_index \<Rightarrow> review_item \<Rightarrow> fault + resolved_item" where
  "review_item_of ix ri =
     (case by_slug ix (rv_slug ri) of
        None \<Rightarrow> Inl (review_error (''Unknown item '' @ rv_slug ri))
      | Some it \<Rightarrow>
          (if rv_quantity ri < 1 \<or> rv_price ri < 0
           then Inl (review_error (ca_name it @ '': quantity must be at least 1 and price at least 0''))
           else Inr \<lparr>re_name = ca_name it, re_slug = ca_wfm_url it, re_wfm_id = ca_wfm_id it, re_item_name = ca_name it,
                     re_sub_type = rv_sub_type ri, re_quantity = rv_quantity ri, re_price = rv_price ri,
                     re_matched_by = ''review''\<rparr>))"

definition apply_reviewed ::
  "'s trade_env \<Rightarrow> 's trade_state \<Rightarrow> string \<Rightarrow> review_item list \<Rightarrow> utc \<Rightarrow> (fault + helper_event) \<times> 's trade_state" where
  "apply_reviewed env st i items now =
     (case reviewable (tp_rows st) i of
        Inl err \<Rightarrow> (Inl err, st)
      | Inr e \<Rightarrow>
          (case rl_direction (event_resolution e) of
             None \<Rightarrow> (Inl (review_error ''This trade has no platinum side, so it can only be ignored''), st)
           | Some d \<Rightarrow>
               (if items = [] then (Inl (review_error ''Add at least one item''), st)
                else case collect_results (map (review_item_of (from_items (en_items env))) items) of
                  Inl err \<Rightarrow> (Inl err, st)
                | Inr resolved \<Rightarrow>
                    (case apply_and_record env st e d ((event_resolution e)\<lparr>rl_items := resolved\<rparr>) (Some now) of
                       ((Some err, _), st1) \<Rightarrow> (Inl err, st1)
                     | ((None, e1), st1) \<Rightarrow> (Inr e1, st1)))))"

definition ignore_event :: "'s trade_state \<Rightarrow> string \<Rightarrow> utc \<Rightarrow> (fault + helper_event) \<times> 's trade_state" where
  "ignore_event st i now =
     (case reviewable (tp_rows st) i of
        Inl err \<Rightarrow> (Inl err, st)
      | Inr e \<Rightarrow>
          (Inr (e\<lparr>ev_status := ignored_status, ev_reason := Some reviewed_reason, ev_reviewed_at := Some (ts now)\<rparr>),
           st\<lparr>tp_rows := set_status (tp_rows st) i ignored_status (Some reviewed_reason) (ev_resolution e) (Some now)\<rparr>))"

section \<open>The alert sweep\<close>

definition alert_event :: "utc \<Rightarrow> 's trade_state \<Rightarrow> helper_event \<Rightarrow> 's trade_state" where
  "alert_event now st e =
     (let stuck = ev_reason e = Some applying_reason;
          rows = (if stuck then set_reason (tp_rows st) (ev_id e) apply_interrupted else tp_rows st);
          e1 = (if stuck then e\<lparr>ev_reason := Some apply_interrupted\<rparr> else e)
      in st\<lparr>tp_rows := mark_alerted rows (ev_id e) now, tp_alerts := tp_alerts st @ [e1]\<rparr>)"

definition sweep_alerts :: "'s trade_state \<Rightarrow> utc \<Rightarrow> nat \<times> 's trade_state" where
  "sweep_alerts st now =
     (let due = needing_alert (tp_rows st) (now - secs stuck_after_s)
      in (length due, foldl (alert_event now) st due))"

section \<open>What one request may change\<close>

text \<open>How often the items of an event were applied: its notifications as applied.\<close>

definition applications :: "'s trade_state \<Rightarrow> string \<Rightarrow> nat" where
  "applications st i = length (filter (\<lambda>n. ev_id n = i \<and> ev_status n = applied_status) (tp_notes st))"

definition undecided :: "helper_event option \<Rightarrow> bool" where
  "undecided r \<longleftrightarrow> (case r of None \<Rightarrow> True | Some e \<Rightarrow> ev_status e = needs_review)"

definition moved :: "'s trade_state \<Rightarrow> 's trade_state \<Rightarrow> string \<Rightarrow> bool" where
  "moved st st' i \<longleftrightarrow> undecided (get_event (tp_rows st) i)
     \<and> (\<exists>r. get_event (tp_rows st') i = Some r \<and> ev_status r \<in> {applied_status, needs_review, ignored_status}
          \<and> applications st' i = applications st i + (if ev_status r = applied_status then 1 else 0))"

definition stayed :: "'s trade_state \<Rightarrow> 's trade_state \<Rightarrow> string \<Rightarrow> bool" where
  "stayed st st' i \<longleftrightarrow> get_event (tp_rows st') i = get_event (tp_rows st) i \<and> applications st' i = applications st i"

text \<open>An event was alerted on exactly when its row says so, and then once.\<close>

definition alerts_match :: "'s trade_state \<Rightarrow> string \<Rightarrow> bool" where
  "alerts_match st i \<longleftrightarrow> length (filter (\<lambda>n. ev_id n = i) (tp_alerts st)) =
     (if map_option ev_alerted_at (get_event (tp_rows st) i) \<in> {None, Some None} then 0 else 1)"

definition trade_step_ok :: "'s trade_state \<Rightarrow> 's trade_state \<Rightarrow> bool" where
  "trade_step_ok st st' \<longleftrightarrow> (\<forall>i. stayed st st' i \<or> moved st st' i)
     \<and> (distinct (map ev_id (tp_rows st)) \<longrightarrow> distinct (map ev_id (tp_rows st')))
     \<and> (\<forall>i. alerts_match st i \<longrightarrow> alerts_match st' i)"

lemma status_distinct [simp]:
  "needs_review \<noteq> applied_status" "applied_status \<noteq> needs_review" "ignored_status \<noteq> applied_status"
  "applied_status \<noteq> ignored_status" "needs_review \<noteq> ignored_status" "ignored_status \<noteq> needs_review"
  by (simp_all add: status_defs)

lemma trade_step_refl: "trade_step_ok st st"
  by (simp add: trade_step_ok_def stayed_def)

lemma moved_trans:
  assumes "stayed a b i \<or> moved a b i" "stayed b c i \<or> moved b c i"
  shows "stayed a c i \<or> moved a c i"
  using assms by (auto simp: stayed_def moved_def undecided_def)

lemma trade_step_trans: "trade_step_ok a b \<Longrightarrow> trade_step_ok b c \<Longrightarrow> trade_step_ok a c"
  unfolding trade_step_ok_def using moved_trans[of a b _ c] by blast

lemma trade_step_insert:
  assumes "insert_event (tp_rows st) e = Some rows" "ev_status e = needs_review" "ev_alerted_at e = None"
  shows "trade_step_ok st (st\<lparr>tp_rows := rows\<rparr>)"
proof -
  have rows: "rows = tp_rows st @ [e]" and new: "ev_id e \<notin> ev_id ` set (tp_rows st)"
    using assms(1) by (auto simp: insert_event_def event_exists_def row_lookup_None split: if_splits)
  have look: "get_event rows i = (if i = ev_id e then Some e else get_event (tp_rows st) i)" for i
    using new find_key_None[of "ev_id e" ev_id "tp_rows st"]
    by (auto simp: rows get_event_def row_lookup_def find_append split: option.splits)
  have "get_event (tp_rows st) (ev_id e) = None" using new by (simp add: get_event_def row_lookup_None)
  then have "stayed st (st\<lparr>tp_rows := rows\<rparr>) i \<or> moved st (st\<lparr>tp_rows := rows\<rparr>) i" for i
    using look[of i] assms(2) by (auto simp: stayed_def moved_def undecided_def applications_def)
  moreover have "alerts_match st i \<Longrightarrow> alerts_match (st\<lparr>tp_rows := rows\<rparr>) i" for i
    using look[of i] \<open>get_event (tp_rows st) (ev_id e) = None\<close> assms(3) by (simp add: alerts_match_def split: if_splits)
  ultimately show ?thesis using new by (simp add: trade_step_ok_def rows)
qed

lemma trade_step_notify: "ev_status e \<noteq> applied_status \<Longrightarrow> trade_step_ok st (notify e st)"
  by (simp add: trade_step_ok_def stayed_def notify_def applications_def alerts_match_def)

text \<open>An update of a row that still needs review, with the notification that goes with it.\<close>

lemma trade_step_update:
  assumes "get_event (tp_rows st) (ev_id e) = Some r" "ev_status r = needs_review"
    and "\<And>x. ev_id (f x) = ev_id x" "ev_status (f r) \<in> {applied_status, needs_review, ignored_status}"
    and "tp_rows st' = row_modify ev_id (ev_id e) f (tp_rows st)"
    and "tp_notes st' = tp_notes st @ new"
    and "\<forall>n\<in>set new. ev_id n = ev_id e" "length (filter (\<lambda>n. ev_status n = applied_status) new) = (if ev_status (f r) = applied_status then 1 else 0)"
    and "ev_alerted_at (f r) = ev_alerted_at r \<and> tp_alerts st' = tp_alerts st
      \<or> ev_alerted_at r = None \<and> ev_alerted_at (f r) \<noteq> None \<and> (\<exists>e1. tp_alerts st' = tp_alerts st @ [e1] \<and> ev_id e1 = ev_id e)"
  shows "trade_step_ok st st'"
proof -
  have keys: "map ev_id (tp_rows st') = map ev_id (tp_rows st)"
    unfolding assms(5) using assms(3) by (rule row_keys_modify)
  have look: "get_event (tp_rows st') i = (if i = ev_id e then Some (f r) else get_event (tp_rows st) i)" for i
    using row_lookup_modify[of ev_id f "ev_id e" "tp_rows st" i] assms(1,3) by (simp add: get_event_def assms(5))
  have apps: "applications st' i = applications st i + (if i = ev_id e \<and> ev_status (f r) = applied_status then 1 else 0)" for i
  proof -
    have "filter (\<lambda>n. ev_id n = i \<and> ev_status n = applied_status) new = (if i = ev_id e then filter (\<lambda>n. ev_status n = applied_status) new else [])"
      using assms(7) by (auto intro!: filter_cong filter_False)
    then show ?thesis using assms(8) by (auto simp: applications_def assms(6))
  qed
  have "stayed st st' i \<or> moved st st' i" for i
    using assms(1,2,4) look[of i] apps[of i] by (auto simp: stayed_def moved_def undecided_def)
  moreover have "alerts_match st i \<Longrightarrow> alerts_match st' i" for i
    using assms(1,9) look[of i] by (cases "i = ev_id e") (auto simp: alerts_match_def split: if_splits)
  ultimately show ?thesis using keys by (simp add: trade_step_ok_def)
qed

lemma apply_and_record_ok:
  assumes "get_event (tp_rows st) (ev_id e) = Some r" "ev_status r = needs_review"
    and "apply_and_record env st e d res reviewed = (x, st')"
  shows "trade_step_ok st st'"
proof -
  obtain y app1 where run: "apply_items (en_apply env d (rt_player_name (ev_payload e)) (ev_detected_at e)) (tp_app st) (rl_items res) = (y, app1)"
    by fastforce
  note result = assms(3)[unfolded apply_and_record_def run Let_def prod.case]
  show ?thesis
  proof (cases y)
    case (Inr u)
    then show ?thesis using result assms(1,2)
      by (intro trade_step_update[of st e r "\<lambda>x. x\<lparr>ev_status := applied_status, ev_reason := None, ev_resolution := Some res,
            ev_reviewed_at := map_option ts reviewed\<rparr>" st'
            "[e\<lparr>ev_status := applied_status, ev_reason := None, ev_resolution := Some res, ev_reviewed_at := map_option ts reviewed\<rparr>]"])
        (auto simp: set_status_def notify_def)
  next
    case (Inl le)
    obtain labels fl where le: "le = (labels, fl)" by fastforce
    show ?thesis
    proof (cases fl)
      case Panicked
      then have "tp_rows st' = tp_rows st" "tp_notes st' = tp_notes st" "tp_alerts st' = tp_alerts st" using result Inl le by auto
      then show ?thesis by (simp add: trade_step_ok_def stayed_def applications_def alerts_match_def)
    next
      case (Failed err)
      then show ?thesis using result Inl le assms(1,2)
        by (intro trade_step_update[of st e r "\<lambda>x. x\<lparr>ev_status := needs_review, ev_reason := Some (''apply_failed: '' @ er_component err),
              ev_resolution := Some res, ev_reviewed_at := None\<rparr>" st'
              "[e\<lparr>ev_status := needs_review, ev_reason := Some (''apply_failed: '' @ er_component err), ev_resolution := Some res\<rparr>]"])
          (auto simp: set_status_def notify_def)
    qed
  qed
qed

lemma get_event_id: "get_event rows i = Some e \<Longrightarrow> ev_id e = i \<and> e \<in> set rows"
  unfolding get_event_def by (auto dest: row_lookup_Some)

lemma receive_new:
  "receive parse_date env rows device inc now = Inr (Inr (e, clear)) \<Longrightarrow>
     ev_status e = needs_review \<and> ev_alerted_at e = None \<and> \<not> event_exists rows (ev_id e) \<and> ev_id e = in_event_id inc"
  by (auto simp: receive_def split: sum.splits if_splits prod.splits)

lemma proceed_ok:
  assumes "get_event (tp_rows st) (ev_id e) = Some r" "ev_status r = needs_review" "ev_status e = needs_review"
    and "proceed env st e clear = (x, st')"
  shows "trade_step_ok st st'"
proof (cases "clear \<and> rl_direction (event_resolution e) \<noteq> None")
  case True
  then obtain d where d: "rl_direction (event_resolution e) = Some d" by blast
  obtain y st1 where run: "apply_and_record env st e d (event_resolution e) None = (y, st1)" by fastforce
  have "st' = st1" using assms(4) True d run by (auto simp: proceed_def split: prod.splits option.splits fault.splits)
  then show ?thesis using apply_and_record_ok[OF assms(1,2) run] by simp
next
  case False
  then have "st' = notify e st" using assms(4) by (cases clear) (auto simp: proceed_def split: option.splits)
  then show ?thesis using trade_step_notify[of e st] assms(3) by simp
qed

lemma incoming_ok: "handle_incoming parse_date env st device inc now = (x, st') \<Longrightarrow> trade_step_ok st st'"
proof (cases "receive parse_date env (tp_rows st) device inc now")
  case (Inr r)
  assume run: "handle_incoming parse_date env st device inc now = (x, st')"
  show ?thesis
  proof (cases r)
    case new: (Inr ec)
    obtain e clear where ec: "ec = (e, clear)" by fastforce
    have e: "ev_status e = needs_review" "\<not> event_exists (tp_rows st) (ev_id e)" "ev_alerted_at e = None"
      using receive_new[of parse_date env "tp_rows st" device inc now e clear] Inr new ec by auto
    then obtain rows where rows: "insert_event (tp_rows st) e = Some rows" "rows = tp_rows st @ [e]"
      by (simp add: insert_event_def)
    have "get_event rows (ev_id e) = Some e"
      using e(2) by (simp add: rows(2) get_event_def event_exists_def row_lookup_def find_append)
    moreover have "proceed env (st\<lparr>tp_rows := rows\<rparr>) e clear = (x, st')"
      using run Inr new ec rows(1) by (simp add: handle_incoming_def)
    ultimately have "trade_step_ok (st\<lparr>tp_rows := rows\<rparr>) st'"
      using e(1) by (intro proceed_ok[of _ e e]) auto
    then show ?thesis using trade_step_trans trade_step_insert[OF rows(1) e(1,3)] by blast
  qed (use run Inr in \<open>simp add: handle_incoming_def trade_step_refl\<close>)
qed (simp add: handle_incoming_def trade_step_refl)

lemma reviewable_Inr: "reviewable rows i = Inr e \<longleftrightarrow> get_event rows i = Some e \<and> ev_status e = needs_review"
  by (auto simp: reviewable_def split: option.splits)

lemma review_ok:
  assumes "apply_reviewed env st i items now = (x, st')"
  shows "trade_step_ok st st'"
proof (cases "st' = st")
  case False
  then obtain e d resolved y where e: "reviewable (tp_rows st) i = Inr e"
      and run: "apply_and_record env st e d ((event_resolution e)\<lparr>rl_items := resolved\<rparr>) (Some now) = (y, st')"
    using assms by (auto simp: apply_reviewed_def split: sum.splits option.splits if_splits prod.splits)
  have "get_event (tp_rows st) (ev_id e) = Some e" "ev_status e = needs_review"
    using e get_event_id by (auto simp: reviewable_Inr)
  then show ?thesis using apply_and_record_ok run by blast
qed (simp add: trade_step_refl)

lemma ignore_ok:
  assumes "ignore_event st i now = (x, st')"
  shows "trade_step_ok st st'"
proof (cases "reviewable (tp_rows st) i")
  case (Inr e)
  then have "get_event (tp_rows st) i = Some e" "ev_status e = needs_review" "ev_id e = i"
    using get_event_id by (auto simp: reviewable_Inr)
  moreover have "st' = st\<lparr>tp_rows := set_status (tp_rows st) i ignored_status (Some reviewed_reason) (ev_resolution e) (Some now)\<rparr>"
    using assms Inr by (simp add: ignore_event_def)
  ultimately show ?thesis
    by (intro trade_step_update[of st e e "\<lambda>x. x\<lparr>ev_status := ignored_status, ev_reason := Some reviewed_reason,
          ev_resolution := ev_resolution e, ev_reviewed_at := Some (ts now)\<rparr>" st' "[]"]) (auto simp: set_status_def)
qed (use assms in \<open>simp add: ignore_event_def trade_step_refl\<close>)

lemma alert_event_ok:
  assumes "get_event (tp_rows st) (ev_id e) = Some r" "ev_status r = needs_review" "ev_alerted_at r = None"
  shows "trade_step_ok st (alert_event now st e)"
    and "j \<noteq> ev_id e \<Longrightarrow> get_event (tp_rows (alert_event now st e)) j = get_event (tp_rows st) j"
proof -
  define f where "f = (\<lambda>x :: helper_event. (if ev_reason e = Some applying_reason then x\<lparr>ev_reason := Some apply_interrupted\<rparr> else x)\<lparr>ev_alerted_at := Some (ts now)\<rparr>)"
  have rows: "tp_rows (alert_event now st e) = row_modify ev_id (ev_id e) f (tp_rows st)"
    by (auto simp: alert_event_def Let_def mark_alerted_def set_reason_def row_modify_def f_def)
  have keys: "ev_id (f x) = ev_id x" for x by (simp add: f_def)
  show "trade_step_ok st (alert_event now st e)"
    using assms keys rows
    by (intro trade_step_update[of st e r f _ "[]"]) (auto simp: alert_event_def Let_def f_def)
  show "j \<noteq> ev_id e \<Longrightarrow> get_event (tp_rows (alert_event now st e)) j = get_event (tp_rows st) j"
    unfolding rows get_event_def by (simp add: row_lookup_modify[of ev_id f, OF keys])
qed

lemma alert_fold_ok:
  "distinct (map ev_id due) \<Longrightarrow>
   (\<forall>e\<in>set due. \<exists>r. get_event (tp_rows st) (ev_id e) = Some r \<and> ev_status r = needs_review \<and> ev_alerted_at r = None) \<Longrightarrow>
   trade_step_ok st (foldl (alert_event now) st due)"
proof (induction due arbitrary: st)
  case (Cons e due)
  from Cons.prems(2) obtain r where r: "get_event (tp_rows st) (ev_id e) = Some r" "ev_status r = needs_review" "ev_alerted_at r = None"
    by auto
  note step = alert_event_ok[OF r]
  have "\<forall>e'\<in>set due. ev_id e' \<noteq> ev_id e" using Cons.prems(1) by (auto simp: image_iff)
  then have "trade_step_ok (alert_event now st e) (foldl (alert_event now) (alert_event now st e) due)"
    using Cons.prems step(2) by (intro Cons.IH) auto
  then show ?case using trade_step_trans[OF step(1)] by simp
qed (simp add: trade_step_refl)

lemma needing_alert_set: "set (needing_alert rows t) = set (filter (wants_alert t) rows)"
  by (simp add: needing_alert_def)

lemma sweep_ok:
  assumes "distinct (map ev_id (tp_rows st))"
  shows "trade_step_ok st (snd (sweep_alerts st now))"
proof -
  let ?due = "needing_alert (tp_rows st) (now - secs stuck_after_s)"
  have "mset (map ev_id ?due) = mset (map ev_id (filter (wants_alert (now - secs stuck_after_s)) (tp_rows st)))"
    by (simp add: needing_alert_def)
  then have "distinct (map ev_id ?due)"
    using assms distinct_map_filter by (metis mset_eq_imp_distinct_iff)
  moreover have "get_event (tp_rows st) (ev_id e) = Some e" if "e \<in> set ?due" for e
    using that assms row_lookup_in[of ev_id "tp_rows st" e] by (auto simp: needing_alert_set get_event_def)
  ultimately show ?thesis
    by (auto simp: sweep_alerts_def Let_def needing_alert_set wants_alert_def intro!: alert_fold_ok)
qed

section \<open>Runs of requests\<close>

datatype 's trade_request =
    RqIncoming "'s trade_env" string incoming_trade utc
  | RqReview "'s trade_env" string "review_item list" utc
  | RqIgnore string utc
  | RqSweep utc

fun request_step :: "(string \<Rightarrow> utc option) \<Rightarrow> 's trade_state \<Rightarrow> 's trade_request \<Rightarrow> 's trade_state" where
  "request_step parse_date st (RqIncoming env device inc now) = snd (handle_incoming parse_date env st device inc now)"
| "request_step parse_date st (RqReview env i items now) = snd (apply_reviewed env st i items now)"
| "request_step parse_date st (RqIgnore i now) = snd (ignore_event st i now)"
| "request_step parse_date st (RqSweep now) = snd (sweep_alerts st now)"

definition no_events :: "'s \<Rightarrow> 's trade_state" where
  "no_events app1 = \<lparr>tp_rows = [], tp_app = app1, tp_notes = [], tp_alerts = []\<rparr>"

definition trade_inv :: "'s trade_state \<Rightarrow> bool" where
  "trade_inv st \<longleftrightarrow> distinct (map ev_id (tp_rows st))
     \<and> (\<forall>i. applications st i = (if map_option ev_status (get_event (tp_rows st) i) = Some applied_status then 1 else 0)
          \<and> alerts_match st i)"

lemma request_step_ok:
  assumes "distinct (map ev_id (tp_rows st))"
  shows "trade_step_ok st (request_step parse_date st q)"
proof (cases q)
  case (RqIncoming env device inc now)
  then show ?thesis using incoming_ok[OF prod.collapse[symmetric]] by simp
next
  case (RqReview env i items now)
  then show ?thesis using review_ok[OF prod.collapse[symmetric]] by simp
next
  case (RqIgnore i now)
  then show ?thesis using ignore_ok[OF prod.collapse[symmetric]] by simp
next
  case (RqSweep now)
  then show ?thesis using sweep_ok[OF assms] by simp
qed

lemma trade_inv_step: "trade_inv st \<Longrightarrow> trade_inv (request_step parse_date st q)"
proof -
  assume inv: "trade_inv st"
  let ?st' = "request_step parse_date st q"
  have ok: "trade_step_ok st ?st'" using inv request_step_ok by (auto simp: trade_inv_def)
  have "applications ?st' i = (if map_option ev_status (get_event (tp_rows ?st') i) = Some applied_status then 1 else 0)" for i
  proof -
    have old: "applications st i = (if map_option ev_status (get_event (tp_rows st) i) = Some applied_status then 1 else 0)"
      using inv unfolding trade_inv_def by blast
    from ok have "stayed st ?st' i \<or> moved st ?st' i" by (simp add: trade_step_ok_def)
    then show ?thesis using old by (auto simp: stayed_def moved_def undecided_def split: option.splits)
  qed
  then show ?thesis using inv ok unfolding trade_inv_def trade_step_ok_def by blast
qed

interpretation trade_machine: guarded_machine "request_step parse_date" "\<lambda>st q. True" trade_inv for parse_date
  by unfold_locales (rule trade_inv_step)

lemma trade_inv_start: "trade_inv (no_events app1)"
  by (simp add: trade_inv_def no_events_def applications_def alerts_match_def get_event_def row_lookup_def)

lemma all_requests_enabled: "all_enabled step (\<lambda>st q. True) st qs"
  by (induction qs arbitrary: st) auto

lemma trade_inv_run: "trade_inv st \<Longrightarrow> trade_inv (run (request_step parse_date) st qs)"
  by (rule trade_machine.run_inv[OF _ all_requests_enabled])

lemma decided_stays:
  "trade_inv st \<Longrightarrow> get_event (tp_rows st) i = Some e \<Longrightarrow> ev_status e \<noteq> needs_review \<Longrightarrow>
   get_event (tp_rows (run (request_step parse_date) st qs)) i = Some e"
proof (induction qs arbitrary: st)
  case (Cons q qs)
  have "get_event (tp_rows (request_step parse_date st q)) i = Some e"
    using request_step_ok[of st parse_date q] Cons.prems
    by (auto simp: trade_step_ok_def trade_inv_def stayed_def moved_def undecided_def dest!: spec[of _ i])
  then show ?case using Cons.IH[OF trade_inv_step[OF Cons.prems(1)]] Cons.prems(3) by simp
qed simp

lemma trade_inv_at:
  assumes "trade_inv st" "get_event (tp_rows st) i = Some e"
  shows "applications st i = (if ev_status e = applied_status then 1 else 0)"
    and "length (filter (\<lambda>n. ev_id n = i) (tp_alerts st)) = (if ev_alerted_at e = None then 0 else 1)"
proof -
  have "applications st i = (if map_option ev_status (get_event (tp_rows st) i) = Some applied_status then 1 else 0)"
    "alerts_match st i" using assms(1) unfolding trade_inv_def by blast+
  then show "applications st i = (if ev_status e = applied_status then 1 else 0)"
    "length (filter (\<lambda>n. ev_id n = i) (tp_alerts st)) = (if ev_alerted_at e = None then 0 else 1)"
    unfolding alerts_match_def assms(2) by simp_all
qed


section \<open>A small trade\<close>

definition demo_tradable :: cache_item where
  "demo_tradable = \<lparr>ca_name = ''Hilt'', ca_unique_name = ''u'', ca_wfm_id = ''id'', ca_wfm_url = ''hilt'', ca_trade_tax = 0,
     ca_mr_requirement = 0, ca_tags = [], ca_icon = [], ca_bulk_tradable = False, ca_sub_type = None, ca_variants = []\<rparr>"

text \<open>The handlers' state of the demonstration counts the items applied.\<close>

definition demo_trade_env :: "nat trade_env" where
  "demo_trade_env = \<lparr>en_auto = True, en_items = [demo_tradable], en_overrides = [], en_own_price = (\<lambda>_ _. None),
     en_parts = (\<lambda>_ _. []), en_stats = (\<lambda>_ _. None), en_apply = (\<lambda>_ _ _ n _. (Inr (), Suc n))\<rparr>"

definition demo_id :: string where
  "demo_id = replicate 64 CHR ''a''"

definition demo_incoming :: incoming_trade where
  "demo_incoming = \<lparr>in_event_id = demo_id, in_detected_at = ''now'',
     in_trade = \<lparr>rt_player_name = ''bob'', rt_ee_timestamp = [], rt_offered = [\<lparr>ri_name = ''Hilt'', ri_quantity = 1, ri_rank = None\<rparr>],
       rt_received = [\<lparr>ri_name = ''Platinum'', ri_quantity = 10, ri_rank = None\<rparr>]\<rparr>\<rparr>"

definition demo_sale_item :: resolved_item where
  "demo_sale_item = \<lparr>re_name = ''Hilt'', re_slug = ''hilt'', re_wfm_id = ''id'', re_item_name = ''Hilt'', re_sub_type = None,
     re_quantity = 1, re_price = 10, re_matched_by = ''name''\<rparr>"

definition demo_resolution :: trade_resolution where
  "demo_resolution = \<lparr>rl_direction = Some DirSale, rl_platinum = 10, rl_items = [demo_sale_item], rl_extras = []\<rparr>"

definition demo_event :: helper_event where
  "demo_event = \<lparr>ev_id = demo_id, ev_device_name = ''pc'', ev_received_at = 0, ev_detected_at = 0, ev_status = needs_review,
     ev_reason = Some applying_reason, ev_payload = in_trade demo_incoming, ev_resolution = Some demo_resolution,
     ev_reviewed_at = None, ev_alerted_at = None\<rparr>"

lemma normalise_hilt: "normalise ''Hilt'' = ''hilt''"
  by code_simp

lemma demo_classified: "classify_trade (in_trade demo_incoming) =
    Inr \<lparr>cl_direction = DirSale, cl_platinum = 10, cl_goods = [\<lparr>ri_name = ''Hilt'', ri_quantity = 1, ri_rank = None\<rparr>], cl_extras = []\<rparr>"
  by (simp add: classify_trade_def demo_incoming_def platinum_of_def without_platinum_def platinum_name_def)

lemma demo_resolves: "resolve_event demo_trade_env (in_trade demo_incoming) = (demo_resolution, None)"
proof -
  have "resolve_goods (from_items [demo_tradable]) [] [\<lparr>ri_name = ''Hilt'', ri_quantity = 1, ri_rank = None\<rparr>] = ([demo_sale_item\<lparr>re_price := 0\<rparr>], [])"
    by (simp add: resolve_item_def by_name_from_items name_key_def demo_tradable_def resolved_as_def demo_sale_item_def Let_def)
  moreover have "split_platinum 10 [None] = [10]"
    by (simp add: split_platinum_def filled_weights_def fill_weight_def known_weights_def map_filter_simps)
  ultimately show ?thesis
    by (simp add: resolve_event_def resolve_trade_def demo_classified demo_trade_env_def set_candidates_def price_resolution_def
        weights_for_def price_items_def Let_def demo_resolution_def demo_sale_item_def medians_def)
qed

lemma demo_receives: "receive (\<lambda>_. Some 0) demo_trade_env rows ''pc'' demo_incoming 0 =
    (if event_exists rows demo_id then Inr (Inl duplicate_reply) else Inr (Inr (demo_event, True)))"
proof -
  have "is_hex_id demo_id" by (simp add: is_hex_id_def demo_id_def list_all_iff Let_def)
  then show ?thesis
    by (simp add: receive_def validate_incoming_def demo_resolves demo_event_def ts_def) (simp add: demo_incoming_def)
qed

definition demo_done :: helper_event where
  "demo_done = demo_event\<lparr>ev_status := applied_status, ev_reason := None\<rparr>"

lemma demo_applies:
  assumes "tp_rows st = rows @ [demo_event]" "\<not> event_exists rows demo_id"
  shows "proceed demo_trade_env st demo_event True =
    (Inr (reply_of demo_done), st\<lparr>tp_rows := rows @ [demo_done], tp_app := Suc (tp_app st), tp_notes := tp_notes st @ [demo_done]\<rparr>)"
proof -
  have "set_status (tp_rows st) demo_id applied_status None (Some demo_resolution) None = rows @ [demo_done]"
  proof -
    have "\<forall>x\<in>set rows. ev_id x \<noteq> demo_id"
      using assms(2) by (auto simp: event_exists_def row_lookup_None image_iff)
    then show ?thesis
      using assms(1) by (auto simp: set_status_def row_modify_def demo_done_def demo_event_def intro!: map_idI)
  qed
  then show ?thesis
    by (simp add: proceed_def event_resolution_def apply_and_record_def apply_items_def notify_def demo_trade_env_def
        demo_event_def demo_resolution_def demo_done_def Let_def)
qed

lemma demo_handled:
  "handle_incoming (\<lambda>_. Some 0) demo_trade_env (no_events 0) ''pc'' demo_incoming 0 =
     (Inr (reply_of demo_done), \<lparr>tp_rows = [demo_done], tp_app = 1, tp_notes = [demo_done], tp_alerts = []\<rparr>)"
proof -
  have "\<not> event_exists [] demo_id" by (simp add: event_exists_def row_lookup_def)
  then show ?thesis
    using demo_applies[of "(no_events 0)\<lparr>tp_rows := [demo_event]\<rparr>" "[]"]
    by (simp add: handle_incoming_def demo_receives insert_event_def no_events_def demo_event_def)
qed


section \<open>Requests that interleave\<close>

text \<open>
  A report awaits the database between its duplicate check and its insert, and again before it is
  applied; other requests run in between. \<open>pq_checked\<close> are the reports before their insert,
  \<open>pq_ready\<close> those after it, \<open>pq_auto\<close> the ids whose items were handed to the handlers.
\<close>

record 's trade_sys =
  pq_state :: "'s trade_state"
  pq_checked :: "(helper_event \<times> bool) list"
  pq_ready :: "(helper_event \<times> bool) list"
  pq_auto :: "string list"

datatype 's trade_step =
    TsReceive "'s trade_env" string incoming_trade utc
  | TsInsert nat
  | TsProceed "'s trade_env" nat
  | TsReview "'s trade_env" string "review_item list" utc
  | TsIgnore string utc
  | TsSweep utc

fun trade_sys_step :: "(string \<Rightarrow> utc option) \<Rightarrow> 's trade_sys \<Rightarrow> 's trade_step \<Rightarrow> 's trade_sys" where
  "trade_sys_step parse_date s (TsReceive env device inc now) =
     (case receive parse_date env (tp_rows (pq_state s)) device inc now of
        Inr (Inr ec) \<Rightarrow> s\<lparr>pq_checked := pq_checked s @ [ec]\<rparr>
      | _ \<Rightarrow> s)"
| "trade_sys_step parse_date s (TsInsert n) =
     (let (e, clear) = pq_checked s ! n; s1 = s\<lparr>pq_checked := remove_nth n (pq_checked s)\<rparr> in
      case insert_event (tp_rows (pq_state s)) e of
        None \<Rightarrow> s1
      | Some rows \<Rightarrow> s1\<lparr>pq_state := (pq_state s)\<lparr>tp_rows := rows\<rparr>, pq_ready := pq_ready s @ [(e, clear)]\<rparr>)"
| "trade_sys_step parse_date s (TsProceed env n) =
     (let (e, clear) = pq_ready s ! n
      in s\<lparr>pq_state := snd (proceed env (pq_state s) e clear), pq_ready := remove_nth n (pq_ready s),
           pq_auto := (if clear then pq_auto s @ [ev_id e] else pq_auto s)\<rparr>)"
| "trade_sys_step parse_date s (TsReview env i items now) = s\<lparr>pq_state := snd (apply_reviewed env (pq_state s) i items now)\<rparr>"
| "trade_sys_step parse_date s (TsIgnore i now) = s\<lparr>pq_state := snd (ignore_event (pq_state s) i now)\<rparr>"
| "trade_sys_step parse_date s (TsSweep now) = s\<lparr>pq_state := snd (sweep_alerts (pq_state s) now)\<rparr>"

fun trade_sys_enabled :: "'s trade_sys \<Rightarrow> 's trade_step \<Rightarrow> bool" where
  "trade_sys_enabled s (TsInsert n) = (n < length (pq_checked s))"
| "trade_sys_enabled s (TsProceed env n) = (n < length (pq_ready s))"
| "trade_sys_enabled s _ = True"

definition trade_sys_init :: "'s \<Rightarrow> 's trade_sys" where
  "trade_sys_init app1 = \<lparr>pq_state = no_events app1, pq_checked = [], pq_ready = [], pq_auto = []\<rparr>"

text \<open>No step but an insert changes the ids of the table.\<close>

lemma set_status_ids [simp]: "map ev_id (set_status rows i status reason res reviewed) = map ev_id rows"
  by (simp add: set_status_def row_keys_modify)

lemma apply_and_record_ids: "map ev_id (tp_rows (snd (apply_and_record env st e d res reviewed))) = map ev_id (tp_rows st)"
proof -
  obtain y app1 where run: "apply_items (en_apply env d (rt_player_name (ev_payload e)) (ev_detected_at e)) (tp_app st) (rl_items res) = (y, app1)"
    by fastforce
  show ?thesis
  proof (cases y)
    case (Inl le)
    obtain labels fl where "le = (labels, fl)" by fastforce
    with Inl run show ?thesis by (cases fl) (simp_all add: apply_and_record_def Let_def notify_def)
  qed (use run in \<open>simp add: apply_and_record_def Let_def notify_def\<close>)
qed

lemma proceed_ids: "map ev_id (tp_rows (snd (proceed env st e clear))) = map ev_id (tp_rows st)"
proof (cases "clear \<and> rl_direction (event_resolution e) \<noteq> None")
  case True
  then obtain d where "rl_direction (event_resolution e) = Some d" by blast
  with True apply_and_record_ids[of env st e d "event_resolution e" None] show ?thesis
    by (auto simp: proceed_def split: prod.splits option.splits fault.splits)
qed (cases clear; auto simp: proceed_def notify_def split: option.splits)

lemma review_ids: "map ev_id (tp_rows (snd (apply_reviewed env st i items now))) = map ev_id (tp_rows st)"
proof -
  have "map ev_id (tp_rows st1) = map ev_id (tp_rows st)" if "apply_and_record env st e d res reviewed = (x, st1)" for e d res reviewed x st1
    using apply_and_record_ids[of env st e d res reviewed] that by simp
  then show ?thesis
    by (auto simp: apply_reviewed_def split: sum.splits option.splits if_splits prod.splits)
qed

lemma sweep_ids: "map ev_id (tp_rows (snd (sweep_alerts st now))) = map ev_id (tp_rows st)"
proof -
  have "map ev_id (tp_rows (alert_event now st e)) = map ev_id (tp_rows st)" for st :: "'a trade_state" and e
    by (simp add: alert_event_def Let_def mark_alerted_def set_reason_def row_keys_modify)
  then have "map ev_id (tp_rows (foldl (alert_event now) st due)) = map ev_id (tp_rows st)" for st :: "'a trade_state" and due
    by (induction due arbitrary: st) simp_all
  then show ?thesis by (simp add: sweep_alerts_def Let_def)
qed

definition ready_ids :: "'s trade_sys \<Rightarrow> string list" where
  "ready_ids s = map (\<lambda>ec. ev_id (fst ec)) (pq_ready s)"

definition auto_inv :: "'s trade_sys \<Rightarrow> bool" where
  "auto_inv s \<longleftrightarrow> distinct (ready_ids s @ pq_auto s) \<and> set (ready_ids s @ pq_auto s) \<subseteq> ev_id ` set (tp_rows (pq_state s))
     \<and> distinct (map ev_id (tp_rows (pq_state s)))"

lemma auto_inv_frame:
  assumes "auto_inv s" "map ev_id (tp_rows (pq_state s')) = map ev_id (tp_rows (pq_state s))" "pq_ready s' = pq_ready s" "pq_auto s' = pq_auto s"
  shows "auto_inv s'"
proof -
  have "ev_id ` set (tp_rows (pq_state s')) = ev_id ` set (tp_rows (pq_state s))"
    using arg_cong[OF assms(2), of set] by simp
  then show ?thesis using assms by (simp add: auto_inv_def ready_ids_def)
qed

lemma mset_remove_nth: "n < length xs \<Longrightarrow> mset (remove_nth n xs) + {#xs ! n#} = mset xs"
  unfolding remove_nth_def by (subst (4) id_take_nth_drop[of n xs]) simp_all

lemma auto_inv_insert:
  assumes "auto_inv s" "insert_event (tp_rows (pq_state s)) e = Some rows"
  shows "auto_inv (s\<lparr>pq_checked := cs, pq_state := (pq_state s)\<lparr>tp_rows := rows\<rparr>, pq_ready := pq_ready s @ [(e, clear)]\<rparr>)"
proof -
  have "rows = tp_rows (pq_state s) @ [e]" "ev_id e \<notin> ev_id ` set (tp_rows (pq_state s))"
    using assms(2) by (auto simp: insert_event_def event_exists_def row_lookup_None split: if_splits)
  then show ?thesis using assms(1) by (auto simp: auto_inv_def ready_ids_def)
qed

lemma auto_inv_proceed:
  assumes "auto_inv s" "n < length (pq_ready s)" "pq_ready s ! n = (e, clear)"
    and "map ev_id (tp_rows st') = map ev_id (tp_rows (pq_state s))"
  shows "auto_inv (s\<lparr>pq_state := st', pq_ready := remove_nth n (pq_ready s),
     pq_auto := (if clear then pq_auto s @ [ev_id e] else pq_auto s)\<rparr>)"
proof -
  let ?f = "\<lambda>ec :: helper_event \<times> bool. ev_id (fst ec)"
  have "image_mset ?f (mset (remove_nth n (pq_ready s)) + {#(e, clear)#}) = mset (ready_ids s)"
    using mset_remove_nth[OF assms(2)] assms(3) by (simp add: ready_ids_def)
  then have eq: "mset (map ?f (remove_nth n (pq_ready s)) @ pq_auto s @ [ev_id e]) = mset (ready_ids s @ pq_auto s)"
    by (simp add: union_ac)
  define rest where "rest = map ?f (remove_nth n (pq_ready s))"
  have "distinct (rest @ pq_auto s @ [ev_id e])" "set (rest @ pq_auto s @ [ev_id e]) = set (ready_ids s @ pq_auto s)"
    using mset_eq_imp_distinct_iff[OF eq] mset_eq_setD[OF eq] assms(1) by (simp_all add: auto_inv_def rest_def)
  moreover have "ev_id ` set (tp_rows st') = ev_id ` set (tp_rows (pq_state s))"
    using arg_cong[OF assms(4), of set] by simp
  moreover have "ready_ids (s\<lparr>pq_state := st', pq_ready := remove_nth n (pq_ready s),
     pq_auto := (if clear then pq_auto s @ [ev_id e] else pq_auto s)\<rparr>) = rest"
    by (simp add: ready_ids_def rest_def)
  ultimately show ?thesis
    using assms(1,4) unfolding auto_inv_def by auto
qed

lemma auto_inv_step:
  assumes "auto_inv s" "trade_sys_enabled s t"
  shows "auto_inv (trade_sys_step parse_date s t)"
proof (cases t)
  case (TsReceive env device inc now)
  then show ?thesis
    by (intro auto_inv_frame[OF assms(1), of "trade_sys_step parse_date s t"]) (simp_all split: sum.splits)
next
  case (TsInsert n)
  obtain e clear where ec: "pq_checked s ! n = (e, clear)" by fastforce
  show ?thesis
  proof (cases "insert_event (tp_rows (pq_state s)) e")
    case None
    then show ?thesis using TsInsert ec
      by (intro auto_inv_frame[OF assms(1), of "trade_sys_step parse_date s t"]) (simp_all add: Let_def)
  next
    case (Some rows)
    then show ?thesis using TsInsert ec auto_inv_insert[OF assms(1) Some] by (simp add: Let_def)
  qed
next
  case (TsProceed env n)
  obtain e clear where ec: "pq_ready s ! n = (e, clear)" by fastforce
  then show ?thesis
    using TsProceed assms auto_inv_proceed[OF assms(1) _ ec proceed_ids[of env "pq_state s" e clear]] by (simp add: Let_def)
next
  case (TsIgnore i now)
  have "map ev_id (tp_rows (snd (ignore_event (pq_state s) i now))) = map ev_id (tp_rows (pq_state s))"
    by (simp add: ignore_event_def split: sum.splits)
  then show ?thesis using TsIgnore by (intro auto_inv_frame[OF assms(1), of "trade_sys_step parse_date s t"]) simp_all
next
  case (TsReview env i items now)
  then show ?thesis by (intro auto_inv_frame[OF assms(1), of "trade_sys_step parse_date s t"]) (simp_all add: review_ids)
next
  case (TsSweep now)
  then show ?thesis by (intro auto_inv_frame[OF assms(1), of "trade_sys_step parse_date s t"]) (simp_all add: sweep_ids)
qed

interpretation trade_sys_machine: guarded_machine "trade_sys_step parse_date" trade_sys_enabled auto_inv for parse_date
  by unfold_locales (rule auto_inv_step)

lemma auto_inv_init: "auto_inv (trade_sys_init app1)"
  by (simp add: auto_inv_def trade_sys_init_def no_events_def ready_ids_def)

text \<open>
  C14. Replays are safe under any interleaving: however the steps of concurrent reports, reviews,
  ignores and sweeps interleave, the pipeline hands the items of an event id to the handlers at
  most once on its own account, only for an id it has stored, and the ids stay unique.
\<close>

theorem replays_never_apply_twice:
  assumes "all_enabled (trade_sys_step parse_date) trade_sys_enabled (trade_sys_init app1) steps"
  shows "distinct (pq_auto (run (trade_sys_step parse_date) (trade_sys_init app1) steps))
    \<and> set (pq_auto (run (trade_sys_step parse_date) (trade_sys_init app1) steps))
        \<subseteq> ev_id ` set (tp_rows (pq_state (run (trade_sys_step parse_date) (trade_sys_init app1) steps)))
    \<and> distinct (map ev_id (tp_rows (pq_state (run (trade_sys_step parse_date) (trade_sys_init app1) steps))))"
  using trade_sys_machine.run_inv[OF auto_inv_init assms] by (simp add: auto_inv_def)

text \<open>Two copies of a report race to the insert; the second one loses and is never applied.\<close>

definition demo_race :: "nat trade_step list" where
  "demo_race = [TsReceive demo_trade_env ''pc'' demo_incoming 0, TsReceive demo_trade_env ''pc'' demo_incoming 0, TsInsert 0, TsInsert 0,
     TsProceed demo_trade_env 0]"

lemma demo_race_enabled: "all_enabled (trade_sys_step (\<lambda>_. Some 0)) trade_sys_enabled (trade_sys_init 0) demo_race"
  by (simp add: demo_race_def trade_sys_init_def no_events_def demo_receives event_exists_def row_lookup_def insert_event_def remove_nth_def
      demo_event_def)

theorem replays_never_apply_twice_witness:
  "distinct (pq_auto (run (trade_sys_step (\<lambda>_. Some 0)) (trade_sys_init 0) demo_race))"
  using replays_never_apply_twice[OF demo_race_enabled] by simp

text \<open>
  A review is different: \<open>reviewable\<close> accepts any row that needs review, also one whose automatic
  application is on its way (its reason is \<open>applying\<close>). Reviewing it then applies the trade twice.
\<close>

lemma review_races_with_the_pipeline:
  "tp_app (pq_state (run (trade_sys_step (\<lambda>_. Some 0)) (trade_sys_init 0)
     [TsReceive demo_trade_env ''pc'' demo_incoming 0, TsInsert 0,
      TsReview demo_trade_env demo_id [\<lparr>rv_slug = ''hilt'', rv_sub_type = None, rv_quantity = 1, rv_price = 10\<rparr>] 1,
      TsProceed demo_trade_env 0])) = 2"
proof -
  let ?st = "(no_events 0)\<lparr>tp_rows := [demo_event]\<rparr>"
  have review: "tp_app (snd (apply_reviewed demo_trade_env ?st demo_id [\<lparr>rv_slug = ''hilt'', rv_sub_type = None, rv_quantity = 1, rv_price = 10\<rparr>] 1)) = 1"
    by (simp add: apply_reviewed_def reviewable_def get_event_def row_lookup_def demo_event_def event_resolution_def demo_resolution_def
        review_item_of_def by_slug_from_items demo_trade_env_def demo_tradable_def apply_and_record_def apply_items_def Let_def no_events_def notify_def)
  have applied: "tp_app (snd (proceed demo_trade_env st demo_event True)) = Suc (tp_app st)" for st
    by (simp add: proceed_def event_resolution_def apply_and_record_def apply_items_def notify_def demo_trade_env_def
        demo_event_def demo_resolution_def Let_def)
  have "run (trade_sys_step (\<lambda>_. Some 0)) (trade_sys_init 0) [TsReceive demo_trade_env ''pc'' demo_incoming 0, TsInsert 0]
      = \<lparr>pq_state = ?st, pq_checked = [], pq_ready = [(demo_event, True)], pq_auto = []\<rparr>"
    by (simp add: trade_sys_init_def demo_receives no_events_def event_exists_def row_lookup_def insert_event_def remove_nth_def)
  then show ?thesis using review applied by simp
qed

end
