(* ===== verification/Closed_Stats.thy ===== *)
theory Closed_Stats
  imports Collector_Runner "HOL-Library.Product_Lexorder"
begin

text \<open>
  The marketplace's closed-trade dailies as a price basis
  (\<open>qf_core/src/collector/closed.rs\<close>): the two tables, the statistics over the seven days before
  a day, which items are stale, and the refresh of one stale item. \<open>f64\<close> is \<open>real\<close>; a day is its
  number, so the text order of the \<open>day\<close> column is the order of days. The bodies that the fetch
  returns are parsed by an argument (\<open>parse_statistics\<close> reads JSON).
\<close>

section \<open>Rows and statistics\<close>

definition window_days :: int where "window_days = 7"
definition warm_min_days :: nat where "warm_min_days = 5"
definition fresh_days :: int where "fresh_days = 3"
definition closed_retention_days :: int where "closed_retention_days = 90"
definition failed_retry :: int where "failed_retry = 1"

record closed_row =
  cr_item_id :: string
  cr_sub_type :: string
  cr_day :: int
  cr_volume :: int
  cr_median :: "real option"
  cr_min_price :: "int option"
  cr_max_price :: "int option"
  cr_wa_price :: "real option"

record closed_stats =
  cz_item_id :: string
  cz_sub_type :: string
  cz_volume :: real
  cz_moving_avg :: "real option"
  cz_median :: "real option"
  cz_avg_price :: "real option"
  cz_min_price :: "int option"
  cz_max_price :: "int option"
  cz_week_price_shift :: "real option"
  cz_range_profit :: "real option"
  cz_days :: nat
  cz_trades :: int
  cz_warm :: bool

definition median_f64 :: "real list \<Rightarrow> real option" where
  "median_f64 values =
     (if values = [] then None
      else let sorted = sort values; mid = length sorted div 2
           in Some (if length sorted mod 2 = 0 then (sorted ! (mid - 1) + sorted ! mid) / 2 else sorted ! mid))"

definition closed_key :: "closed_row \<Rightarrow> string \<times> string" where
  "closed_key r = (cr_item_id r, cr_sub_type r)"

text \<open>The average price of the last two days with trades and a weighted price.\<close>

definition recent_days :: "closed_row list \<Rightarrow> closed_row list" where
  "recent_days ds = take 2 (filter (\<lambda>r. 0 < cr_volume r \<and> cr_wa_price r \<noteq> None) (rev ds))"

definition or_zero :: "real option \<Rightarrow> real" where
  "or_zero v = (case v of Some x \<Rightarrow> x | None \<Rightarrow> 0)"

definition recent_avg :: "closed_row list \<Rightarrow> real option \<Rightarrow> real option" where
  "recent_avg recent dflt =
     (let vol = sum_list (map cr_volume recent) in
      if 0 < vol then Some (sum_list (map (\<lambda>r. or_zero (cr_wa_price r) * real_of_int (cr_volume r)) recent) / real_of_int vol)
      else dflt)"

definition price_shift :: "closed_row list \<Rightarrow> real option" where
  "price_shift ds =
     (case filter (\<lambda>r. cr_median r \<noteq> None) ds of
        [] \<Rightarrow> None
      | a # rest \<Rightarrow>
          (let b = last (a # rest) in
           if cr_day a \<noteq> cr_day b then Some (or_zero (cr_median b) - or_zero (cr_median a)) else None))"

definition day_range :: "closed_row \<Rightarrow> real option" where
  "day_range r = (case (cr_max_price r, cr_min_price r) of (Some a, Some b) \<Rightarrow> Some (real_of_int (a - b)) | _ \<Rightarrow> None)"

definition closed_of :: "nat \<Rightarrow> string \<times> string \<Rightarrow> closed_row list \<Rightarrow> closed_stats" where
  "closed_of warm_min_trades k ds =
     (let medians = List.map_filter cr_median ds; trades = sum_list (map cr_volume ds); avg = mean medians
      in \<lparr>cz_item_id = fst k, cz_sub_type = snd k, cz_volume = real_of_int trades / real_of_int window_days,
          cz_moving_avg = avg, cz_median = median_f64 medians, cz_avg_price = recent_avg (recent_days ds) avg,
          cz_min_price = min_of (List.map_filter cr_min_price ds), cz_max_price = max_of (List.map_filter cr_max_price ds),
          cz_week_price_shift = price_shift ds, cz_range_profit = mean (List.map_filter day_range ds),
          cz_days = length ds, cz_trades = trades,
          cz_warm = (warm_min_days \<le> length ds \<and> int warm_min_trades \<le> trades)\<rparr>)"

definition aggregate :: "closed_row list \<Rightarrow> int \<Rightarrow> nat \<Rightarrow> closed_stats list" where
  "aggregate rows today warm_min_trades =
     (let inside = filter (\<lambda>r. today - window_days \<le> cr_day r \<and> cr_day r < today) rows
      in map (\<lambda>k. closed_of warm_min_trades k (sort_key cr_day (filter (\<lambda>r. closed_key r = k) inside)))
           (sort (remdups (map closed_key inside))))"

section \<open>The tables\<close>

record closed_db_row = closed_row +
  cr_avg_price :: "real option"

text \<open>A day of a fetched series, \<open>ClosedDay\<close>: a row without the item it was fetched for.\<close>

record fetch_row =
  fw_item_id :: string
  fw_fetched_at :: stamp
  fw_outcome :: string

record closed_db =
  cd_days :: "closed_db_row list"
  cd_fetch :: "fetch_row list"

definition day_key :: "closed_db_row \<Rightarrow> string \<times> string \<times> int" where
  "day_key r = (cr_item_id r, cr_sub_type r, cr_day r)"

text \<open>\<open>INSERT ... ON CONFLICT DO UPDATE\<close> keeps the place of an existing row.\<close>

definition upsert_row :: "('r \<Rightarrow> 'k) \<Rightarrow> 'r \<Rightarrow> 'r list \<Rightarrow> 'r list" where
  "upsert_row key r rows = (if row_lookup key rows (key r) = None then rows @ [r] else row_modify key (key r) (\<lambda>_. r) rows)"

definition upsert_days :: "closed_db \<Rightarrow> string \<Rightarrow> closed_db_row list \<Rightarrow> nat \<times> closed_db" where
  "upsert_days db item ds =
     (length ds, db\<lparr>cd_days := foldl (\<lambda>rows d. upsert_row day_key (d\<lparr>cr_item_id := item\<rparr>) rows) (cd_days db) ds\<rparr>)"

definition set_fetch_state :: "closed_db \<Rightarrow> string \<Rightarrow> utc \<Rightarrow> string \<Rightarrow> closed_db" where
  "set_fetch_state db item t outcome =
     db\<lparr>cd_fetch := upsert_row fw_item_id \<lparr>fw_item_id = item, fw_fetched_at = ts t, fw_outcome = outcome\<rparr> (cd_fetch db)\<rparr>"

definition fetch_times :: "closed_db \<Rightarrow> (string \<times> stamp) list" where
  "fetch_times db = map (\<lambda>f. (fw_item_id f, fw_fetched_at f)) (filter (\<lambda>f. fw_outcome f = ''ok'') (cd_fetch db))"

text \<open>The daily cutoff, 08:30 UTC; a stored time is in seconds.\<close>

definition cutoff :: "utc \<Rightarrow> utc" where
  "cutoff now = (let today = days (day_of now) + mins 510 in if today \<le> now then today else today - days 1)"

definition stamp_time :: "stamp \<Rightarrow> utc" where
  "stamp_time s = secs s"

definition anchor_of :: "stamp \<Rightarrow> int" where
  "anchor_of fetched = day_of (cutoff (stamp_time fetched))"

definition fresh_rows :: "closed_db \<Rightarrow> utc \<Rightarrow> (int \<times> closed_row) list" where
  "fresh_rows db now =
     (let today = day_of now in
      concat (map (\<lambda>d. List.map_filter (\<lambda>f.
          if fw_item_id f = cr_item_id d \<and> fw_outcome f = ''ok'' \<and> ts (now - days fresh_days) \<le> fw_fetched_at f
           \<and> today - (window_days + fresh_days + 1) \<le> cr_day d \<and> cr_day d < today
          then Some (anchor_of (fw_fetched_at f), closed_row.truncate d) else None) (cd_fetch db)) (cd_days db)))"

definition load_fresh :: "closed_db \<Rightarrow> utc \<Rightarrow> nat \<Rightarrow> closed_stats list" where
  "load_fresh db now warm_min_trades =
     (let rows = fresh_rows db now
      in concat (map (\<lambda>a. aggregate (map snd (filter (\<lambda>x. fst x = a) rows)) a warm_min_trades)
           (sort (remdups (map fst rows)))))"

definition closed_retention :: "closed_db \<Rightarrow> utc \<Rightarrow> nat \<times> closed_db" where
  "closed_retention db now =
     (let old = (\<lambda>d. cr_day d < day_of now - closed_retention_days)
      in (length (filter old (cd_days db)), db\<lparr>cd_days := filter (\<lambda>d. \<not> old d) (cd_days db)\<rparr>))"

section \<open>Refreshing\<close>

definition is_stale :: "utc \<Rightarrow> fetch_row option \<Rightarrow> bool" where
  "is_stale now f =
     (case f of
        None \<Rightarrow> True
      | Some f \<Rightarrow> fw_fetched_at f < ts (cutoff now)
          \<or> fw_outcome f = ''failed'' \<and> fw_fetched_at f < ts (now - hours failed_retry))"

text \<open>\<open>ORDER BY f.fetched_at IS NOT NULL, f.fetched_at, s.item_id\<close>.\<close>

definition stale_rank :: "closed_db \<Rightarrow> sweep_row \<Rightarrow> bool \<times> stamp \<times> string" where
  "stale_rank db s =
     (case row_lookup fw_item_id (cd_fetch db) (sr_item_id s) of
        None \<Rightarrow> (False, 0, sr_item_id s) | Some f \<Rightarrow> (True, fw_fetched_at f, sr_item_id s))"

definition stale_items :: "collector_db \<Rightarrow> closed_db \<Rightarrow> utc \<Rightarrow> (string \<times> string) list" where
  "stale_items sweeps db now =
     map (\<lambda>s. (sr_item_id s, sr_slug s))
       (sort_key (stale_rank db)
         (filter (\<lambda>s. sr_active s \<and> is_stale now (row_lookup fw_item_id (cd_fetch db) (sr_item_id s))) (db_sweep_state sweeps)))"

definition pick_stale :: "(string \<times> string) list \<Rightarrow> string set \<Rightarrow> (string \<times> string) option" where
  "pick_stale stale hot =
     (case List.find (\<lambda>s. fst s \<in> hot) stale of Some s \<Rightarrow> Some s | None \<Rightarrow> first_of stale)"

text \<open>One refresh; \<open>fetched slug\<close> is what the fetch with its retries returned.\<close>

definition refresh_once ::
  "(string \<Rightarrow> string + closed_db_row list) \<Rightarrow> (string \<Rightarrow> fetch_error + string) \<Rightarrow> collector_db \<Rightarrow> string set \<Rightarrow> closed_db \<Rightarrow> utc
     \<Rightarrow> nat option \<times> closed_db" where
  "refresh_once parse fetched sweeps hot db now =
     (let stale = stale_items sweeps db now in
      case pick_stale stale hot of
        None \<Rightarrow> (None, db)
      | Some (item, slug) \<Rightarrow>
          (case fetched slug of
             Inr body \<Rightarrow>
               (case parse body of
                  Inr ds \<Rightarrow> (Some (length stale), set_fetch_state (snd (upsert_days db item ds)) item now ''ok'')
                | Inl e \<Rightarrow> (Some (length stale), set_fetch_state db item now ''failed''))
           | Inl FNotFound \<Rightarrow> (Some (length stale), set_fetch_state db item now ''missing'')
           | Inl FBlocked \<Rightarrow> (Some (length stale), db)
           | Inl FRateLimited \<Rightarrow> (Some (length stale), db)
           | Inl e \<Rightarrow> (Some (length stale), set_fetch_state db item now ''failed'')))"

text \<open>The counts over the active items with their fetch state, \<open>refresh_status\<close>.\<close>

record refresh_summary =
  rs_active :: nat
  rs_ok :: nat
  rs_missing :: nat
  rs_failed :: nat
  rs_stale :: nat
  rs_oldest :: "stamp option"

definition refresh_status :: "collector_db \<Rightarrow> closed_db \<Rightarrow> utc \<Rightarrow> refresh_summary" where
  "refresh_status sweeps db now =
     (let act = filter sr_active (db_sweep_state sweeps);
          states = List.map_filter (\<lambda>s. row_lookup fw_item_id (cd_fetch db) (sr_item_id s)) act;
          with_outcome = (\<lambda>v. length (filter (\<lambda>f. fw_outcome f = v) states))
      in \<lparr>rs_active = length act, rs_ok = with_outcome ''ok'', rs_missing = with_outcome ''missing'',
          rs_failed = with_outcome ''failed'', rs_stale = length (stale_items sweeps db now),
          rs_oldest = (if states = [] then None else Some (Min (fw_fetched_at ` set states)))\<rparr>)"

section \<open>The tables keep one row per key\<close>

lemma upsert_lookup: "row_lookup key (upsert_row key r rows) k = (if k = key r then Some r else row_lookup key rows k)"
proof (cases "row_lookup key rows (key r)")
  case None
  then show ?thesis by (auto simp: upsert_row_def row_lookup_def find_append split: option.splits)
next
  case (Some old)
  then show ?thesis by (simp add: upsert_row_def row_lookup_modify_const)
qed

lemma upsert_distinct: "distinct (map key rows) \<Longrightarrow> distinct (map key (upsert_row key r rows))"
proof -
  have "map key (row_modify key (key r) (\<lambda>_. r) rows) = map key rows"
    unfolding row_modify_def by (induction rows) auto
  then show "distinct (map key rows) \<Longrightarrow> distinct (map key (upsert_row key r rows))"
    by (auto simp: upsert_row_def row_lookup_None)
qed

interpretation fetch_state: keyed_store fw_item_id "row_lookup fw_item_id" "upsert_row fw_item_id" "row_delete fw_item_id"
  by unfold_locales (simp_all add: upsert_lookup row_lookup_delete)

interpretation closed_days: keyed_store day_key "row_lookup day_key" "upsert_row day_key" "row_delete day_key"
  by unfold_locales (simp_all add: upsert_lookup row_lookup_delete)

text \<open>What \<open>upsert_days\<close> leaves: the fetched days replace the stored ones, all others stay.\<close>

lemma upsert_days_lookup:
  assumes "distinct (map (\<lambda>d. day_key (d\<lparr>cr_item_id := item\<rparr>)) ds)"
  shows "row_lookup day_key (cd_days (snd (upsert_days db item ds))) k =
     (case List.find (\<lambda>d. day_key (d\<lparr>cr_item_id := item\<rparr>) = k) ds of
        Some d \<Rightarrow> Some (d\<lparr>cr_item_id := item\<rparr>) | None \<Rightarrow> row_lookup day_key (cd_days db) k)"
proof -
  let ?rows = "map (\<lambda>d. d\<lparr>cr_item_id := item\<rparr>) ds"
  have "foldl (\<lambda>rows d. upsert_row day_key (d\<lparr>cr_item_id := item\<rparr>) rows) rs ds = closed_days.put_all ?rows rs" for rs
    unfolding closed_days.put_all_def by (induction ds arbitrary: rs) auto
  then have "cd_days (snd (upsert_days db item ds)) = closed_days.put_all ?rows (cd_days db)"
    by (simp add: upsert_days_def)
  then show ?thesis
    using closed_days.look_put_all[of ?rows "cd_days db" k] assms
    by (simp add: o_def find_map split: option.splits)
qed

section \<open>Refreshing drains the stale items\<close>

lemma cutoff_range: "cutoff now \<le> now" "now < cutoff now + days 1"
proof -
  have d: "days 1 = 86400000000000" "mins 510 = 30600000000000" by (simp_all add: days_def mins_def secs_def)
  have "days (day_of now) = day_of now * days 1" by (simp add: days_def secs_def)
  then have now: "now = days (day_of now) + now mod days 1" "0 \<le> now mod days 1" "now mod days 1 < days 1"
    by (simp_all add: day_of_def d)
  show "cutoff now \<le> now" "now < cutoff now + days 1"
    using now by (auto simp: cutoff_def Let_def d)
qed

lemma fetched_now_not_stale: "fw_fetched_at f = ts now \<Longrightarrow> \<not> is_stale now (Some f)"
  using cutoff_range(1)[of now] by (auto simp: is_stale_def not_less hours_def failed_retry_def secs_def intro!: ts_mono)

definition stale_set :: "collector_db \<Rightarrow> closed_db \<Rightarrow> utc \<Rightarrow> sweep_row list" where
  "stale_set sweeps db now =
     filter (\<lambda>s. sr_active s \<and> is_stale now (row_lookup fw_item_id (cd_fetch db) (sr_item_id s))) (db_sweep_state sweeps)"

lemma stale_items_set: "set (stale_items sweeps db now) = (\<lambda>s. (sr_item_id s, sr_slug s)) ` set (stale_set sweeps db now)"
  "length (stale_items sweeps db now) = length (stale_set sweeps db now)"
  by (simp_all add: stale_items_def stale_set_def)

lemma filter_one_key:
  "distinct (map key xs) \<Longrightarrow> k \<in> key ` set xs \<Longrightarrow> length (filter (\<lambda>x. key x \<noteq> k) xs) = length xs - 1"
proof (induction xs)
  case (Cons x xs)
  show ?case
  proof (cases "key x = k")
    case True
    then have "filter (\<lambda>x. key x \<noteq> k) xs = xs" using Cons.prems(1) by (auto simp: filter_id_conv image_iff)
    then show ?thesis using True by simp
  next
    case False
    then have "k \<in> key ` set xs" using Cons.prems(2) by auto
    moreover from this have "xs \<noteq> []" by auto
    ultimately show ?thesis using False Cons by (cases xs) auto
  qed
qed simp

lemma stale_after_fetch:
  assumes "distinct (map sr_item_id (db_sweep_state sweeps))" "(item, slug) \<in> set (stale_items sweeps db now)"
    and "\<forall>k. row_lookup fw_item_id (cd_fetch db') k = (if k = item then Some f else row_lookup fw_item_id (cd_fetch db) k)"
    and "fw_fetched_at f = ts now"
  shows "length (stale_items sweeps db' now) = length (stale_items sweeps db now) - 1"
proof -
  have eq: "stale_set sweeps db' now = filter (\<lambda>s. sr_item_id s \<noteq> item) (stale_set sweeps db now)"
    unfolding stale_set_def filter_filter using assms(3) fetched_now_not_stale[OF assms(4)] by (intro filter_cong) auto
  have "distinct (map sr_item_id (stale_set sweeps db now))"
    using assms(1) by (simp add: stale_set_def distinct_map_filter)
  moreover have "item \<in> sr_item_id ` set (stale_set sweeps db now)"
    using assms(2) unfolding stale_items_set by force
  ultimately have "length (filter (\<lambda>s. sr_item_id s \<noteq> item) (stale_set sweeps db now)) = length (stale_set sweeps db now) - 1"
    by (rule filter_one_key)
  then show ?thesis by (simp add: stale_items_set eq)
qed

lemma pick_stale_in: "pick_stale stale hot = Some s \<Longrightarrow> s \<in> set stale"
  by (auto simp: pick_stale_def first_of_def dest: find_SomeD split: option.splits list.splits)

lemma pick_stale_None: "pick_stale stale hot = None \<longleftrightarrow> stale = []"
  by (auto simp: pick_stale_def first_of_def split: option.splits list.splits)

definition unblocked :: "(string \<Rightarrow> fetch_error + string) \<Rightarrow> bool" where
  "unblocked fetched \<longleftrightarrow> (\<forall>slug. fetched slug \<notin> {Inl FBlocked, Inl FRateLimited})"

lemma set_fetch_state_lookup:
  "row_lookup fw_item_id (cd_fetch (set_fetch_state db item now outcome)) k =
     (if k = item then Some \<lparr>fw_item_id = item, fw_fetched_at = ts now, fw_outcome = outcome\<rparr>
      else row_lookup fw_item_id (cd_fetch db) k)"
  by (simp add: set_fetch_state_def upsert_lookup)

lemma upsert_days_fetch [simp]: "cd_fetch (snd (upsert_days db item ds)) = cd_fetch db"
  by (simp add: upsert_days_def)

lemma refresh_once_state:
  assumes "unblocked fetched" "pick_stale (stale_items sweeps db now) hot = Some (item, slug)"
  shows "\<exists>db1 outcome. snd (refresh_once parse fetched sweeps hot db now) = set_fetch_state db1 item now outcome \<and> cd_fetch db1 = cd_fetch db"
proof (cases "fetched slug")
  case (Inr body)
  then show ?thesis using assms
    by (cases "parse body") (auto simp: refresh_once_def Let_def intro: exI[of _ db] exI[of _ "snd (upsert_days db item _)"])
next
  case (Inl e)
  then show ?thesis using assms
    by (cases e) (auto simp: refresh_once_def Let_def unblocked_def intro: exI[of _ db])
qed


lemma refresh_blocked:
  "fetched slug \<in> {Inl FBlocked, Inl FRateLimited} \<Longrightarrow> pick_stale (stale_items sweeps db now) hot = Some (item, slug) \<Longrightarrow>
   snd (refresh_once parse fetched sweeps hot db now) = db"
  by (auto simp: refresh_once_def Let_def)

definition demo_sweeps :: collector_db where
  "demo_sweeps = empty_db\<lparr>db_sweep_state := map (\<lambda>i. \<lparr>sr_item_id = i, sr_slug = i, sr_active = True, sr_first_swept_at = None,
     sr_last_swept_at = None, sr_last_attempt_at = None, sr_expected_interval_s = 0, sr_consecutive_errors = 0\<rparr>) [''a'', ''b'']\<rparr>"


end
