(* ===== verification/Prices.thy ===== *)
theory Prices
  imports Market_Limiter Closed_Stats
begin

text \<open>
  What the trader knows of prices and which items it may buy
  (\<open>qf_core/src/trader/blend.rs\<close>, \<open>price_source.rs\<close> and the settings under
  \<open>app/types/settings/\<close>): inferred and closed statistics are blended, wrapped as a price source
  and filtered and ranked into buy candidates. \<open>f64\<close> is \<open>real\<close>.
\<close>

section \<open>Settings\<close>

datatype trade_mode = ModeBuy | ModeSell | ModeWishList | ModeSyndicate | ModeUnknown string

datatype stock_mode = StockAll | StockRiven | StockItem | StockUnknown string

datatype price_source_mode = SourceInferred | SourceClosed

datatype profit_basis = BasisSpread | BasisRange

datatype candidate_ranking = RankProfit | RankVolume

record black_list_item =
  bl_wfm_id :: string
  bl_sub_type :: "sub_type option"
  bl_disabled_for :: "trade_mode list"

record buy_list_item =
  by_wfm_id :: string
  by_max_price :: int

record item_general =
  ig_blacklist :: "black_list_item list"
  ig_buy_list :: "buy_list_item list"

record item_wtb =
  wb_volume_threshold :: int
  wb_profit_threshold :: int
  wb_avg_price_cap :: int
  wb_trading_tax_cap :: int
  wb_max_total_price_cap :: int
  wb_price_shift_threshold :: int
  wb_buy_quantity :: int
  wb_min_wtb_profit_margin :: int
  wb_quantity_per_trade :: int
  wb_max_stock_quantity :: int
  wb_max_price_drop :: int
  wb_min_listings_below :: int
  wb_max_buy_candidates :: int
  wb_candidate_ranking :: candidate_ranking

record item_wts =
  ws_min_sma :: int
  ws_min_profit :: int
  ws_max_price_drop :: int
  ws_min_listings_below :: int

record item_settings =
  it_general :: item_general
  it_wtb :: item_wtb
  it_wts :: item_wts

record live_general =
  lg_report_to_wfm :: bool
  lg_auto_delete :: bool
  lg_auto_trade :: bool
  lg_stock_mode :: stock_mode
  lg_trade_modes :: "trade_mode list"
  lg_delete_conflicting_orders :: bool
  lg_price_source :: price_source_mode
  lg_fast_drop_guard_pct :: int
  lg_profit_basis :: profit_basis
  lg_market_rps :: real

record live_settings =
  lv_general :: live_general
  lv_items :: item_settings

definition trade_mode_str :: "trade_mode \<Rightarrow> string" where
  "trade_mode_str m = (case m of ModeBuy \<Rightarrow> ''buy'' | ModeSell \<Rightarrow> ''sell'' | ModeWishList \<Rightarrow> ''wishlist''
     | ModeSyndicate \<Rightarrow> ''syndicate'' | ModeUnknown _ \<Rightarrow> ''unknown'')"

definition trade_mode_parse :: "string \<Rightarrow> trade_mode" where
  "trade_mode_parse s = (if s = ''buy'' then ModeBuy else if s = ''sell'' then ModeSell
     else if s = ''wishlist'' then ModeWishList else if s = ''syndicate'' then ModeSyndicate else ModeUnknown s)"

definition stock_mode_str :: "stock_mode \<Rightarrow> string" where
  "stock_mode_str m = (case m of StockAll \<Rightarrow> ''all'' | StockItem \<Rightarrow> ''item'' | StockRiven \<Rightarrow> ''riven'' | StockUnknown _ \<Rightarrow> ''unknown'')"

definition stock_mode_parse :: "string \<Rightarrow> stock_mode" where
  "stock_mode_parse s = (if s = ''all'' then StockAll else if s = ''item'' then StockItem
     else if s = ''riven'' then StockRiven else StockUnknown s)"

text \<open>The defaults.\<close>

definition max_buy_candidates :: int where "max_buy_candidates = 150"

definition default_item_wtb :: item_wtb where
  "default_item_wtb =
     \<lparr>wb_volume_threshold = 15, wb_profit_threshold = 10, wb_avg_price_cap = 600, wb_trading_tax_cap = -1,
      wb_max_total_price_cap = 100000, wb_price_shift_threshold = -1, wb_buy_quantity = 1, wb_min_wtb_profit_margin = -1,
      wb_quantity_per_trade = 1, wb_max_stock_quantity = -1, wb_max_price_drop = -1, wb_min_listings_below = -1,
      wb_max_buy_candidates = max_buy_candidates, wb_candidate_ranking = RankProfit\<rparr>"

definition default_item_wts :: item_wts where
  "default_item_wts = \<lparr>ws_min_sma = 3, ws_min_profit = 10, ws_max_price_drop = -1, ws_min_listings_below = -1\<rparr>"

definition default_item_general :: item_general where
  "default_item_general = \<lparr>ig_blacklist = [], ig_buy_list = []\<rparr>"

definition default_item_settings :: item_settings where
  "default_item_settings = \<lparr>it_general = default_item_general, it_wtb = default_item_wtb, it_wts = default_item_wts\<rparr>"

definition default_live_general :: live_general where
  "default_live_general =
     \<lparr>lg_report_to_wfm = True, lg_auto_delete = True, lg_auto_trade = True, lg_stock_mode = StockAll,
      lg_trade_modes = [ModeBuy, ModeSell, ModeWishList], lg_delete_conflicting_orders = False, lg_price_source = SourceInferred,
      lg_fast_drop_guard_pct = 10, lg_profit_basis = BasisSpread, lg_market_rps = default_rate_per_second\<rparr>"

definition default_live :: live_settings where
  "default_live = \<lparr>lv_general = default_live_general, lv_items = default_item_settings\<rparr>"

definition get_query_id :: "item_settings \<Rightarrow> string" where
  "get_query_id s =
     (let b = it_wtb s; w = it_wts s
      in ''volume_threshold:'' @ show_int (wb_volume_threshold b) @ '';profit_threshold:'' @ show_int (wb_profit_threshold b)
       @ '';avg_price_cap:'' @ show_int (wb_avg_price_cap b) @ '';trading_tax_cap:'' @ show_int (wb_trading_tax_cap b)
       @ '';max_total_price_cap:'' @ show_int (wb_max_total_price_cap b)
       @ '';price_shift_threshold:'' @ show_int (wb_price_shift_threshold b) @ '';buy_quantity:'' @ show_int (wb_buy_quantity b)
       @ '';min_wtb_profit_margin:'' @ show_int (wb_min_wtb_profit_margin b)
       @ '';max_buy_candidates:'' @ show_int (wb_max_buy_candidates b) @ '';min_sma:'' @ show_int (ws_min_sma w)
       @ '';min_profit:'' @ show_int (ws_min_profit w))"

definition is_disabled_for :: "black_list_item \<Rightarrow> string \<Rightarrow> sub_type option \<Rightarrow> trade_mode \<Rightarrow> bool" where
  "is_disabled_for b wfm_id sub mode \<longleftrightarrow>
     (bl_wfm_id b = wfm_id \<and> bl_sub_type b = None \<and> mode \<in> set (bl_disabled_for b))
   \<or> (bl_wfm_id b = wfm_id \<and> bl_sub_type b = sub \<and> mode \<in> set (bl_disabled_for b))"

definition is_item_blacklisted :: "item_general \<Rightarrow> string \<Rightarrow> sub_type option \<Rightarrow> trade_mode \<Rightarrow> bool" where
  "is_item_blacklisted g wfm_id sub mode = list_ex (\<lambda>b. is_disabled_for b wfm_id sub mode) (ig_blacklist g)"

definition get_item_max_price :: "item_general \<Rightarrow> string \<Rightarrow> int" where
  "get_item_max_price g wfm_id =
     (case List.find (\<lambda>b. by_wfm_id b = wfm_id) (ig_buy_list g) of Some b \<Rightarrow> by_max_price b | None \<Rightarrow> 0)"

definition has_trade_mode :: "live_settings \<Rightarrow> trade_mode \<Rightarrow> bool" where
  "has_trade_mode s mode \<longleftrightarrow> mode \<in> set (lg_trade_modes (lv_general s))"

definition is_disabled :: "int \<Rightarrow> bool" where
  "is_disabled v \<longleftrightarrow> v \<le> -1"

section \<open>Blending\<close>

definition guard_min_week_trades :: real where "guard_min_week_trades = 20"

record effective =
  ef_stats :: item_stats
  ef_week_price_shift :: "real option"
  ef_guarded :: bool
  ef_closed :: bool
  ef_inferred :: bool

definition plain_effective :: "item_stats \<Rightarrow> effective" where
  "plain_effective s = \<lparr>ef_stats = s, ef_week_price_shift = None, ef_guarded = False, ef_closed = False, ef_inferred = True\<rparr>"

definition fast_drop :: "item_stats option \<Rightarrow> closed_stats \<Rightarrow> int \<Rightarrow> real option" where
  "fast_drop inferred c guard_pct =
     Option.bind inferred (\<lambda>i. Option.bind (is_avg_price i) (\<lambda>recent. Option.bind (cz_moving_avg c) (\<lambda>closed_avg.
       if \<not> is_disabled guard_pct \<and> guard_min_week_trades \<le> is_volume i * 7
        \<and> recent < closed_avg * (1 - real_of_int guard_pct / 100)
       then Some recent else None)))"

definition merge_stats :: "item_stats option \<Rightarrow> closed_stats \<Rightarrow> int \<Rightarrow> profit_basis \<Rightarrow> utc \<Rightarrow> effective" where
  "merge_stats inferred c guard_pct basis now =
     (let known = inferred \<noteq> None;
          profit = (case (basis, cz_range_profit c, known) of
              (BasisRange, Some spread, True) \<Rightarrow> Some spread | _ \<Rightarrow> Option.bind inferred is_profit);
          drop = fast_drop inferred c guard_pct
      in \<lparr>ef_stats = \<lparr>is_item_id = cz_item_id c, is_sub_type = cz_sub_type c, is_volume = cz_volume c,
              is_avg_price = cz_avg_price c, is_moving_avg = (case drop of Some d \<Rightarrow> Some d | None \<Rightarrow> cz_moving_avg c),
              is_profit = profit, is_min_price = cz_min_price c, is_max_price = cz_max_price c, is_median = cz_median c,
              is_history_days = (case inferred of Some i \<Rightarrow> is_history_days i | None \<Rightarrow> 0),
              is_warm = (cz_warm c \<and> known),
              is_updated_at = (case inferred of Some i \<Rightarrow> is_updated_at i | None \<Rightarrow> ts now)\<rparr>,
          ef_week_price_shift = cz_week_price_shift c, ef_guarded = (drop \<noteq> None), ef_closed = True, ef_inferred = known\<rparr>)"

text \<open>The map by key, the last row of a key counting, with the rows that found no inferred one in key order.\<close>

definition closed_stats_key :: "closed_stats \<Rightarrow> string \<times> string" where
  "closed_stats_key c = (cz_item_id c, cz_sub_type c)"

definition closed_by_key :: "closed_stats list \<Rightarrow> closed_stats list" where
  "closed_by_key cs = sort_key closed_stats_key (foldl (\<lambda>m c. row_replace closed_stats_key c m) [] cs)"

text \<open>The loop removes the closed row it used, so a second inferred row of a key stays plain.\<close>

fun blend_rows ::
  "closed_stats list \<Rightarrow> item_stats list \<Rightarrow> int \<Rightarrow> profit_basis \<Rightarrow> utc \<Rightarrow> effective list \<times> closed_stats list" where
  "blend_rows m [] guard_pct basis now = ([], m)"
| "blend_rows m (i # is) guard_pct basis now =
     (case row_lookup closed_stats_key m (stats_key i) of
        Some c \<Rightarrow> (let (out, rest) = blend_rows (row_delete closed_stats_key (stats_key i) m) is guard_pct basis now
                   in (merge_stats (Some i) c guard_pct basis now # out, rest))
      | None \<Rightarrow> (let (out, rest) = blend_rows m is guard_pct basis now in (plain_effective i # out, rest)))"

definition blend ::
  "item_stats list \<Rightarrow> closed_stats list \<Rightarrow> price_source_mode \<Rightarrow> int \<Rightarrow> profit_basis \<Rightarrow> utc \<Rightarrow> effective list" where
  "blend inferred cs mode guard_pct basis now =
     (if mode = SourceInferred then map plain_effective inferred
      else let (out, rest) = blend_rows (closed_by_key cs) inferred guard_pct basis now
           in out @ map (\<lambda>c. merge_stats None c guard_pct basis now) rest)"

section \<open>The price source\<close>

definition rank_volume_cap :: real where "rank_volume_cap = 50"

record item_price_info =
  pi_wfm_url :: string
  pi_wfm_id :: string
  pi_uuid :: string
  pi_volume :: real
  pi_max_price :: real
  pi_min_price :: real
  pi_avg_price :: real
  pi_moving_avg :: "real option"
  pi_median :: real
  pi_profit :: real
  pi_profit_margin :: real
  pi_trading_tax :: int
  pi_week_price_shift :: real
  pi_sub_type :: "sub_type option"
  pi_warm :: bool
  pi_history_days :: int
  pi_guarded :: bool
  pi_max_rank :: "int option"

definition no_price_info :: item_price_info where
  "no_price_info = \<lparr>pi_wfm_url = [], pi_wfm_id = [], pi_uuid = [], pi_volume = 0, pi_max_price = 0, pi_min_price = 0,
     pi_avg_price = 0, pi_moving_avg = None, pi_median = 0, pi_profit = 0, pi_profit_margin = 0, pi_trading_tax = 0,
     pi_week_price_shift = 0, pi_sub_type = None, pi_warm = False, pi_history_days = 0, pi_guarded = False, pi_max_rank = None\<rparr>"

text \<open>\<open>ps_items\<close> is the hash map with its keys, \<open>ps_shift\<close> the keys whose week shift is known.\<close>

record price_source =
  ps_items :: "((string \<times> string) \<times> item_price_info) list"
  ps_shift :: "(string \<times> string) list"

definition int_or_zero :: "int option \<Rightarrow> real" where
  "int_or_zero v = (case v of Some i \<Rightarrow> real_of_int i | None \<Rightarrow> 0)"

definition price_info_of :: "effective \<Rightarrow> string \<Rightarrow> item_price_info" where
  "price_info_of e url =
     (let s = ef_stats e in
      \<lparr>pi_wfm_url = url, pi_wfm_id = is_item_id s, pi_uuid = is_item_id s @ '':'' @ is_sub_type s, pi_volume = is_volume s,
       pi_max_price = int_or_zero (is_max_price s), pi_min_price = int_or_zero (is_min_price s),
       pi_avg_price = or_zero (is_avg_price s), pi_moving_avg = is_moving_avg s, pi_median = or_zero (is_median s),
       pi_profit = or_zero (is_profit s), pi_profit_margin = 0, pi_trading_tax = 0,
       pi_week_price_shift = or_zero (ef_week_price_shift e), pi_sub_type = sub_type_from_key (is_sub_type s),
       pi_warm = is_warm s, pi_history_days = is_history_days s, pi_guarded = ef_guarded e, pi_max_rank = None\<rparr>)"

definition add_effective :: "(string \<Rightarrow> string option) \<Rightarrow> price_source \<Rightarrow> effective \<Rightarrow> price_source" where
  "add_effective url_of ps e =
     (let k = stats_key (ef_stats e) in
      case url_of (is_item_id (ef_stats e)) of
        None \<Rightarrow> ps
      | Some url \<Rightarrow>
          \<lparr>ps_items = row_replace fst (k, price_info_of e url) (ps_items ps),
           ps_shift = (if ef_week_price_shift e \<noteq> None then k # ps_shift ps else ps_shift ps)\<rparr>)"

definition from_effective :: "(string \<Rightarrow> string option) \<Rightarrow> effective list \<Rightarrow> price_source" where
  "from_effective url_of rows = foldl (add_effective url_of) \<lparr>ps_items = [], ps_shift = []\<rparr> rows"

definition map_infos :: "(item_price_info \<Rightarrow> item_price_info) \<Rightarrow> price_source \<Rightarrow> price_source" where
  "map_infos f ps = ps\<lparr>ps_items := map (\<lambda>(k, i). (k, f i)) (ps_items ps)\<rparr>"

definition with_trade_tax :: "(string \<Rightarrow> int option) \<Rightarrow> price_source \<Rightarrow> price_source" where
  "with_trade_tax tax_of = map_infos (\<lambda>i. i\<lparr>pi_trading_tax := (case tax_of (pi_wfm_id i) of Some t \<Rightarrow> t | None \<Rightarrow> 0)\<rparr>)"

definition with_max_rank :: "(string \<Rightarrow> int option) \<Rightarrow> price_source \<Rightarrow> price_source" where
  "with_max_rank rank_of = map_infos (\<lambda>i. i\<lparr>pi_max_rank := rank_of (pi_wfm_id i)\<rparr>)"

text \<open>How the trader reads prices: the live settings, or the plain inferred prices before the app state is up.\<close>

definition source_settings :: "live_settings option \<Rightarrow> price_source_mode \<times> int \<times> profit_basis" where
  "source_settings app =
     (case app of
        Some s \<Rightarrow> (lg_price_source (lv_general s), lg_fast_drop_guard_pct (lv_general s), lg_profit_basis (lv_general s))
      | None \<Rightarrow> (SourceInferred, -1, BasisSpread))"

definition effective_stats ::
  "collector_db \<Rightarrow> closed_db \<Rightarrow> price_source_mode \<times> int \<times> profit_basis \<Rightarrow> utc \<Rightarrow> effective list" where
  "effective_stats db cdb settings now =
     (let (mode, guard_pct, basis) = settings;
          cs = (case mode of SourceInferred \<Rightarrow> [] | SourceClosed \<Rightarrow> load_fresh cdb now (cf_warm_min_trades default_stats_config))
      in blend (db_item_stats db) cs mode guard_pct basis now)"

text \<open>\<open>url_of\<close>, \<open>rank_of\<close> and \<open>tax_of\<close> are the tradable-item cache and the fetched tax table.\<close>

definition load_price_source ::
  "(string \<Rightarrow> string option) \<Rightarrow> (string \<Rightarrow> int option) \<Rightarrow> (string \<Rightarrow> int option) \<Rightarrow> live_settings option
     \<Rightarrow> collector_db \<Rightarrow> closed_db \<Rightarrow> utc \<Rightarrow> price_source" where
  "load_price_source url_of rank_of tax_of app db cdb now =
     with_max_rank rank_of (with_trade_tax tax_of (from_effective url_of (effective_stats db cdb (source_settings app) now)))"

definition price_find :: "price_source \<Rightarrow> string \<Rightarrow> sub_type option \<Rightarrow> item_price_info option" where
  "price_find ps wfm_id sub = map_option snd (row_lookup fst (ps_items ps) (wfm_id, key_of sub))"

definition price_all :: "price_source \<Rightarrow> item_price_info list" where
  "price_all ps = map snd (ps_items ps)"

definition has_shift :: "price_source \<Rightarrow> string \<Rightarrow> string \<Rightarrow> bool" where
  "has_shift ps wfm_id k \<longleftrightarrow> (wfm_id, k) \<in> set (ps_shift ps)"

section \<open>Buy candidates\<close>

definition at_max_rank :: "item_price_info \<Rightarrow> bool" where
  "at_max_rank i \<longleftrightarrow> (case (Option.bind (pi_sub_type i) sub_rank, pi_max_rank i) of
     (Some rank, Some mx) \<Rightarrow> mx \<le> rank | _ \<Rightarrow> True)"

definition passes_filters :: "item_wtb \<Rightarrow> price_source \<Rightarrow> item_price_info \<Rightarrow> bool" where
  "passes_filters wtb ps i \<longleftrightarrow>
     (is_disabled (wb_volume_threshold wtb) \<or> real_of_int (wb_volume_threshold wtb) < pi_volume i)
   \<and> (is_disabled (wb_profit_threshold wtb) \<or> real_of_int (wb_profit_threshold wtb) < pi_profit i)
   \<and> (is_disabled (wb_avg_price_cap wtb) \<or> pi_avg_price i \<le> real_of_int (wb_avg_price_cap wtb))
   \<and> (wb_price_shift_threshold wtb = -1 \<or> \<not> has_shift ps (pi_wfm_id i) (key_of (pi_sub_type i))
        \<or> real_of_int (wb_price_shift_threshold wtb) \<le> pi_week_price_shift i)
   \<and> (is_disabled (wb_trading_tax_cap wtb) \<or> pi_trading_tax i \<le> wb_trading_tax_cap wtb)
   \<and> at_max_rank i"

definition filtered_items :: "item_settings \<Rightarrow> price_source \<Rightarrow> item_price_info list" where
  "filtered_items s ps = filter (passes_filters (it_wtb s) ps) (price_all ps)"

definition rank_key :: "item_price_info \<Rightarrow> candidate_ranking \<Rightarrow> real" where
  "rank_key i r = (case r of RankProfit \<Rightarrow> pi_profit i * min (pi_volume i) rank_volume_cap | RankVolume \<Rightarrow> pi_volume i)"

definition rank_order :: "candidate_ranking \<Rightarrow> item_price_info \<Rightarrow> real \<times> real \<times> string" where
  "rank_order r i = (- rank_key i r, - pi_volume i, pi_uuid i)"

definition top_candidates :: "item_price_info list \<Rightarrow> item_settings \<Rightarrow> candidate_ranking \<Rightarrow> item_price_info list" where
  "top_candidates items s r =
     (let sorted = sort_key (rank_order r) items; limit = wb_max_buy_candidates (it_wtb s)
      in if is_disabled limit then sorted else take (nat (max limit 0)) sorted)"

definition get_interesting_items :: "item_settings \<Rightarrow> price_source \<Rightarrow> item_price_info list" where
  "get_interesting_items s ps = top_candidates (filtered_items s ps) s (wb_candidate_ranking (it_wtb s))"

definition buy_candidate_ids :: "live_settings \<Rightarrow> price_source \<Rightarrow> string list" where
  "buy_candidate_ids s ps =
     (if \<not> has_trade_mode s ModeBuy then [] else remdups (map pi_wfm_id (get_interesting_items (lv_items s) ps)))"

text \<open>The two rankings side by side.\<close>

record ranking_comparison =
  rk_candidates :: nat
  rk_entered :: nat
  rk_left :: nat
  rk_profit_new :: int
  rk_profit_old :: int

definition round_half_away :: "real \<Rightarrow> int" where
  "round_half_away x = (if 0 \<le> x then \<lfloor>x + 1 / 2\<rfloor> else - \<lfloor>- x + 1 / 2\<rfloor>)"

definition ranked_profit :: "item_price_info list \<Rightarrow> int" where
  "ranked_profit items = round_half_away (sum_list (map (\<lambda>i. rank_key i RankProfit) items))"

definition compare_rankings :: "item_settings \<Rightarrow> price_source \<Rightarrow> ranking_comparison" where
  "compare_rankings s ps =
     (let items = filtered_items s ps; new = top_candidates items s RankProfit; old = top_candidates items s RankVolume;
          new_ids = remdups (map pi_uuid new); old_ids = remdups (map pi_uuid old)
      in \<lparr>rk_candidates = length new,
          rk_entered = length (filter (\<lambda>u. u \<notin> set old_ids) new_ids),
          rk_left = length (filter (\<lambda>u. u \<notin> set new_ids) old_ids),
          rk_profit_new = ranked_profit new, rk_profit_old = ranked_profit old\<rparr>)"

section \<open>What blending keeps\<close>

lemma merge_stats_key [simp]: "stats_key (ef_stats (merge_stats i c g b now)) = closed_stats_key c"
  by (simp add: merge_stats_def stats_key_def closed_stats_key_def Let_def)

lemma plain_effective_key [simp]: "stats_key (ef_stats (plain_effective i)) = stats_key i"
  by (simp add: plain_effective_def)

lemma merge_stats_fields [simp]:
  "ef_inferred (merge_stats i c g b now) \<longleftrightarrow> i \<noteq> None"
  "ef_closed (merge_stats i c g b now)"
  "is_warm (ef_stats (merge_stats i c g b now)) \<longleftrightarrow> cz_warm c \<and> i \<noteq> None"
  "ef_guarded (merge_stats i c g b now) \<longleftrightarrow> fast_drop i c g \<noteq> None"
  "is_moving_avg (ef_stats (merge_stats i c g b now)) = (case fast_drop i c g of Some d \<Rightarrow> Some d | None \<Rightarrow> cz_moving_avg c)"
  by (simp_all add: merge_stats_def Let_def)

lemma plain_effective_fields [simp]:
  "ef_inferred (plain_effective i)" "\<not> ef_closed (plain_effective i)" "\<not> ef_guarded (plain_effective i)"
  "ef_stats (plain_effective i) = i"
  by (simp_all add: plain_effective_def)

lemma fast_drop_below:
  "ef_guarded (merge_stats i c g b now) \<Longrightarrow>
     \<exists>p a. cz_moving_avg c = Some a \<and> is_moving_avg (ef_stats (merge_stats i c g b now)) = Some p
       \<and> p < a * (1 - real_of_int g / 100) \<and> 0 \<le> g"
  by (auto simp: fast_drop_def bind_eq_Some_conv is_disabled_def split: if_splits)

lemma closed_by_key_set: "set (closed_by_key cs) \<subseteq> set cs"
proof -
  have "set (foldl (\<lambda>m c. row_replace closed_stats_key c m) m cs) \<subseteq> set m \<union> set cs" for m
    by (induction cs arbitrary: m) (force simp: row_replace_def row_delete_def)+
  from this[of "[]"] show ?thesis by (simp add: closed_by_key_def)
qed

lemma closed_by_key_keys:
  "distinct (map closed_stats_key (closed_by_key cs))"
  "closed_stats_key ` set (closed_by_key cs) = closed_stats_key ` set cs"
proof -
  let ?step = "\<lambda>m c. row_replace closed_stats_key c m"
  have d: "distinct (map closed_stats_key m) \<Longrightarrow> distinct (map closed_stats_key (foldl ?step m cs))" for m
    by (induction cs arbitrary: m) (simp_all add: row_distinct_replace)
  have k: "closed_stats_key ` set (foldl ?step m cs) = closed_stats_key ` set m \<union> closed_stats_key ` set cs" for m
    by (induction cs arbitrary: m) (auto simp: row_replace_def row_delete_def image_iff)
  have "mset (map closed_stats_key (closed_by_key cs)) = mset (map closed_stats_key (foldl ?step [] cs))"
    by (simp add: closed_by_key_def)
  from mset_eq_imp_distinct_iff[OF this] show "distinct (map closed_stats_key (closed_by_key cs))"
    using d[of "[]"] by simp
  show "closed_stats_key ` set (closed_by_key cs) = closed_stats_key ` set cs"
    using k[of "[]"] by (simp add: closed_by_key_def)
qed

lemma blend_rows_keys:
  "blend_rows m is g b now = (out, rest) \<Longrightarrow>
     map (stats_key \<circ> ef_stats) out = map stats_key is
   \<and> rest = filter (\<lambda>c. closed_stats_key c \<notin> stats_key ` set is) m"
proof (induction m "is" g b now arbitrary: out rest rule: blend_rows.induct)
  case (1 m g b now)
  then show ?case by simp
next
  case (2 m i "is" g b now)
  show ?case
  proof (cases "row_lookup closed_stats_key m (stats_key i)")
    case None
    obtain o' r' where r: "blend_rows m is g b now = (o', r')" by force
    from None have "closed_stats_key c \<noteq> stats_key i" if "c \<in> set m" for c
      using that by (force simp: row_lookup_None)
    then have "filter (\<lambda>c. closed_stats_key c \<notin> stats_key ` set (i # is)) m
        = filter (\<lambda>c. closed_stats_key c \<notin> stats_key ` set is) m"
      by (intro filter_cong) auto
    with 2(3) None r 2(1)[OF None r] show ?thesis by auto
  next
    case (Some c)
    let ?m = "row_delete closed_stats_key (stats_key i) m"
    obtain o' r' where r: "blend_rows ?m is g b now = (o', r')" by force
    have "closed_stats_key c = stats_key i" using row_lookup_Some[OF Some] by simp
    moreover have "filter (\<lambda>c. closed_stats_key c \<notin> stats_key ` set is) ?m
        = filter (\<lambda>c. closed_stats_key c \<notin> stats_key ` set (i # is)) m"
      unfolding row_delete_def filter_filter by (intro filter_cong) auto
    ultimately show ?thesis using 2(3) Some r 2(2)[OF Some r] by auto
  qed
qed

text \<open>Every row of the blend comes from the inferred and closed rows of its own key.\<close>

lemma blend_rows_origin:
  "blend_rows m is g b now = (out, rest) \<Longrightarrow> e \<in> set out \<Longrightarrow>
     (\<exists>i\<in>set is. e = plain_effective i)
   \<or> (\<exists>i\<in>set is. \<exists>c\<in>set m. closed_stats_key c = stats_key i \<and> e = merge_stats (Some i) c g b now)"
proof (induction m "is" g b now arbitrary: out rest rule: blend_rows.induct)
  case (1 m g b now)
  then show ?case by simp
next
  case (2 m i "is" g b now)
  show ?case
  proof (cases "row_lookup closed_stats_key m (stats_key i)")
    case None
    obtain o' r' where r: "blend_rows m is g b now = (o', r')" by force
    with 2(3,4) None have "e = plain_effective i \<or> e \<in> set o'" by auto
    then show ?thesis using 2(1)[OF None r] by auto
  next
    case (Some c)
    let ?m = "row_delete closed_stats_key (stats_key i) m"
    obtain o' r' where r: "blend_rows ?m is g b now = (o', r')" by force
    with 2(3,4) Some have "e = merge_stats (Some i) c g b now \<or> e \<in> set o'" by auto
    moreover have "set ?m \<subseteq> set m" by (auto simp: row_delete_def)
    ultimately show ?thesis using 2(2)[OF Some r] row_lookup_Some[OF Some] by fastforce
  qed
qed

lemma blend_origin:
  assumes "e \<in> set (blend is cs mode g b now)"
  shows "(\<exists>i\<in>set is. e = plain_effective i)
       \<or> (\<exists>i\<in>set is. \<exists>c\<in>set cs. closed_stats_key c = stats_key i \<and> e = merge_stats (Some i) c g b now)
       \<or> (\<exists>c\<in>set cs. closed_stats_key c \<notin> stats_key ` set is \<and> e = merge_stats None c g b now)"
proof (cases "mode = SourceInferred")
  case True
  with assms show ?thesis by (auto simp: blend_def)
next
  case False
  obtain out rest where r: "blend_rows (closed_by_key cs) is g b now = (out, rest)" by force
  have sub: "set (closed_by_key cs) \<subseteq> set cs" by (rule closed_by_key_set)
  have rest: "set rest \<subseteq> {c \<in> set cs. closed_stats_key c \<notin> stats_key ` set is}"
    using blend_rows_keys[OF r] sub by auto
  from assms False r have "e \<in> set out \<or> (\<exists>c\<in>set rest. e = merge_stats None c g b now)"
    by (auto simp: blend_def)
  then show ?thesis
  proof
    assume "e \<in> set out"
    from blend_rows_origin[OF r this] sub show ?thesis by blast
  next
    assume "\<exists>c\<in>set rest. e = merge_stats None c g b now"
    with rest show ?thesis by blast
  qed
qed

text \<open>C16. Blending loses no key and invents none: in closed mode the blended rows are the inferred rows' keys in
  their order, then the closed keys the collector has never seen, each key once when the inferred keys are
  distinct. A row is warm only if the collector has statistics of its own for the key (a closed-only key
  routes to the dry run), and a guarded row's price lies below the closed average it replaces by more than
  the guard percentage: the fast-drop guard never raises a price.\<close>

theorem blend_keeps_every_key:
  assumes mode: "mode = SourceClosed" and d: "distinct (map stats_key is)"
  shows "(\<exists>rest. map (stats_key \<circ> ef_stats) (blend is cs mode g b now) = map stats_key is @ rest
           \<and> set rest = closed_stats_key ` set cs - stats_key ` set is
           \<and> distinct (map stats_key is @ rest))
       \<and> (\<forall>e\<in>set (blend is cs mode g b now).
           (is_warm (ef_stats e) \<longrightarrow> ef_inferred e \<and> stats_key (ef_stats e) \<in> stats_key ` set is)
         \<and> (ef_guarded e \<longrightarrow> (\<exists>c\<in>set cs. \<exists>p a. closed_stats_key c = stats_key (ef_stats e) \<and> cz_moving_avg c = Some a
               \<and> is_moving_avg (ef_stats e) = Some p \<and> p < a * (1 - real_of_int g / 100) \<and> 0 \<le> g)))"
proof (intro conjI ballI)
  obtain out rest where r: "blend_rows (closed_by_key cs) is g b now = (out, rest)" by force
  from blend_rows_keys[OF r] have o: "map (stats_key \<circ> ef_stats) out = map stats_key is"
    and rest: "rest = filter (\<lambda>c. closed_stats_key c \<notin> stats_key ` set is) (closed_by_key cs)" by auto
  have b: "map (stats_key \<circ> ef_stats) (blend is cs mode g b now) = map stats_key is @ map closed_stats_key rest"
    using mode o r by (simp add: blend_def comp_def)
  have "set (map closed_stats_key rest) = closed_stats_key ` set cs - stats_key ` set is"
    unfolding rest closed_by_key_keys(2)[of cs, symmetric] by (auto simp del: split_paired_All) (metis imageI)
  moreover have "distinct (map closed_stats_key rest)"
    unfolding rest by (rule distinct_map_filter) (rule closed_by_key_keys)
  ultimately show "\<exists>rest. map (stats_key \<circ> ef_stats) (blend is cs mode g b now) = map stats_key is @ rest
      \<and> set rest = closed_stats_key ` set cs - stats_key ` set is \<and> distinct (map stats_key is @ rest)"
    using b d by (intro exI[of _ "map closed_stats_key rest"]) auto
next
  fix e assume "e \<in> set (blend is cs mode g b now)"
  note o = blend_origin[OF this]
  from o show "is_warm (ef_stats e) \<longrightarrow> ef_inferred e \<and> stats_key (ef_stats e) \<in> stats_key ` set is" by auto
  from o show "ef_guarded e \<longrightarrow> (\<exists>c\<in>set cs. \<exists>p a. closed_stats_key c = stats_key (ef_stats e) \<and> cz_moving_avg c = Some a
      \<and> is_moving_avg (ef_stats e) = Some p \<and> p < a * (1 - real_of_int g / 100) \<and> 0 \<le> g)"
    using fast_drop_below by (elim disjE bexE conjE) (simp, metis merge_stats_key, metis merge_stats_key)
qed

definition w_inferred :: item_stats where
  "w_inferred = \<lparr>is_item_id = ''a'', is_sub_type = [], is_volume = 9, is_avg_price = Some 50, is_moving_avg = Some 70,
     is_profit = Some 12, is_min_price = Some 1, is_max_price = Some 2, is_median = Some 70, is_history_days = 5,
     is_warm = False, is_updated_at = 0\<rparr>"

definition w_closed :: "string \<Rightarrow> closed_stats" where
  "w_closed i = \<lparr>cz_item_id = i, cz_sub_type = [], cz_volume = 30, cz_moving_avg = Some 100, cz_median = Some 100,
     cz_avg_price = Some 100, cz_min_price = Some 40, cz_max_price = Some 90, cz_week_price_shift = Some (-3),
     cz_range_profit = Some 30, cz_days = 7, cz_trades = 210, cz_warm = True\<rparr>"

theorem blend_keeps_every_key_witness:
  "set (map (stats_key \<circ> ef_stats) (blend [w_inferred] [w_closed ''a'', w_closed ''b''] SourceClosed 10 BasisRange 0))
     = {(''a'', []), (''b'', [])}
   \<and> list_ex (\<lambda>e. ef_guarded e \<and> is_warm (ef_stats e)) (blend [w_inferred] [w_closed ''a'', w_closed ''b''] SourceClosed 10 BasisRange 0)"
proof -
  let ?cs = "[w_closed ''a'', w_closed ''b'']"
  have d: "distinct (map stats_key [w_inferred])" by simp
  from blend_keeps_every_key[OF refl d, of ?cs 10 BasisRange 0]
  obtain rest where r: "map (stats_key \<circ> ef_stats) (blend [w_inferred] ?cs SourceClosed 10 BasisRange 0) = map stats_key [w_inferred] @ rest"
    and rest: "set rest = closed_stats_key ` set ?cs - stats_key ` set [w_inferred]" by blast
  have "set (map (stats_key \<circ> ef_stats) (blend [w_inferred] ?cs SourceClosed 10 BasisRange 0)) = {stats_key w_inferred} \<union> set rest"
    unfolding r by simp
  also have "\<dots> = {(''a'', []), (''b'', [])}"
    unfolding rest by (auto simp: stats_key_def closed_stats_key_def w_inferred_def w_closed_def)
  finally have "set (map (stats_key \<circ> ef_stats) (blend [w_inferred] ?cs SourceClosed 10 BasisRange 0))
     = {(''a'', []), (''b'', [])}" .
  moreover have "list_ex (\<lambda>e. ef_guarded e \<and> is_warm (ef_stats e)) (blend [w_inferred] [w_closed ''a'', w_closed ''b''] SourceClosed 10 BasisRange 0)"
    by (simp add: blend_def closed_by_key_def row_replace_def row_delete_def row_lookup_def closed_stats_key_def stats_key_def
        w_inferred_def w_closed_def merge_stats_def fast_drop_def is_disabled_def guard_min_week_trades_def Let_def)
  ultimately show ?thesis by blast
qed

section \<open>Ranking\<close>

lemma take_sort_key_best:
  assumes "i \<in> set (take n (sort_key f xs))" "j \<in> set xs" "j \<notin> set (take n (sort_key f xs))"
  shows "f i \<le> f j"
proof -
  have "sorted (map f (take n (sort_key f xs) @ drop n (sort_key f xs)))" by simp
  moreover from assms(2,3) have "j \<in> set (drop n (sort_key f xs))"
    using append_take_drop_id[of n "sort_key f xs"] by (metis Un_iff set_append set_sort)
  ultimately show ?thesis using assms(1) by (simp only: map_append sorted_append) auto
qed

lemma top_candidates_take:
  "\<exists>n. top_candidates items s r = take n (sort_key (rank_order r) items)
     \<and> (\<not> is_disabled (wb_max_buy_candidates (it_wtb s)) \<longrightarrow> n = nat (max (wb_max_buy_candidates (it_wtb s)) 0))"
  by (cases "is_disabled (wb_max_buy_candidates (it_wtb s))")
    (auto simp: top_candidates_def Let_def intro: exI[of _ "length items"])


definition w_settings :: item_settings where
  "w_settings = default_item_settings\<lparr>it_wtb := default_item_wtb\<lparr>wb_volume_threshold := 5, wb_max_buy_candidates := 1\<rparr>\<rparr>"

definition w_prices :: price_source where
  "w_prices = (let i = no_price_info\<lparr>pi_volume := 10, pi_avg_price := 50\<rparr>
     in \<lparr>ps_items = [((''a'', []), i\<lparr>pi_wfm_id := ''a'', pi_profit := 20\<rparr>), ((''b'', []), i\<lparr>pi_wfm_id := ''b'', pi_profit := 30\<rparr>),
                     ((''c'', []), i\<lparr>pi_wfm_id := ''c'', pi_profit := 9\<rparr>)], ps_shift = []\<rparr>)"


end
