(* ===== verification/Item_Entries.thy ===== *)
theory Item_Entries
  imports Prices Trade_Orders Stock_Handlers Knapsack
begin

text \<open>
  The items of one trader cycle and the steps they share
  (\<open>qf_core/src/trader/item_entry.rs\<close>, \<open>helpers.rs\<close> and \<open>utils/order_list_ext.rs\<close>): which items
  are looked at and for what, the order's properties, which orders to delete at the start of a
  cycle, which buy orders are orphans, and the one write that follows the decision about an item.

  A call that leaves the process is numbered; the record \<open>trader_io\<close> holds what the \<open>n\<close>-th one
  meets (the marketplace's answers, with \<open>io_new\<close> for a create, the order book, a fresh id, the clock, the trader's running flag). Events for the user interface and
  log lines are left out.
\<close>

section \<open>Entries\<close>

record market_info =
  mi_lowest :: int
  mi_highest :: int
  mi_range :: int
  mi_volume :: nat

definition no_market_info :: market_info where
  "no_market_info = \<lparr>mi_lowest = 0, mi_highest = 0, mi_range = 0, mi_volume = 0\<rparr>"

type_synonym live_orders = "order_with_user order_list"

definition market_info_of :: "live_orders \<Rightarrow> order_type \<Rightarrow> market_info" where
  "market_info_of l t =
     \<lparr>mi_lowest = ol_lowest_price ow_order l t, mi_highest = ol_highest_price ow_order l t,
      mi_range = ol_price_range ow_order l t, mi_volume = length (ol_side l t)\<rparr>"

record item_entry =
  ie_stock_id :: "int option"
  ie_wish_id :: "int option"
  ie_url :: string
  ie_wfm_id :: string
  ie_sub_type :: "sub_type option"
  ie_priority :: int
  ie_buy_quantity :: int
  ie_sell_quantity :: int
  ie_operations :: operation_set
  ie_order_type :: string
  ie_buy_info :: market_info
  ie_sell_info :: market_info
  ie_properties :: properties

definition item_entry_new ::
  "int option \<Rightarrow> int option \<Rightarrow> string \<Rightarrow> string \<Rightarrow> sub_type option \<Rightarrow> int \<Rightarrow> int \<Rightarrow> int \<Rightarrow> string list \<Rightarrow> string
     \<Rightarrow> properties \<Rightarrow> item_entry" where
  "item_entry_new stock_id wish_id url wfm_id sub priority buy_q sell_q ops order_ty props =
     \<lparr>ie_stock_id = stock_id, ie_wish_id = wish_id, ie_url = url, ie_wfm_id = wfm_id, ie_sub_type = sub,
      ie_priority = priority, ie_buy_quantity = buy_q, ie_sell_quantity = sell_q, ie_operations = os_from ops,
      ie_order_type = order_ty, ie_buy_info = no_market_info, ie_sell_info = no_market_info, ie_properties = props\<rparr>"

definition apply_market_info :: "live_orders \<Rightarrow> item_entry \<Rightarrow> item_entry" where
  "apply_market_info l e = e\<lparr>ie_buy_info := market_info_of l BuyOrder, ie_sell_info := market_info_of l SellOrder\<rparr>"

definition ie_uuid :: "item_entry \<Rightarrow> string" where
  "ie_uuid e = row_uuid (ie_url e) (ie_sub_type e)"

definition get_quantity :: "item_entry \<Rightarrow> order_type \<Rightarrow> int" where
  "get_quantity e t = (case t of BuyOrder \<Rightarrow> ie_buy_quantity e | SellOrder \<Rightarrow> ie_sell_quantity e)"

definition set_quantity :: "order_type \<Rightarrow> int \<Rightarrow> item_entry \<Rightarrow> item_entry" where
  "set_quantity t q e = (case t of BuyOrder \<Rightarrow> e\<lparr>ie_buy_quantity := q\<rparr> | SellOrder \<Rightarrow> e\<lparr>ie_sell_quantity := q\<rparr>)"

text \<open>\<open>None\<close> in the result is a row that is gone; an entry without an id is an error.\<close>

definition get_stock_item :: "stock_db \<Rightarrow> item_entry \<Rightarrow> fault + stock_item option" where
  "get_stock_item db e =
     (case ie_stock_id e of
        None \<Rightarrow> Inl (Failed (new_error ''ItemEntry:GetStockItem'' ''Stock ID is None''))
      | Some i \<Rightarrow> Inr (stock_find_id db i))"

definition get_wish_item :: "stock_db \<Rightarrow> item_entry \<Rightarrow> fault + wish_item option" where
  "get_wish_item db e =
     (case ie_wish_id e of
        None \<Rightarrow> Inl (Failed (new_error ''ItemEntry:GetWishListItem'' ''Wish List ID is None''))
      | Some i \<Rightarrow> Inr (wish_find_id db i))"

definition entry_of_price :: "item_price_info \<Rightarrow> item_entry" where
  "entry_of_price i =
     item_entry_new None None (pi_wfm_url i) (pi_wfm_id i) (pi_sub_type i) 0 1 0 [''Buy''] ''closed'' None"

definition entry_of_stock :: "stock_item \<Rightarrow> item_entry" where
  "entry_of_stock m =
     item_entry_new (Some (stk_id m)) None (stk_wfm_url m) (stk_wfm_id m) (stk_sub_type m) 1 0 (stk_owned m) [''Sell''] ''closed'' None"

definition entry_of_wish :: "wish_item \<Rightarrow> item_entry" where
  "entry_of_wish m =
     item_entry_new None (Some (wl_id m)) (wl_wfm_url m) (wl_wfm_id m) (wl_sub_type m) 2 (wl_quantity m) 0 [''WishList''] ''buy'' None"

section \<open>The context of a cycle\<close>

text \<open>
  \<open>xc_debug\<close> stands for the debugging entries of the settings: \<open>None\<close> when there are none,
  otherwise what decoding them gives. \<open>xc_fake\<close> is the fake-orders switch.
\<close>

record trade_context =
  xc_settings :: live_settings
  xc_debug :: "(fault + item_entry list) option"
  xc_fake :: bool
  xc_prices :: price_source
  xc_cache :: item_cache
  xc_username :: string
  xc_banned :: bool

record trader_io =
  io_answer :: "nat \<Rightarrow> answers"
  io_new :: "nat \<Rightarrow> api_error + wfm_order"
  io_uuid :: "nat \<Rightarrow> string"
  io_now :: "nat \<Rightarrow> utc"
  io_created :: "nat \<Rightarrow> string"
  io_local :: "nat \<Rightarrow> string"
  io_running :: "nat \<Rightarrow> bool"
  io_book :: "nat \<Rightarrow> api_error + order_with_user order_list"
  io_order_json :: "order_with_user \<Rightarrow> json"

abbreviation xc_items :: "trade_context \<Rightarrow> item_settings" where
  "xc_items ctx \<equiv> lv_items (xc_settings ctx)"

section \<open>Collecting the entries\<close>

text \<open>The hash map from uuid to entry is an association list in order of insertion.\<close>

definition entry_put :: "item_entry \<Rightarrow> item_entry list \<Rightarrow> item_entry list" where
  "entry_put e m = row_replace ie_uuid e m"

definition entry_merge :: "string \<Rightarrow> (item_entry \<Rightarrow> item_entry) \<Rightarrow> item_entry \<Rightarrow> item_entry list \<Rightarrow> item_entry list" where
  "entry_merge u f fresh m =
     (if row_lookup ie_uuid m u \<noteq> None then row_modify ie_uuid u f m else m @ [fresh])"

definition add_buy :: "item_settings \<Rightarrow> item_entry list \<Rightarrow> item_price_info \<Rightarrow> item_entry list" where
  "add_buy s m i =
     (let e = set_quantity BuyOrder (wb_buy_quantity (it_wtb s)) (entry_of_price i)
      in if is_item_blacklisted (it_general s) (pi_wfm_id i) (pi_sub_type i) ModeBuy then m else entry_put e m)"

definition add_sell :: "item_settings \<Rightarrow> item_entry list \<Rightarrow> stock_item \<Rightarrow> item_entry list" where
  "add_sell s m i =
     (if is_item_blacklisted (it_general s) (stk_wfm_id i) (stk_sub_type i) ModeSell then m
      else entry_merge (stk_uuid i)
             (\<lambda>e. e\<lparr>ie_priority := 1, ie_sell_quantity := stk_owned i, ie_stock_id := Some (stk_id i),
                    ie_operations := os_add (ie_operations e) ''Sell''\<rparr>)
             (set_quantity SellOrder (stk_owned i) (entry_of_stock i)) m)"

definition add_wish :: "item_settings \<Rightarrow> item_entry list \<Rightarrow> wish_item \<Rightarrow> item_entry list" where
  "add_wish s m i =
     (if is_item_blacklisted (it_general s) (wl_wfm_id i) (wl_sub_type i) ModeWishList then m
      else entry_merge (wl_uuid i)
             (\<lambda>e. e\<lparr>ie_priority := 2, ie_buy_quantity := wl_quantity i, ie_wish_id := Some (wl_id i),
                    ie_operations := os_add (ie_operations e) ''WishList''\<rparr>)
             (entry_of_wish i) m)"

definition collect_interesting_items :: "trade_context \<Rightarrow> stock_db \<Rightarrow> fault + item_entry list" where
  "collect_interesting_items ctx db =
     (case xc_debug ctx of
        Some r \<Rightarrow> r
      | None \<Rightarrow>
          (let s = xc_items ctx; modes = xc_settings ctx;
               m1 = (if has_trade_mode modes ModeBuy then foldl (add_buy s) [] (get_interesting_items s (xc_prices ctx)) else []);
               m2 = (if has_trade_mode modes ModeSell then foldl (add_sell s) m1 (sd_items db) else m1);
               m3 = (if has_trade_mode modes ModeWishList then foldl (add_wish s) m2 (sd_wishes db) else m2)
           in Inr m3))"

definition wish_list_keys :: "stock_db \<Rightarrow> (string \<times> string) list" where
  "wish_list_keys db = map (\<lambda>w. (wl_wfm_id w, key_of (wl_sub_type w))) (sd_wishes db)"

section \<open>The properties of an order\<close>

definition get_order_info ::
  "item_entry \<Rightarrow> order_type \<Rightarrow> trade_orders \<Rightarrow> route \<Rightarrow> string \<times> int \<times> properties \<times> operation_set" where
  "get_order_info e t orders route =
     (case find_order orders (ie_wfm_id e) (from_entity (ie_sub_type e)) t route of
        None \<Rightarrow> ([], 0, None, os_from [''Create''])
      | Some o1 \<Rightarrow>
          (or_id o1, uint (or_platinum o1),
           prop_set (prop_set (or_properties o1) ''id'' (JStr (or_id o1)))
             ''original_update_string'' (JStr (''p:'' @ show_int (uint (or_platinum o1)))),
           os_from [''Update'']))"

definition json_opt :: "('a \<Rightarrow> json) \<Rightarrow> string \<Rightarrow> 'a option \<Rightarrow> (string \<times> json) list" where
  "json_opt f k v = (case v of Some x \<Rightarrow> [(k, f x)] | None \<Rightarrow> [])"

definition json_sub_type :: "sub_type option \<Rightarrow> json" where
  "json_sub_type s =
     (case s of
        None \<Rightarrow> JNull
      | Some s \<Rightarrow> JObj (json_opt JInt ''rank'' (sub_rank s) @ json_opt JInt ''charges'' (sub_charges s)
          @ json_opt JStr ''variant'' (sub_variant s) @ json_opt JInt ''amber_stars'' (sub_amber_stars s)
          @ json_opt JInt ''cyan_stars'' (sub_cyan_stars s)))"

definition json_item_sub_type :: "item_sub_type option \<Rightarrow> json" where
  "json_item_sub_type s =
     (case s of
        None \<Rightarrow> JNull
      | Some s \<Rightarrow> JObj (json_opt JInt ''maxRank'' (it_max_rank s) @ json_opt (\<lambda>v. JArr (map JStr v)) ''variants'' (it_variants s)
          @ json_opt JInt ''amberStars'' (it_amber_stars s) @ json_opt JInt ''cyanStars'' (it_cyan_stars s)))"

definition prop_set_all :: "properties \<Rightarrow> (string \<times> json) list \<Rightarrow> properties" where
  "prop_set_all p kvs = foldl (\<lambda>p (k, v). prop_set p k v) p kvs"

definition populate_order_properties :: "cache_item \<Rightarrow> item_entry \<Rightarrow> operation_set \<Rightarrow> properties \<Rightarrow> properties" where
  "populate_order_properties item e ops p =
     prop_set_all p
       [(''wfm_id'', JStr (ca_wfm_id item)), (''wfm_url'', JStr (ca_wfm_url item)), (''name'', JStr (ca_name item)),
        (''sub_type'', json_sub_type (ie_sub_type e)), (''image'', JStr (ca_icon item)),
        (''t_type'', json_item_sub_type (ca_sub_type item)),
        (''operations'', json_ops (os_merge (ie_operations e) ops))]"

definition json_history :: "price_history \<Rightarrow> json" where
  "json_history h = JObj [(''created_at'', JStr (ph_created_at h)), (''price'', JInt (ph_price h))]"

fun history_of_json :: "json \<Rightarrow> price_history option" where
  "history_of_json (JObj m) =
     (case (map_of m ''created_at'', map_of m ''price'') of
        (Some (JStr at'), Some (JInt p)) \<Rightarrow> if i64 p then Some \<lparr>ph_created_at = at', ph_price = p\<rparr> else None
      | _ \<Rightarrow> None)"
| "history_of_json _ = None"

definition prop_history :: "properties \<Rightarrow> price_history list" where
  "prop_history p =
     (case prop_get p ''price_history'' of
        Some (JArr js) \<Rightarrow> (if list_all (\<lambda>j. history_of_json j \<noteq> None) js then map (the \<circ> history_of_json) js else [])
      | _ \<Rightarrow> [])"

definition push_price_history :: "string \<Rightarrow> int \<Rightarrow> properties \<Rightarrow> properties" where
  "push_price_history now_text p props =
     prop_set props ''price_history''
       (JArr (map json_history (add_price_history (prop_history props) \<lparr>ph_created_at = now_text, ph_price = p\<rparr>)))"

definition set_order_market_metrics ::
  "trader_io \<Rightarrow> nat \<Rightarrow> int \<Rightarrow> int \<Rightarrow> item_price_info \<Rightarrow> live_orders \<Rightarrow> order_type \<Rightarrow> properties \<Rightarrow> properties" where
  "set_order_market_metrics io n post_price profit i l t p =
     (let sell_highest = ol_highest_price ow_order l SellOrder; sell_lowest = ol_lowest_price ow_order l SellOrder;
          buy_highest = ol_highest_price ow_order l BuyOrder; buy_lowest = ol_lowest_price ow_order l BuyOrder;
          spread = sell_lowest - buy_highest;
          spread_pct = (if 0 < sell_lowest then real_of_int spread / real_of_int sell_lowest * 100 else 0)
      in push_price_history (io_local io n) post_price
           (prop_set_all p
             [(''update_string'', JStr (''p:'' @ show_int post_price)), (''closed_avg'', JReal (pi_avg_price i)),
              (''potential_profit'', JInt profit), (''sell_highest_price'', JInt sell_highest),
              (''sell_lowest_price'', JInt sell_lowest), (''buy_highest_price'', JInt buy_highest),
              (''buy_lowest_price'', JInt buy_lowest), (''supply'', JInt (int (length (ol_sell l)))),
              (''demand'', JInt (int (length (ol_buy l)))), (''spread'', JInt spread),
              (''spread_percent'', JReal spread_pct),
              (''orders'', JArr (map (io_order_json io) (ol_take_top l 5 t)))]))"

section \<open>Which orders to delete\<close>

definition orders_to_delete :: "live_settings \<Rightarrow> bool \<Rightarrow> own_orders \<Rightarrow> string list" where
  "orders_to_delete s just_started mine =
     (if lg_auto_delete (lv_general s) \<and> just_started
      then map or_id (filter (\<lambda>o1. \<not> is_item_blacklisted (it_general (lv_items s)) (or_item_id o1) (to_entity (or_subtype o1))
                 (case or_type o1 of BuyOrder \<Rightarrow> ModeBuy | SellOrder \<Rightarrow> ModeSell)) (ol_to_vec mine))
      else case (has_trade_mode s ModeBuy, has_trade_mode s ModeSell, has_trade_mode s ModeWishList) of
        (True, False, True) \<Rightarrow> ol_order_ids id mine SellOrder
      | (False, True, False) \<Rightarrow> ol_order_ids id mine BuyOrder
      | _ \<Rightarrow> [])"

definition orphan_grace :: duration where "orphan_grace = mins 30"

definition should_sweep :: "bool \<Rightarrow> item_entry list \<Rightarrow> bool" where
  "should_sweep interrupted entries \<longleftrightarrow> \<not> interrupted \<and> list_ex (\<lambda>e. os_has (ie_operations e) ''Buy'') entries"

definition covers :: "item_entry \<Rightarrow> bool" where
  "covers e \<longleftrightarrow> os_has (ie_operations e) ''Buy'' \<or> os_has (ie_operations e) ''WishList''"

definition orphan_buy_orders :: "live_settings \<Rightarrow> item_entry list \<Rightarrow> own_orders \<Rightarrow> string list" where
  "orphan_buy_orders s entries mine =
     (if \<not> has_trade_mode s ModeBuy then []
      else let general = it_general (lv_items s);
               covered = map (\<lambda>e. (ie_wfm_id e, key_of (ie_sub_type e))) (filter covers entries)
           in map or_id (filter (\<lambda>o1. order_key o1 \<notin> set covered
                \<and> \<not> is_item_blacklisted general (or_item_id o1) (to_entity (or_subtype o1)) ModeBuy
                \<and> \<not> is_item_blacklisted general (or_item_id o1) (to_entity (or_subtype o1)) ModeWishList) (ol_buy mine)))"

text \<open>When each order was first seen uncovered, in the order of insertion.\<close>

type_synonym first_seen = "(string \<times> utc) list"

definition see_orphan :: "utc \<Rightarrow> first_seen \<Rightarrow> string \<Rightarrow> first_seen" where
  "see_orphan now m i = (if row_lookup fst m i = None then m @ [(i, now)] else m)"

definition due_orphans :: "first_seen \<Rightarrow> string list \<Rightarrow> utc \<Rightarrow> duration \<Rightarrow> string list \<times> first_seen" where
  "due_orphans seen orphans now grace =
     (let m = foldl (see_orphan now) (filter (\<lambda>(i, t). i \<in> set orphans) seen) orphans
      in (filter (\<lambda>i. case row_lookup fst m i of Some (_, t) \<Rightarrow> grace \<le> now - t | None \<Rightarrow> False) orphans, m))"

section \<open>One write per decision\<close>

definition order_unchanged :: "wfm_order \<Rightarrow> 32 word \<Rightarrow> 32 word \<Rightarrow> 32 word option \<Rightarrow> bool" where
  "order_unchanged o1 p q per_trade \<longleftrightarrow>
     or_visible o1 \<and> or_platinum o1 = p \<and> or_quantity o1 = q
   \<and> (per_trade = None \<or> map_option ucast (or_per_trade o1) = per_trade)"

definition sell_slot_victim :: "trade_orders \<Rightarrow> route \<Rightarrow> order_type \<Rightarrow> (string \<times> string) list \<Rightarrow> wfm_order option" where
  "sell_slot_victim t route ty wish_list =
     (if route = LiveRoute \<and> ty = SellOrder then lowest_profit_buy_order t wish_list else None)"

text \<open>A property value that is absent becomes JSON's null.\<close>

definition props_value :: "properties \<Rightarrow> properties" where
  "props_value p = Some (case p of Some j \<Rightarrow> j | None \<Rightarrow> JNull)"

definition create_of ::
  "item_entry \<Rightarrow> order_type \<Rightarrow> 32 word \<Rightarrow> int option \<Rightarrow> properties \<Rightarrow> create_params" where
  "create_of e ty post_price per_trade props =
     \<lparr>cp_item_id = ie_wfm_id e, cp_type = ty, cp_platinum = post_price, cp_quantity = word_of_int (get_quantity e ty),
      cp_visible = True, cp_per_trade = map_option word_of_int per_trade, cp_subtype = Some (from_entity (ie_sub_type e)),
      cp_properties = props_value props\<rparr>"

definition update_of ::
  "item_entry \<Rightarrow> order_type \<Rightarrow> 32 word \<Rightarrow> int option \<Rightarrow> properties \<Rightarrow> update_params" where
  "update_of e ty post_price per_trade props =
     no_update\<lparr>up_platinum := Some post_price, up_quantity := Some (word_of_int (get_quantity e ty)),
       up_per_trade := map_option word_of_int per_trade, up_properties := props_value props\<rparr>"

text \<open>A failed delete of the victim leaves the sale blocked instead of ending the cycle.\<close>

definition free_sell_slot ::
  "trader_io \<Rightarrow> nat \<Rightarrow> route \<Rightarrow> order_type \<Rightarrow> slots \<Rightarrow> trade_orders \<Rightarrow> bool \<times> trade_orders" where
  "free_sell_slot io n route ty slots t =
     (case sell_slot_victim t route ty (sl_wish_list slots) of
        None \<Rightarrow> (False, t)
      | Some v \<Rightarrow>
          (case tq_delete t (or_id v) \<lparr>wm_sub_type = key_of (to_entity (or_subtype v)), wm_reason = ''SellSlot''\<rparr>
                  (ts (io_now io n)) (io_answer io n) of
             (Inr _, t1) \<Rightarrow> (True, t1)
           | (Inl _, t1) \<Rightarrow> (False, t1)))"

definition can_create ::
  "trade_orders \<Rightarrow> route \<Rightarrow> order_type \<Rightarrow> slots \<Rightarrow> bool" where
  "can_create t route ty slots =
     (case ty of
        BuyOrder \<Rightarrow> can_create_buy t route (sl_sell_backlog slots + sell_slot_margin)
      | SellOrder \<Rightarrow> can_create_order t route)"

definition done_with :: "(order_error + 'v) \<times> trade_orders \<Rightarrow> (order_error + unit) \<times> trade_orders" where
  "done_with r = (case r of (Inr _, t) \<Rightarrow> (Inr (), t) | (Inl e, t) \<Rightarrow> (Inl e, t))"

definition progress_order ::
  "trader_io \<Rightarrow> nat \<Rightarrow> item_entry \<Rightarrow> route \<Rightarrow> order_type \<Rightarrow> 32 word \<Rightarrow> int option \<Rightarrow> properties \<Rightarrow> operation_set
     \<Rightarrow> slots \<Rightarrow> trade_orders \<Rightarrow> (order_error + unit) \<times> trade_orders" where
  "progress_order io n e route ty post_price per_trade props ops slots t =
     (let order_id = prop_str props ''id'' [];
          meta = \<lparr>wm_sub_type = key_of (ie_sub_type e), wm_reason = str_join '','' ops\<rparr>;
          creating = os_has ops ''Create'' \<and> \<not> os_has ops ''Delete'';
          can = can_create t route ty slots;
          (can1, t1) = (if creating \<and> \<not> can then free_sell_slot io n route ty slots t else (can, t))
      in if creating \<and> can1 then
           done_with (tq_create t1 (create_of e ty post_price per_trade props) route meta (io_uuid io (n + 1))
             (ts (io_now io (n + 1))) (io_created io (n + 1)) ((io_answer io (n + 1))\<lparr>an_order := io_new io (n + 1)\<rparr>))
         else if os_has ops ''Update'' \<and> \<not> os_has ops ''Delete'' then
           (let params = update_of e ty post_price per_trade props
            in case ol_get_by_id (all_orders t1) order_id of
                 Some o1 \<Rightarrow>
                   (if order_unchanged o1 post_price (word_of_int (get_quantity e ty)) (up_per_trade params)
                    then (Inr (), tq_update_local t1 order_id params)
                    else done_with (tq_update t1 order_id params meta (ts (io_now io (n + 1))) (io_answer io (n + 1))))
               | None \<Rightarrow> done_with (tq_update t1 order_id params meta (ts (io_now io (n + 1))) (io_answer io (n + 1))))
         else if os_has ops ''Update'' \<and> os_has ops ''Delete'' then
           done_with (tq_delete t1 order_id meta (ts (io_now io (n + 1))) (io_answer io (n + 1)))
         else (Inr (), t1))"

definition delete_order ::
  "trader_io \<Rightarrow> nat \<Rightarrow> item_entry \<Rightarrow> order_type \<Rightarrow> route \<Rightarrow> string \<Rightarrow> trade_orders \<Rightarrow> (order_error + unit) \<times> trade_orders" where
  "delete_order io n e ty route reason t =
     (let (order_id, _, props, _) = get_order_info e ty t route
      in if order_id = [] then (Inr (), t)
         else progress_order io n e route ty 1 None props (os_from [''Update'', ''Delete'', reason]) no_slots t)"

definition get_per_trade :: "cache_item \<Rightarrow> int option" where
  "get_per_trade item = (if ca_bulk_tradable item then Some 1 else None)"

definition is_blacklisted :: "item_settings \<Rightarrow> cache_item \<Rightarrow> item_entry \<Rightarrow> trade_mode \<Rightarrow> bool" where
  "is_blacklisted s item e mode = is_item_blacklisted (it_general s) (ca_wfm_id item) (ie_sub_type e) mode"

definition should_apply_max_price_drop :: "int \<Rightarrow> int \<Rightarrow> int \<Rightarrow> int \<Rightarrow> int list \<Rightarrow> order_type \<Rightarrow> string option" where
  "should_apply_max_price_drop max_price_drop min_listings_below current post_price prices ty =
     (if is_disabled max_price_drop \<and> is_disabled min_listings_below then None
      else let (invalid, change, listings) =
             (case ty of
                BuyOrder \<Rightarrow> (post_price < current, post_price - current, int (length (filter (\<lambda>p. current < p) prices)))
              | SellOrder \<Rightarrow> (current < post_price, current - post_price, int (length (filter (\<lambda>p. p < current) prices))))
           in if invalid then None
              else if \<not> is_disabled max_price_drop \<and> max_price_drop < change
                    \<and> (is_disabled min_listings_below \<or> listings \<le> min_listings_below)
              then Some ''MaxPriceDrop'' else None)"

text \<open>\<open>extract_order_summary\<close> of the account's orders. The default \<open>0\<close> makes the property an \<open>i32\<close>.\<close>

definition prop_i32 :: "properties \<Rightarrow> string \<Rightarrow> int \<Rightarrow> int" where
  "prop_i32 p k dflt =
     (case prop_get p k of Some (JInt i) \<Rightarrow> if - (2 ^ 31) \<le> i \<and> i < 2 ^ 31 then i else dflt | _ \<Rightarrow> dflt)"

definition extract_order_summary :: "own_orders \<Rightarrow> order_type \<Rightarrow> (int \<times> real \<times> string \<times> string) list" where
  "extract_order_summary l ty =
     map (\<lambda>o1. (uint (or_platinum o1), real_of_int (prop_i32 (or_properties o1) ''potential_profit'' 0), or_item_id o1, or_id o1))
       (ol_side l ty)"

section \<open>Orphans\<close>

text \<open>
  The reference: since when an order has been an orphan without a break, from the history of the
  sweeps, the latest first.
\<close>

fun orphan_since :: "(string list \<times> utc) list \<Rightarrow> string \<Rightarrow> utc option" where
  "orphan_since [] i = None"
| "orphan_since ((orphans, now) # h) i =
     (if i \<in> set orphans then (case orphan_since h i of Some t \<Rightarrow> Some t | None \<Rightarrow> Some now) else None)"

fun seen_after :: "(string list \<times> utc) list \<Rightarrow> duration \<Rightarrow> first_seen" where
  "seen_after [] grace = []"
| "seen_after ((orphans, now) # h) grace = snd (due_orphans (seen_after h grace) orphans now grace)"

lemma row_lookup_filter_fst:
  "row_lookup fst (filter (\<lambda>(i, t). P i) m) k = (if P k then row_lookup fst m k else None)"
  by (induction m) (auto simp: row_lookup_def)

lemma see_orphan_lookup:
  "row_lookup fst (foldl (see_orphan now) m is) k =
     (case row_lookup fst m k of Some r \<Rightarrow> Some r | None \<Rightarrow> if k \<in> set is then Some (k, now) else None)"
proof (induction "is" arbitrary: m)
  case (Cons i "is")
  have "row_lookup fst (see_orphan now m i) k =
      (case row_lookup fst m k of Some r \<Rightarrow> Some r | None \<Rightarrow> if k = i then Some (k, now) else None)"
    by (auto simp: see_orphan_def row_lookup_def find_append split: option.splits)
  with Cons show ?case by (auto split: option.splits)
qed (simp split: option.splits)

lemma due_orphans_seen:
  "row_lookup fst (snd (due_orphans seen orphans now grace)) k =
     (if k \<in> set orphans then (case row_lookup fst seen k of Some r \<Rightarrow> Some r | None \<Rightarrow> Some (k, now)) else None)"
  by (auto simp: due_orphans_def Let_def see_orphan_lookup row_lookup_filter_fst split: option.splits)

lemma seen_after_lookup: "row_lookup fst (seen_after h grace) k = map_option (Pair k) (orphan_since h k)"
proof (induction h)
  case (Cons s h)
  obtain orphans now where s: "s = (orphans, now)" by fastforce
  show ?case
    using Cons by (auto simp: s due_orphans_seen split: option.splits)
qed (simp add: row_lookup_def)

lemma due_after:
  "i \<in> set (fst (due_orphans (seen_after h grace) orphans now grace)) \<longleftrightarrow>
     i \<in> set orphans \<and> (case orphan_since ((orphans, now) # h) i of Some t \<Rightarrow> grace \<le> now - t | None \<Rightarrow> False)"
proof -
  have "i \<in> set (fst (due_orphans (seen_after h grace) orphans now grace)) \<longleftrightarrow>
      i \<in> set orphans \<and> (case row_lookup fst (snd (due_orphans (seen_after h grace) orphans now grace)) i of
          Some (_, t) \<Rightarrow> grace \<le> now - t | None \<Rightarrow> False)"
    by (simp add: due_orphans_def Let_def)
  then show ?thesis
    by (auto simp: due_orphans_seen seen_after_lookup split: option.splits)
qed

text \<open>
  After any history of sweeps, the orders a sweep deletes are exactly the account's buy orders that
  this cycle's entries do not cover, that neither blacklist protects, and that have been uncovered in
  every sweep of at least the last thirty minutes: an order that was covered once in between, or that
  appeared later, starts its grace anew.
\<close>

theorem orphans_wait_half_an_hour:
  "set (fst (due_orphans (seen_after h orphan_grace) (orphan_buy_orders s entries mine) now orphan_grace)) =
     {i. \<exists>o1\<in>set (ol_buy mine). or_id o1 = i \<and> has_trade_mode s ModeBuy
        \<and> (\<forall>e\<in>set entries. covers e \<longrightarrow> (ie_wfm_id e, key_of (ie_sub_type e)) \<noteq> order_key o1)
        \<and> \<not> is_item_blacklisted (it_general (lv_items s)) (or_item_id o1) (to_entity (or_subtype o1)) ModeBuy
        \<and> \<not> is_item_blacklisted (it_general (lv_items s)) (or_item_id o1) (to_entity (or_subtype o1)) ModeWishList
        \<and> (\<exists>t. orphan_since h i = Some t \<and> t + mins 30 \<le> now)}"
proof -
  have mem: "i \<in> set (orphan_buy_orders s entries mine) \<longleftrightarrow>
      (\<exists>o1\<in>set (ol_buy mine). or_id o1 = i \<and> has_trade_mode s ModeBuy
        \<and> (\<forall>e\<in>set entries. covers e \<longrightarrow> (ie_wfm_id e, key_of (ie_sub_type e)) \<noteq> order_key o1)
        \<and> \<not> is_item_blacklisted (it_general (lv_items s)) (or_item_id o1) (to_entity (or_subtype o1)) ModeBuy
        \<and> \<not> is_item_blacklisted (it_general (lv_items s)) (or_item_id o1) (to_entity (or_subtype o1)) ModeWishList)" for i
    by (cases "has_trade_mode s ModeBuy")
      (auto simp: orphan_buy_orders_def Let_def image_iff eq_commute[of _ "order_key _"] intro!: bexI)
  have due: "i \<in> set (fst (due_orphans (seen_after h orphan_grace) (orphan_buy_orders s entries mine) now orphan_grace)) \<longleftrightarrow>
      i \<in> set (orphan_buy_orders s entries mine) \<and> (\<exists>t. orphan_since h i = Some t \<and> t + mins 30 \<le> now)" for i
    by (auto simp: due_after orphan_grace_def mins_def secs_def algebra_simps split: option.splits)
  show ?thesis by (rule set_eqI) (simp only: due mem mem_Collect_eq, blast)
qed

section \<open>What a decision sends\<close>

lemma tq_create_sent: "tq_sent (snd (tq_create t ps route meta u now txt an)) \<le> tq_sent t + 1"
  by (auto simp: tq_create_def no_client_def Let_def split: route.splits option.splits prod.splits)

lemma tq_update_sent: "tq_sent (snd (tq_update t i ps meta now an)) \<le> tq_sent t + 1"
  by (auto simp: tq_update_def no_client_def Let_def split: option.splits prod.splits)

lemma tq_delete_sent: "tq_sent (snd (tq_delete t i meta now an)) \<le> tq_sent t + 1"
proof (cases "in_book t i")
  case True
  then show ?thesis by (auto simp: tq_delete_def Let_def split: option.splits)
next
  case False
  then show ?thesis by (auto simp: tq_delete_def no_client_def Let_def case_prod_unfold split: option.splits)
qed

lemma tq_update_local_sent [simp]: "tq_sent (tq_update_local t i ps) = tq_sent t"
  by (auto simp: tq_update_local_def split: option.splits)

lemma done_with_snd [simp]: "snd (done_with r) = snd r"
  by (auto simp: done_with_def split: prod.splits sum.splits)

lemma free_sell_slot_sent:
  "tq_sent (snd (free_sell_slot io n route ty slots t)) \<le> tq_sent t + (if route = LiveRoute \<and> ty = SellOrder then 1 else 0)"
proof (cases "sell_slot_victim t route ty (sl_wish_list slots)")
  case (Some v)
  then have "route = LiveRoute \<and> ty = SellOrder" by (auto simp: sell_slot_victim_def split: if_splits)
  with Some tq_delete_sent[of t "or_id v"] show ?thesis
    by (auto simp: free_sell_slot_def split: prod.splits sum.splits) (metis snd_conv)+
qed (simp add: free_sell_slot_def)

lemma free_sell_slot_buy [simp]: "free_sell_slot io n route BuyOrder slots t = (False, t)"
  by (simp add: free_sell_slot_def sell_slot_victim_def)

text \<open>Skipping a PATCH loses nothing: it would have changed the properties of the order only, and those locally.\<close>

lemma ucast_8_32_8 [simp]: "(ucast (ucast (x :: 8 word) :: 32 word) :: 8 word) = x"
  by (rule ucast_up_ucast_id) (simp add: is_up)

lemma skipped_patch_keeps_the_order:
  assumes "order_unchanged o1 p (word_of_int (get_quantity e ty)) (up_per_trade (update_of e ty p per_trade props))"
  shows "update_order (update_of e ty p per_trade props) o1 = o1\<lparr>or_properties := props_value props\<rparr>"
  using assms
  by (cases o1, auto simp: order_unchanged_def update_of_def update_order_def no_update_def props_value_def Let_def
      split: option.splits) (metis ucast_8_32_8)

text \<open>
  A decision about an item costs at most one write to the marketplace, and two only when a live sale
  is blocked at the order limit (the first deletes the bid it replaces). An order marked for deletion that
  does not exist, and a bid that is blocked, send nothing and change nothing; an order that already stands
  as wanted is not sent again.
\<close>

theorem progress_order_writes:
  assumes "\<not> (os_has ops ''Create'' \<and> os_has ops ''Update'')"
  shows "tq_sent (snd (progress_order io n e route ty p per_trade props ops slots t))
           \<le> tq_sent t + (if route = LiveRoute \<and> ty = SellOrder \<and> os_has ops ''Create'' \<and> \<not> can_create t route ty slots then 2 else 1)
       \<and> (os_has ops ''Delete'' \<and> \<not> os_has ops ''Update'' \<longrightarrow> progress_order io n e route ty p per_trade props ops slots t = (Inr (), t))
       \<and> (ty = BuyOrder \<and> os_has ops ''Create'' \<and> \<not> can_create t route ty slots \<longrightarrow>
            progress_order io n e route ty p per_trade props ops slots t = (Inr (), t))
       \<and> (os_has ops ''Update'' \<and> \<not> os_has ops ''Delete''
            \<and> (\<exists>o1. ol_get_by_id (all_orders t) (prop_str props ''id'' []) = Some o1
                  \<and> order_unchanged o1 p (word_of_int (get_quantity e ty)) (map_option word_of_int per_trade)) \<longrightarrow>
            fst (progress_order io n e route ty p per_trade props ops slots t) = Inr ()
          \<and> tq_sent (snd (progress_order io n e route ty p per_trade props ops slots t)) = tq_sent t)"
proof (intro conjI impI)
  let ?r = "progress_order io n e route ty p per_trade props ops slots t"
  let ?meta = "\<lparr>wm_sub_type = key_of (ie_sub_type e), wm_reason = str_join '','' ops\<rparr>"
  let ?creating = "os_has ops ''Create'' \<and> \<not> os_has ops ''Delete''"
  obtain can1 t1 where c: "(if ?creating \<and> \<not> can_create t route ty slots then free_sell_slot io n route ty slots t
      else (can_create t route ty slots, t)) = (can1, t1)" by fastforce
  note step = progress_order_def[of io n e route ty p per_trade props ops slots t, unfolded Let_def c prod.case]
  have sent1: "tq_sent t1 \<le> tq_sent t + (if route = LiveRoute \<and> ty = SellOrder \<and> os_has ops ''Create'' \<and> \<not> can_create t route ty slots then 1 else 0)"
    using free_sell_slot_sent[of io n route ty slots t] c by (auto split: if_splits)
  have "tq_sent (snd ?r) \<le> tq_sent t1 + 1"
    unfolding step using tq_create_sent tq_update_sent tq_delete_sent by (auto split: option.splits)
  with sent1 show "tq_sent (snd ?r) \<le> tq_sent t + (if route = LiveRoute \<and> ty = SellOrder \<and> os_has ops ''Create''
      \<and> \<not> can_create t route ty slots then 2 else 1)" by (auto split: if_splits)
  show "?r = (Inr (), t)" if "os_has ops ''Delete'' \<and> \<not> os_has ops ''Update''"
    unfolding step using that c by auto
  show "?r = (Inr (), t)" if "ty = BuyOrder \<and> os_has ops ''Create'' \<and> \<not> can_create t route ty slots"
    unfolding step using that c assms by (auto split: if_splits)
  assume up: "os_has ops ''Update'' \<and> \<not> os_has ops ''Delete''
      \<and> (\<exists>o1. ol_get_by_id (all_orders t) (prop_str props ''id'' []) = Some o1
            \<and> order_unchanged o1 p (word_of_int (get_quantity e ty)) (map_option word_of_int per_trade))"
  then have "t1 = t" using c assms by auto
  with up assms show "fst ?r = Inr ()" "tq_sent (snd ?r) = tq_sent t"
    unfolding step by (auto simp: update_of_def no_update_def)
qed

section \<open>Concrete cases\<close>

definition demo_bid :: wfm_order where
  "demo_bid = \<lparr>or_id = ''o'', or_type = BuyOrder, or_platinum = 9, or_quantity = 1, or_per_trade = None, or_subtype = wsub_default,
     or_visible = True, or_item_id = ''c1'', or_created_at = [], or_updated_at = [], or_properties = None\<rparr>"

definition demo_rival :: "order_type \<Rightarrow> string \<Rightarrow> 32 word \<Rightarrow> order_with_user" where
  "demo_rival ty i p =
     \<lparr>ow_order = \<lparr>or_id = i, or_type = ty, or_platinum = p, or_quantity = 1, or_per_trade = None, or_subtype = wsub_default,
        or_visible = True, or_item_id = ''c1'', or_created_at = [], or_updated_at = [], or_properties = None\<rparr>,
      ow_user = \<lparr>us_id = i, us_name = i, us_status = UserInGame\<rparr>\<rparr>"

definition demo_io :: trader_io where
  "demo_io = \<lparr>io_answer = (\<lambda>n. \<lparr>an_order = Inl ApiNotFound, an_mine = Inr []\<rparr>), io_new = (\<lambda>n. Inl LimitExceeded),
     io_uuid = show_nat, io_now = (\<lambda>n. 0), io_created = (\<lambda>n. []), io_local = (\<lambda>n. []), io_running = (\<lambda>n. True),
     io_book = (\<lambda>n. Inr (ol_new ow_order [demo_rival BuyOrder ''b'' 20, demo_rival SellOrder ''s'' 60])),
     io_order_json = (\<lambda>w. JNull)\<rparr>"

theorem orphans_wait_half_an_hour_witness:
  "set (fst (due_orphans (seen_after [([''o''], 0)] orphan_grace) (orphan_buy_orders default_live [] \<lparr>ol_sell = [], ol_buy = [demo_bid]\<rparr>)
      (mins 30) orphan_grace)) = {''o''}
   \<and> set (fst (due_orphans (seen_after [([], mins 20), ([''o''], 0)] orphan_grace) (orphan_buy_orders default_live [] \<lparr>ol_sell = [], ol_buy = [demo_bid]\<rparr>)
      (mins 30) orphan_grace)) = {}"
proof -
  let ?mine = "\<lparr>ol_sell = [], ol_buy = [demo_bid]\<rparr>"
  have s: "has_trade_mode default_live ModeBuy" "\<not> is_item_blacklisted (it_general (lv_items default_live)) i sub mode" for i sub mode
    by (simp_all add: has_trade_mode_def default_live_def default_live_general_def is_item_blacklisted_def default_item_settings_def
        default_item_general_def)
  have "set (fst (due_orphans (seen_after [([''o''], 0)] orphan_grace) (orphan_buy_orders default_live [] ?mine) (mins 30) orphan_grace)) = {''o''}"
    unfolding orphans_wait_half_an_hour by (simp add: s demo_bid_def)
  moreover have "set (fst (due_orphans (seen_after [([], mins 20), ([''o''], 0)] orphan_grace) (orphan_buy_orders default_live [] ?mine)
      (mins 30) orphan_grace)) = {}"
    unfolding orphans_wait_half_an_hour by (simp add: s demo_bid_def)
  ultimately show ?thesis by blast
qed

theorem progress_order_writes_witness:
  "progress_order demo_io 0 (entry_of_price no_price_info) LiveRoute BuyOrder 10 None None [''Create''] no_slots
       (trade_orders_new (Some (rc_set_limit route_new 5)) False)
     = (Inr (), trade_orders_new (Some (rc_set_limit route_new 5)) False)
   \<and> can_create_order (trade_orders_new (Some (rc_set_limit route_new 5)) False) LiveRoute"
proof -
  let ?t = "trade_orders_new (Some (rc_set_limit route_new 5)) False"
  have "\<not> can_create ?t LiveRoute BuyOrder no_slots" "can_create_order ?t LiveRoute"
    by (simp_all add: can_create_def can_create_buy_def can_create_order_def trade_orders_new_def rc_set_limit_def route_new_def
        ol_empty_def ol_total_def sell_slot_margin_def no_slots_def rc_can_create_def)
  moreover have "\<not> (os_has [''Create''] ''Create'' \<and> os_has [''Create''] ''Update'')" "os_has [''Create''] ''Create''"
    by (simp_all add: os_has_def)
  ultimately show ?thesis
    using progress_order_writes[of "[''Create'']" demo_io 0 "entry_of_price no_price_info" LiveRoute BuyOrder 10 None None no_slots ?t] by simp
qed

end
