(* ===== verification/Item_Trader.thy ===== *)
theory Item_Trader
  imports Item_Entries
begin

text \<open>
  One cycle of the item trader (\<open>qf_core/src/trader/item.rs\<close>): the deletions at its start, the
  entries in the order of their priority with their order books, the three workflows (buying,
  selling, wish list), the knapsack over all bids and the sweep of orphans.

  The state is what the cycle reads and writes: the orders, the stock and wish-list tables, the
  collector that is handed every book, the orphans' clock and the number of the next outside call.
  An error ends the cycle at the state reached. The prefetch of the next book only moves the time
  of a fetch and is not modelled.
\<close>

section \<open>State\<close>

record trader =
  xt_orders :: trade_orders
  xt_stock :: stock_db
  xt_collector :: "collector option"
  xt_seen :: first_seen
  xt_calls :: nat

datatype trader_error = OrderFailed order_error | RowFailed fault | BookFailed order_error

text \<open>\<open>f64 as i64\<close> truncates towards zero and saturates.\<close>

definition f64_as_i64 :: "real \<Rightarrow> int" where
  "f64_as_i64 x = max (- (2 ^ 63)) (min (2 ^ 63 - 1) (if 0 \<le> x then \<lfloor>x\<rfloor> else \<lceil>x\<rceil>))"

definition from_wfm :: "order_with_user \<Rightarrow> v2_order" where
  "from_wfm o1 =
     (let w = ow_order o1; sub = or_subtype w; u = ow_user o1 in
      \<lparr>vo_id = or_id w, vo_side = (case or_type w of BuyOrder \<Rightarrow> ''buy'' | SellOrder \<Rightarrow> ''sell''),
       vo_platinum = uint (or_platinum w), vo_quantity = uint (or_quantity w),
       vo_rank = wsub_rank sub, vo_charges = wsub_charges sub, vo_subtype = wsub_subtype sub,
       vo_amber_stars = wsub_amber_stars sub, vo_cyan_stars = wsub_cyan_stars sub,
       vo_visible = or_visible w, vo_item_id = or_item_id w, vo_user_id = us_id u, vo_user_name = us_name u,
       vo_user_status = (case us_status u of UserInGame \<Rightarrow> ''ingame'' | UserOnline \<Rightarrow> ''online'' | UserOffline \<Rightarrow> ''offline'')\<rparr>)"

definition with_orders :: "trader \<Rightarrow> (order_error + unit) \<times> trade_orders \<Rightarrow> (trader_error + unit) \<times> trader" where
  "with_orders x r =
     (case r of (Inr _, t) \<Rightarrow> (Inr (), x\<lparr>xt_orders := t, xt_calls := xt_calls x + 2\<rparr>)
      | (Inl e, t) \<Rightarrow> (Inl (OrderFailed e), x\<lparr>xt_orders := t, xt_calls := xt_calls x + 2\<rparr>))"

text \<open>The end of every workflow: the properties of the order, then the one write.\<close>

definition place_order ::
  "trader_io \<Rightarrow> cache_item \<Rightarrow> item_entry \<Rightarrow> item_price_info \<Rightarrow> live_orders \<Rightarrow> route \<Rightarrow> order_type \<Rightarrow> int \<Rightarrow> int
     \<Rightarrow> operation_set \<Rightarrow> properties \<Rightarrow> slots \<Rightarrow> trader \<Rightarrow> (trader_error + unit) \<times> trader" where
  "place_order io item e i l route ty post_price profit ops props slots x =
     (let n = xt_calls x;
          p = set_order_market_metrics io n post_price profit i l ty (populate_order_properties item e ops props)
      in with_orders x (progress_order io n e route ty (word_of_int post_price) (get_per_trade item) p ops slots (xt_orders x)))"

definition drop_order ::
  "trader_io \<Rightarrow> item_entry \<Rightarrow> order_type \<Rightarrow> route \<Rightarrow> string \<Rightarrow> trader \<Rightarrow> (trader_error + unit) \<times> trader" where
  "drop_order io e ty route reason x = with_orders x (delete_order io (xt_calls x) e ty route reason (xt_orders x))"

definition guard_op :: "item_price_info \<Rightarrow> operation_set \<Rightarrow> operation_set" where
  "guard_op i ops = (if pi_guarded i then os_add ops ''FastDropGuard'' else ops)"

definition moving_avg_or_zero :: "item_price_info \<Rightarrow> int" where
  "moving_avg_or_zero i = f64_as_i64 (or_zero (pi_moving_avg i))"

section \<open>Buying\<close>

definition stock_is_full :: "item_wtb \<Rightarrow> stock_db \<Rightarrow> item_entry \<Rightarrow> fault + bool" where
  "stock_is_full wtb db e =
     (if \<not> is_disabled (wb_max_stock_quantity wtb) \<and> ie_stock_id e \<noteq> None
      then (case get_stock_item db e of
              Inl f \<Rightarrow> Inl f
            | Inr (Some m) \<Rightarrow> Inr (wb_max_stock_quantity wtb \<le> stk_owned m)
            | Inr None \<Rightarrow> Inr False)
      else Inr False)"

definition of_item :: "string \<Rightarrow> int \<times> real \<times> string \<times> string \<Rightarrow> bool" where
  "of_item wfm_id k \<longleftrightarrow> fst (snd (snd k)) = wfm_id"

text \<open>Whether the knapsack over the standing bids and this one keeps the item.\<close>

definition knapsack_keeps :: "int \<Rightarrow> own_orders \<Rightarrow> string \<Rightarrow> int \<Rightarrow> int \<Rightarrow> bool" where
  "knapsack_keeps cap mine wfm_id post_price profit \<longleftrightarrow>
     is_disabled cap
   \<or> (let bids = extract_order_summary mine BuyOrder;
          bids1 = (if list_ex (of_item wfm_id) bids then bids else bids @ [(post_price, real_of_int profit, wfm_id, [])])
      in list_ex (of_item wfm_id) (fst (knapsack bids1 cap)))"

text \<open>The bid, its expected profit and the operations; \<open>None\<close> when the knapsack leaves the item out.\<close>

definition buy_decision ::
  "item_settings \<Rightarrow> string \<Rightarrow> int \<Rightarrow> market_info \<Rightarrow> int \<Rightarrow> int list \<Rightarrow> own_orders \<Rightarrow> operation_set
     \<Rightarrow> (int \<times> int \<times> operation_set) option" where
  "buy_decision s wfm_id closed_avg market current prices mine ops =
     (let wtb = it_wtb s;
          (post1, ops1) = (case should_apply_max_price_drop (wb_max_price_drop wtb) (wb_min_listings_below wtb) current
                              (mi_highest market) prices BuyOrder of
                             Some reason \<Rightarrow> (current, os_add ops reason) | None \<Rightarrow> (mi_highest market, ops));
          metric = closed_avg - post1;
          profit = metric - 1;
          item_max = get_item_max_price (it_general s) wfm_id;
          (post2, ops2) = (if 0 < item_max \<and> item_max < post1 then (item_max, os_add ops1 ''AboveMaxBuyPrice'') else (post1, ops1));
          ops3 = (if \<not> is_disabled (wb_avg_price_cap wtb) \<and> wb_avg_price_cap wtb < post2
                  then os_add (os_add ops2 ''AboveAvgPrice'') ''Delete'' else ops2)
      in if \<not> knapsack_keeps (wb_max_total_price_cap wtb) mine wfm_id post2 profit then None
         else let ops4 = (if metric < 0 then os_add (os_add ops3 ''Delete'') ''Overpriced'' else ops3);
                  ops5 = (if mi_range market < wb_profit_threshold wtb then os_add (os_add ops4 ''Delete'') ''Underpriced'' else ops4)
              in Some (max post2 1, profit, ops5))"

definition progress_buying ::
  "trader_io \<Rightarrow> trade_context \<Rightarrow> cache_item \<Rightarrow> item_entry \<Rightarrow> item_price_info \<Rightarrow> live_orders \<Rightarrow> route \<Rightarrow> slots
     \<Rightarrow> trader \<Rightarrow> (trader_error + unit) \<times> trader" where
  "progress_buying io ctx item e i l route slots x =
     (let s = xc_items ctx;
          (order_id, current, props, ops0) = get_order_info e BuyOrder (xt_orders x) route;
          ops = guard_op i ops0
      in if is_blacklisted s item e ModeBuy then (Inr (), x)
         else if mi_volume (ie_buy_info e) = 0 \<or> mi_volume (ie_sell_info e) = 0 then drop_order io e BuyOrder route ''NoMarket'' x
         else case stock_is_full (it_wtb s) (xt_stock x) e of
           Inl f \<Rightarrow> (Inl (RowFailed f), x)
         | Inr True \<Rightarrow> drop_order io e BuyOrder route ''MaxStock'' x
         | Inr False \<Rightarrow>
             (case buy_decision s (ca_wfm_id item) (moving_avg_or_zero i) (ie_buy_info e) current
                     (ol_price_list ow_order l BuyOrder None) (all_orders (xt_orders x)) ops of
                None \<Rightarrow> (Inr (), x)
              | Some (post_price, profit, ops1) \<Rightarrow>
                  place_order io item e i l route BuyOrder post_price profit ops1 props slots x))"

section \<open>Selling\<close>

definition stk_write :: "stock_status \<Rightarrow> int option \<Rightarrow> stock_item \<Rightarrow> stock_item" where
  "stk_write status p m = stk_lock (stk_set_list_price p (stk_set_status status m))"

definition hide_sale :: "stock_item \<Rightarrow> operation_set \<Rightarrow> stock_item \<times> operation_set" where
  "hide_sale m ops = (if stk_is_hidden m then (stk_write StInActive None m, os_add ops ''Delete'') else (m, ops))"

text \<open>The lowest price of the market; too few sellers stop the sale unless it has a minimum price.\<close>

definition sell_lowest :: "market_info \<Rightarrow> int option \<Rightarrow> stock_item \<Rightarrow> operation_set \<Rightarrow> int \<times> stock_item \<times> operation_set" where
  "sell_lowest market min_price m ops =
     (if 2 \<le> mi_volume market then (mi_lowest market, m, ops)
      else if min_price = None then (0, stk_write StNoSellers None m, os_add (os_add ops ''Delete'') ''NoSellers'')
      else (0, m, ops))"

definition sell_floor :: "int option \<Rightarrow> int \<Rightarrow> operation_set \<Rightarrow> int \<times> operation_set" where
  "sell_floor min_price post_price ops =
     (case min_price of
        Some p \<Rightarrow> if max post_price p \<noteq> post_price then (max post_price p, os_add ops ''MinimumPrice'') else (post_price, ops)
      | None \<Rightarrow> (post_price, ops))"

definition sell_drop_limit :: "item_wts \<Rightarrow> int \<Rightarrow> int list \<Rightarrow> int \<Rightarrow> operation_set \<Rightarrow> int \<times> operation_set" where
  "sell_drop_limit wts current prices post_price ops =
     (case should_apply_max_price_drop (ws_max_price_drop wts) (ws_min_listings_below wts) current post_price prices SellOrder of
        Some reason \<Rightarrow> (current, os_add ops reason) | None \<Rightarrow> (post_price, ops))"

definition sell_sma ::
  "int \<Rightarrow> int \<Rightarrow> int \<Rightarrow> int \<Rightarrow> stock_item \<Rightarrow> operation_set \<Rightarrow> int \<times> stock_item \<times> operation_set" where
  "sell_sma minimum_sma closed_avg lowest post_price m ops =
     (if \<not> is_disabled minimum_sma \<and> post_price < closed_avg - minimum_sma \<and> stk_bought m < lowest
      then (closed_avg, stk_lock (stk_set_status StSMALimit (stk_set_list_price (Some closed_avg) m)), os_add ops ''SMALimit'')
      else (post_price, m, ops))"

definition sell_profit ::
  "int \<Rightarrow> int \<Rightarrow> stock_item \<Rightarrow> operation_set \<Rightarrow> int \<times> int \<times> stock_item \<times> operation_set" where
  "sell_profit minimum_profit post_price m ops =
     (let profit = post_price - stk_bought m
      in if \<not> is_disabled minimum_profit \<and> profit < minimum_profit
         then (let post1 = post_price + (minimum_profit - profit)
               in (post1, post1 - stk_bought m,
                   stk_lock (stk_set_list_price (Some post1) (stk_set_status StToLowProfit m)), os_add ops ''LowProfit''))
         else (post_price, profit, m, ops))"

text \<open>The price, the profit, the row to write back and the operations.\<close>

definition sell_decision ::
  "item_wts \<Rightarrow> int \<Rightarrow> market_info \<Rightarrow> int \<Rightarrow> int list \<Rightarrow> string \<Rightarrow> stock_item \<Rightarrow> operation_set
     \<Rightarrow> int \<times> int \<times> stock_item \<times> operation_set" where
  "sell_decision wts closed_avg market current prices now_text m0 ops0 =
     (let min_price = prop_opt_int (stk_properties m0) ''min_price'';
          (m1, ops1) = hide_sale m0 ops0;
          (lowest, m2, ops2) = sell_lowest market min_price m1 ops1;
          (post1, ops3) = sell_floor min_price lowest ops2;
          (post2, ops4) = sell_drop_limit wts current prices post1 ops3;
          minimum_sma = (case prop_opt_int (stk_properties m0) ''min_sma'' of Some v \<Rightarrow> v | None \<Rightarrow> ws_min_sma wts);
          (post3, m3, ops5) = sell_sma minimum_sma closed_avg lowest post2 m2 ops4;
          minimum_profit = (case prop_opt_int (stk_properties m0) ''min_profit'' of Some v \<Rightarrow> v | None \<Rightarrow> ws_min_profit wts);
          (post4, profit, m4, ops6) = sell_profit minimum_profit post3 m3 ops5;
          m5 = stk_add_history \<lparr>ph_created_at = now_text, ph_price = post4\<rparr> (stk_set_status StLive (stk_set_list_price (Some post4) m4))
      in (max post4 1, profit, m5, ops6))"

definition progress_selling ::
  "trader_io \<Rightarrow> trade_context \<Rightarrow> cache_item \<Rightarrow> item_entry \<Rightarrow> item_price_info \<Rightarrow> live_orders \<Rightarrow> route \<Rightarrow> slots
     \<Rightarrow> trader \<Rightarrow> (trader_error + unit) \<times> trader" where
  "progress_selling io ctx item e i l route slots x =
     (if is_blacklisted (xc_items ctx) item e ModeSell then (Inr (), x)
      else case get_stock_item (xt_stock x) e of
        Inl f \<Rightarrow> (Inl (RowFailed f), x)
      | Inr None \<Rightarrow> (Inr (), x)
      | Inr (Some m) \<Rightarrow>
          (let (_, current, props, ops0) = get_order_info e SellOrder (xt_orders x) route
           in if stk_is_hidden m \<and> stk_status m = StInActive then (Inr (), x)
              else let (post_price, profit, m1, ops) =
                         sell_decision (it_wts (xc_items ctx)) (moving_avg_or_zero i) (ie_sell_info e) current
                           (ol_price_list ow_order l SellOrder None) (io_local io (xt_calls x)) m (guard_op i ops0)
                   in (case place_order io item e i l route SellOrder post_price profit ops props slots x of
                         (Inl err, x1) \<Rightarrow> (Inl err, x1)
                       | (Inr _, x1) \<Rightarrow>
                           (case finalize_stock_item (xt_stock x1) m1 (io_now io (xt_calls x1)) of
                              (Inl f, db) \<Rightarrow> (Inl (RowFailed f), x1\<lparr>xt_stock := db\<rparr>)
                            | (Inr _, db) \<Rightarrow> (Inr (), x1\<lparr>xt_stock := db\<rparr>)))))"

section \<open>The wish list\<close>

definition hide_wish :: "wish_item \<Rightarrow> operation_set \<Rightarrow> wish_item \<times> operation_set" where
  "hide_wish m ops =
     (if wl_is_hidden m
      then (wl_lock (wl_set_list_price None (wl_set_status StInActive m)), os_add ops ''Delete'') else (m, ops))"

definition wish_decision ::
  "int \<Rightarrow> market_info \<Rightarrow> string \<Rightarrow> wish_item \<Rightarrow> operation_set \<Rightarrow> int \<times> wish_item \<times> operation_set" where
  "wish_decision avg_price market now_text m0 ops0 =
     (let min_price = prop_int (wl_properties m0) ''min_price'' 0;
          max_price = prop_int (wl_properties m0) ''max_price'' 0;
          (m1, ops1) = hide_wish m0 ops0;
          (post1, m2, ops2) = (if mi_volume market = 0 then (avg_price, wl_set_status StNoBuyers m1, os_add ops1 ''NoBuyers'')
                               else (mi_highest market, m1, ops1));
          (post2, ops3) = (if 0 < max_price \<and> max_price < post1 then (max_price, os_add ops2 ''MaxPrice'') else (post1, ops2));
          (post3, ops4) = (if 0 < min_price \<and> post2 < min_price then (min_price, os_add ops3 ''MinPrice'') else (post2, ops3));
          post4 = max post3 1;
          m3 = wl_add_history \<lparr>ph_created_at = now_text, ph_price = post4\<rparr> (wl_set_status StLive (wl_set_list_price (Some post4) m2))
      in (post4, m3, ops4))"

definition progress_wish_list ::
  "trader_io \<Rightarrow> trade_context \<Rightarrow> cache_item \<Rightarrow> item_entry \<Rightarrow> item_price_info \<Rightarrow> live_orders \<Rightarrow> route \<Rightarrow> slots
     \<Rightarrow> trader \<Rightarrow> (trader_error + unit) \<times> trader" where
  "progress_wish_list io ctx item e i l route slots x =
     (if is_blacklisted (xc_items ctx) item e ModeWishList then (Inr (), x)
      else case get_wish_item (xt_stock x) e of
        Inl f \<Rightarrow> (Inl (RowFailed f), x)
      | Inr None \<Rightarrow> (Inr (), x)
      | Inr (Some m) \<Rightarrow>
          (let (_, _, props, ops0) = get_order_info e BuyOrder (xt_orders x) route
           in if wl_is_hidden m \<and> wl_status m = StInActive then (Inr (), x)
              else let (post_price, m1, ops) =
                         wish_decision (f64_as_i64 (pi_avg_price i)) (ie_buy_info e) (io_local io (xt_calls x)) m ops0
                   in (case place_order io item e i l route BuyOrder post_price 0 ops props slots x of
                         (Inl err, x1) \<Rightarrow> (Inl err, x1)
                       | (Inr _, x1) \<Rightarrow>
                           (case finalize_wishlist_item (xt_stock x1) m1 (io_now io (xt_calls x1)) of
                              (Inl f, db) \<Rightarrow> (Inl (RowFailed f), x1\<lparr>xt_stock := db\<rparr>)
                            | (Inr _, db) \<Rightarrow> (Inr (), x1\<lparr>xt_stock := db\<rparr>)))))"

section \<open>Deletions\<close>

text \<open>Deleting one order; a failure is only logged.\<close>

definition delete_one :: "trader_io \<Rightarrow> trader \<Rightarrow> string \<times> write_meta \<Rightarrow> trader" where
  "delete_one io x im =
     (let n = xt_calls x
      in x\<lparr>xt_orders := snd (tq_delete (xt_orders x) (fst im) (snd im) (ts (io_now io n)) (io_answer io n)), xt_calls := n + 1\<rparr>)"

definition should_stop :: "trader_io \<Rightarrow> trade_context \<Rightarrow> trader \<Rightarrow> bool" where
  "should_stop io ctx x \<longleftrightarrow> \<not> io_running io (xt_calls x) \<or> xc_banned ctx"

fun delete_while_running :: "trader_io \<Rightarrow> trade_context \<Rightarrow> write_meta \<Rightarrow> string list \<Rightarrow> trader \<Rightarrow> trader" where
  "delete_while_running io ctx meta [] x = x"
| "delete_while_running io ctx meta (i # is) x =
     (if should_stop io ctx x then x else delete_while_running io ctx meta is (delete_one io x (i, meta)))"

definition delete_unwanted_orders :: "trader_io \<Rightarrow> trade_context \<Rightarrow> bool \<Rightarrow> own_orders \<Rightarrow> trader \<Rightarrow> trader" where
  "delete_unwanted_orders io ctx just_started mine x =
     (let general = lv_general (xc_settings ctx)
      in if \<not> lg_delete_conflicting_orders general \<and> \<not> lg_auto_delete general then x
         else delete_while_running io ctx \<lparr>wm_sub_type = [], wm_reason = ''AutoDelete''\<rparr>
                (orders_to_delete (xc_settings ctx) just_started mine) x)"

definition sweep_orphans :: "trader_io \<Rightarrow> trade_context \<Rightarrow> item_entry list \<Rightarrow> utc \<Rightarrow> trader \<Rightarrow> trader" where
  "sweep_orphans io ctx entries now x =
     (let mine = all_orders (xt_orders x);
          (due, seen) = due_orphans (xt_seen x) (orphan_buy_orders (xc_settings ctx) entries mine) now orphan_grace;
          meta = (\<lambda>i. \<lparr>wm_sub_type = (case List.find (\<lambda>o1. or_id o1 = i) (ol_buy mine) of
                                        Some o1 \<Rightarrow> key_of (to_entity (or_subtype o1)) | None \<Rightarrow> []),
                        wm_reason = ''NotCandidate''\<rparr>)
      in foldl (delete_one io) (x\<lparr>xt_seen := seen\<rparr>) (map (\<lambda>i. (i, meta i)) due))"

text \<open>The bids over the platinum cap go, if they stood when the cycle began.\<close>

definition global_knapsack :: "trader_io \<Rightarrow> trade_context \<Rightarrow> string list \<Rightarrow> trader \<Rightarrow> trader" where
  "global_knapsack io ctx existing x =
     (let bids = extract_order_summary (all_orders (xt_orders x)) BuyOrder;
          cap = wb_max_total_price_cap (it_wtb (xc_items ctx))
      in if 1 < length bids \<and> \<not> is_disabled cap
         then foldl (delete_one io) x
                (map (\<lambda>k. (snd (snd (snd k)), \<lparr>wm_sub_type = [], wm_reason = ''Knapsack''\<rparr>))
                  (filter (\<lambda>k. snd (snd (snd k)) \<noteq> [] \<and> snd (snd (snd k)) \<in> set existing) (snd (knapsack bids cap))))
         else x)"

section \<open>The cycle\<close>

definition price_of :: "trade_context \<Rightarrow> string \<Rightarrow> sub_type option \<Rightarrow> item_price_info" where
  "price_of ctx wfm_id sub = (case price_find (xc_prices ctx) wfm_id sub of Some i \<Rightarrow> i | None \<Rightarrow> no_price_info)"

definition sell_backlog :: "trade_orders \<Rightarrow> item_entry list \<Rightarrow> (item_entry \<Rightarrow> route) \<Rightarrow> nat" where
  "sell_backlog t entries route_of =
     length (filter (\<lambda>e. os_has (ie_operations e) ''Sell'' \<and> ie_stock_id e \<noteq> None \<and> route_of e = LiveRoute
       \<and> find_order t (ie_wfm_id e) (from_entity (ie_sub_type e)) SellOrder LiveRoute = None) entries)"

definition cycle_slots :: "trade_context \<Rightarrow> trader \<Rightarrow> item_entry list \<Rightarrow> slots" where
  "cycle_slots ctx x entries =
     \<lparr>sl_sell_backlog = sell_backlog (xt_orders x) entries
        (\<lambda>e. route_for (tq_global (xt_orders x)) (pi_warm (price_of ctx (ie_wfm_id e) (ie_sub_type e)))),
      sl_wish_list = wish_list_keys (xt_stock x)\<rparr>"

definition cycle_hint :: int where "cycle_hint = 120"

definition get_orders_by_item :: "trade_orders \<Rightarrow> api_error + live_orders \<Rightarrow> order_error + live_orders" where
  "get_orders_by_item t answer =
     (case tq_live t of
        None \<Rightarrow> Inl NoClient
      | Some _ \<Rightarrow> (case answer of Inl err \<Rightarrow> Inl (ApiFailed ''Book'' err) | Inr l \<Rightarrow> Inr l))"

definition hand_over_book :: "trader_io \<Rightarrow> trade_context \<Rightarrow> cache_item \<Rightarrow> live_orders \<Rightarrow> trader \<Rightarrow> trader" where
  "hand_over_book io ctx item l x =
     (let now = io_now io (xt_calls x)
      in if xc_fake ctx then x
         else x\<lparr>xt_collector := map_option (\<lambda>c. ingest_book c (ca_wfm_id item) (ca_wfm_url item)
                (map from_wfm (ol_to_vec l)) cycle_hint now now) (xt_collector x)\<rparr>)"

text \<open>The competing orders: the entry's own sub-type, other users, in game, sorted.\<close>

definition rival_orders :: "trade_context \<Rightarrow> item_entry \<Rightarrow> live_orders \<Rightarrow> live_orders" where
  "rival_orders ctx e l =
     ol_sort_by_platinum ow_order
       (ol_filter_user_status
         (ol_filter_username (ol_filter_by_sub_type ow_order l (from_entity (ie_sub_type e)) False) (xc_username ctx) True)
         UserInGame False)"

definition if_ok :: "bool \<Rightarrow> (trader \<Rightarrow> (trader_error + unit) \<times> trader) \<Rightarrow> (trader_error + unit) \<times> trader \<Rightarrow> (trader_error + unit) \<times> trader" where
  "if_ok c f r = (case r of (Inr _, x) \<Rightarrow> if c then f x else r | (Inl err, x) \<Rightarrow> (Inl err, x))"

definition process_entry ::
  "trader_io \<Rightarrow> trade_context \<Rightarrow> slots \<Rightarrow> cache_item \<Rightarrow> item_entry \<Rightarrow> trader \<Rightarrow> (trader_error + unit) \<times> trader" where
  "process_entry io ctx slots item e0 x =
     (let i = price_of ctx (ca_wfm_id item) (ie_sub_type e0);
          route = route_for (tq_global (xt_orders x)) (pi_warm i)
      in case get_orders_by_item (xt_orders x) (io_book io (xt_calls x)) of
           Inl err \<Rightarrow> (Inl (BookFailed err), x\<lparr>xt_calls := xt_calls x + 1\<rparr>)
         | Inr book \<Rightarrow>
             (let x1 = (hand_over_book io ctx item book x)\<lparr>xt_calls := xt_calls x + 1\<rparr>;
                  l = rival_orders ctx e0 book;
                  e = apply_market_info l e0;
                  buys = os_has (ie_operations e) ''Buy''; wishes = os_has (ie_operations e) ''WishList'';
                  sells = os_has (ie_operations e) ''Sell'' \<and> ie_stock_id e \<noteq> None
              in if_ok sells (progress_selling io ctx item e i l route slots)
                   (if_ok wishes (progress_wish_list io ctx item e i l route slots)
                     (if_ok (buys \<and> \<not> wishes) (progress_buying io ctx item e i l route slots) (Inr (), x1)))))"

text \<open>The result says whether the loop was cut short by a stop.\<close>

fun process_entries ::
  "trader_io \<Rightarrow> trade_context \<Rightarrow> slots \<Rightarrow> item_entry list \<Rightarrow> trader \<Rightarrow> (trader_error + bool) \<times> trader" where
  "process_entries io ctx slots [] x = (Inr False, x)"
| "process_entries io ctx slots (e # es) x =
     (if should_stop io ctx x then (Inr True, x)
      else case cache_get (xc_cache ctx) (ie_url e) of
        Inl err \<Rightarrow> process_entries io ctx slots es (x\<lparr>xt_calls := xt_calls x + 1\<rparr>)
      | Inr item \<Rightarrow>
          (case process_entry io ctx slots item e x of
             (Inl err, x1) \<Rightarrow> (Inl err, x1)
           | (Inr _, x1) \<Rightarrow> process_entries io ctx slots es x1))"

definition process_items ::
  "trader_io \<Rightarrow> trade_context \<Rightarrow> item_entry list \<Rightarrow> trader \<Rightarrow> (trader_error + nat) \<times> trader" where
  "process_items io ctx entries0 x =
     (let existing = ol_order_ids id (all_orders (xt_orders x)) BuyOrder;
          entries = sort_key (\<lambda>e. - ie_priority e) entries0
      in case process_entries io ctx (cycle_slots ctx x entries) entries x of
           (Inl err, x1) \<Rightarrow> (Inl err, x1)
         | (Inr interrupted, x1) \<Rightarrow>
             (let x2 = global_knapsack io ctx existing x1
              in (Inr (length entries),
                  if should_sweep interrupted entries
                  then sweep_orphans io ctx entries (io_now io (xt_calls x2)) (x2\<lparr>xt_calls := xt_calls x2 + 1\<rparr>) else x2)))"

definition check_items :: "trader_io \<Rightarrow> trade_context \<Rightarrow> bool \<Rightarrow> trader \<Rightarrow> (trader_error + nat) \<times> trader" where
  "check_items io ctx just_started x =
     (let x1 = delete_unwanted_orders io ctx just_started (all_orders (xt_orders x)) x
      in case collect_interesting_items ctx (xt_stock x1) of
           Inl f \<Rightarrow> (Inl (RowFailed f), x1)
         | Inr entries \<Rightarrow> process_items io ctx entries x1)"

section \<open>Prices of the decisions\<close>

lemma max_price_drop_sell:
  "should_apply_max_price_drop d ml current post_price prices SellOrder = Some r \<Longrightarrow> post_price \<le> current"
  by (auto simp: should_apply_max_price_drop_def Let_def split: if_splits)

text \<open>What a decision leaves of a row: its identity, what is owned, and what the user entered.\<close>

definition stk_core :: "stock_item \<Rightarrow> int \<times> int \<times> int \<times> sub_type option \<times> bool \<times> properties" where
  "stk_core m = (stk_id m, stk_owned m, stk_bought m, stk_sub_type m, stk_is_hidden m, stk_properties m)"

definition wl_core :: "wish_item \<Rightarrow> int \<times> int \<times> bool \<times> properties" where
  "wl_core m = (wl_id m, wl_quantity m, wl_is_hidden m, wl_properties m)"

lemma stk_core_setters [simp]:
  "stk_core (stk_set_status st m) = stk_core m" "stk_core (stk_set_list_price p m) = stk_core m"
  "stk_core (stk_lock m) = stk_core m" "stk_core (stk_add_history h m) = stk_core m" "stk_core (stk_write st p m) = stk_core m"
  by (simp_all add: stk_core_def stk_write_def stk_setter_defs)

lemma wl_core_setters [simp]:
  "wl_core (wl_set_status st m) = wl_core m" "wl_core (wl_set_list_price p m) = wl_core m"
  "wl_core (wl_lock m) = wl_core m" "wl_core (wl_add_history h m) = wl_core m"
  by (simp_all add: wl_core_def wl_setter_defs)

lemma hide_sale_props [simp]: "stk_core (fst (hide_sale m ops)) = stk_core m"
  by (simp add: hide_sale_def)

lemma sell_lowest_props:
  "sell_lowest market mp m ops = (lowest, m1, ops1) \<Longrightarrow>
     stk_core m1 = stk_core m \<and> lowest = (if 2 \<le> mi_volume market then mi_lowest market else 0)"
  by (auto simp: sell_lowest_def split: if_splits)

lemma sell_floor_props:
  "sell_floor mp p ops = (p1, ops1) \<Longrightarrow> p \<le> p1 \<and> (\<forall>v. mp = Some v \<longrightarrow> v \<le> p1)"
  by (auto simp: sell_floor_def split: option.splits if_splits)

lemma sell_drop_limit_props: "sell_drop_limit wts cur prices p ops = (p1, ops1) \<Longrightarrow> p \<le> p1"
  by (auto simp: sell_drop_limit_def dest: max_price_drop_sell split: option.splits)

lemma sell_sma_props:
  "sell_sma sma avg lowest p m ops = (p1, m1, ops1) \<Longrightarrow>
     p \<le> p1 \<and> stk_core m1 = stk_core m \<and> (\<not> is_disabled sma \<and> stk_bought m < lowest \<longrightarrow> avg - sma \<le> p1)"
  by (auto simp: sell_sma_def is_disabled_def split: if_splits)

lemma sell_profit_props:
  "sell_profit mp p m ops = (p1, profit, m1, ops1) \<Longrightarrow>
     p \<le> p1 \<and> profit = p1 - stk_bought m \<and> stk_core m1 = stk_core m \<and> (\<not> is_disabled mp \<longrightarrow> mp \<le> profit)"
  by (auto simp: sell_profit_def Let_def split: if_splits)

lemma sell_decision_steps:
  assumes "sell_decision wts closed_avg market current prices now_text m ops = (post_price, profit, m1, ops1)"
  obtains lowest p1 p2 p3 p4 where
    "lowest = (if 2 \<le> mi_volume market then mi_lowest market else 0)" "post_price = max p4 1" "stk_core m1 = stk_core m"
    "lowest \<le> p1" "\<forall>v. prop_opt_int (stk_properties m) ''min_price'' = Some v \<longrightarrow> v \<le> p1" "p1 \<le> p2" "p2 \<le> p3"
    "(let sma = (case prop_opt_int (stk_properties m) ''min_sma'' of Some v \<Rightarrow> v | None \<Rightarrow> ws_min_sma wts)
      in \<not> is_disabled sma \<and> stk_bought m < lowest \<longrightarrow> closed_avg - sma \<le> p3)" "p3 \<le> p4" "profit = p4 - stk_bought m"
    "(let mp = (case prop_opt_int (stk_properties m) ''min_profit'' of Some v \<Rightarrow> v | None \<Rightarrow> ws_min_profit wts)
      in \<not> is_disabled mp \<longrightarrow> mp \<le> profit)"
proof -
  let ?mp = "prop_opt_int (stk_properties m) ''min_price''"
  let ?sma = "case prop_opt_int (stk_properties m) ''min_sma'' of Some v \<Rightarrow> v | None \<Rightarrow> ws_min_sma wts"
  let ?min = "case prop_opt_int (stk_properties m) ''min_profit'' of Some v \<Rightarrow> v | None \<Rightarrow> ws_min_profit wts"
  obtain r1 o1 where 1: "hide_sale m ops = (r1, o1)" by fastforce
  obtain lowest r2 o2 where 2: "sell_lowest market ?mp r1 o1 = (lowest, r2, o2)" using prod_cases3 by blast
  obtain p1 o3 where 3: "sell_floor ?mp lowest o2 = (p1, o3)" by fastforce
  obtain p2 o4 where 4: "sell_drop_limit wts current prices p1 o3 = (p2, o4)" by fastforce
  obtain p3 r3 o5 where 5: "sell_sma ?sma closed_avg lowest p2 r2 o4 = (p3, r3, o5)" using prod_cases3 by blast
  obtain p4 pr r4 o6 where 6: "sell_profit ?min p3 r3 o5 = (p4, pr, r4, o6)" using prod_cases4 by blast
  have out: "post_price = max p4 1" "profit = pr"
      "m1 = stk_add_history \<lparr>ph_created_at = now_text, ph_price = p4\<rparr> (stk_set_status StLive (stk_set_list_price (Some p4) r4))"
    using assms unfolding sell_decision_def Let_def by (auto simp: 1 2 3 4 5 6)
  have row: "stk_core m1 = stk_core m"
    using hide_sale_props[of m ops] sell_lowest_props[OF 2] sell_sma_props[OF 5] sell_profit_props[OF 6]
    by (simp add: 1 out)
  have b: "stk_bought r3 = stk_bought m" "stk_bought r2 = stk_bought m"
    using hide_sale_props[of m ops] sell_lowest_props[OF 2] sell_sma_props[OF 5] by (simp_all add: 1 stk_core_def)
  from that[of lowest p4 p1 p2 p3] show thesis
    unfolding Let_def
    using row b sell_lowest_props[OF 2] sell_floor_props[OF 3] sell_drop_limit_props[OF 4] sell_sma_props[OF 5]
      sell_profit_props[OF 6] by (auto simp: out(1,2))
qed


text \<open>
  C19. A bid keeps to the settings: it is at least 1, never above the item's own maximum price, and
  never above both the best competing bid and the standing one. Unless the order is marked for deletion
  it is at most the average-price cap (when that is on) and the moving average, the spread of the market
  reaches the profit threshold, and the knapsack under the platinum cap keeps the item.
\<close>

theorem bid_keeps_to_the_settings:
  assumes "buy_decision s wfm_id closed_avg market current prices mine ops = Some (post_price, profit, ops1)"
  shows "1 \<le> post_price
       \<and> (0 < get_item_max_price (it_general s) wfm_id \<longrightarrow> post_price \<le> get_item_max_price (it_general s) wfm_id)
       \<and> post_price \<le> max 1 (max (mi_highest market) current)
       \<and> (\<not> os_has ops1 ''Delete'' \<longrightarrow>
            (\<not> is_disabled (wb_avg_price_cap (it_wtb s)) \<longrightarrow> post_price \<le> max 1 (wb_avg_price_cap (it_wtb s)))
          \<and> post_price \<le> max 1 closed_avg
          \<and> wb_profit_threshold (it_wtb s) \<le> mi_range market)
       \<and> (\<exists>p. max p 1 = post_price \<and> knapsack_keeps (wb_max_total_price_cap (it_wtb s)) mine wfm_id p profit)"
proof -
  obtain p1 o1 where 1: "(case should_apply_max_price_drop (wb_max_price_drop (it_wtb s)) (wb_min_listings_below (it_wtb s)) current
      (mi_highest market) prices BuyOrder of Some reason \<Rightarrow> (current, os_add ops reason) | None \<Rightarrow> (mi_highest market, ops)) = (p1, o1)"
    by fastforce
  then have p1: "p1 \<le> max (mi_highest market) current" by (auto split: option.splits)
  obtain p2 o2 where 2: "(if 0 < get_item_max_price (it_general s) wfm_id \<and> get_item_max_price (it_general s) wfm_id < p1
      then (get_item_max_price (it_general s) wfm_id, os_add o1 ''AboveMaxBuyPrice'') else (p1, o1)) = (p2, o2)" by fastforce
  then have p2: "p2 \<le> p1" "0 < get_item_max_price (it_general s) wfm_id \<Longrightarrow> p2 \<le> get_item_max_price (it_general s) wfm_id"
    by (auto split: if_splits)
  have "post_price = max p2 1 \<and> profit = closed_avg - p1 - 1
      \<and> knapsack_keeps (wb_max_total_price_cap (it_wtb s)) mine wfm_id p2 profit
      \<and> (\<not> os_has ops1 ''Delete'' \<longrightarrow> p1 \<le> closed_avg \<and> wb_profit_threshold (it_wtb s) \<le> mi_range market
           \<and> (is_disabled (wb_avg_price_cap (it_wtb s)) \<or> p2 \<le> wb_avg_price_cap (it_wtb s)))"
    using assms unfolding buy_decision_def Let_def 1 prod.case 2 by (auto split: if_splits)
  with p1 p2 show ?thesis by (auto intro!: exI[of _ p2])
qed

text \<open>
  A wish-list bid lies within the row's own limits (when these do not contradict each other), is at
  least 1, and between them follows the best competing bid, or the average price when nobody bids.
\<close>

theorem wish_bid_within_its_limits:
  assumes "wish_decision avg_price market now_text m ops = (post_price, m1, ops1)"
  shows "(let lo = prop_int (wl_properties m) ''min_price'' 0; hi = prop_int (wl_properties m) ''max_price'' 0;
              market_price = (if mi_volume market = 0 then avg_price else mi_highest market)
          in 1 \<le> post_price
           \<and> (0 < lo \<longrightarrow> lo \<le> post_price)
           \<and> (0 < hi \<and> (lo \<le> 0 \<or> lo \<le> hi) \<longrightarrow> post_price \<le> hi)
           \<and> ((lo \<le> 0 \<or> lo \<le> market_price) \<and> (hi \<le> 0 \<or> market_price \<le> hi) \<longrightarrow> post_price = max market_price 1))"
  using assms by (auto simp: wish_decision_def Let_def split: prod.splits if_splits)

lemma sell_decision_core:
  "sell_decision wts closed_avg market current prices now_text m ops = (p, pr, m1, ops1) \<Longrightarrow> stk_core m1 = stk_core m"
  by (rule sell_decision_steps)

lemma wish_decision_core: "wish_decision avg_price market now_text m ops = (p, m1, ops1) \<Longrightarrow> wl_core m1 = wl_core m"
  by (auto simp: wish_decision_def hide_wish_def Let_def split: prod.splits if_splits)

section \<open>Decisions on concrete markets\<close>

definition demo_market :: "int \<Rightarrow> int \<Rightarrow> int \<Rightarrow> nat \<Rightarrow> market_info" where
  "demo_market lo hi spread volume = \<lparr>mi_lowest = lo, mi_highest = hi, mi_range = spread, mi_volume = volume\<rparr>"

definition demo_row :: "int \<Rightarrow> int \<Rightarrow> stock_item" where
  "demo_row bought floor_price =
     stock_item_new ''c1'' ''card'' ''Card'' [] None bought 2 False (Some (JObj [(''min_price'', JInt floor_price)]))"


theorem bid_keeps_to_the_settings_witness:
  "(case buy_decision (default_item_settings\<lparr>it_wtb := default_item_wtb\<lparr>wb_max_total_price_cap := -1\<rparr>\<rparr>) ''c1'' 40
         (demo_market 20 25 30 4) 0 [25, 20] ol_empty [''Create''] of
      Some (p, profit, ops) \<Rightarrow> p = 25 \<and> profit = 14 \<and> \<not> os_has ops ''Delete'' \<and> p \<le> 40 | None \<Rightarrow> False)"
proof -
  let ?s = "default_item_settings\<lparr>it_wtb := default_item_wtb\<lparr>wb_max_total_price_cap := -1\<rparr>\<rparr>"
  have "buy_decision ?s ''c1'' 40 (demo_market 20 25 30 4) 0 [25, 20] ol_empty [''Create''] = Some (25, 14, [''Create''])"
    by code_simp
  from bid_keeps_to_the_settings[OF this] this show ?thesis by (simp add: os_has_def)
qed

theorem wish_bid_within_its_limits_witness:
  "fst (wish_decision 40 (demo_market 20 25 30 4) [] (wish_item_new ''c1'' ''card'' ''Card'' [] None 1
      (Some (JObj [(''max_price'', JInt 22)]))) [''Create'']) = 22"
proof -
  let ?m = "wish_item_new ''c1'' ''card'' ''Card'' [] None 1 (Some (JObj [(''max_price'', JInt 22)]))"
  obtain p m1 ops where d: "wish_decision 40 (demo_market 20 25 30 4) [] ?m [''Create''] = (p, m1, ops)"
    using prod_cases3 by blast
  have "fst (wish_decision 40 (demo_market 20 25 30 4) [] ?m [''Create'']) = 22" by code_simp
  moreover have "prop_int (wl_properties ?m) ''max_price'' 0 = 22" "prop_int (wl_properties ?m) ''min_price'' 0 = 0" by code_simp+
  with wish_bid_within_its_limits[OF d] have "p \<le> 22" by (simp add: Let_def)
  ultimately show ?thesis by simp
qed

text \<open>
  With the price-drop rule on and no order of our own, the standing price is 0, so the rule keeps the bid
  there: the first bid on an item is then placed at 1 platinum instead of beside the best bid.
\<close>

lemma first_bid_at_one:
  "buy_decision (default_item_settings\<lparr>it_wtb := default_item_wtb\<lparr>wb_max_total_price_cap := -1, wb_max_price_drop := 5\<rparr>\<rparr>) ''c1'' 40
     (demo_market 20 25 30 4) 0 [25, 20] ol_empty [''Create''] = Some (1, 39, [''Create'', ''MaxPriceDrop''])"
  by code_simp

text \<open>A sale raised to the moving average and then again for its profit is posted at one price and recorded at another.\<close>

lemma recorded_price_differs:
  "(let (p, profit, m1, ops) = sell_decision default_item_wts 30 (demo_market 26 50 30 4) 0 [26, 27] []
        (stock_item_new ''c1'' ''card'' ''Card'' [] None 25 2 False None) [''Create'']
    in (p, stk_list_price m1, stk_status m1)) = (35, Some 30, StSMALimit)"
  by code_simp

text \<open>The status \<open>NoBuyers\<close> is set but never kept: the row is not locked, so it ends as \<open>Live\<close>.\<close>

lemma no_buyers_is_overwritten:
  "\<not> wl_is_hidden m \<Longrightarrow> \<not> wl_locked m \<Longrightarrow> wl_status (fst (snd (wish_decision avg market now_text m ops))) = StLive"
proof -
  have locked: "wl_locked (wl_set_list_price p m) = wl_locked m" "wl_locked (wl_set_status st m) = wl_locked m" for p st m
    by (simp_all add: wl_setter_defs)
  have status: "\<not> wl_locked m \<Longrightarrow> wl_status (wl_add_history h (wl_set_status StLive m)) = StLive" for h m
    by (simp add: wl_setter_defs)
  assume "\<not> wl_is_hidden m" "\<not> wl_locked m"
  then show ?thesis by (simp add: wish_decision_def hide_wish_def Let_def case_prod_unfold status locked)
qed

end
