(* ===== verification/Trader_Cycle.thy ===== *)
theory Trader_Cycle
  imports Item_Trader
begin

text \<open>
  What whole trader cycles keep: the holdings of the stock and wish-list tables, and whatever the four
  order operations keep (an interface for every invariant of the orders, used twice: the orders' own
  invariant and the silence of a dry run).
\<close>

section \<open>What a cycle leaves of the holdings\<close>

definition holdings :: "stock_db \<Rightarrow> (int \<times> (string \<times> sub_type option) \<times> int \<times> int) list \<times> (int \<times> (string \<times> sub_type option) \<times> int) list" where
  "holdings db =
     (map (\<lambda>m. (stk_id m, stk_key m, stk_owned m, stk_bought m)) (sd_items db),
      map (\<lambda>m. (wl_id m, wl_key m, wl_quantity m)) (sd_wishes db))"

definition ids_distinct :: "stock_db \<Rightarrow> bool" where
  "ids_distinct db \<longleftrightarrow> distinct (map stk_id (sd_items db)) \<and> distinct (map wl_id (sd_wishes db))"

lemma ids_distinct_holdings: "holdings db = holdings db' \<Longrightarrow> ids_distinct db = ids_distinct db'"
proof -
  have "map stk_id (sd_items db) = map fst (fst (holdings db))" "map wl_id (sd_wishes db) = map fst (snd (holdings db))" for db
    by (simp_all add: holdings_def comp_def)
  then show "holdings db = holdings db' \<Longrightarrow> ids_distinct db = ids_distinct db'" by (simp add: ids_distinct_def)
qed

lemma row_modify_map_same:
  assumes "distinct (map key rows)" "row_lookup key rows k = Some r" "g r1 = g r"
  shows "map g (row_modify key k (\<lambda>_. r1) rows) = map g rows"
proof -
  have "\<forall>x\<in>set rows. key x = k \<longrightarrow> x = r"
    using assms(1,2) row_lookup_in row_lookup_Some by fastforce
  with assms(3) show ?thesis by (auto simp: row_modify_def)
qed

lemma finalize_stock_holdings:
  assumes "ids_distinct db" "stock_find_id db i = Some m" "stk_core m1 = stk_core m"
  shows "holdings (snd (finalize_stock_item db m1 now)) = holdings db"
proof -
  have l: "row_lookup stk_id (sd_items db) (stk_id m1) = Some m"
    using assms(2,3) row_lookup_Some[of stk_id "sd_items db" i m] by (simp add: stock_find_id_def stk_core_def)
  have d: "distinct (map stk_id (sd_items db))" using assms(1) by (simp add: ids_distinct_def)
  have "(let r = (apply_stock_update (stock_to_update m1) m)\<lparr>stk_updated_at := now\<rparr>
         in (stk_id r, stk_key r, stk_owned r, stk_bought r)) = (stk_id m, stk_key m, stk_owned m, stk_bought m)"
    using assms(3) by (auto simp: apply_stock_update_def stock_to_update_def stk_core_def stk_key_def Let_def split: option.splits)
  from row_modify_map_same[OF d l, where g = "\<lambda>m. (stk_id m, stk_key m, stk_owned m, stk_bought m)", OF this[unfolded Let_def]]
  show ?thesis
    using l by (auto simp: finalize_stock_item_def stock_update_by_id_def stock_find_id_def holdings_def Let_def stock_to_update_def)
qed

lemma finalize_wish_holdings:
  assumes "ids_distinct db" "wish_find_id db i = Some m" "wl_core m1 = wl_core m"
  shows "holdings (snd (finalize_wishlist_item db m1 now)) = holdings db"
proof -
  have l: "row_lookup wl_id (sd_wishes db) (wl_id m1) = Some m"
    using assms(2,3) row_lookup_Some[of wl_id "sd_wishes db" i m] by (simp add: wish_find_id_def wl_core_def)
  have d: "distinct (map wl_id (sd_wishes db))" using assms(1) by (simp add: ids_distinct_def)
  have "(let r = (apply_wish_update (wish_to_update m1) m)\<lparr>wl_updated_at := now\<rparr>
         in (wl_id r, wl_key r, wl_quantity r)) = (wl_id m, wl_key m, wl_quantity m)"
    using assms(3) by (auto simp: apply_wish_update_def wish_to_update_def wl_core_def wl_key_def Let_def split: option.splits)
  from row_modify_map_same[OF d l, where g = "\<lambda>m. (wl_id m, wl_key m, wl_quantity m)", OF this[unfolded Let_def]]
  show ?thesis
    using l by (auto simp: finalize_wishlist_item_def wish_update_by_id_def wish_find_id_def holdings_def Let_def wish_to_update_def)
qed

text \<open>Steps that leave the tables alone.\<close>

lemma with_orders_stock [simp]: "xt_stock (snd (with_orders x r)) = xt_stock x"
  by (auto simp: with_orders_def split: prod.splits sum.splits)

lemma delete_one_stock [simp]: "xt_stock (delete_one io x im) = xt_stock x"
  by (simp add: delete_one_def Let_def)

lemma delete_all_stock [simp]: "xt_stock (foldl (delete_one io) x ims) = xt_stock x"
  by (induction ims arbitrary: x) simp_all

lemma delete_while_running_stock [simp]: "xt_stock (delete_while_running io ctx meta is x) = xt_stock x"
  by (induction "is" arbitrary: x) simp_all

lemma deletions_stock [simp]:
  "xt_stock (delete_unwanted_orders io ctx b mine x) = xt_stock x"
  "xt_stock (global_knapsack io ctx ids x) = xt_stock x"
  "xt_stock (sweep_orphans io ctx es now x) = xt_stock x"
  by (simp_all add: delete_unwanted_orders_def global_knapsack_def sweep_orphans_def Let_def split: prod.splits)

lemma hand_over_stock [simp]: "xt_stock (hand_over_book io ctx item l x) = xt_stock x"
  by (simp add: hand_over_book_def Let_def)

lemma place_stock [simp]:
  "xt_stock (snd (place_order io item e i l route ty p profit ops props slots x)) = xt_stock x"
  "xt_stock (snd (drop_order io e ty route reason x)) = xt_stock x"
  by (simp_all add: place_order_def drop_order_def Let_def)

lemma buying_stock [simp]: "xt_stock (snd (progress_buying io ctx item e i l route slots x)) = xt_stock x"
  by (auto simp: progress_buying_def Let_def split: prod.splits sum.splits option.splits bool.splits)

lemma selling_holdings:
  assumes "ids_distinct (xt_stock x)"
  shows "holdings (xt_stock (snd (progress_selling io ctx item e i l route slots x))) = holdings (xt_stock x)"
proof (cases "get_stock_item (xt_stock x) e")
  case (Inr r)
  show ?thesis
  proof (cases r)
    case (Some m)
    with Inr have m: "\<exists>j. stock_find_id (xt_stock x) j = Some m" by (auto simp: get_stock_item_def split: option.splits)
    obtain oid cur props ops0 where g: "get_order_info e SellOrder (xt_orders x) route = (oid, cur, props, ops0)"
      using prod_cases4 by blast
    obtain p pr m1 ops where d: "sell_decision (it_wts (xc_items ctx)) (moving_avg_or_zero i) (ie_sell_info e) cur
        (ol_price_list ow_order l SellOrder None) (io_local io (xt_calls x)) m (guard_op i ops0) = (p, pr, m1, ops)"
      using prod_cases4 by blast
    obtain r' x1 where pl: "place_order io item e i l route SellOrder p pr ops props slots x = (r', x1)" by fastforce
    have s1: "xt_stock x1 = xt_stock x" using place_stock(1)[of io item e i l route SellOrder p pr ops props slots x] pl by simp
    from m obtain j where "stock_find_id (xt_stock x) j = Some m" by blast
    from finalize_stock_holdings[OF assms this] sell_decision_core[OF d]
    have "holdings (snd (finalize_stock_item (xt_stock x) m1 now)) = holdings (xt_stock x)" for now by blast
    with Inr Some g d pl s1 show ?thesis
      by (auto simp: progress_selling_def split: sum.splits prod.splits)
        (metis snd_conv)+
  qed (use Inr in \<open>simp add: progress_selling_def\<close>)
qed (simp add: progress_selling_def)

lemma wishing_holdings:
  assumes "ids_distinct (xt_stock x)"
  shows "holdings (xt_stock (snd (progress_wish_list io ctx item e i l route slots x))) = holdings (xt_stock x)"
proof (cases "get_wish_item (xt_stock x) e")
  case (Inr r)
  show ?thesis
  proof (cases r)
    case (Some m)
    with Inr obtain j where j: "wish_find_id (xt_stock x) j = Some m" by (auto simp: get_wish_item_def split: option.splits)
    obtain oid cur props ops0 where g: "get_order_info e BuyOrder (xt_orders x) route = (oid, cur, props, ops0)"
      using prod_cases4 by blast
    obtain p m1 ops where d: "wish_decision (f64_as_i64 (pi_avg_price i)) (ie_buy_info e) (io_local io (xt_calls x)) m ops0 = (p, m1, ops)"
      using prod_cases3 by blast
    obtain r' x1 where pl: "place_order io item e i l route BuyOrder p 0 ops props slots x = (r', x1)" by fastforce
    have s1: "xt_stock x1 = xt_stock x" using place_stock(1)[of io item e i l route BuyOrder p 0 ops props slots x] pl by simp
    from finalize_wish_holdings[OF assms j wish_decision_core[OF d]]
    have "holdings (snd (finalize_wishlist_item (xt_stock x) m1 now)) = holdings (xt_stock x)" for now .
    with Inr Some g d pl s1 show ?thesis
      by (auto simp: progress_wish_list_def split: sum.splits prod.splits) (metis snd_conv)+
  qed (use Inr in \<open>simp add: progress_wish_list_def\<close>)
qed (simp add: progress_wish_list_def)

lemma if_ok_holdings:
  assumes "holdings (xt_stock (snd r)) = H" "\<And>x. holdings (xt_stock x) = H \<Longrightarrow> holdings (xt_stock (snd (f x))) = H"
  shows "holdings (xt_stock (snd (if_ok c f r))) = H"
  using assms by (auto simp: if_ok_def split: prod.splits sum.splits)

lemma process_entry_holdings:
  assumes "ids_distinct (xt_stock x)"
  shows "holdings (xt_stock (snd (process_entry io ctx slots item e x))) = holdings (xt_stock x)"
proof -
  have "ids_distinct (xt_stock y)" if "holdings (xt_stock y) = holdings (xt_stock x)" for y
    using that assms ids_distinct_holdings by blast
  then have "holdings (xt_stock y) = holdings (xt_stock x) \<Longrightarrow>
      holdings (xt_stock (snd (progress_selling io ctx item e' i l route slots y))) = holdings (xt_stock x)
    \<and> holdings (xt_stock (snd (progress_wish_list io ctx item e' i l route slots y))) = holdings (xt_stock x)" for y e' i l route
    using selling_holdings wishing_holdings by metis
  then show ?thesis
    by (auto simp: process_entry_def Let_def split: sum.splits intro!: if_ok_holdings)
qed

lemma process_entries_holdings:
  "ids_distinct (xt_stock x) \<Longrightarrow> holdings (xt_stock (snd (process_entries io ctx slots es x))) = holdings (xt_stock x)"
proof (induction es arbitrary: x)
  case (Cons e es)
  show ?case
  proof (cases "cache_get (xc_cache ctx) (ie_url e)")
    case (Inr item)
    obtain r x1 where r: "process_entry io ctx slots item e x = (r, x1)" by fastforce
    have h: "holdings (xt_stock x1) = holdings (xt_stock x)" using process_entry_holdings[OF Cons.prems, of io ctx slots item e] r by simp
    then have "ids_distinct (xt_stock x1)" using Cons.prems ids_distinct_holdings by blast
    from Cons.IH[OF this] h r Inr show ?thesis by (simp split: sum.splits)
  qed (use Cons in \<open>simp split: sum.splits\<close>)
qed simp

lemma cycle_holdings:
  assumes "ids_distinct (xt_stock x)"
  shows "holdings (xt_stock (snd (check_items io ctx just_started x))) = holdings (xt_stock x)"
proof -
  define x1 where "x1 = delete_unwanted_orders io ctx just_started (all_orders (xt_orders x)) x"
  have s1: "xt_stock x1 = xt_stock x" by (simp add: x1_def)
  have "holdings (xt_stock (snd (process_items io ctx es x1))) = holdings (xt_stock x)" for es
    using process_entries_holdings[of x1] assms s1
    by (auto simp: process_items_def Let_def split: sum.splits prod.splits) (metis snd_conv)+
  with s1 show ?thesis unfolding check_items_def Let_def x1_def[symmetric] by (auto split: sum.splits)
qed

section \<open>What the orders keep\<close>

text \<open>
  The interface of the trader to its order book: whatever a create, an update, a local update and a
  delete keep, call by call, a whole cycle keeps. \<open>inv n t\<close> may speak of the calls from \<open>n\<close> on.
\<close>

locale order_client =
  fixes io :: trader_io and inv :: "nat \<Rightarrow> trade_orders \<Rightarrow> bool" and ok_route :: "route \<Rightarrow> bool"
  assumes routes: "inv n t \<Longrightarrow> ok_route (route_for (tq_global t) warm)"
    and later: "inv n t \<Longrightarrow> inv (Suc n) t"
    and create: "inv n t \<Longrightarrow> ok_route r \<Longrightarrow> inv (Suc n) (snd (tq_create t ps r meta (io_uuid io n) now txt ((io_answer io n)\<lparr>an_order := io_new io n\<rparr>)))"
    and update: "inv n t \<Longrightarrow> inv (Suc n) (snd (tq_update t i ups meta now (io_answer io n)))"
    and update_local: "inv n t \<Longrightarrow> inv n (tq_update_local t i ups)"
    and delete: "inv n t \<Longrightarrow> inv (Suc n) (snd (tq_delete t i meta now (io_answer io n)))"
begin

abbreviation keeps :: "trader \<Rightarrow> bool" where
  "keeps x \<equiv> inv (xt_calls x) (xt_orders x)"

lemma free_slot: "inv n t \<Longrightarrow> inv (Suc n) (snd (free_sell_slot io n r ty slots t))"
  using delete[of n t] later[of n t]
  by (auto simp: free_sell_slot_def split: option.splits prod.splits sum.splits) (metis snd_conv)+

lemma order: "inv n t \<Longrightarrow> ok_route r \<Longrightarrow> inv (Suc (Suc n)) (snd (progress_order io n e r ty p pt props ops slots t))"
proof -
  assume a: "inv n t" "ok_route r"
  obtain can1 t1 where c: "(if (os_has ops ''Create'' \<and> \<not> os_has ops ''Delete'') \<and> \<not> can_create t r ty slots
      then free_sell_slot io n r ty slots t else (can_create t r ty slots, t)) = (can1, t1)" by fastforce
  have t1: "inv (Suc n) t1"
    using free_slot[OF a(1), of r ty slots] later[OF a(1)] c by (auto split: if_splits)
  show ?thesis
    unfolding progress_order_def Let_def c prod.case
    using create[OF t1 a(2)] update[OF t1] later[OF update_local[OF t1]] delete[OF t1] later[OF t1]
    by (auto split: option.splits)
qed

lemma placed: "keeps x \<Longrightarrow> ok_route r \<Longrightarrow> keeps (snd (with_orders x (progress_order io (xt_calls x) e r ty p pt props ops slots (xt_orders x))))"
  using order[of "xt_calls x" "xt_orders x" r e ty p pt props ops slots]
  by (auto simp: with_orders_def split: prod.splits sum.splits)

lemma two_later: "inv n t \<Longrightarrow> inv (Suc (Suc n)) t"
  by (intro later)

lemma dropped: "keeps x \<Longrightarrow> ok_route r \<Longrightarrow> keeps (snd (drop_order io e ty r reason x))"
  using order[of "xt_calls x" "xt_orders x" r] two_later[of "xt_calls x" "xt_orders x"]
  by (auto simp: drop_order_def delete_order_def with_orders_def Let_def split: prod.splits sum.splits if_splits) (metis snd_conv)+

lemma buying: "keeps x \<Longrightarrow> ok_route r \<Longrightarrow> keeps (snd (progress_buying io ctx item e i l r slots x))"
  by (auto simp: progress_buying_def Let_def place_order_def dropped placed split: prod.splits sum.splits option.splits bool.splits)

lemma write_back:
  "keeps x \<Longrightarrow> keeps (x\<lparr>xt_stock := db\<rparr>)"
  by simp

lemma selling: "keeps x \<Longrightarrow> ok_route r \<Longrightarrow> keeps (snd (progress_selling io ctx item e i l r slots x))"
proof -
  assume a: "keeps x" "ok_route r"
  have p: "place_order io item e i l r ty q pr ops props slots x = (res, x1) \<Longrightarrow> keeps x1" for ty q pr ops props res x1
    using placed[OF a] by (simp add: place_order_def Let_def) (metis snd_conv)
  show ?thesis using a(1)
    by (auto simp: progress_selling_def Let_def dest!: p split: prod.splits sum.splits option.splits)
qed

lemma wishing: "keeps x \<Longrightarrow> ok_route r \<Longrightarrow> keeps (snd (progress_wish_list io ctx item e i l r slots x))"
proof -
  assume a: "keeps x" "ok_route r"
  have p: "place_order io item e i l r ty q pr ops props slots x = (res, x1) \<Longrightarrow> keeps x1" for ty q pr ops props res x1
    using placed[OF a] by (simp add: place_order_def Let_def) (metis snd_conv)
  show ?thesis using a(1)
    by (auto simp: progress_wish_list_def Let_def dest!: p split: prod.splits sum.splits option.splits)
qed

lemma if_ok_keeps: "keeps (snd r) \<Longrightarrow> (\<And>x. keeps x \<Longrightarrow> keeps (snd (f x))) \<Longrightarrow> keeps (snd (if_ok c f r))"
  by (auto simp: if_ok_def split: prod.splits sum.splits)

lemma entry: "keeps x \<Longrightarrow> keeps (snd (process_entry io ctx slots item e x))"
proof -
  assume a: "keeps x"
  let ?r = "route_for (tq_global (xt_orders x)) (pi_warm (price_of ctx (ca_wfm_id item) (ie_sub_type e)))"
  have ok: "ok_route ?r" using routes[OF a] .
  have "keeps ((hand_over_book io ctx item b x)\<lparr>xt_calls := xt_calls x + 1\<rparr>)" for b
    using later[OF a] by (simp add: hand_over_book_def Let_def)
  then show ?thesis using later[OF a] ok
    by (auto simp: process_entry_def Let_def buying selling wishing split: sum.splits intro!: if_ok_keeps)
qed

lemma entries: "keeps x \<Longrightarrow> keeps (snd (process_entries io ctx slots es x))"
proof (induction es arbitrary: x)
  case (Cons e es)
  have "keeps (x\<lparr>xt_calls := xt_calls x + 1\<rparr>)" using later[OF Cons.prems] by simp
  then show ?case
    using Cons.IH Cons.prems entry[OF Cons.prems, of ctx slots _ e]
    by (auto split: sum.splits prod.splits) (metis snd_conv)+
qed simp

lemma deleted: "keeps x \<Longrightarrow> keeps (delete_one io x im)"
  using delete by (simp add: delete_one_def Let_def)

lemma all_deleted: "keeps x \<Longrightarrow> keeps (foldl (delete_one io) x ims)"
  by (induction ims arbitrary: x) (simp_all add: deleted)

lemma deleted_while: "keeps x \<Longrightarrow> keeps (delete_while_running io ctx meta is x)"
  by (induction "is" arbitrary: x) (simp_all add: deleted)

lemma cycle: "keeps x \<Longrightarrow> keeps (snd (check_items io ctx just_started x))"
proof -
  assume a: "keeps x"
  define x1 where "x1 = delete_unwanted_orders io ctx just_started (all_orders (xt_orders x)) x"
  have k1: "keeps x1" using a by (simp add: x1_def delete_unwanted_orders_def Let_def deleted_while)
  have knap: "keeps y \<Longrightarrow> keeps (global_knapsack io ctx ids y)" for y ids
    by (simp add: global_knapsack_def Let_def all_deleted)
  have sweep: "keeps y \<Longrightarrow> keeps (sweep_orphans io ctx es now (y\<lparr>xt_calls := xt_calls y + 1\<rparr>))" for y es now
    using later by (auto simp: sweep_orphans_def Let_def split: prod.splits intro!: all_deleted)
  have "keeps (snd (process_items io ctx es x1))" for es
    using entries[OF k1] knap sweep
    by (auto simp: process_items_def Let_def split: sum.splits prod.splits) (metis snd_conv)+
  with k1 show ?thesis unfolding check_items_def Let_def x1_def[symmetric] by (auto split: sum.splits)
qed

end

section \<open>A dry run is silent\<close>

lemma dry_create:
  "tq_global t \<Longrightarrow> r \<noteq> LiveRoute \<Longrightarrow> tq_global (snd (tq_create t ps r meta u now txt an))
     \<and> tq_sent (snd (tq_create t ps r meta u now txt an)) = tq_sent t \<and> tq_live (snd (tq_create t ps r meta u now txt an)) = tq_live t"
  by (cases r) (simp_all add: tq_create_def Let_def)

lemma dry_update:
  "tq_global t \<Longrightarrow> tq_global (snd (tq_update t i ups meta now an))
     \<and> tq_sent (snd (tq_update t i ups meta now an)) = tq_sent t \<and> tq_live (snd (tq_update t i ups meta now an)) = tq_live t"
  by (simp add: tq_update_def in_book_def Let_def split: option.splits)

lemma dry_delete:
  "tq_global t \<Longrightarrow> tq_global (snd (tq_delete t i meta now an))
     \<and> tq_sent (snd (tq_delete t i meta now an)) = tq_sent t \<and> tq_live (snd (tq_delete t i meta now an)) = tq_live t"
  by (simp add: tq_delete_def in_book_def Let_def split: option.splits)

lemma dry_update_local:
  "tq_global t \<Longrightarrow> tq_global (tq_update_local t i ups) \<and> tq_sent (tq_update_local t i ups) = tq_sent t
     \<and> tq_live (tq_update_local t i ups) = tq_live t"
  by (simp add: tq_update_local_def in_book_def)

interpretation silent: order_client io "\<lambda>n t. tq_global t \<and> tq_sent t = sent0 \<and> tq_live t = live0" "\<lambda>r. r \<noteq> LiveRoute"
  for io sent0 live0
  by unfold_locales (simp_all add: route_for_def dry_create dry_update dry_update_local dry_delete)

text \<open>
  C20. With dry run switched on, a whole trader cycle, whatever the market, the settings and the answers,
  sends no order to the marketplace and leaves the mirror of the account as it was: the deletions at its
  start, the three workflows, the knapsack and the orphan sweep all stay in the simulated book.
\<close>

theorem dry_cycle_is_silent:
  assumes "tq_global (xt_orders x)"
  shows "tq_sent (xt_orders (snd (check_items io ctx just_started x))) = tq_sent (xt_orders x)
       \<and> tq_live (xt_orders (snd (check_items io ctx just_started x))) = tq_live (xt_orders x)
       \<and> tq_global (xt_orders (snd (check_items io ctx just_started x)))"
  using silent.cycle[of x "tq_sent (xt_orders x)" "tq_live (xt_orders x)" io ctx just_started] assms by simp

section \<open>The books stay well-formed\<close>

definition new_id :: "trader_io \<Rightarrow> nat \<Rightarrow> string set" where
  "new_id io n = (case io_new io n of Inr o1 \<Rightarrow> {or_id o1} | Inl _ \<Rightarrow> {})"

definition mine_ids :: "trader_io \<Rightarrow> nat \<Rightarrow> string set" where
  "mine_ids io n = (case an_mine (io_answer io n) of Inr os \<Rightarrow> or_id ` set os | Inl _ \<Rightarrow> {})"

text \<open>What the marketplace and the id generator promise: fresh ids for new orders, distinct ids in a listing.\<close>

definition io_fresh :: "trader_io \<Rightarrow> bool" where
  "io_fresh io \<longleftrightarrow> inj (io_uuid io) \<and> (\<forall>n. mine_ok (an_mine (io_answer io n)))
     \<and> (\<forall>k m. k < m \<longrightarrow> new_id io m \<inter> (new_id io k \<union> mine_ids io k) = {})"

definition book_ids :: "trade_orders \<Rightarrow> string set" where
  "book_ids t = or_id ` set (ol_to_vec (tq_book t))"

definition fresh_from :: "trader_io \<Rightarrow> nat \<Rightarrow> trade_orders \<Rightarrow> bool" where
  "fresh_from io n t \<longleftrightarrow>
     (\<forall>m\<ge>n. ''dry-'' @ io_uuid io m \<notin> book_ids t) \<and> (\<forall>m\<ge>n. new_id io m \<inter> live_ids t = {})"

lemma update_first_ids: "update_first i (update_order args) os = Some os' \<Longrightarrow> map or_id os' = map or_id os"
  by (induction os arbitrary: os') (auto split: if_splits)

lemma ol_update_ids [simp]: "or_id ` set (ol_to_vec (ol_update l i args)) = or_id ` set (ol_to_vec l)"
proof -
  have "or_id ` set os' = or_id ` set os" if "update_first i (update_order args) os = Some os'" for os os'
    using update_first_ids[OF that] by (metis list.set_map)
  then show ?thesis by (auto simp: ol_update_def ol_to_vec_def image_Un split: option.splits)
qed

lemma ol_remove_ids: "or_id ` set (ol_to_vec (ol_remove_by_id l i)) \<subseteq> or_id ` set (ol_to_vec l)"
  by (auto simp: ol_remove_by_id_def ol_retain_def ol_to_vec_def)

lemma ol_add_set [simp]: "set (ol_to_vec (ol_add l o1)) = insert o1 (set (ol_to_vec l))"
  by (auto simp: ol_add_def ol_to_vec_def split: order_type.splits)

lemma ol_new_ids [simp]: "or_id ` set (ol_to_vec (ol_new id os)) \<subseteq> or_id ` set os"
  by (auto simp: ol_new_def ol_to_vec_def)

lemma refresh_live_ids: "live_ids (tq_refresh t (an_mine (io_answer io n))) \<subseteq> live_ids t \<union> mine_ids io n"
proof (cases "tq_live t")
  case (Some rc)
  then show ?thesis
    by (cases "an_mine (io_answer io n)") (auto simp: tq_refresh_def rc_my_orders_def live_ids_def mine_ids_def dest: subsetD[OF ol_new_ids, OF imageI])
qed (simp add: tq_refresh_def)

lemma finish_live_ids: "live_ids (snd (finish_live t a r (an_mine (io_answer io n)))) \<subseteq> live_ids t \<union> mine_ids io n"
  using refresh_live_ids[of "t\<lparr>tq_failures := tq_failures t + 1\<rparr>" io n]
  by (auto simp: finish_live_def Let_def live_ids_def split: sum.splits)

lemma live_ids_Some [simp]: "live_ids (t\<lparr>tq_live := Some rc, tq_sent := k\<rparr>) = or_id ` set (ol_to_vec (rc_orders rc))"
  by (simp add: live_ids_def)

lemma create_ids:
  fixes io n
  defines "an \<equiv> (io_answer io n)\<lparr>an_order := io_new io n\<rparr>"
  shows "live_ids (snd (tq_create t ps r meta u now txt' an)) \<subseteq> live_ids t \<union> new_id io n \<union> mine_ids io n"
    and "book_ids (snd (tq_create t ps r meta u now txt' an)) \<subseteq> insert (''dry-'' @ u) (book_ids t)"
proof -
  show "live_ids (snd (tq_create t ps r meta u now txt' an)) \<subseteq> live_ids t \<union> new_id io n \<union> mine_ids io n"
  proof (cases r)
    case LiveRoute
    show ?thesis
    proof (cases "tq_live t")
      case (Some rc)
      obtain res rc1 where c: "rc_create rc ps (io_new io n) = (res, rc1)" by fastforce
      then have "or_id ` set (ol_to_vec (rc_orders rc1)) \<subseteq> live_ids t \<union> new_id io n"
        using Some by (auto simp: rc_create_def live_ids_def new_id_def Let_def split: if_splits sum.splits)
      moreover have "snd (tq_create t ps r meta u now txt' an) =
          snd (finish_live (t\<lparr>tq_live := Some rc1, tq_sent := tq_sent t + (if rc_can_create rc then 1 else 0)\<rparr>) ''Create'' res (an_mine (io_answer io n)))"
        using LiveRoute Some c by (simp add: tq_create_def an_def)
      moreover have "live_ids (snd (finish_live (t\<lparr>tq_live := Some rc1, tq_sent := k\<rparr>) a res (an_mine (io_answer io n))))
          \<subseteq> or_id ` set (ol_to_vec (rc_orders rc1)) \<union> mine_ids io n" for k a
        using finish_live_ids[of "t\<lparr>tq_live := Some rc1, tq_sent := k\<rparr>" a res io n] by simp
      ultimately show ?thesis by (simp only:) blast
    qed (simp add: tq_create_def LiveRoute no_client_def live_ids_def)
  qed (auto simp: tq_create_def Let_def live_ids_def)
  show "book_ids (snd (tq_create t ps r meta u now txt' an)) \<subseteq> insert (''dry-'' @ u) (book_ids t)"
  proof (cases r)
    case (DryRun f)
    then show ?thesis by (auto simp: tq_create_def Let_def book_ids_def simulated_order_def)
  qed (auto simp: tq_create_def no_client_def book_ids_def Let_def split: option.splits prod.splits)
qed

lemma update_ids:
  "live_ids (snd (tq_update t i ups meta now (io_answer io n))) \<subseteq> live_ids t \<union> mine_ids io n"
  "book_ids (snd (tq_update t i ups meta now (io_answer io n))) \<subseteq> book_ids t"
proof -
  have live: "or_id ` set (ol_to_vec (rc_orders (snd (rc_update rc i ups ans)))) = or_id ` set (ol_to_vec (rc_orders rc))" for rc ans
    by (auto simp: rc_update_def split: sum.splits)
  show "live_ids (snd (tq_update t i ups meta now (io_answer io n))) \<subseteq> live_ids t \<union> mine_ids io n"
  proof (cases "in_book t i \<or> tq_live t = None")
    case True
    then show ?thesis by (auto simp: tq_update_def no_client_def Let_def live_ids_def split: option.splits)
  next
    case False
    then obtain rc where rc: "tq_live t = Some rc" by auto
    with False finish_live_ids[of "t\<lparr>tq_live := Some (snd (rc_update rc i ups (an_order (io_answer io n)))), tq_sent := tq_sent t + 1\<rparr>"
        "''Update''" "fst (rc_update rc i ups (an_order (io_answer io n)))" io n]
    show ?thesis unfolding live_ids_Some live by (simp add: tq_update_def case_prod_unfold Let_def live_ids_def)
  qed
  show "book_ids (snd (tq_update t i ups meta now (io_answer io n))) \<subseteq> book_ids t"
    by (auto simp: tq_update_def no_client_def Let_def book_ids_def split: option.splits prod.splits)
qed

lemma delete_ids:
  "live_ids (snd (tq_delete t i meta now (io_answer io n))) \<subseteq> live_ids t \<union> mine_ids io n"
  "book_ids (snd (tq_delete t i meta now (io_answer io n))) \<subseteq> book_ids t"
proof -
  have live: "or_id ` set (ol_to_vec (rc_orders (snd (rc_delete rc i ans)))) \<subseteq> or_id ` set (ol_to_vec (rc_orders rc))" for rc ans
    using ol_remove_ids by (auto simp: rc_delete_def split: sum.splits)
  show "live_ids (snd (tq_delete t i meta now (io_answer io n))) \<subseteq> live_ids t \<union> mine_ids io n"
  proof (cases "in_book t i \<or> tq_live t = None")
    case True
    then show ?thesis by (auto simp: tq_delete_def no_client_def Let_def live_ids_def split: option.splits)
  next
    case False
    then obtain rc where rc: "tq_live t = Some rc" by auto
    with False finish_live_ids[of "t\<lparr>tq_live := Some (snd (rc_delete rc i (an_order (io_answer io n)))), tq_sent := tq_sent t + 1\<rparr>"
        "''Delete''" "fst (rc_delete rc i (an_order (io_answer io n)))" io n] live[of rc "an_order (io_answer io n)"]
    show ?thesis unfolding live_ids_Some by (auto simp: tq_delete_def case_prod_unfold Let_def live_ids_def)
  qed
  show "book_ids (snd (tq_delete t i meta now (io_answer io n))) \<subseteq> book_ids t"
    using ol_remove_ids[of "tq_book t" i]
    by (auto simp: tq_delete_def no_client_def Let_def book_ids_def case_prod_unfold split: option.splits)
qed

lemma fresh_from_step:
  assumes io: "io_fresh io" and f: "fresh_from io n t"
    and l: "live_ids t' \<subseteq> live_ids t \<union> new_id io n \<union> mine_ids io n"
    and b: "book_ids t' \<subseteq> insert (''dry-'' @ io_uuid io n) (book_ids t)"
  shows "fresh_from io (Suc n) t'"
  unfolding fresh_from_def
proof (intro conjI allI impI)
  fix m assume m: "Suc n \<le> m"
  then have "io_uuid io m \<noteq> io_uuid io n" using io unfolding io_fresh_def by (metis Suc_n_not_le_n injD)
  then show "''dry-'' @ io_uuid io m \<notin> book_ids t'" using b f m by (auto simp: fresh_from_def)
  have "new_id io m \<inter> (new_id io n \<union> mine_ids io n) = {}" using io m by (simp add: io_fresh_def)
  moreover have "new_id io m \<inter> live_ids t = {}" using f m by (simp add: fresh_from_def)
  ultimately show "new_id io m \<inter> live_ids t' = {}" using l by blast
qed

lemma fresh_from_later: "fresh_from io n t \<Longrightarrow> fresh_from io (Suc n) t"
  by (simp add: fresh_from_def)

lemma local_ids [simp]: "live_ids (tq_update_local t i ups) = live_ids t" "book_ids (tq_update_local t i ups) = book_ids t"
  by (auto simp: tq_update_local_def live_ids_def book_ids_def split: option.splits)

text \<open>The orders' own invariant, with the freshness of everything still to come.\<close>

definition sound_orders :: "trader_io \<Rightarrow> nat \<Rightarrow> trade_orders \<Rightarrow> bool" where
  "sound_orders io n t \<longleftrightarrow> io_fresh io \<longrightarrow> orders_inv t \<and> fresh_from io n t"

lemma sound_create:
  assumes s: "sound_orders io n t"
  shows "sound_orders io (Suc n) (snd (tq_create t ps r meta (io_uuid io n) now tx ((io_answer io n)\<lparr>an_order := io_new io n\<rparr>)))"
  unfolding sound_orders_def
proof
  let ?an = "(io_answer io n)\<lparr>an_order := io_new io n\<rparr>"
  assume io: "io_fresh io"
  with s have t: "orders_inv t" "fresh_from io n t" by (auto simp: sound_orders_def)
  have "order_enabled t (OqCreate ps True meta (io_uuid io n) now tx ?an)"
    using io t(2) by (auto simp: io_fresh_def fresh_from_def book_ids_def new_id_def split: sum.splits)
  from create_inv[OF t(1) this, of r] fresh_from_step[OF io t(2) create_ids]
  show "orders_inv (snd (tq_create t ps r meta (io_uuid io n) now tx ?an)) \<and> fresh_from io (Suc n) (snd (tq_create t ps r meta (io_uuid io n) now tx ?an))"
    by blast
qed

lemma sound_update: "sound_orders io n t \<Longrightarrow> sound_orders io (Suc n) (snd (tq_update t i ups meta now (io_answer io n)))"
  unfolding sound_orders_def
  by (intro impI conjI update_inv fresh_from_step order_trans[OF update_ids(1)] order_trans[OF update_ids(2)])
    (auto simp: io_fresh_def)

lemma sound_delete: "sound_orders io n t \<Longrightarrow> sound_orders io (Suc n) (snd (tq_delete t i meta now (io_answer io n)))"
  unfolding sound_orders_def
  by (intro impI conjI delete_inv fresh_from_step order_trans[OF delete_ids(1)] order_trans[OF delete_ids(2)])
    (auto simp: io_fresh_def)

lemma sound_later: "sound_orders io n t \<Longrightarrow> sound_orders io (Suc n) t"
  by (simp add: sound_orders_def fresh_from_later)

lemma sound_update_local: "sound_orders io n t \<Longrightarrow> sound_orders io n (tq_update_local t i ups)"
  by (simp add: sound_orders_def update_local_inv fresh_from_def)

interpretation sound: order_client io "sound_orders io" "\<lambda>r. True" for io
  by unfold_locales (rule TrueI sound_later sound_create sound_update sound_update_local sound_delete, assumption?)+


section \<open>A small market\<close>

definition demo_card :: cache_item where
  "demo_card = \<lparr>ca_name = ''Card'', ca_unique_name = [], ca_wfm_id = ''c1'', ca_wfm_url = ''card'', ca_trade_tax = 0,
     ca_mr_requirement = 0, ca_tags = [], ca_icon = [], ca_bulk_tradable = False, ca_sub_type = None, ca_variants = []\<rparr>"

definition demo_price :: item_price_info where
  "demo_price = no_price_info\<lparr>pi_wfm_url := ''card'', pi_wfm_id := ''c1'', pi_volume := 20, pi_profit := 30, pi_avg_price := 40,
     pi_moving_avg := Some 40, pi_warm := True\<rparr>"

definition demo_context :: trade_context where
  "demo_context = \<lparr>xc_settings = default_live\<lparr>lv_items := default_item_settings\<lparr>it_wtb := default_item_wtb\<lparr>wb_max_total_price_cap := -1\<rparr>\<rparr>\<rparr>,
     xc_debug = None, xc_fake = False,
     xc_prices = \<lparr>ps_items = [((''c1'', []), demo_price)], ps_shift = []\<rparr>,
     xc_cache = (\<lambda>i. if i = ''card'' then Some demo_card else None), xc_username = ''me'', xc_banned = False\<rparr>"

definition demo_trader :: trader where
  "demo_trader = \<lparr>xt_orders = trade_orders_new (Some route_new) True, xt_stock = empty_stock, xt_collector = None, xt_seen = [], xt_calls = 0\<rparr>"

lemma demo_cycle_bids:
  "map (\<lambda>o1. (or_id o1, uint (or_platinum o1))) (ol_buy (tq_book (xt_orders (snd (check_items demo_io demo_context False demo_trader))))) = [(''dry-2'', 20)]"
  by code_simp

theorem dry_cycle_is_silent_witness:
  "tq_sent (xt_orders (snd (check_items demo_io demo_context False demo_trader))) = 0
   \<and> map or_id (ol_buy (tq_book (xt_orders (snd (check_items demo_io demo_context False demo_trader))))) = [''dry-2'']"
proof -
  have "tq_global (xt_orders demo_trader)" "tq_sent (xt_orders demo_trader) = 0"
    by (simp_all add: demo_trader_def trade_orders_new_def)
  then have "tq_sent (xt_orders (snd (check_items demo_io demo_context False demo_trader))) = 0"
    using dry_cycle_is_silent[of demo_trader demo_io demo_context False] by simp
  moreover have "map or_id (ol_buy (tq_book (xt_orders (snd (check_items demo_io demo_context False demo_trader))))) = map fst [(''dry-2'', 20::int)]"
    unfolding demo_cycle_bids[symmetric] by (simp add: comp_def)
  ultimately show ?thesis by simp
qed

lemma demo_io_fresh: "io_fresh demo_io"
  by (auto simp: io_fresh_def demo_io_def mine_ok_def new_id_def mine_ids_def inj_def dest: arg_cong[of _ _ "\<lambda>s. parse_digits s 0"])


end
