(* ===== verification/Log_Parser.thy ===== *)
theory Log_Parser
  imports Trade_Resolve
begin

text \<open>
  The text of a trade dialog as a raw trade (\<open>qf_log_parser/src/lib.rs\<close>): the markers the game
  writes, the lines of a dialog and the id of an event. Text is a list of UTF-8 bytes. SHA-256 is a
  crate of its own and stays the parameter \<open>sha\<close>.
\<close>

section \<open>Text\<close>

definition newline :: char where
  "newline = CHR 0x0A"

definition carriage_return :: char where
  "carriage_return = CHR 0x0D"

text \<open>\<open>str::find\<close> and \<open>str::rfind\<close> of a substring, and the splits at it.\<close>

fun find_sub :: "'a list \<Rightarrow> 'a list \<Rightarrow> nat option" where
  "find_sub p [] = (if p = [] then Some 0 else None)"
| "find_sub p (c # s) = (if starts_with (c # s) p then Some 0 else map_option Suc (find_sub p s))"

fun rfind_sub :: "'a list \<Rightarrow> 'a list \<Rightarrow> nat option" where
  "rfind_sub p [] = (if p = [] then Some 0 else None)"
| "rfind_sub p (c # s) =
     (case rfind_sub p s of
        Some i \<Rightarrow> Some (Suc i)
      | None \<Rightarrow> if starts_with (c # s) p then Some 0 else None)"

definition split_once_sub :: "'a list \<Rightarrow> 'a list \<Rightarrow> ('a list \<times> 'a list) option" where
  "split_once_sub p s = map_option (\<lambda>i. (take i s, drop (i + length p) s)) (find_sub p s)"

definition rsplit_once_sub :: "'a list \<Rightarrow> 'a list \<Rightarrow> ('a list \<times> 'a list) option" where
  "rsplit_once_sub p s = map_option (\<lambda>i. (take i s, drop (i + length p) s)) (rfind_sub p s)"

text \<open>\<open>char::is_whitespace\<close>: the bytes of the white space character a text begins with, none if
  it begins with another one.\<close>

fun space_code :: "nat list \<Rightarrow> bool" where
  "space_code [a] \<longleftrightarrow> a \<in> {9, 10, 11, 12, 13, 32}"
| "space_code [a, b] \<longleftrightarrow> a = 0xC2 \<and> b \<in> {0x85, 0xA0}"
| "space_code [a, b, c] \<longleftrightarrow>
     a = 0xE1 \<and> b = 0x9A \<and> c = 0x80
     \<or> a = 0xE2 \<and> b = 0x80 \<and> (0x80 \<le> c \<and> c \<le> 0x8A \<or> c \<in> {0xA8, 0xA9, 0xAF})
     \<or> a = 0xE2 \<and> b = 0x81 \<and> c = 0x9F
     \<or> a = 0xE3 \<and> b = 0x80 \<and> c = 0x80"
| "space_code _ \<longleftrightarrow> False"

definition code_at :: "nat \<Rightarrow> string \<Rightarrow> nat list" where
  "code_at n s = map of_char (take n s)"

definition space_width :: "string \<Rightarrow> nat" where
  "space_width s =
     (if length s \<ge> 1 \<and> space_code (code_at 1 s) then 1
      else if length s \<ge> 2 \<and> space_code (code_at 2 s) then 2
      else if length s \<ge> 3 \<and> space_code (code_at 3 s) then 3
      else 0)"

text \<open>The same for the last character of a text, on the reversed bytes.\<close>

definition space_width_rev :: "string \<Rightarrow> nat" where
  "space_width_rev s =
     (if length s \<ge> 1 \<and> space_code (rev (code_at 1 s)) then 1
      else if length s \<ge> 2 \<and> space_code (rev (code_at 2 s)) then 2
      else if length s \<ge> 3 \<and> space_code (rev (code_at 3 s)) then 3
      else 0)"

function drop_spaces :: "(string \<Rightarrow> nat) \<Rightarrow> string \<Rightarrow> string" where
  "drop_spaces w s = (if s = [] \<or> w s = 0 then s else drop_spaces w (drop (w s) s))"
  by pat_completeness auto
termination by (relation "measure (length \<circ> snd)") auto

declare drop_spaces.simps [simp del]

definition text_trim :: "string \<Rightarrow> string" where
  "text_trim s = rev (drop_spaces space_width_rev (rev (drop_spaces space_width s)))"

fun first_word :: "string \<Rightarrow> string" where
  "first_word [] = []"
| "first_word (c # s) = (if space_width (c # s) \<noteq> 0 then [] else c # first_word s)"

text \<open>\<open>String::from_utf8_lossy\<close>: every maximal invalid piece becomes U+FFFD.\<close>

definition replacement :: string where
  "replacement = [CHR 0xEF, CHR 0xBF, CHR 0xBD]"

definition utf8_width :: "nat \<Rightarrow> nat" where
  "utf8_width a =
     (if a < 0x80 then 1 else if 0xC2 \<le> a \<and> a \<le> 0xDF then 2
      else if 0xE0 \<le> a \<and> a \<le> 0xEF then 3 else if 0xF0 \<le> a \<and> a \<le> 0xF4 then 4 else 0)"

definition second_ok :: "nat \<Rightarrow> nat \<Rightarrow> bool" where
  "second_ok a b \<longleftrightarrow>
     (if a = 0xE0 then 0xA0 \<le> b \<and> b \<le> 0xBF
      else if a = 0xED then 0x80 \<le> b \<and> b \<le> 0x9F
      else if a = 0xF0 then 0x90 \<le> b \<and> b \<le> 0xBF
      else if a = 0xF4 then 0x80 \<le> b \<and> b \<le> 0x8F
      else 0x80 \<le> b \<and> b \<le> 0xBF)"

definition continuation :: "nat \<Rightarrow> bool" where
  "continuation b \<longleftrightarrow> 0x80 \<le> b \<and> b \<le> 0xBF"

text \<open>How many bytes of a text go into its first piece, and whether the piece is a character.\<close>

definition utf8_piece :: "string \<Rightarrow> nat \<times> bool" where
  "utf8_piece s =
     (let b = (\<lambda>i. of_char (s ! i) :: nat); w = utf8_width (b 0)
      in if w \<le> 1 then (1, w = 1)
         else if \<not> (1 < length s \<and> second_ok (b 0) (b 1)) then (1, False)
         else if w = 2 then (2, True)
         else if \<not> (2 < length s \<and> continuation (b 2)) then (2, False)
         else if w = 3 then (3, True)
         else if \<not> (3 < length s \<and> continuation (b 3)) then (3, False)
         else (4, True))"

lemma utf8_piece_pos [simp]: "0 < fst (utf8_piece s)"
  by (simp add: utf8_piece_def Let_def)

function utf8_lossy :: "string \<Rightarrow> string" where
  "utf8_lossy s =
     (if s = [] then []
      else let (n, ok) = utf8_piece s
           in (if ok then take n s else replacement) @ utf8_lossy (drop n s))"
  by pat_completeness auto
termination
proof (relation "measure length")
  fix s n ok and x :: "nat \<times> bool"
  assume "s \<noteq> []" "x = utf8_piece s" "(n, ok) = x"
  then have "0 < n" by (metis utf8_piece_pos fst_conv)
  with \<open>s \<noteq> []\<close> show "(drop n s, s) \<in> measure length" by simp
qed simp

declare utf8_lossy.simps [simp del]

text \<open>Whether a text is UTF-8: all its pieces are characters.\<close>

function utf8_valid :: "string \<Rightarrow> bool" where
  "utf8_valid s \<longleftrightarrow> (if s = [] then True else snd (utf8_piece s) \<and> utf8_valid (drop (fst (utf8_piece s)) s))"
  by pat_completeness auto
termination
proof (relation "measure length")
  fix s :: string assume "s \<noteq> []"
  then show "(drop (fst (utf8_piece s)) s, s) \<in> measure length"
    using utf8_piece_pos[of s] by simp
qed simp

declare utf8_valid.simps [simp del]

lemma utf8_piece_length: "s \<noteq> [] \<Longrightarrow> fst (utf8_piece s) \<le> length s"
  by (auto simp: utf8_piece_def Let_def Suc_le_eq)

lemma utf8_piece_append:
  assumes "s \<noteq> []" "snd (utf8_piece s)"
  shows "utf8_piece (s @ t) = utf8_piece s"
  using assms by (auto simp: utf8_piece_def Let_def nth_append split: if_splits)

lemma utf8_piece_take:
  assumes "s \<noteq> []" "snd (utf8_piece s)"
  shows "utf8_piece (take (fst (utf8_piece s)) s) = utf8_piece s"
  using assms by (auto simp: utf8_piece_def Let_def split: if_splits)

lemma utf8_valid_Nil [simp]: "utf8_valid []"
  by (simp add: utf8_valid.simps)

lemma utf8_valid_step:
  "s \<noteq> [] \<Longrightarrow> utf8_valid s \<longleftrightarrow> snd (utf8_piece s) \<and> utf8_valid (drop (fst (utf8_piece s)) s)"
  by (subst utf8_valid.simps) simp

lemma utf8_valid_append: "utf8_valid s \<Longrightarrow> utf8_valid (s @ t) \<longleftrightarrow> utf8_valid t"
proof (induction "length s" arbitrary: s rule: less_induct)
  case less
  show ?case
  proof (cases "s = []")
    case False
    let ?n = "fst (utf8_piece s)"
    have ok: "snd (utf8_piece s)" "utf8_valid (drop ?n s)"
      using less(2) False by (auto simp: utf8_valid_step)
    have "utf8_valid (s @ t) \<longleftrightarrow> utf8_valid (drop ?n s @ t)"
      using False ok(1) utf8_piece_append[OF False ok(1), of t] utf8_piece_length[OF False]
        utf8_valid_step[of "s @ t"] by simp
    also have "\<dots> \<longleftrightarrow> utf8_valid t"
      using False utf8_piece_pos[of s] by (intro less(1)[OF _ ok(2)]) simp
    finally show ?thesis .
  qed simp
qed

lemma utf8_valid_piece:
  assumes "s \<noteq> []" "snd (utf8_piece s)"
  shows "utf8_valid (take (fst (utf8_piece s)) s)"
  using assms utf8_piece_take[OF assms] utf8_piece_pos[of s] by (simp add: utf8_valid_step)

lemma utf8_valid_replacement [simp]: "utf8_valid replacement"
  by (simp add: replacement_def utf8_valid_step utf8_piece_def utf8_width_def second_ok_def continuation_def)

lemma utf8_lossy_step:
  "s \<noteq> [] \<Longrightarrow> utf8_lossy s =
     (if snd (utf8_piece s) then take (fst (utf8_piece s)) s else replacement) @ utf8_lossy (drop (fst (utf8_piece s)) s)"
  by (subst utf8_lossy.simps) (simp add: split_beta)

lemma utf8_lossy_Nil [simp]: "utf8_lossy [] = []"
  by (simp add: utf8_lossy.simps)

lemma utf8_lossy_valid: "utf8_valid (utf8_lossy s)"
proof (induction "length s" arbitrary: s rule: less_induct)
  case less
  show ?case
  proof (cases "s = []")
    case False
    then have "utf8_valid (utf8_lossy (drop (fst (utf8_piece s)) s))"
      using less[of "drop (fst (utf8_piece s)) s"] utf8_piece_pos[of s] by simp
    then show ?thesis
      using utf8_valid_piece[OF False] by (simp add: utf8_lossy_step[OF False] utf8_valid_append)
  qed simp
qed

lemma utf8_lossy_id: "utf8_valid s \<Longrightarrow> utf8_lossy s = s"
proof (induction "length s" arbitrary: s rule: less_induct)
  case less
  show ?case
  proof (cases "s = []")
    case False
    then show ?thesis
      using less(1)[of "drop (fst (utf8_piece s)) s"] less(2) utf8_piece_pos[of s]
      by (simp add: utf8_lossy_step utf8_valid_step)
  qed simp
qed

section \<open>Markers\<close>

definition START :: string where
  "START = ''Dialog::CreateOkCancel(description=Are you sure you want to accept this trade? You are offering:''"

definition END_MARKER :: string where
  "END_MARKER = '', title= leftItem=/Menu/Confirm_Item_Ok, rightItem=/Menu/Confirm_Item_Cancel)''"

definition SUCCESS :: string where
  "SUCCESS = ''description=The trade was successful!''"

definition FAILED :: string where
  "FAILED = ''description=The trade failed.''"

definition CANCELLED :: string where
  "CANCELLED = ''description=The trade was cancelled''"

definition ACCEPT_FAILED :: string where
  "ACCEPT_FAILED = ''OnTradeAccepted failed''"

definition RECEIVE_FROM :: string where
  "RECEIVE_FROM = ''and will receive from ''"

definition THE_FOLLOWING :: string where
  "THE_FOLLOWING = '' the following:''"

definition PLATINUM_PREFIX :: string where
  "PLATINUM_PREFIX = ''Platinum x ''"

section \<open>The text of a dialog\<close>

definition strip_glyphs :: "string \<Rightarrow> string \<times> nat" where
  "strip_glyphs s = (let trimmed = rev (drop_glyphs (rev s)) in (trimmed, (length s - length trimmed) div 3))"

definition parse_i64 :: "string \<Rightarrow> int option" where
  "parse_i64 s = parse_integer (- (2 ^ 63)) (2 ^ 63 - 1) s"

text \<open>The rank of \<open>Adaptation (RARE RANK 10)\<close>: the name before the last \<open> (\<close> and the number.\<close>

definition rank_suffix :: "string \<Rightarrow> (string \<times> int) option" where
  "rank_suffix s =
     (case rfind_sub '' ('' s of
        None \<Rightarrow> None
      | Some i \<Rightarrow>
          (let inside = drop (i + 2) s
           in if ends_with inside '')''
              then case rsplit_once_sub '' RANK '' (butlast inside) of
                     None \<Rightarrow> None
                   | Some (_, rank) \<Rightarrow> map_option (\<lambda>r. (text_trim (take i s), r)) (parse_i64 (text_trim rank))
              else None))"

definition parse_line :: "string \<Rightarrow> raw_item" where
  "parse_line piece0 =
     (let piece = text_trim piece0
      in case strip_prefix PLATINUM_PREFIX piece of
           Some amount \<Rightarrow>
             \<lparr>ri_name = platinum_name,
              ri_quantity = (case parse_i64 (text_trim amount) of Some n \<Rightarrow> n | None \<Rightarrow> 1), ri_rank = None\<rparr>
         | None \<Rightarrow>
             (let (bare, glyphs) = strip_glyphs piece; name = text_trim bare
              in if 0 < glyphs then \<lparr>ri_name = name, ri_quantity = 1, ri_rank = Some (int glyphs)\<rparr>
                 else case rank_suffix name of
                   Some (base, rank) \<Rightarrow> \<lparr>ri_name = base, ri_quantity = 1, ri_rank = Some rank\<rparr>
                 | None \<Rightarrow> \<lparr>ri_name = name, ri_quantity = 1, ri_rank = None\<rparr>))"

text \<open>Quantities are \<open>i64\<close>; their sum wraps in the release build.\<close>

definition wrap_i64 :: "int \<Rightarrow> int" where
  "wrap_i64 n = (n + 2 ^ 63) mod 2 ^ 64 - 2 ^ 63"

definition same_piece :: "raw_item \<Rightarrow> raw_item \<Rightarrow> bool" where
  "same_piece i j \<longleftrightarrow> ri_name i = ri_name j \<and> ri_rank i = ri_rank j"

fun add_piece :: "raw_item list \<Rightarrow> raw_item \<Rightarrow> raw_item list" where
  "add_piece [] item = [item]"
| "add_piece (i # is) item =
     (if same_piece i item then i\<lparr>ri_quantity := wrap_i64 (ri_quantity i + ri_quantity item)\<rparr> # is
      else i # add_piece is item)"

fun split_lines :: "string \<Rightarrow> string list" where
  "split_lines [] = [[]]"
| "split_lines (c # s) =
     (if c = carriage_return \<or> c = newline then [] # split_lines s
      else case split_lines s of [] \<Rightarrow> [[c]] | p # ps \<Rightarrow> (c # p) # ps)"

definition pieces_of :: "string \<Rightarrow> string list" where
  "pieces_of s = filter (\<lambda>p. p \<noteq> []) (map text_trim (split_lines s))"

definition parse_pieces :: "string \<Rightarrow> raw_item list" where
  "parse_pieces s = foldl add_piece [] (map parse_line (pieces_of s))"

definition parse_dialog :: "string \<Rightarrow> string \<Rightarrow> raw_trade" where
  "parse_dialog ee_timestamp dialog =
     (let (offered, rest) = (case split_once_sub RECEIVE_FROM dialog of Some p \<Rightarrow> p | None \<Rightarrow> (dialog, []));
          (player, received) = (case split_once_sub THE_FOLLOWING rest of Some p \<Rightarrow> p | None \<Rightarrow> (rest, []))
      in \<lparr>rt_player_name = text_trim (fst (strip_glyphs (text_trim player))),
          rt_ee_timestamp = ee_timestamp,
          rt_offered = parse_pieces offered,
          rt_received = parse_pieces received\<rparr>)"

text \<open>\<open>{b:02x}\<close> of the bytes of the digest.\<close>

definition hex_digit :: "nat \<Rightarrow> char" where
  "hex_digit d = (if d < 10 then char_of (48 + d) else char_of (87 + d))"

definition hex_byte :: "char \<Rightarrow> string" where
  "hex_byte b = (let n = of_char b :: nat in [hex_digit (n div 16), hex_digit (n mod 16)])"

definition event_id :: "(string \<Rightarrow> string) \<Rightarrow> string \<Rightarrow> string \<Rightarrow> string" where
  "event_id sha ee_timestamp dialog = concat (map hex_byte (sha (ee_timestamp @ [newline] @ dialog)))"

lemma parse_line_examples:
  "parse_line (''Platinum x 70'' @ [carriage_return]) = \<lparr>ri_name = ''Platinum'', ri_quantity = 70, ri_rank = None\<rparr>"
  "parse_line ''Adaptation (RARE RANK 10)'' = \<lparr>ri_name = ''Adaptation'', ri_quantity = 1, ri_rank = Some 10\<rparr>"
  "parse_line ''Mortus Lungfish (L)'' = \<lparr>ri_name = ''Mortus Lungfish (L)'', ri_quantity = 1, ri_rank = None\<rparr>"
  "parse_line (''Exodia Contagion '' @ [CHR 0xEE, CHR 0x83, CHR 0x9C, CHR 0xEE, CHR 0x83, CHR 0x9C])
     = \<lparr>ri_name = ''Exodia Contagion'', ri_quantity = 1, ri_rank = Some 2\<rparr>"
  by code_simp+

section \<open>Folding equal lines\<close>

definition pieces_under :: "string \<Rightarrow> int option \<Rightarrow> raw_item list \<Rightarrow> int" where
  "pieces_under name rank items =
     sum_list (map ri_quantity (filter (\<lambda>i. ri_name i = name \<and> ri_rank i = rank) items))"

lemma wrap_i64_mod: "wrap_i64 n mod 2 ^ 64 = n mod 2 ^ 64"
  unfolding wrap_i64_def by (simp add: mod_diff_left_eq)

lemma wrap_i64_id: "- (2 ^ 63) \<le> n \<Longrightarrow> n < 2 ^ 63 \<Longrightarrow> wrap_i64 n = n"
  by (simp add: wrap_i64_def)

lemma mod_add_shift: "(x::int) mod m = y mod m \<Longrightarrow> (x + z) mod m = (y + z) mod m"
  by (metis mod_add_left_eq)

lemma add_piece_total:
  "pieces_under name rank (add_piece items item) mod 2 ^ 64
     = (pieces_under name rank items + (if ri_name item = name \<and> ri_rank item = rank then ri_quantity item else 0)) mod 2 ^ 64"
proof (induction items)
  case (Cons i items)
  have w: "(wrap_i64 (ri_quantity i + ri_quantity item) + z) mod 2 ^ 64
      = (ri_quantity i + ri_quantity item + z) mod 2 ^ 64" for z
    by (rule mod_add_shift) (rule wrap_i64_mod)
  show ?case
  proof (cases "same_piece i item")
    case True
    then show ?thesis
      using w[of "pieces_under name rank items"]
      by (auto simp: same_piece_def pieces_under_def ac_simps)
  next
    case False
    have "(q + pieces_under name rank (add_piece items item)) mod 2 ^ 64
        = (q + (pieces_under name rank items + (if ri_name item = name \<and> ri_rank item = rank then ri_quantity item else 0))) mod 2 ^ 64" for q
      using Cons.IH by (metis mod_add_right_eq)
    with False Cons.IH show ?thesis by (simp add: pieces_under_def add.assoc)
  qed
qed (simp add: pieces_under_def)

definition distinct_pieces :: "raw_item list \<Rightarrow> bool" where
  "distinct_pieces items \<longleftrightarrow> distinct (map (\<lambda>i. (ri_name i, ri_rank i)) items)"

lemma add_piece_keys:
  "(\<lambda>i. (ri_name i, ri_rank i)) ` set (add_piece items item)
     = insert (ri_name item, ri_rank item) ((\<lambda>i. (ri_name i, ri_rank i)) ` set items)"
  by (induction items) (auto simp: same_piece_def)

lemma add_piece_distinct: "distinct_pieces items \<Longrightarrow> distinct_pieces (add_piece items item)"
  by (induction items) (auto simp: distinct_pieces_def same_piece_def add_piece_keys)

text \<open>
  One side of a dialog lists every item and rank once, with the sum of its lines: no line is
  lost and none counts twice (the sum is that of \<open>i64\<close>, modulo \<open>2 ^ 64\<close>).
\<close>

theorem dialog_lines_add_up:
  "distinct_pieces (parse_pieces side)
   \<and> pieces_under name rank (parse_pieces side) mod 2 ^ 64
       = pieces_under name rank (map parse_line (pieces_of side)) mod 2 ^ 64"
proof -
  have "distinct_pieces (foldl add_piece acc items)
     \<and> pieces_under name rank (foldl add_piece acc items) mod 2 ^ 64
         = (pieces_under name rank acc + pieces_under name rank items) mod 2 ^ 64"
    if "distinct_pieces acc" for acc items
    using that
  proof (induction items arbitrary: acc)
    case (Cons i items)
    from Cons.IH[OF add_piece_distinct[OF Cons.prems]] show ?case
      using mod_add_shift[OF add_piece_total[of name rank acc i], of "pieces_under name rank items"]
      by (auto simp: pieces_under_def add.assoc)
  qed (simp add: pieces_under_def)
  from this[of "[]" "map parse_line (pieces_of side)"] show ?thesis
    by (simp add: parse_pieces_def pieces_under_def distinct_pieces_def)
qed

end
