(* ===== verification/Log_Scanner.thy ===== *)
theory Log_Scanner
  imports Log_Parser
begin

text \<open>
  Finding the trades in EE.log (\<open>qf_log_parser/src/scanner.rs\<close>): a state machine that is fed bytes
  in chunks of any size, acts on complete markers only and keeps what a later chunk may complete.
\<close>

section \<open>The scanner\<close>

definition KEEP_TAIL :: nat where
  "KEEP_TAIL = 64 * 1024"

record scan_pending =
  sp_ee_timestamp :: string
  sp_dialog :: string

record scanner =
  sc_buf :: string
  sc_pending :: "scan_pending option"

record trade_event =
  te_event_id :: string
  te_trade :: raw_trade

definition new_scanner :: scanner where
  "new_scanner = \<lparr>sc_buf = [], sc_pending = None\<rparr>"

definition reset_scanner :: "scanner \<Rightarrow> scanner" where
  "reset_scanner sc = sc\<lparr>sc_buf := [], sc_pending := None\<rparr>"

definition find_marker :: "string \<Rightarrow> string \<Rightarrow> nat \<Rightarrow> nat option" where
  "find_marker haystack needle from =
     (if length haystack < from \<or> needle = [] then None
      else map_option (\<lambda>p. p + from) (find_sub needle (drop from haystack)))"

text \<open>\<open>rposition\<close> of the newline before \<open>i\<close>.\<close>

fun rposition :: "('a \<Rightarrow> bool) \<Rightarrow> 'a list \<Rightarrow> nat option" where
  "rposition P [] = None"
| "rposition P (x # xs) =
     (case rposition P xs of Some i \<Rightarrow> Some (Suc i) | None \<Rightarrow> if P x then Some 0 else None)"

definition line_start :: "string \<Rightarrow> nat \<Rightarrow> nat" where
  "line_start buf i = (case rposition (\<lambda>b. b = newline) (take i buf) of None \<Rightarrow> 0 | Some p \<Rightarrow> p + 1)"

definition timestamp_of :: "string \<Rightarrow> string" where
  "timestamp_of line = first_word (drop_spaces space_width (utf8_lossy line))"

definition keep_tail_from_line_start :: "string \<Rightarrow> string" where
  "keep_tail_from_line_start buf =
     (let keep = min (line_start buf (length buf)) (length buf);
          keep = (if KEEP_TAIL < length buf - keep then length buf - KEEP_TAIL else keep)
      in drop keep buf)"

datatype scan_kind = KSuccess | KDiscard | KRestart

definition result_markers :: "(string \<times> scan_kind) list" where
  "result_markers =
     [(SUCCESS, KSuccess), (FAILED, KDiscard), (CANCELLED, KDiscard), (ACCEPT_FAILED, KDiscard), (START, KRestart)]"

text \<open>\<open>min_by_key\<close> keeps the first of equal positions.\<close>

fun min_by_pos :: "(nat \<times> 'a) list \<Rightarrow> (nat \<times> 'a) option" where
  "min_by_pos [] = None"
| "min_by_pos (x # xs) =
     (case min_by_pos xs of None \<Rightarrow> Some x | Some y \<Rightarrow> if fst y < fst x then Some y else Some x)"

definition candidates :: "string \<Rightarrow> (nat \<times> scan_kind \<times> nat) list" where
  "candidates buf =
     List.map_filter (\<lambda>(m, kind). map_option (\<lambda>p. (p, kind, length m)) (find_marker buf m 0)) result_markers"

text \<open>One turn of the loop: it waits for more bytes with the buffer it keeps, or goes on with the
  events it pushed, the pending dialog and the rest of the buffer.\<close>

datatype scan_turn = Wait string | GoOn "trade_event list" "scan_pending option" string

definition scan_turn :: "(string \<Rightarrow> string) \<Rightarrow> scan_pending option \<Rightarrow> string \<Rightarrow> scan_turn" where
  "scan_turn sha pending buf =
     (case pending of
        None \<Rightarrow>
          (case find_marker buf START 0 of
             None \<Rightarrow> Wait (keep_tail_from_line_start buf)
           | Some start \<Rightarrow>
               (let dialog_from = start + length START
                in case find_marker buf END_MARKER dialog_from of
                     None \<Rightarrow> Wait (drop (line_start buf start) buf)
                   | Some fin \<Rightarrow>
                       (let ls = line_start buf start
                        in GoOn []
                             (Some \<lparr>sp_ee_timestamp = timestamp_of (take (start - ls) (drop ls buf)),
                                    sp_dialog = utf8_lossy (take (fin - dialog_from) (drop dialog_from buf))\<rparr>)
                             (drop (fin + length END_MARKER) buf))))
      | Some p \<Rightarrow>
          (case min_by_pos (candidates buf) of
             None \<Rightarrow> Wait (keep_tail_from_line_start buf)
           | Some (pos, kind, len) \<Rightarrow>
               (case kind of
                  KSuccess \<Rightarrow>
                    GoOn [\<lparr>te_event_id = event_id sha (sp_ee_timestamp p) (sp_dialog p),
                           te_trade = parse_dialog (sp_ee_timestamp p) (sp_dialog p)\<rparr>]
                      None (drop (pos + len) buf)
                | KDiscard \<Rightarrow> GoOn [] None (drop (pos + len) buf)
                | KRestart \<Rightarrow> GoOn [] None buf)))"


section \<open>Where a marker occurs\<close>

definition occurs :: "'a list \<Rightarrow> 'a list \<Rightarrow> nat \<Rightarrow> bool" where
  "occurs m s i \<longleftrightarrow> i + length m \<le> length s \<and> take (length m) (drop i s) = m"

lemma occurs_iff: "occurs m s i \<longleftrightarrow> (\<exists>a b. s = a @ m @ b \<and> length a = i)"
proof
  assume "occurs m s i"
  then have "s = take i s @ m @ drop (i + length m) s" "length (take i s) = i"
    by (auto simp: occurs_def) (metis add.commute append_take_drop_id drop_drop)
  then show "\<exists>a b. s = a @ m @ b \<and> length a = i" by blast
qed (auto simp: occurs_def)

lemma starts_with_take: "starts_with s p \<longleftrightarrow> length p \<le> length s \<and> take (length p) s = p"
  by (metis append_eq_conv_conj append_take_drop_id nat_le_linear starts_with_iff starts_with_length take_all_iff)

lemma occurs_starts: "i \<le> length s \<Longrightarrow> occurs m s i \<longleftrightarrow> starts_with (drop i s) m"
  by (auto simp: occurs_def starts_with_take)

lemma occurs_append: "occurs m s i \<Longrightarrow> occurs m (s @ t) i"
  by (auto simp: occurs_def)

lemma occurs_append_back: "occurs m (s @ t) i \<Longrightarrow> i + length m \<le> length s \<Longrightarrow> occurs m s i"
  by (auto simp: occurs_def)

lemma occurs_drop: "k \<le> length s \<Longrightarrow> occurs m (drop k s) i \<longleftrightarrow> occurs m s (k + i)"
  by (auto simp: occurs_def add.commute)

lemma occurs_Cons: "occurs m (c # s) (Suc i) \<longleftrightarrow> occurs m s i"
  by (simp add: occurs_def)

lemma all_nat_Suc: "(\<forall>n. P n) \<longleftrightarrow> P 0 \<and> (\<forall>n. P (Suc n))"
  by (metis not0_implies_Suc)

lemma occurs_0: "occurs m s 0 \<longleftrightarrow> starts_with s m"
  by (simp add: occurs_starts)

lemma find_sub_None: "find_sub m s = None \<longleftrightarrow> (\<forall>j. \<not> occurs m s j)"
proof (induction s)
  case Nil
  then show ?case by (auto simp: occurs_def)
next
  case (Cons c s)
  then show ?case by (simp add: all_nat_Suc[of "\<lambda>j. \<not> occurs m (c # s) j"] occurs_Cons occurs_0)
qed

lemma find_sub_Some: "find_sub m s = Some i \<longleftrightarrow> occurs m s i \<and> (\<forall>j<i. \<not> occurs m s j)"
proof (induction s arbitrary: i)
  case Nil
  then show ?case by (auto simp: occurs_def)
next
  case (Cons c s)
  then show ?case
    by (cases i) (auto simp: occurs_Cons occurs_0 All_less_Suc2)
qed

lemma find_marker_Some:
  "find_marker s m k = Some i \<longleftrightarrow> k \<le> length s \<and> m \<noteq> [] \<and> k \<le> i \<and> occurs m s i \<and> (\<forall>j. k \<le> j \<and> j < i \<longrightarrow> \<not> occurs m s j)"
proof (cases "length s < k \<or> m = []")
  case False
  then have f: "find_marker s m k = Some i \<longleftrightarrow> (\<exists>j. i = j + k \<and> find_sub m (drop k s) = Some j)"
    by (auto simp: find_marker_def)
  show ?thesis
  proof
    assume "find_marker s m k = Some i"
    with f False show "k \<le> length s \<and> m \<noteq> [] \<and> k \<le> i \<and> occurs m s i \<and> (\<forall>j. k \<le> j \<and> j < i \<longrightarrow> \<not> occurs m s j)"
      by (auto simp: find_sub_Some occurs_drop add.commute) (metis le_Suc_ex nat_add_left_cancel_less add.commute)
  next
    assume "k \<le> length s \<and> m \<noteq> [] \<and> k \<le> i \<and> occurs m s i \<and> (\<forall>j. k \<le> j \<and> j < i \<longrightarrow> \<not> occurs m s j)"
    with f False show "find_marker s m k = Some i"
      by (auto simp: find_sub_Some occurs_drop intro!: exI[of _ "i - k"])
  qed
qed (auto simp: find_marker_def)

lemma find_marker_None:
  "find_marker s m k = None \<longleftrightarrow> length s < k \<or> m = [] \<or> (\<forall>j\<ge>k. \<not> occurs m s j)"
  by (auto simp: find_marker_def find_sub_None occurs_drop) (metis le_Suc_ex)

text \<open>No marker stands inside another one, and none runs over the end of a line.\<close>

definition apart :: "string set \<Rightarrow> bool" where
  "apart M \<longleftrightarrow> (\<forall>m\<in>M. m \<noteq> [] \<and> newline \<notin> set m \<and> (\<forall>n\<in>M. n \<noteq> m \<longrightarrow> \<not> str_contains n m))"

definition result_texts :: "string set" where
  "result_texts = {SUCCESS, FAILED, CANCELLED, ACCEPT_FAILED, START}"

lemma apart_results: "apart result_texts"
  by (simp add: apart_def result_texts_def SUCCESS_def FAILED_def CANCELLED_def ACCEPT_FAILED_def START_def newline_def)

lemma apart_start: "apart {START}"
  by (simp add: apart_def START_def newline_def)

text \<open>The first position at which one of the markers stands, and that marker.\<close>

definition hit :: "string set \<Rightarrow> string \<Rightarrow> nat \<Rightarrow> string \<Rightarrow> bool" where
  "hit M s i m \<longleftrightarrow> m \<in> M \<and> occurs m s i \<and> (\<forall>j<i. \<forall>n\<in>M. \<not> occurs n s j)"

definition quiet :: "string set \<Rightarrow> string \<Rightarrow> bool" where
  "quiet M s \<longleftrightarrow> (\<forall>n\<in>M. \<forall>j. \<not> occurs n s j)"

lemma nested_contains:
  assumes "occurs m s i" "occurs n s j" "j \<le> i" "i + length m \<le> j + length n"
  shows "str_contains n m"
proof -
  have "take (length m) (drop (i - j) n) = m" 
  proof -
    have "take (length m) (drop (i - j) (take (length n) (drop j s))) = take (length m) (drop i s)"
      using assms(3,4) by (simp add: drop_take)
    with assms(1,2) show ?thesis by (simp add: occurs_def)
  qed
  then show ?thesis by (metis append_take_drop_id str_contains_iff)
qed

lemma hit_append:
  assumes "apart M" "hit M s i m"
  shows "hit M (s @ t) i m"
proof -
  have "\<not> occurs n (s @ t) j" if "j < i" "n \<in> M" for n j
  proof
    assume o: "occurs n (s @ t) j"
    with assms(2) that have "\<not> j + length n \<le> length s" by (auto simp: hit_def dest: occurs_append_back)
    moreover have "i + length m \<le> length s" using assms(2) by (simp add: hit_def occurs_def)
    ultimately have le: "i + length m \<le> j + length n" by simp
    have m: "occurs m (s @ t) i" using assms(2) by (simp add: hit_def occurs_append)
    have "str_contains n m" using nested_contains[OF m o _ le] that by simp
    moreover have "n \<noteq> m" using le that by auto
    ultimately show False using assms that by (auto simp: apart_def hit_def)
  qed
  with assms(2) show ?thesis by (auto simp: hit_def occurs_append)
qed

lemma hit_unique: "apart M \<Longrightarrow> hit M s i m \<Longrightarrow> hit M s j n \<Longrightarrow> i = j \<and> m = n"
proof -
  assume a: "apart M" "hit M s i m" "hit M s j n"
  have ij: "i = j" using a(2,3) by (meson hit_def linorder_neqE_nat)
  have "occurs m s i" "occurs n s i" using a ij by (simp_all add: hit_def)
  then have "str_contains n m \<or> str_contains m n"
    using nested_contains[of m s i n i] nested_contains[of n s i m i] nat_le_linear[of "length m" "length n"] by auto
  with a ij show ?thesis by (auto simp: apart_def hit_def)
qed

text \<open>A cut right after a newline goes through no marker.\<close>

definition line_cut :: "string \<Rightarrow> nat \<Rightarrow> bool" where
  "line_cut s k \<longleftrightarrow> k \<le> length s \<and> (k = 0 \<or> s ! (k - 1) = newline)"

lemma line_cut_append: "line_cut s k \<Longrightarrow> line_cut (s @ t) k"
  by (auto simp: line_cut_def nth_append)

lemma occurs_before_cut:
  assumes "apart M" "n \<in> M" "line_cut s k" "occurs n s j" "j < k"
  shows "j + length n \<le> k - 1"
proof (rule ccontr)
  assume c: "\<not> j + length n \<le> k - 1"
  have lt: "k - 1 - j < length n" using c assms(5) by simp
  have "n ! (k - 1 - j) = drop j s ! (k - 1 - j)" using assms(4) lt by (metis nth_take occurs_def)
  also have "\<dots> = s ! (k - 1)" using assms(4,5) by (simp add: occurs_def)
  also have "\<dots> = newline" using assms(3,5) by (simp add: line_cut_def)
  finally have "newline \<in> set n" using lt by (metis nth_mem)
  with assms show False by (auto simp: apart_def)
qed

lemma quiet_before_cut:
  assumes "apart M" "quiet M s" "line_cut s k" "n \<in> M" "j < k"
  shows "\<not> occurs n (s @ t) j"
proof
  assume o: "occurs n (s @ t) j"
  have "j + length n \<le> k - 1"
    using occurs_before_cut[OF assms(1,4) line_cut_append[OF assms(3)] o assms(5)] .
  with o assms show False by (auto simp: quiet_def line_cut_def dest!: occurs_append_back)
qed

lemma hit_resume:
  assumes "apart M" "quiet M s" "line_cut s k"
  shows "hit M (s @ t) i m \<longleftrightarrow> k \<le> i \<and> hit M (drop k s @ t) (i - k) m"
proof -
  have k: "k \<le> length s" "drop k s @ t = drop k (s @ t)" using assms(3) by (auto simp: line_cut_def)
  have o: "occurs n (drop k s @ t) j \<longleftrightarrow> occurs n (s @ t) (k + j)" for n j
    unfolding k(2) by (rule occurs_drop) (use k in simp)
  note before = quiet_before_cut[OF assms]
  show ?thesis
  proof
    assume h: "hit M (s @ t) i m"
    then have "k \<le> i" using before by (auto simp: hit_def not_less[symmetric])
    with h show "k \<le> i \<and> hit M (drop k s @ t) (i - k) m" by (auto simp: hit_def o)
  next
    assume h: "k \<le> i \<and> hit M (drop k s @ t) (i - k) m"
    have "\<not> occurs n (s @ t) j" if "j < i" "n \<in> M" for n j
    proof (cases "j < k")
      case False
      with h that show ?thesis unfolding hit_def o by (metis add_diff_inverse_nat diff_less_mono not_less)
    qed (use before that in blast)
    with h show "hit M (s @ t) i m" by (auto simp: hit_def o)
  qed
qed

lemma quiet_resume:
  assumes "apart M" "quiet M s" "line_cut s k"
  shows "quiet M (s @ t) \<longleftrightarrow> quiet M (drop k s @ t)"
proof -
  have k: "k \<le> length s" "drop k s @ t = drop k (s @ t)" using assms(3) by (auto simp: line_cut_def)
  have o: "occurs n (drop k s @ t) j \<longleftrightarrow> occurs n (s @ t) (k + j)" for n j
    unfolding k(2) by (rule occurs_drop) (use k in simp)
  show ?thesis
    unfolding quiet_def o
    by (metis quiet_before_cut[OF assms] add_diff_inverse_nat)
qed

lemma find_marker_hit: "m \<noteq> [] \<Longrightarrow> find_marker s m 0 = Some i \<longleftrightarrow> hit {m} s i m"
  by (auto simp: find_marker_Some hit_def)

lemma find_marker_quiet: "m \<noteq> [] \<Longrightarrow> find_marker s m 0 = None \<longleftrightarrow> quiet {m} s"
  by (auto simp: find_marker_None quiet_def)

section \<open>The first result marker\<close>

lemma min_by_pos_None: "min_by_pos xs = None \<longleftrightarrow> xs = []"
  by (cases xs) (auto split: option.splits)

lemma min_by_pos_Some: "min_by_pos xs = Some x \<Longrightarrow> x \<in> set xs \<and> (\<forall>y\<in>set xs. fst x \<le> fst y)"
  by (induction xs arbitrary: x) (fastforce simp: min_by_pos_None split: option.splits if_splits)+

lemma markers_nonempty: "(m, k) \<in> set result_markers \<Longrightarrow> m \<noteq> []"
  by (auto simp: result_markers_def SUCCESS_def FAILED_def CANCELLED_def ACCEPT_FAILED_def START_def)

lemma set_candidates:
  "(p, kind, len) \<in> set (candidates s) \<longleftrightarrow>
     (\<exists>m. (m, kind) \<in> set result_markers \<and> len = length m \<and> find_marker s m 0 = Some p)"
  by (force simp: candidates_def List.map_filter_def)

lemma candidates_empty: "candidates s = [] \<longleftrightarrow> quiet result_texts s"
proof -
  have "candidates s = [] \<longleftrightarrow> (\<forall>(m, k)\<in>set result_markers. find_marker s m 0 = None)"
    by (auto simp: candidates_def List.map_filter_def filter_empty_conv)
  also have "\<dots> \<longleftrightarrow> (\<forall>(m, k)\<in>set result_markers. quiet {m} s)"
    using find_marker_quiet markers_nonempty by blast
  also have "\<dots> \<longleftrightarrow> quiet result_texts s"
    by (auto simp: quiet_def result_texts_def result_markers_def)
  finally show ?thesis .
qed

definition kind_of :: "string \<Rightarrow> scan_kind" where
  "kind_of m = (if m = SUCCESS then KSuccess else if m = START then KRestart else KDiscard)"

lemma kind_of_markers: "(m, k) \<in> set result_markers \<longleftrightarrow> m \<in> result_texts \<and> k = kind_of m"
  by (auto simp: result_markers_def result_texts_def kind_of_def SUCCESS_def FAILED_def CANCELLED_def
    ACCEPT_FAILED_def START_def)

lemma first_candidate:
  "min_by_pos (candidates s) = Some (p, kind, len) \<longleftrightarrow>
     (\<exists>m. hit result_texts s p m \<and> kind = kind_of m \<and> len = length m)"
proof -
  have to: "\<exists>m. hit result_texts s p m \<and> kind = kind_of m \<and> len = length m"
    if h: "min_by_pos (candidates s) = Some (p, kind, len)" for p kind len
  proof -
    have "(p, kind, len) \<in> set (candidates s)" using min_by_pos_Some[OF h] by blast
    then obtain m where m: "m \<in> result_texts" "kind = kind_of m" "len = length m" "find_marker s m 0 = Some p"
      by (auto simp: set_candidates kind_of_markers)
    have "\<not> occurs n s j" if "j < p" "n \<in> result_texts" for n j
    proof
      assume "occurs n s j"
      then have "find_marker s n 0 \<noteq> None"
        using apart_results that by (auto simp: find_marker_None apart_def)
      then obtain q where q: "find_marker s n 0 = Some q" by blast
      with \<open>occurs n s j\<close> have "q \<le> j" by (meson find_marker_Some le0 not_le)
      have "(q, kind_of n, length n) \<in> set (candidates s)"
        using q that by (auto simp: set_candidates kind_of_markers)
      with min_by_pos_Some[OF h] \<open>q \<le> j\<close> that show False by force
    qed
    with m show ?thesis by (auto simp: hit_def find_marker_Some)
  qed
  have "min_by_pos (candidates s) = Some (p, kind_of m, length m)" if h: "hit result_texts s p m" for m
  proof -
    have "candidates s \<noteq> []" using h by (auto simp: candidates_empty quiet_def hit_def)
    then obtain q k l where q: "min_by_pos (candidates s) = Some (q, k, l)"
      by (metis min_by_pos_None not_Some_eq prod_cases3)
    with to[OF q] h hit_unique[OF apart_results] show ?thesis by blast
  qed
  with to show ?thesis by blast
qed

section \<open>Line starts\<close>

lemma rposition_None: "rposition P xs = None \<longleftrightarrow> (\<forall>j<length xs. \<not> P (xs ! j))"
  by (induction xs) (auto simp: All_less_Suc2 split: option.splits)

lemma rposition_Some:
  "rposition P xs = Some i \<Longrightarrow> i < length xs \<and> P (xs ! i) \<and> (\<forall>j. i < j \<and> j < length xs \<longrightarrow> \<not> P (xs ! j))"
proof (induction xs arbitrary: i)
  case (Cons x xs)
  show ?case
  proof (cases "rposition P xs")
    case None
    with Cons.prems have "i = 0" "P x" by (auto split: if_splits)
    moreover have "\<not> P ((x # xs) ! j)" if "0 < j" "j < length (x # xs)" for j
      using None that by (cases j) (auto simp: rposition_None)
    ultimately show ?thesis by simp
  next
    case (Some q)
    with Cons.prems have "i = Suc q" by simp
    moreover have "\<not> P ((x # xs) ! j)" if "Suc q < j" "j < length (x # xs)" for j
      using Cons.IH[OF Some] that by (cases j) auto
    ultimately show ?thesis using Cons.IH[OF Some] by simp
  qed
qed simp

lemma line_start_props:
  assumes "i \<le> length s"
  shows "line_start s i \<le> i \<and> line_cut s (line_start s i) \<and> (\<forall>j. line_start s i \<le> j \<and> j < i \<longrightarrow> s ! j \<noteq> newline)"
proof (cases "rposition (\<lambda>b. b = newline) (take i s)")
  case None
  then have "line_start s i = 0" by (simp add: line_start_def)
  then show ?thesis using None assms by (simp add: rposition_None line_cut_def)
next
  case (Some p)
  then show ?thesis using assms rposition_Some[OF Some] by (auto simp: line_start_def line_cut_def Suc_le_eq)
qed

lemma line_start_unique:
  assumes "i \<le> length s" "k \<le> i" "line_cut s k" "\<forall>j. k \<le> j \<and> j < i \<longrightarrow> s ! j \<noteq> newline"
  shows "line_start s i = k"
proof (rule linorder_cases)
  let ?l = "line_start s i"
  note l = line_start_props[OF assms(1)]
  assume "?l < k"
  then have "?l \<le> k - 1 \<and> k - 1 < i" using assms(2) by arith
  with l have "s ! (k - 1) \<noteq> newline" by blast
  with \<open>?l < k\<close> assms(3) show ?thesis by (simp add: line_cut_def)
next
  let ?l = "line_start s i"
  note l = line_start_props[OF assms(1)]
  assume "k < ?l"
  then have "k \<le> ?l - 1 \<and> ?l - 1 < i" using l by arith
  with assms(4) have "s ! (?l - 1) \<noteq> newline" by blast
  with \<open>k < ?l\<close> l show ?thesis by (simp add: line_cut_def)
qed

lemma line_start_append: "i \<le> length s \<Longrightarrow> line_start (s @ t) i = line_start s i"
  by (simp add: line_start_def)

lemma line_start_shift:
  assumes "line_cut w k" "k \<le> i" "i \<le> length w"
  shows "line_start w i = k + line_start (drop k w) (i - k)"
proof (rule line_start_unique[OF assms(3)])
  let ?l = "line_start (drop k w) (i - k)"
  have l: "?l \<le> i - k \<and> line_cut (drop k w) ?l \<and> (\<forall>j. ?l \<le> j \<and> j < i - k \<longrightarrow> drop k w ! j \<noteq> newline)"
    by (rule line_start_props) (use assms in simp)
  then show "k + ?l \<le> i" using assms(2) by arith
  show "line_cut w (k + ?l)"
    using l assms by (cases ?l) (auto simp: line_cut_def)
  show "\<forall>j. k + ?l \<le> j \<and> j < i \<longrightarrow> w ! j \<noteq> newline"
  proof (intro allI impI)
    fix j assume j: "k + ?l \<le> j \<and> j < i"
    then have "?l \<le> j - k \<and> j - k < i - k" by arith
    with l have "drop k w ! (j - k) \<noteq> newline" by blast
    with j assms show "w ! j \<noteq> newline" by simp
  qed
qed

section \<open>The loop\<close>

lemma start_length: "0 < length START"
  by (simp add: START_def)

lemma turn_shrinks:
  assumes "scan_turn sha p s = GoOn evs p' r"
  shows "2 * length r + (if p' = None then 0 else 1) < 2 * length s + (if p = None then 0 else 1)"
proof (cases p)
  case None
  with assms obtain i j where h: "find_marker s START 0 = Some i"
      "find_marker s END_MARKER (i + length START) = Some j" "r = drop (j + length END_MARKER) s"
    by (auto simp: scan_turn_def Let_def split: option.splits)
  have "i + length START \<le> j" "j + length END_MARKER \<le> length s"
    using h(2) by (auto simp: find_marker_Some occurs_def)
  with start_length have "i < j" "j + length END_MARKER \<le> length s" by linarith+
  with h(3) have "length r < length s" by simp
  with None show ?thesis by simp
next
  case (Some q)
  with assms obtain i k l where h: "min_by_pos (candidates s) = Some (i, k, l)"
      "r = (if k = KRestart then s else drop (i + l) s)" "p' = None"
    by (auto simp: scan_turn_def split: option.splits scan_kind.splits)
  with Some show ?thesis by (cases "k = KRestart") auto
qed

function feed_loop ::
  "(string \<Rightarrow> string) \<Rightarrow> scan_pending option \<Rightarrow> string \<Rightarrow> trade_event list \<times> scan_pending option \<times> string" where
  "feed_loop sha pending buf =
     (case scan_turn sha pending buf of
        Wait kept \<Rightarrow> ([], pending, kept)
      | GoOn evs pending' rest \<Rightarrow> (let (more, final) = feed_loop sha pending' rest in (evs @ more, final)))"
  by pat_completeness auto
termination
proof (relation "measure (\<lambda>(_, p, s). 2 * length s + (if p = None then 0 else 1))")
  fix sha pending buf evs pending' rest
  assume "scan_turn sha pending buf = GoOn evs pending' rest"
  from turn_shrinks[OF this]
  show "((sha, pending', rest), sha, pending, buf)
    \<in> measure (\<lambda>(_, p, s). 2 * length s + (if p = None then 0 else 1))" by simp
qed simp

declare feed_loop.simps [simp del]

definition feed :: "(string \<Rightarrow> string) \<Rightarrow> scanner \<Rightarrow> string \<Rightarrow> trade_event list \<times> scanner" where
  "feed sha sc chunk =
     (let (evs, pending, buf) = feed_loop sha (sc_pending sc) (sc_buf sc @ chunk)
      in (evs, \<lparr>sc_buf = buf, sc_pending = pending\<rparr>))"

definition scan_all :: "(string \<Rightarrow> string) \<Rightarrow> string \<Rightarrow> trade_event list" where
  "scan_all sha bytes = fst (feed sha new_scanner bytes)"

lemma feed_loop_Wait: "scan_turn sha p s = Wait r \<Longrightarrow> feed_loop sha p s = ([], p, r)"
  by (simp add: feed_loop.simps[of sha p s])

lemma feed_loop_GoOn:
  "scan_turn sha p s = GoOn evs p' r \<Longrightarrow>
   feed_loop sha p s = (evs @ fst (feed_loop sha p' r), snd (feed_loop sha p' r))"
  by (simp add: feed_loop.simps[of sha p s] split_beta)

lemma find_marker_append: "find_marker s m k = Some i \<Longrightarrow> find_marker (s @ t) m k = Some i"
  by (auto simp: find_marker_Some occurs_append dest!: occurs_append_back) (simp add: occurs_def)

lemma turn_append:
  assumes "scan_turn sha p s = GoOn evs p' r"
  shows "scan_turn sha p (s @ t) = GoOn evs p' (r @ t)"
proof (cases p)
  case None
  with assms obtain i j where h: "find_marker s START 0 = Some i"
      "find_marker s END_MARKER (i + length START) = Some j"
    by (auto simp: scan_turn_def Let_def split: option.splits)
  have "i + length START \<le> j" "j + length END_MARKER \<le> length s"
    using h(2) by (auto simp: find_marker_Some occurs_def)
  moreover from this have "i \<le> length s" "line_start s i \<le> length s"
    using line_start_props[of i s] by auto
  ultimately show ?thesis
    using None assms by (simp add: scan_turn_def h h[THEN find_marker_append] line_start_append Let_def)
next
  case (Some q)
  with assms obtain i k l where c: "min_by_pos (candidates s) = Some (i, k, l)"
    by (auto simp: scan_turn_def split: option.splits)
  then obtain m where m: "hit result_texts s i m" "k = kind_of m" "l = length m"
    by (auto simp: first_candidate)
  have "i + l \<le> length s" using m by (auto simp: hit_def occurs_def)
  moreover have "min_by_pos (candidates (s @ t)) = Some (i, k, l)"
    using hit_append[OF apart_results m(1)] m by (auto simp: first_candidate)
  ultimately show ?thesis
    using Some assms c by (auto simp: scan_turn_def split: scan_kind.splits)
qed

section \<open>Chunks of any size\<close>

text \<open>The length of the longest line of a text, \<open>n\<close> bytes of the first one already counted.\<close>

fun longest_line :: "nat \<Rightarrow> string \<Rightarrow> nat" where
  "longest_line n [] = n"
| "longest_line n (c # s) = (if c = newline then max n (longest_line 0 s) else longest_line (Suc n) s)"

lemma longest_line_ge: "n \<le> longest_line n s"
  by (induction s arbitrary: n) (auto intro: Suc_leD)

lemma longest_line_prefix: "newline \<notin> set b \<Longrightarrow> n + length b \<le> longest_line n (b @ c)"
proof (induction b arbitrary: n)
  case (Cons x b)
  then show ?case using Cons.IH[of "Suc n"] by auto
qed (simp add: longest_line_ge)

lemma longest_line_infix: "newline \<notin> set b \<Longrightarrow> length b \<le> longest_line n (a @ b @ c)"
proof (induction a arbitrary: n)
  case Nil
  then show ?case using longest_line_prefix[of b n c] by simp
qed (auto simp: le_max_iff_disj)

lemma keep_tail_short:
  assumes "longest_line 0 (a @ s @ t) \<le> KEEP_TAIL"
  shows "keep_tail_from_line_start s = drop (line_start s (length s)) s"
proof -
  let ?k = "line_start s (length s)"
  have k: "?k \<le> length s \<and> line_cut s ?k \<and> (\<forall>j. ?k \<le> j \<and> j < length s \<longrightarrow> s ! j \<noteq> newline)"
    by (rule line_start_props) simp
  have "newline \<notin> set (drop ?k s)"
  proof
    assume "newline \<in> set (drop ?k s)"
    then obtain j where "j < length (drop ?k s)" "drop ?k s ! j = newline" by (meson in_set_conv_nth)
    with k show False by (metis add.commute le_add1 length_drop less_diff_conv nth_drop)
  qed
  then have "length (drop ?k s) \<le> longest_line 0 ((a @ take ?k s) @ drop ?k s @ t)"
    by (rule longest_line_infix)
  also have "(a @ take ?k s) @ drop ?k s @ t = a @ s @ t" by simp
  finally have "length s - ?k \<le> KEEP_TAIL" using assms by simp
  with k show ?thesis by (simp add: keep_tail_from_line_start_def Let_def)
qed

lemma find_marker_drop:
  "k \<le> length w \<Longrightarrow> find_marker w m (k + j) = map_option (\<lambda>i. k + i) (find_marker (drop k w) m j)"
  by (auto simp: find_marker_def option.map_comp comp_def add.commute add.left_commute)

text \<open>Cutting before the line of the first \<open>START\<close> changes nothing.\<close>

lemma turn_drop:
  assumes "line_cut w k" "hit {START} w i START" "k \<le> i"
  shows "scan_turn sha None w = scan_turn sha None (drop k w)"
proof -
  have k: "k \<le> length w" using assms(1) by (simp add: line_cut_def)
  have i: "find_marker w START 0 = Some i"
    using assms(2) start_length by (simp add: find_marker_hit)
  have "hit {START} (drop k w) (i - k) START"
    using assms(2,3) k by (auto simp: hit_def occurs_drop)
  then have ik: "find_marker (drop k w) START 0 = Some (i - k)"
    using start_length by (simp add: find_marker_hit)
  have len: "i + length START \<le> length w" using assms(2) by (auto simp: hit_def occurs_def)
  have ls: "line_start w i = k + line_start (drop k w) (i - k)"
    using line_start_shift[OF assms(1,3)] len by simp
  have fin: "find_marker w END_MARKER (i + length START)
      = map_option (\<lambda>j. k + j) (find_marker (drop k w) END_MARKER (i - k + length START))"
    using find_marker_drop[OF k, of END_MARKER "i - k + length START"] assms(3) by simp
  show ?thesis
  proof (cases "find_marker (drop k w) END_MARKER (i - k + length START)")
    case None
    then show ?thesis using fin i ik ls by (simp add: scan_turn_def add.commute)
  next
    case (Some j)
    let ?l = "line_start (drop k w) (i - k)"
    have "k + (i - k) = i" "i + length START = k + (i - k + length START)" "i - line_start w i = i - k - ?l"
      using assms(3) ls by simp_all
    moreover have "k + j - (k + (i - k + length START)) = j - (i - k + length START)" by simp
    moreover have "drop (k + n) w = drop n (drop k w)" for n by (simp add: add.commute)
    moreover have "k + j + length END_MARKER = k + (j + length END_MARKER)" by simp
    ultimately show ?thesis
      using Some fin by (simp only: scan_turn_def Let_def i ik ls option.case option.map add_diff_cancel_left)
  qed
qed

lemma keep_tail_resume:
  assumes "longest_line 0 w \<le> KEEP_TAIL" "line_cut w k"
  shows "keep_tail_from_line_start w = keep_tail_from_line_start (drop k w)"
proof -
  have k: "k \<le> length w" using assms(2) by (simp add: line_cut_def)
  have "keep_tail_from_line_start w = drop (line_start w (length w)) w"
    by (rule keep_tail_short[of "[]" w "[]"]) (use assms(1) in simp)
  moreover have "keep_tail_from_line_start (drop k w) = drop (line_start (drop k w) (length (drop k w))) (drop k w)"
    by (rule keep_tail_short[of "take k w" "drop k w" "[]"]) (use assms(1) in simp)
  moreover have "line_start w (length w) = k + line_start (drop k w) (length (drop k w))"
    using line_start_shift[OF assms(2) k] by simp
  ultimately show ?thesis by (simp add: add.commute)
qed

lemma loop_cong: "scan_turn sha p s = scan_turn sha p s' \<Longrightarrow> feed_loop sha p s = feed_loop sha p s'"
  by (simp add: feed_loop.simps[of sha p s] feed_loop.simps[of sha p s'])

text \<open>Nothing is lost by forgetting lines before the last one while no marker has been seen.\<close>

lemma loop_resume_idle:
  assumes "longest_line 0 (s @ t) \<le> KEEP_TAIL" "line_cut s k" "quiet {START} s"
  shows "feed_loop sha None (s @ t) = feed_loop sha None (drop k s @ t)"
proof (rule loop_cong)
  have k: "drop k s @ t = drop k (s @ t)" using assms(2) by (auto simp: line_cut_def)
  have cut: "line_cut (s @ t) k" using assms(2) by (rule line_cut_append)
  show "scan_turn sha None (s @ t) = scan_turn sha None (drop k s @ t)"
  proof (cases "find_marker (s @ t) START 0")
    case None
    then have "quiet {START} (s @ t)" using start_length by (simp add: find_marker_quiet)
    then have "quiet {START} (drop k s @ t)" using quiet_resume[OF apart_start assms(3,2)] by blast
    then have "find_marker (drop k s @ t) START 0 = None" using start_length by (simp add: find_marker_quiet)
    with None show ?thesis using keep_tail_resume[OF assms(1) cut] unfolding k by (simp add: scan_turn_def)
  next
    case (Some i)
    then have h: "hit {START} (s @ t) i START" using start_length by (simp add: find_marker_hit)
    then have "k \<le> i" using hit_resume[OF apart_start assms(3,2)] by blast
    then show ?thesis unfolding k by (rule turn_drop[OF cut h])
  qed
qed

lemma loop_resume_pending:
  assumes "longest_line 0 (s @ t) \<le> KEEP_TAIL" "line_cut s k" "quiet result_texts s"
  shows "feed_loop sha (Some p) (s @ t) = feed_loop sha (Some p) (drop k s @ t)"
proof -
  have k: "drop k s @ t = drop k (s @ t)" using assms(2) by (auto simp: line_cut_def)
  have cut: "line_cut (s @ t) k" using assms(2) by (rule line_cut_append)
  show ?thesis
  proof (cases "min_by_pos (candidates (s @ t))")
    case None
    then have "min_by_pos (candidates (drop k s @ t)) = None"
      using quiet_resume[OF apart_results assms(3,2)] by (simp add: min_by_pos_None candidates_empty)
    with None show ?thesis
      using keep_tail_resume[OF assms(1) cut] unfolding k by (intro loop_cong) (simp add: scan_turn_def)
  next
    case (Some c)
    obtain i kind l where c: "c = (i, kind, l)" by (rule prod_cases3)
    obtain m where m: "hit result_texts (s @ t) i m" "kind = kind_of m" "l = length m"
      using Some c by (auto simp: first_candidate)
    have ki: "k \<le> i" "hit result_texts (drop k s @ t) (i - k) m"
      using m(1) hit_resume[OF apart_results assms(3,2)] by blast+
    have later: "min_by_pos (candidates (drop k s @ t)) = Some (i - k, kind, l)"
      unfolding first_candidate using ki(2) m(2,3) by blast
    show ?thesis
    proof (cases "kind = KRestart")
      case False
      have "drop (i + l) (s @ t) = drop (i - k + l) (drop k (s @ t))" using ki(1) by (simp del: drop_append)
      with False show ?thesis
        using Some c later unfolding k
        by (intro loop_cong) (simp add: scan_turn_def del: drop_append split: scan_kind.splits)
    next
      case True
      then have "m = START" using m(2) by (simp add: kind_of_def split: if_splits)
      with m(1) have "hit {START} (s @ t) i START" by (auto simp: hit_def result_texts_def)
      from turn_drop[OF cut this ki(1)]
      have "feed_loop sha None (s @ t) = feed_loop sha None (drop k s @ t)" unfolding k by (rule loop_cong)
      moreover have "scan_turn sha (Some p) (s @ t) = GoOn [] None (s @ t)"
        and "scan_turn sha (Some p) (drop k s @ t) = GoOn [] None (drop k s @ t)"
        using True Some c later by (simp_all add: scan_turn_def)
      ultimately show ?thesis by (simp add: feed_loop_GoOn)
    qed
  qed
qed

lemma loop_resume:
  assumes "longest_line 0 (s @ t) \<le> KEEP_TAIL" "scan_turn sha p s = Wait r"
  shows "feed_loop sha p (s @ t) = feed_loop sha p (r @ t)"
proof -
  have last_line: "keep_tail_from_line_start s = drop (line_start s (length s)) s"
    using keep_tail_short[of "[]" s t] assms(1) by simp
  have cut: "line_cut s (line_start s i)" if "i \<le> length s" for i
    using line_start_props[OF that] by blast
  show ?thesis
  proof (cases p)
    case None
    show ?thesis
    proof (cases "find_marker s START 0")
      case none: None
      then have "quiet {START} s" using start_length by (simp add: find_marker_quiet)
      from loop_resume_idle[OF assms(1) cut[OF order.refl] this]
      show ?thesis using assms(2) None none last_line by (simp add: scan_turn_def)
    next
      case (Some i)
      then have h: "hit {START} s i START" using start_length by (simp add: find_marker_hit)
      then have i: "i \<le> length s" by (simp add: hit_def occurs_def)
      have r: "r = drop (line_start s i) s"
        using assms(2) None Some by (simp add: scan_turn_def Let_def split: option.splits)
      have "line_start s i \<le> i" "line_start s i \<le> length s" using line_start_props[OF i] i by auto
      then show ?thesis
        using turn_drop[OF line_cut_append[OF cut[OF i]] hit_append[OF apart_start h]] None r
        by (intro loop_cong) simp
    qed
  next
    case (Some pd)
    then have none: "min_by_pos (candidates s) = None"
      using assms(2) by (auto simp: scan_turn_def split: option.splits prod.splits scan_kind.splits)
    then have "quiet result_texts s" by (simp add: min_by_pos_None candidates_empty)
    from loop_resume_pending[OF assms(1) cut[OF order.refl] this]
    show ?thesis using assms(2) Some none last_line by (simp add: scan_turn_def)
  qed
qed

lemma turn_rest: "scan_turn sha p s = GoOn evs p' r \<Longrightarrow> \<exists>k. s = k @ r"
  by (auto simp: scan_turn_def Let_def split: option.splits scan_kind.splits)
    (metis append_take_drop_id append_Nil)+

lemma longest_line_suffix: "longest_line 0 s \<le> longest_line n (a @ s)"
proof (induction a arbitrary: n)
  case Nil
  have "longest_line m s \<le> longest_line n s" if "m \<le> n" for m n
    using that by (induction s arbitrary: m n) auto
  then show ?case by simp
qed (auto simp: le_max_iff_disj)

lemma loop_chunks:
  assumes "longest_line 0 (s @ t) \<le> KEEP_TAIL"
  shows "feed_loop sha p (s @ t) =
    (let (evs, p', r) = feed_loop sha p s; (evs', final) = feed_loop sha p' (r @ t) in (evs @ evs', final))"
  using assms
proof (induction sha p s rule: feed_loop.induct)
  case (1 sha p s)
  show ?case
  proof (cases "scan_turn sha p s")
    case (Wait r)
    then show ?thesis using loop_resume[OF 1(2) Wait] by (simp add: feed_loop_Wait)
  next
    case (GoOn evs p' r)
    obtain k where "s = k @ r" using turn_rest[OF GoOn] by blast
    then have "longest_line 0 (r @ t) \<le> KEEP_TAIL"
      using 1(2) longest_line_suffix[of "r @ t" 0 k] by simp
    note ih = 1(1)[OF GoOn this]
    show ?thesis using ih by (simp add: feed_loop_GoOn[OF GoOn] feed_loop_GoOn[OF turn_append[OF GoOn]] Let_def split_beta)
  qed
qed

lemma feed_chunks:
  assumes "longest_line 0 (sc_buf sc @ s @ t) \<le> KEEP_TAIL"
  shows "feed sha sc (s @ t) = (let (evs, sc') = feed sha sc s; (evs', final) = feed sha sc' t in (evs @ evs', final))"
  using loop_chunks[of "sc_buf sc @ s" t sha "sc_pending sc"] assms
  by (simp add: feed_def Let_def split_beta)

lemma longest_line_take: "longest_line n s \<le> longest_line n (s @ t)"
  by (induction s arbitrary: n) (auto simp: longest_line_ge intro: max.coboundedI2)

definition demo_log :: string where
  "demo_log =
     ''422.424 Script [Info]: Dialog.lua: '' @ START @ [newline] @ ''Platinum x 30'' @ [carriage_return, newline]
     @ ''and will receive from PlayerA the following:'' @ [newline] @ ''Wolf Sledge Motor'' @ END_MARKER @ [newline]
     @ ''427.411 Script [Info]: Dialog.lua: Dialog::CreateOk('' @ SUCCESS @ [newline]"

lemma longest_line_length: "longest_line n s \<le> n + length s"
proof (induction s arbitrary: n)
  case (Cons c s)
  then show ?case using Cons.IH[of "Suc n"] Cons.IH[of 0] by auto
qed simp

text \<open>Chunk after chunk, as the tail of the file feeds them.\<close>

definition feed_all :: "(string \<Rightarrow> string) \<Rightarrow> scanner \<Rightarrow> string list \<Rightarrow> trade_event list \<times> scanner" where
  "feed_all sha sc chunks =
     foldl (\<lambda>(evs, sc) chunk. let (more, sc') = feed sha sc chunk in (evs @ more, sc')) ([], sc) chunks"

lemma feed_all_snoc:
  "feed_all sha sc (cs @ [c]) =
     (let (evs, sc') = feed_all sha sc cs; (more, sc'') = feed sha sc' c in (evs @ more, sc''))"
  by (simp add: feed_all_def split_beta Let_def)

lemma feed_nothing: "feed sha new_scanner [] = ([], new_scanner)"
  by (simp add: feed_def new_scanner_def feed_loop.simps scan_turn_def find_marker_def START_def
    keep_tail_from_line_start_def line_start_def)

text \<open>
  C22. The scanner reports the same trades and ends in the same state whatever the sizes of the
  chunks it is fed, while no line of the log is longer than the tail it keeps.
\<close>

theorem any_chunking_reads_the_same:
  assumes "longest_line 0 (concat chunks) \<le> KEEP_TAIL"
  shows "feed_all sha new_scanner chunks = feed sha new_scanner (concat chunks)"
  using assms
proof (induction chunks rule: rev_induct)
  case Nil
  then show ?case by (simp add: feed_all_def feed_nothing)
next
  case (snoc c cs)
  then have "longest_line 0 (concat cs @ c) \<le> KEEP_TAIL" by simp
  moreover from this have "longest_line 0 (concat cs) \<le> KEEP_TAIL"
    using longest_line_take le_trans by blast
  ultimately show ?case
    using snoc.IH feed_chunks[of new_scanner "concat cs" c sha] by (simp add: feed_all_snoc new_scanner_def)
qed

lemma any_chunking_reads_the_same_witness:
  "feed_all (\<lambda>text. take 2 text) new_scanner [take 100 demo_log, [], drop 100 demo_log]
     = feed (\<lambda>text. take 2 text) new_scanner demo_log"
proof -
  have "length demo_log \<le> KEEP_TAIL"
    by (simp add: demo_log_def START_def END_MARKER_def SUCCESS_def KEEP_TAIL_def)
  then have "longest_line 0 (concat [take 100 demo_log, [], drop 100 demo_log]) \<le> KEEP_TAIL"
    using longest_line_length[of 0 demo_log] by simp
  from any_chunking_reads_the_same[OF this] show ?thesis by simp
qed

text \<open>Every event of the scanner stands for a dialog of its own: the text between a \<open>START\<close> and the
  next \<open>END_MARKER\<close>, after which a success is the first result, and the dialogs come in the order of
  the log.\<close>

inductive reads :: "(string \<Rightarrow> string) \<Rightarrow> string \<Rightarrow> trade_event list \<Rightarrow> bool" for sha where
  reads_none: "reads sha w []"
| reads_trade:
    "w = before @ line @ START @ d @ END_MARKER @ m @ SUCCESS @ rest \<Longrightarrow>
     newline \<notin> set line \<Longrightarrow>
     find_sub END_MARKER (d @ END_MARKER @ m @ SUCCESS @ rest) = Some (length d) \<Longrightarrow>
     hit result_texts (m @ SUCCESS @ rest) (length m) SUCCESS \<Longrightarrow>
     stamp = timestamp_of line \<Longrightarrow> dialog = utf8_lossy d \<Longrightarrow>
     reads sha rest evs \<Longrightarrow>
     reads sha w (\<lparr>te_event_id = event_id sha stamp dialog, te_trade = parse_dialog stamp dialog\<rparr> # evs)"

lemma reads_prefix: "reads sha w evs \<Longrightarrow> reads sha (a @ w) evs"
  by (erule reads.cases)
    (auto intro: reads_none intro!: reads_trade[where before = "a @ _"])

text \<open>What the pending dialog says of the text read so far.\<close>

definition pending_from :: "string \<Rightarrow> scan_pending \<Rightarrow> string \<Rightarrow> bool" where
  "pending_from pre pd s \<longleftrightarrow>
     (\<exists>before line d. pre = before @ line @ START @ d @ END_MARKER \<and> newline \<notin> set line \<and>
        find_sub END_MARKER (d @ END_MARKER @ s) = Some (length d) \<and>
        sp_ee_timestamp pd = timestamp_of line \<and> sp_dialog pd = utf8_lossy d)"

lemma find_sub_cut:
  assumes "find_sub m s = Some i"
  shows "s = take i s @ m @ drop (i + length m) s" "length (take i s) = i"
  using assms by (auto simp: find_sub_Some occurs_def) (metis add.commute append_take_drop_id drop_drop)

lemma start_turn:
  assumes "scan_turn sha None s = GoOn evs p' r"
  shows "\<exists>x pd. evs = [] \<and> p' = Some pd \<and> s = x @ r \<and> pending_from (pre @ x) pd r"
proof -
  obtain i j where i: "find_marker s START 0 = Some i"
      and j: "find_marker s END_MARKER (i + length START) = Some j"
    using assms by (auto simp: scan_turn_def Let_def split: option.splits)
  define ls df where "ls = line_start s i" and "df = i + length START"
  define line where "line = take (i - ls) (drop ls s)"
  define d where "d = take (j - df) (drop df s)"
  have t: "evs = []" "p' = Some \<lparr>sp_ee_timestamp = timestamp_of line, sp_dialog = utf8_lossy d\<rparr>"
      "r = drop (j + length END_MARKER) s"
    using assms i j by (simp_all add: scan_turn_def Let_def line_def d_def ls_def df_def)
  have il: "i \<le> length s" using i by (auto simp: find_marker_Some occurs_def)
  have lp: "ls \<le> i" "\<forall>j. ls \<le> j \<and> j < i \<longrightarrow> s ! j \<noteq> newline"
    using line_start_props[OF il] by (simp_all add: ls_def)
  then have nl: "newline \<notin> set line" using il by (auto simp: line_def in_set_conv_nth)
  have s1: "s = take ls s @ line @ START @ drop df s"
  proof -
    have "s = take i s @ START @ drop df s"
      using i find_sub_cut[of START s i] by (simp add: find_marker_def df_def add.commute split: if_splits)
    moreover have "take i s = take ls s @ line"
      using lp(1) by (simp add: line_def) (metis le_add_diff_inverse take_add)
    ultimately show ?thesis by simp
  qed
  have f: "find_sub END_MARKER (drop df s) = Some (j - df)" "df \<le> j"
    using j by (auto simp: find_marker_def df_def split: if_splits)
  have s2: "drop df s = d @ END_MARKER @ r" "length d = j - df"
    using find_sub_cut[OF f(1)] f(2) by (simp_all add: d_def t(3) add.commute add.left_commute)
  have "pending_from (pre @ take ls s @ line @ START @ d @ END_MARKER)
          \<lparr>sp_ee_timestamp = timestamp_of line, sp_dialog = utf8_lossy d\<rparr> r"
    unfolding pending_from_def using nl f(1) s2
    by (intro exI[of _ "pre @ take ls s"] exI[of _ line] exI[of _ d]) simp
  moreover have "s = (take ls s @ line @ START @ d @ END_MARKER) @ r" using s1 s2(1) by simp
  ultimately show ?thesis using t(1,2) by blast
qed

lemma result_turn:
  assumes "scan_turn sha (Some pd) s = GoOn evs p' r"
  shows "p' = None \<and> (\<exists>x. s = x @ r) \<and>
    (evs = [] \<or>
     (\<exists>m. s = m @ SUCCESS @ r \<and> hit result_texts s (length m) SUCCESS \<and>
        evs = [\<lparr>te_event_id = event_id sha (sp_ee_timestamp pd) (sp_dialog pd),
                te_trade = parse_dialog (sp_ee_timestamp pd) (sp_dialog pd)\<rparr>]))"
proof -
  obtain i k l where c: "min_by_pos (candidates s) = Some (i, k, l)"
    using assms by (auto simp: scan_turn_def split: option.splits)
  then obtain m where m: "hit result_texts s i m" "k = kind_of m" "l = length m"
    by (auto simp: first_candidate)
  have "m = SUCCESS" if "k = KSuccess" using m(2) that by (simp add: kind_of_def split: if_splits)
  moreover have "s = take i s @ m @ drop (i + l) s" "length (take i s) = i"
    using m(1,3) by (auto simp: hit_def occurs_def) (metis add.commute append_take_drop_id drop_drop)
  moreover have "\<exists>x. s = x @ r" using turn_rest[OF assms] .
  moreover have "r = drop (i + l) s" "evs = [\<lparr>te_event_id = event_id sha (sp_ee_timestamp pd) (sp_dialog pd),
      te_trade = parse_dialog (sp_ee_timestamp pd) (sp_dialog pd)\<rparr>]" if "k = KSuccess"
    using assms c that by (simp_all add: scan_turn_def)
  moreover have "evs = []" if "k \<noteq> KSuccess" using assms c that by (cases k) (auto simp: scan_turn_def)
  moreover have "p' = None" using assms c by (cases k) (auto simp: scan_turn_def)
  ultimately show ?thesis using m(1) by metis
qed

lemma loop_reads:
  assumes "case p of None \<Rightarrow> True | Some pd \<Rightarrow> pending_from pre pd s"
  shows "reads sha (pre @ s) (fst (feed_loop sha p s))"
  using assms
proof (induction sha p s arbitrary: pre rule: feed_loop.induct)
  case (1 sha p s)
  show ?case
  proof (cases "scan_turn sha p s")
    case (Wait r)
    then show ?thesis by (simp add: feed_loop_Wait reads_none)
  next
    case turn: (GoOn evs p' r)
    note ih = 1(1)[OF turn] and loop = feed_loop_GoOn[OF turn]
    show ?thesis
    proof (cases p)
      case None
      obtain x pd where x: "evs = []" "p' = Some pd" "s = x @ r" "pending_from (pre @ x) pd r"
        using start_turn[of sha s evs p' r pre] turn None by blast
      then show ?thesis using ih[of "pre @ x"] loop by simp
    next
      case (Some pd)
      obtain x where t: "p' = None" "s = x @ r"
        using result_turn[of sha pd s evs p' r] turn Some by blast
      consider "evs = []"
        | m where "s = m @ SUCCESS @ r" "hit result_texts s (length m) SUCCESS"
            "evs = [\<lparr>te_event_id = event_id sha (sp_ee_timestamp pd) (sp_dialog pd),
                     te_trade = parse_dialog (sp_ee_timestamp pd) (sp_dialog pd)\<rparr>]"
        using result_turn[of sha pd s evs p' r] turn Some by blast
      then show ?thesis
      proof cases
        case 1
        then show ?thesis using ih[of "pre @ x"] t loop by simp
      next
        case (2 m)
        obtain before line d where b: "pre = before @ line @ START @ d @ END_MARKER" "newline \<notin> set line"
            "find_sub END_MARKER (d @ END_MARKER @ s) = Some (length d)"
            "sp_ee_timestamp pd = timestamp_of line" "sp_dialog pd = utf8_lossy d"
          using 1(2) Some by (auto simp: pending_from_def)
        have "reads sha r (fst (feed_loop sha None r))" using ih[of "[]"] t by simp
        then show ?thesis
          using reads_trade[of "pre @ s" before line d m r "sp_ee_timestamp pd" "sp_dialog pd" sha] b 2 t loop by simp
      qed
    qed
  qed
qed

text \<open>
  C23. The scanner reports only trades the game confirmed: its events come, in the order of the log,
  from disjoint dialogs whose first result is a success, with the text and the time stamp of the
  dialog.
\<close>

theorem events_are_confirmed_trades: "reads sha bytes (scan_all sha bytes)"
  using loop_reads[where p = None and pre = "[]" and s = bytes and sha = sha] by (simp add: scan_all_def feed_def new_scanner_def split_beta Let_def)

text \<open>The shortest log with a trade: an empty dialog and its success.\<close>

definition short_log :: string where
  "short_log = START @ END_MARKER @ SUCCESS"

definition short_event :: "(string \<Rightarrow> string) \<Rightarrow> trade_event" where
  "short_event sha = \<lparr>te_event_id = event_id sha [] [], te_trade = parse_dialog [] []\<rparr>"

lemma find_first: "m \<noteq> [] \<Longrightarrow> find_marker (m @ s) m 0 = Some 0"
  by (simp add: find_marker_Some occurs_def)

lemma short_log_scan: "feed sha new_scanner short_log = ([short_event sha], new_scanner)"
proof -
  have a: "find_marker short_log START 0 = Some 0"
    unfolding short_log_def by (rule find_first) (simp add: START_def)
  have b: "find_marker short_log END_MARKER (length START) = Some (length START)"
    by (simp add: short_log_def find_marker_Some occurs_def) (simp add: END_MARKER_def)
  have ls: "line_start short_log 0 = 0" by (simp add: line_start_def)
  have "timestamp_of [] = []" by (simp add: timestamp_of_def utf8_lossy_Nil drop_spaces.simps)
  then have t1: "scan_turn sha None short_log = GoOn [] (Some \<lparr>sp_ee_timestamp = [], sp_dialog = []\<rparr>) SUCCESS"
    using a b ls by (simp add: scan_turn_def Let_def) (simp add: short_log_def)
  have "hit result_texts SUCCESS 0 SUCCESS" by (simp add: hit_def result_texts_def occurs_def)
  then have "min_by_pos (candidates SUCCESS) = Some (0, KSuccess, length SUCCESS)"
    unfolding first_candidate by (intro exI[of _ SUCCESS]) (simp add: kind_of_def)
  then have t2: "scan_turn sha (Some \<lparr>sp_ee_timestamp = [], sp_dialog = []\<rparr>) SUCCESS = GoOn [short_event sha] None []"
    by (simp add: scan_turn_def short_event_def)
  have "feed_loop sha None [] = ([], None, [])"
    using feed_nothing[of sha] by (auto simp: feed_def new_scanner_def split: prod.splits)
  then show ?thesis
    using feed_loop_GoOn[OF t1] feed_loop_GoOn[OF t2] by (simp add: feed_def new_scanner_def)
qed

end
