(* ===== verification/Helper_Tail.thy ===== *)
theory Helper_Tail
  imports Log_Scanner
begin

text \<open>
  Following EE.log (\<open>qf-helper/src/ee_log.rs\<close>) and the heartbeats of the helper
  (\<open>heartbeat.rs\<close>, \<open>process.rs\<close>). What the file system answers during a poll is an input:
  the length \<open>metadata\<close> reports, whether \<open>open\<close> and \<open>seek\<close> succeed, and the contents of the file
  when it is read.
\<close>

section \<open>The tail\<close>

record log_tail =
  tl_offset :: nat
  tl_scanner :: scanner
  tl_warned_missing :: bool

record log_io =
  lo_len :: "nat option"
  lo_open_ok :: bool
  lo_seek_ok :: bool
  lo_content :: "string option"

definition start_at_end :: "nat option \<Rightarrow> log_tail" where
  "start_at_end len =
     \<lparr>tl_offset = (case len of Some n \<Rightarrow> n | None \<Rightarrow> 0), tl_scanner = new_scanner, tl_warned_missing = False\<rparr>"

definition tail_restart :: "log_tail \<Rightarrow> log_tail" where
  "tail_restart lt = lt\<lparr>tl_offset := 0, tl_scanner := reset_scanner (tl_scanner lt)\<rparr>"

text \<open>\<open>take(len - offset)\<close> after the \<open>seek\<close>: never more than was there when the length was asked for.\<close>

definition read_from :: "nat \<Rightarrow> nat \<Rightarrow> string \<Rightarrow> string" where
  "read_from offset len content = take (len - offset) (drop offset content)"

definition tail_poll :: "(string \<Rightarrow> string) \<Rightarrow> log_io \<Rightarrow> log_tail \<Rightarrow> trade_event list \<times> log_tail" where
  "tail_poll sha io lt =
     (case lo_len io of
        None \<Rightarrow> ([], tail_restart (lt\<lparr>tl_warned_missing := True\<rparr>))
      | Some len \<Rightarrow>
          (let lt = lt\<lparr>tl_warned_missing := False\<rparr>;
               lt = (if len < tl_offset lt then tail_restart lt else lt)
           in if len = tl_offset lt then ([], lt)
              else if \<not> lo_open_ok io then ([], lt)
              else if \<not> lo_seek_ok io then ([], lt)
              else case lo_content io of
                     None \<Rightarrow> ([], lt)
                   | Some content \<Rightarrow>
                       (let bytes = read_from (tl_offset lt) len content;
                            (evs, sc) = feed sha (tl_scanner lt) bytes
                        in (evs, lt\<lparr>tl_offset := tl_offset lt + length bytes, tl_scanner := sc\<rparr>))))"

definition tail_polls :: "(string \<Rightarrow> string) \<Rightarrow> log_tail \<Rightarrow> log_io list \<Rightarrow> trade_event list \<times> log_tail" where
  "tail_polls sha lt ios =
     foldl (\<lambda>(evs, lt) io. let (more, lt') = tail_poll sha io lt in (evs @ more, lt')) ([], lt) ios"

lemma tail_polls_snoc:
  "tail_polls sha lt (ios @ [io]) =
     (let (evs, lt') = tail_polls sha lt ios; (more, lt'') = tail_poll sha io lt' in (evs @ more, lt''))"
  by (simp add: tail_polls_def split_beta Let_def)

text \<open>A game session: EE.log only grows, from what it held when the helper started. Opening, seeking
  and reading may fail, and more may be written between the length and the read.\<close>

definition grows_into :: "string \<Rightarrow> log_io \<Rightarrow> bool" where
  "grows_into final io \<longleftrightarrow>
     (\<exists>n\<le>length final. lo_len io = Some n
        \<and> (case lo_content io of None \<Rightarrow> True | Some c \<Rightarrow> n \<le> length c \<and> starts_with final c))"

fun growing :: "nat \<Rightarrow> log_io list \<Rightarrow> bool" where
  "growing n [] \<longleftrightarrow> True"
| "growing n (io # ios) \<longleftrightarrow> (case lo_len io of None \<Rightarrow> False | Some m \<Rightarrow> n \<le> m \<and> growing m ios)"

lemma growing_snoc: "growing n (ios @ [io]) \<longleftrightarrow>
  growing n ios \<and> (\<exists>m. lo_len io = Some m \<and> n \<le> m \<and> (\<forall>i\<in>set ios. \<forall>k. lo_len i = Some k \<longrightarrow> k \<le> m))"
proof (induction ios arbitrary: n)
  case (Cons i ios)
  then show ?case by (cases "lo_len i") (auto intro: order.trans)
qed (auto split: option.splits)

lemma read_from_final:
  assumes "starts_with final c" "m \<le> length c"
  shows "read_from k m c = drop k (take m final)"
proof -
  obtain r where "final = c @ r" using assms(1) by (auto simp: starts_with_iff)
  with assms(2) show ?thesis by (simp add: read_from_def drop_take)
qed

definition clean_io :: "log_io \<Rightarrow> bool" where
  "clean_io io \<longleftrightarrow> lo_open_ok io \<and> lo_seek_ok io \<and> lo_content io \<noteq> None"

text \<open>What the tail has reported is what the scanner makes of the log from the start of the helper
  to the offset.\<close>

definition caught_up :: "(string \<Rightarrow> string) \<Rightarrow> nat \<Rightarrow> string \<Rightarrow> trade_event list \<Rightarrow> log_tail \<Rightarrow> bool" where
  "caught_up sha n0 final evs lt \<longleftrightarrow>
     n0 \<le> tl_offset lt \<and> tl_offset lt \<le> length final
     \<and> feed sha new_scanner (drop n0 (take (tl_offset lt) final)) = (evs, tl_scanner lt)"

lemma take_drop_split: "n \<le> k \<Longrightarrow> k \<le> m \<Longrightarrow> drop n (take m s) = drop n (take k s) @ drop k (take m s)"
proof -
  assume le: "n \<le> k" "k \<le> m"
  have "take m s = take k s @ drop k (take m s)"
    using le(2) by (metis append_take_drop_id min.absorb1 take_take)
  moreover have "drop n (take k s @ r) = drop n (take k s) @ r" if "k \<le> length s" for r
    using le(1) that by simp
  moreover have "drop k (take m s) = []" "take m s = take k s" if "\<not> k \<le> length s"
    using that le by simp_all
  ultimately show ?thesis by (metis append_Nil2)
qed

lemma longest_line_part: "longest_line 0 (drop n (take m s)) \<le> longest_line 0 (drop n s)"
  by (metis append_take_drop_id drop_take longest_line_take)

lemma poll_follows:
  assumes inv: "caught_up sha n0 final evs lt" and io: "lo_len io = Some m" "grows_into final io"
    and le: "tl_offset lt \<le> m" and short: "longest_line 0 (drop n0 final) \<le> KEEP_TAIL"
  shows "\<exists>more lt'. tail_poll sha io lt = (more, lt') \<and> caught_up sha n0 final (evs @ more) lt'
    \<and> tl_offset lt' \<le> m \<and> (clean_io io \<longrightarrow> tl_offset lt' = m)"
proof (cases "m = tl_offset lt \<or> \<not> clean_io io")
  case True
  then have "tail_poll sha io lt = ([], lt\<lparr>tl_warned_missing := False\<rparr>)"
    using io(1) le by (auto simp: tail_poll_def clean_io_def Let_def)
  then show ?thesis using inv le True by (auto simp: caught_up_def)
next
  case False
  then obtain c where c: "lo_content io = Some c" and ok: "lo_open_ok io" "lo_seek_ok io"
    by (auto simp: clean_io_def)
  then have cm: "m \<le> length c" "starts_with final c" "m \<le> length final" using io by (auto simp: grows_into_def)
  have bytes: "read_from (tl_offset lt) m c = drop (tl_offset lt) (take m final)"
    using cm(2,1) by (rule read_from_final)
  let ?old = "drop n0 (take (tl_offset lt) final)" and ?more = "drop (tl_offset lt) (take m final)"
  have split: "drop n0 (take m final) = ?old @ ?more"
    using inv le by (intro take_drop_split) (simp_all add: caught_up_def)
  obtain more sc where f: "feed sha (tl_scanner lt) ?more = (more, sc)" by force
  have "longest_line 0 (?old @ ?more) \<le> KEEP_TAIL"
    using longest_line_part[of n0 m final] short split by simp
  then have fed: "feed sha new_scanner (drop n0 (take m final)) = (evs @ more, sc)"
    using feed_chunks[of new_scanner ?old ?more sha] inv f split
    by (simp add: new_scanner_def caught_up_def)
  have "tail_poll sha io lt = (more, lt\<lparr>tl_warned_missing := False, tl_offset := m, tl_scanner := sc\<rparr>)"
    using io(1) le False ok c bytes f cm(3) by (simp add: tail_poll_def Let_def clean_io_def)
  then show ?thesis using inv le fed cm(3) by (simp add: caught_up_def)
qed

text \<open>Where the tail stands after a list of polls.\<close>

definition stands :: "nat \<Rightarrow> log_io list \<Rightarrow> log_tail \<Rightarrow> bool" where
  "stands n0 ios lt \<longleftrightarrow>
     (if ios = [] then tl_offset lt = n0
      else case lo_len (last ios) of
             None \<Rightarrow> False
           | Some m \<Rightarrow> tl_offset lt \<le> m \<and> (clean_io (last ios) \<longrightarrow> tl_offset lt = m))"

lemma tail_follows:
  assumes "longest_line 0 (drop n0 final) \<le> KEEP_TAIL" "n0 \<le> length final"
  shows "growing n0 ios \<Longrightarrow> \<forall>io\<in>set ios. grows_into final io \<Longrightarrow>
    \<exists>evs lt. tail_polls sha (start_at_end (Some n0)) ios = (evs, lt) \<and> caught_up sha n0 final evs lt \<and> stands n0 ios lt"
proof (induction ios rule: rev_induct)
  case Nil
  then show ?case using assms(2) by (simp add: tail_polls_def start_at_end_def caught_up_def feed_nothing stands_def)
next
  case (snoc io ios)
  then obtain evs lt where ih: "tail_polls sha (start_at_end (Some n0)) ios = (evs, lt)"
      "caught_up sha n0 final evs lt" "stands n0 ios lt"
    by (auto simp: growing_snoc)
  obtain m where m: "lo_len io = Some m" "n0 \<le> m" "\<forall>i\<in>set ios. \<forall>k. lo_len i = Some k \<longrightarrow> k \<le> m"
    using snoc.prems by (auto simp: growing_snoc)
  have le: "tl_offset lt \<le> m"
  proof (cases "ios = []")
    case False
    then obtain k where "lo_len (last ios) = Some k" "tl_offset lt \<le> k"
      using ih(3) by (auto simp: stands_def split: option.splits)
    moreover have "last ios \<in> set ios" using False by simp
    ultimately show ?thesis using m(3) by (meson order.trans)
  qed (use ih(3) m(2) in \<open>simp add: stands_def\<close>)
  have io: "grows_into final io" using snoc.prems(2) by simp
  obtain more lt' where p: "tail_poll sha io lt = (more, lt')" "caught_up sha n0 final (evs @ more) lt'"
      "tl_offset lt' \<le> m" "clean_io io \<longrightarrow> tl_offset lt' = m"
    using poll_follows[OF ih(2) m(1) io le assms(1)] by blast
  have "tail_polls sha (start_at_end (Some n0)) (ios @ [io]) = (evs @ more, lt')"
    using ih(1) p(1) by (simp add: tail_polls_snoc)
  moreover have "stands n0 (ios @ [io]) lt'" using p(3,4) m(1) by (simp add: stands_def)
  ultimately show ?case using p(2) by blast
qed



lemma reset_is_new: "reset_scanner sc = new_scanner"
  by (simp add: reset_scanner_def new_scanner_def)

text \<open>
  A truncated or vanished log is a new session: whatever the tail had half read is forgotten and the
  file is read from its beginning, as by a tail that starts on an empty log.
\<close>

lemma new_session_is_read_from_the_start:
  "case lo_len io of
     None \<Rightarrow> tail_poll sha io lt = ([], (start_at_end None)\<lparr>tl_warned_missing := True\<rparr>)
   | Some len \<Rightarrow> len < tl_offset lt \<longrightarrow> tail_poll sha io lt = tail_poll sha io (start_at_end None)"
  by (cases lt) (auto simp: tail_poll_def tail_restart_def reset_is_new start_at_end_def Let_def split: option.splits prod.splits)

section \<open>Heartbeats\<close>

text \<open>What the HTTP client gives back: a status with the text of its parsed body, or a failure.\<close>

datatype http_reply = HttpReply nat "string + string" | HttpError string

definition HEARTBEAT_EVERY :: duration where
  "HEARTBEAT_EVERY = secs 10"

definition REJECTED_BACKOFF :: duration where
  "REJECTED_BACKOFF = secs 60"

datatype beat_outcome = BeatAccepted | BeatRejected | BeatFailed string

definition beat_next_delay :: "beat_outcome \<Rightarrow> duration" where
  "beat_next_delay o1 = (case o1 of BeatRejected \<Rightarrow> REJECTED_BACKOFF | _ \<Rightarrow> HEARTBEAT_EVERY)"

definition is_success :: "nat \<Rightarrow> bool" where
  "is_success status \<longleftrightarrow> 200 \<le> status \<and> status < 300"

text \<open>\<open>show_status\<close> is the display of a status by the HTTP crate.\<close>

definition server_returned :: "(nat \<Rightarrow> string) \<Rightarrow> nat \<Rightarrow> string" where
  "server_returned show_status status = ''server returned '' @ show_status status"

definition beat_send :: "(nat \<Rightarrow> string) \<Rightarrow> http_reply \<Rightarrow> beat_outcome" where
  "beat_send show_status reply =
     (case reply of
        HttpReply status _ \<Rightarrow>
          (if is_success status then BeatAccepted
           else if status = 401 then BeatRejected
           else BeatFailed (server_returned show_status status))
      | HttpError e \<Rightarrow> BeatFailed e)"

definition beat_describe :: "bool \<Rightarrow> beat_outcome \<Rightarrow> string" where
  "beat_describe running o1 =
     (let game = (if running then ''yes'' else ''no'')
      in case o1 of
           BeatAccepted \<Rightarrow> ''Warframe running: '' @ game @ ''; heartbeat accepted''
         | BeatRejected \<Rightarrow>
             ''Warframe running: '' @ game @ ''; device key rejected (401), retrying every ''
             @ show_int (num_seconds REJECTED_BACKOFF) @ '' s. Create a new key in the web UI''
         | BeatFailed reason \<Rightarrow> ''Warframe running: '' @ game @ ''; heartbeat failed: '' @ reason)"

text \<open>One turn of the loop of \<open>main\<close>: the line is printed only when it changed.\<close>

definition beat_turn ::
  "(nat \<Rightarrow> string) \<Rightarrow> bool \<Rightarrow> http_reply \<Rightarrow> string \<Rightarrow> string list \<times> string \<times> duration" where
  "beat_turn show_status running reply last_line =
     (let o1 = beat_send show_status reply; line = beat_describe running o1
      in (if line \<noteq> last_line then [line] else [], line, beat_next_delay o1))"

section \<open>Is the game running\<close>

definition WARFRAME_EXE :: string where
  "WARFRAME_EXE = ''Warframe.x64.exe''"

text \<open>\<open>rsplit(..).next()\<close>: what follows the last separator.\<close>

definition file_name_of :: "string \<Rightarrow> string" where
  "file_name_of arg = rev (takeWhile (\<lambda>c. c \<noteq> CHR ''/'' \<and> c \<noteq> CHR 0x5C) (rev arg))"

definition is_warframe_cmdline :: "string \<Rightarrow> bool" where
  "is_warframe_cmdline cmdline =
     list_ex (\<lambda>arg. eq_ignore_ascii_case (file_name_of (utf8_lossy arg)) WARFRAME_EXE)
       (filter (\<lambda>arg. arg \<noteq> []) (str_split (CHR 0x00) cmdline))"

text \<open>The entries of \<open>/proc\<close>, if it can be read: the name of each and the contents of its
  \<open>cmdline\<close>, if that can be read.\<close>

definition warframe_running :: "(string \<times> string option) list option \<Rightarrow> int \<Rightarrow> bool" where
  "warframe_running entries own_pid =
     (case entries of
        None \<Rightarrow> False
      | Some es \<Rightarrow>
          list_ex (\<lambda>(name, cmdline). case cmdline of None \<Rightarrow> False | Some c \<Rightarrow> is_warframe_cmdline c)
            (filter (\<lambda>(name, _). case parse_integer 0 (2 ^ 32 - 1) name of None \<Rightarrow> False | Some pid \<Rightarrow> pid \<noteq> own_pid) es))"

lemma cmdline_examples:
  "is_warframe_cmdline (''/usr/bin/wine64'' @ [CHR 0x00] @ ''C:/Games/warframe.X64.exe'')"
  "\<not> is_warframe_cmdline (''/usr/bin/bash'' @ [CHR 0x00] @ ''-c'' @ [CHR 0x00] @ ''pgrep Warframe.x64.exe'')"
  "\<not> is_warframe_cmdline []"
  by code_simp+

lemma file_name_has_no_slash: "CHR ''/'' \<notin> set (file_name_of arg) \<and> (\<exists>dir. arg = dir @ file_name_of arg)"
proof
  show "CHR ''/'' \<notin> set (file_name_of arg)" by (auto simp: file_name_of_def dest: set_takeWhileD)
  have "arg = rev (dropWhile (\<lambda>c. c \<noteq> CHR ''/'' \<and> c \<noteq> CHR 0x5C) (rev arg)) @ file_name_of arg"
    unfolding file_name_of_def by (metis rev_append rev_rev_ident takeWhile_dropWhile_id)
  then show "\<exists>dir. arg = dir @ file_name_of arg" by blast
qed

end
