(* ===== verification/Helper_Queue.thy ===== *)
theory Helper_Queue
  imports Helper_Tail Trade_Pipeline
begin

text \<open>
  The queue of detected trades on the disk of the gaming PC (\<open>qf-helper/src/queue.rs\<close>) and the loop
  that fills it from EE.log and drains it to the server (\<open>trade.rs\<close>). The failures of the file
  system and the replies of the server are inputs; the JSON crate is the pair of parameters
  \<open>enc\<close> and \<open>dec\<close>. Error texts are only printed, so a failed operation of the queue is \<open>False\<close> or
  \<open>None\<close>.
\<close>

section \<open>The queue file\<close>

type_synonym queue_file = "string option"

definition strip_cr :: "string \<Rightarrow> string" where
  "strip_cr s = (if ends_with s [carriage_return] then butlast s else s)"

text \<open>\<open>str::lines\<close>: what follows the last newline is a line when it is not empty, with its \<open>\r\<close>.\<close>

definition text_lines :: "string \<Rightarrow> string list" where
  "text_lines s =
     (let ps = str_split newline s
      in map strip_cr (butlast ps) @ (if last ps = [] then [] else [last ps]))"

definition queue_lines :: "bool \<Rightarrow> queue_file \<Rightarrow> string list option" where
  "queue_lines readable file =
     (case file of
        None \<Rightarrow> Some []
      | Some text \<Rightarrow>
          (if readable \<and> utf8_valid text then Some (filter (\<lambda>l. text_trim l \<noteq> []) (text_lines text)) else None))"

text \<open>How a push ends: the file cannot be opened, the write stops after some bytes, everything is
  written but not synced, or all is well.\<close>

datatype push_io = PushNoFile | PushShort nat | PushUnsynced | PushDone

definition queue_push :: "('e \<Rightarrow> string) \<Rightarrow> push_io \<Rightarrow> queue_file \<Rightarrow> 'e \<Rightarrow> bool \<times> queue_file" where
  "queue_push enc io file e =
     (let line = enc e @ [newline]; old = (case file of None \<Rightarrow> [] | Some text \<Rightarrow> text)
      in case io of
           PushNoFile \<Rightarrow> (False, file)
         | PushShort n \<Rightarrow> (False, Some (old @ take n line))
         | PushUnsynced \<Rightarrow> (False, Some (old @ line))
         | PushDone \<Rightarrow> (True, Some (old @ line)))"

datatype pop_io = PopUnread | PopUnwritten | PopUnrenamed | PopDone

definition joined_lines :: "string list \<Rightarrow> string" where
  "joined_lines ls = (let text = str_join [newline] ls in if text = [] then text else text @ [newline])"

text \<open>The new file replaces the old one in one step, so a failure leaves the old one.\<close>

definition queue_pop :: "pop_io \<Rightarrow> queue_file \<Rightarrow> bool \<times> queue_file" where
  "queue_pop io file =
     (case queue_lines (io \<noteq> PopUnread) file of
        None \<Rightarrow> (False, file)
      | Some [] \<Rightarrow> (True, file)
      | Some (_ # ls) \<Rightarrow> (if io = PopDone then (True, Some (joined_lines ls)) else (False, file)))"

definition queue_len :: "bool \<Rightarrow> queue_file \<Rightarrow> nat" where
  "queue_len readable file = (case queue_lines readable file of None \<Rightarrow> 0 | Some ls \<Rightarrow> length ls)"

definition queue_is_empty :: "bool \<Rightarrow> queue_file \<Rightarrow> bool" where
  "queue_is_empty readable file \<longleftrightarrow> queue_len readable file = 0"

fun file_size :: "queue_file \<Rightarrow> nat" where
  "file_size None = 0"
| "file_size (Some text) = length text"

lemma split_size: "sum_list (map (\<lambda>p. length p + 1) (str_split sep s)) = length s + 1"
  by (induction s) (auto split: list.splits)

lemma text_lines_size: "sum_list (map (\<lambda>l. length l + 1) (text_lines s)) \<le> length s + 1"
proof -
  obtain b l where ps: "str_split newline s = b @ [l]" by (metis rev_exhaust str_split_nonempty)
  then have "sum_list (map (\<lambda>p. length p + 1) b) + (length l + 1) = length s + 1"
    using split_size[of newline s] by simp
  moreover have "sum_list (map (\<lambda>p. length (strip_cr p) + 1) b) \<le> sum_list (map (\<lambda>p. length p + 1) b)"
    by (rule sum_list_mono) (simp add: strip_cr_def)
  ultimately show ?thesis by (simp add: text_lines_def Let_def ps comp_def)
qed

lemma sum_filter_le: "sum_list (map f (filter P xs)) \<le> (sum_list (map f xs) :: nat)"
  by (induction xs) auto

lemma join_size: "length (joined_lines ls) \<le> sum_list (map (\<lambda>l. length l + 1) ls)"
proof -
  have "length (str_join [newline] ls) + 1 \<le> sum_list (map (\<lambda>l. length l + 1) ls)" if "ls \<noteq> []" for ls :: "string list"
    using that by (induction "[newline]" ls rule: str_join.induct) auto
  then show ?thesis by (cases "ls = []") (auto simp: joined_lines_def Let_def)
qed

lemma pop_shrinks:
  assumes "queue_lines r file = Some (l # ls)" "fst (queue_pop io file)"
  shows "file_size (snd (queue_pop io file)) < file_size file"
proof -
  obtain c where c: "file = Some c" "utf8_valid c" "filter (\<lambda>l. text_trim l \<noteq> []) (text_lines c) = l # ls"
    using assms(1) by (auto simp: queue_lines_def split: option.splits if_splits)
  have new: "snd (queue_pop io file) = Some (joined_lines ls)"
    using assms(2) c by (auto simp: queue_pop_def queue_lines_def split: if_splits)
  have "l \<in> set (filter (\<lambda>l. text_trim l \<noteq> []) (text_lines c))" using c(3) by simp
  then have "text_trim l \<noteq> []" by simp
  then have "l \<noteq> []" by (auto simp: text_trim_def drop_spaces.simps)
  have "(length l + 1) + sum_list (map (\<lambda>l. length l + 1) ls) \<le> length c + 1"
    using sum_filter_le[of "\<lambda>l. length l + 1" "\<lambda>l. text_trim l \<noteq> []" "text_lines c"] text_lines_size[of c]
    unfolding c(3) by simp
  with \<open>l \<noteq> []\<close> join_size[of ls] show ?thesis
    using c(1) new by (cases l) auto
qed

text \<open>Every turn of the loop reads the file anew; a corrupt first line is popped. Past the end of the
  list of failures the file system works.\<close>

definition next_io :: "(bool \<times> pop_io) list \<Rightarrow> bool \<times> pop_io" where
  "next_io ios = (case ios of [] \<Rightarrow> (True, PopDone) | io # _ \<Rightarrow> io)"

function queue_peek ::
  "(string \<Rightarrow> 'e option) \<Rightarrow> (bool \<times> pop_io) list \<Rightarrow> queue_file \<Rightarrow> 'e option option \<times> queue_file" where
  "queue_peek dec ios file =
     (case queue_lines (fst (next_io ios)) file of
        None \<Rightarrow> (None, file)
      | Some [] \<Rightarrow> (Some None, file)
      | Some (l # ls) \<Rightarrow>
          (case dec l of
             Some e \<Rightarrow> (Some (Some e), file)
           | None \<Rightarrow>
               (if fst (queue_pop (snd (next_io ios)) file)
                then queue_peek dec (tl ios) (snd (queue_pop (snd (next_io ios)) file))
                else (None, snd (queue_pop (snd (next_io ios)) file)))))"
  by pat_completeness auto
termination
proof (relation "measure (\<lambda>(_, _, fl). file_size fl)")
  fix dec :: "string \<Rightarrow> 'e option" and ios fl x2 l ls
  assume "queue_lines (fst (next_io ios)) fl = Some x2" "x2 = l # ls"
    "fst (queue_pop (snd (next_io ios)) fl)"
  then show "((dec, tl ios, snd (queue_pop (snd (next_io ios)) fl)), dec, ios, fl)
      \<in> measure (\<lambda>(_, _, fl). file_size fl)"
    using pop_shrinks[of "fst (next_io ios)" fl l ls "snd (next_io ios)"] by simp
qed simp

declare queue_peek.simps [simp del]

section \<open>The outcome of a request\<close>

datatype trade_outcome = OutAccepted string | OutRejected | OutDropped string | OutFailed string

definition RETRY_EVERY :: duration where
  "RETRY_EVERY = secs 10"

fun removes_from_queue :: "trade_outcome \<Rightarrow> bool" where
  "removes_from_queue (OutAccepted _) \<longleftrightarrow> True"
| "removes_from_queue (OutDropped _) \<longleftrightarrow> True"
| "removes_from_queue _ \<longleftrightarrow> False"

fun trade_next_delay :: "trade_outcome \<Rightarrow> duration option" where
  "trade_next_delay OutRejected = Some REJECTED_BACKOFF"
| "trade_next_delay (OutFailed _) = Some RETRY_EVERY"
| "trade_next_delay _ = None"

fun outcome_label :: "trade_outcome \<Rightarrow> string" where
  "outcome_label (OutAccepted status) = status"
| "outcome_label OutRejected = ''device key rejected (401)''"
| "outcome_label (OutDropped reason) = ''dropped ('' @ reason @ '')''"
| "outcome_label (OutFailed reason) = ''failed ('' @ reason @ '')''"

definition trade_send :: "(nat \<Rightarrow> string) \<Rightarrow> http_reply \<Rightarrow> trade_outcome" where
  "trade_send show_status reply =
     (case reply of
        HttpReply status body \<Rightarrow>
          (if is_success status then
             (case body of Inr s \<Rightarrow> OutAccepted s | Inl e \<Rightarrow> OutAccepted (''accepted, unreadable reply: '' @ e))
           else if status = 401 then OutRejected
           else if status \<in> {400, 404, 409, 413, 422} then OutDropped (server_returned show_status status)
           else OutFailed (server_returned show_status status))
      | HttpError e \<Rightarrow> OutFailed e)"

definition trade_describe :: "raw_trade \<Rightarrow> string \<Rightarrow> string" where
  "trade_describe t server =
     (let offered = wrap_i64 (platinum_of (rt_offered t)); received = wrap_i64 (platinum_of (rt_received t));
          (kind, platinum, goods) =
            (if 0 < offered \<and> \<not> 0 < received then (''purchase'', offered, length (rt_received t))
             else if \<not> 0 < offered \<and> 0 < received then (''sale'', received, length (rt_offered t))
             else (''unknown'', max offered received, length (rt_offered t) + length (rt_received t)))
      in ''trade detected: '' @ kind @ '' '' @ show_int platinum @ ''p with '' @ rt_player_name t @ '', ''
         @ show_nat goods @ '' items; server: '' @ server)"

section \<open>The loop\<close>

definition next_push :: "push_io list \<Rightarrow> push_io" where
  "next_push ios = (case ios of [] \<Rightarrow> PushDone | io # _ \<Rightarrow> io)"

fun persist :: "('e \<Rightarrow> string) \<Rightarrow> push_io list \<Rightarrow> queue_file \<Rightarrow> 'e list \<Rightarrow> queue_file \<times> 'e list" where
  "persist enc ios file [] = (file, [])"
| "persist enc ios file (e # es) =
     (let (ok, file1) = queue_push enc (next_push ios) file e;
          (file2, left) = persist enc (tl ios) file1 es
      in (file2, if ok then left else e # left))"

text \<open>The inputs of one turn of the draining loop: the failures while peeking, the reply of the
  server, the failure of the pop and the time read for the pause. \<open>ios\<close> is the sequence of them.\<close>

record drain_io =
  dr_peek :: "(bool \<times> pop_io) list"
  dr_reply :: http_reply
  dr_pop :: pop_io
  dr_now :: instant

lemma peek_some:
  "fst (queue_peek dec ios fl) = Some (Some e) \<Longrightarrow>
   \<exists>r l ls. queue_lines r (snd (queue_peek dec ios fl)) = Some (l # ls) \<and> dec l = Some e
     \<and> file_size (snd (queue_peek dec ios fl)) \<le> file_size fl"
proof (induction dec ios fl rule: queue_peek.induct)
  case (1 dec ios fl)
  note unf = queue_peek.simps[of dec ios fl]
  obtain l ls where q: "queue_lines (fst (next_io ios)) fl = Some (l # ls)"
    using 1(2) unfolding unf by (auto split: option.splits list.splits)
  show ?case
  proof (cases "dec l")
    case None
    then have ok: "fst (queue_pop (snd (next_io ios)) fl)"
      using 1(2) q unfolding unf by (auto split: if_splits)
    with None q have p: "queue_peek dec ios fl = queue_peek dec (tl ios) (snd (queue_pop (snd (next_io ios)) fl))"
      unfolding unf by simp
    have "file_size (snd (queue_pop (snd (next_io ios)) fl)) < file_size fl" using pop_shrinks[OF q ok] .
    moreover have "\<exists>r l ls. queue_lines r (snd (queue_peek dec ios fl)) = Some (l # ls) \<and> dec l = Some e
        \<and> file_size (snd (queue_peek dec ios fl)) \<le> file_size (snd (queue_pop (snd (next_io ios)) fl))"
      using 1(1)[OF q refl None ok] 1(2) p by metis
    ultimately show ?thesis by (meson less_imp_le order.trans)
  next
    case (Some a)
    then have "queue_peek dec ios fl = (Some (Some a), fl)" using q unfolding unf by simp
    with Some q 1(2) show ?thesis by auto
  qed
qed

function drain ::
  "(nat \<Rightarrow> string) \<Rightarrow> (string \<Rightarrow> 'e option) \<Rightarrow> (nat \<Rightarrow> drain_io) \<Rightarrow> queue_file
     \<Rightarrow> ('e \<times> trade_outcome) list \<times> instant option \<times> queue_file" where
  "drain show_status dec ios file =
     (case queue_peek dec (dr_peek (ios 0)) file of
        (None, file1) \<Rightarrow> ([], Some (dr_now (ios 0) + RETRY_EVERY), file1)
      | (Some None, file1) \<Rightarrow> ([], None, file1)
      | (Some (Some e), file1) \<Rightarrow>
          (let outcome = trade_send show_status (dr_reply (ios 0))
           in if removes_from_queue outcome then
                (if fst (queue_pop (dr_pop (ios 0)) file1)
                 then (let (sent, final) = drain show_status dec (\<lambda>n. ios (Suc n)) (snd (queue_pop (dr_pop (ios 0)) file1))
                       in ((e, outcome) # sent, final))
                 else ([(e, outcome)], Some (dr_now (ios 0) + RETRY_EVERY), snd (queue_pop (dr_pop (ios 0)) file1)))
              else ([(e, outcome)], map_option (\<lambda>d. dr_now (ios 0) + d) (trade_next_delay outcome), file1)))"
  by pat_completeness auto
termination
proof (relation "measure (\<lambda>(_, _, _, fl). file_size fl)")
  fix show_status and dec :: "string \<Rightarrow> 'e option" and ios :: "nat \<Rightarrow> drain_io" and fl x file1 x2 e outcome
  assume p: "(x, file1) = queue_peek dec (dr_peek (ios 0)) fl" "x = Some x2" "x2 = Some e"
    and ok: "fst (queue_pop (dr_pop (ios 0)) file1)"
  have "fst (queue_peek dec (dr_peek (ios 0)) fl) = Some (Some e)"
    and f1: "snd (queue_peek dec (dr_peek (ios 0)) fl) = file1"
    using p by (metis fst_conv, metis snd_conv)
  from peek_some[OF this(1)] obtain r l ls where
    "queue_lines r file1 = Some (l # ls)" "file_size file1 \<le> file_size fl"
    using f1 by blast
  with pop_shrinks[OF _ ok]
  show "((show_status, dec, \<lambda>n. ios (Suc n), snd (queue_pop (dr_pop (ios 0)) file1)), show_status, dec, ios, fl)
    \<in> measure (\<lambda>(_, _, _, fl). file_size fl)" by fastforce
qed simp

declare drain.simps [simp del]

text \<open>What the helper holds between two turns, with the trace of the requests it made.\<close>

record helper =
  hp_tail :: log_tail
  hp_file :: queue_file
  hp_wait :: "instant option"
  hp_pending :: "incoming_trade list"
  hp_sent :: "(incoming_trade \<times> trade_outcome) list"

record turn_io =
  tn_log :: log_io
  tn_stamps :: "nat \<Rightarrow> string"
  tn_push :: "push_io list"
  tn_now :: instant
  tn_drain :: "nat \<Rightarrow> drain_io"

definition helper_start :: "nat option \<Rightarrow> queue_file \<Rightarrow> helper" where
  "helper_start log_len file =
     \<lparr>hp_tail = start_at_end log_len, hp_file = file, hp_wait = None, hp_pending = [], hp_sent = []\<rparr>"

definition queued_events :: "(nat \<Rightarrow> string) \<Rightarrow> trade_event list \<Rightarrow> incoming_trade list" where
  "queued_events stamps evs =
     map (\<lambda>(i, ev). \<lparr>in_event_id = te_event_id ev, in_detected_at = stamps i, in_trade = te_trade ev\<rparr>) (enumerate 0 evs)"

definition detected :: "(string \<Rightarrow> string) \<Rightarrow> turn_io \<Rightarrow> helper \<Rightarrow> incoming_trade list" where
  "detected sha io h = queued_events (tn_stamps io) (fst (tail_poll sha (tn_log io) (hp_tail h)))"

definition helper_turn ::
  "(string \<Rightarrow> string) \<Rightarrow> (incoming_trade \<Rightarrow> string) \<Rightarrow> (string \<Rightarrow> incoming_trade option) \<Rightarrow> (nat \<Rightarrow> string)
     \<Rightarrow> helper \<Rightarrow> turn_io \<Rightarrow> helper" where
  "helper_turn sha enc dec show_status h io =
     (let (evs, tail1) = tail_poll sha (tn_log io) (hp_tail h);
          pending1 = hp_pending h @ queued_events (tn_stamps io) evs;
          (file1, pending2) = persist enc (tn_push io) (hp_file h) pending1;
          h1 = h\<lparr>hp_tail := tail1, hp_file := file1, hp_pending := pending2\<rparr>
      in if (case hp_wait h of None \<Rightarrow> True | Some until \<Rightarrow> until \<le> tn_now io)
         then (let (sent, wait, file2) = drain show_status dec (tn_drain io) file1
               in h1\<lparr>hp_file := file2, hp_wait := wait, hp_sent := hp_sent h @ sent\<rparr>)
         else h1)"

section \<open>The file as a queue\<close>

text \<open>What the helper relies on of the JSON crate: a trade is written as one line of UTF-8 that reads
  back as the same trade.\<close>

definition fits :: "('e \<Rightarrow> string) \<Rightarrow> (string \<Rightarrow> 'e option) \<Rightarrow> 'e \<Rightarrow> bool" where
  "fits enc dec e \<longleftrightarrow> newline \<notin> set (enc e) \<and> carriage_return \<notin> set (enc e) \<and> text_trim (enc e) \<noteq> []
     \<and> utf8_valid (enc e) \<and> dec (enc e) = Some e"

definition render :: "('e \<Rightarrow> string) \<Rightarrow> 'e list \<Rightarrow> string" where
  "render enc q = concat (map (\<lambda>e. enc e @ [newline]) q)"

definition holds :: "('e \<Rightarrow> string) \<Rightarrow> (string \<Rightarrow> 'e option) \<Rightarrow> queue_file \<Rightarrow> 'e list \<Rightarrow> bool" where
  "holds enc dec file q \<longleftrightarrow>
     (\<forall>e\<in>set q. fits enc dec e) \<and> (file = Some (render enc q) \<or> file = None \<and> q = [])"

lemma strip_cr_id: "carriage_return \<notin> set s \<Longrightarrow> strip_cr s = s"
proof -
  assume "carriage_return \<notin> set s"
  then have "carriage_return \<notin> set (rev s)" by simp
  then have "\<not> ends_with s [carriage_return]"
    by (auto simp: ends_with_def starts_with_iff)
  then show ?thesis by (simp add: strip_cr_def)
qed

lemma split_render:
  "(\<forall>e\<in>set q. fits enc dec e) \<Longrightarrow> str_split newline (render enc q) = map enc q @ [[]]"
  by (induction q) (auto simp: render_def fits_def str_split_cons)

lemma lines_render:
  assumes "\<forall>e\<in>set q. fits enc dec e"
  shows "filter (\<lambda>l. text_trim l \<noteq> []) (text_lines (render enc q)) = map enc q"
proof -
  have "strip_cr (enc e) = enc e" if "e \<in> set q" for e
  proof -
    show ?thesis using assms that by (intro strip_cr_id) (simp add: fits_def)
  qed
  then have "text_lines (render enc q) = map enc q"
    using split_render[OF assms] by (simp add: text_lines_def Let_def)
  with assms show ?thesis by (auto simp: fits_def filter_id_conv)
qed

lemma utf8_valid_newline [simp]: "utf8_valid [newline]"
  by (simp add: utf8_valid_step utf8_piece_def utf8_width_def newline_def)

lemma utf8_valid_newline_Cons [simp]: "utf8_valid (newline # s) \<longleftrightarrow> utf8_valid s"
  using utf8_valid_append[OF utf8_valid_newline, of s] by simp

lemma render_valid: "\<forall>e\<in>set q. fits enc dec e \<Longrightarrow> utf8_valid (render enc q)"
  by (induction q) (auto simp: render_def fits_def utf8_valid_append)

lemma joined_render: "\<forall>e\<in>set q. fits enc dec e \<Longrightarrow> joined_lines (map enc q) = render enc q"
proof -
  assume q: "\<forall>e\<in>set q. fits enc dec e"
  have "str_join [newline] (map enc q) @ [newline] = render enc q" if "q \<noteq> []"
    using that
  proof (induction q)
    case (Cons e q)
    then show ?case by (cases q) (simp_all add: render_def)
  qed simp
  moreover have "str_join [newline] (map enc q) \<noteq> []" if ne: "q \<noteq> []"
  proof -
    obtain e r where "q = e # r" using ne by (cases q) auto
    moreover from this have "enc e \<noteq> []" using q by (auto simp: fits_def text_trim_def drop_spaces.simps)
    ultimately show ?thesis by (cases r) simp_all
  qed
  ultimately show ?thesis by (cases "q = []") (simp_all add: joined_lines_def render_def Let_def)
qed

lemma lines_hold:
  "holds enc dec file q \<Longrightarrow> queue_lines r file = Some (map enc q) \<or> queue_lines r file = None"
  by (auto simp: holds_def queue_lines_def lines_render split: if_splits)

lemma lines_hold_readable: "holds enc dec file q \<Longrightarrow> queue_lines True file = Some (map enc q)"
  by (auto simp: holds_def queue_lines_def lines_render render_valid)

lemma push_holds:
  assumes "holds enc dec file q" "fits enc dec e" "\<forall>n. io \<noteq> PushShort n"
  shows "holds enc dec (snd (queue_push enc io file e)) (if io = PushNoFile then q else q @ [e])"
    and "fst (queue_push enc io file e) \<longleftrightarrow> io = PushDone"
  using assms by (cases io; auto simp: queue_push_def holds_def render_def)+

lemma pop_holds:
  assumes "holds enc dec file q"
  shows "holds enc dec (snd (queue_pop io file)) (if fst (queue_pop io file) then tl q else q)"
proof (cases q)
  case Nil
  with assms lines_hold[OF assms, of "io \<noteq> PopUnread"] show ?thesis
    by (auto simp: queue_pop_def)
next
  case (Cons e r)
  have "\<forall>e\<in>set r. fits enc dec e" using assms Cons by (auto simp: holds_def)
  then have "joined_lines (map enc r) = render enc r" by (rule joined_render)
  with Cons lines_hold[OF assms, of "io \<noteq> PopUnread"] assms show ?thesis
    by (cases "io = PopDone") (auto simp: queue_pop_def holds_def)
qed

lemma peek_exact:
  assumes "holds enc dec fl q"
  shows "queue_peek dec ios fl =
    (if queue_lines (fst (next_io ios)) fl = None then (None, fl)
     else (Some (case q of [] \<Rightarrow> None | e # _ \<Rightarrow> Some e), fl))"
proof (cases q)
  case Nil
  with lines_hold[OF assms, of "fst (next_io ios)"] show ?thesis by (auto simp: queue_peek.simps[of dec ios fl])
next
  case (Cons e r)
  then have "dec (enc e) = Some e" using assms by (simp add: holds_def fits_def)
  with Cons lines_hold[OF assms, of "fst (next_io ios)"] show ?thesis
    by (auto simp: queue_peek.simps[of dec ios fl])
qed

text \<open>The contract of the queue and what its user gets from it: what is pushed comes out in the same
  order, once each.\<close>

locale event_queue =
  fixes push :: "'f \<Rightarrow> 'e \<Rightarrow> 'f" and peek :: "'f \<Rightarrow> 'e option" and pop :: "'f \<Rightarrow> 'f"
    and stored :: "'f \<Rightarrow> 'e list \<Rightarrow> bool" and good :: "'e \<Rightarrow> bool"
  assumes push_law: "stored f q \<Longrightarrow> good e \<Longrightarrow> stored (push f e) (q @ [e])"
    and peek_law: "stored f q \<Longrightarrow> peek f = (case q of [] \<Rightarrow> None | e # _ \<Rightarrow> Some e)"
    and pop_law: "stored f q \<Longrightarrow> stored (pop f) (tl q)"
begin

lemma pushes: "stored f q \<Longrightarrow> \<forall>e\<in>set es. good e \<Longrightarrow> stored (foldl push f es) (q @ es)"
proof (induction es arbitrary: f q)
  case (Cons e es)
  then have "stored (push f e) (q @ [e])" using push_law by simp
  from Cons.IH[OF this] Cons.prems(2) show ?case by simp
qed simp

lemma pops: "stored f q \<Longrightarrow> stored ((pop ^^ n) f) (drop n q)"
  by (induction n) (simp_all add: pop_law drop_Suc tl_drop[symmetric])

lemma fifo:
  assumes "stored f []" "\<forall>e\<in>set es. good e"
  shows "peek ((pop ^^ n) (foldl push f es)) = (if n < length es then Some (es ! n) else None)"
  using peek_law[OF pops[OF pushes[OF assms], of n]] by (simp add: Cons_nth_drop_Suc[symmetric])

end

definition disk_push :: "('e \<Rightarrow> string) \<Rightarrow> queue_file \<Rightarrow> 'e \<Rightarrow> queue_file" where
  "disk_push enc file e = snd (queue_push enc PushDone file e)"

definition disk_pop :: "queue_file \<Rightarrow> queue_file" where
  "disk_pop file = snd (queue_pop PopDone file)"

definition disk_peek :: "(string \<Rightarrow> 'e option) \<Rightarrow> queue_file \<Rightarrow> 'e option" where
  "disk_peek dec file = (case fst (queue_peek dec [] file) of None \<Rightarrow> None | Some r \<Rightarrow> r)"

interpretation disk: event_queue "disk_push enc" "disk_peek dec" disk_pop "holds enc dec" "fits enc dec"
  for enc :: "'e \<Rightarrow> string" and dec
proof (unfold_locales, goal_cases)
  case (1 f q e)
  then show ?case using push_holds(1)[of enc dec f q e PushDone] by (simp add: disk_push_def)
next
  case (2 f q)
  have "queue_lines True f = Some (map enc q)" using 2 by (rule lines_hold_readable)
  with peek_exact[OF 2, of "[]"] show ?case by (simp add: disk_peek_def next_io_def split: list.splits)
next
  case (3 f q)
  have "fst (queue_pop PopDone f)" using lines_hold_readable[OF 3] by (auto simp: queue_pop_def split: list.splits)
  then show ?case using pop_holds[OF 3, of PopDone] by (simp add: disk_pop_def)
qed



section \<open>No trade is lost\<close>

lemma persist_holds:
  assumes "holds enc dec fl q" "\<forall>e\<in>set es. fits enc dec e" "\<forall>io\<in>set ios. \<forall>n. io \<noteq> PushShort n"
  shows "\<exists>q'. holds enc dec (fst (persist enc ios fl es)) (q @ q') \<and> set q' \<subseteq> set es
    \<and> set (snd (persist enc ios fl es)) \<subseteq> set es \<and> set es \<subseteq> set q' \<union> set (snd (persist enc ios fl es))"
  using assms
proof (induction es arbitrary: ios fl q)
  case Nil
  then show ?case by (intro exI[of _ "[]"]) simp
next
  case (Cons e es)
  have io: "\<forall>n. next_push ios \<noteq> PushShort n" "\<forall>io\<in>set (tl ios). \<forall>n. io \<noteq> PushShort n"
    using Cons.prems(3) by (cases ios; simp add: next_push_def)+
  let ?f1 = "snd (queue_push enc (next_push ios) fl e)"
  let ?x = "if next_push ios = PushNoFile then [] else [e]"
  have e: "fits enc dec e" using Cons.prems(2) by simp
  have "holds enc dec ?f1 (q @ ?x)" 
    using push_holds(1)[OF Cons.prems(1) e io(1)] by (cases "next_push ios = PushNoFile") simp_all
  from Cons.IH[OF this _ io(2)] Cons.prems(2) obtain q' where
    q': "holds enc dec (fst (persist enc (tl ios) ?f1 es)) ((q @ ?x) @ q')" "set q' \<subseteq> set es"
      "set (snd (persist enc (tl ios) ?f1 es)) \<subseteq> set es"
      "set es \<subseteq> set q' \<union> set (snd (persist enc (tl ios) ?f1 es))"
    by auto
  have ok: "fst (queue_push enc (next_push ios) fl e) \<longleftrightarrow> next_push ios = PushDone"
    using push_holds(2)[OF Cons.prems(1) e io(1)] .
  show ?case
    using q' ok by (intro exI[of _ "?x @ q'"]) (auto simp: split_beta)
qed

text \<open>A turn of the draining loop takes the oldest trades in order; all but the last it sends were
  accepted or refused for good and left the queue.\<close>

lemma drain_holds:
  assumes "holds enc dec fl q"
  shows "\<exists>k. holds enc dec (snd (snd (drain show_status dec ios fl))) (drop k q)
    \<and> map fst (fst (drain show_status dec ios fl)) = take (length (fst (drain show_status dec ios fl))) q
    \<and> k \<le> length (fst (drain show_status dec ios fl)) \<and> length (fst (drain show_status dec ios fl)) \<le> k + 1
    \<and> (\<forall>i<k. removes_from_queue (snd (fst (drain show_status dec ios fl) ! i)))"
  using assms
proof (induction q arbitrary: ios fl)
  case Nil
  then show ?case
    using peek_exact[OF Nil, of "dr_peek (ios 0)"] by (intro exI[of _ 0]) (auto simp: drain.simps[of show_status dec ios fl])
next
  case (Cons e q)
  note unf = drain.simps[of show_status dec ios fl]
  let ?out = "trade_send show_status (dr_reply (ios 0))"
  show ?case
  proof (cases "queue_lines (fst (next_io (dr_peek (ios 0)))) fl = None")
    case True
    then show ?thesis using peek_exact[OF Cons.prems, of "dr_peek (ios 0)"] Cons.prems unf by (intro exI[of _ 0]) simp
  next
    case False
    then have peek: "queue_peek dec (dr_peek (ios 0)) fl = (Some (Some e), fl)"
      using peek_exact[OF Cons.prems, of "dr_peek (ios 0)"] by simp
    have pop: "holds enc dec (snd (queue_pop (dr_pop (ios 0)) fl)) (if fst (queue_pop (dr_pop (ios 0)) fl) then q else e # q)"
      
      using pop_holds[OF Cons.prems, of "dr_pop (ios 0)"] by (simp split: if_splits)
    show ?thesis
    proof (cases "removes_from_queue ?out \<and> fst (queue_pop (dr_pop (ios 0)) fl)")
      case True
      let ?rest = "drain show_status dec (\<lambda>n. ios (Suc n)) (snd (queue_pop (dr_pop (ios 0)) fl))"
      have d: "drain show_status dec ios fl = ((e, ?out) # fst ?rest, snd ?rest)"
        using unf peek True by (simp add: Let_def split_beta)
      obtain k where k: "holds enc dec (snd (snd ?rest)) (drop k q)"
          "map fst (fst ?rest) = take (length (fst ?rest)) q" "k \<le> length (fst ?rest)" "length (fst ?rest) \<le> k + 1"
          "\<forall>i<k. removes_from_queue (snd (fst ?rest ! i))"
        using Cons.IH[of "snd (queue_pop (dr_pop (ios 0)) fl)" "\<lambda>n. ios (Suc n)"] pop True by auto
      show ?thesis
        unfolding d using k True by (intro exI[of _ "Suc k"]) (auto simp: less_Suc_eq_0_disj)
    next
      case False
      then have "fst (drain show_status dec ios fl) = [(e, ?out)]"
          "snd (snd (drain show_status dec ios fl)) = fl \<or>
           snd (snd (drain show_status dec ios fl)) = snd (queue_pop (dr_pop (ios 0)) fl) \<and> \<not> fst (queue_pop (dr_pop (ios 0)) fl)"
        using unf peek by (auto simp: Let_def)
      then show ?thesis using pop Cons.prems by (intro exI[of _ 0]) auto
    qed
  qed
qed

text \<open>A trade is accounted for when it waits in memory, waits in the file, or was sent and got an
  answer that ends it.\<close>

definition ended :: "('e \<times> trade_outcome) list \<Rightarrow> 'e set" where
  "ended sent = {e. \<exists>o1. (e, o1) \<in> set sent \<and> removes_from_queue o1}"

definition accounts ::
  "(incoming_trade \<Rightarrow> string) \<Rightarrow> (string \<Rightarrow> incoming_trade option) \<Rightarrow> helper \<Rightarrow> incoming_trade set \<Rightarrow> bool" where
  "accounts enc dec h seen \<longleftrightarrow>
     (\<exists>q. holds enc dec (hp_file h) q \<and> (\<forall>e\<in>seen. fits enc dec e)
        \<and> set (hp_pending h) \<union> set q \<union> fst ` set (hp_sent h) \<subseteq> seen
        \<and> seen \<subseteq> set (hp_pending h) \<union> set q \<union> ended (hp_sent h))"

lemma drain_accounts:
  assumes "holds enc dec fl q" "drain show_status dec ios fl = (sent, w, fl2)"
  shows "\<exists>q2. holds enc dec fl2 q2 \<and> set q2 \<subseteq> set q \<and> fst ` set sent \<subseteq> set q \<and> set q \<subseteq> set q2 \<union> ended sent"
proof -
  obtain k where k: "holds enc dec fl2 (drop k q)" "map fst sent = take (length sent) q" "k \<le> length sent"
      "\<forall>i<k. removes_from_queue (snd (sent ! i))"
    using drain_holds[OF assms(1), of show_status ios] assms(2) by auto
  have "set (take k q) \<subseteq> ended sent"
  proof
    fix e assume "e \<in> set (take k q)"
    then obtain i where i: "i < k" "i < length q" "q ! i = e" by (auto simp: in_set_conv_nth)
    have il: "i < length sent" using i(1) k(3) by simp
    then have "fst (sent ! i) = e" using k(2) i(3) by (metis nth_map nth_take)
    then have "(e, snd (sent ! i)) \<in> set sent" using il by (metis nth_mem prod.collapse)
    then show "e \<in> ended sent" using k(4) i(1) by (auto simp: ended_def)
  qed
  moreover have "set q = set (take k q) \<union> set (drop k q)" by (metis append_take_drop_id set_append)
  moreover have "fst ` set sent \<subseteq> set q" using k(2) by (metis set_map set_take_subset)
  ultimately show ?thesis using k(1) set_drop_subset by blast
qed

lemma turn_accounts:
  assumes "accounts enc dec h seen" "\<forall>io\<in>set (tn_push io). \<forall>n. io \<noteq> PushShort n"
    and "\<forall>e\<in>set (detected sha io h). fits enc dec e"
  shows "accounts enc dec (helper_turn sha enc dec show_status h io) (seen \<union> set (detected sha io h))"
proof -
  obtain q where q: "holds enc dec (hp_file h) q" "\<forall>e\<in>seen. fits enc dec e"
      "set (hp_pending h) \<union> set q \<union> fst ` set (hp_sent h) \<subseteq> seen"
      "seen \<subseteq> set (hp_pending h) \<union> set q \<union> ended (hp_sent h)"
    using assms(1) by (auto simp: accounts_def)
  let ?new = "detected sha io h"
  obtain evs tail1 where t: "tail_poll sha (tn_log io) (hp_tail h) = (evs, tail1)" by force
  obtain fl1 left where p: "persist enc (tn_push io) (hp_file h) (hp_pending h @ ?new) = (fl1, left)" by force
  have "\<forall>e\<in>set (hp_pending h @ ?new). fits enc dec e" using q(2,3) assms(3) by auto
  from persist_holds[OF q(1) this assms(2)] p obtain q1 where q1: "holds enc dec fl1 (q @ q1)"
      "set q1 \<subseteq> set (hp_pending h @ ?new)" "set left \<subseteq> set (hp_pending h @ ?new)"
      "set (hp_pending h @ ?new) \<subseteq> set q1 \<union> set left"
    by auto
  obtain sent w fl2 where d: "drain show_status dec (tn_drain io) fl1 = (sent, w, fl2)" by (rule prod_cases3)
  obtain q2 where q2: "holds enc dec fl2 q2" "set q2 \<subseteq> set (q @ q1)" "fst ` set sent \<subseteq> set (q @ q1)"
      "set (q @ q1) \<subseteq> set q2 \<union> ended sent"
    using drain_accounts[OF q1(1) d] by blast
  have new: "queued_events (tn_stamps io) evs = ?new" using t by (simp add: detected_def)
  have ended: "ended (hp_sent h @ sent) = ended (hp_sent h) \<union> ended sent" by (auto simp: ended_def)
  show ?thesis
  proof (cases "case hp_wait h of None \<Rightarrow> True | Some until \<Rightarrow> until \<le> tn_now io")
    case True
    then have "helper_turn sha enc dec show_status h io =
        h\<lparr>hp_tail := tail1, hp_file := fl2, hp_pending := left, hp_wait := w, hp_sent := hp_sent h @ sent\<rparr>"
      using t p d new by (simp add: helper_turn_def)
    moreover have "seen \<union> set ?new \<subseteq> set left \<union> set q2 \<union> (ended (hp_sent h) \<union> ended sent)"
      using q(4) q1(4) q2(4) unfolding set_append by blast
    moreover have "set left \<union> set q2 \<union> fst ` set (hp_sent h @ sent) \<subseteq> seen \<union> set ?new"
      using q(3) q1(2,3) q2(2,3) unfolding set_append image_Un by blast
    ultimately show ?thesis
      unfolding accounts_def using q(2) q2(1) assms(3) ended by (intro exI[of _ q2]) auto
  next
    case False
    then have "helper_turn sha enc dec show_status h io = h\<lparr>hp_tail := tail1, hp_file := fl1, hp_pending := left\<rparr>"
      using t p new by (simp add: helper_turn_def)
    moreover have "seen \<union> set ?new \<subseteq> set left \<union> set (q @ q1) \<union> ended (hp_sent h)" using q(4) q1(4) by auto
    moreover have "set left \<union> set (q @ q1) \<union> fst ` set (hp_sent h) \<subseteq> seen \<union> set ?new" using q(3) q1(2,3) by auto
    ultimately show ?thesis
      unfolding accounts_def using q(2) q1(1) assms(3) by (intro exI[of _ "q @ q1"]) auto
  qed
qed

fun helper_turns ::
  "(string \<Rightarrow> string) \<Rightarrow> (incoming_trade \<Rightarrow> string) \<Rightarrow> (string \<Rightarrow> incoming_trade option) \<Rightarrow> (nat \<Rightarrow> string)
     \<Rightarrow> helper \<Rightarrow> turn_io list \<Rightarrow> helper" where
  "helper_turns sha enc dec show_status h [] = h"
| "helper_turns sha enc dec show_status h (io # ios) =
     helper_turns sha enc dec show_status (helper_turn sha enc dec show_status h io) ios"

text \<open>The trades the tail reported during a run.\<close>

fun all_detected ::
  "(string \<Rightarrow> string) \<Rightarrow> (incoming_trade \<Rightarrow> string) \<Rightarrow> (string \<Rightarrow> incoming_trade option) \<Rightarrow> (nat \<Rightarrow> string)
     \<Rightarrow> helper \<Rightarrow> turn_io list \<Rightarrow> incoming_trade set" where
  "all_detected sha enc dec show_status h [] = {}"
| "all_detected sha enc dec show_status h (io # ios) =
     set (detected sha io h) \<union> all_detected sha enc dec show_status (helper_turn sha enc dec show_status h io) ios"

lemma turns_account:
  assumes "accounts enc dec h seen" "\<forall>io\<in>set ios. \<forall>p\<in>set (tn_push io). \<forall>n. p \<noteq> PushShort n"
    and "\<forall>e\<in>all_detected sha enc dec show_status h ios. fits enc dec e"
  shows "accounts enc dec (helper_turns sha enc dec show_status h ios)
    (seen \<union> all_detected sha enc dec show_status h ios)"
  using assms
proof (induction ios arbitrary: h seen)
  case (Cons io ios)
  have "accounts enc dec (helper_turn sha enc dec show_status h io) (seen \<union> set (detected sha io h))"
    by (rule turn_accounts) (use Cons.prems in auto)
  from Cons.IH[OF this] Cons.prems show ?case by (simp add: Un_assoc)
qed simp

text \<open>
  C26. No detected trade is lost and none is invented: after any number of turns, whatever the disk
  and the server answer as long as no write stops half way, every trade detected or found in the
  queue at the start still waits (in memory or in the file) or was sent and either accepted or
  refused for good.
\<close>

theorem helper_keeps_every_trade:
  assumes "holds enc dec queue q0"
    and "\<forall>io\<in>set ios. \<forall>p\<in>set (tn_push io). \<forall>n. p \<noteq> PushShort n"
    and "\<forall>e\<in>all_detected sha enc dec show_status (helper_start len queue) ios. fits enc dec e"
  shows "accounts enc dec (helper_turns sha enc dec show_status (helper_start len queue) ios)
    (set q0 \<union> all_detected sha enc dec show_status (helper_start len queue) ios)"
proof (rule turns_account[OF _ assms(2,3)])
  show "accounts enc dec (helper_start len queue) (set q0)"
    using assms(1) by (auto simp: accounts_def helper_start_def ended_def holds_def)
qed

text \<open>
  One turn of the draining loop sends the oldest trades of the queue in order, at most one more
  than it removes: every trade before the last was accepted or refused for good, and the first
  failure ends the turn.
\<close>

theorem drain_sends_oldest_first:
  assumes "holds enc dec queue q"
  shows "\<exists>k. map fst (fst (drain show_status dec ios queue)) = take (length (fst (drain show_status dec ios queue))) q
    \<and> holds enc dec (snd (snd (drain show_status dec ios queue))) (drop k q)
    \<and> k \<le> length (fst (drain show_status dec ios queue)) \<and> length (fst (drain show_status dec ios queue)) \<le> k + 1
    \<and> (\<forall>i<k. removes_from_queue (snd (fst (drain show_status dec ios queue) ! i)))"
  using drain_holds[OF assms, of show_status ios] by blast

text \<open>A trade found in the queue, and one detected while the server is down.\<close>

definition demo_enc :: "incoming_trade \<Rightarrow> string" where
  "demo_enc e = (if in_event_id e = demo_id then ''a'' else ''b'')"

definition demo_detected :: incoming_trade where
  "demo_detected = \<lparr>in_event_id = te_event_id (short_event id), in_detected_at = ''now'', in_trade = te_trade (short_event id)\<rparr>"

definition demo_dec :: "string \<Rightarrow> incoming_trade option" where
  "demo_dec s = (if s = ''a'' then Some demo_incoming else if s = ''b'' then Some demo_detected else None)"

definition demo_turn :: turn_io where
  "demo_turn =
     \<lparr>tn_log = \<lparr>lo_len = Some (length short_log), lo_open_ok = True, lo_seek_ok = True, lo_content = Some short_log\<rparr>,
      tn_stamps = (\<lambda>_. ''now''), tn_push = [PushUnsynced], tn_now = 0,
      tn_drain = (\<lambda>n. \<lparr>dr_peek = [], dr_reply = (if n = 0 then HttpReply 200 (Inr ''applied'') else HttpError ''down''),
                        dr_pop = PopDone, dr_now = 0\<rparr>)\<rparr>"

lemma demo_fits: "fits demo_enc demo_dec demo_incoming \<and> fits demo_enc demo_dec demo_detected"
proof -
  have "te_event_id (short_event id) = ''0a''" by code_simp
  moreover have "demo_id \<noteq> ''0a''" by code_simp
  moreover have "text_trim ''a'' \<noteq> [] \<and> text_trim ''b'' \<noteq> [] \<and> utf8_valid ''a'' \<and> utf8_valid ''b''" by code_simp
  ultimately show ?thesis
    by (simp add: fits_def demo_enc_def demo_dec_def demo_incoming_def demo_detected_def newline_def carriage_return_def)
qed

lemma demo_detects: "detected id demo_turn (helper_start (Some 0) queue) = [demo_detected]"
proof -
  have "length short_log \<noteq> 0" by (simp add: short_log_def START_def)
  then have "fst (tail_poll id (tn_log demo_turn) (start_at_end (Some 0))) = [short_event id]"
    using short_log_scan[of id] by (simp add: tail_poll_def demo_turn_def start_at_end_def read_from_def Let_def)
  then show ?thesis
    by (simp add: detected_def helper_start_def queued_events_def demo_detected_def demo_turn_def)
qed

lemma helper_keeps_every_trade_witness:
  "accounts demo_enc demo_dec
     (helper_turns id demo_enc demo_dec show_nat (helper_start (Some 0) (Some (render demo_enc [demo_incoming]))) [demo_turn])
     {demo_incoming, demo_detected}"
proof -
  let ?q = "Some (render demo_enc [demo_incoming])"
  have "holds demo_enc demo_dec ?q [demo_incoming]" using demo_fits by (simp add: holds_def)
  moreover have "\<forall>io\<in>set [demo_turn]. \<forall>p\<in>set (tn_push io). \<forall>n. p \<noteq> PushShort n" by (simp add: demo_turn_def)
  moreover have all: "all_detected id demo_enc demo_dec show_nat (helper_start (Some 0) ?q) [demo_turn] = {demo_detected}"
    by (simp add: demo_detects)
  moreover have "\<forall>e\<in>{demo_detected}. fits demo_enc demo_dec e" using demo_fits by simp
  ultimately have "accounts demo_enc demo_dec (helper_turns id demo_enc demo_dec show_nat (helper_start (Some 0) ?q) [demo_turn])
      (set [demo_incoming] \<union> {demo_detected})"
    using helper_keeps_every_trade[of demo_enc demo_dec ?q "[demo_incoming]" "[demo_turn]" id show_nat "Some 0"] by simp
  then show ?thesis by (simp add: insert_commute)
qed

lemma drain_sends_oldest_first_witness:
  "\<exists>k. map fst (fst (drain show_nat demo_dec (tn_drain demo_turn) (Some (render demo_enc [demo_incoming, demo_detected]))))
      = take (length (fst (drain show_nat demo_dec (tn_drain demo_turn) (Some (render demo_enc [demo_incoming, demo_detected])))))
          [demo_incoming, demo_detected]
    \<and> k \<le> length (fst (drain show_nat demo_dec (tn_drain demo_turn) (Some (render demo_enc [demo_incoming, demo_detected]))))"
proof -
  have "holds demo_enc demo_dec (Some (render demo_enc [demo_incoming, demo_detected])) [demo_incoming, demo_detected]"
    using demo_fits by (simp add: holds_def)
  from drain_sends_oldest_first[OF this, of show_nat "tn_drain demo_turn"] show ?thesis by blast
qed

text \<open>A write that stops half way leaves a piece of a line. The next push goes on in that line, which
  is then corrupt and dropped: the trade is lost although its second push succeeded.\<close>

lemma short_write_loses_the_trade:
  assumes "fits enc dec e" "dec (take n (enc e) @ enc e) = None" "n \<le> length (enc e)"
    and "utf8_valid (take n (enc e))" "text_trim (take n (enc e) @ enc e) \<noteq> []"
  shows "fst (queue_peek dec [] (fst (persist enc [] (snd (queue_push enc (PushShort n) None e)) [e]))) = Some None"
proof -
  let ?l = "take n (enc e) @ enc e"
  have nl: "newline \<notin> set ?l" "carriage_return \<notin> set ?l" using assms(1) by (auto simp: fits_def dest: in_set_takeD)
  have f: "fst (persist enc [] (snd (queue_push enc (PushShort n) None e)) [e]) = Some (?l @ [newline])"
    using assms(3) by (simp add: queue_push_def next_push_def)
  have "str_split newline (?l @ [newline]) = [?l, []]" using nl(1) str_split_cons[of newline ?l "[]"] by simp
  moreover have "strip_cr ?l = ?l" using nl(2) by (rule strip_cr_id)
  ultimately have lines: "queue_lines True (Some (?l @ [newline])) = Some [?l]"
    using assms(1,4,5) by (simp add: queue_lines_def text_lines_def Let_def utf8_valid_append fits_def)
  have pop: "queue_pop PopDone (Some (?l @ [newline])) = (True, Some [])"
    using lines by (simp add: queue_pop_def joined_lines_def)
  have "queue_peek dec [] (Some (?l @ [newline])) = queue_peek dec [] (Some [])"
    using lines pop assms(2) by (subst queue_peek.simps) (simp add: next_io_def)
  also have "fst \<dots> = Some None"
    by (simp add: queue_peek.simps[of dec "[]" "Some []"] next_io_def queue_lines_def text_lines_def)
  finally show ?thesis using f by simp
qed

section \<open>The server takes the ids\<close>

lemma hex_byte_chars: "c \<in> set (hex_byte b) \<Longrightarrow> let n = of_char c :: nat in 48 \<le> n \<and> n \<le> 57 \<or> 97 \<le> n \<and> n \<le> 102"
proof -
  have digit: "let n = of_char (hex_digit d) :: nat in 48 \<le> n \<and> n \<le> 57 \<or> 97 \<le> n \<and> n \<le> 102" if "d < 16" for d
    using that by (auto simp: hex_digit_def Let_def)
  assume "c \<in> set (hex_byte b)"
  then have "c = hex_digit (of_char b div 16) \<or> c = hex_digit (of_char b mod 16)"
    by (simp add: hex_byte_def Let_def)
  moreover have "(of_char b :: nat) div 16 < 16" "(of_char b :: nat) mod 16 < 16" using nat_of_char_less_256[of b] by (simp_all add: less_mult_imp_div_less)
  ultimately show ?thesis using digit by blast
qed

text \<open>
  C27. Whatever EE.log holds, every trade the scanner reports carries an id the server accepts: the
  64 lower-case hexadecimal digits its check of a report asks for.
\<close>

theorem scanned_ids_are_valid:
  assumes "\<forall>text. length (sha text) = 32" "ev \<in> set (scan_all sha bytes)"
  shows "is_hex_id (te_event_id ev)"
proof -
  have "\<exists>t d. te_event_id ev = event_id sha t d" if "reads sha w evs" "ev \<in> set evs" for w evs
    using that by (induction rule: reads.induct) force+
  with assms(2) events_are_confirmed_trades obtain t d where id: "te_event_id ev = event_id sha t d" by blast
  have "length (concat (map hex_byte s)) = 2 * length s" for s by (induction s) (auto simp: hex_byte_def Let_def)
  then have "length (event_id sha t d) = 64" using assms(1) by (simp add: event_id_def)
  moreover have "list_all (\<lambda>c. let n = of_char c :: nat in 48 \<le> n \<and> n \<le> 57 \<or> 97 \<le> n \<and> n \<le> 102) (event_id sha t d)"
    using hex_byte_chars by (fastforce simp: event_id_def list_all_iff)
  ultimately show ?thesis by (simp add: is_hex_id_def id)
qed

lemma scanned_ids_are_valid_witness:
  "is_hex_id (te_event_id (short_event (\<lambda>text. take 32 (text @ replicate 32 (CHR 0x00)))))"
proof -
  let ?sha = "\<lambda>text. take 32 (text @ replicate 32 (CHR 0x00))"
  have "\<forall>text. length (?sha text) = 32" by (simp add: min_def)
  moreover have "short_event ?sha \<in> set (scan_all ?sha short_log)" by (simp add: scan_all_def short_log_scan)
  ultimately show ?thesis by (rule scanned_ids_are_valid)
qed


end
