(* ===== verification/Web_Server.thy ===== *)
theory Web_Server
  imports Session_Health Helper_Queue
begin

text \<open>
  The HTTP server in front of the program: the device keys of the helper
  (\<open>qf_core/src/helper_link/keys.rs\<close>), the sessions and the limit on logins of the web interface
  (\<open>qf-server/src/auth.rs\<close>) and the guards of the routes (\<open>routes.rs\<close>). Random bytes, SHA-256, the
  password check and the readers of request bodies are parameters.
\<close>

section \<open>Device keys\<close>

definition db_err :: "string \<Rightarrow> string \<Rightarrow> qf_error" where
  "db_err component e = new_error component e"

definition KEY_PREFIX :: string where
  "KEY_PREFIX = ''qfh_''"

definition MAX_NAME_CHARS :: nat where
  "MAX_NAME_CHARS = 64"

record helper_device =
  hd_id :: int
  hd_name :: string
  hd_key_hash :: string
  hd_created_at :: stamp
  hd_last_seen_at :: "stamp option"
  hd_revoked_at :: "stamp option"

text \<open>The table \<open>helper_keys\<close> with its automatic key: an id is never given out twice. \<open>key_hash\<close> is
  unique.\<close>

record key_table =
  kt_rows :: "helper_device list"
  kt_seq :: int

definition no_keys :: key_table where
  "no_keys = \<lparr>kt_rows = [], kt_seq = 0\<rparr>"

definition hash_key :: "(string \<Rightarrow> string) \<Rightarrow> string \<Rightarrow> string" where
  "hash_key sha key = concat (map hex_byte (sha key))"

definition generate_key :: "string + string \<Rightarrow> qf_error + string" where
  "generate_key random =
     (case random of
        Inl e \<Rightarrow> Inl (new_error ''HelperLink:Key'' (''OS random number generator unavailable: '' @ e))
      | Inr bytes \<Rightarrow> Inr (KEY_PREFIX @ concat (map hex_byte bytes)))"

text \<open>\<open>chars().count()\<close> of UTF-8: the bytes that begin a character.\<close>

definition char_count :: "string \<Rightarrow> nat" where
  "char_count s = length (filter (\<lambda>c. \<not> continuation (of_char c)) s)"

definition key_create ::
  "(string \<Rightarrow> string) \<Rightarrow> string + string \<Rightarrow> string option \<Rightarrow> string option \<Rightarrow> key_table \<Rightarrow> string \<Rightarrow> utc
     \<Rightarrow> (qf_error + helper_device \<times> string) \<times> key_table" where
  "key_create sha random insert_err query_err kt name0 now =
     (let name = text_trim name0
      in if name = [] \<or> MAX_NAME_CHARS < char_count name
         then (Inl (new_error ''HelperLink:Create'' ''Device name must be 1-64 characters''), kt)
         else case generate_key random of
           Inl e \<Rightarrow> (Inl e, kt)
         | Inr key \<Rightarrow>
             (let h = hash_key sha key
              in case insert_err of
                   Some e \<Rightarrow> (Inl (db_err ''HelperLink:Create'' e), kt)
                 | None \<Rightarrow>
                     (if h \<in> hd_key_hash ` set (kt_rows kt)
                      then (Inl (db_err ''HelperLink:Create'' ''UNIQUE constraint failed: helper_keys.key_hash''), kt)
                      else let d = \<lparr>hd_id = kt_seq kt + 1, hd_name = name, hd_key_hash = h, hd_created_at = ts now,
                                    hd_last_seen_at = None, hd_revoked_at = None\<rparr>;
                               kt1 = \<lparr>kt_rows = kt_rows kt @ [d], kt_seq = kt_seq kt + 1\<rparr>
                           in case query_err of
                                Some e \<Rightarrow> (Inl (db_err ''HelperLink:Create'' e), kt1)
                              | None \<Rightarrow> (Inr (d, key), kt1))))"

text \<open>\<open>ORDER BY revoked_at IS NOT NULL, id DESC\<close>.\<close>

definition key_list :: "key_table \<Rightarrow> helper_device list" where
  "key_list kt =
     sort_key (\<lambda>d. if hd_revoked_at d = None then 0 else 1 :: int)
       (sort_key (\<lambda>d. - hd_id d) (kt_rows kt))"

definition key_revoke :: "string option \<Rightarrow> key_table \<Rightarrow> int \<Rightarrow> utc \<Rightarrow> (qf_error + bool) \<times> key_table" where
  "key_revoke err kt i now =
     (case err of
        Some e \<Rightarrow> (Inl (db_err ''HelperLink:Revoke'' e), kt)
      | None \<Rightarrow>
          (let hits = filter (\<lambda>d. hd_id d = i \<and> hd_revoked_at d = None) (kt_rows kt)
           in (Inr (hits \<noteq> []),
               kt\<lparr>kt_rows := map (\<lambda>d. if hd_id d = i \<and> hd_revoked_at d = None
                                       then d\<lparr>hd_revoked_at := Some (ts now)\<rparr> else d) (kt_rows kt)\<rparr>)))"

record device_identity =
  di_id :: int
  di_name :: string

definition authenticate ::
  "(string \<Rightarrow> string) \<Rightarrow> string option \<Rightarrow> string option \<Rightarrow> key_table \<Rightarrow> string \<Rightarrow> utc
     \<Rightarrow> (qf_error + device_identity option) \<times> key_table" where
  "authenticate sha query_err update_err kt key now =
     (if \<not> starts_with key KEY_PREFIX then (Inr None, kt)
      else case query_err of
        Some e \<Rightarrow> (Inl (db_err ''HelperLink:Authenticate'' e), kt)
      | None \<Rightarrow>
          (case List.find (\<lambda>d. hd_key_hash d = hash_key sha key \<and> hd_revoked_at d = None) (kt_rows kt) of
             None \<Rightarrow> (Inr None, kt)
           | Some d \<Rightarrow>
               (case update_err of
                  Some e \<Rightarrow> (Inl (db_err ''HelperLink:Authenticate'' e), kt)
                | None \<Rightarrow>
                    (Inr (Some \<lparr>di_id = hd_id d, di_name = hd_name d\<rparr>),
                     kt\<lparr>kt_rows := row_modify hd_id (hd_id d) (\<lambda>r. r\<lparr>hd_last_seen_at := Some (ts now)\<rparr>) (kt_rows kt)\<rparr>))))"

datatype key_op =
    KeyCreate "string + string" "string option" "string option" string utc
  | KeyRevoke "string option" int utc
  | KeyAuth "string option" "string option" string utc

fun key_step :: "(string \<Rightarrow> string) \<Rightarrow> key_table \<Rightarrow> key_op \<Rightarrow> key_table" where
  "key_step sha kt (KeyCreate random e1 e2 name now) = snd (key_create sha random e1 e2 kt name now)"
| "key_step sha kt (KeyRevoke e i now) = snd (key_revoke e kt i now)"
| "key_step sha kt (KeyAuth e1 e2 key now) = snd (authenticate sha e1 e2 kt key now)"

definition keys_inv :: "key_table \<Rightarrow> bool" where
  "keys_inv kt \<longleftrightarrow> distinct (map hd_id (kt_rows kt)) \<and> distinct (map hd_key_hash (kt_rows kt))
     \<and> (\<forall>d\<in>set (kt_rows kt). 0 < hd_id d \<and> hd_id d \<le> kt_seq kt) \<and> 0 \<le> kt_seq kt"

lemma keys_inv_start: "keys_inv no_keys"
  by (simp add: keys_inv_def no_keys_def)

lemma map_id_fields:
  assumes "\<And>d. hd_id (f d) = hd_id d" "\<And>d. hd_key_hash (f d) = hd_key_hash d"
  shows "keys_inv (kt\<lparr>kt_rows := map f (kt_rows kt)\<rparr>) \<longleftrightarrow> keys_inv kt"
  using assms by (simp add: keys_inv_def comp_def)

lemma keys_inv_step:
  assumes "keys_inv kt"
  shows "keys_inv (key_step sha kt op)"
proof (cases op)
  case (KeyCreate random e1 e2 name now)
  let ?d = "\<lambda>h. \<lparr>hd_id = kt_seq kt + 1, hd_name = text_trim name, hd_key_hash = h, hd_created_at = ts now,
    hd_last_seen_at = None, hd_revoked_at = None\<rparr>"
  have "keys_inv \<lparr>kt_rows = kt_rows kt @ [?d h], kt_seq = kt_seq kt + 1\<rparr>" if "h \<notin> hd_key_hash ` set (kt_rows kt)" for h
    using assms that by (fastforce simp: keys_inv_def)
  with assms show ?thesis
    using KeyCreate by (auto simp: key_create_def Let_def split: sum.splits option.splits)
next
  case (KeyRevoke e i now)
  have "keys_inv (kt\<lparr>kt_rows := map (\<lambda>d. if hd_id d = i \<and> hd_revoked_at d = None
      then d\<lparr>hd_revoked_at := Some (ts now)\<rparr> else d) (kt_rows kt)\<rparr>)"
    using assms by (subst map_id_fields) simp_all
  with assms KeyRevoke show ?thesis by (simp add: key_revoke_def Let_def split: option.split)
next
  case (KeyAuth e1 e2 key now)
  have "keys_inv (kt\<lparr>kt_rows := row_modify hd_id j (\<lambda>r. r\<lparr>hd_last_seen_at := Some (ts now)\<rparr>) (kt_rows kt)\<rparr>)" for j
    using assms unfolding row_modify_def by (subst map_id_fields) simp_all
  with assms KeyAuth show ?thesis by (simp add: authenticate_def split: option.split)
qed

text \<open>A key as its device knows it: opens the door, or opened it before it was revoked.\<close>

definition opens :: "(string \<Rightarrow> string) \<Rightarrow> key_table \<Rightarrow> string \<Rightarrow> bool" where
  "opens sha kt key \<longleftrightarrow> starts_with key KEY_PREFIX
     \<and> (\<exists>d\<in>set (kt_rows kt). hd_key_hash d = hash_key sha key \<and> hd_revoked_at d = None)"

definition key_closed :: "(string \<Rightarrow> string) \<Rightarrow> key_table \<Rightarrow> string \<Rightarrow> bool" where
  "key_closed sha kt key \<longleftrightarrow>
     (\<exists>d\<in>set (kt_rows kt). hd_key_hash d = hash_key sha key \<and> hd_revoked_at d \<noteq> None)"

lemma authenticates_iff:
  "(\<exists>di. fst (authenticate sha None None kt key now) = Inr (Some di)) \<longleftrightarrow> opens sha kt key"
  by (auto simp: authenticate_def opens_def find_None_iff find_Some_iff split: option.splits)

lemma not_opens_refused: "\<not> opens sha kt key \<Longrightarrow> fst (authenticate sha None None kt key now) = Inr None"
  by (auto simp: authenticate_def opens_def find_Some_iff split: option.splits)

lemma closed_not_opens: "keys_inv kt \<Longrightarrow> key_closed sha kt key \<Longrightarrow> \<not> opens sha kt key"
  by (auto simp: keys_inv_def key_closed_def opens_def distinct_map) (metis inj_onD option.distinct(1))

lemma closed_map:
  assumes "\<And>d. hd_key_hash (f d) = hd_key_hash d" "\<And>d. hd_revoked_at d \<noteq> None \<Longrightarrow> hd_revoked_at (f d) \<noteq> None"
  shows "key_closed sha kt key \<Longrightarrow> key_closed sha (kt\<lparr>kt_rows := map f (kt_rows kt)\<rparr>) key"
  using assms by (fastforce simp: key_closed_def)

lemma closed_stays:
  assumes "key_closed sha kt key"
  shows "key_closed sha (key_step sha kt op) key"
proof (cases op)
  case (KeyCreate random e1 e2 name now)
  then show ?thesis
    using assms by (auto simp: key_create_def key_closed_def Let_def split: sum.splits option.splits)
next
  case (KeyRevoke e i now)
  have "key_closed sha (kt\<lparr>kt_rows := map (\<lambda>d. if hd_id d = i \<and> hd_revoked_at d = None
      then d\<lparr>hd_revoked_at := Some (ts now)\<rparr> else d) (kt_rows kt)\<rparr>) key"
    by (rule closed_map[OF _ _ assms]) auto
  with assms KeyRevoke show ?thesis by (simp add: key_revoke_def Let_def split: option.split)
next
  case (KeyAuth e1 e2 k now)
  have "key_closed sha (kt\<lparr>kt_rows := row_modify hd_id j (\<lambda>r. r\<lparr>hd_last_seen_at := Some (ts now)\<rparr>) (kt_rows kt)\<rparr>) key" for j
    unfolding row_modify_def by (rule closed_map[OF _ _ assms]) auto
  with KeyAuth assms show ?thesis by (simp add: authenticate_def split: option.split)
qed

text \<open>The row of a device keeps its id and hash; it stays open until its own id is revoked.\<close>

definition has_row :: "key_table \<Rightarrow> int \<Rightarrow> string \<Rightarrow> bool \<Rightarrow> bool" where
  "has_row kt i h live \<longleftrightarrow>
     (\<exists>d\<in>set (kt_rows kt). hd_id d = i \<and> hd_key_hash d = h \<and> (live \<longrightarrow> hd_revoked_at d = None))"

lemma has_row_map:
  assumes "\<And>d. hd_id (f d) = hd_id d \<and> hd_key_hash (f d) = hd_key_hash d"
    and "\<And>d. live \<Longrightarrow> hd_id d = i \<Longrightarrow> hd_revoked_at d = None \<Longrightarrow> hd_revoked_at (f d) = None"
  shows "has_row kt i h live \<Longrightarrow> has_row (kt\<lparr>kt_rows := map f (kt_rows kt)\<rparr>) i h live"
  using assms by (fastforce simp: has_row_def)

lemma row_stays:
  assumes "has_row kt i h live" "live \<Longrightarrow> \<forall>now. op \<noteq> KeyRevoke None i now"
  shows "has_row (key_step sha kt op) i h live"
proof (cases op)
  case (KeyCreate random e1 e2 name now)
  then show ?thesis
    using assms(1) by (auto simp: key_create_def has_row_def Let_def split: sum.splits option.splits)
next
  case (KeyRevoke e j now)
  show ?thesis
  proof (cases e)
    case None
    have "has_row (kt\<lparr>kt_rows := map (\<lambda>d. if hd_id d = j \<and> hd_revoked_at d = None
        then d\<lparr>hd_revoked_at := Some (ts now)\<rparr> else d) (kt_rows kt)\<rparr>) i h live"
      by (rule has_row_map[OF _ _ assms(1)]) (use assms(2) KeyRevoke None in auto)
    with KeyRevoke None show ?thesis by (simp add: key_revoke_def Let_def)
  qed (use assms KeyRevoke in \<open>simp add: key_revoke_def\<close>)
next
  case (KeyAuth e1 e2 k now)
  have "has_row (kt\<lparr>kt_rows := row_modify hd_id j (\<lambda>r. r\<lparr>hd_last_seen_at := Some (ts now)\<rparr>) (kt_rows kt)\<rparr>) i h live" for j
    unfolding row_modify_def by (rule has_row_map[OF _ _ assms(1)]) auto
  with KeyAuth assms show ?thesis by (simp add: authenticate_def split: option.split)
qed

lemma row_stays_run:
  assumes "has_row kt i h live" "live \<Longrightarrow> \<forall>op\<in>set ops. \<forall>now. op \<noteq> KeyRevoke None i now"
  shows "has_row (run (key_step sha) kt ops) i h live"
  using assms by (induction ops arbitrary: kt) (auto intro!: row_stays)

lemma closed_stays_run: "key_closed sha kt key \<Longrightarrow> key_closed sha (run (key_step sha) kt ops) key"
  by (induction ops arbitrary: kt) (auto intro: closed_stays)

lemma keys_inv_run: "keys_inv kt \<Longrightarrow> keys_inv (run (key_step sha) kt ops)"
  by (induction ops arbitrary: kt) (auto intro: keys_inv_step)

lemma created_row:
  assumes "key_create sha random e1 e2 kt name now = (Inr (d, key), kt1)"
  shows "starts_with key KEY_PREFIX \<and> has_row kt1 (hd_id d) (hash_key sha key) True"
  using assms
  by (auto simp: key_create_def has_row_def generate_key_def Let_def split: sum.splits option.splits if_splits)

lemma revoked_closes:
  assumes "has_row kt i (hash_key sha key) live" "fst (key_revoke None kt i now) = Inr True"
  shows "keys_inv kt \<Longrightarrow> key_closed sha (snd (key_revoke None kt i now)) key"
proof -
  assume inv: "keys_inv kt"
  obtain d where d: "d \<in> set (kt_rows kt)" "hd_id d = i" "hd_key_hash d = hash_key sha key"
    using assms(1) by (auto simp: has_row_def)
  have "\<exists>e\<in>set (kt_rows kt). hd_id e = i \<and> hd_revoked_at e = None"
    using assms(2) by (auto simp: key_revoke_def Let_def filter_empty_conv)
  then have "hd_revoked_at d = None" using d inv by (auto simp: keys_inv_def distinct_map dest: inj_onD)
  moreover define f where "f = (\<lambda>d::helper_device. if hd_id d = i \<and> hd_revoked_at d = None then d\<lparr>hd_revoked_at := Some (ts now)\<rparr> else d)"
  ultimately have "f d \<in> f ` set (kt_rows kt)" "hd_key_hash (f d) = hash_key sha key" "hd_revoked_at (f d) \<noteq> None"
    using d by simp_all
  then show ?thesis unfolding key_revoke_def key_closed_def Let_def f_def[symmetric] by auto
qed

text \<open>
  C28. A device key opens the helper's routes from its creation on, whatever else happens to the
  table, until its device is revoked; from then on it is refused for ever.
\<close>

theorem key_opens_until_revoked:
  assumes "key_create sha random e1 e2 (run (key_step sha) no_keys before) name t0 = (Inr (d, key), kt1)"
    and "\<forall>op\<in>set between. \<forall>now. op \<noteq> KeyRevoke None (hd_id d) now"
  shows "(\<exists>di. fst (authenticate sha None None (run (key_step sha) kt1 between) key t1) = Inr (Some di))
    \<and> fst (authenticate sha None None
            (run (key_step sha) (snd (key_revoke None (run (key_step sha) kt1 between) (hd_id d) t2)) after) key t3)
        = Inr None"
proof -
  have "keys_inv (run (key_step sha) no_keys before)" by (rule keys_inv_run[OF keys_inv_start])
  from keys_inv_step[OF this, of sha "KeyCreate random e1 e2 name t0"] assms(1) have inv1: "keys_inv kt1" by simp
  note row = created_row[OF assms(1)]
  let ?kt2 = "run (key_step sha) kt1 between"
  have live: "has_row ?kt2 (hd_id d) (hash_key sha key) True" using row_stays_run row assms(2) by blast
  then have "opens sha ?kt2 key" using row by (auto simp: has_row_def opens_def)
  moreover have inv2: "keys_inv ?kt2" by (rule keys_inv_run[OF inv1])
  have "fst (key_revoke None ?kt2 (hd_id d) t2) = Inr True"
    using live by (auto simp: has_row_def key_revoke_def Let_def filter_empty_conv)
  from revoked_closes[OF live this inv2]
  have "key_closed sha (run (key_step sha) (snd (key_revoke None ?kt2 (hd_id d) t2)) after) key"
    by (rule closed_stays_run)
  moreover have "keys_inv (run (key_step sha) (snd (key_revoke None ?kt2 (hd_id d) t2)) after)"
    using keys_inv_run keys_inv_step[OF inv2, of sha "KeyRevoke None (hd_id d) t2"] by simp
  ultimately show ?thesis
    using closed_not_opens not_opens_refused authenticates_iff by metis
qed

section \<open>Sessions\<close>

definition COOKIE_NAME :: string where
  "COOKIE_NAME = ''qf_session''"

definition COOKIE_MAX_AGE_SECS :: nat where
  "COOKIE_MAX_AGE_SECS = 30 * 24 * 60 * 60"

record web_sessions =
  ss_tokens :: "(string \<times> instant) list"
  ss_ttl :: duration

definition sessions_create :: "string \<Rightarrow> instant \<Rightarrow> web_sessions \<Rightarrow> string \<times> web_sessions" where
  "sessions_create random now ss =
     (let token = concat (map hex_byte random)
      in (token, ss\<lparr>ss_tokens := (token, now + ss_ttl ss) # filter (\<lambda>(t, _). t \<noteq> token) (ss_tokens ss)\<rparr>))"

definition sessions_is_valid :: "string \<Rightarrow> instant \<Rightarrow> web_sessions \<Rightarrow> bool \<times> web_sessions" where
  "sessions_is_valid token now ss =
     (let live = filter (\<lambda>(_, expires). now < expires) (ss_tokens ss)
      in (token \<in> set (map fst live), ss\<lparr>ss_tokens := live\<rparr>))"

definition sessions_remove :: "string \<Rightarrow> web_sessions \<Rightarrow> web_sessions" where
  "sessions_remove token ss = ss\<lparr>ss_tokens := filter (\<lambda>(t, _). t \<noteq> token) (ss_tokens ss)\<rparr>"

section \<open>The limit on logins\<close>

record login_limiter =
  lm_attempts :: "instant list"
  lm_max :: nat
  lm_window :: duration

definition try_acquire :: "instant \<Rightarrow> login_limiter \<Rightarrow> bool \<times> login_limiter" where
  "try_acquire now lm =
     (let recent = dropWhile (\<lambda>t. lm_window lm < max 0 (now - t)) (lm_attempts lm)
      in if lm_max lm \<le> length recent then (False, lm\<lparr>lm_attempts := recent\<rparr>)
         else (True, lm\<lparr>lm_attempts := recent @ [now]\<rparr>))"

text \<open>The instants at which a run of attempts was let through.\<close>

fun let_through :: "login_limiter \<Rightarrow> instant list \<Rightarrow> instant list" where
  "let_through lm [] = []"
| "let_through lm (t # tries) =
     (let (ok, lm') = try_acquire t lm in (if ok then [t] else []) @ let_through lm' tries)"

definition in_span :: "duration \<Rightarrow> instant \<Rightarrow> instant list \<Rightarrow> nat" where
  "in_span w x tries = length (filter (\<lambda>t. x \<le> t \<and> t \<le> x + w) tries)"

lemma dropWhile_sorted:
  "sorted tries \<Longrightarrow> dropWhile (\<lambda>t::int. w < max 0 (now - t)) tries = filter (\<lambda>t. max 0 (now - t) \<le> w) tries"
proof (induction tries)
  case (Cons t tries)
  show ?case
  proof (cases "w < max 0 (now - t)")
    case False
    then have "\<forall>u\<in>set (t # tries). max 0 (now - u) \<le> w" using Cons.prems by auto
    then have "filter (\<lambda>t. max 0 (now - t) \<le> w) (t # tries) = t # tries" by (intro filter_True) blast
    with False show ?thesis by simp
  qed (use Cons in auto)
qed simp

text \<open>The queue holds the attempts let through that still count at the last instant seen.\<close>

definition counts :: "login_limiter \<Rightarrow> instant \<Rightarrow> instant list \<Rightarrow> bool" where
  "counts lm now granted \<longleftrightarrow> sorted granted \<and> (\<forall>t\<in>set granted. t \<le> now)
     \<and> lm_attempts lm = filter (\<lambda>t. now - t \<le> lm_window lm) granted
     \<and> (\<forall>x. in_span (lm_window lm) x granted \<le> lm_max lm)"

lemma acquire_counts:
  assumes "counts lm now granted" "now \<le> t" "0 \<le> lm_window lm" "try_acquire t lm = (ok, lm')"
  shows "counts lm' t (granted @ (if ok then [t] else [])) \<and> lm_max lm' = lm_max lm \<and> lm_window lm' = lm_window lm"
proof -
  let ?w = "lm_window lm"
  have g: "sorted granted" "\<forall>u\<in>set granted. u \<le> now" "lm_attempts lm = filter (\<lambda>u. now - u \<le> ?w) granted"
      "\<And>x. in_span ?w x granted \<le> lm_max lm"
    using assms(1) by (auto simp: counts_def)
  have "sorted (lm_attempts lm)" using g(1,3) by (simp add: sorted_filter[of id, simplified])
  from dropWhile_sorted[OF this, of ?w t]
  have recent: "dropWhile (\<lambda>u. ?w < max 0 (t - u)) (lm_attempts lm) = filter (\<lambda>u. t - u \<le> ?w) granted"
    using g(2) assms(2,3) unfolding g(3) filter_filter by (simp, intro filter_cong) auto
  have ok: "ok \<longleftrightarrow> length (filter (\<lambda>u. t - u \<le> ?w) granted) < lm_max lm"
    and lm': "lm_attempts lm' = filter (\<lambda>u. t - u \<le> ?w) granted @ (if ok then [t] else [])"
      "lm_max lm' = lm_max lm" "lm_window lm' = ?w"
    using assms(4) recent by (auto simp: try_acquire_def Let_def split: if_splits)
  have "in_span ?w x (granted @ [t]) \<le> lm_max lm" if "ok" for x
  proof (cases "x \<le> t \<and> t \<le> x + ?w")
    case True
    then have "in_span ?w x granted \<le> length (filter (\<lambda>u. t - u \<le> ?w) granted)"
      unfolding in_span_def by (induction granted) auto
    with True that ok show ?thesis by (simp add: in_span_def)
  next
    case False
    then show ?thesis using g(4)[of x] by (auto simp: in_span_def)
  qed
  moreover have "sorted (granted @ [t])" "\<forall>u\<in>set granted. u \<le> t" using g(1,2) assms(2) by (auto simp: sorted_append)
  ultimately show ?thesis using g lm' assms(3) by (auto simp: counts_def)
qed

lemma let_through_counts:
  assumes "counts lm now granted" "sorted (now # tries)" "0 \<le> lm_window lm"
  shows "in_span (lm_window lm) x (granted @ let_through lm tries) \<le> lm_max lm"
  using assms
proof (induction tries arbitrary: lm now granted)
  case Nil
  then show ?case by (simp add: counts_def)
next
  case (Cons t tries)
  obtain ok lm' where a: "try_acquire t lm = (ok, lm')" by force
  have c: "counts lm' t (granted @ (if ok then [t] else []))" "lm_max lm' = lm_max lm" "lm_window lm' = lm_window lm"
    using acquire_counts[OF Cons.prems(1) _ Cons.prems(3) a] Cons.prems(2) by auto
  have "sorted (t # tries)" using Cons.prems(2) by simp
  from Cons.IH[OF c(1) this] Cons.prems(3) c(2,3) a show ?case by simp
qed

text \<open>
  C30. However often logins are tried, no stretch of time as long as the window sees more than the
  allowed number of them reach the password check.
\<close>

theorem logins_are_limited:
  assumes "sorted tries" "0 \<le> window"
  shows "in_span window x (let_through \<lparr>lm_attempts = [], lm_max = n, lm_window = window\<rparr> tries) \<le> n"
proof (cases tries)
  case (Cons t us)
  have "counts \<lparr>lm_attempts = [], lm_max = n, lm_window = window\<rparr> t []" by (simp add: counts_def in_span_def)
  from let_through_counts[OF this, of tries] show ?thesis using Cons assms by simp
qed (simp add: in_span_def)

lemma logins_are_limited_witness:
  "in_span 60 0 (let_through \<lparr>lm_attempts = [], lm_max = 2, lm_window = 60\<rparr> [0, 10, 20, 60, 75]) \<le> 2
   \<and> let_through \<lparr>lm_attempts = [], lm_max = 2, lm_window = 60\<rparr> [0, 10, 20, 60, 75] = [0, 10, 75]"
  using logins_are_limited[of "[0, 10, 20, 60, 75]" 60 0 2] by (simp add: try_acquire_def)

section \<open>Headers\<close>

datatype http_method = MGet | MHead | MPost | MOther string

text \<open>What axum matched the path with.\<close>

datatype web_route =
    RHealthz | RLoginPage | RLoginSubmit | RLogout | RRpc string | RWs | RFiles | RHeartbeat | RTrade

record web_request =
  wq_method :: http_method
  wq_path :: string
  wq_route :: web_route
  wq_headers :: "(string \<times> string) list"
  wq_body :: string

text \<open>\<open>HeaderValue::to_str\<close>: visible ASCII and the tab.\<close>

definition header_text :: "string \<Rightarrow> string option" where
  "header_text v = (if list_all (\<lambda>c. let n = of_char c :: nat in n = 9 \<or> 32 \<le> n \<and> n < 127) v then Some v else None)"

definition header_values :: "string \<Rightarrow> web_request \<Rightarrow> string list" where
  "header_values name rq = map snd (filter (\<lambda>(n, _). n = name) (wq_headers rq))"

definition header_first :: "string \<Rightarrow> web_request \<Rightarrow> string option" where
  "header_first name rq = (case header_values name rq of [] \<Rightarrow> None | v # _ \<Rightarrow> header_text v)"

definition session_cookie :: "string \<Rightarrow> string" where
  "session_cookie token =
     COOKIE_NAME @ ''='' @ token @ ''; HttpOnly; SameSite=Strict; Path=/; Max-Age='' @ show_nat COOKIE_MAX_AGE_SECS"

definition cleared_cookie :: string where
  "cleared_cookie = COOKIE_NAME @ ''=; HttpOnly; SameSite=Strict; Path=/; Max-Age=0''"

definition token_from_headers :: "web_request \<Rightarrow> string option" where
  "token_from_headers rq =
     (let values = List.map_filter header_text (header_values ''cookie'' rq);
          pairs = concat (map (str_split (CHR '';'')) values);
          cookies = List.map_filter (\<lambda>p. split_once (CHR ''='') (text_trim p)) pairs
      in map_option snd (List.find (\<lambda>(name, _). name = COOKIE_NAME) cookies))"

definition bearer_from_headers :: "web_request \<Rightarrow> string option" where
  "bearer_from_headers rq =
     (case header_first ''authorization'' rq of
        None \<Rightarrow> None
      | Some value \<Rightarrow>
          (case split_once (CHR '' '') value of
             None \<Rightarrow> None
           | Some (scheme, token) \<Rightarrow>
               (let token = text_trim token
                in if eq_ignore_ascii_case scheme ''bearer'' \<and> token \<noteq> [] then Some token else None)))"

section \<open>The routes\<close>

text \<open>The readers of bodies (a refused one with axum's status), the crypto, the commands behind the RPC
  route, whether the database was opened and the environment of the trades.\<close>

record 's web_env =
  we_public_origin :: string
  we_password_ok :: "string \<Rightarrow> bool"
  we_read_password :: "string \<Rightarrow> nat + string"
  we_sha :: "string \<Rightarrow> string"
  we_db_open :: bool
  we_read_heartbeat :: "string \<Rightarrow> nat + heartbeat"
  we_read_trade :: "string \<Rightarrow> string + incoming_trade"
  we_parse_date :: "string \<Rightarrow> utc option"
  we_trades :: "'s trade_env"
  we_read_args :: "string \<Rightarrow> string + string"
  we_commands :: "string list"

text \<open>What a request draws from outside: the clocks, random bytes and the errors of the database.\<close>

record web_io =
  wi_instant :: instant
  wi_utc :: utc
  wi_random :: string
  wi_query_err :: "string option"
  wi_update_err :: "string option"

datatype web_event = WebLogin string instant | WebLogout string | WebDispatch string string instant

record 's web_state =
  wv_sessions :: web_sessions
  wv_limiter :: login_limiter
  wv_keys :: key_table
  wv_presence :: presence
  wv_trades :: "'s trade_state"
  wv_trace :: "web_event list"

datatype web_response =
    WebStatus nat string
  | WebRedirect string "string option"
  | WebPage
  | WebUpgrade
  | WebFile
  | WebTrade trade_reply
  | WebCall string string

definition origin_allowed :: "'s web_env \<Rightarrow> web_request \<Rightarrow> bool" where
  "origin_allowed env rq \<longleftrightarrow>
     (let is_read = (wq_method rq = MGet \<or> wq_method rq = MHead)
      in if \<not> is_read \<or> wq_path rq = ''/ws'' then header_first ''origin'' rq = Some (we_public_origin env) else True)"

definition unauthorized :: web_response where
  "unauthorized = WebStatus 401 ''Invalid or revoked device key''"

definition helper_heartbeat ::
  "'s web_env \<Rightarrow> device_identity \<Rightarrow> web_request \<Rightarrow> web_io \<Rightarrow> 's web_state \<Rightarrow> web_response \<times> 's web_state" where
  "helper_heartbeat env device rq io st =
     (case we_read_heartbeat env (wq_body rq) of
        Inl status \<Rightarrow> (WebStatus status [], st)
      | Inr hb \<Rightarrow> (WebStatus 204 [], st\<lparr>wv_presence := presence_record (wv_presence st) (di_name device) hb (wi_utc io)\<rparr>))"

definition helper_trade ::
  "'s web_env \<Rightarrow> device_identity \<Rightarrow> web_request \<Rightarrow> web_io \<Rightarrow> 's web_state \<Rightarrow> web_response \<times> 's web_state" where
  "helper_trade env device rq io st =
     (case we_read_trade env (wq_body rq) of
        Inl e \<Rightarrow> (WebStatus 400 (''Invalid trade body: '' @ e), st)
      | Inr incoming \<Rightarrow>
          (case validate_incoming (we_parse_date env) incoming of
             Inl msg \<Rightarrow> (WebStatus 400 msg, st)
           | Inr _ \<Rightarrow>
               (if \<not> we_db_open env then (WebStatus 503 ''Database not ready'', st)
                else case handle_incoming (we_parse_date env) (we_trades env) (wv_trades st) (di_name device) incoming (wi_utc io) of
                       (Inr reply, trades) \<Rightarrow> (WebTrade reply, st\<lparr>wv_trades := trades\<rparr>)
                     | (Inl (Failed e), trades) \<Rightarrow> (WebStatus 500 (er_message e), st\<lparr>wv_trades := trades\<rparr>)
                     | (Inl Panicked, trades) \<Rightarrow> (WebStatus 500 [], st\<lparr>wv_trades := trades\<rparr>))))"

definition require_device_key ::
  "'s web_env \<Rightarrow> web_request \<Rightarrow> web_io \<Rightarrow> 's web_state
     \<Rightarrow> (device_identity \<Rightarrow> 's web_state \<Rightarrow> web_response \<times> 's web_state) \<Rightarrow> web_response \<times> 's web_state" where
  "require_device_key env rq io st handler =
     (if \<not> we_db_open env then (WebStatus 503 ''Database not ready'', st)
      else case bearer_from_headers rq of
        None \<Rightarrow> (unauthorized, st)
      | Some key \<Rightarrow>
          (case authenticate (we_sha env) (wi_query_err io) (wi_update_err io) (wv_keys st) key (wi_utc io) of
             (Inr (Some device), keys) \<Rightarrow> handler device (st\<lparr>wv_keys := keys\<rparr>)
           | (Inr None, keys) \<Rightarrow> (unauthorized, st\<lparr>wv_keys := keys\<rparr>)
           | (Inl e, keys) \<Rightarrow> (WebStatus 500 (er_message e), st\<lparr>wv_keys := keys\<rparr>)))"

definition login_submit ::
  "'s web_env \<Rightarrow> web_request \<Rightarrow> web_io \<Rightarrow> 's web_state \<Rightarrow> web_response \<times> 's web_state" where
  "login_submit env rq io st =
     (case we_read_password env (wq_body rq) of
        Inl status \<Rightarrow> (WebStatus status [], st)
      | Inr password \<Rightarrow>
          (let (ok, limiter) = try_acquire (wi_instant io) (wv_limiter st); st = st\<lparr>wv_limiter := limiter\<rparr>
           in if \<not> ok then (WebStatus 429 ''Too many login attempts; wait a minute.'', st)
              else if \<not> we_password_ok env password then (WebRedirect ''/login?error=1'' None, st)
              else let (token, sessions) = sessions_create (wi_random io) (wi_instant io) (wv_sessions st)
                   in (WebRedirect ''/'' (Some (session_cookie token)),
                       st\<lparr>wv_sessions := sessions, wv_trace := wv_trace st @ [WebLogin token (wi_instant io)]\<rparr>)))"

definition logout :: "web_request \<Rightarrow> 's web_state \<Rightarrow> web_response \<times> 's web_state" where
  "logout rq st =
     (WebRedirect ''/login'' (Some cleared_cookie),
      case token_from_headers rq of
        None \<Rightarrow> st
      | Some token \<Rightarrow>
          st\<lparr>wv_sessions := sessions_remove token (wv_sessions st), wv_trace := wv_trace st @ [WebLogout token]\<rparr>)"

text \<open>An unknown command never runs; a known one is traced with the session it came with.\<close>

definition rpc_route ::
  "'s web_env \<Rightarrow> string \<Rightarrow> string \<Rightarrow> web_request \<Rightarrow> web_io \<Rightarrow> 's web_state \<Rightarrow> web_response \<times> 's web_state" where
  "rpc_route env token name rq io st =
     (case (if wq_body rq = [] then Inr ''{}'' else we_read_args env (wq_body rq)) of
        Inl e \<Rightarrow> (WebStatus 400 (''Invalid JSON body: '' @ e), st)
      | Inr args \<Rightarrow>
          (if name \<notin> set (we_commands env) then (WebStatus 404 (''Unknown command '' @ name), st)
           else (WebCall name args, st\<lparr>wv_trace := wv_trace st @ [WebDispatch token name (wi_instant io)]\<rparr>)))"

definition require_session ::
  "web_request \<Rightarrow> web_io \<Rightarrow> 's web_state
     \<Rightarrow> (string \<Rightarrow> 's web_state \<Rightarrow> web_response \<times> 's web_state) \<Rightarrow> web_response \<times> 's web_state" where
  "require_session rq io st handler =
     (let refuse = (if starts_with (wq_path rq) ''/rpc/'' \<or> wq_path rq = ''/ws'' \<or> starts_with (wq_path rq) ''/sounds/''
                    then WebStatus 401 [] else WebRedirect ''/login'' None)
      in case token_from_headers rq of
           None \<Rightarrow> (refuse, st)
         | Some token \<Rightarrow>
             (let (valid, sessions) = sessions_is_valid token (wi_instant io) (wv_sessions st);
                  st = st\<lparr>wv_sessions := sessions\<rparr>
              in if valid then handler token st else (refuse, st)))"

definition serve ::
  "'s web_env \<Rightarrow> web_request \<Rightarrow> web_io \<Rightarrow> 's web_state \<Rightarrow> web_response \<times> 's web_state" where
  "serve env rq io st =
     (case wq_route rq of
        RHeartbeat \<Rightarrow> require_device_key env rq io st (\<lambda>device. helper_heartbeat env device rq io)
      | RTrade \<Rightarrow> require_device_key env rq io st (\<lambda>device. helper_trade env device rq io)
      | route \<Rightarrow>
          (if \<not> origin_allowed env rq then (WebStatus 403 ''Origin not allowed'', st)
           else case route of
             RHealthz \<Rightarrow> (WebStatus 200 ''ok'', st)
           | RLoginPage \<Rightarrow> (WebPage, st)
           | RLoginSubmit \<Rightarrow> login_submit env rq io st
           | RLogout \<Rightarrow> logout rq st
           | RRpc name \<Rightarrow> require_session rq io st (\<lambda>token. rpc_route env token name rq io)
           | RWs \<Rightarrow> require_session rq io st (\<lambda>token st. (WebUpgrade, st))
           | _ \<Rightarrow> require_session rq io st (\<lambda>token st. (WebFile, st))))"

section \<open>Who gets through\<close>

definition web_start :: "'s trade_state \<Rightarrow> key_table \<Rightarrow> 's web_state" where
  "web_start trades keys =
     \<lparr>wv_sessions = \<lparr>ss_tokens = [], ss_ttl = secs (30 * 24 * 60 * 60)\<rparr>,
      wv_limiter = \<lparr>lm_attempts = [], lm_max = 5, lm_window = secs 60\<rparr>,
      wv_keys = keys, wv_presence = None, wv_trades = trades, wv_trace = []\<rparr>"

definition serve_all ::
  "'s web_env \<Rightarrow> 's web_state \<Rightarrow> (web_request \<times> web_io) list \<Rightarrow> 's web_state" where
  "serve_all env st rqs = foldl (\<lambda>st (rq, io). snd (serve env rq io st)) st rqs"

text \<open>A login that still counts: its session has not run out and was not logged out since.\<close>

definition logged_in :: "duration \<Rightarrow> web_event list \<Rightarrow> string \<Rightarrow> instant \<Rightarrow> bool" where
  "logged_in ttl trace token expires \<longleftrightarrow>
     (\<exists>a b t0. trace = a @ WebLogin token t0 # b \<and> expires = t0 + ttl \<and> WebLogout token \<notin> set b)"

definition web_inv :: "'s web_state \<Rightarrow> bool" where
  "web_inv st \<longleftrightarrow>
     (\<forall>(token, expires)\<in>set (ss_tokens (wv_sessions st)).
        logged_in (ss_ttl (wv_sessions st)) (wv_trace st) token expires)
     \<and> (\<forall>a token name t b. wv_trace st = a @ WebDispatch token name t # b \<longrightarrow>
          (\<exists>expires. t < expires \<and> logged_in (ss_ttl (wv_sessions st)) a token expires))"

lemma logged_in_snoc:
  "logged_in ttl trace token expires \<Longrightarrow> e \<noteq> WebLogout token \<Longrightarrow> logged_in ttl (trace @ [e]) token expires"
  unfolding logged_in_def by (metis append.assoc append_Cons UnE empty_iff empty_set set_ConsD set_append)

lemma snoc_split: "xs @ [x] = a @ y # b \<Longrightarrow> (b = [] \<and> xs = a \<and> x = y) \<or> (\<exists>c. b = c @ [x] \<and> xs = a @ y # c)"
  by (cases b rule: rev_cases) auto

lemma web_inv_same:
  assumes "web_inv st" "wv_sessions st' = wv_sessions st" "wv_trace st' = wv_trace st"
  shows "web_inv st'"
  using assms by (simp add: web_inv_def)

lemma web_inv_login:
  assumes "web_inv st" "sessions_create random t (wv_sessions st) = (token, sessions)"
  shows "web_inv (st\<lparr>wv_sessions := sessions, wv_limiter := lm, wv_trace := wv_trace st @ [WebLogin token t]\<rparr>)"
proof -
  have s: "ss_tokens sessions = (token, t + ss_ttl (wv_sessions st)) # filter (\<lambda>(u, _). u \<noteq> token) (ss_tokens (wv_sessions st))"
      "ss_ttl sessions = ss_ttl (wv_sessions st)"
    using assms(2) by (auto simp: sessions_create_def Let_def)
  have "logged_in (ss_ttl (wv_sessions st)) (wv_trace st @ [WebLogin token t]) token (t + ss_ttl (wv_sessions st))"
    unfolding logged_in_def by (intro exI[of _ "wv_trace st"] exI[of _ "[]"] exI[of _ t]) simp
  moreover have "logged_in (ss_ttl (wv_sessions st)) (wv_trace st @ [WebLogin token t]) u e"
    if "(u, e) \<in> set (ss_tokens (wv_sessions st))" for u e
    using that assms(1) by (auto simp: web_inv_def intro!: logged_in_snoc)
  ultimately show ?thesis
    using assms(1) s by (auto simp: web_inv_def dest!: snoc_split)
qed

lemma web_inv_logout:
  assumes "web_inv st"
  shows "web_inv (st\<lparr>wv_sessions := sessions_remove token (wv_sessions st), wv_trace := wv_trace st @ [WebLogout token]\<rparr>)"
proof -
  have "logged_in (ss_ttl (wv_sessions st)) (wv_trace st @ [WebLogout token]) u e"
    if "(u, e) \<in> set (ss_tokens (wv_sessions st))" "u \<noteq> token" for u e
    using that assms by (auto simp: web_inv_def intro!: logged_in_snoc)
  then show ?thesis
    using assms by (auto simp: web_inv_def sessions_remove_def dest!: snoc_split)
qed

text \<open>Checking a session drops what has run out; what is left was logged in.\<close>

lemma web_inv_checked:
  assumes "web_inv st" "sessions_is_valid token t (wv_sessions st) = (valid, sessions)"
  shows "web_inv (st\<lparr>wv_sessions := sessions\<rparr>)
    \<and> (valid \<longrightarrow> (\<exists>expires. t < expires \<and> logged_in (ss_ttl sessions) (wv_trace st) token expires))"
  using assms by (fastforce simp: web_inv_def sessions_is_valid_def Let_def)

lemma web_inv_dispatch:
  assumes "web_inv st" "t < expires" "logged_in (ss_ttl (wv_sessions st)) (wv_trace st) token expires"
  shows "web_inv (st\<lparr>wv_trace := wv_trace st @ [WebDispatch token name t]\<rparr>)"
proof -
  have "logged_in (ss_ttl (wv_sessions st)) (wv_trace st @ [WebDispatch token name t]) u e"
    if "(u, e) \<in> set (ss_tokens (wv_sessions st))" for u e
    using that assms(1) by (auto simp: web_inv_def intro!: logged_in_snoc)
  then show ?thesis
    using assms by (auto simp: web_inv_def dest!: snoc_split)
qed

lemma require_session_inv:
  assumes "web_inv st"
    and "\<And>token st. web_inv st \<Longrightarrow> (\<exists>expires. wi_instant io < expires
          \<and> logged_in (ss_ttl (wv_sessions st)) (wv_trace st) token expires) \<Longrightarrow> web_inv (snd (handler token st))"
  shows "web_inv (snd (require_session rq io st handler))"
proof (cases "token_from_headers rq")
  case (Some token)
  obtain valid sessions where v: "sessions_is_valid token (wi_instant io) (wv_sessions st) = (valid, sessions)" by force
  note c = web_inv_checked[OF assms(1) v]
  then have "web_inv (snd (handler token (st\<lparr>wv_sessions := sessions\<rparr>)))" if valid
    using assms(2)[of "st\<lparr>wv_sessions := sessions\<rparr>" token] that by simp
  with c Some v show ?thesis by (simp add: require_session_def Let_def)
qed (use assms(1) in \<open>simp add: require_session_def\<close>)

lemma require_device_key_inv:
  assumes "web_inv st" "\<And>device st. web_inv st \<Longrightarrow> web_inv (snd (handler device st))"
  shows "web_inv (snd (require_device_key env rq io st handler))"
proof -
  have k: "web_inv (st\<lparr>wv_keys := keys\<rparr>)" for keys using assms(1) by (rule web_inv_same) simp_all
  with assms show ?thesis by (auto simp: require_device_key_def split: option.split sum.split prod.split)
qed

lemma helper_routes_inv:
  assumes "web_inv st"
  shows "web_inv (snd (helper_heartbeat env device rq io st))" "web_inv (snd (helper_trade env device rq io st))"
proof -
  have "web_inv (st\<lparr>wv_presence := x\<rparr>)" "web_inv (st\<lparr>wv_trades := y\<rparr>)" for x y
    using assms by (auto intro: web_inv_same[OF assms])
  with assms show "web_inv (snd (helper_heartbeat env device rq io st))" "web_inv (snd (helper_trade env device rq io st))"
    by (auto simp: helper_heartbeat_def helper_trade_def split: sum.split prod.split fault.split)
qed

lemma login_inv: "web_inv st \<Longrightarrow> web_inv (snd (login_submit env rq io st))"
proof -
  assume inv: "web_inv st"
  have l: "web_inv (st\<lparr>wv_limiter := lm\<rparr>)" for lm using inv by (rule web_inv_same) simp_all
  obtain ok lm where a: "try_acquire (wi_instant io) (wv_limiter st) = (ok, lm)" by force
  obtain token sessions where c: "sessions_create (wi_random io) (wi_instant io) (wv_sessions st) = (token, sessions)" by force
  have "st\<lparr>wv_limiter := lm, wv_sessions := sessions, wv_trace := wv_trace st @ [WebLogin token (wi_instant io)]\<rparr>
      = st\<lparr>wv_sessions := sessions, wv_limiter := lm, wv_trace := wv_trace st @ [WebLogin token (wi_instant io)]\<rparr>" by simp
  then have "web_inv (st\<lparr>wv_limiter := lm, wv_sessions := sessions, wv_trace := wv_trace st @ [WebLogin token (wi_instant io)]\<rparr>)"
    using web_inv_login[OF inv c, of lm] by metis
  with inv l a c show ?thesis
    by (auto simp: login_submit_def Let_def split: sum.split)
qed

lemma serve_inv: "web_inv st \<Longrightarrow> web_inv (snd (serve env rq io st))"
proof -
  assume inv: "web_inv st"
  have logout: "web_inv (snd (logout rq st))"
    using inv web_inv_logout[OF inv] by (simp add: logout_def split: option.split)
  have rpc: "web_inv (snd (require_session rq io st (\<lambda>token. rpc_route env token name rq io)))" for name
    by (rule require_session_inv[OF inv]) (auto simp: rpc_route_def intro: web_inv_dispatch split: sum.split)
  have plain: "web_inv (snd (require_session rq io st (\<lambda>token st. (r, st))))" for r
    by (rule require_session_inv[OF inv]) simp
  have "web_inv (snd (require_device_key env rq io st (\<lambda>device. helper_heartbeat env device rq io)))"
    and "web_inv (snd (require_device_key env rq io st (\<lambda>device. helper_trade env device rq io)))"
    by (rule require_device_key_inv[OF inv], rule helper_routes_inv, assumption)+
  with inv logout rpc plain login_inv[OF inv] show ?thesis
    by (auto simp: serve_def split: web_route.split)
qed

lemma serve_all_snoc: "serve_all env st (rqs @ [(rq, io)]) = snd (serve env rq io (serve_all env st rqs))"
  by (simp add: serve_all_def)

lemma serve_all_inv: "web_inv (serve_all env (web_start trades keys) rqs)"
proof (induction rqs rule: rev_induct)
  case Nil
  then show ?case by (simp add: serve_all_def web_inv_def web_start_def)
next
  case (snoc q rqs)
  then show ?case by (cases q) (simp add: serve_all_snoc serve_inv)
qed

text \<open>The time to live never changes, and a login is only traced for a right password.\<close>

definition password_login :: "'s web_env \<Rightarrow> web_request \<times> web_io \<Rightarrow> instant \<Rightarrow> bool" where
  "password_login env q t \<longleftrightarrow>
     wq_route (fst q) = RLoginSubmit \<and> origin_allowed env (fst q) \<and> wi_instant (snd q) = t
     \<and> (\<exists>pw. we_read_password env (wq_body (fst q)) = Inr pw \<and> we_password_ok env pw)"

definition web_step_ok :: "'s web_env \<Rightarrow> web_request \<times> web_io \<Rightarrow> 's web_state \<Rightarrow> 's web_state \<Rightarrow> bool" where
  "web_step_ok env q st st' \<longleftrightarrow> ss_ttl (wv_sessions st') = ss_ttl (wv_sessions st)
     \<and> (\<forall>token t. WebLogin token t \<in> set (wv_trace st') \<longrightarrow>
          WebLogin token t \<in> set (wv_trace st) \<or> password_login env q t)"

lemma web_step_refl: "web_step_ok env q st st"
  by (simp add: web_step_ok_def)

lemma web_step_session:
  assumes "\<And>token st. web_step_ok env q st (snd (handler token st))"
  shows "web_step_ok env q st (snd (require_session rq io st handler))"
proof (cases "token_from_headers rq")
  case (Some token)
  let ?st = "st\<lparr>wv_sessions := snd (sessions_is_valid token (wi_instant io) (wv_sessions st))\<rparr>"
  have "web_step_ok env q st ?st" by (simp add: web_step_ok_def sessions_is_valid_def Let_def)
  moreover from this have "web_step_ok env q st (snd (handler token ?st))"
    using assms[of ?st token] by (simp add: web_step_ok_def sessions_is_valid_def Let_def)
  ultimately show ?thesis using Some by (simp add: require_session_def Let_def split_beta)
qed (simp add: require_session_def web_step_refl)

lemma web_step_device:
  assumes "\<And>device st. web_step_ok env q st (snd (handler device st))"
  shows "web_step_ok env q st (snd (require_device_key env' rq io st handler))"
proof -
  have "web_step_ok env q st (st\<lparr>wv_keys := keys\<rparr>)" for keys by (simp add: web_step_ok_def)
  moreover have "web_step_ok env q st (snd (handler device (st\<lparr>wv_keys := keys\<rparr>)))" for device keys
    using assms[of "st\<lparr>wv_keys := keys\<rparr>" device] by (simp add: web_step_ok_def)
  ultimately show ?thesis
    by (auto simp: require_device_key_def web_step_refl split: option.split sum.split prod.split)
qed

lemma web_step_serve: "web_step_ok env (rq, io) st (snd (serve env rq io st))"
proof -
  have "web_step_ok env q st (snd (helper_heartbeat env device rq io st))"
    and "web_step_ok env q st (snd (helper_trade env device rq io st))" for q device st
    by (auto simp: helper_heartbeat_def helper_trade_def web_step_ok_def split: sum.split prod.split fault.split)
  note device = this[THEN web_step_device]
  have "web_step_ok env q st (snd (rpc_route env token name rq io st))" for q token name st
    by (auto simp: rpc_route_def web_step_ok_def split: sum.split)
  note rpc = this[THEN web_step_session]
  have plain: "web_step_ok env q st (snd (require_session rq io st (\<lambda>token st. (r, st))))" for q r
    by (rule web_step_session) (simp add: web_step_refl)
  have logout: "web_step_ok env q st (snd (logout rq st))" for q
    by (auto simp: logout_def web_step_ok_def sessions_remove_def split: option.split)
  have login: "web_step_ok env (rq, io) st (snd (login_submit env rq io st))"
    if "wq_route rq = RLoginSubmit" "origin_allowed env rq"
    using that by (auto simp: login_submit_def web_step_ok_def sessions_create_def password_login_def Let_def
      split: sum.split prod.split)
  show ?thesis
    using device rpc plain logout login by (auto simp: serve_def web_step_refl split: web_route.split)
qed

lemma serve_all_logins:
  "ss_ttl (wv_sessions (serve_all env (web_start trades keys) rqs)) = secs (30 * 24 * 60 * 60)
   \<and> (WebLogin token t \<in> set (wv_trace (serve_all env (web_start trades keys) rqs)) \<longrightarrow>
        (\<exists>q\<in>set rqs. password_login env q t))"
proof (induction rqs rule: rev_induct)
  case Nil
  then show ?case by (simp add: serve_all_def web_start_def)
next
  case (snoc q rqs)
  obtain rq io where q: "q = (rq, io)" by (cases q)
  show ?case
    using snoc web_step_serve[of env rq io "serve_all env (web_start trades keys) rqs"]
    by (auto simp: q serve_all_snoc web_step_ok_def)
qed

lemma call_guarded:
  assumes "web_inv st" "fst (serve env rq io st) = WebCall name args"
  shows "origin_allowed env rq \<and> name \<in> set (we_commands env)
    \<and> (\<exists>token expires. token_from_headers rq = Some token \<and> wi_instant io < expires
         \<and> logged_in (ss_ttl (wv_sessions st)) (wv_trace st) token expires)"
proof -
  have route: "wq_route rq = RRpc name" and o1: "origin_allowed env rq"
    and call: "fst (require_session rq io st (\<lambda>token. rpc_route env token name rq io)) = WebCall name args"
    using assms(2)
    by (auto simp: serve_def require_device_key_def unauthorized_def helper_heartbeat_def helper_trade_def login_submit_def
        logout_def require_session_def rpc_route_def Let_def
        split: web_route.splits option.splits sum.splits prod.splits fault.splits if_splits)
  then obtain token sessions where t: "token_from_headers rq = Some token"
      "sessions_is_valid token (wi_instant io) (wv_sessions st) = (True, sessions)"
      "name \<in> set (we_commands env)"
    by (auto simp: require_session_def rpc_route_def Let_def split: option.splits sum.splits prod.splits if_splits)
  have "ss_ttl sessions = ss_ttl (wv_sessions st)" using t(2) by (auto simp: sessions_is_valid_def Let_def)
  then show ?thesis using web_inv_checked[OF assms(1) t(2)] t o1 by auto
qed

text \<open>
  C29. A command of the RPC route only runs in a request from the configured origin, with the token of
  a session that a login with the right password (itself from that origin) opened less than thirty
  days before and that was not logged out since.
\<close>

theorem commands_need_a_login:
  assumes "fst (serve env rq io (serve_all env (web_start trades keys) rqs)) = WebCall name args"
  shows "origin_allowed env rq \<and> name \<in> set (we_commands env)
    \<and> (\<exists>token t0 a b. token_from_headers rq = Some token
         \<and> wv_trace (serve_all env (web_start trades keys) rqs) = a @ WebLogin token t0 # b
         \<and> WebLogout token \<notin> set b \<and> wi_instant io < t0 + secs (30 * 24 * 60 * 60)
         \<and> (\<exists>q\<in>set rqs. password_login env q t0))"
proof -
  let ?st = "serve_all env (web_start trades keys) rqs"
  obtain token expires where c: "origin_allowed env rq" "name \<in> set (we_commands env)"
      "token_from_headers rq = Some token" "wi_instant io < expires"
      "logged_in (ss_ttl (wv_sessions ?st)) (wv_trace ?st) token expires"
    using call_guarded[OF serve_all_inv assms] by blast
  obtain a b t0 where l: "wv_trace ?st = a @ WebLogin token t0 # b" "expires = t0 + secs (30 * 24 * 60 * 60)"
      "WebLogout token \<notin> set b"
    using c(5) serve_all_logins[of env trades keys rqs] unfolding logged_in_def by auto
  then have "WebLogin token t0 \<in> set (wv_trace ?st)" by simp
  then have "\<exists>q\<in>set rqs. password_login env q t0" using serve_all_logins[of env trades keys rqs] by blast
  with c l show ?thesis by blast
qed

section \<open>From the helper to the server\<close>

text \<open>What the helper's HTTP client makes of a response of the trade route.\<close>

definition reply_of_web :: "web_response \<Rightarrow> http_reply" where
  "reply_of_web resp =
     (case resp of
        WebStatus status body \<Rightarrow> HttpReply status (Inl body)
      | WebTrade reply \<Rightarrow> HttpReply 200 (Inr (rp_status reply))
      | _ \<Rightarrow> HttpReply 200 (Inl []))"

lemma incoming_known:
  assumes "handle_incoming parse_date env st device inc now = (Inr reply, st')"
  shows "event_exists (tp_rows st') (in_event_id inc)"
proof (cases "receive parse_date env (tp_rows st) device inc now")
  case (Inr r)
  show ?thesis
  proof (cases r)
    case (Inl reply)
    then show ?thesis using assms Inr by (auto simp: handle_incoming_def receive_def Let_def split: sum.splits if_splits prod.splits)
  next
    case r2: (Inr x)
    obtain e clear where x: "x = (e, clear)" by force
    have id: "ev_id e = in_event_id inc" "\<not> event_exists (tp_rows st) (ev_id e)"
      using Inr r2 x by (auto simp: receive_def Let_def split: sum.splits if_splits prod.splits)
    let ?st1 = "st\<lparr>tp_rows := tp_rows st @ [e]\<rparr>"
    have "st' = snd (proceed env ?st1 e clear)"
      using assms Inr r2 x id(2) by (auto simp: handle_incoming_def insert_event_def dest: arg_cong[of _ _ snd])
    then have "map ev_id (tp_rows st') = map ev_id (tp_rows ?st1)" by (simp add: proceed_ids)
    from arg_cong[OF this, of set] have "ev_id ` set (tp_rows st') = ev_id ` set (tp_rows st @ [e])" by simp
    then have "in_event_id inc \<in> ev_id ` set (tp_rows st')" using id(1) by simp
    then show ?thesis by (simp add: event_exists_def row_lookup_None)
  qed
qed (use assms in \<open>simp add: handle_incoming_def\<close>)

text \<open>
  C31. The helper forgets a trade only when the server holds it: whatever state the server is in, when
  its response makes the helper remove a well-formed trade from its queue, the trade is in the
  server's table of events.
\<close>

theorem forgotten_trades_are_known:
  assumes "wq_route rq = RTrade" "we_read_trade env (wq_body rq) = Inr e"
    and "is_hex_id (in_event_id e)" "we_parse_date env (in_detected_at e) \<noteq> None"
    and "serve env rq io st = (resp, st')" "removes_from_queue (trade_send show_status (reply_of_web resp))"
  shows "event_exists (tp_rows (wv_trades st')) (in_event_id e)"
proof -
  have valid: "\<exists>t. validate_incoming (we_parse_date env) e = Inr t" using assms(3,4) by (auto simp: validate_incoming_def)
  have no_answer: "\<not> removes_from_queue (trade_send show_status (reply_of_web (WebStatus n msg)))" if "n \<in> {401, 500, 503}" for n msg
    using that by (auto simp: reply_of_web_def trade_send_def is_success_def)
  from assms(1,5) have s: "require_device_key env rq io st (\<lambda>device. helper_trade env device rq io) = (resp, st')"
    by (simp add: serve_def)
  then consider "\<exists>n msg. resp = WebStatus n msg \<and> n \<in> {401, 500, 503}"
    | device keys where "helper_trade env device rq io (st\<lparr>wv_keys := keys\<rparr>) = (resp, st')"
    by (auto simp: require_device_key_def unauthorized_def split: if_splits option.splits sum.splits prod.splits)
  then show ?thesis
  proof cases
    case 1
    then show ?thesis using assms(6) no_answer by blast
  next
    case (2 device keys)
    obtain r trades where h: "handle_incoming (we_parse_date env) (we_trades env) (wv_trades st) (di_name device) e (wi_utc io) = (r, trades)"
      by force
    show ?thesis
    proof (cases r)
      case (Inl err)
      then have "\<exists>n msg. resp = WebStatus n msg \<and> n \<in> {401, 500, 503}"
        using 2 assms(2) valid h by (auto simp: helper_trade_def split: if_splits fault.splits)
      then show ?thesis using assms(6) no_answer by blast
    next
      case (Inr reply)
      show ?thesis
      proof (cases "we_db_open env")
        case True
        then have "st' = st\<lparr>wv_keys := keys, wv_trades := trades\<rparr>"
          using 2 assms(2) valid h Inr by (auto simp: helper_trade_def)
        then show ?thesis using incoming_known[OF h[unfolded Inr]] by simp
      next
        case False
        then have "resp = WebStatus 503 ''Database not ready''" using 2 assms(2) valid by (auto simp: helper_trade_def)
        then show ?thesis using assms(6) no_answer[of 503] by simp
      qed
    qed
  qed
qed


section \<open>Examples\<close>

definition demo_key :: string where
  "demo_key = ''qfh_00''"

definition demo_device :: helper_device where
  "demo_device = \<lparr>hd_id = 1, hd_name = ''pc'', hd_key_hash = hash_key id demo_key, hd_created_at = 0,
     hd_last_seen_at = None, hd_revoked_at = None\<rparr>"

definition demo_keys :: key_table where
  "demo_keys = \<lparr>kt_rows = [demo_device], kt_seq = 1\<rparr>"

lemma demo_created: "key_create id (Inr [CHR 0x00]) None None no_keys '' pc '' 0 = (Inr (demo_device, demo_key), demo_keys)"
  by code_simp

lemma key_opens_until_revoked_witness:
  "(\<exists>di. fst (authenticate id None None demo_keys demo_key 5) = Inr (Some di))
   \<and> fst (authenticate id None None (snd (key_revoke None demo_keys 1 7)) demo_key 9) = Inr None"
  using key_opens_until_revoked[of id "Inr [CHR 0x00]" None None "[]" "'' pc ''" 0 demo_device demo_key demo_keys "[]" 5 7 "[]" 9]
  by (simp add: demo_created demo_device_def)

definition demo_web_env :: "nat web_env" where
  "demo_web_env =
     \<lparr>we_public_origin = ''http://h'', we_password_ok = (\<lambda>pw. pw = ''secret''), we_read_password = Inr, we_sha = id,
      we_db_open = True, we_read_heartbeat = (\<lambda>_. Inl 400),
      we_read_trade = (\<lambda>body. if body = ''a'' then Inr demo_incoming else Inl ''bad''),
      we_parse_date = (\<lambda>_. Some 0), we_trades = demo_trade_env, we_read_args = Inr, we_commands = [''trader_start'']\<rparr>"

definition demo_web_io :: "instant \<Rightarrow> web_io" where
  "demo_web_io t = \<lparr>wi_instant = t, wi_utc = 0, wi_random = [CHR 0xAB], wi_query_err = None, wi_update_err = None\<rparr>"

definition demo_login :: web_request where
  "demo_login = \<lparr>wq_method = MPost, wq_path = ''/login'', wq_route = RLoginSubmit,
     wq_headers = [(''origin'', ''http://h'')], wq_body = ''secret''\<rparr>"

definition demo_rpc :: web_request where
  "demo_rpc = \<lparr>wq_method = MPost, wq_path = ''/rpc/trader_start'', wq_route = RRpc ''trader_start'',
     wq_headers = [(''origin'', ''http://h''), (''cookie'', ''a=b; qf_session=ab'')], wq_body = []\<rparr>"

definition demo_trade_request :: web_request where
  "demo_trade_request = \<lparr>wq_method = MPost, wq_path = ''/helper/trade'', wq_route = RTrade,
     wq_headers = [(''authorization'', ''bearer  qfh_00'')], wq_body = ''a''\<rparr>"

definition demo_logged_in :: "nat web_state" where
  "demo_logged_in = (web_start (no_events 0) demo_keys)
     \<lparr>wv_sessions := \<lparr>ss_tokens = [(''ab'', 5 + secs 2592000)], ss_ttl = secs 2592000\<rparr>,
      wv_limiter := \<lparr>lm_attempts = [5], lm_max = 5, lm_window = secs 60\<rparr>, wv_trace := [WebLogin ''ab'' 5]\<rparr>"

lemma demo_login_session: "snd (serve demo_web_env demo_login (demo_web_io 5) (web_start (no_events 0) demo_keys)) = demo_logged_in"
proof -
  have "hex_byte (CHR 0xAB) = ''ab''" by code_simp
  moreover have "origin_allowed demo_web_env demo_login" by code_simp
  ultimately show ?thesis
    by (simp add: serve_def demo_login_def login_submit_def demo_web_env_def demo_web_io_def web_start_def try_acquire_def
        sessions_create_def demo_logged_in_def Let_def)
qed

lemma demo_command_runs:
  "fst (serve demo_web_env demo_rpc (demo_web_io 9) (serve_all demo_web_env (web_start (no_events 0) demo_keys) [(demo_login, demo_web_io 5)]))
     = WebCall ''trader_start'' ''{}''"
proof -
  have "token_from_headers demo_rpc = Some ''ab''" by code_simp
  moreover have "origin_allowed demo_web_env demo_rpc" by code_simp
  ultimately show ?thesis
    by (simp add: serve_all_def demo_login_session)
      (simp add: serve_def demo_rpc_def demo_web_env_def demo_web_io_def require_session_def rpc_route_def demo_logged_in_def
        sessions_is_valid_def secs_def)
qed

lemma commands_need_a_login_witness:
  "origin_allowed demo_web_env demo_rpc
   \<and> (\<exists>q\<in>{(demo_login, demo_web_io 5)}. \<exists>t0. password_login demo_web_env q t0)"
  using commands_need_a_login[OF demo_command_runs] by auto

lemma demo_trade_served:
  "fst (serve demo_web_env demo_trade_request (demo_web_io 0) (web_start (no_events 0) demo_keys)) = WebTrade (reply_of demo_done)"
proof -
  have "bearer_from_headers demo_trade_request = Some demo_key" by code_simp
  moreover have "starts_with demo_key KEY_PREFIX" by code_simp
  moreover have "validate_incoming (\<lambda>_. Some 0) demo_incoming = Inr 0" by code_simp
  ultimately show ?thesis
    using demo_handled
    by (simp add: serve_def require_device_key_def helper_trade_def demo_trade_request_def demo_web_env_def demo_web_io_def
        web_start_def demo_keys_def demo_device_def authenticate_def)
qed

lemma forgotten_trades_are_known_witness:
  "event_exists (tp_rows (wv_trades (snd (serve demo_web_env demo_trade_request (demo_web_io 0) (web_start (no_events 0) demo_keys))))) demo_id"
proof -
  have "is_hex_id (in_event_id demo_incoming)" by code_simp
  moreover have "removes_from_queue (trade_send show_nat (reply_of_web (WebTrade (reply_of demo_done))))"
    by (simp add: reply_of_web_def trade_send_def is_success_def)
  ultimately show ?thesis
    using forgotten_trades_are_known[of demo_trade_request demo_web_env demo_incoming "demo_web_io 0"
        "web_start (no_events 0) demo_keys" "WebTrade (reply_of demo_done)"
        "snd (serve demo_web_env demo_trade_request (demo_web_io 0) (web_start (no_events 0) demo_keys))" show_nat]
      demo_trade_served
    by (simp add: demo_trade_request_def demo_web_env_def demo_incoming_def prod_eq_iff)
qed

end
