(* ===== verification/Backfill.thy ===== *)
theory Backfill
  imports Closed_Stats Prices
begin

text \<open>
  The one-off import of the marketplace's 90-day closed-trade series
  (\<open>qf_core/src/collector/backfill.rs\<close>): the series of one item as table rows, the insert that
  leaves existing days alone, the fetch with its retries, the run over all items with its
  process-wide status, and the life of the run's task (\<open>start\<close>, \<open>run\<close>, \<open>watch\<close>) as a step relation.
  Decoding the JSON body is an argument (\<open>serde_json\<close>), and so is the number of the day that the
  first ten characters of a \<open>datetime\<close> spell.
\<close>

section \<open>The series\<close>

record stat_row =
  br_datetime :: string
  br_volume :: int
  br_min_price :: "real option"
  br_max_price :: "real option"
  br_median :: "real option"
  br_avg_price :: "real option"
  br_wa_price :: "real option"
  br_mod_rank :: "int option"
  br_subtype :: "string option"

text \<open>\<open>chars().take(n)\<close>: a byte \<open>10xxxxxx\<close> belongs to the character before it.\<close>

definition utf8_tail :: "char \<Rightarrow> bool" where
  "utf8_tail c \<longleftrightarrow> 128 \<le> (of_char c :: nat) \<and> (of_char c :: nat) < 192"

fun take_chars :: "nat \<Rightarrow> string \<Rightarrow> string" where
  "take_chars n [] = []"
| "take_chars n (c # s) =
     (if utf8_tail c then c # take_chars n s
      else case n of 0 \<Rightarrow> [] | Suc m \<Rightarrow> c # take_chars m s)"

text \<open>\<open>as i64\<close> of a rounded \<open>f64\<close> saturates.\<close>

definition round_i64 :: "real \<Rightarrow> int" where
  "round_i64 p = max (- (2 ^ 63)) (min (2 ^ 63 - 1) (round_half_away p))"

definition closed_day :: "(string \<Rightarrow> int) \<Rightarrow> stat_row \<Rightarrow> closed_db_row" where
  "closed_day day_no r =
     \<lparr>cr_item_id = [], cr_sub_type = sub_type_key (br_mod_rank r) None (br_subtype r) None None,
      cr_day = day_no (take_chars 10 (br_datetime r)), cr_volume = br_volume r, cr_median = br_median r,
      cr_min_price = map_option round_i64 (br_min_price r), cr_max_price = map_option round_i64 (br_max_price r),
      cr_wa_price = br_wa_price r, cr_avg_price = br_avg_price r\<rparr>"

definition parse_statistics ::
  "(string \<Rightarrow> string + stat_row list) \<Rightarrow> (string \<Rightarrow> int) \<Rightarrow> string \<Rightarrow> string + closed_db_row list" where
  "parse_statistics decode day_no body =
     (case decode body of Inl e \<Rightarrow> Inl e | Inr rows \<Rightarrow> Inr (map (closed_day day_no) rows))"

text \<open>\<open>INSERT OR IGNORE\<close>.\<close>

definition insert_or_ignore :: "('r \<Rightarrow> 'k) \<Rightarrow> 'r \<Rightarrow> 'r list \<Rightarrow> 'r list" where
  "insert_or_ignore key r rows = (if row_lookup key rows (key r) = None then rows @ [r] else rows)"

definition daily_of :: "string \<Rightarrow> closed_db_row \<Rightarrow> daily_row" where
  "daily_of item d =
     \<lparr>dr_item_id = item, dr_sub_type = cr_sub_type d,
      dr_stat = \<lparr>ds_day = cr_day d, ds_volume = cr_volume d, ds_median = cr_median d,
                 ds_min_price = cr_min_price d, ds_max_price = cr_max_price d\<rparr>\<rparr>"

fun insert_missing :: "string \<Rightarrow> closed_db_row list \<Rightarrow> daily_row list \<Rightarrow> nat \<times> daily_row list" where
  "insert_missing item [] rows = (0, rows)"
| "insert_missing item (d # ds) rows =
     (let rows1 = insert_or_ignore daily_key (daily_of item d) rows;
          (n, rows2) = insert_missing item ds rows1
      in ((length rows1 - length rows) + n, rows2))"

section \<open>The fetch with its retries\<close>

text \<open>\<open>source n\<close> is the answer to attempt \<open>n\<close>; the outcomes are the reports to the breaker.\<close>

function fetch_attempts :: "(nat \<Rightarrow> fetch_error + 'b) \<Rightarrow> nat \<Rightarrow> (fetch_error + 'b) \<times> outcome list" where
  "fetch_attempts source retries =
     (case source retries of
        Inr b \<Rightarrow> (Inr b, [attempt_outcome (source retries)])
      | Inl e \<Rightarrow>
          if e \<in> {FNotFound, FBlocked, FRateLimited} then (Inl e, [attempt_outcome (source retries)])
          else if max_retries \<le> retries then (Inl e, [attempt_outcome (source retries)])
          else (let (x, os) = fetch_attempts source (retries + 1) in (x, attempt_outcome (source retries) # os)))"
  by pat_completeness auto
termination by (relation "measure (\<lambda>(_, n). max_retries - n)") auto

declare fetch_attempts.simps [simp del]

definition fetched_body :: "(nat \<Rightarrow> fetch_error + 'b) \<Rightarrow> fetch_error + 'b" where
  "fetched_body source = fst (fetch_attempts source 0)"

lemma fetched_body_first:
  "source 0 = Inr b \<Longrightarrow> fetched_body source = Inr b"
  "source 0 = Inl e \<Longrightarrow> e \<in> {FNotFound, FBlocked, FRateLimited} \<Longrightarrow> fetched_body source = Inl e"
  unfolding fetched_body_def by (subst fetch_attempts.simps, simp)+

section \<open>The status and the run\<close>

datatype backfill_state = BfIdle | BfRunning | BfDone | BfFailed

record backfill_status =
  bf_state :: backfill_state
  bf_started_at :: "stamp option"
  bf_finished_at :: "stamp option"
  bf_items_total :: int
  bf_items_done :: int
  bf_days_inserted :: int
  bf_items_missing :: int
  bf_items_failed :: int
  bf_last_error :: "string option"

definition idle_status :: backfill_status where
  "idle_status = \<lparr>bf_state = BfIdle, bf_started_at = None, bf_finished_at = None, bf_items_total = 0, bf_items_done = 0,
     bf_days_inserted = 0, bf_items_missing = 0, bf_items_failed = 0, bf_last_error = None\<rparr>"

definition running_status :: "utc \<Rightarrow> nat \<Rightarrow> backfill_status" where
  "running_status now n = idle_status\<lparr>bf_state := BfRunning, bf_started_at := Some (ts now), bf_items_total := int n\<rparr>"

definition failed_status :: "utc \<Rightarrow> string \<Rightarrow> backfill_status \<Rightarrow> backfill_status" where
  "failed_status now e s = s\<lparr>bf_state := BfFailed, bf_finished_at := Some (ts now), bf_last_error := Some e\<rparr>"

definition empty_error :: string where "empty_error = ''no tradable items in the cache''"

text \<open>Which statement of an item's writes fails, and the error it reports.\<close>

datatype store_fault = NoFault | FailsInsert string | FailsUpsert string | FailsState string

record backfill_db =
  fd_daily :: "daily_row list"
  fd_closed :: closed_db

fun fetch_error_text :: "fetch_error \<Rightarrow> string" where
  "fetch_error_text FNotFound = ''not found''"
| "fetch_error_text FRateLimited = ''rate limited''"
| "fetch_error_text FBlocked = ''blocked by a Cloudflare challenge''"
| "fetch_error_text (FTransient m) = m"
| "fetch_error_text (FInvalid m) = m"

text \<open>
  The daily rows go in first, so a failure on the closed table costs them nothing; each of the two
  table writes is one transaction.
\<close>

definition store_series ::
  "utc \<Rightarrow> store_fault \<Rightarrow> string \<Rightarrow> closed_db_row list \<Rightarrow> backfill_db \<Rightarrow> (string + nat option) \<times> backfill_db" where
  "store_series now fault item ds db =
     (case fault of
        FailsInsert e \<Rightarrow> (Inl e, db)
      | _ \<Rightarrow>
          (let (n, rows) = insert_missing item ds (fd_daily db); db1 = db\<lparr>fd_daily := rows\<rparr> in
           case fault of
             FailsUpsert e \<Rightarrow> (Inl e, db1)
           | _ \<Rightarrow>
               (let db2 = db1\<lparr>fd_closed := snd (upsert_days (fd_closed db1) item ds)\<rparr> in
                case fault of
                  FailsState e \<Rightarrow> (Inl e, db2)
                | _ \<Rightarrow> (Inr (Some n), db2\<lparr>fd_closed := set_fetch_state (fd_closed db2) item now ''ok''\<rparr>))))"

type_synonym series_parser = "string \<Rightarrow> string + closed_db_row list"

definition import_item ::
  "series_parser \<Rightarrow> utc \<Rightarrow> store_fault \<Rightarrow> string \<Rightarrow> fetch_error + string \<Rightarrow> backfill_db \<Rightarrow> (string + nat option) \<times> backfill_db" where
  "import_item parse now fault item answer db =
     (case answer of
        Inr body \<Rightarrow> (case parse body of Inr ds \<Rightarrow> store_series now fault item ds db | Inl e \<Rightarrow> (Inl e, db))
      | Inl FNotFound \<Rightarrow> (Inr None, db)
      | Inl e \<Rightarrow> (Inl (fetch_error_text e), db))"

definition count_item :: "string + nat option \<Rightarrow> backfill_status \<Rightarrow> backfill_status" where
  "count_item outcome s =
     (let s1 = (case outcome of
          Inr (Some n) \<Rightarrow> s\<lparr>bf_days_inserted := bf_days_inserted s + int n\<rparr>
        | Inr None \<Rightarrow> s\<lparr>bf_items_missing := bf_items_missing s + 1\<rparr>
        | Inl e \<Rightarrow> s\<lparr>bf_items_failed := bf_items_failed s + 1, bf_last_error := Some e\<rparr>)
      in s1\<lparr>bf_items_done := bf_items_done s1 + 1\<rparr>)"

text \<open>What the world does while one item is imported: the answers, a failing statement, the time.\<close>

record item_world =
  iw_answers :: "nat \<Rightarrow> fetch_error + string"
  iw_fault :: store_fault
  iw_now :: utc

definition item_step ::
  "series_parser \<Rightarrow> item_world \<Rightarrow> string \<Rightarrow> backfill_status \<times> backfill_db \<Rightarrow> backfill_status \<times> backfill_db" where
  "item_step parse w item = (\<lambda>(s, db).
     (let (outcome, db1) = import_item parse (iw_now w) (iw_fault w) item (fetched_body (iw_answers w)) db
      in (count_item outcome s, db1)))"

definition finish_run :: "utc \<Rightarrow> backfill_status \<Rightarrow> backfill_status" where
  "finish_run now s = s\<lparr>bf_state := BfDone, bf_finished_at := Some (ts now)\<rparr>"

text \<open>\<open>run\<close>; \<open>worlds\<close> lists what happens at each item, \<open>started\<close> and \<open>ended\<close> are the clock's readings.\<close>

fun run_items ::
  "series_parser \<Rightarrow> (item_world \<times> string) list \<Rightarrow> backfill_status \<times> backfill_db \<Rightarrow> backfill_status \<times> backfill_db" where
  "run_items parse [] x = x"
| "run_items parse ((w, item) # is) x = run_items parse is (item_step parse w item x)"

definition run_backfill ::
  "series_parser \<Rightarrow> utc \<Rightarrow> utc \<Rightarrow> (item_world \<times> string) list \<Rightarrow> backfill_db \<Rightarrow> backfill_status \<times> backfill_db" where
  "run_backfill parse started ended is db =
     (let s = running_status started (length is) in
      if is = [] then (failed_status ended empty_error s, db)
      else (let (s1, db1) = run_items parse is (s, db) in (finish_run ended s1, db1)))"

section \<open>The task\<close>

text \<open>
  The background task with the items it has left: \<open>Spawned\<close> before \<open>run\<close> begins, \<open>Working\<close> in its
  loop, \<open>Crashed\<close> after a panic or a cancellation that \<open>watch\<close> has not seen yet. A panic in the
  closing log line, after the last update of the status, is left out.
\<close>

datatype backfill_task = NoTask | Spawned "string list" | Working "string list" | Crashed string

record backfill_system =
  by_status :: backfill_status
  by_task :: backfill_task
  by_db :: backfill_db

definition start_backfill :: "utc \<Rightarrow> string list \<Rightarrow> backfill_system \<Rightarrow> backfill_status \<times> backfill_system" where
  "start_backfill now is y =
     (if bf_state (by_status y) = BfRunning then (by_status y, y)
      else (running_status now (length is), y\<lparr>by_status := running_status now (length is), by_task := Spawned is\<rparr>))"

definition begin_run :: "utc \<Rightarrow> utc \<Rightarrow> string list \<Rightarrow> backfill_system \<Rightarrow> backfill_system" where
  "begin_run now ended is y =
     (if is = [] then y\<lparr>by_status := failed_status ended empty_error (running_status now 0), by_task := NoTask\<rparr>
      else y\<lparr>by_status := running_status now (length is), by_task := Working is\<rparr>)"

definition work_item :: "series_parser \<Rightarrow> item_world \<Rightarrow> string \<Rightarrow> string list \<Rightarrow> backfill_system \<Rightarrow> backfill_system" where
  "work_item parse w item rest y =
     (let (s, db) = item_step parse w item (by_status y, by_db y)
      in y\<lparr>by_status := s, by_task := Working rest, by_db := db\<rparr>)"

definition watch_run :: "utc \<Rightarrow> string \<Rightarrow> backfill_system \<Rightarrow> backfill_system" where
  "watch_run now e y = y\<lparr>by_status := failed_status now e (by_status y), by_task := NoTask\<rparr>"

inductive backfill_step :: "series_parser \<Rightarrow> backfill_system \<Rightarrow> backfill_system \<Rightarrow> bool" for parse where
  Start: "backfill_step parse y (snd (start_backfill now is y))"
| Begin: "by_task y = Spawned is \<Longrightarrow> backfill_step parse y (begin_run now ended is y)"
| Item: "by_task y = Working (item # rest) \<Longrightarrow> backfill_step parse y (work_item parse w item rest y)"
| Finish: "by_task y = Working [] \<Longrightarrow>
    backfill_step parse y (y\<lparr>by_status := finish_run now (by_status y), by_task := NoTask\<rparr>)"
| Crash: "by_task y \<in> {Spawned js, Working js} \<Longrightarrow> backfill_step parse y (y\<lparr>by_task := Crashed e\<rparr>)"
| Watch: "by_task y = Crashed e \<Longrightarrow> backfill_step parse y (watch_run now e y)"

definition fresh_system :: "backfill_db \<Rightarrow> backfill_system" where
  "fresh_system db = \<lparr>by_status = idle_status, by_task = NoTask, by_db = db\<rparr>"

section \<open>Inserting leaves what is there\<close>

lemma insert_or_ignore_new:
  "insert_or_ignore key r rows = rows @ (if key r \<in> key ` set rows then [] else [r])"
  using row_lookup_None[of key rows "key r"] by (auto simp: insert_or_ignore_def)

text \<open>The rows \<open>new\<close> are appended, one per missing key of the series.\<close>

definition appended :: "string \<Rightarrow> closed_db_row list \<Rightarrow> daily_row list \<Rightarrow> daily_row list \<Rightarrow> bool" where
  "appended item ds rows new \<longleftrightarrow>
     distinct (map daily_key new) \<and> daily_key ` set new \<inter> daily_key ` set rows = {} \<and>
     set new \<subseteq> daily_of item ` set ds \<and> daily_key ` daily_of item ` set ds \<subseteq> daily_key ` set (rows @ new)"

lemma insert_missing_appends:
  "\<exists>new. insert_missing item ds rows = (length new, rows @ new) \<and> appended item ds rows new"
proof (induction ds arbitrary: rows)
  case (Cons d ds)
  let ?r = "daily_of item d"
  let ?one = "if daily_key ?r \<in> daily_key ` set rows then [] else [?r]"
  obtain new where new: "insert_missing item ds (rows @ ?one) = (length new, (rows @ ?one) @ new)"
      "appended item ds (rows @ ?one) new"
    using Cons.IH by blast
  have eq: "insert_missing item (d # ds) rows = (length (?one @ new), rows @ (?one @ new))"
    using new(1) by (simp add: insert_or_ignore_new)
  have app: "appended item (d # ds) rows (?one @ new)"
    using new(2) by (cases "daily_key ?r \<in> daily_key ` set rows") (auto simp: appended_def)
  show ?case by (intro exI conjI) (rule eq, rule app)
qed (auto simp: appended_def)

lemma appended_distinct: "appended item ds rows new \<Longrightarrow> distinct (map daily_key rows) \<Longrightarrow> distinct (map daily_key (rows @ new))"
  by (auto simp: appended_def)

section \<open>One item\<close>

definition item_missing :: "item_world \<Rightarrow> bool" where
  "item_missing w \<longleftrightarrow> fetched_body (iw_answers w) = Inl FNotFound"

definition item_failed :: "series_parser \<Rightarrow> item_world \<Rightarrow> bool" where
  "item_failed parse w =
     (case fetched_body (iw_answers w) of
        Inr body \<Rightarrow> (case parse body of Inl e \<Rightarrow> True | Inr ds \<Rightarrow> iw_fault w \<noteq> NoFault)
      | Inl e \<Rightarrow> e \<noteq> FNotFound)"

text \<open>No write failed after the daily rows of the item were in.\<close>

definition writes_together :: "item_world \<Rightarrow> bool" where
  "writes_together w = (case iw_fault w of FailsUpsert e \<Rightarrow> False | FailsState e \<Rightarrow> False | _ \<Rightarrow> True)"

definition outcome_days :: "string + nat option \<Rightarrow> nat" where
  "outcome_days x = (case x of Inr (Some n) \<Rightarrow> n | _ \<Rightarrow> 0)"

lemma count_item_fields [simp]:
  "bf_items_done (count_item x s) = bf_items_done s + 1"
  "bf_items_total (count_item x s) = bf_items_total s"
  "bf_state (count_item x s) = bf_state s"
  "bf_items_missing (count_item x s) = bf_items_missing s + of_bool (x = Inr None)"
  "bf_items_failed (count_item x s) = bf_items_failed s + of_bool (isl x)"
  "bf_days_inserted (count_item x s) = bf_days_inserted s + int (outcome_days x)"
  by (auto simp: count_item_def Let_def outcome_days_def split: sum.splits option.splits)

text \<open>Between two states of the daily table: rows were only added, and under new keys.\<close>

definition only_added :: "daily_row list \<Rightarrow> daily_row list \<Rightarrow> nat \<Rightarrow> bool" where
  "only_added rows rows1 n \<longleftrightarrow>
     (\<exists>new. rows1 = rows @ new \<and> length new = n \<and> distinct (map daily_key new) \<and> daily_key ` set new \<inter> daily_key ` set rows = {})"

lemma only_added_refl [simp]: "only_added rows rows 0"
  by (simp add: only_added_def)

lemma only_added_trans: "only_added a b n \<Longrightarrow> only_added b c m \<Longrightarrow> only_added a c (n + m)"
  unfolding only_added_def by (elim exE) (rule_tac x = "new @ newa" in exI, auto)

lemma store_series_spec:
  assumes "store_series now fault item ds db = (x, db1)"
  shows "(\<exists>n. only_added (fd_daily db) (fd_daily db1) n \<and> outcome_days x \<le> n
            \<and> (fault \<in> {NoFault} \<union> range FailsInsert \<longrightarrow> outcome_days x = n)) \<and> isl x = (fault \<noteq> NoFault) \<and> x \<noteq> Inr None"
proof -
  obtain new where new: "insert_missing item ds (fd_daily db) = (length new, fd_daily db @ new)" "appended item ds (fd_daily db) new"
    using insert_missing_appends by blast
  have added: "only_added (fd_daily db) (fd_daily db @ new) (length new)"
    using new(2) by (auto simp: only_added_def appended_def)
  show ?thesis
    using assms new(1) added
    by (cases fault) (auto simp: store_series_def Let_def outcome_days_def intro: exI[of _ 0] exI[of _ "length new"])
qed

lemma import_item_spec:
  assumes "import_item parse (iw_now w) (iw_fault w) item (fetched_body (iw_answers w)) db = (x, db1)"
  shows "\<exists>n. only_added (fd_daily db) (fd_daily db1) n \<and> outcome_days x \<le> n \<and> (writes_together w \<longrightarrow> outcome_days x = n)"
    and "isl x = item_failed parse w" and "(x = Inr None) = item_missing w"
proof -
  let ?a = "fetched_body (iw_answers w)"
  show "\<exists>n. only_added (fd_daily db) (fd_daily db1) n \<and> outcome_days x \<le> n \<and> (writes_together w \<longrightarrow> outcome_days x = n)"
  proof (cases "\<exists>body ds. ?a = Inr body \<and> parse body = Inr ds")
    case True
    then obtain body ds where ds: "?a = Inr body" "parse body = Inr ds" by blast
    then have st: "store_series (iw_now w) (iw_fault w) item ds db = (x, db1)" using assms by (simp add: import_item_def)
    obtain n where n: "only_added (fd_daily db) (fd_daily db1) n" "outcome_days x \<le> n"
        "iw_fault w \<in> {NoFault} \<union> range FailsInsert \<longrightarrow> outcome_days x = n"
      using store_series_spec[OF st] by blast
    have "writes_together w \<Longrightarrow> iw_fault w \<in> {NoFault} \<union> range FailsInsert"
      by (cases "iw_fault w") (auto simp: writes_together_def)
    then show ?thesis using n by blast
  next
    case False
    then have "db1 = db" "outcome_days x = 0"
      using assms by (auto simp: import_item_def outcome_days_def split: sum.splits fetch_error.splits)
    then show ?thesis by (auto intro: exI[of _ 0])
  qed
  show "isl x = item_failed parse w" "(x = Inr None) = item_missing w"
    using assms store_series_spec[of "iw_now w" "iw_fault w" item _ db x db1]
    by (auto simp: import_item_def item_failed_def item_missing_def split: sum.splits fetch_error.splits)
qed

lemma item_step_spec:
  assumes "item_step parse w item (s, db) = (s1, db1)"
  shows "bf_items_done s1 = bf_items_done s + 1 \<and> bf_items_total s1 = bf_items_total s \<and> bf_state s1 = bf_state s
     \<and> bf_items_missing s1 = bf_items_missing s + of_bool (item_missing w)
     \<and> bf_items_failed s1 = bf_items_failed s + of_bool (item_failed parse w)
     \<and> (\<exists>n. only_added (fd_daily db) (fd_daily db1) n \<and> bf_days_inserted s1 \<le> bf_days_inserted s + int n
            \<and> (writes_together w \<longrightarrow> bf_days_inserted s1 = bf_days_inserted s + int n))"
proof -
  obtain x where x: "import_item parse (iw_now w) (iw_fault w) item (fetched_body (iw_answers w)) db = (x, db1)" "s1 = count_item x s"
    using assms by (auto simp: item_step_def Let_def split: prod.splits)
  show ?thesis using import_item_spec[OF x(1)] x(2) by auto
qed

lemma run_items_spec:
  assumes "run_items parse is (s, db) = (s1, db1)"
  shows "bf_items_done s1 = bf_items_done s + int (length is) \<and> bf_items_total s1 = bf_items_total s \<and> bf_state s1 = bf_state s
     \<and> bf_items_missing s1 = bf_items_missing s + int (length (filter (\<lambda>x. item_missing (fst x)) is))
     \<and> bf_items_failed s1 = bf_items_failed s + int (length (filter (\<lambda>x. item_failed parse (fst x)) is))
     \<and> (\<exists>n. only_added (fd_daily db) (fd_daily db1) n \<and> bf_days_inserted s1 \<le> bf_days_inserted s + int n
            \<and> (list_all (\<lambda>x. writes_together (fst x)) is \<longrightarrow> bf_days_inserted s1 = bf_days_inserted s + int n))"
  using assms
proof (induction "is" arbitrary: s db)
  case (Cons x "is")
  obtain w item where wx: "x = (w, item)" by fastforce
  obtain s2 db2 where st: "item_step parse w item (s, db) = (s2, db2)" by fastforce
  note one = item_step_spec[OF st] and rest = Cons.IH[of s2 db2]
  obtain n where n: "only_added (fd_daily db) (fd_daily db2) n" "bf_days_inserted s2 \<le> bf_days_inserted s + int n"
      "writes_together w \<longrightarrow> bf_days_inserted s2 = bf_days_inserted s + int n" using one by blast
  have run: "run_items parse is (s2, db2) = (s1, db1)" using Cons.prems by (simp add: wx st)
  then obtain m where m: "only_added (fd_daily db2) (fd_daily db1) m" "bf_days_inserted s1 \<le> bf_days_inserted s2 + int m"
      "list_all (\<lambda>x. writes_together (fst x)) is \<longrightarrow> bf_days_inserted s1 = bf_days_inserted s2 + int m" using rest by blast
  have "only_added (fd_daily db) (fd_daily db1) (n + m)" using n(1) m(1) by (rule only_added_trans)
  then have all: "\<exists>k. only_added (fd_daily db) (fd_daily db1) k \<and> bf_days_inserted s1 \<le> bf_days_inserted s + int k
            \<and> (list_all (\<lambda>x. writes_together (fst x)) (x # is) \<longrightarrow> bf_days_inserted s1 = bf_days_inserted s + int k)"
    using n(2,3) m(2,3) by (intro exI[of _ "n + m"]) (auto simp: wx)
  show ?case using one rest[OF run] all by (auto simp: wx)
qed auto


section \<open>The task's life\<close>

definition task_counts :: "backfill_system \<Rightarrow> bool" where
  "task_counts y =
     (let s = by_status y in
      (case by_task y of Working is \<Rightarrow> bf_items_done s + int (length is) = bf_items_total s | _ \<Rightarrow> True) \<and>
      (bf_state s = BfDone \<longrightarrow> bf_items_done s = bf_items_total s) \<and>
      bf_items_missing s + bf_items_failed s \<le> bf_items_done s \<and> 0 \<le> bf_items_missing s \<and> 0 \<le> bf_items_failed s)"

definition one_run :: "backfill_system \<Rightarrow> bool" where
  "one_run y \<longleftrightarrow> (bf_state (by_status y) = BfRunning \<longleftrightarrow> by_task y \<noteq> NoTask)"

lemma status_fields [simp]:
  "bf_state (running_status now n) = BfRunning" "bf_items_done (running_status now n) = 0"
  "bf_items_total (running_status now n) = int n" "bf_items_missing (running_status now n) = 0"
  "bf_items_failed (running_status now n) = 0" "bf_days_inserted (running_status now n) = 0"
  "bf_state (failed_status now e s) = BfFailed" "bf_items_done (failed_status now e s) = bf_items_done s"
  "bf_items_missing (failed_status now e s) = bf_items_missing s" "bf_items_failed (failed_status now e s) = bf_items_failed s"
  "bf_state idle_status = BfIdle" "bf_items_done idle_status = 0" "bf_items_missing idle_status = 0" "bf_items_failed idle_status = 0"
  "bf_state (finish_run now s) = BfDone" "bf_items_done (finish_run now s) = bf_items_done s"
  "bf_items_total (finish_run now s) = bf_items_total s" "bf_items_missing (finish_run now s) = bf_items_missing s"
  "bf_items_failed (finish_run now s) = bf_items_failed s" "bf_days_inserted (finish_run now s) = bf_days_inserted s"
  by (simp_all add: running_status_def failed_status_def idle_status_def finish_run_def)

lemma outcome_exclusive: "of_bool (item_missing w) + of_bool (item_failed parse w) \<le> (1::int)"
  by (auto simp: item_missing_def item_failed_def)

lemma work_item_fields:
  "by_task (work_item parse w item rest y) = Working rest"
  "bf_state (by_status (work_item parse w item rest y)) = bf_state (by_status y)"
  "\<exists>n. only_added (fd_daily (by_db y)) (fd_daily (by_db (work_item parse w item rest y))) n"
  "task_counts y \<Longrightarrow> by_task y = Working (item # rest) \<Longrightarrow> bf_state (by_status y) = BfRunning \<Longrightarrow> task_counts (work_item parse w item rest y)"
proof -
  obtain s1 db1 where st: "item_step parse w item (by_status y, by_db y) = (s1, db1)" by fastforce
  note f = item_step_spec[OF st]
  show "by_task (work_item parse w item rest y) = Working rest"
    "bf_state (by_status (work_item parse w item rest y)) = bf_state (by_status y)"
    "\<exists>n. only_added (fd_daily (by_db y)) (fd_daily (by_db (work_item parse w item rest y))) n"
    using f by (auto simp: work_item_def st)
  show "task_counts y \<Longrightarrow> by_task y = Working (item # rest) \<Longrightarrow> bf_state (by_status y) = BfRunning \<Longrightarrow> task_counts (work_item parse w item rest y)"
    using f outcome_exclusive[of w parse] by (auto simp: work_item_def st task_counts_def Let_def)
qed

lemma backfill_step_invariant:
  assumes "backfill_step parse y z" "one_run y" "task_counts y"
  shows "one_run z \<and> task_counts z \<and> (\<exists>n. only_added (fd_daily (by_db y)) (fd_daily (by_db z)) n)"
  using assms
proof (induction rule: backfill_step.induct)
  case (Item y item rest w)
  then show ?case using work_item_fields(3)[of y parse w item rest] work_item_fields(4)[of y item rest parse w]
    by (auto simp: one_run_def work_item_fields(1,2))
next
  case (Start y now "is")
  then show ?case by (auto simp: start_backfill_def one_run_def task_counts_def Let_def intro: exI[of _ 0] split: backfill_task.split)
next
  case (Begin y "is" now ended)
  then show ?case by (auto simp: begin_run_def one_run_def task_counts_def Let_def intro: exI[of _ 0])
next
  case (Finish y now)
  then show ?case by (auto simp: one_run_def task_counts_def Let_def intro: exI[of _ 0])
next
  case (Crash y "is" e)
  then show ?case by (auto simp: one_run_def task_counts_def Let_def intro: exI[of _ 0])
next
  case (Watch y e now)
  then show ?case by (auto simp: watch_run_def one_run_def task_counts_def Let_def intro: exI[of _ 0])
qed

definition backfill_reach :: "series_parser \<Rightarrow> backfill_db \<Rightarrow> backfill_system \<Rightarrow> bool" where
  "backfill_reach parse db y \<longleftrightarrow> (backfill_step parse)\<^sup>*\<^sup>* (fresh_system db) y"

lemma backfill_reach_invariant:
  assumes "backfill_reach parse db y"
  shows "one_run y \<and> task_counts y \<and> (\<exists>n. only_added (fd_daily db) (fd_daily (by_db y)) n)"
  using assms unfolding backfill_reach_def
proof (induction rule: rtranclp_induct)
  case base
  show ?case by (auto simp: fresh_system_def one_run_def task_counts_def Let_def intro: exI[of _ 0])
next
  case (step y z)
  have "one_run z \<and> task_counts z \<and> (\<exists>n. only_added (fd_daily (by_db y)) (fd_daily (by_db z)) n)"
    using backfill_step_invariant[OF step.hyps(2)] step.IH by blast
  then show ?case using step.IH only_added_trans by blast
qed

text \<open>A working task ends whatever its items do.\<close>

lemma working_ends:
  assumes "by_task y = Working is"
  shows "\<exists>z. (backfill_step parse)\<^sup>*\<^sup>* y z \<and> by_task z = NoTask \<and> bf_state (by_status z) = BfDone"
  using assms
proof (induction "is" arbitrary: y)
  case Nil
  then have "backfill_step parse y (y\<lparr>by_status := finish_run 0 (by_status y), by_task := NoTask\<rparr>)" by (rule Finish)
  then show ?case by (intro exI[of _ "y\<lparr>by_status := finish_run 0 (by_status y), by_task := NoTask\<rparr>"]) auto
next
  case (Cons item rest)
  let ?w = "undefined :: item_world"
  have "backfill_step parse y (work_item parse ?w item rest y)" using Cons.prems by (rule Item)
  moreover obtain z where "(backfill_step parse)\<^sup>*\<^sup>* (work_item parse ?w item rest y) z" "by_task z = NoTask" "bf_state (by_status z) = BfDone"
    using Cons.IH[of "work_item parse ?w item rest y"] work_item_fields(1) by blast
  ultimately show ?case by (intro exI[of _ z]) (auto intro: converse_rtranclp_into_rtranclp)
qed


section \<open>Properties\<close>

lemma fetch_attempts_agree:
  "r \<le> max_retries \<Longrightarrow> fetch_from r (map source [r..<Suc max_retries]) =
     (Some (fst (fetch_attempts source r)), snd (fetch_attempts source r))"
proof (induction source r rule: fetch_attempts.induct)
  case (1 source r)
  have u: "[r..<Suc max_retries] = r # [Suc r..<Suc max_retries]" using "1.prems" by (simp add: upt_conv_Cons del: upt_Suc)
  show ?case
  proof (cases "\<exists>e. source r = Inl e \<and> e \<notin> {FNotFound, FBlocked, FRateLimited} \<and> \<not> max_retries \<le> r")
    case True
    then obtain e where e: "source r = Inl e" "e \<notin> {FNotFound, FBlocked, FRateLimited}" "\<not> max_retries \<le> r" by blast
    show ?thesis
      using "1.IH"[OF e] e unfolding u by (subst (1 2) fetch_attempts.simps) (simp add: case_prod_unfold Let_def del: upt_Suc)
  next
    case False
    then show ?thesis
      unfolding u by (subst (1 2) fetch_attempts.simps) (auto split: sum.splits simp del: upt_Suc)
  qed
qed

text \<open>
  The retries of the import are those of the order sweeps: on the same answers the loop
  returns what \<open>fetch_with_retries\<close> returns, after the same reports to the breaker.
\<close>

theorem import_retries_like_the_sweeps:
  "fetch_with_retries (map source [0..<max_retries + 1]) = (Some (fetched_body source), snd (fetch_attempts source 0))"
  using fetch_attempts_agree[of 0 source] by (simp add: fetch_with_retries_def fetched_body_def)

text \<open>
  C32. A run accounts for every item and costs no stored day: when it ends it is done, every item
  is counted once, the missing and the failed ones apart; the daily table has kept all its rows and
  gained rows under new keys only, at least as many as the reported number of days, and exactly as
  many if no write failed after the daily rows of its item were in.
\<close>

theorem run_counts_and_keeps:
  assumes "is \<noteq> []" "run_backfill parse started ended is db = (s, db1)"
  shows "bf_state s = BfDone \<and> bf_items_done s = int (length is) \<and> bf_items_total s = int (length is)
     \<and> bf_items_missing s = int (length (filter (\<lambda>x. item_missing (fst x)) is))
     \<and> bf_items_failed s = int (length (filter (\<lambda>x. item_failed parse (fst x)) is))
     \<and> (\<exists>new. fd_daily db1 = fd_daily db @ new \<and> distinct (map daily_key new) \<and> daily_key ` set new \<inter> daily_key ` set (fd_daily db) = {}
          \<and> bf_days_inserted s \<le> int (length new)
          \<and> (list_all (\<lambda>x. writes_together (fst x)) is \<longrightarrow> bf_days_inserted s = int (length new)))"
proof -
  obtain s1 where run: "run_items parse is (running_status started (length is), db) = (s1, db1)" "s = finish_run ended s1"
    using assms by (auto simp: run_backfill_def Let_def split: prod.splits)
  show ?thesis using run_items_spec[OF run(1)] run(2) by (auto simp: only_added_def)
qed

text \<open>
  C33. The import is never wedged and never runs twice: in every reachable state the status says
  running exactly while a task exists, so a second start changes nothing; the counters of a task
  and its remaining items add up to the total; and from every such state, a panic or a
  cancellation of the task included, the task can come to its end, after which a start runs again.
\<close>

theorem backfill_is_never_wedged:
  assumes "backfill_reach parse db y"
  shows "(bf_state (by_status y) = BfRunning \<longleftrightarrow> by_task y \<noteq> NoTask)
     \<and> (by_task y \<noteq> NoTask \<longrightarrow> snd (start_backfill now is y) = y)
     \<and> (\<forall>rest. by_task y = Working rest \<longrightarrow> bf_items_done (by_status y) + int (length rest) = bf_items_total (by_status y))
     \<and> bf_items_missing (by_status y) + bf_items_failed (by_status y) \<le> bf_items_done (by_status y)
     \<and> (\<exists>z. (backfill_step parse)\<^sup>*\<^sup>* y z \<and> by_task (snd (start_backfill now is z)) = Spawned is)"
proof -
  have inv: "one_run y" "task_counts y" using backfill_reach_invariant[OF assms] by auto
  have "\<exists>z. (backfill_step parse)\<^sup>*\<^sup>* y z \<and> by_task z = NoTask"
  proof (cases "by_task y")
    case (Spawned js)
    then have st: "backfill_step parse y (begin_run 0 0 js y)" by (rule Begin)
    show ?thesis
    proof (cases "js = []")
      case True
      then show ?thesis using st by (intro exI[of _ "begin_run 0 0 js y"]) (auto simp: begin_run_def)
    next
      case False
      then have "by_task (begin_run 0 0 js y) = Working js" by (simp add: begin_run_def)
      then show ?thesis using working_ends[of "begin_run 0 0 js y" js parse] st by (meson converse_rtranclp_into_rtranclp)
    qed
  next
    case (Working js)
    then show ?thesis using working_ends by blast
  next
    case (Crashed e)
    then have "backfill_step parse y (watch_run 0 e y)" by (rule Watch)
    then show ?thesis by (intro exI[of _ "watch_run 0 e y"]) (auto simp: watch_run_def)
  qed auto
  then obtain z where z: "(backfill_step parse)\<^sup>*\<^sup>* y z" "by_task z = NoTask" by blast
  then have "backfill_reach parse db z" using assms unfolding backfill_reach_def by simp
  then have "bf_state (by_status z) \<noteq> BfRunning" using backfill_reach_invariant z(2) by (auto simp: one_run_def)
  then have restart: "by_task (snd (start_backfill now is z)) = Spawned is" by (simp add: start_backfill_def)
  have "by_task y \<noteq> NoTask \<Longrightarrow> snd (start_backfill now is y) = y" using inv by (simp add: one_run_def start_backfill_def)
  then show ?thesis using inv z(1) restart by (auto simp: one_run_def task_counts_def Let_def)
qed

text \<open>A panicked run: the system after \<open>start\<close>, the first item and a crash.\<close>

definition demo_backfill :: backfill_system where
  "demo_backfill =
     (work_item (\<lambda>_. Inr []) \<lparr>iw_answers = \<lambda>_. Inl FNotFound, iw_fault = NoFault, iw_now = 0\<rparr> ''a'' [''b'']
        (begin_run 0 0 [''a'', ''b''] (snd (start_backfill 0 [''a'', ''b''] (fresh_system \<lparr>fd_daily = [], fd_closed = \<lparr>cd_days = [], cd_fetch = []\<rparr>\<rparr>)))))
       \<lparr>by_task := Crashed ''panicked''\<rparr>"

lemma demo_backfill_reach:
  "backfill_reach (\<lambda>_. Inr []) \<lparr>fd_daily = [], fd_closed = \<lparr>cd_days = [], cd_fetch = []\<rparr>\<rparr> demo_backfill"
proof -
  let ?p = "\<lambda>_::string. Inr [] :: string + closed_db_row list"
  let ?y0 = "fresh_system \<lparr>fd_daily = [], fd_closed = \<lparr>cd_days = [], cd_fetch = []\<rparr>\<rparr>"
  let ?w = "\<lparr>iw_answers = \<lambda>_. Inl FNotFound, iw_fault = NoFault, iw_now = 0\<rparr>"
  let ?y1 = "snd (start_backfill 0 [''a'', ''b''] ?y0)"
  let ?y2 = "begin_run 0 0 [''a'', ''b''] ?y1"
  let ?y3 = "work_item ?p ?w ''a'' [''b''] ?y2"
  have t: "by_task ?y1 = Spawned [''a'', ''b'']" by (simp add: start_backfill_def fresh_system_def)
  have "backfill_step ?p ?y0 ?y1" by (rule Start)
  moreover have "backfill_step ?p ?y1 ?y2" using t by (rule Begin)
  moreover have "backfill_step ?p ?y2 ?y3" by (rule Item) (simp add: begin_run_def)
  moreover have "backfill_step ?p ?y3 demo_backfill"
    unfolding demo_backfill_def by (rule Crash[where js = "[''b'']"]) (simp add: work_item_fields(1))
  ultimately show ?thesis unfolding backfill_reach_def by (meson rtranclp.rtrancl_refl rtranclp.rtrancl_into_rtrancl)
qed

theorem backfill_is_never_wedged_witness:
  "\<exists>z. (backfill_step (\<lambda>_. Inr []))\<^sup>*\<^sup>* demo_backfill z \<and> by_task (snd (start_backfill 1 [''c''] z)) = Spawned [''c'']"
  using backfill_is_never_wedged[OF demo_backfill_reach, of 1 "[''c'']"] by blast

definition demo_world :: "fetch_error + string \<Rightarrow> store_fault \<Rightarrow> item_world" where
  "demo_world a f = \<lparr>iw_answers = \<lambda>_. a, iw_fault = f, iw_now = 0\<rparr>"

theorem run_counts_and_keeps_witness:
  "bf_items_missing (fst (run_backfill (\<lambda>_. Inr []) 0 1
      [(demo_world (Inl FNotFound) NoFault, ''a''), (demo_world (Inr ''{}'') NoFault, ''b'')]
      \<lparr>fd_daily = [], fd_closed = \<lparr>cd_days = [], cd_fetch = []\<rparr>\<rparr>)) = 1"
proof -
  let ?is = "[(demo_world (Inl FNotFound) NoFault, ''a''), (demo_world (Inr ''{}'') NoFault, ''b'')]"
  have "length (filter (\<lambda>x. item_missing (fst x)) ?is) = 1" by (simp add: item_missing_def demo_world_def fetched_body_first)
  then show ?thesis
    using run_counts_and_keeps[of ?is "\<lambda>_. Inr []" 0 1 "\<lparr>fd_daily = [], fd_closed = \<lparr>cd_days = [], cd_fetch = []\<rparr>\<rparr>"]
    by (metis list.distinct(1) of_nat_1 prod.collapse)
qed

end
