(* ===== verification/Trade_Tax.thy ===== *)
theory Trade_Tax
  imports Backfill
begin

text \<open>
  The trade tax of every item (\<open>qf_core/src/collector/trade_tax.rs\<close>): what a body's tax is, the
  table with the items still missing from it, and one fetch with the deferral of items nothing was
  stored for. Decoding JSON is an argument; \<open>far\<close> is the greatest time of the clock's library,
  \<open>DateTime::<Utc>::MAX_UTC\<close>.
\<close>

section \<open>The body\<close>

text \<open>A decoded body, as far as it is looked at: \<open>data\<close> an object or not, its \<open>tradingTax\<close> an \<open>i64\<close> or not.\<close>

datatype tax_field = TaxAbsent | TaxInt int | TaxOther
datatype tax_body = NoDataObject | DataObject tax_field

fun trading_tax :: "string + tax_body \<Rightarrow> string + int" where
  "trading_tax (Inl e) = Inl e"
| "trading_tax (Inr NoDataObject) = Inl ''no data object''"
| "trading_tax (Inr (DataObject TaxAbsent)) = Inr 0"
| "trading_tax (Inr (DataObject (TaxInt n))) = Inr n"
| "trading_tax (Inr (DataObject TaxOther)) = Inr 0"

definition parse_trading_tax :: "(string \<Rightarrow> string + tax_body) \<Rightarrow> string \<Rightarrow> string + int" where
  "parse_trading_tax decode body = trading_tax (decode body)"

section \<open>The table\<close>

record tax_row =
  tx_item_id :: string
  tx_trading_tax :: int
  tx_fetched_at :: stamp

text \<open>\<open>LEFT JOIN ... WHERE s.active = 1 AND t.item_id IS NULL ORDER BY s.item_id\<close>.\<close>

definition missing_items :: "collector_db \<Rightarrow> tax_row list \<Rightarrow> (string \<times> string) list" where
  "missing_items sweeps taxes =
     map (\<lambda>s. (sr_item_id s, sr_slug s))
       (sort_key sr_item_id
         (filter (\<lambda>s. sr_active s \<and> row_lookup tx_item_id taxes (sr_item_id s) = None) (db_sweep_state sweeps)))"

definition upsert_tax :: "tax_row list \<Rightarrow> string \<Rightarrow> int \<Rightarrow> utc \<Rightarrow> tax_row list" where
  "upsert_tax taxes item tax now =
     upsert_row tx_item_id \<lparr>tx_item_id = item, tx_trading_tax = tax, tx_fetched_at = ts now\<rparr> taxes"

definition load_taxes :: "tax_row list \<Rightarrow> string \<rightharpoonup> int" where
  "load_taxes taxes item = map_option tx_trading_tax (row_lookup tx_item_id taxes item)"

interpretation trade_taxes: keyed_store tx_item_id "row_lookup tx_item_id" "upsert_row tx_item_id" "row_delete tx_item_id"
  by unfold_locales (simp_all add: upsert_lookup row_lookup_delete)

section \<open>One fetch\<close>

definition transient_retry :: int where "transient_retry = 1"

record tax_state =
  tax_rows :: "tax_row list"
  tax_deferred :: "string \<rightharpoonup> utc"

definition set_aside :: "(string \<rightharpoonup> utc) \<Rightarrow> utc \<Rightarrow> string \<Rightarrow> bool" where
  "set_aside deferred now item = (case deferred item of Some t \<Rightarrow> now < t | None \<Rightarrow> False)"

definition due_items :: "collector_db \<Rightarrow> utc \<Rightarrow> tax_state \<Rightarrow> (string \<times> string) list" where
  "due_items sweeps now st =
     filter (\<lambda>x. \<not> set_aside (tax_deferred st) now (fst x)) (missing_items sweeps (tax_rows st))"

definition deferral :: "utc \<Rightarrow> utc \<Rightarrow> string + int \<Rightarrow> utc option" where
  "deferral far now parsed = (case parsed of Inr _ \<Rightarrow> None | Inl _ \<Rightarrow> Some far)"

text \<open>
  The count of the due items before the fetch (\<open>None\<close> when there are none) and the state after.
  An error of the database ends the fetch with that error and leaves the state as it was; the
  argument \<open>db_error\<close> says whether the write of the tax fails.
\<close>

definition fetch_tax_once ::
  "utc \<Rightarrow> (string \<Rightarrow> string + int) \<Rightarrow> (string \<Rightarrow> nat \<Rightarrow> fetch_error + string) \<Rightarrow> string option \<Rightarrow> collector_db \<Rightarrow> string set \<Rightarrow> utc
     \<Rightarrow> tax_state \<Rightarrow> (string + nat option) \<times> tax_state" where
  "fetch_tax_once far parse source db_error sweeps hot now st =
     (let missing = due_items sweeps now st;
          put_off = (\<lambda>item t. st\<lparr>tax_deferred := (tax_deferred st)(item \<mapsto> t)\<rparr>)
      in case pick_stale missing hot of
        None \<Rightarrow> (Inr None, st)
      | Some (item, slug) \<Rightarrow>
          (case fetched_body (source slug) of
             Inr body \<Rightarrow>
               (case parse body of
                  Inr tax \<Rightarrow>
                    (case db_error of
                       Some e \<Rightarrow> (Inl e, st)
                     | None \<Rightarrow> (Inr (Some (length missing)), st\<lparr>tax_rows := upsert_tax (tax_rows st) item tax now\<rparr>))
                | Inl e \<Rightarrow> (Inr (Some (length missing)), put_off item far))
           | Inl FNotFound \<Rightarrow> (Inr (Some (length missing)), put_off item far)
           | Inl FBlocked \<Rightarrow> (Inr (Some (length missing)), st)
           | Inl FRateLimited \<Rightarrow> (Inr (Some (length missing)), st)
           | Inl e \<Rightarrow> (Inr (Some (length missing)), put_off item (now + hours transient_retry))))"

section \<open>What a fetch leaves\<close>

text \<open>The fetch reached the marketplace and its write went through.\<close>

definition not_blocked :: "(string \<Rightarrow> nat \<Rightarrow> fetch_error + string) \<Rightarrow> bool" where
  "not_blocked source \<longleftrightarrow> (\<forall>slug. fetched_body (source slug) \<notin> {Inl FBlocked, Inl FRateLimited})"

text \<open>The item was stored, or put off to a later time; nothing else changed.\<close>

definition settled :: "utc \<Rightarrow> string \<Rightarrow> tax_state \<Rightarrow> tax_state \<Rightarrow> bool" where
  "settled now item st st1 \<longleftrightarrow>
     (\<exists>tax. st1 = st\<lparr>tax_rows := upsert_tax (tax_rows st) item tax now\<rparr>)
   \<or> (\<exists>t. now < t \<and> st1 = st\<lparr>tax_deferred := (tax_deferred st)(item \<mapsto> t)\<rparr>)"

lemma hour_ahead: "now < now + hours transient_retry"
  by (simp add: hours_def transient_retry_def secs_def)

lemma settled_stored: "settled now item st (st\<lparr>tax_rows := upsert_tax (tax_rows st) item tax now\<rparr>)"
  by (auto simp: settled_def)

lemma settled_later: "now < t \<Longrightarrow> settled now item st (st\<lparr>tax_deferred := (tax_deferred st)(item \<mapsto> t)\<rparr>)"
  by (auto simp: settled_def)

lemma fetch_settles:
  assumes "pick_stale (due_items sweeps now st) hot = Some (item, slug)" "not_blocked source" "now < far"
  shows "settled now item st (snd (fetch_tax_once far parse source None sweeps hot now st))"
proof (cases "fetched_body (source slug)")
  case (Inr body)
  then show ?thesis using assms by (cases "parse body") (simp_all add: fetch_tax_once_def Let_def settled_stored settled_later)
next
  case (Inl e)
  moreover have "fetched_body (source slug) \<notin> {Inl FBlocked, Inl FRateLimited}" using assms(2) unfolding not_blocked_def by blast
  ultimately show ?thesis using assms settled_later[OF hour_ahead]
    by (cases e) (simp_all add: fetch_tax_once_def Let_def settled_later)
qed

definition due_rows :: "collector_db \<Rightarrow> utc \<Rightarrow> tax_state \<Rightarrow> sweep_row list" where
  "due_rows sweeps now st =
     filter (\<lambda>s. sr_active s \<and> row_lookup tx_item_id (tax_rows st) (sr_item_id s) = None
       \<and> \<not> set_aside (tax_deferred st) now (sr_item_id s)) (db_sweep_state sweeps)"

lemma due_items_rows: "due_items sweeps now st = map (\<lambda>s. (sr_item_id s, sr_slug s)) (sort_key sr_item_id (due_rows sweeps now st))"
  by (simp add: due_items_def missing_items_def due_rows_def filter_map comp_def filter_sort conj_ac)

lemma due_items_length: "length (due_items sweeps now st) = length (due_rows sweeps now st)"
  by (simp add: due_items_rows)

lemma settled_rows:
  assumes "settled now item st st1"
  shows "due_rows sweeps now st1 = filter (\<lambda>s. sr_item_id s \<noteq> item) (due_rows sweeps now st)"
  using assms unfolding settled_def due_rows_def filter_filter
  by (auto simp: upsert_tax_def upsert_lookup set_aside_def split: if_splits intro!: filter_cong)

lemma settled_due:
  assumes "settled now item st st1" "(item, slug) \<in> set (due_items sweeps now st)" "distinct (map sr_item_id (db_sweep_state sweeps))"
  shows "length (due_items sweeps now st1) = length (due_items sweeps now st) - 1"
proof -
  have "distinct (map sr_item_id (due_rows sweeps now st))" using assms(3) by (simp add: due_rows_def distinct_map_filter)
  moreover have "item \<in> sr_item_id ` set (due_rows sweeps now st)" using assms(2) by (force simp: due_items_rows)
  ultimately show ?thesis
    unfolding due_items_length settled_rows[OF assms(1)] by (rule filter_one_key)
qed

text \<open>Fetches at the given times, each against the marketplace of its own moment.\<close>

fun fetch_taxes ::
  "utc \<Rightarrow> (string \<Rightarrow> string + int) \<Rightarrow> (nat \<Rightarrow> string \<Rightarrow> nat \<Rightarrow> fetch_error + string) \<Rightarrow> collector_db \<Rightarrow> string set \<Rightarrow> utc list \<Rightarrow> tax_state \<Rightarrow> tax_state" where
  "fetch_taxes far parse source sweeps hot [] st = st"
| "fetch_taxes far parse source sweeps hot (now # nows) st =
     fetch_taxes far parse source sweeps hot nows
       (snd (fetch_tax_once far parse (source (length nows)) None sweeps hot now st))"

text \<open>
  No item blocks the queue of trade taxes: as long as fetches are neither blocked nor fail to
  write, each one takes an item off the due list whatever its answer (a tax, no such item, a body
  without data, an outage), so the list shrinks by one per fetch until it is empty.
\<close>

theorem no_item_blocks_the_tax_queue:
  assumes "distinct (map sr_item_id (db_sweep_state sweeps))" "\<forall>k. not_blocked (source k)" "now < far"
  shows "length (due_items sweeps now (fetch_taxes far parse source sweeps hot (replicate n now) st))
       = length (due_items sweeps now st) - n"
proof (induction n arbitrary: st)
  case (Suc n)
  let ?st1 = "snd (fetch_tax_once far parse (source n) None sweeps hot now st)"
  have "length (due_items sweeps now ?st1) = length (due_items sweeps now st) - 1"
  proof (cases "pick_stale (due_items sweeps now st) hot")
    case None
    then have "due_items sweeps now st = []" by (simp add: pick_stale_None)
    then show ?thesis using None by (simp add: fetch_tax_once_def Let_def)
  next
    case (Some x)
    obtain item slug where x: "x = (item, slug)" by fastforce
    have "settled now item st ?st1" using fetch_settles[OF Some[unfolded x]] assms(2,3) by blast
    then show ?thesis using settled_due[OF _ pick_stale_in[OF Some[unfolded x]] assms(1)] by blast
  qed
  then show ?case using Suc.IH[of ?st1] by simp
qed simp

lemma due_not_stored: "(item, slug) \<in> set (due_items sweeps now st) \<Longrightarrow> load_taxes (tax_rows st) item = None"
  by (auto simp: due_items_rows due_rows_def load_taxes_def)

lemma fetch_once_rows:
  shows "tax_rows (snd (fetch_tax_once far parse source err sweeps hot now st)) = tax_rows st \<or>
     (\<exists>item slug body tax. (item, slug) \<in> set (due_items sweeps now st) \<and> fetched_body (source slug) = Inr body \<and> parse body = Inr tax
        \<and> tax_rows (snd (fetch_tax_once far parse source err sweeps hot now st)) = upsert_tax (tax_rows st) item tax now)"
proof (cases "pick_stale (due_items sweeps now st) hot")
  case None
  then show ?thesis by (simp add: fetch_tax_once_def Let_def)
next
  case (Some x)
  obtain item slug where x: "x = (item, slug)" by fastforce
  show ?thesis
  proof (cases "\<exists>body tax. fetched_body (source slug) = Inr body \<and> parse body = Inr tax \<and> err = None")
    case True
    then obtain body tax where bt: "fetched_body (source slug) = Inr body" "parse body = Inr tax" "err = None" by blast
    then have "tax_rows (snd (fetch_tax_once far parse source err sweeps hot now st)) = upsert_tax (tax_rows st) item tax now"
      using Some by (simp add: fetch_tax_once_def Let_def x)
    then show ?thesis using bt pick_stale_in[OF Some] unfolding x by blast
  next
    case False
    then have "tax_rows (snd (fetch_tax_once far parse source err sweeps hot now st)) = tax_rows st"
      using Some by (auto simp: fetch_tax_once_def Let_def x split: sum.splits fetch_error.splits option.splits)
    then show ?thesis ..
  qed
qed

lemma upsert_tax_loads: "load_taxes (upsert_tax taxes item tax now) = (load_taxes taxes)(item \<mapsto> tax)"
  by (auto simp: load_taxes_def upsert_tax_def upsert_lookup)

lemma upsert_tax_distinct: "distinct (map tx_item_id taxes) \<Longrightarrow> distinct (map tx_item_id (upsert_tax taxes item tax now))"
  by (simp add: upsert_tax_def upsert_distinct)

text \<open>
  A stored tax is final and an absent answer never invents one: over any fetches, at any times
  and with any answers, the tax of an item that has one keeps its value, an item gets a row only by a body
  that was parsed to that tax, and the table keeps one row per item.
\<close>

theorem stored_taxes_are_final:
  assumes "distinct (map tx_item_id (tax_rows st))"
  shows "distinct (map tx_item_id (tax_rows (fetch_taxes far parse source sweeps hot nows st)))
    \<and> load_taxes (tax_rows st) \<subseteq>\<^sub>m load_taxes (tax_rows (fetch_taxes far parse source sweeps hot nows st))
    \<and> (\<forall>item tax. load_taxes (tax_rows (fetch_taxes far parse source sweeps hot nows st)) item = Some tax \<longrightarrow>
         load_taxes (tax_rows st) item = Some tax \<or> (\<exists>k slug body. fetched_body (source k slug) = Inr body \<and> parse body = Inr tax))"
  using assms
proof (induction nows arbitrary: st)
  case (Cons now nows)
  let ?st1 = "snd (fetch_tax_once far parse (source (length nows)) None sweeps hot now st)"
  consider (same) "tax_rows ?st1 = tax_rows st"
    | (stored) item slug body tax where "(item, slug) \<in> set (due_items sweeps now st)" "fetched_body (source (length nows) slug) = Inr body"
        "parse body = Inr tax" "tax_rows ?st1 = upsert_tax (tax_rows st) item tax now"
    using fetch_once_rows[of far parse "source (length nows)" None sweeps hot now st] by blast
  then show ?case
  proof cases
    case same
    then show ?thesis using Cons.IH[of ?st1] Cons.prems unfolding fetch_taxes.simps same by blast
  next
    case stored
    have "load_taxes (tax_rows st) \<subseteq>\<^sub>m load_taxes (tax_rows ?st1)"
      using due_not_stored[OF stored(1)] by (auto simp: stored(4) upsert_tax_loads map_le_def)
    moreover have "distinct (map tx_item_id (tax_rows ?st1))" using Cons.prems by (simp add: stored(4) upsert_tax_distinct)
    moreover have "load_taxes (tax_rows ?st1) i = Some x \<Longrightarrow> load_taxes (tax_rows st) i = Some x \<or> x = tax" for i x
      by (auto simp: stored(4) upsert_tax_loads split: if_splits)
    ultimately show ?thesis using Cons.IH[of ?st1] stored(2,3) map_le_trans
      unfolding fetch_taxes.simps by (intro conjI allI impI) blast+
  qed
qed simp

definition demo_tax_state :: tax_state where
  "demo_tax_state = \<lparr>tax_rows = [\<lparr>tx_item_id = ''a'', tx_trading_tax = 8000, tx_fetched_at = 0\<rparr>], tax_deferred = Map.empty\<rparr>"

theorem stored_taxes_are_final_witness:
  "load_taxes (tax_rows (fetch_taxes 100 (\<lambda>_. Inr 5) (\<lambda>_ _ _. Inr ''x'') demo_sweeps {} [1, 2, 3] demo_tax_state)) ''a'' = Some 8000"
proof -
  have "load_taxes (tax_rows demo_tax_state) ''a'' = Some 8000" "distinct (map tx_item_id (tax_rows demo_tax_state))"
    by (simp_all add: demo_tax_state_def load_taxes_def row_lookup_def)
  then show ?thesis
    using stored_taxes_are_final[of demo_tax_state 100 "\<lambda>_. Inr 5" "\<lambda>_ _ _. Inr ''x''" demo_sweeps "{}" "[1, 2, 3]"]
    unfolding map_le_def by (metis domI)
qed

theorem no_item_blocks_the_tax_queue_witness:
  "length (due_items demo_sweeps 0 (fetch_taxes 100 (\<lambda>_. Inr 5) (\<lambda>_ _ _. Inl FNotFound) demo_sweeps {} (replicate 2 0) \<lparr>tax_rows = [], tax_deferred = Map.empty\<rparr>)) = 0"
proof -
  have d: "distinct (map sr_item_id (db_sweep_state demo_sweeps))" "length (db_sweep_state demo_sweeps) = 2"
    by (simp_all add: demo_sweeps_def)
  have n: "\<forall>k. not_blocked ((\<lambda>_ _ _. Inl FNotFound :: fetch_error + string) k)"
    by (simp add: not_blocked_def fetched_body_first)
  have "length (due_items demo_sweeps 0 \<lparr>tax_rows = [], tax_deferred = Map.empty\<rparr>) \<le> 2"
    unfolding due_items_length due_rows_def by (rule order.trans[OF length_filter_le]) (simp add: d(2))
  then show ?thesis
    using no_item_blocks_the_tax_queue[OF d(1) n, of 0 100 "\<lambda>_. Inr 5" "{}" 2 "\<lparr>tax_rows = [], tax_deferred = Map.empty\<rparr>"] by simp
qed

end
