(* ===== verification/Trends.thy ===== *)
theory Trends
  imports Closed_Stats
begin

text \<open>
  Long-term price trends and the cautious hold projection
  (\<open>qf_core/src/collector/trends.rs\<close>): weekly prices out of the closed days, the least-squares line
  through their logarithms, the projection of a line over a horizon, the thresholds, and the list of
  holds with its cache of fits. \<open>f64\<close> is \<open>real\<close>, where every value is finite, so the tests for
  finiteness always pass.
\<close>

section \<open>Weekly prices\<close>

definition trend_window_days :: int where "trend_window_days = 90"
definition last_week :: int where "last_week = (trend_window_days - 1) div 7"
definition min_weeks :: nat where "min_weeks = 11"
definition recent_weeks :: nat where "recent_weeks = 6"
definition min_dw :: real where "min_dw = 1"
definition quote_max_age :: int where "quote_max_age = 24"

record daily_point =
  dp_day :: int
  dp_volume :: int
  dp_median :: real

definition first_day :: "int \<Rightarrow> int" where
  "first_day latest = latest - (trend_window_days - 1)"

definition week_of :: "int \<Rightarrow> int \<Rightarrow> nat" where
  "week_of latest d = nat (last_week - (latest - d) div 7)"

definition week_holds :: "daily_point list \<Rightarrow> int \<Rightarrow> (nat \<times> daily_point) list" where
  "week_holds points latest =
     map (\<lambda>p. (week_of latest (dp_day p), p))
       (filter (\<lambda>p. 0 < dp_median p \<and> first_day latest \<le> dp_day p \<and> dp_day p \<le> latest) points)"

text \<open>The \<open>BTreeMap\<close> visits its weeks in ascending order.\<close>

definition week_medians :: "daily_point list \<Rightarrow> int \<Rightarrow> nat \<Rightarrow> real list" where
  "week_medians points latest w = map (\<lambda>x. dp_median (snd x)) (filter (\<lambda>x. fst x = w) (week_holds points latest))"

definition weekly_prices :: "daily_point list \<Rightarrow> int \<Rightarrow> (nat \<times> real) list" where
  "weekly_prices points latest =
     List.map_filter (\<lambda>w. map_option (Pair w) (median_f64 (week_medians points latest w)))
       (sort (remdups (map fst (week_holds points latest))))"

section \<open>The line\<close>

record ols_fit =
  ol_a :: real
  ol_b :: real
  ol_sse :: real
  ol_sst :: real
  ol_mean_x :: real
  ol_sxx :: real

definition sq_error :: "real \<Rightarrow> real \<Rightarrow> real list \<Rightarrow> real list \<Rightarrow> real" where
  "sq_error a b xs ys = sum_list (map (\<lambda>(x, y). (y - a - b * x)\<^sup>2) (zip xs ys))"

definition ols :: "real list \<Rightarrow> real list \<Rightarrow> ols_fit" where
  "ols xs ys =
     (let n = real (length xs); mean_x = sum_list xs / n; my = sum_list ys / n;
          sxx = sum_list (map (\<lambda>x. (x - mean_x)\<^sup>2) xs);
          sxy = sum_list (map (\<lambda>(x, y). (x - mean_x) * (y - my)) (zip xs ys));
          b = sxy / sxx;
          a = my - b * mean_x
      in \<lparr>ol_a = a, ol_b = b, ol_sse = sq_error a b xs ys, ol_sst = sum_list (map (\<lambda>y. (y - my)\<^sup>2) ys),
          ol_mean_x = mean_x, ol_sxx = sxx\<rparr>)"

record trend_fit =
  ft_a :: real
  ft_b :: real
  ft_r2 :: real
  ft_s :: real
  ft_last_week :: nat
  ft_weeks :: nat
  ft_mean_w :: real
  ft_sxx :: real
  ft_price_now :: real
  ft_volume :: real
  ft_trend_intact :: bool
  ft_dw :: real
  ft_b_recent :: real

text \<open>The last two weeks are judged by the band of the weeks before them.\<close>

definition trend_holds :: "real list \<Rightarrow> real list \<Rightarrow> bool" where
  "trend_holds xs ys =
     (let n = length xs; h = n - 2; hold = ols (take h xs) (take h ys); s_h = sqrt (ol_sse hold / (real h - 2))
      in list_all (\<lambda>i. ol_a hold + ol_b hold * xs ! i - 2 * s_h - 1 / 10 ^ 9 \<le> ys ! i) [h..<n])"

definition durbin_watson :: "real list \<Rightarrow> real list \<Rightarrow> ols_fit \<Rightarrow> real" where
  "durbin_watson xs ys full =
     (if ol_sse full \<le> real (length xs) / 10 ^ 18 then 2
      else (let e = map (\<lambda>(x, y). y - ol_a full - ol_b full * x) (zip xs ys)
            in sum_list (map (\<lambda>(d0, d1). (d1 - d0)\<^sup>2) (zip e (tl e))) / ol_sse full))"

definition fit_weeks :: "(nat \<times> real) list \<Rightarrow> int \<Rightarrow> trend_fit" where
  "fit_weeks weekly trades =
     (let n = length weekly;
          xs = map (\<lambda>(w, _). real w) weekly;
          ys = map (\<lambda>(_, p). ln p) weekly;
          full = ols xs ys
      in \<lparr>ft_a = ol_a full, ft_b = ol_b full,
          ft_r2 = (if ol_sst full = 0 then 0 else 1 - ol_sse full / ol_sst full),
          ft_s = sqrt (ol_sse full / (real n - 2)),
          ft_last_week = fst (weekly ! (n - 1)), ft_weeks = n, ft_mean_w = ol_mean_x full, ft_sxx = ol_sxx full,
          ft_price_now = exp ((ys ! (n - 2) + ys ! (n - 1)) / 2),
          ft_volume = real_of_int trades / real_of_int trend_window_days,
          ft_trend_intact = trend_holds xs ys, ft_dw = durbin_watson xs ys full,
          ft_b_recent = ol_b (ols (drop (n - recent_weeks) xs) (drop (n - recent_weeks) ys))\<rparr>)"

definition fit_trend :: "daily_point list \<Rightarrow> int \<Rightarrow> trend_fit option" where
  "fit_trend points latest =
     (let weekly = weekly_prices points latest
      in if length weekly < min_weeks then None
         else Some (fit_weeks weekly (sum_list (map (\<lambda>x. dp_volume (snd x)) (week_holds points latest)))))"

section \<open>The projection\<close>

definition prediction_factor :: "trend_fit \<Rightarrow> real \<Rightarrow> real" where
  "prediction_factor f t = sqrt (1 + 1 / real (ft_weeks f) + (t - ft_mean_w f)\<^sup>2 / ft_sxx f)"

definition trend_pct_month :: "real \<Rightarrow> real" where
  "trend_pct_month b = (exp (b * 30 / 7) - 1) * 100"

datatype quote_source = SweepQuote | ClosedQuote

record price_quote =
  qu_ask :: real
  qu_bid :: real
  qu_source :: quote_source

definition quote_or_closed :: "(int option \<times> int option) option \<Rightarrow> real \<Rightarrow> price_quote" where
  "quote_or_closed sweep price_now =
     (case sweep of
        Some (Some ask, Some bid) \<Rightarrow> \<lparr>qu_ask = max (real_of_int ask) price_now, qu_bid = real_of_int bid, qu_source = SweepQuote\<rparr>
      | _ \<Rightarrow> \<lparr>qu_ask = price_now, qu_bid = price_now, qu_source = ClosedQuote\<rparr>)"

record hold_projection =
  pj_exit_low :: real
  pj_exit_mid :: real
  pj_profit_low :: real
  pj_profit_low_pct :: real
  pj_profit_mid :: real

definition ln_mid :: "trend_fit \<Rightarrow> int \<Rightarrow> real" where
  "ln_mid f horizon = ft_a f + ft_b f * real (ft_last_week f) + min (ft_b f) (ft_b_recent f) * real_of_int horizon"

definition project_hold :: "trend_fit \<Rightarrow> price_quote \<Rightarrow> int \<Rightarrow> hold_projection" where
  "project_hold f q horizon =
     (let t = real_of_int (int (ft_last_week f) + horizon);
          spread = max (ft_price_now f - qu_bid q) 0;
          exit_mid = exp (ln_mid f horizon) - spread;
          exit_low = exp (ln_mid f horizon - 2 * ft_s f * prediction_factor f t) - spread;
          profit_low = exit_low - qu_ask q
      in \<lparr>pj_exit_low = exit_low, pj_exit_mid = exit_mid, pj_profit_low = profit_low,
          pj_profit_low_pct = (if 0 < qu_ask q then profit_low / qu_ask q * 100 else 0),
          pj_profit_mid = exit_mid - qu_ask q\<rparr>)"

record hold_thresholds =
  th_horizon_weeks :: int
  th_min_volume :: real
  th_min_margin_pct :: real
  th_min_steadiness :: real
  th_min_weeks :: nat

definition hold_qualifies :: "trend_fit \<Rightarrow> price_quote \<Rightarrow> hold_projection \<Rightarrow> hold_thresholds \<Rightarrow> bool" where
  "hold_qualifies f q p t \<longleftrightarrow>
     int (ft_last_week f) = last_week \<and> min_dw \<le> ft_dw f \<and> 1 \<le> qu_ask q \<and> th_min_steadiness t \<le> ft_r2 f
   \<and> th_min_weeks t \<le> ft_weeks f \<and> th_min_volume t \<le> ft_volume f \<and> ft_trend_intact f \<and> qu_source q = SweepQuote
   \<and> th_min_margin_pct t \<le> pj_profit_low_pct p"

definition category_of :: "string list \<Rightarrow> string" where
  "category_of tags =
     (let has = (\<lambda>tag. tag \<in> set tags)
      in if has ''arcane_enhancement'' then ''arcane''
         else if has ''set'' \<and> has ''prime'' then ''prime set''
         else if has ''mod'' then ''mod''
         else if has ''prime'' then ''prime part''
         else if has ''relic'' then ''relic''
         else ''other'')"

section \<open>The tables\<close>

type_synonym trend_key = "string \<times> string"

definition latest_day_rows :: "closed_db \<Rightarrow> (int \<times> nat) option" where
  "latest_day_rows db =
     (if cd_days db = [] then None
      else (let m = Max (cr_day ` set (cd_days db)) in Some (m, length (filter (\<lambda>r. cr_day r = m) (cd_days db)))))"

definition point_rows :: "closed_db \<Rightarrow> int \<Rightarrow> closed_db_row list" where
  "point_rows db latest =
     filter (\<lambda>r. first_day latest \<le> cr_day r \<and> cr_day r \<le> latest \<and> 0 < or_zero (cr_median r)) (cd_days db)"

definition point_of :: "closed_db_row \<Rightarrow> daily_point" where
  "point_of r = \<lparr>dp_day = cr_day r, dp_volume = cr_volume r, dp_median = or_zero (cr_median r)\<rparr>"

definition row_stats_key :: "closed_db_row \<Rightarrow> trend_key" where
  "row_stats_key r = (cr_item_id r, cr_sub_type r)"

definition load_points :: "closed_db \<Rightarrow> int \<Rightarrow> (trend_key \<times> daily_point list) list" where
  "load_points db latest =
     (let rows = point_rows db latest
      in map (\<lambda>k. (k, map point_of (filter (\<lambda>r. row_stats_key r = k) rows))) (remdups (map row_stats_key rows)))"

text \<open>SQLite takes the bare columns from the row of the maximum; of two rows of one second, the first.\<close>

definition load_sweep_quotes :: "collector_db \<Rightarrow> utc \<Rightarrow> trend_key \<Rightarrow> (int option \<times> int option) option" where
  "load_sweep_quotes sweeps now k =
     (let rows = filter (\<lambda>r. ts (now - hours quote_max_age) \<le> sm_swept_at r \<and> (sm_item_id r, ss_sub_type (sm_summary r)) = k)
                   (db_summaries sweeps)
      in map_option (\<lambda>r. (ss_min_sell (sm_summary r), ss_max_buy (sm_summary r)))
           (List.find (\<lambda>r. sm_swept_at r = Max (sm_swept_at ` set rows)) rows))"

section \<open>The holds\<close>

record hold_row =
  hw_item_id :: string
  hw_sub_type :: string
  hw_name :: string
  hw_slug :: string
  hw_category :: string
  hw_ask_now :: real
  hw_bid_now :: real
  hw_quote_source :: quote_source
  hw_exit_low :: real
  hw_exit_mid :: real
  hw_profit_low :: real
  hw_profit_low_pct :: real
  hw_profit_mid :: real
  hw_trend_pct_month :: real
  hw_steadiness :: real
  hw_volume :: real
  hw_weeks :: nat
  hw_trend_intact :: bool
  hw_qualified :: bool

record holds_list =
  hg_latest_day :: "int option"
  hg_scored :: nat
  hg_qualified :: nat
  hg_rows :: "hold_row list"

definition hold_row_of ::
  "trend_key \<Rightarrow> trend_fit \<Rightarrow> price_quote \<Rightarrow> hold_thresholds \<Rightarrow> (string \<times> string \<times> string list) option \<Rightarrow> hold_row option" where
  "hold_row_of k f q t names =
     (case names of
        None \<Rightarrow> None
      | Some (name, slug, tags) \<Rightarrow>
          (let p = project_hold f q (th_horizon_weeks t)
           in Some \<lparr>hw_item_id = fst k, hw_sub_type = snd k, hw_name = name, hw_slug = slug, hw_category = category_of tags,
                    hw_ask_now = qu_ask q, hw_bid_now = qu_bid q, hw_quote_source = qu_source q,
                    hw_exit_low = pj_exit_low p, hw_exit_mid = pj_exit_mid p, hw_profit_low = pj_profit_low p,
                    hw_profit_low_pct = pj_profit_low_pct p, hw_profit_mid = pj_profit_mid p,
                    hw_trend_pct_month = trend_pct_month (ft_b f), hw_steadiness = ft_r2 f, hw_volume = ft_volume f,
                    hw_weeks = ft_weeks f, hw_trend_intact = ft_trend_intact f,
                    hw_qualified = hold_qualifies f q p t\<rparr>))"

definition clamp_thresholds :: "hold_thresholds \<Rightarrow> hold_thresholds" where
  "clamp_thresholds t =
     t\<lparr>th_horizon_weeks := max 1 (min 12 (th_horizon_weeks t)), th_min_margin_pct := max (th_min_margin_pct t) 0,
       th_min_steadiness := min (max (th_min_steadiness t) 0) 1\<rparr>"

text \<open>The order: qualified rows first, then the best cautious margin, then item and sub-type.\<close>

definition hold_order :: "hold_row \<Rightarrow> bool \<times> real \<times> string \<times> string" where
  "hold_order r = (\<not> hw_qualified r, - hw_profit_low_pct r, hw_item_id r, hw_sub_type r)"

type_synonym fit_table = "(trend_key \<times> trend_fit) list"
type_synonym name_cache = "string \<Rightarrow> (string \<times> string \<times> string list) option"

definition load_fits :: "closed_db \<Rightarrow> int \<Rightarrow> fit_table" where
  "load_fits db latest =
     List.map_filter (\<lambda>(k, ps). map_option (Pair k) (fit_trend ps latest)) (load_points db latest)"

definition score_holds :: "fit_table \<Rightarrow> (trend_key \<Rightarrow> (int option \<times> int option) option) \<Rightarrow> hold_thresholds \<Rightarrow> name_cache \<Rightarrow> int \<Rightarrow> holds_list" where
  "score_holds fs quotes t name_of latest =
     (let rows = sort_key hold_order (List.map_filter (\<lambda>(k, f).
            hold_row_of k f (quote_or_closed (quotes k) (ft_price_now f)) t (name_of (fst k))) fs)
      in \<lparr>hg_latest_day = Some latest, hg_scored = length rows, hg_qualified = length (filter hw_qualified rows), hg_rows = rows\<rparr>)"

type_synonym fit_cache = "((int \<times> nat) \<times> fit_table) option"

definition cached_fits :: "closed_db \<Rightarrow> fit_cache \<Rightarrow> int \<times> nat \<Rightarrow> fit_table" where
  "cached_fits db cache k =
     (case cache of
        Some (k1, fs) \<Rightarrow> if k1 = k then fs else load_fits db (fst k)
      | None \<Rightarrow> load_fits db (fst k))"

definition trend_holds_page ::
  "closed_db \<Rightarrow> collector_db \<Rightarrow> utc \<Rightarrow> hold_thresholds \<Rightarrow> name_cache \<Rightarrow> fit_cache \<Rightarrow> holds_list \<times> fit_cache" where
  "trend_holds_page db sweeps now t name_of cache =
     (case latest_day_rows db of
        None \<Rightarrow> (\<lparr>hg_latest_day = None, hg_scored = 0, hg_qualified = 0, hg_rows = []\<rparr>, cache)
      | Some k \<Rightarrow>
          (let fs = cached_fits db cache k
           in (score_holds fs (load_sweep_quotes sweeps now) (clamp_thresholds t) name_of (fst k), Some (k, fs))))"

section \<open>Least squares\<close>

lemma sum_list_sq_pos: "x \<in> set xs \<Longrightarrow> f x \<noteq> (0::real) \<Longrightarrow> 0 < sum_list (map (\<lambda>x. (f x)\<^sup>2) xs)"
proof (induction xs)
  case (Cons y ys)
  have nonneg: "0 \<le> sum_list (map (\<lambda>x. (f x)\<^sup>2) ys)" by (intro sum_list_nonneg) auto
  show ?case
  proof (cases "x = y")
    case True
    then show ?thesis using Cons.prems(2) nonneg by (simp add: add_pos_nonneg)
  next
    case False
    then have "0 < sum_list (map (\<lambda>x. (f x)\<^sup>2) ys)" using Cons by simp
    then show ?thesis by (simp add: add_nonneg_pos)
  qed
qed simp

lemma ols_sxx_pos:
  assumes "x1 \<in> set xs" "x2 \<in> set xs" "x1 \<noteq> x2"
  shows "0 < ol_sxx (ols xs ys)"
proof -
  let ?m = "sum_list xs / real (length xs)"
  have "x1 - ?m \<noteq> 0 \<or> x2 - ?m \<noteq> 0" using assms(3) by auto
  then have "0 < sum_list (map (\<lambda>x. (x - ?m)\<^sup>2) xs)"
    using sum_list_sq_pos[of x1 xs "\<lambda>x. x - ?m"] sum_list_sq_pos[of x2 xs "\<lambda>x. x - ?m"] assms(1,2) by blast
  then show ?thesis by (simp add: ols_def Let_def)
qed

text \<open>
  The error of any line is the error of the fitted one plus two squares: its distance at the mean
  and its difference in slope.
\<close>

lemma sq_error_split:
  assumes "length ys = length xs" "x1 \<in> set xs" "x2 \<in> set xs" "x1 \<noteq> x2"
  shows "sq_error a' b' xs ys = ol_sse (ols xs ys)
     + real (length xs) * (ol_a (ols xs ys) - a' + (ol_b (ols xs ys) - b') * ol_mean_x (ols xs ys))\<^sup>2
     + ol_sxx (ols xs ys) * (ol_b (ols xs ys) - b')\<^sup>2"
proof -
  let ?F = "ols xs ys" and ?ps = "zip xs ys"
  let ?a = "ol_a ?F" and ?b = "ol_b ?F" and ?mx = "ol_mean_x ?F" and ?n = "real (length xs)"
  define my where "my = sum_list ys / ?n"
  define S where "S f = sum_list (map f ?ps)" for f :: "real \<times> real \<Rightarrow> real"
  have lin: "S (\<lambda>p. f p + g p) = S f + S g" "S (\<lambda>p. c * f p) = c * S f" for f g c
    by (simp_all add: S_def sum_list_addf sum_list_const_mult)
  have const: "S (\<lambda>p. c) = ?n * c" for c using assms(1) by (simp add: S_def map_replicate_const sum_list_replicate)
  have npos: "0 < ?n" using assms(2) by (cases xs) auto
  have sums: "S fst = ?n * ?mx" "S snd = ?n * my"
    using assms(1) npos by (simp_all add: S_def ols_def Let_def my_def map_fst_zip map_snd_zip)
  have a: "?a = my - ?b * ?mx" by (simp add: ols_def Let_def my_def)
  have sxx: "ol_sxx ?F = S (\<lambda>p. (fst p - ?mx)\<^sup>2)"
    using assms(1) map_map[of "\<lambda>x. (x - ?mx)\<^sup>2" fst ?ps]
    by (simp add: S_def ols_def Let_def map_fst_zip comp_def)
  have pos: "0 < ol_sxx ?F" using ols_sxx_pos[OF assms(2-4)] .
  define X where "X p = fst p - ?mx" for p :: "real \<times> real"
  define E where "E p = snd p - ?a - ?b * fst p" for p :: "real \<times> real"
  have "S (\<lambda>p. X p * (snd p - my)) = ?b * ol_sxx ?F"
    using pos by (simp add: S_def X_def ols_def Let_def my_def case_prod_unfold)
  moreover have "X p * (snd p - my) = X p * E p + ?b * (X p)\<^sup>2" for p
    unfolding X_def E_def a by (simp add: algebra_simps power2_eq_square)
  ultimately have XE: "S (\<lambda>p. X p * E p) = 0"
    using sxx by (simp add: lin X_def)
  have SX: "S X = 0"
  proof -
    have "X = (\<lambda>p. fst p + (- ?mx))" by (auto simp: X_def)
    then have "S X = S (\<lambda>p. fst p + (- ?mx))" by simp
    then show ?thesis using sums(1) by (simp only: lin const)
  qed
  have SE: "S E = 0"
  proof -
    have "S E = S (\<lambda>p. snd p + (- ?b * fst p + (- ?a)))" unfolding E_def by (intro arg_cong[where f = S]) auto
    then show ?thesis using sums by (simp only: lin const) (simp add: a algebra_simps)
  qed
  define c where "c = ?a - a' + (?b - b') * ?mx"
  define d where "d = ?b - b'"
  have "snd p - a' - b' * fst p = E p + c + d * X p" for p
    unfolding E_def X_def c_def d_def by (simp add: algebra_simps)
  then have "(snd p - a' - b' * fst p)\<^sup>2 = (E p)\<^sup>2 + (c\<^sup>2 + (d\<^sup>2 * (X p)\<^sup>2 + (2 * c * E p + (2 * d * (X p * E p) + 2 * c * d * X p))))" for p
    by (simp add: algebra_simps power2_eq_square)
  then have "sq_error a' b' xs ys
      = S (\<lambda>p. (E p)\<^sup>2 + (c\<^sup>2 + (d\<^sup>2 * (X p)\<^sup>2 + (2 * c * E p + (2 * d * (X p * E p) + 2 * c * d * X p)))))"
    by (simp add: sq_error_def S_def case_prod_unfold)
  also have "\<dots> = S (\<lambda>p. (E p)\<^sup>2) + ?n * c\<^sup>2 + d\<^sup>2 * ol_sxx ?F"
    using XE SX SE sxx by (simp add: lin const X_def[symmetric])
  also have "S (\<lambda>p. (E p)\<^sup>2) = ol_sse ?F"
    by (simp add: S_def E_def ols_def Let_def sq_error_def case_prod_unfold)
  finally show ?thesis by (simp add: c_def d_def mult.commute)
qed

text \<open>
  The trend line is the least-squares line: with at least two different weeks, no other line has
  a smaller squared error, any other line has a strictly larger one, and prices on a line
  give that line back.
\<close>

theorem ols_is_least_squares:
  assumes "length ys = length xs" "x1 \<in> set xs" "x2 \<in> set xs" "x1 \<noteq> x2"
  shows "ol_sse (ols xs ys) \<le> sq_error a b xs ys
     \<and> (sq_error a b xs ys = ol_sse (ols xs ys) \<longleftrightarrow> a = ol_a (ols xs ys) \<and> b = ol_b (ols xs ys))
     \<and> (ys = map (\<lambda>x. a + b * x) xs \<longrightarrow> ol_a (ols xs ys) = a \<and> ol_b (ols xs ys) = b)"
proof -
  let ?F = "ols xs ys" and ?n = "real (length xs)"
  let ?c = "ol_a ?F - a + (ol_b ?F - b) * ol_mean_x ?F" and ?d = "ol_b ?F - b"
  have npos: "0 < ?n" using assms(2) by (cases xs) auto
  have pos: "0 < ol_sxx ?F" by (rule ols_sxx_pos[OF assms(2-4)])
  have eq: "sq_error a b xs ys = ol_sse ?F + ?n * ?c\<^sup>2 + ol_sxx ?F * ?d\<^sup>2" by (rule sq_error_split[OF assms])
  have ge: "0 \<le> ?n * ?c\<^sup>2" "0 \<le> ol_sxx ?F * ?d\<^sup>2" using npos pos by simp_all
  have iff: "sq_error a b xs ys = ol_sse ?F \<longleftrightarrow> a = ol_a ?F \<and> b = ol_b ?F"
  proof
    assume "sq_error a b xs ys = ol_sse ?F"
    then have "?n * ?c\<^sup>2 = 0" "ol_sxx ?F * ?d\<^sup>2 = 0" using eq ge by linarith+
    then have "?c = 0" "?d = 0" using npos pos by simp_all
    then show "a = ol_a ?F \<and> b = ol_b ?F" by simp
  next
    assume "a = ol_a ?F \<and> b = ol_b ?F"
    then show "sq_error a b xs ys = ol_sse ?F" using eq by simp
  qed
  have line: "ol_a ?F = a \<and> ol_b ?F = b" if "ys = map (\<lambda>x. a + b * x) xs"
  proof -
    have "sq_error a b xs ys = 0"
      unfolding that sq_error_def by (simp add: zip_map2 zip_same_conv_map comp_def)
    moreover have "0 \<le> ol_sse ?F" by (auto simp: ols_def Let_def sq_error_def intro!: sum_list_nonneg)
    ultimately have "sq_error a b xs ys = ol_sse ?F" using eq ge by linarith
    then show ?thesis using iff by simp
  qed
  show ?thesis using eq ge iff line by auto
qed

theorem ols_is_least_squares_witness:
  "ol_b (ols [0, 1, 2] [5, 7, 9]) = 2"
  using ols_is_least_squares[of "[5, 7, 9]" "[0, 1, 2]" 0 1 5 2] by simp

section \<open>The shape of the weeks\<close>

lemma week_holds_week:
  "(w, p) \<in> set (week_holds points latest) \<longleftrightarrow>
     p \<in> set points \<and> 0 < dp_median p \<and> 0 \<le> latest - dp_day p \<and> latest - dp_day p < trend_window_days
   \<and> w = week_of latest (dp_day p)"
  by (auto simp: week_holds_def first_day_def)

lemma week_of_iff:
  assumes "0 \<le> latest - d" "latest - d < trend_window_days"
  shows "int (week_of latest d) = last_week - (latest - d) div 7" "week_of latest d \<le> nat last_week"
  using assms by (simp_all add: week_of_def last_week_def trend_window_days_def)

lemma median_f64_pos:
  assumes "values \<noteq> []" "\<And>v. v \<in> set values \<Longrightarrow> 0 < v"
  shows "\<exists>m. median_f64 values = Some m \<and> 0 < m"
proof -
  have half: "length (sort values) div 2 < length (sort values)" using assms(1) by simp
  moreover have "length (sort values) div 2 - 1 < length (sort values)" by (rule le_less_trans[OF diff_le_self half])
  ultimately have "sort values ! (length (sort values) div 2) \<in> set values" "sort values ! (length (sort values) div 2 - 1) \<in> set values"
    using nth_mem[of _ "sort values"] by (simp_all only: set_sort)
  then have "0 < sort values ! (length (sort values) div 2)" "0 < sort values ! (length (sort values) div 2 - 1)"
    using assms(2) by blast+
  then show ?thesis using assms(1) by (simp add: median_f64_def Let_def)
qed

lemma map_filter_all: "(\<And>x. x \<in> set xs \<Longrightarrow> f x = Some (g x)) \<Longrightarrow> List.map_filter f xs = map g xs"
  by (induction xs) (auto simp: List.map_filter_simps)

definition week_median :: "daily_point list \<Rightarrow> int \<Rightarrow> nat \<Rightarrow> real" where
  "week_median points latest w = the (median_f64 (week_medians points latest w))"

lemma week_medians_props:
  assumes "w \<in> set (map fst (week_holds points latest))"
  shows "week_medians points latest w \<noteq> []" "v \<in> set (week_medians points latest w) \<Longrightarrow> 0 < v"
  using assms by (auto simp: week_medians_def week_holds_week filter_empty_conv)

lemma week_median_some:
  assumes "w \<in> set (map fst (week_holds points latest))"
  shows "median_f64 (week_medians points latest w) = Some (week_median points latest w)" "0 < week_median points latest w"
  using median_f64_pos[OF week_medians_props(1)[OF assms]] week_medians_props(2)[OF assms]
  by (auto simp: week_median_def)

lemma weekly_prices_map:
  "weekly_prices points latest =
     map (\<lambda>w. (w, week_median points latest w)) (sort (remdups (map fst (week_holds points latest))))"
  unfolding weekly_prices_def by (rule map_filter_all) (use week_median_some(1) in auto)

lemma weekly_prices_length: "length (weekly_prices points latest) = card (fst ` set (week_holds points latest))"
  by (simp add: weekly_prices_map length_remdups_card_conv)

lemma weekly_prices_mset:
  assumes "mset points = mset points'"
  shows "weekly_prices points latest = weekly_prices points' latest"
proof -
  have m: "mset (week_holds points latest) = mset (week_holds points' latest)"
    unfolding week_holds_def by (simp add: assms mset_filter)
  then have "set (map fst (week_holds points latest)) = set (map fst (week_holds points' latest))"
    by (metis list.set_map mset_eq_setD)
  then have keys: "sort (remdups (map fst (week_holds points latest))) = sort (remdups (map fst (week_holds points' latest)))"
    by (metis sorted_list_of_set_sort_remdups)
  have mm: "mset (week_medians points latest w) = mset (week_medians points' latest w)" for w
    unfolding week_medians_def by (simp add: m mset_filter)
  have "sort (week_medians points latest w) = sort (week_medians points' latest w)" for w
    using mm[of w] by (metis properties_for_sort mset_sort sorted_sort)
  moreover have "week_medians points latest w = [] \<longleftrightarrow> week_medians points' latest w = []" for w
    using mm[of w] by (metis mset_zero_iff)
  ultimately have "median_f64 (week_medians points latest w) = median_f64 (week_medians points' latest w)" for w
    by (simp add: median_f64_def)
  then show ?thesis by (simp add: weekly_prices_map keys week_median_def)
qed


text \<open>
  The weeks of a series: they ascend without repetition within the thirteen weeks of the window, the
  price of a week is positive and is the median of exactly the days with trades that lie in it
  (week 12 is the last seven days), and the order in which the database returns the days does not matter.
\<close>

theorem weekly_prices_shape:
  "sorted_wrt (<) (map fst (weekly_prices points latest))
   \<and> (\<forall>(w, p) \<in> set (weekly_prices points latest). w \<le> 12 \<and> 0 < p \<and>
        median_f64 (map dp_median (filter (\<lambda>d. 0 < dp_median d \<and> 7 * (12 - int w) \<le> latest - dp_day d \<and> latest - dp_day d \<le> 7 * (12 - int w) + 6
                                        \<and> latest - dp_day d < 90) points)) = Some p)
   \<and> (mset points = mset points' \<longrightarrow> weekly_prices points latest = weekly_prices points' latest)"
proof (intro conjI impI)
  have "map fst (weekly_prices points latest) = sort (remdups (map fst (week_holds points latest)))"
    by (simp add: weekly_prices_map comp_def)
  then show "sorted_wrt (<) (map fst (weekly_prices points latest))" by (simp add: strict_sorted_iff)
  show "\<forall>(w, p) \<in> set (weekly_prices points latest). w \<le> 12 \<and> 0 < p \<and>
        median_f64 (map dp_median (filter (\<lambda>d. 0 < dp_median d \<and> 7 * (12 - int w) \<le> latest - dp_day d \<and> latest - dp_day d \<le> 7 * (12 - int w) + 6
                                        \<and> latest - dp_day d < 90) points)) = Some p"
  proof clarify
    fix w p
    assume "(w, p) \<in> set (weekly_prices points latest)"
    then have w: "w \<in> set (map fst (week_holds points latest))" and p: "p = week_median points latest w"
      by (auto simp: weekly_prices_map)
    have "w \<le> 12" using w week_of_iff(2)[of latest] by (auto simp: week_holds_week last_week_def trend_window_days_def)
    moreover have iff: "(0 < dp_median d \<and> first_day latest \<le> dp_day d \<and> dp_day d \<le> latest) \<and> week_of latest (dp_day d) = w \<longleftrightarrow>
        0 < dp_median d \<and> 7 * (12 - int w) \<le> latest - dp_day d \<and> latest - dp_day d \<le> 7 * (12 - int w) + 6 \<and> latest - dp_day d < 90" for d
      using \<open>w \<le> 12\<close> by (auto simp: week_of_def first_day_def last_week_def trend_window_days_def nat_eq_iff)
    have "map dp_median (filter (\<lambda>d. 0 < dp_median d \<and> 7 * (12 - int w) \<le> latest - dp_day d \<and> latest - dp_day d \<le> 7 * (12 - int w) + 6
                                        \<and> latest - dp_day d < 90) points) = week_medians points latest w"
      unfolding week_medians_def week_holds_def filter_map map_map comp_def fst_conv snd_conv filter_filter
      by (intro arg_cong[where f = "map dp_median"] filter_cong refl) (use iff in blast)
    ultimately show "w \<le> 12 \<and> 0 < p \<and>
        median_f64 (map dp_median (filter (\<lambda>d. 0 < dp_median d \<and> 7 * (12 - int w) \<le> latest - dp_day d \<and> latest - dp_day d \<le> 7 * (12 - int w) + 6
                                        \<and> latest - dp_day d < 90) points)) = Some p"
      using week_median_some[OF w] p by simp
  qed
qed (rule weekly_prices_mset)

section \<open>Fits and projections\<close>

lemma weekly_weeks: "distinct (map fst (weekly_prices points latest))"
  by (simp add: weekly_prices_map comp_def)

lemma fit_trend_Some:
  assumes "fit_trend points latest = Some f"
  shows "min_weeks \<le> ft_weeks f" "0 < ft_sxx f" "0 \<le> ft_s f" "0 < ft_price_now f" "0 \<le> ft_r2 f" "ft_r2 f \<le> 1"
proof -
  define weekly where "weekly = weekly_prices points latest"
  define xs where "xs = map (\<lambda>(w, _). real w) weekly"
  define ys where "ys = map (\<lambda>(_, p). ln p) weekly"
  have n: "min_weeks \<le> length weekly"
    and f: "f = fit_weeks weekly (sum_list (map (\<lambda>x. dp_volume (snd x)) (week_holds points latest)))"
    using assms by (auto simp: fit_trend_def weekly_def Let_def split: if_splits)
  have len: "length ys = length xs" by (simp add: xs_def ys_def)
  have dist: "distinct xs"
    using weekly_weeks[of points latest] by (simp add: xs_def weekly_def case_prod_unfold distinct_map inj_on_def comp_def)
  have long: "1 < length xs" using n by (simp add: min_weeks_def xs_def)
  have two: "xs ! 0 \<in> set xs" "xs ! 1 \<in> set xs" "xs ! 0 \<noteq> xs ! 1"
    using long less_trans[OF zero_less_one long] nth_eq_iff_index_eq[OF dist, of 0 1] by simp_all
  have sse: "0 \<le> ol_sse (ols xs ys)" "0 \<le> ol_sst (ols xs ys)"
    by (auto simp: ols_def Let_def sq_error_def intro!: sum_list_nonneg)
  have le: "ol_sse (ols xs ys) \<le> ol_sst (ols xs ys)"
  proof -
    have "ol_sse (ols xs ys) \<le> sq_error (sum_list ys / real (length xs)) 0 xs ys"
      using sq_error_split[OF len two] ols_sxx_pos[OF two, of ys] by simp
    also have "\<dots> = sum_list (map (\<lambda>y. (y - sum_list ys / real (length xs))\<^sup>2) (map snd (zip xs ys)))"
      unfolding sq_error_def map_map by (simp add: comp_def case_prod_unfold)
    finally show ?thesis using len by (simp add: ols_def Let_def map_snd_zip)
  qed
  show "min_weeks \<le> ft_weeks f" using n by (simp add: f fit_weeks_def Let_def)
  show "0 < ft_sxx f" using ols_sxx_pos[OF two, of ys] by (simp add: f fit_weeks_def Let_def xs_def ys_def)
  show "0 \<le> ft_s f" using sse(1) n by (auto simp: f fit_weeks_def Let_def xs_def ys_def min_weeks_def intro!: divide_nonneg_nonneg)
  show "0 < ft_price_now f" by (simp add: f fit_weeks_def Let_def)
  have r2: "ft_r2 f = (if ol_sst (ols xs ys) = 0 then 0 else 1 - ol_sse (ols xs ys) / ol_sst (ols xs ys))"
    by (simp add: f fit_weeks_def Let_def xs_def ys_def)
  show "0 \<le> ft_r2 f" "ft_r2 f \<le> 1" using r2 sse le by (auto simp: divide_le_eq_1)
qed

lemma prediction_factor_ge_1:
  assumes "0 < ft_sxx f"
  shows "1 \<le> prediction_factor f t"
  using assms by (simp add: prediction_factor_def)

text \<open>
  C34. A projection is on the cautious side of its own line: for every fit of a series and every
  quote, the cautious exit is at most the expected one, and the expected one at most the fitted line carried on
  by the full slope, by the recent slope, and, if either slope falls, today's fitted value; the
  price to buy at is at least the recent price, and the steadiness lies between 0 and 1.
\<close>

theorem projection_is_cautious:
  assumes "fit_trend points latest = Some f" "0 \<le> horizon"
    and "q = quote_or_closed sweep (ft_price_now f)" "p = project_hold f q horizon"
  shows "pj_exit_low p \<le> pj_exit_mid p \<and> pj_profit_low p \<le> pj_profit_mid p
     \<and> pj_exit_mid p \<le> exp (ft_a f + ft_b f * (real (ft_last_week f) + real_of_int horizon))
     \<and> pj_exit_mid p \<le> exp (ft_a f + ft_b f * real (ft_last_week f) + ft_b_recent f * real_of_int horizon)
     \<and> (ft_b f \<le> 0 \<or> ft_b_recent f \<le> 0 \<longrightarrow> pj_exit_mid p \<le> exp (ft_a f + ft_b f * real (ft_last_week f)))
     \<and> ft_price_now f \<le> qu_ask q \<and> 0 \<le> ft_r2 f \<and> ft_r2 f \<le> 1"
proof -
  note fit = fit_trend_Some[OF assms(1)]
  let ?H = "real_of_int horizon"
  have H: "0 \<le> ?H" using assms(2) by simp
  have m: "min (ft_b f) (ft_b_recent f) * ?H \<le> ft_b f * ?H" "min (ft_b f) (ft_b_recent f) * ?H \<le> ft_b_recent f * ?H"
    using H by (simp_all add: mult_right_mono)
  have mid: "pj_exit_mid p \<le> exp (ln_mid f horizon)" by (simp add: assms(4) project_hold_def Let_def)
  have l1: "ln_mid f horizon \<le> ft_a f + ft_b f * (real (ft_last_week f) + ?H)"
    using m(1) by (simp add: ln_mid_def algebra_simps)
  have l2: "ln_mid f horizon \<le> ft_a f + ft_b f * real (ft_last_week f) + ft_b_recent f * ?H"
    using m(2) by (simp add: ln_mid_def)
  have l3: "ln_mid f horizon \<le> ft_a f + ft_b f * real (ft_last_week f)" if "ft_b f \<le> 0 \<or> ft_b_recent f \<le> 0"
  proof -
    have "min (ft_b f) (ft_b_recent f) * ?H \<le> 0" using that H by (intro mult_nonpos_nonneg) auto
    then show ?thesis by (simp add: ln_mid_def)
  qed
  have "0 \<le> 2 * ft_s f * prediction_factor f t" for t
    using fit(3) prediction_factor_ge_1[OF fit(2), of t] by simp
  then have low: "pj_exit_low p \<le> pj_exit_mid p" by (simp add: assms(4) project_hold_def Let_def)
  then have "pj_profit_low p \<le> pj_profit_mid p" by (simp add: assms(4) project_hold_def Let_def)
  moreover have "ft_price_now f \<le> qu_ask q" by (simp add: assms(3) quote_or_closed_def split: option.split)
  ultimately show ?thesis
    using low mid l1 l2 l3 fit(5,6) by (meson exp_le_cancel_iff order_trans)
qed


definition demo_points :: "daily_point list" where
  "demo_points = map (\<lambda>i. \<lparr>dp_day = 99 - 7 * i, dp_volume = 1, dp_median = 1\<rparr>) [0, 1, 2, 3, 4, 5, 6, 7, 8, 9, 10]"

lemma demo_weeks: "fst ` set (week_holds demo_points 100) = {2, 3, 4, 5, 6, 7, 8, 9, 10, 11, 12}"
  by (auto simp: week_holds_def demo_points_def week_of_def first_day_def last_week_def trend_window_days_def)

lemma demo_fit: "\<exists>f. fit_trend demo_points 100 = Some f"
  by (simp add: fit_trend_def Let_def weekly_prices_length demo_weeks min_weeks_def)

theorem projection_is_cautious_witness:
  "\<exists>f. fit_trend demo_points 100 = Some f \<and>
     pj_exit_low (project_hold f (quote_or_closed None (ft_price_now f)) 4) \<le> pj_exit_mid (project_hold f (quote_or_closed None (ft_price_now f)) 4)"
proof -
  obtain f where f: "fit_trend demo_points 100 = Some f" using demo_fit by blast
  show ?thesis using projection_is_cautious[OF f, of 4 _ None] f by simp
qed

theorem weekly_prices_shape_witness:
  "map fst (weekly_prices demo_points 100) = [2, 3, 4, 5, 6, 7, 8, 9, 10, 11, 12]"
proof -
  have "sorted_wrt (<) [2, 3, 4, 5, 6, 7, 8, 9, 10, 11, 12 :: nat]" by simp
  moreover have "sorted_wrt (<) (map fst (weekly_prices demo_points 100))"
    using weekly_prices_shape[of demo_points 100 demo_points] by blast
  moreover have "set (map fst (weekly_prices demo_points 100)) = set [2, 3, 4, 5, 6, 7, 8, 9, 10, 11, 12]"
    using demo_weeks by (simp add: weekly_prices_map image_image)
  ultimately show ?thesis by (rule strict_sorted_equal)
qed

section \<open>The list of holds\<close>

definition hold_rows :: "fit_table \<Rightarrow> (trend_key \<Rightarrow> (int option \<times> int option) option) \<Rightarrow> hold_thresholds \<Rightarrow> name_cache \<Rightarrow> hold_row list" where
  "hold_rows fs quotes t name_of = List.map_filter (\<lambda>(k, f).
     hold_row_of k f (quote_or_closed (quotes k) (ft_price_now f)) t (name_of (fst k))) fs"

lemma score_holds_rows: "hg_rows (score_holds fs quotes t name_of latest) = sort_key hold_order (hold_rows fs quotes t name_of)"
  by (simp add: score_holds_def Let_def hold_rows_def)

lemma map_filter_mset: "mset xs = mset ys \<Longrightarrow> mset (List.map_filter f xs) = mset (List.map_filter f ys)"
  by (simp add: List.map_filter_def mset_filter)

lemma hold_row_of_id: "hold_row_of k f q t names = Some r \<Longrightarrow> k = (hw_item_id r, hw_sub_type r) \<and> (\<exists>n. names = Some n)"
  by (auto simp: hold_row_of_def Let_def split: option.splits)

lemma hold_row_key:
  assumes "r \<in> set (hold_rows fs quotes t name_of)"
  shows "\<exists>f names. ((hw_item_id r, hw_sub_type r), f) \<in> set fs
     \<and> name_of (hw_item_id r) = Some names
     \<and> hold_row_of (hw_item_id r, hw_sub_type r) f (quote_or_closed (quotes (hw_item_id r, hw_sub_type r)) (ft_price_now f)) t (Some names) = Some r"
proof -
  obtain k f where kf: "(k, f) \<in> set fs" "hold_row_of k f (quote_or_closed (quotes k) (ft_price_now f)) t (name_of (fst k)) = Some r"
    using assms by (force simp: hold_rows_def List.map_filter_def)
  obtain n where n: "k = (hw_item_id r, hw_sub_type r)" "name_of (fst k) = Some n" using hold_row_of_id[OF kf(2)] by blast
  have "name_of (hw_item_id r) = Some n" using n by simp
  then show ?thesis using kf unfolding n(1) fst_conv by auto
qed

lemma hold_rows_inj:
  assumes "distinct (map fst fs)"
  shows "inj_on hold_order (set (hold_rows fs quotes t name_of))"
proof (rule inj_onI)
  fix r s
  assume r: "r \<in> set (hold_rows fs quotes t name_of)" and s: "s \<in> set (hold_rows fs quotes t name_of)" and eq: "hold_order r = hold_order s"
  have id: "hw_item_id r = hw_item_id s" "hw_sub_type r = hw_sub_type s" using eq by (auto simp: hold_order_def)
  obtain f names where f: "((hw_item_id s, hw_sub_type s), f) \<in> set fs" "name_of (hw_item_id s) = Some names"
      "hold_row_of (hw_item_id s, hw_sub_type s) f (quote_or_closed (quotes (hw_item_id s, hw_sub_type s)) (ft_price_now f)) t (Some names) = Some r"
    using hold_row_key[OF r] unfolding id by blast
  obtain g names' where g: "((hw_item_id s, hw_sub_type s), g) \<in> set fs" "name_of (hw_item_id s) = Some names'"
      "hold_row_of (hw_item_id s, hw_sub_type s) g (quote_or_closed (quotes (hw_item_id s, hw_sub_type s)) (ft_price_now g)) t (Some names') = Some s"
    using hold_row_key[OF s] by blast
  have "f = g" using assms f(1) g(1) by (meson eq_key_imp_eq_value)
  then show "r = s" using f(2,3) g(2,3) by simp
qed

lemma qualified_pays:
  assumes "hold_qualifies f q (project_hold f q h) t" "0 \<le> th_min_margin_pct t"
  shows "1 \<le> qu_ask q \<and> qu_source q = SweepQuote
     \<and> qu_ask q * (1 + th_min_margin_pct t / 100) \<le> pj_exit_low (project_hold f q h)"
proof -
  have ask: "1 \<le> qu_ask q" using assms(1) by (simp add: hold_qualifies_def)
  have "pj_profit_low_pct (project_hold f q h) = (pj_exit_low (project_hold f q h) - qu_ask q) / qu_ask q * 100"
    using ask by (simp add: project_hold_def Let_def)
  then have "th_min_margin_pct t \<le> (pj_exit_low (project_hold f q h) - qu_ask q) / qu_ask q * 100"
    using assms(1) by (simp only: hold_qualifies_def)
  then have "th_min_margin_pct t / 100 * qu_ask q \<le> (pj_exit_low (project_hold f q h) - qu_ask q) / qu_ask q * qu_ask q"
    using ask by (intro mult_right_mono) auto
  then have "th_min_margin_pct t / 100 * qu_ask q \<le> pj_exit_low (project_hold f q h) - qu_ask q" using ask by simp
  then show ?thesis using ask assms(1) by (simp add: hold_qualifies_def algebra_simps)
qed

lemma hold_row_of_fields:
  "hold_row_of k f q t names = Some r \<Longrightarrow>
     hw_quote_source r = qu_source q \<and> hw_ask_now r = qu_ask q \<and> hw_exit_low r = pj_exit_low (project_hold f q (th_horizon_weeks t))
   \<and> hw_qualified r = hold_qualifies f q (project_hold f q (th_horizon_weeks t)) t"
  by (auto simp: hold_row_of_def Let_def split: option.splits)

lemma hold_order_qualified: "hold_order r \<le> hold_order s \<Longrightarrow> hw_qualified s \<Longrightarrow> hw_qualified r"
  by (auto simp: hold_order_def less_eq_prod_def)

lemma qualified_rows_first:
  assumes "sorted (map hold_order rs)"
  shows "(\<forall>r\<in>set (take (length (filter hw_qualified rs)) rs). hw_qualified r) \<and> (\<forall>r\<in>set (drop (length (filter hw_qualified rs)) rs). \<not> hw_qualified r)"
  using assms
proof (induction rs)
  case (Cons r rs)
  show ?case
  proof (cases "hw_qualified r")
    case True
    have "sorted (map hold_order rs)" using Cons.prems unfolding list.map sorted_simps by blast
    note IH = Cons.IH[OF this]
    have len: "length (filter hw_qualified (r # rs)) = Suc (length (filter hw_qualified rs))" using True by simp
    show ?thesis unfolding len take_Suc_Cons drop_Suc_Cons list.set using IH True by blast
  next
    case False
    have "\<forall>x\<in>set (map hold_order rs). hold_order r \<le> x" using Cons.prems unfolding list.map sorted_simps by blast
    then have "\<forall>s\<in>set rs. hold_order r \<le> hold_order s" unfolding set_map by blast
    then have "\<forall>s\<in>set rs. \<not> hw_qualified s" using hold_order_qualified False by blast
    then show ?thesis using False by (simp add: filter_False)
  qed
qed simp

lemma qualified_row_pays:
  assumes "r \<in> set (hold_rows fs quotes t name_of)" "hw_qualified r" "0 \<le> th_min_margin_pct t"
  shows "hw_quote_source r = SweepQuote \<and> 1 \<le> hw_ask_now r
     \<and> hw_ask_now r * (1 + th_min_margin_pct t / 100) \<le> hw_exit_low r \<and> hw_ask_now r \<le> hw_exit_low r"
proof -
  obtain f names where f: "hold_row_of (hw_item_id r, hw_sub_type r) f
      (quote_or_closed (quotes (hw_item_id r, hw_sub_type r)) (ft_price_now f)) t (Some names) = Some r"
    using hold_row_key[OF assms(1)] by blast
  define q where "q = quote_or_closed (quotes (hw_item_id r, hw_sub_type r)) (ft_price_now f)"
  note fields = hold_row_of_fields[OF f, folded q_def]
  have pays: "1 \<le> hw_ask_now r" "hw_quote_source r = SweepQuote" "hw_ask_now r * (1 + th_min_margin_pct t / 100) \<le> hw_exit_low r"
    using qualified_pays[of f q "th_horizon_weeks t" t] assms(2,3) fields by simp_all
  then have "0 \<le> hw_ask_now r * (th_min_margin_pct t / 100)" using assms(3) by (intro mult_nonneg_nonneg) auto
  then show ?thesis using pays by (simp add: distrib_left)
qed

text \<open>
  The list of holds is determined by the fits, not by the order a hash map yields them in; it
  lists qualified rows first and each group by falling cautious margin; and a qualified row was
  quoted by a sweep, costs at least 1 and at least the recent price, and even its cautious exit pays the
  price back with the demanded margin.
\<close>

theorem holds_are_ordered_and_pay:
  assumes "distinct (map fst fs)" "mset fs = mset fs'" "t' = clamp_thresholds t" "h = score_holds fs quotes t' name_of latest"
  shows "h = score_holds fs' quotes t' name_of latest
     \<and> sorted (map hold_order (hg_rows h)) \<and> hg_qualified h \<le> hg_scored h
     \<and> (\<forall>r\<in>set (take (hg_qualified h) (hg_rows h)). hw_qualified r) \<and> (\<forall>r\<in>set (drop (hg_qualified h) (hg_rows h)). \<not> hw_qualified r)
     \<and> (\<forall>r\<in>set (hg_rows h). hw_qualified r \<longrightarrow> hw_quote_source r = SweepQuote \<and> 1 \<le> hw_ask_now r
          \<and> hw_ask_now r * (1 + th_min_margin_pct t' / 100) \<le> hw_exit_low r \<and> hw_ask_now r \<le> hw_exit_low r)"
proof -
  let ?rows = "hold_rows fs quotes t' name_of"
  have h: "hg_rows h = sort_key hold_order ?rows" "hg_scored h = length (hg_rows h)" "hg_qualified h = length (filter hw_qualified (hg_rows h))"
    by (simp_all add: assms(4) score_holds_def Let_def hold_rows_def)
  have "mset ?rows = mset (hold_rows fs' quotes t' name_of)"
    unfolding hold_rows_def using assms(2) by (rule map_filter_mset)
  then have "sort_key hold_order ?rows = sort_key hold_order (hold_rows fs' quotes t' name_of)"
    using hold_rows_inj[OF assms(1), of quotes t' name_of] by (intro sort_key_inj_key_eq) auto
  then have same: "h = score_holds fs' quotes t' name_of latest" by (simp add: assms(4) score_holds_def Let_def hold_rows_def)
  have sorted: "sorted (map hold_order (hg_rows h))" by (simp add: h(1))
  have m: "0 \<le> th_min_margin_pct t'" by (simp add: assms(3) clamp_thresholds_def)
  have rows: "set (hg_rows h) = set ?rows" by (simp add: h(1))
  have "hg_qualified h \<le> hg_scored h" by (simp add: h(2,3))
  moreover have "\<forall>r\<in>set (hg_rows h). hw_qualified r \<longrightarrow> hw_quote_source r = SweepQuote \<and> 1 \<le> hw_ask_now r
      \<and> hw_ask_now r * (1 + th_min_margin_pct t' / 100) \<le> hw_exit_low r \<and> hw_ask_now r \<le> hw_exit_low r"
    unfolding rows using qualified_row_pays[OF _ _ m] by blast
  ultimately show ?thesis using same sorted qualified_rows_first[OF sorted, folded h(3)] by simp
qed


section \<open>The cache of fits\<close>

text \<open>The cache belongs to the table: its key, if it is the current one, was taken with these points.\<close>

definition cache_current :: "closed_db \<Rightarrow> fit_cache \<Rightarrow> bool" where
  "cache_current db cache \<longleftrightarrow>
     (\<forall>k fs. cache = Some (k, fs) \<longrightarrow> latest_day_rows db = Some k \<longrightarrow> fs = load_fits db (fst k))"

lemma page_with_current_cache:
  assumes "cache_current db cache"
  shows "fst (trend_holds_page db sweeps now t name_of cache) = fst (trend_holds_page db sweeps now t name_of None)
     \<and> cache_current db (snd (trend_holds_page db sweeps now t name_of cache))"
  using assms
  by (auto simp: trend_holds_page_def cached_fits_def cache_current_def Let_def split: option.splits)

definition demo_close :: "string \<Rightarrow> int \<Rightarrow> closed_db_row" where
  "demo_close item d = \<lparr>cr_item_id = item, cr_sub_type = [], cr_day = d, cr_volume = 1, cr_median = Some 1, cr_min_price = None,
     cr_max_price = None, cr_wa_price = None, cr_avg_price = None\<rparr>"

definition demo_older :: "closed_db_row list" where
  "demo_older = map (\<lambda>i. demo_close ''b'' (99 - 7 * i)) [0, 1, 2, 3, 4, 5, 6, 7, 8, 9, 10]"

definition demo_before :: closed_db where
  "demo_before = \<lparr>cd_days = [demo_close ''a'' 100], cd_fetch = []\<rparr>"

definition demo_after :: closed_db where
  "demo_after = \<lparr>cd_days = demo_close ''a'' 100 # demo_older, cd_fetch = []\<rparr>"

lemma demo_after_upsert:
  "demo_after = snd (upsert_days demo_before ''b'' demo_older)"
  by (simp add: demo_after_def demo_before_def upsert_days_def demo_older_def upsert_row_def row_lookup_def day_key_def demo_close_def)

lemma demo_points_before: "load_points demo_before 100 = [((''a'', []), [\<lparr>dp_day = 100, dp_volume = 1, dp_median = 1\<rparr>])]"
  by (simp add: load_points_def point_rows_def demo_before_def demo_close_def first_day_def trend_window_days_def Let_def
      row_stats_key_def point_of_def or_zero_def)

lemma demo_points_after:
  "load_points demo_after 100 = [((''a'', []), [\<lparr>dp_day = 100, dp_volume = 1, dp_median = 1\<rparr>]), ((''b'', []), demo_points)]"
  by (simp add: load_points_def point_rows_def demo_after_def demo_older_def demo_close_def first_day_def trend_window_days_def Let_def
      row_stats_key_def point_of_def or_zero_def demo_points_def)

lemma demo_one_week: "fit_trend [\<lparr>dp_day = 100, dp_volume = 1, dp_median = 1\<rparr>] 100 = None"
  by (simp add: fit_trend_def Let_def weekly_prices_length week_holds_def first_day_def trend_window_days_def min_weeks_def)

lemma demo_latest: "latest_day_rows demo_before = Some (100, 1)" "latest_day_rows demo_after = Some (100, 1)"
  by (simp_all add: latest_day_rows_def demo_before_def demo_after_def demo_older_def demo_close_def Let_def)

text \<open>
  The fits are not always those of the stored days: the cache is keyed by the latest day and
  its number of rows, and the series of an item without a trade on that day lands without changing either.
  Here the same page, after an item's eleven weeks of closed days have been upserted, still lists
  nothing, while a page without the cached fits lists the item.
\<close>

theorem stale_fits_are_served:
  "\<exists>f. load_fits (snd (upsert_days demo_before ''b'' demo_older)) 100 = [((''b'', []), f)]
     \<and> hg_scored (fst (trend_holds_page demo_after sweeps now t (\<lambda>_. Some ([], [], [])) None)) = 1
     \<and> hg_scored (fst (trend_holds_page demo_after sweeps now t (\<lambda>_. Some ([], [], []))
          (snd (trend_holds_page demo_before sweeps now t (\<lambda>_. Some ([], [], [])) None)))) = 0"
proof -
  obtain f where f: "fit_trend demo_points 100 = Some f" using demo_fit by blast
  have after: "load_fits demo_after 100 = [((''b'', []), f)]"
    by (simp add: load_fits_def demo_points_after demo_one_week f List.map_filter_simps)
  have before: "load_fits demo_before 100 = []"
    by (simp add: load_fits_def demo_points_before demo_one_week List.map_filter_simps)
  show ?thesis
    using after before
    by (simp add: demo_after_upsert[symmetric] trend_holds_page_def demo_latest cached_fits_def score_holds_def Let_def
        List.map_filter_simps hold_row_of_def)
qed

definition demo_thresholds :: hold_thresholds where
  "demo_thresholds = \<lparr>th_horizon_weeks = 4, th_min_volume = 0, th_min_margin_pct = 5, th_min_steadiness = 0, th_min_weeks = 11\<rparr>"

theorem holds_are_ordered_and_pay_witness:
  "\<exists>f. fit_trend demo_points 100 = Some f \<and>
     score_holds [((''b'', []), f), ((''c'', []), f)] (\<lambda>_. Some (Some 1, Some 1)) (clamp_thresholds demo_thresholds) (\<lambda>_. Some ([], [], [])) 100
   = score_holds [((''c'', []), f), ((''b'', []), f)] (\<lambda>_. Some (Some 1, Some 1)) (clamp_thresholds demo_thresholds) (\<lambda>_. Some ([], [], [])) 100"
proof -
  obtain f where f: "fit_trend demo_points 100 = Some f" using demo_fit by blast
  show ?thesis
    using holds_are_ordered_and_pay[of "[((''b'', []), f), ((''c'', []), f)]" "[((''c'', []), f), ((''b'', []), f)]"
        "clamp_thresholds demo_thresholds" demo_thresholds _ "\<lambda>_. Some (Some 1, Some 1)" "\<lambda>_. Some ([], [], [])" 100] f
    by simp
qed

end
