(* ===== verification/Json_Tools.thy ===== *)
theory Json_Tools
  imports Wfm_Orders "HOL-Library.Sublist"
begin

text \<open>
  The JSON tools of \<open>utils/src/helper.rs\<close> and the start of loading the settings file
  (\<open>qf_core/src/app/types/settings/settings.rs\<close>): masking of sensitive fields, reading and writing at
  a dotted path, the migration of old settings to their new paths, and the completion of a file
  with the default settings. A \<open>serde_json::Map\<close> is an association list; the functions that panic
  return \<open>None\<close>.
\<close>

section \<open>Masking\<close>

definition mask_text :: string where "mask_text = ''*********''"

fun mask_fields :: "string list \<Rightarrow> (string \<times> json) list \<Rightarrow> (string \<times> json) list" where
  "mask_fields ps [] = []"
| "mask_fields ps ((k, JObj m) # fs) = (k, JObj (mask_fields ps m)) # mask_fields ps fs"
| "mask_fields ps ((k, v) # fs) = (k, if k \<in> set ps then JStr mask_text else v) # mask_fields ps fs"

definition prop_mask :: "string list \<Rightarrow> properties \<Rightarrow> properties" where
  "prop_mask ps p = (case p of Some (JObj m) \<Rightarrow> Some (JObj (mask_fields ps m)) | _ \<Rightarrow> p)"

definition sensitive_fields :: "string list" where
  "sensitive_fields = [''email'', ''password'', ''authorization'', ''wfm_token'', ''webhook'', ''slug'', ''device_key'', ''token_ciphertext'']"

section \<open>Paths\<close>

fun get_path :: "json \<Rightarrow> string list \<Rightarrow> json option" where
  "get_path j [] = Some j"
| "get_path j (s # ss) =
     (case j of JObj m \<Rightarrow> (case map_of m s of Some x \<Rightarrow> get_path x ss | None \<Rightarrow> None) | _ \<Rightarrow> None)"

definition dot_path :: "string \<Rightarrow> string list" where
  "dot_path p = str_split CHR ''.'' p"

definition get_json_value :: "json \<Rightarrow> string \<Rightarrow> json option" where
  "get_json_value j p = get_path j (dot_path p)"

text \<open>A segment before the last one that is not an object panics; a last container that is none is left alone.\<close>

fun set_path :: "json \<Rightarrow> string list \<Rightarrow> json \<Rightarrow> json option" where
  "set_path j [] v = Some j"
| "set_path j [s] v = (case j of JObj m \<Rightarrow> Some (JObj (json_insert s v m)) | _ \<Rightarrow> Some j)"
| "set_path j (s # t # ss) v =
     (case j of
        JObj m \<Rightarrow>
          (case set_path (case map_of m s of Some x \<Rightarrow> x | None \<Rightarrow> JObj []) (t # ss) v of
             Some c \<Rightarrow> Some (JObj (json_insert s c m)) | None \<Rightarrow> None)
      | _ \<Rightarrow> None)"

definition set_json_value :: "json \<Rightarrow> string \<Rightarrow> json \<Rightarrow> json option" where
  "set_json_value j p v = set_path j (dot_path p) v"

text \<open>The mapping is visited in the order of a hash map: any list of its pairs.\<close>

fun extract_from :: "json \<Rightarrow> (string \<times> string) list \<Rightarrow> json \<Rightarrow> json option" where
  "extract_from j [] r = Some r"
| "extract_from j ((src, dst) # mp) r =
     (case get_json_value j src of
        None \<Rightarrow> extract_from j mp r
      | Some v \<Rightarrow> (case set_json_value r dst v of Some r1 \<Rightarrow> extract_from j mp r1 | None \<Rightarrow> None))"

definition extract_json_values :: "json \<Rightarrow> (string \<times> string) list \<Rightarrow> json option" where
  "extract_json_values j mp = extract_from j mp (JObj [])"

definition merge_json :: "json \<Rightarrow> json \<Rightarrow> json" where
  "merge_json target source =
     (case (target, source) of
        (JObj t, JObj s) \<Rightarrow> JObj (foldl (\<lambda>m (k, v). json_insert k v m) t s)
      | _ \<Rightarrow> source)"

section \<open>Completing with defaults\<close>

definition obj_fields :: "json \<Rightarrow> (string \<times> json) list" where
  "obj_fields j = (case j of JObj m \<Rightarrow> m | _ \<Rightarrow> [])"

definition full_path :: "string \<Rightarrow> string \<Rightarrow> string" where
  "full_path path key = (if path = [] then key else path @ ''.'' @ key)"

text \<open>
  The source's last arm, for an object required where there is none, is never reached: the arm
  before it takes every required object.
\<close>

fun validate_fields :: "(string \<times> json) list \<Rightarrow> (string \<times> json) list \<Rightarrow> string \<Rightarrow> (string \<times> json) list \<times> string list" where
  "validate_fields m [] path = (m, [])"
| "validate_fields m ((k, JObj fs) # req) path =
     (let (m1, miss1) =
          (case map_of m k of
             None \<Rightarrow> (json_insert k (JObj fs) m, [full_path path k])
           | Some x \<Rightarrow>
               (let (sub, miss) = validate_fields (obj_fields x) fs (full_path path k)
                in (if miss \<noteq> [] then json_insert k (JObj sub) m else m, miss)));
          (m2, miss2) = validate_fields m1 req path
      in (m2, miss1 @ miss2))"
| "validate_fields m ((k, v) # req) path =
     (let (m1, miss1) =
          (case map_of m k of
             None \<Rightarrow> (json_insert k v m, [full_path path k])
           | Some x \<Rightarrow> (m, []));
          (m2, miss2) = validate_fields m1 req path
      in (m2, miss1 @ miss2))"

definition validate_json :: "json \<Rightarrow> json \<Rightarrow> string \<Rightarrow> json \<times> string list" where
  "validate_json j required path =
     (case required of
        JObj req \<Rightarrow> (let (m, miss) = validate_fields (obj_fields j) req path in (JObj m, miss))
      | _ \<Rightarrow> (j, []))"

section \<open>Loading the settings\<close>

definition settings_mapping :: "(string \<times> string) list" where
  "settings_mapping =
    [(''live_scraper.report_to_wfm'', ''live_scraper.general.report_to_wfm''),
     (''live_scraper.auto_delete'', ''live_scraper.general.auto_delete''),
     (''live_scraper.auto_trade'', ''live_scraper.general.auto_trade''),
     (''live_scraper.stock_mode'', ''live_scraper.general.stock_mode''),
     (''live_scraper.trade_modes'', ''live_scraper.general.trade_modes''),
     (''live_scraper.should_delete_other_types'', ''live_scraper.general.delete_conflicting_orders''),
     (''live_scraper.stock_item.blacklist'', ''live_scraper.items.general.blacklist''),
     (''live_scraper.stock_item.buy_list'', ''live_scraper.items.general.buy_list''),
     (''live_scraper.stock_item.volume_threshold'', ''live_scraper.items.wtb.volume_threshold''),
     (''live_scraper.stock_item.profit_threshold'', ''live_scraper.items.wtb.profit_threshold''),
     (''live_scraper.stock_item.avg_price_cap'', ''live_scraper.items.wtb.avg_price_cap''),
     (''live_scraper.stock_item.trading_tax_cap'', ''live_scraper.items.wtb.trading_tax_cap''),
     (''live_scraper.stock_item.max_total_price_cap'', ''live_scraper.items.wtb.max_total_price_cap''),
     (''live_scraper.stock_item.price_shift_threshold'', ''live_scraper.items.wtb.price_shift_threshold''),
     (''live_scraper.stock_item.buy_quantity'', ''live_scraper.items.wtb.buy_quantity''),
     (''live_scraper.stock_item.min_wtb_profit_margin'', ''live_scraper.items.wtb.min_wtb_profit_margin''),
     (''live_scraper.stock_item.quantity_per_trade'', ''live_scraper.items.wtb.quantity_per_trade''),
     (''live_scraper.stock_item.max_stock_quantity'', ''live_scraper.items.wtb.max_stock_quantity''),
     (''live_scraper.stock_item.min_sma'', ''live_scraper.items.wts.min_sma''),
     (''live_scraper.stock_item.min_profit'', ''live_scraper.items.wts.min_profit'')]"

text \<open>\<open>None\<close> would be the panic of the extraction; the missing paths decide whether the file is saved again.\<close>

definition upgraded_settings :: "(string \<times> string) list \<Rightarrow> json \<Rightarrow> json \<Rightarrow> (json \<times> string list) option" where
  "upgraded_settings mapping defaults stored =
     (case extract_json_values stored mapping of
        None \<Rightarrow> None
      | Some r \<Rightarrow> Some (validate_json (merge_json stored r) defaults []))"

section \<open>What masking leaves\<close>

fun mask_value :: "string list \<Rightarrow> string \<Rightarrow> json \<Rightarrow> json" where
  "mask_value ps k (JObj m) = JObj (mask_fields ps m)"
| "mask_value ps k v = (if k \<in> set ps then JStr mask_text else v)"

lemma mask_fields_Cons: "mask_fields ps ((k, v) # fs) = (k, mask_value ps k v) # mask_fields ps fs"
  by (cases v) auto

lemma mask_fields_map: "mask_fields ps fs = map (\<lambda>(k, v). (k, mask_value ps k v)) fs"
  by (induction fs) (auto simp: mask_fields_Cons)

declare mask_fields.simps(2,3) [simp del]

lemma map_of_mask: "map_of (mask_fields ps fs) k = map_option (mask_value ps k) (map_of fs k)"
  by (induction fs) (auto simp: mask_fields_Cons)

lemma mask_value_idem: "mask_value ps k (mask_value ps k v) = mask_value ps k v"
  and mask_fields_idem: "mask_fields ps (mask_fields ps fs) = mask_fields ps fs"
proof -
  have "(\<forall>k. mask_value ps k (mask_value ps k v) = mask_value ps k v)" for v
  proof (induction v)
    case (JObj m)
    have "(case (case x of (k, v) \<Rightarrow> (k, mask_value ps k v)) of (k, v) \<Rightarrow> (k, mask_value ps k v)) = (case x of (k, v) \<Rightarrow> (k, mask_value ps k v))"
      if "x \<in> set m" for x
      using JObj[OF that] by (cases x) (auto simp: snds.simps)
    then show ?case by (auto simp: mask_fields_map)
  qed auto
  then show "mask_value ps k (mask_value ps k v) = mask_value ps k v" by blast
  then show "mask_fields ps (mask_fields ps fs) = mask_fields ps fs" 
    using \<open>\<And>v. \<forall>k. mask_value ps k (mask_value ps k v) = mask_value ps k v\<close> by (auto simp: mask_fields_map)
qed

lemma get_path_masked:
  "get_path (JObj (mask_fields ps m)) (p @ [k]) =
     (case get_path (JObj m) (p @ [k]) of Some v \<Rightarrow> Some (mask_value ps k v) | None \<Rightarrow> None)"
proof (induction p arbitrary: m)
  case Nil
  then show ?case by (auto simp: map_of_mask split: option.splits)
next
  case (Cons s p)
  show ?case
  proof (cases "map_of m s")
    case None
    then show ?thesis by (simp add: map_of_mask)
  next
    case (Some v)
    show ?thesis
    proof (cases "\<exists>m'. v = JObj m'")
      case True
      then show ?thesis using Some Cons.IH by (auto simp: map_of_mask)
    next
      case False
      then have "get_path (mask_value ps s v) (p @ [k]) = None" "get_path v (p @ [k]) = None"
        by (cases v; cases p; auto)+
      then show ?thesis using Some by (simp add: map_of_mask)
    qed
  qed
qed

text \<open>
  Masking hides every sensitive value that objects lead to and nothing else: at any path through objects
  the masked context has the mask if the last name is sensitive and the value is no object, and the
  unchanged value if the name is not sensitive; masking twice changes nothing more.
\<close>

theorem masking_hides_exactly:
  assumes "get_path (JObj m) (p @ [k]) = Some v" "\<forall>m'. v \<noteq> JObj m'"
  shows "get_path (JObj (mask_fields ps m)) (p @ [k]) = Some (if k \<in> set ps then JStr mask_text else v)
     \<and> prop_mask ps (prop_mask ps (Some (JObj m))) = prop_mask ps (Some (JObj m))"
  using assms by (cases v) (auto simp: get_path_masked prop_mask_def mask_fields_idem)

theorem masking_hides_exactly_witness:
  "get_path (JObj (mask_fields sensitive_fields [(''user'', JObj [(''email'', JStr ''a@b'')])])) [''user'', ''email''] = Some (JStr mask_text)"
  using masking_hides_exactly[of "[(''user'', JObj [(''email'', JStr ''a@b'')])]" "[''user'']" "''email''" "JStr ''a@b''" sensitive_fields]
  by (simp add: sensitive_fields_def)

text \<open>An array is left as it is, whatever its objects hold.\<close>

lemma arrays_are_not_masked:
  "mask_fields sensitive_fields [(''users'', JArr [JObj [(''password'', JStr x)]])] = [(''users'', JArr [JObj [(''password'', JStr x)]])]"
  by (simp add: mask_fields_map sensitive_fields_def)

section \<open>Writing at a path\<close>

lemma json_insert_same: "map_of m k = Some v \<Longrightarrow> json_insert k v m = m"
  by (induction k v m rule: json_insert.induct) (auto split: if_splits)

lemma set_path_get:
  "set_path j p v = Some r \<Longrightarrow> p \<noteq> [] \<Longrightarrow> get_path r p = Some v \<or> r = j \<and> get_path j p = None"
proof (induction j p v arbitrary: r rule: set_path.induct)
  case (2 j s v)
  then show ?case by (cases j) (auto simp: map_of_json_insert)
next
  case (3 j s t ss v)
  then obtain m c where m: "j = JObj m" "set_path (case map_of m s of Some x \<Rightarrow> x | None \<Rightarrow> JObj []) (t # ss) v = Some c" "r = JObj (json_insert s c m)"
    by (auto split: json.splits option.splits)
  have IH: "get_path c (t # ss) = Some v \<or> c = (case map_of m s of Some x \<Rightarrow> x | None \<Rightarrow> JObj []) \<and> get_path (case map_of m s of Some x \<Rightarrow> x | None \<Rightarrow> JObj []) (t # ss) = None"
    using "3.IH"[OF m(1,2)] by blast
  show ?case
  proof (cases "get_path c (t # ss) = Some v")
    case True
    then show ?thesis using m by (simp add: map_of_json_insert)
  next
    case False
    then have c: "c = (case map_of m s of Some x \<Rightarrow> x | None \<Rightarrow> JObj [])" "get_path c (t # ss) = None" using IH by auto
    show ?thesis
    proof (cases "map_of m s")
      case (Some x)
      then show ?thesis using c m by (simp add: json_insert_same del: get_path.simps(2)) (simp)
    next
      case None
      then have "set_path (JObj []) (t # ss) v = Some (JObj [])" using m(2) c(1) by simp
      then show ?thesis by (cases ss) (auto split: option.splits)
    qed
  qed
qed simp

lemma set_path_frame:
  "set_path j p v = Some r \<Longrightarrow> \<not> prefix p q \<Longrightarrow> \<not> prefix q p \<Longrightarrow> get_path r q = get_path j q"
proof (induction j p v arbitrary: r q rule: set_path.induct)
  case (2 j s v)
  then show ?case by (cases j; cases q) (auto simp: map_of_json_insert)
next
  case (3 j s t ss v)
  obtain m c where m: "j = JObj m" "set_path (case map_of m s of Some x \<Rightarrow> x | None \<Rightarrow> JObj []) (t # ss) v = Some c" "r = JObj (json_insert s c m)"
    using "3.prems"(1) by (auto split: json.splits option.splits)
  obtain u qs where q: "q = u # qs" using "3.prems"(3) by (cases q) auto
  show ?case
  proof (cases "u = s")
    case False
    then show ?thesis by (simp add: q m map_of_json_insert)
  next
    case True
    then have "\<not> prefix (t # ss) qs" "\<not> prefix qs (t # ss)" using "3.prems"(2,3) q by auto
    then have "get_path c qs = get_path (case map_of m s of Some x \<Rightarrow> x | None \<Rightarrow> JObj []) qs" using "3.IH"[OF m(1,2)] by blast
    moreover have "get_path (JObj []) qs = None" using \<open>\<not> prefix qs (t # ss)\<close> by (cases qs) auto
    ultimately show ?thesis using True by (auto simp: q m map_of_json_insert split: option.splits)
  qed
qed simp

text \<open>If only objects lie on the way, the write goes through and only objects lie on the way afterwards.\<close>

definition objects_on_way :: "json \<Rightarrow> string list \<Rightarrow> bool" where
  "objects_on_way j p \<longleftrightarrow> (\<forall>q x. strict_prefix q p \<longrightarrow> get_path j q = Some x \<longrightarrow> (\<exists>m. x = JObj m))"

lemma objects_on_way_Cons:
  "objects_on_way j (s # p) \<longleftrightarrow> (\<exists>m. j = JObj m \<and> (\<forall>x. map_of m s = Some x \<longrightarrow> objects_on_way x p))"
proof
  assume o: "objects_on_way j (s # p)"
  have "strict_prefix [] (s # p)" "get_path j [] = Some j" by simp_all
  then obtain m where m: "j = JObj m" using o unfolding objects_on_way_def by blast
  have "objects_on_way x p" if x: "map_of m s = Some x" for x
    unfolding objects_on_way_def
  proof (intro allI impI)
    fix q y
    assume "strict_prefix q p" "get_path x q = Some y"
    then have "strict_prefix (s # q) (s # p)" "get_path j (s # q) = Some y" using m x by simp_all
    then show "\<exists>m. y = JObj m" using o unfolding objects_on_way_def by blast
  qed
  then show "\<exists>m. j = JObj m \<and> (\<forall>x. map_of m s = Some x \<longrightarrow> objects_on_way x p)" using m by blast
next
  assume "\<exists>m. j = JObj m \<and> (\<forall>x. map_of m s = Some x \<longrightarrow> objects_on_way x p)"
  then obtain m where m: "j = JObj m" "\<And>x. map_of m s = Some x \<Longrightarrow> objects_on_way x p" by blast
  show "objects_on_way j (s # p)"
    unfolding objects_on_way_def
  proof (intro allI impI)
    fix q x
    assume q: "strict_prefix q (s # p)" and x: "get_path j q = Some x"
    show "\<exists>m. x = JObj m"
    proof (cases q)
      case Nil
      then show ?thesis using x m(1) by auto
    next
      case (Cons u qs)
      then have "u = s" "strict_prefix qs p" using q by auto
      then show ?thesis using x m Cons by (auto simp: objects_on_way_def split: option.splits)
    qed
  qed
qed

lemma objects_on_way_Nil [simp]: "objects_on_way j []"
  by (simp add: objects_on_way_def)

lemma set_path_ok:
  "objects_on_way j p \<Longrightarrow> p \<noteq> [] \<Longrightarrow> \<exists>r. set_path j p v = Some r \<and> get_path r p = Some v \<and> objects_on_way r p"
proof (induction j p v rule: set_path.induct)
  case (2 j s v)
  then show ?case by (auto simp: objects_on_way_Cons map_of_json_insert)
next
  case (3 j s t ss v)
  then obtain m where m: "j = JObj m" "\<And>x. map_of m s = Some x \<Longrightarrow> objects_on_way x (t # ss)" by (auto simp: objects_on_way_Cons)
  have "objects_on_way (case map_of m s of Some x \<Rightarrow> x | None \<Rightarrow> JObj []) (t # ss)"
  proof (cases "map_of m s")
    case None
    then show ?thesis by (simp add: objects_on_way_Cons)
  qed (use m(2) in simp)
  then obtain c where "set_path (case map_of m s of Some x \<Rightarrow> x | None \<Rightarrow> JObj []) (t # ss) v = Some c" "get_path c (t # ss) = Some v" "objects_on_way c (t # ss)"
    using "3.IH"[OF m(1)] by blast
  then show ?case by (auto simp: m(1) map_of_json_insert objects_on_way_Cons[of _ s])
qed simp


section \<open>What completion leaves\<close>

definition validated_field :: "json option \<Rightarrow> json \<Rightarrow> string \<Rightarrow> json \<times> string list" where
  "validated_field cur v p =
     (case cur of
        None \<Rightarrow> (v, [p])
      | Some x \<Rightarrow>
          (case v of
             JObj fs \<Rightarrow> (let (sub, miss) = validate_fields (obj_fields x) fs p in (if miss \<noteq> [] then JObj sub else x, miss))
           | _ \<Rightarrow> (x, [])))"

lemma validate_fields_Cons:
  "validate_fields m ((k, v) # req) path =
     (let (x, miss1) = validated_field (map_of m k) v (full_path path k);
          (m2, miss2) = validate_fields (json_insert k x m) req path
      in (m2, miss1 @ miss2))"
proof (cases "map_of m k")
  case None
  then show ?thesis by (cases v) (simp_all add: validated_field_def)
next
  case (Some x)
  then show ?thesis
    by (cases v) (simp_all add: validated_field_def json_insert_same Let_def case_prod_unfold)
qed

declare validate_fields.simps(2,3) [simp del]

lemma validate_untouched: "k \<notin> fst ` set req \<Longrightarrow> map_of (fst (validate_fields m req path)) k = map_of m k"
  by (induction req arbitrary: m) (auto simp: validate_fields_Cons Let_def case_prod_unfold map_of_json_insert)

lemma map_of_validate:
  assumes "distinct (map fst req)"
  shows "map_of (fst (validate_fields m req path)) k =
     (case map_of req k of None \<Rightarrow> map_of m k | Some v \<Rightarrow> Some (fst (validated_field (map_of m k) v (full_path path k))))"
  using assms
proof (induction req arbitrary: m)
  case (Cons e req)
  obtain k' v where e: "e = (k', v)" by fastforce
  let ?x = "fst (validated_field (map_of m k') v (full_path path k'))"
  have rec: "map_of (fst (validate_fields m (e # req) path)) k = map_of (fst (validate_fields (json_insert k' ?x m) req path)) k"
    by (simp add: e validate_fields_Cons Let_def case_prod_unfold)
  show ?case
  proof (cases "k = k'")
    case True
    then have "k \<notin> fst ` set req" using Cons.prems by (simp add: e)
    then show ?thesis using rec True by (simp add: validate_untouched map_of_json_insert e)
  next
    case False
    then have other: "map_of (json_insert k' ?x m) k = map_of m k" by (simp add: map_of_json_insert)
    show ?thesis
      unfolding rec using Cons.IH[of "json_insert k' ?x m"] Cons.prems False by (simp add: other e split: option.split)
  qed
qed simp

text \<open>Every required name is there, in objects all the way down.\<close>

fun covers_fields :: "(string \<times> json) list \<Rightarrow> (string \<times> json) list \<Rightarrow> bool" where
  "covers_fields m [] = True"
| "covers_fields m ((k, JObj fs) # req) =
     ((case map_of m k of None \<Rightarrow> False | Some x \<Rightarrow> covers_fields (obj_fields x) fs) \<and> covers_fields m req)"
| "covers_fields m ((k, v) # req) = (map_of m k \<noteq> None \<and> covers_fields m req)"

text \<open>No name twice in an object.\<close>

fun fields_wf :: "(string \<times> json) list \<Rightarrow> bool" where
  "fields_wf [] = True"
| "fields_wf ((k, JObj fs) # req) = (k \<notin> fst ` set req \<and> fields_wf fs \<and> fields_wf req)"
| "fields_wf ((k, v) # req) = (k \<notin> fst ` set req \<and> fields_wf req)"

lemma fields_wf_distinct: "fields_wf req \<Longrightarrow> distinct (map fst req)"
  by (induction req rule: fields_wf.induct) auto

lemma fields_wf_sub: "fields_wf req \<Longrightarrow> map_of req k = Some (JObj fs) \<Longrightarrow> fields_wf fs"
  by (induction req rule: fields_wf.induct) (auto split: if_splits)

lemma covers_refl_gen: "fields_wf req \<Longrightarrow> \<forall>(k, v) \<in> set req. map_of m k = Some v \<Longrightarrow> covers_fields m req"
proof (induction req arbitrary: m rule: fields_wf.induct)
  case (2 k fs req)
  have "\<forall>(k, v) \<in> set fs. map_of fs k = Some v" using fields_wf_distinct[of fs] "2.prems"(1) by auto
  then show ?case using 2 by (auto simp: obj_fields_def)
qed auto

lemma covers_refl: "fields_wf req \<Longrightarrow> covers_fields req req"
  using covers_refl_gen[of req req] fields_wf_distinct[of req] by auto

lemma covers_cong: "(\<And>k. k \<in> fst ` set req \<Longrightarrow> map_of m k = map_of m' k) \<Longrightarrow> covers_fields m req = covers_fields m' req"
  by (induction m req arbitrary: m' rule: covers_fields.induct) (auto split: option.splits)

lemma validated_field_value:
  assumes "\<forall>fs. v \<noteq> JObj fs"
  shows "validated_field cur v p = (case cur of None \<Rightarrow> (v, [p]) | Some x \<Rightarrow> (x, []))"
  using assms by (cases v) (auto simp: validated_field_def split: option.splits)

lemma covers_value:
  assumes "\<forall>fs. v \<noteq> JObj fs"
  shows "covers_fields m ((k, v) # req) = (map_of m k \<noteq> None \<and> covers_fields m req)"
  using assms by (cases v) auto

lemma validate_covers_value:
  assumes "\<forall>fs. v \<noteq> JObj fs" "k \<notin> fst ` set req"
    and IH: "\<And>m. covers_fields (fst (validate_fields m req path)) req \<and> (snd (validate_fields m req path) = [] \<longleftrightarrow> covers_fields m req)"
  shows "covers_fields (fst (validate_fields m ((k, v) # req) path)) ((k, v) # req)
     \<and> (snd (validate_fields m ((k, v) # req) path) = [] \<longleftrightarrow> covers_fields m ((k, v) # req))"
proof -
  have step: "validate_fields m ((k, v) # req) path =
      (case map_of m k of
         None \<Rightarrow> (let (m2, miss) = validate_fields (json_insert k v m) req path in (m2, full_path path k # miss))
       | Some x \<Rightarrow> validate_fields m req path)"
    using assms(1) by (simp add: validate_fields_Cons validated_field_value json_insert_same Let_def case_prod_unfold split: option.split)
  have "map_of (fst (validate_fields m1 req path)) k = map_of m1 k" for m1 using assms(2) by (rule validate_untouched)
  then show ?thesis
    using IH[of m] IH[of "json_insert k v m"] unfolding covers_value[OF assms(1)] step
    by (simp add: map_of_json_insert case_prod_unfold Let_def split: option.split)
qed

lemma validate_covers:
  "fields_wf req \<Longrightarrow> covers_fields (fst (validate_fields m req path)) req
     \<and> (snd (validate_fields m req path) = [] \<longleftrightarrow> covers_fields m req)"
proof (induction req arbitrary: m path rule: fields_wf.induct)
  case (2 k fs req)
  let ?p = "full_path path k"
  let ?x = "fst (validated_field (map_of m k) (JObj fs) ?p)"
  have cong: "covers_fields (json_insert k ?x m) req = covers_fields m req"
    by (rule covers_cong) (use "2.prems" in \<open>auto simp: map_of_json_insert\<close>)
  have rest: "covers_fields (fst (validate_fields (json_insert k ?x m) req path)) req"
      "snd (validate_fields (json_insert k ?x m) req path) = [] \<longleftrightarrow> covers_fields m req"
    using "2.IH"(2)[of "json_insert k ?x m" path] "2.prems" cong by simp_all
  have head: "map_of (fst (validate_fields (json_insert k ?x m) req path)) k = Some ?x"
    using "2.prems" by (simp add: validate_untouched map_of_json_insert)
  have inner: "covers_fields (obj_fields ?x) fs"
    "snd (validated_field (map_of m k) (JObj fs) ?p) = [] \<longleftrightarrow> (\<exists>x. map_of m k = Some x \<and> covers_fields (obj_fields x) fs)"
    using "2.IH"(1)[of "obj_fields _" ?p] "2.prems" covers_refl[of fs]
    by (auto simp: validated_field_def obj_fields_def Let_def case_prod_unfold split: option.splits)
  show ?case
    using rest head inner by (auto simp: validate_fields_Cons Let_def case_prod_unfold split: option.splits)
qed (simp, (rule validate_covers_value; simp)+)

lemma validate_no_missing: "snd (validate_fields m req path) = [] \<Longrightarrow> fst (validate_fields m req path) = m"
proof (induction req arbitrary: m)
  case (Cons e req)
  obtain k v where e: "e = (k, v)" by fastforce
  let ?x = "validated_field (map_of m k) v (full_path path k)"
  have "snd ?x = []" "snd (validate_fields (json_insert k (fst ?x) m) req path) = []"
    using Cons.prems by (auto simp: e validate_fields_Cons Let_def case_prod_unfold)
  moreover from this(1) have "map_of m k = Some (fst ?x)"
    by (auto simp: validated_field_def Let_def case_prod_unfold split: option.splits json.splits if_splits)
  ultimately show ?case using Cons.IH[of "json_insert k (fst ?x) m"]
    by (simp add: e validate_fields_Cons Let_def case_prod_unfold json_insert_same)
qed simp

text \<open>A stored value stays if it is no object and no object with fields is required at its place.\<close>

lemma validate_keeps:
  "get_path (JObj m) p = Some v \<Longrightarrow> \<forall>m'. v \<noteq> JObj m' \<Longrightarrow> fields_wf req \<Longrightarrow>
   \<forall>fs. get_path (JObj req) p = Some (JObj fs) \<longrightarrow> fs = [] \<Longrightarrow>
   get_path (JObj (fst (validate_fields m req path))) p = Some v"
proof (induction p arbitrary: m req path)
  case (Cons s p)
  obtain x where x: "map_of m s = Some x" "get_path x p = Some v" using Cons.prems(1) by (auto split: option.splits)
  have top: "map_of (fst (validate_fields m req path)) s =
      Some (case map_of req s of None \<Rightarrow> x | Some w \<Rightarrow> fst (validated_field (Some x) w (full_path path s)))"
    using map_of_validate[OF fields_wf_distinct[OF Cons.prems(3)], of m path s] x(1) by (simp split: option.split)
  have "get_path (case map_of req s of None \<Rightarrow> x | Some w \<Rightarrow> fst (validated_field (Some x) w (full_path path s))) p = Some v"
  proof (cases "\<exists>fs. map_of req s = Some (JObj fs)")
    case False
    then show ?thesis using x(2) by (auto simp: validated_field_value split: option.split)
  next
    case True
    then obtain fs where fs: "map_of req s = Some (JObj fs)" by blast
    let ?sub = "validate_fields (obj_fields x) fs (full_path path s)"
    show ?thesis
    proof (cases "\<exists>m1. x = JObj m1")
      case True
      then obtain m1 where m1: "x = JObj m1" by blast
      have sub: "\<forall>fs'. get_path (JObj fs) p = Some (JObj fs') \<longrightarrow> fs' = []" using Cons.prems(4) fs by simp
      have "get_path (JObj (fst ?sub)) p = Some v"
        using Cons.IH[OF _ Cons.prems(2) fields_wf_sub[OF Cons.prems(3) fs] sub] x(2) by (simp add: m1 obj_fields_def)
      then show ?thesis using x(2) by (simp add: fs validated_field_def Let_def case_prod_unfold)
    next
      case False
      then have "p = []" using x(2) by (cases p; cases x) auto
      then have "fs = []" using Cons.prems(4) fs by simp
      then show ?thesis using x(2) by (simp add: fs validated_field_def)
    qed
  qed
  then show ?case using top by simp
qed simp

lemma covers_paths:
  "covers_fields m req \<Longrightarrow> get_path (JObj req) p \<noteq> None \<Longrightarrow> get_path (JObj m) p \<noteq> None"
proof (induction p arbitrary: m req)
  case (Cons s p)
  obtain w where w: "map_of req s = Some w" "get_path w p \<noteq> None" using Cons.prems(2) by (auto split: option.splits)
  have entry: "\<exists>x. map_of m s = Some x \<and> (\<forall>fs. w = JObj fs \<longrightarrow> covers_fields (obj_fields x) fs)"
    if "covers_fields m req" "map_of req s = Some w" for m req
    using that by (induction m req rule: covers_fields.induct) (auto split: option.splits if_splits)
  obtain x where x: "map_of m s = Some x" "\<And>fs. w = JObj fs \<Longrightarrow> covers_fields (obj_fields x) fs"
    using entry[OF Cons.prems(1) w(1)] by blast
  show ?case
  proof (cases p)
    case Nil
    then show ?thesis using x by simp
  next
    case (Cons t q)
    then obtain fs where fs: "w = JObj fs" using w(2) by (cases w) (auto split: option.splits)
    have "get_path (JObj (obj_fields x)) p \<noteq> None" using Cons.IH[OF x(2)[OF fs]] w(2) fs by blast
    then have "get_path x p \<noteq> None" unfolding Cons by (cases x) (auto simp: obj_fields_def)
    then show ?thesis using x(1) by simp
  qed
qed simp



section \<open>Moving values to new paths\<close>

definition targets_apart :: "(string \<times> string) list \<Rightarrow> bool" where
  "targets_apart mp \<longleftrightarrow>
     distinct (map (\<lambda>x. dot_path (snd x)) mp) \<and>
     list_all (\<lambda>x. list_all (\<lambda>y. dot_path (snd x) = dot_path (snd y) \<or> \<not> prefix (dot_path (snd x)) (dot_path (snd y))) mp) mp"

lemma targets_apart_mset: "mset mp = mset mp' \<Longrightarrow> targets_apart mp = targets_apart mp'"
proof -
  assume m: "mset mp = mset mp'"
  have "distinct (map (\<lambda>x. dot_path (snd x)) mp) = distinct (map (\<lambda>x. dot_path (snd x)) mp')"
    using m by (metis mset_map mset_eq_imp_distinct_iff)
  then show ?thesis using mset_eq_setD[OF m] by (simp add: targets_apart_def list_all_iff)
qed

lemma dot_path_nonempty [simp]: "dot_path p \<noteq> []"
  by (simp add: dot_path_def)

lemma objects_on_way_keep:
  assumes "set_path j p v = Some r" "p \<noteq> []" "objects_on_way j p" "objects_on_way j q" "\<not> prefix p q" "\<not> prefix q p"
  shows "objects_on_way r q"
  unfolding objects_on_way_def
proof (intro allI impI)
  fix u x
  assume u: "strict_prefix u q" and x: "get_path r u = Some x"
  have r: "objects_on_way r p" using set_path_ok[OF assms(3,2), of v] assms(1) by auto
  have "\<not> prefix p u" using u assms(5) by (meson prefix_order.less_imp_le prefix_order.trans)
  then consider "strict_prefix u p" | "\<not> prefix u p" by (auto simp: strict_prefix_def)
  then show "\<exists>m. x = JObj m"
  proof cases
    case 1
    then show ?thesis using r x by (auto simp: objects_on_way_def)
  next
    case 2
    then have "get_path j u = Some x" using set_path_frame[OF assms(1) \<open>\<not> prefix p u\<close> 2] x by simp
    then show ?thesis using assms(4) u by (auto simp: objects_on_way_def)
  qed
qed

text \<open>An object with distinct names, as a map is.\<close>

definition is_map :: "json \<Rightarrow> bool" where
  "is_map j \<longleftrightarrow> (\<exists>m. j = JObj m \<and> distinct (map fst m))"

lemma json_insert_keys: "set (map fst (json_insert k v m)) = insert k (set (map fst m))"
  by (induction k v m rule: json_insert.induct) auto

lemma json_insert_distinct: "distinct (map fst m) \<Longrightarrow> distinct (map fst (json_insert k v m))"
proof (induction k v m rule: json_insert.induct)
  case (2 k v k' v' m)
  then show ?case using json_insert_keys[of k v m] by auto
qed simp

lemma set_path_map: "set_path j p v = Some r \<Longrightarrow> p \<noteq> [] \<Longrightarrow> is_map j \<Longrightarrow> is_map r"
  by (induction j p v rule: set_path.induct) (auto simp: is_map_def json_insert_distinct split: option.splits)

lemma targets_apart_Cons:
  assumes "targets_apart ((src, dst) # mp)"
  shows "targets_apart mp" "\<forall>(s, d) \<in> set mp. \<not> prefix (dot_path dst) (dot_path d) \<and> \<not> prefix (dot_path d) (dot_path dst)"
proof -
  show "targets_apart mp" using assms by (auto simp: targets_apart_def list_all_iff)
  have "dot_path dst \<noteq> dot_path d" if "(s, d) \<in> set mp" for s d
    using assms that by (force simp: targets_apart_def)
  moreover have "dot_path dst = dot_path d \<or> \<not> prefix (dot_path dst) (dot_path d) \<and> \<not> prefix (dot_path d) (dot_path dst)"
    if "(s, d) \<in> set mp" for s d
    using assms that unfolding targets_apart_def list_all_iff by (metis list.set_intros snd_conv)
  ultimately show "\<forall>(s, d) \<in> set mp. \<not> prefix (dot_path dst) (dot_path d) \<and> \<not> prefix (dot_path d) (dot_path dst)" by blast
qed

lemma extract_from_ok:
  assumes "targets_apart mp" "is_map r" "\<forall>(src, dst) \<in> set mp. objects_on_way r (dot_path dst)"
  shows "\<exists>r'. extract_from j mp r = Some r' \<and> is_map r'
     \<and> (\<forall>(src, dst) \<in> set mp. get_path r' (dot_path dst) = (case get_json_value j src of Some v \<Rightarrow> Some v | None \<Rightarrow> get_path r (dot_path dst)))
     \<and> (\<forall>q. (\<forall>(src, dst) \<in> set mp. \<not> prefix (dot_path dst) q \<and> \<not> prefix q (dot_path dst)) \<longrightarrow> get_path r' q = get_path r q)"
  using assms
proof (induction mp arbitrary: r)
  case (Cons e mp)
  obtain src dst where e: "e = (src, dst)" by fastforce
  let ?t = "dot_path dst"
  have apart: "targets_apart mp" "\<forall>(s, d) \<in> set mp. \<not> prefix ?t (dot_path d) \<and> \<not> prefix (dot_path d) ?t"
    using targets_apart_Cons[OF Cons.prems(1)[unfolded e]] by simp_all
  show ?case
  proof (cases "get_json_value j src")
    case None
    then obtain r' where r': "extract_from j mp r = Some r'" "is_map r'"
        "\<forall>(src, dst) \<in> set mp. get_path r' (dot_path dst) = (case get_json_value j src of Some v \<Rightarrow> Some v | None \<Rightarrow> get_path r (dot_path dst))"
        "\<forall>q. (\<forall>(src, dst) \<in> set mp. \<not> prefix (dot_path dst) q \<and> \<not> prefix q (dot_path dst)) \<longrightarrow> get_path r' q = get_path r q"
      using Cons.IH[OF apart(1) Cons.prems(2)] Cons.prems(3) by auto
    have "get_path r' ?t = get_path r ?t" using r'(4) apart(2) by blast
    then show ?thesis using r' None by (intro exI[of _ r']) (auto simp: e)
  next
    case (Some v)
    have way: "objects_on_way r ?t" using Cons.prems(3) by (simp add: e)
    obtain r1 where r1: "set_path r ?t v = Some r1" "get_path r1 ?t = Some v" using set_path_ok[OF way] by auto
    have m1: "is_map r1" using set_path_map[OF r1(1)] Cons.prems(2) by simp
    have ways: "\<forall>(s, d) \<in> set mp. objects_on_way r1 (dot_path d)"
    proof clarify
      fix s d assume sd: "(s, d) \<in> set mp"
      then have "objects_on_way r (dot_path d)" using Cons.prems(3) by auto
      then show "objects_on_way r1 (dot_path d)" using objects_on_way_keep[OF r1(1) _ way] apart(2) sd by auto
    qed
    obtain r' where r': "extract_from j mp r1 = Some r'" "is_map r'"
        "\<forall>(src, dst) \<in> set mp. get_path r' (dot_path dst) = (case get_json_value j src of Some v \<Rightarrow> Some v | None \<Rightarrow> get_path r1 (dot_path dst))"
        "\<forall>q. (\<forall>(src, dst) \<in> set mp. \<not> prefix (dot_path dst) q \<and> \<not> prefix q (dot_path dst)) \<longrightarrow> get_path r' q = get_path r1 q"
      using Cons.IH[OF apart(1) m1 ways] by auto
    have t: "get_path r' ?t = Some v" using r'(4) apart(2) r1(2) by auto
    have frame: "get_path r1 q = get_path r q" if "\<not> prefix ?t q" "\<not> prefix q ?t" for q using set_path_frame[OF r1(1) that] .
    have "get_path r' (dot_path d) = (case get_json_value j s of Some v \<Rightarrow> Some v | None \<Rightarrow> get_path r (dot_path d))" if "(s, d) \<in> set mp" for s d
    proof -
      have "get_path r' (dot_path d) = (case get_json_value j s of Some v \<Rightarrow> Some v | None \<Rightarrow> get_path r1 (dot_path d))"
        using r'(3) that by blast
      moreover have "get_path r1 (dot_path d) = get_path r (dot_path d)" using apart(2) that by (intro frame) blast+
      ultimately show ?thesis by (simp split: option.split)
    qed
    then have "\<forall>(s, d) \<in> set (e # mp). get_path r' (dot_path d) = (case get_json_value j s of Some v \<Rightarrow> Some v | None \<Rightarrow> get_path r (dot_path d))"
      using t Some by (simp add: e) blast
    moreover have "\<forall>q. (\<forall>(src, dst) \<in> set (e # mp). \<not> prefix (dot_path dst) q \<and> \<not> prefix q (dot_path dst)) \<longrightarrow> get_path r' q = get_path r q"
      using r'(4) frame by (simp add: e)
    moreover have "extract_from j (e # mp) r = Some r'" using Some r1(1) r'(1) by (simp add: e set_json_value_def)
    ultimately show ?thesis using r'(2) by blast
  qed
qed simp

lemma settings_mapping_apart: "targets_apart settings_mapping"
  by code_simp

lemma map_of_json_merge:
  assumes "distinct (map fst s)"
  shows "map_of (foldl (\<lambda>m (k, v). json_insert k v m) t s) k = (case map_of s k of Some v \<Rightarrow> Some v | None \<Rightarrow> map_of t k)"
  using assms
proof (induction s arbitrary: t)
  case (Cons e s)
  obtain k' v where e: "e = (k', v)" by fastforce
  show ?case
  proof (cases "k' = k")
    case True
    then have "map_of s k = None" using Cons.prems by (auto simp: e map_of_eq_None_iff)
    then show ?thesis using Cons True by (simp add: e map_of_json_insert)
  next
    case False
    then show ?thesis using Cons by (simp add: e map_of_json_insert split: option.split)
  qed
qed simp


text \<open>
  Old settings are carried over: whatever the order in which the mapping is visited, loading a
  settings file does not panic, and every old setting that the file holds, if it is no object, is found
  at its new path after the file has been completed with the defaults, provided these do not ask
  for an object with fields there.
\<close>

theorem old_settings_are_carried_over:
  assumes "mset mapping = mset settings_mapping" "fields_wf req"
  shows "\<exists>r missing. upgraded_settings mapping (JObj req) (JObj stored) = Some (r, missing)
     \<and> (\<forall>(src, dst) \<in> set settings_mapping. \<forall>v. get_json_value (JObj stored) src = Some v \<and> (\<forall>m. v \<noteq> JObj m)
           \<and> (\<forall>fs. get_json_value (JObj req) dst = Some (JObj fs) \<longrightarrow> fs = [])
          \<longrightarrow> get_json_value r dst = Some v)"
proof -
  have apart: "targets_apart mapping" using settings_mapping_apart targets_apart_mset[OF assms(1)] by simp
  have empty: "objects_on_way (JObj []) p" for p by (cases p) (auto simp: objects_on_way_Cons)
  obtain e where e: "extract_from (JObj stored) mapping (JObj []) = Some e" "is_map e"
      "\<forall>(src, dst) \<in> set mapping. get_path e (dot_path dst) =
         (case get_json_value (JObj stored) src of Some v \<Rightarrow> Some v | None \<Rightarrow> get_path (JObj []) (dot_path dst))"
    using extract_from_ok[OF apart, of "JObj []" "JObj stored"] empty by (auto simp: is_map_def)
  then obtain em where em: "e = JObj em" "distinct (map fst em)" by (auto simp: is_map_def)
  define merged where "merged = foldl (\<lambda>m (k, v). json_insert k v m) stored em"
  have merge: "merge_json (JObj stored) e = JObj merged" by (simp add: merge_json_def em merged_def)
  let ?v = "validate_fields merged req []"
  have up: "upgraded_settings mapping (JObj req) (JObj stored) = Some (JObj (fst ?v), snd ?v)"
    by (simp add: upgraded_settings_def extract_json_values_def e(1) merge validate_json_def obj_fields_def Let_def case_prod_unfold)
  have "get_json_value (JObj (fst ?v)) dst = Some v"
    if sd: "(src, dst) \<in> set settings_mapping" and v: "get_json_value (JObj stored) src = Some v" "\<forall>m. v \<noteq> JObj m"
      and req: "\<forall>fs. get_json_value (JObj req) dst = Some (JObj fs) \<longrightarrow> fs = []" for src dst v
  proof -
    have "(src, dst) \<in> set mapping" using sd assms(1) by (metis mset_eq_setD)
    then have "get_path e (dot_path dst) = Some v" using e(3) v(1) by fastforce
    moreover obtain s p where sp: "dot_path dst = s # p" using dot_path_nonempty[of dst] by (cases "dot_path dst") auto
    ultimately have "get_path (JObj merged) (dot_path dst) = Some v"
      unfolding em merged_def by (simp add: map_of_json_merge[OF em(2)] split: option.splits)
    then show ?thesis
      using validate_keeps[OF _ v(2) assms(2)] req unfolding get_json_value_def by blast
  qed
  then show ?thesis using up by blast
qed

definition demo_defaults :: "(string \<times> json) list" where
  "demo_defaults = [(''live_scraper'', JObj [(''general'', JObj [(''auto_delete'', JBool True), (''auto_trade'', JBool True)])])]"

theorem old_settings_are_carried_over_witness:
  "\<exists>r missing. upgraded_settings settings_mapping (JObj demo_defaults) (JObj [(''live_scraper'', JObj [(''auto_trade'', JBool False)])]) = Some (r, missing)
     \<and> get_json_value r ''live_scraper.general.auto_trade'' = Some (JBool False)"
proof -
  let ?stored = "[(''live_scraper'', JObj [(''auto_trade'', JBool False)])]"
  have src: "get_json_value (JObj ?stored) ''live_scraper.auto_trade'' = Some (JBool False)"
    by (simp add: get_json_value_def dot_path_def)
  have dst: "get_json_value (JObj demo_defaults) ''live_scraper.general.auto_trade'' = Some (JBool True)"
    by (simp add: get_json_value_def dot_path_def demo_defaults_def)
  have mem: "(''live_scraper.auto_trade'', ''live_scraper.general.auto_trade'') \<in> set settings_mapping"
    by (simp add: settings_mapping_def)
  have wf: "fields_wf demo_defaults" by (simp add: demo_defaults_def)
  show ?thesis using old_settings_are_carried_over[OF refl wf, of ?stored] src dst mem by fastforce
qed

text \<open>
  The migration costs the rest of the section: an extracted \<open>live_scraper\<close> object replaces the
  stored one as a whole, so a file that holds one old setting loses every current setting of
  that section. Here the file says not to delete orders automatically; after loading, the default says to.
\<close>

theorem one_old_setting_resets_the_others:
  "\<exists>r missing. upgraded_settings settings_mapping (JObj demo_defaults)
       (JObj [(''live_scraper'', JObj [(''auto_trade'', JBool False), (''general'', JObj [(''auto_delete'', JBool False)])])]) = Some (r, missing)
     \<and> get_json_value r ''live_scraper.general.auto_delete'' = Some (JBool True)"
proof -
  let ?stored = "JObj [(''live_scraper'', JObj [(''auto_trade'', JBool False), (''general'', JObj [(''auto_delete'', JBool False)])])]"
  have "upgraded_settings settings_mapping (JObj demo_defaults) ?stored =
      Some (JObj [(''live_scraper'', JObj [(''general'', JObj [(''auto_trade'', JBool False), (''auto_delete'', JBool True)])])],
            [''live_scraper.general.auto_delete''])"
    by code_simp
  then show ?thesis by (simp add: get_json_value_def dot_path_def)
qed

end
