(* ===== verification/Error_Text.thy ===== *)
theory Error_Text
  imports Backfill Json_Tools Helper_Queue
begin

text \<open>
  Errors and the log (\<open>utils/src/error.rs\<close>, the text helpers of \<open>utils/src/helper.rs\<close>, \<open>utils/src/core.rs\<close>
  and \<open>options.rs\<close>): the error value and its builders, the truncation of long texts, the error of a failed
  JSON parse, what an error logs, and the log with its filters, its sink and its cache. Text is
  bytes, and slicing a text inside a character panics: such functions return \<open>None\<close>. The removal of
  colour codes (a regular expression) and the printed times are arguments.
\<close>

section \<open>Truncation\<close>

definition char_boundary :: "string \<Rightarrow> nat \<Rightarrow> bool" where
  "char_boundary s n \<longleftrightarrow> n = 0 \<or> n = length s \<or> n < length s \<and> \<not> utf8_tail (s ! n)"

text \<open>\<open>&text[..n]\<close>.\<close>

definition str_prefix :: "string \<Rightarrow> nat \<Rightarrow> string option" where
  "str_prefix s n = (if char_boundary s n then Some (take n s) else None)"

definition truncation_note :: "string \<Rightarrow> nat \<Rightarrow> string" where
  "truncation_note label n = ''... ['' @ label @ '' - '' @ show_nat n @ '' total chars]''"

definition truncate_with_indicator :: "string \<Rightarrow> nat \<Rightarrow> nat option \<Rightarrow> (string \<times> bool) option" where
  "truncate_with_indicator text max_length buffer =
     (let b = (case buffer of Some b \<Rightarrow> b | None \<Rightarrow> 50) in
      if length text \<le> max_length then Some (text, False)
      else (case str_prefix text (max_length - b) of
              None \<Rightarrow> None
            | Some p \<Rightarrow> Some (p @ truncation_note ''TRUNCATED'' (length text), True)))"

definition labelled :: "string \<Rightarrow> string \<Rightarrow> string" where
  "labelled label text = '' | '' @ label @ '': '' @ text"

text \<open>The outer option is the panic; the inner ones are the texts for the console and for the file.\<close>

definition smart_text_processing ::
  "string \<Rightarrow> nat \<Rightarrow> nat option \<Rightarrow> string \<Rightarrow> (string option \<times> string option) option" where
  "smart_text_processing text console_max file_max label =
     (if text = [] then Some (None, None)
      else
        (case truncate_with_indicator text console_max (Some 50) of
           None \<Rightarrow> None
         | Some (console, _) \<Rightarrow>
             (case (case file_max of None \<Rightarrow> Some (text, False) | Some m \<Rightarrow> truncate_with_indicator text m (Some 100)) of
                None \<Rightarrow> None
              | Some (file_text, _) \<Rightarrow> Some (Some (labelled label console), Some (labelled label file_text)))))"

section \<open>Inserting at a line and column\<close>

text \<open>The byte position of character \<open>n\<close>, or the end.\<close>

definition insert_in_line :: "string \<Rightarrow> nat \<Rightarrow> string \<Rightarrow> string" where
  "insert_in_line line col text = (let p = take_chars col line in p @ text @ drop (length p) line)"

definition chars_of :: "string \<Rightarrow> nat" where
  "chars_of s = length (filter (\<lambda>c. \<not> utf8_tail c) s)"

definition insert_at :: "string \<Rightarrow> nat \<Rightarrow> nat \<Rightarrow> string \<Rightarrow> string" where
  "insert_at s line column text =
     (let lines = text_lines s; l = line - 1; c = column - 1 in
      str_join [CHR 0x0A]
        (if l < length lines \<and> c \<le> chars_of (lines ! l) then lines[l := insert_in_line (lines ! l) c text] else lines))"

section \<open>The error value\<close>

datatype log_severity = LvInfo | LvWarning | LvError | LvDebug | LvTrace | LvCritical

fun level_prefix :: "log_severity \<Rightarrow> string" where
  "level_prefix LvInfo = ''INFO''"
| "level_prefix LvWarning = ''WARNING''"
| "level_prefix LvError = ''ERROR''"
| "level_prefix LvDebug = ''DEBUG''"
| "level_prefix LvTrace = ''TRACE''"
| "level_prefix LvCritical = ''CRITICAL''"

fun level_file_name :: "log_severity \<Rightarrow> string" where
  "level_file_name LvInfo = ''info.log''"
| "level_file_name LvWarning = ''warning.log''"
| "level_file_name LvError = ''error.log''"
| "level_file_name LvDebug = ''debug.log''"
| "level_file_name LvTrace = ''trace.log''"
| "level_file_name LvCritical = ''critical.log''"

fun level_priority :: "log_severity \<Rightarrow> nat" where
  "level_priority LvDebug = 0"
| "level_priority LvTrace = 1"
| "level_priority LvInfo = 2"
| "level_priority LvWarning = 3"
| "level_priority LvError = 4"
| "level_priority LvCritical = 5"

record app_error =
  ae_component :: string
  ae_message :: string
  ae_cause :: string
  ae_log_level :: log_severity
  ae_properties :: properties
  ae_location :: "string option"

definition error_new :: "string \<Rightarrow> string \<Rightarrow> string \<Rightarrow> app_error" where
  "error_new component message location =
     \<lparr>ae_component = component, ae_message = message, ae_cause = [], ae_log_level = LvCritical, ae_properties = None,
      ae_location = Some location\<rparr>"

definition with_location :: "string \<Rightarrow> app_error \<Rightarrow> app_error" where
  "with_location l e =
     e\<lparr>ae_location := Some (case ae_location e of Some loc \<Rightarrow> loc @ '' -> '' @ l | None \<Rightarrow> l)\<rparr>"

definition error_is_error :: "app_error \<Rightarrow> bool" where
  "error_is_error e \<longleftrightarrow> ae_log_level e \<in> {LvError, LvCritical}"

definition error_mask :: "string list \<Rightarrow> app_error \<Rightarrow> app_error" where
  "error_mask ps e = e\<lparr>ae_properties := prop_mask ps (ae_properties e)\<rparr>"

text \<open>\<open>Display\<close>.\<close>

definition error_display :: "app_error \<Rightarrow> string option" where
  "error_display e =
     (case truncate_with_indicator (ae_message e) 1000 None of
        None \<Rightarrow> None
      | Some (message, _) \<Rightarrow>
          (case ae_location e of
             None \<Rightarrow> Some (ae_component e @ '': '' @ message @ '' | Cause: '' @ ae_cause e)
           | Some location \<Rightarrow>
               (case truncate_with_indicator location 200 None of
                  None \<Rightarrow> None
                | Some (loc, _) \<Rightarrow>
                    Some (ae_component e @ '': '' @ message @ '' | Cause: '' @ ae_cause e @ '' | Location: '' @ loc))))"

text \<open>A failed parse: the library's error text with its line, column and class.\<close>

record json_error =
  je_text :: string
  je_line :: nat
  je_column :: nat
  je_class :: string

definition error_marker :: string where "error_marker = '' <<< ERROR HERE <<< ''"

definition error_from_json :: "string \<Rightarrow> string option \<Rightarrow> string \<Rightarrow> string \<Rightarrow> json_error \<Rightarrow> string \<Rightarrow> app_error option" where
  "error_from_json component path content message err location =
     (case truncate_with_indicator (insert_at content (je_line err) (je_column err) error_marker) 1000 None of
        None \<Rightarrow> None
      | Some (text, _) \<Rightarrow>
          Some \<lparr>ae_component = ''ParseError:'' @ component, ae_message = message,
            ae_cause = je_text err @ '' at line '' @ show_nat (je_line err) @ '', column '' @ show_nat (je_column err),
            ae_log_level = LvCritical,
            ae_properties = Some (JObj
              [(''path'', case path of Some p \<Rightarrow> JStr p | None \<Rightarrow> JNull), (''content'', JStr text),
               (''line'', JInt (int (je_line err))), (''column'', JInt (int (je_column err))),
               (''error_type'', JStr (je_class err)), (''truncated'', JBool (length text = 1000))]),
            ae_location = Some location\<rparr>)"

section \<open>The log\<close>

definition max_cached_logs :: nat where "max_cached_logs = 10000"

type_synonym log_line = "log_severity \<times> string"

definition cache_log_entry :: "log_line \<Rightarrow> log_line list \<Rightarrow> log_line list" where
  "cache_log_entry e entries =
     (if max_cached_logs \<le> length entries then drop (length entries + 1 - max_cached_logs) entries else entries) @ [e]"

definition newest_logs :: "nat \<Rightarrow> log_line list \<Rightarrow> log_line list" where
  "newest_logs limit entries = drop (length entries - limit) entries"

record logger_options =
  lp_console :: bool
  lp_file :: "string option"
  lp_show_time :: bool
  lp_show_component :: bool
  lp_show_elapsed_time :: bool
  lp_show_level :: bool
  lp_color :: bool
  lp_centered :: bool
  lp_width :: nat
  lp_enable :: bool

definition default_options :: logger_options where
  "default_options = \<lparr>lp_console = True, lp_file = None, lp_show_time = True, lp_show_component = True, lp_show_elapsed_time = True,
     lp_show_level = True, lp_color = True, lp_centered = False, lp_width = 0, lp_enable = True\<rparr>"

definition color_code :: "string \<Rightarrow> string" where
  "color_code c =
     (if c = ''red'' then ''31'' else if c = ''green'' then ''32'' else if c = ''yellow'' then ''33'' else if c = ''blue'' then ''34''
      else if c = ''magenta'' then ''35'' else if c = ''cyan'' then ''36'' else if c = ''white'' then ''37''
      else if c = ''orange'' then ''38;5;208'' else ''0'')"

definition esc_code :: "string \<Rightarrow> string" where
  "esc_code t = CHR 0x1B # ''['' @ t @ ''m''"

definition format_text :: "string \<Rightarrow> string \<Rightarrow> bool \<Rightarrow> bool \<Rightarrow> string" where
  "format_text text color bold use_color =
     (if \<not> use_color then text
      else esc_code ((if bold then ''1;'' else []) @ color_code color) @ text @ esc_code ''0'')"

definition format_square_bracket :: "string \<Rightarrow> bool \<Rightarrow> string" where
  "format_square_bracket msg use_color = format_text ''['' ''cyan'' False use_color @ msg @ format_text '']'' ''cyan'' False use_color"

fun level_color :: "log_severity \<Rightarrow> string" where
  "level_color LvInfo = ''green''"
| "level_color LvWarning = ''yellow''"
| "level_color LvError = ''red''"
| "level_color LvDebug = ''blue''"
| "level_color LvTrace = ''cyan''"
| "level_color LvCritical = ''red''"

text \<open>The process-wide filters, the cache, and what was given to the sink, the console and the files.\<close>

record log_state =
  lz_filters :: "string list"
  lz_min_level :: "log_severity option"
  lz_cache :: "log_line list"
  lz_sink :: "log_line list"
  lz_console :: "string list"
  lz_files :: "(string \<times> string) list"

definition log_passes :: "log_state \<Rightarrow> log_severity \<Rightarrow> string \<Rightarrow> logger_options \<Rightarrow> bool" where
  "log_passes st level component opts \<longleftrightarrow>
     lp_enable opts \<and> (lz_filters st = [] \<or> component \<in> set (lz_filters st))
   \<and> (case lz_min_level st of None \<Rightarrow> True | Some m \<Rightarrow> level_priority m \<le> level_priority level)"

text \<open>A message that is to be centred and does not fit is not logged.\<close>

definition centered_message :: "logger_options \<Rightarrow> string \<Rightarrow> string option" where
  "centered_message opts msg =
     (if lp_centered opts
      then (let width = min (lp_width opts) 80 in
            if width \<le> length msg then None
            else (let padding = width - length msg; left = padding div 2
                  in Some (replicate left CHR ''-'' @ msg @ replicate (padding - left) CHR ''-'')))
      else Some msg)"

definition log_prefix :: "logger_options \<Rightarrow> log_severity \<Rightarrow> string \<Rightarrow> string \<Rightarrow> string \<Rightarrow> string" where
  "log_prefix opts level component now elapsed =
     (let col = lp_color opts; part = (\<lambda>show t. if show then t @ '' '' else []) in
      part (lp_show_time opts) (format_square_bracket now col)
    @ part (lp_show_elapsed_time opts) (format_square_bracket elapsed col)
    @ part (lp_show_level opts) (format_square_bracket (format_text (level_prefix level) (level_color level) True col) col)
    @ part (lp_show_component opts) (format_square_bracket (format_text component ''magenta'' True col) col))"

definition dolog ::
  "(string \<Rightarrow> string) \<Rightarrow> string \<Rightarrow> string \<Rightarrow> log_severity \<Rightarrow> string \<Rightarrow> string \<Rightarrow> logger_options \<Rightarrow> log_state \<Rightarrow> log_state" where
  "dolog strip now elapsed level component msg opts st =
     (if \<not> log_passes st level component opts then st
      else
        (case centered_message opts msg of
           None \<Rightarrow> st
         | Some text \<Rightarrow>
             (let message = log_prefix opts level component now elapsed @ format_text text ''white'' False (lp_color opts);
                  clean = strip message
              in st\<lparr>lz_cache := cache_log_entry (level, clean) (lz_cache st),
                    lz_sink := lz_sink st @ [(level, clean)],
                    lz_console := lz_console st @ (if lp_console opts then [text_trim message] else []),
                    lz_files := lz_files st @ (case lp_file opts of Some f \<Rightarrow> [(f, clean @ [CHR 0x0A])] | None \<Rightarrow> [])\<rparr>)))"

text \<open>\<open>export_cached_logs\<close>: one file per level.\<close>

definition export_cached_logs :: "log_line list \<Rightarrow> (string \<times> string) list" where
  "export_cached_logs cache =
     map (\<lambda>l. (level_file_name l, concat (map (\<lambda>e. snd e @ [CHR 0x0A]) (filter (\<lambda>e. fst e = l) cache))))
       [LvInfo, LvWarning, LvError, LvDebug, LvTrace, LvCritical]"

section \<open>Logging an error\<close>

definition max_location_length :: nat where "max_location_length = 1024"
definition max_context_length :: nat where "max_context_length = 1048"

definition location_part :: "app_error \<Rightarrow> string option" where
  "location_part e =
     (case ae_location e of
        None \<Rightarrow> Some []
      | Some l \<Rightarrow>
          if max_location_length < length l
          then map_option (\<lambda>p. '' | Location: '' @ p @ truncation_note ''LOCATION TRUNCATED'' (length l)) (str_prefix l (max_location_length - 50))
          else Some ('' | Location: '' @ l))"

text \<open>The calls of \<open>dolog\<close> an error makes, as pairs of message and options; \<open>context\<close> prints the properties.\<close>

definition error_log_calls :: "(json \<Rightarrow> string) \<Rightarrow> app_error \<Rightarrow> string \<Rightarrow> logger_options \<Rightarrow> (string \<times> logger_options) list option" where
  "error_log_calls context e file_name opts0 =
     (let opts = (if file_name \<noteq> [] \<and> lp_file opts0 = None then opts0\<lparr>lp_file := Some file_name\<rparr> else opts0) in
      case location_part e of
        None \<Rightarrow> None
      | Some loc \<Rightarrow>
          (let message = ae_message e @ (if ae_cause e \<noteq> [] then '' | Cause: '' @ ae_cause e else []) @ loc in
           case ae_properties e of
             None \<Rightarrow> Some [(message, opts)]
           | Some props \<Rightarrow>
               (let ctx = context props in
                if max_context_length < length ctx then
                  (case str_prefix ctx (max_context_length - 50) of
                     None \<Rightarrow> None
                   | Some p \<Rightarrow>
                       Some ((if lp_console opts
                              then [(message @ '' | Context: '' @ p @ truncation_note ''TRUNCATED'' (length ctx), opts\<lparr>lp_console := True, lp_file := None\<rparr>)]
                              else [])
                           @ (if lp_file opts \<noteq> None then [(message @ '' | Context: '' @ ctx, opts\<lparr>lp_console := False\<rparr>)] else [])))
                else Some [(message @ '' | Context: '' @ ctx, opts)])))"

definition log_error_value ::
  "(json \<Rightarrow> string) \<Rightarrow> (string \<Rightarrow> string) \<Rightarrow> string \<Rightarrow> string \<Rightarrow> app_error \<Rightarrow> string \<Rightarrow> logger_options \<Rightarrow> log_state \<Rightarrow> log_state option" where
  "log_error_value context strip now elapsed e file_name opts st =
     map_option (foldl (\<lambda>s (m, opt). dolog strip now elapsed (ae_log_level e) (ae_component e) m opt s) st)
       (error_log_calls context e file_name opts)"


section \<open>Properties of the texts\<close>

lemma show_nat_length: "n < 10 ^ Suc k \<Longrightarrow> length (show_nat n) \<le> Suc k"
proof (induction k arbitrary: n)
  case 0
  then show ?case by (subst show_nat.simps) simp
next
  case (Suc k)
  show ?case
  proof (cases "n < 10")
    case True
    then show ?thesis by (subst show_nat.simps) simp
  next
    case False
    have "n div 10 < 10 ^ Suc k" using Suc.prems by (simp add: less_mult_imp_div_less)
    then show ?thesis using Suc.IH[of "n div 10"] False by (subst show_nat.simps) simp
  qed
qed

lemma truncation_note_length: "length (truncation_note label n) = 21 + length label + length (show_nat n)"
  by (simp add: truncation_note_def)

text \<open>
  Truncation keeps to its limit: for a limit of at least 50 bytes and a text of any size a machine can
  hold (below ten to the nineteenth), the result is at most as long as the limit, it is marked as truncated
  exactly if the text was longer, an untruncated text is returned as it is and a truncated one
  starts with the text's first bytes; a text of single-byte characters never panics.
\<close>

theorem truncation_keeps_its_limit:
  assumes "50 \<le> max_length" "length text < 10 ^ 19"
  shows "(\<forall>r b. truncate_with_indicator text max_length None = Some (r, b) \<longrightarrow>
            length r \<le> max_length \<and> b = (max_length < length text) \<and> (\<not> b \<longrightarrow> r = text)
          \<and> (b \<longrightarrow> take (max_length - 50) r = take (max_length - 50) text))
     \<and> (truncate_with_indicator text max_length None = None \<longleftrightarrow>
          max_length < length text \<and> 50 < max_length \<and> utf8_tail (text ! (max_length - 50)))"
proof -
  have "length (show_nat (length text)) \<le> Suc 18" using assms(2) by (intro show_nat_length) simp
  then have note_len: "length (truncation_note ''TRUNCATED'' (length text)) \<le> 49" by (simp add: truncation_note_length)
  show ?thesis
    using assms(1) note_len
    by (auto simp: truncate_with_indicator_def str_prefix_def char_boundary_def Let_def split: if_splits option.splits)
qed

theorem truncation_keeps_its_limit_witness:
  "truncate_with_indicator (replicate 60 CHR ''x'') 50 None \<noteq> None"
  using truncation_keeps_its_limit[of 50 "replicate 60 CHR ''x''"] by simp

text \<open>
  The error of a failed parse marks the wrong contents as truncated: contents that were cut
  to fit are reported as not truncated, since what is left of them is never 1000 bytes long, and contents that
  happen to be 1000 bytes long with the marker are reported as truncated although nothing was cut.
\<close>

definition error_property :: "string \<Rightarrow> app_error \<Rightarrow> json option" where
  "error_property k e = prop_get (ae_properties e) k"

theorem truncated_flag_is_wrong:
  assumes "error_from_json component path content message err location = Some e"
    and "text = insert_at content (je_line err) (je_column err) error_marker" "length text < 10 ^ 19"
  shows "error_property ''truncated'' e = Some (JBool (length text = 1000))
     \<and> (1000 < length text \<longrightarrow> error_property ''truncated'' e = Some (JBool False) \<and> error_property ''content'' e \<noteq> Some (JStr text))
     \<and> (length text = 1000 \<longrightarrow> error_property ''truncated'' e = Some (JBool True) \<and> error_property ''content'' e = Some (JStr text))"
proof -
  obtain r b where r: "truncate_with_indicator text 1000 None = Some (r, b)"
      "e = \<lparr>ae_component = ''ParseError:'' @ component, ae_message = message,
            ae_cause = je_text err @ '' at line '' @ show_nat (je_line err) @ '', column '' @ show_nat (je_column err),
            ae_log_level = LvCritical,
            ae_properties = Some (JObj
              [(''path'', case path of Some p \<Rightarrow> JStr p | None \<Rightarrow> JNull), (''content'', JStr r),
               (''line'', JInt (int (je_line err))), (''column'', JInt (int (je_column err))),
               (''error_type'', JStr (je_class err)), (''truncated'', JBool (length r = 1000))]),
            ae_location = Some location\<rparr>"
    using assms(1) unfolding assms(2) error_from_json_def
    by (cases "truncate_with_indicator (insert_at content (je_line err) (je_column err) error_marker) 1000 None") (simp, force)
  have fields: "error_property ''truncated'' e = Some (JBool (length r = 1000))" "error_property ''content'' e = Some (JStr r)"
    unfolding r(2) error_property_def prop_get_def by simp_all
  have "length (show_nat (length text)) \<le> Suc 18" using assms(3) by (intro show_nat_length) simp
  then have note_len: "length (truncation_note ''TRUNCATED'' (length text)) \<le> 49" by (simp add: truncation_note_length)
  have "length r \<noteq> 1000 \<and> r \<noteq> text" if "1000 < length text"
  proof -
    have "length r \<le> 999" using r(1) note_len that
      by (auto simp: truncate_with_indicator_def str_prefix_def Let_def split: if_splits)
    then show ?thesis using that by auto
  qed
  moreover have "r = text" if "length text \<le> 1000"
    using r(1) that by (simp add: truncate_with_indicator_def)
  ultimately show ?thesis unfolding fields by (cases "length text \<le> 1000") auto
qed

theorem truncated_flag_is_wrong_witness:
  "\<exists>e. error_from_json ''C'' None ''{'' ''m'' \<lparr>je_text = ''eof'', je_line = 1, je_column = 1, je_class = ''EOF''\<rparr> ''l'' = Some e
     \<and> error_property ''truncated'' e = Some (JBool False)"
proof -
  let ?err = "\<lparr>je_text = ''eof'', je_line = 1, je_column = 1, je_class = ''EOF''\<rparr>"
  let ?text = "insert_at ''{'' (je_line ?err) (je_column ?err) error_marker"
  have len: "length ?text = 21"
    by (simp add: insert_at_def text_lines_def newline_def chars_of_def insert_in_line_def utf8_tail_def error_marker_def Let_def)
  obtain e where e: "error_from_json ''C'' None ''{'' ''m'' ?err ''l'' = Some e"
    using len by (auto simp: error_from_json_def truncate_with_indicator_def)
  show ?thesis using truncated_flag_is_wrong[OF e refl] e len by simp
qed

section \<open>Properties of the log\<close>

lemma window_sum: "(n::nat) - c + (n - (n - c) - l) = n - min l c"
proof (cases "n \<le> c")
  case False
  then obtain d where "n = c + d" by (metis le_add_diff_inverse nat_le_linear)
  then show ?thesis by (cases "l \<le> c") auto
qed auto

lemma cache_all:
  "foldl (\<lambda>c e. cache_log_entry e c) (drop (length as - max_cached_logs) as) es
     = drop (length (as @ es) - max_cached_logs) (as @ es)"
proof (induction es arbitrary: as)
  case (Cons e es)
  have "cache_log_entry e (drop (length as - max_cached_logs) as) = drop (length (as @ [e]) - max_cached_logs) (as @ [e])"
  proof (cases "max_cached_logs \<le> length as")
    case True
    then have "Suc (length as - max_cached_logs) = Suc (length as) - max_cached_logs" "1 \<le> max_cached_logs"
      by (simp_all add: max_cached_logs_def)
    then show ?thesis using True by (simp add: cache_log_entry_def drop_Suc_Cons)
  qed (simp add: cache_log_entry_def)
  then show ?case using Cons.IH[of "as @ [e]"] by simp
qed simp

text \<open>
  The log's cache is a window on the log: after any sequence of lines it holds the newest
  10000 of them in order, and the tail that a page asks for is the newest lines up to the smaller of the two
  numbers.
\<close>

theorem newest_logs_is_newest:
  "newest_logs limit (foldl (\<lambda>c e. cache_log_entry e c) [] es) = drop (length es - min limit max_cached_logs) es"
  using cache_all[of "[]" es] window_sum[of "length es" max_cached_logs limit] by (simp add: newest_logs_def add.commute)

text \<open>
  Logging an error with a long context follows where it is to go: the console gets the
  shortened context, the file the whole one, as two lines of the log; with neither a console nor a file
  nothing is logged, not even in the cache, while an error with a short context always is.
\<close>

theorem long_context_logs_per_target:
  assumes "error_log_calls context e file_name opts = Some calls" "ae_properties e = Some props"
  shows "length calls =
      (if max_context_length < length (context props)
       then of_bool (lp_console opts) + of_bool (lp_file opts \<noteq> None \<or> file_name \<noteq> []) else 1)
     \<and> (\<forall>(m, opt) \<in> set calls. lp_file opt \<noteq> None \<longrightarrow> (\<exists>p. m = p @ '' | Context: '' @ context props))"
  using assms
  by (auto simp: error_log_calls_def Let_def split: option.splits if_splits)

definition demo_error :: app_error where
  "demo_error = (error_new ''C'' ''m'' ''l'')\<lparr>ae_properties := Some JNull\<rparr>"

theorem long_context_logs_per_target_witness:
  "\<exists>calls. error_log_calls (\<lambda>_. replicate 1100 CHR ''x'') demo_error [] (default_options\<lparr>lp_console := False\<rparr>) = Some calls \<and> length calls = 0"
proof -
  let ?c = "\<lambda>_::json. replicate 1100 CHR ''x''" and ?o = "default_options\<lparr>lp_console := False\<rparr>"
  obtain calls where c: "error_log_calls ?c demo_error [] ?o = Some calls"
    by (auto simp: error_log_calls_def demo_error_def error_new_def location_part_def max_location_length_def max_context_length_def
        str_prefix_def char_boundary_def utf8_tail_def Let_def)
  have "ae_properties demo_error = Some JNull" by (simp add: demo_error_def)
  from long_context_logs_per_target[OF c this] show ?thesis
    using c by (simp add: max_context_length_def default_options_def)
qed

end
