(* ===== verification/Market_Client.thy ===== *)
theory Market_Client
  imports Market_Limiter Error_Text "HOL-Library.AList"
begin

text \<open>
  The marketplace client (\<open>wf-market/src/client.rs\<close>): one request through its rate limits and the
  installed gate, the reading of the answer, the errors (\<open>errors/\<close>) with their masking and text, the
  sign-in (\<open>endpoints/authentication.rs\<close>) and the refresh of the account. The transport, the limiter
  crate and the JSON readers are parameters. A call that panics is \<open>None\<close>. Headers and hash maps
  are association lists.
\<close>

section \<open>Rate limits\<close>

datatype rate_tier = PerSecond nat | PerMinute nat | PerHour nat

fun downgrade :: "rate_tier \<Rightarrow> rate_tier" where
  "downgrade (PerSecond _) = PerMinute 50"
| "downgrade (PerMinute _) = PerHour 2"
| "downgrade (PerHour _) = PerHour 1"

fun current_limit :: "rate_tier \<Rightarrow> nat" where
  "current_limit (PerSecond x) = x"
| "current_limit (PerMinute x) = x"
| "current_limit (PerHour x) = x"

fun sub_tract :: "rate_tier \<Rightarrow> nat \<Rightarrow> rate_tier" where
  "sub_tract (PerSecond x) v = (if v < x then PerSecond (x - v) else PerSecond 1)"
| "sub_tract (PerMinute x) v = (if v < x then PerMinute (x - v) else PerMinute 1)"
| "sub_tract (PerHour x) v = (if v < x then PerHour (x - v) else PerHour 1)"

fun quota_type :: "rate_tier \<Rightarrow> string" where
  "quota_type (PerSecond _) = ''per_second''"
| "quota_type (PerMinute _) = ''per_minute''"
| "quota_type (PerHour _) = ''per_hour''"

text \<open>A limiter of the crate \<open>governor\<close> is its quota; a quota of zero panics.\<close>

definition build_limiter :: "rate_tier \<Rightarrow> rate_tier option" where
  "build_limiter t = (if current_limit t = 0 then None else Some t)"

record route_limiter =
  rl_tier :: rate_tier
  rl_wait :: nat

definition route_limiter_new :: "rate_tier \<Rightarrow> nat \<Rightarrow> route_limiter option" where
  "route_limiter_new t wait = map_option (\<lambda>q. \<lparr>rl_tier = q, rl_wait = wait\<rparr>) (build_limiter t)"

definition requests_per_second :: nat where "requests_per_second = 3"

section \<open>Requests and errors\<close>

datatype api_version = ApiV1 | ApiV2 | CustomApi string string

fun api_url :: "api_version \<Rightarrow> string" where
  "api_url ApiV1 = ''https://api.warframe.market/v1''"
| "api_url ApiV2 = ''https://api.warframe.market/v2''"
| "api_url (CustomApi url _) = url"

fun auth_prefix :: "api_version \<Rightarrow> string" where
  "auth_prefix ApiV1 = ''JWT''"
| "auth_prefix _ = ''Bearer''"

datatype language =
    Korean | Russian | German | French | Portuguese | ChineseSimplified | ChineseTraditional | Spanish | Italian | Polish
  | Ukrainian | English

fun language_str :: "language \<Rightarrow> string" where
  "language_str Korean = ''ko''"
| "language_str Russian = ''ru''"
| "language_str German = ''de''"
| "language_str French = ''fr''"
| "language_str Portuguese = ''pt''"
| "language_str ChineseSimplified = ''zh-hans''"
| "language_str ChineseTraditional = ''zh-hant''"
| "language_str Spanish = ''es''"
| "language_str Italian = ''it''"
| "language_str Polish = ''pl''"
| "language_str Ukrainian = ''uk''"
| "language_str English = ''en''"

datatype platform = Pc | Ps4 | Xbox | Switch | Mobile

fun platform_str :: "platform \<Rightarrow> string" where
  "platform_str Pc = ''pc''"
| "platform_str Ps4 = ''ps4''"
| "platform_str Xbox = ''xbox''"
| "platform_str Switch = ''switch''"
| "platform_str Mobile = ''mobile''"

record response_error =
  rp_api_version :: string
  rp_data :: "json option"
  rp_request :: "string list option"
  rp_inputs :: "(string \<times> string) list option"

text \<open>
  \<open>from_v1\<close> and \<open>collect_error_values\<close>. \<open>show_value\<close> is the debug text of a JSON value that is neither a
  string nor a container. An object always reads as a map of values, so the branch for a failed
  reading is never taken.
\<close>

function collect_error_values ::
  "(json \<Rightarrow> string) \<Rightarrow> string \<Rightarrow> json \<Rightarrow> (string \<times> string) list \<Rightarrow> (string \<times> string) list"
  and collect_items :: "(json \<Rightarrow> string) \<Rightarrow> string \<Rightarrow> nat \<Rightarrow> json list \<Rightarrow> (string \<times> string) list \<Rightarrow> (string \<times> string) list"
  and collect_fields :: "(json \<Rightarrow> string) \<Rightarrow> string \<Rightarrow> (string \<times> json) list \<Rightarrow> (string \<times> string) list \<Rightarrow> (string \<times> string) list" where
  "collect_error_values show_value key (JArr js) m =
     (case json_strings js of
        Some messages \<Rightarrow> AList.update key (str_join '', '' messages) m
      | None \<Rightarrow> collect_items show_value key 0 js m)"
| "collect_error_values show_value key (JObj fs) m = collect_fields show_value key fs m"
| "collect_error_values show_value key (JStr s) m = AList.update key s m"
| "collect_error_values show_value key JNull m = AList.update key (show_value JNull) m"
| "collect_error_values show_value key (JBool b) m = AList.update key (show_value (JBool b)) m"
| "collect_error_values show_value key (JInt i) m = AList.update key (show_value (JInt i)) m"
| "collect_error_values show_value key (JReal r) m = AList.update key (show_value (JReal r)) m"
| "collect_items show_value key i [] m = m"
| "collect_items show_value key i (j # js) m =
     collect_items show_value key (Suc i) js
       (collect_error_values show_value (key @ ''['' @ show_nat i @ '']'') j m)"
| "collect_fields show_value key [] m = m"
| "collect_fields show_value key ((k, j) # fs) m =
     collect_fields show_value key fs (collect_error_values show_value (key @ ''.'' @ k) j m)"
  by pat_completeness auto
termination
  by (relation "measure (\<lambda>x. case x of Inl (_, _, j, _) \<Rightarrow> size j
      | Inr (Inl (_, _, _, js, _)) \<Rightarrow> size_list size js
      | Inr (Inr (_, _, fs, _)) \<Rightarrow> size_list (size_prod (\<lambda>_. 0) size) fs)") auto

definition response_error_from_v1 :: "(json \<Rightarrow> string) \<Rightarrow> json \<Rightarrow> response_error" where
  "response_error_from_v1 show_value body =
     \<lparr>rp_api_version = ''0.0.1'', rp_data = None, rp_request = None,
      rp_inputs = Some (case get_path body [''error''] of
          Some (JStr s) \<Rightarrow> [(''error'', s)]
        | Some (JObj fs) \<Rightarrow> foldl (\<lambda>m (k, v). collect_error_values show_value k v m) [] fs
        | _ \<Rightarrow> [])\<rparr>"

definition contains_error :: "response_error \<Rightarrow> string \<Rightarrow> bool" where
  "contains_error e search \<longleftrightarrow>
     (case rp_inputs e of Some m \<Rightarrow> list_ex (\<lambda>(k, v). str_contains k search \<or> str_contains v search) m | None \<Rightarrow> False)
   \<or> (case rp_request e of Some rs \<Rightarrow> list_ex (\<lambda>v. str_contains v search) rs | None \<Rightarrow> False)"

record request_error =
  re_status_code :: nat
  re_version :: api_version
  re_method :: string
  re_url :: string
  re_payload :: "json option"
  re_headers :: "(string \<times> string) list"
  re_content :: string
  re_retry_after :: "nat option"
  re_wfm_error :: "response_error option"
  re_duration_ms :: "nat option"

definition request_error_new :: "api_version \<Rightarrow> string \<Rightarrow> string \<Rightarrow> json option \<Rightarrow> request_error" where
  "request_error_new version method url payload =
     \<lparr>re_status_code = 0, re_version = version, re_method = method, re_url = url, re_payload = payload,
      re_headers = [], re_content = [], re_retry_after = None, re_wfm_error = None, re_duration_ms = None\<rparr>"

text \<open>The errors of a call; \<open>WithRequest\<close> gathers the constructors that carry the request only.\<close>

datatype request_failure =
    TooManyRequests | RequestFailed | Unauthorized | NotFound | BadRequest | InvalidCredentials | Forbidden | EndOfFile
  | InternalServerError | OrderLimitExceeded | OrderLimitExceededSamePrice | AuctionLimitExceeded

datatype call_error =
    WithRequest request_failure request_error
  | ParsingError request_error string
  | InvalidType string string
  | UnknownError string

section \<open>Masking and text\<close>

fun wfm_mask_fields :: "string list \<Rightarrow> (string \<times> json) list \<Rightarrow> (string \<times> json) list" where
  "wfm_mask_fields ps [] = []"
| "wfm_mask_fields ps ((k, JObj m) # fs) = (k, JObj (wfm_mask_fields ps m)) # wfm_mask_fields ps fs"
| "wfm_mask_fields ps ((k, v) # fs) = (k, if k \<in> set ps then JStr ''***'' else v) # wfm_mask_fields ps fs"

definition mask_header :: "string list \<Rightarrow> string \<times> string \<Rightarrow> string \<times> string" where
  "mask_header ps h =
     (fst h, if list_ex (\<lambda>p. str_contains (to_ascii_lowercase (fst h)) (to_ascii_lowercase p)) ps then ''*******'' else snd h)"

definition request_error_mask :: "string list \<Rightarrow> request_error \<Rightarrow> request_error" where
  "request_error_mask ps e =
     e\<lparr>re_payload := (case re_payload e of Some (JObj m) \<Rightarrow> Some (JObj (wfm_mask_fields ps m)) | p \<Rightarrow> p),
       re_headers := map (mask_header ps) (re_headers e)\<rparr>"

fun call_error_mask :: "string list \<Rightarrow> call_error \<Rightarrow> call_error" where
  "call_error_mask ps (WithRequest k e) = WithRequest k (request_error_mask ps e)"
| "call_error_mask ps (ParsingError e p) = ParsingError (request_error_mask ps e) p"
| "call_error_mask ps e = e"

text \<open>
  \<open>ResponseError\<close> and \<open>RequestError\<close> as text. \<open>show_json\<close> prints a JSON value, \<open>show_strings\<close> is the debug text of a
  list of strings. The preview of long contents cuts at byte 100; inside a character that panics.
\<close>

definition response_error_display :: "(string list \<Rightarrow> string) \<Rightarrow> response_error \<Rightarrow> string" where
  "response_error_display show_strings e =
     ''API v'' @ rp_api_version e
     @ (case rp_inputs e of
          Some m \<Rightarrow> if m \<noteq> [] then '' - '' @ str_join '', '' (map (\<lambda>(k, v). k @ '': '' @ v) m) else []
        | None \<Rightarrow> [])
     @ (case rp_request e of Some rs \<Rightarrow> '' (request: '' @ show_strings rs @ '')'' | None \<Rightarrow> [])"

definition content_preview :: "string \<Rightarrow> string option" where
  "content_preview content =
     (if 100 < length content
      then if 128 \<le> (of_char (content ! 100) :: nat) \<and> (of_char (content ! 100) :: nat) < 192 then None else Some (take 100 content @ ''...'')
      else Some content)"

definition error_sentence :: "(json \<Rightarrow> string) \<Rightarrow> (string list \<Rightarrow> string) \<Rightarrow> request_error \<Rightarrow> string option" where
  "error_sentence show_json show_strings e =
     (let parts =
          [re_method e @ '' '' @ re_url e]
        @ (if re_status_code e \<noteq> 0 then [''returned status '' @ show_nat (re_status_code e)] else [])
        @ (case re_retry_after e of Some s \<Rightarrow> [''Retry-After: '' @ show_nat s @ '' seconds''] | None \<Rightarrow> [])
        @ (case re_payload e of Some p \<Rightarrow> [''Payload: '' @ show_json p] | None \<Rightarrow> [])
        @ (case re_wfm_error e of Some w \<Rightarrow> [''error: '' @ response_error_display show_strings w] | None \<Rightarrow> [])
      in if re_content e \<noteq> []
         then map_option (\<lambda>c. str_join '', '' (parts @ [''content: '' @ c])) (content_preview (re_content e))
         else Some (str_join '', '' parts))"

fun failure_text :: "request_failure \<Rightarrow> string" where
  "failure_text TooManyRequests = ''Too many requests''"
| "failure_text RequestFailed = ''Request error''"
| "failure_text Unauthorized = ''Unauthorized''"
| "failure_text NotFound = ''Not found''"
| "failure_text BadRequest = ''Bad request''"
| "failure_text InvalidCredentials = ''Invalid credentials''"
| "failure_text Forbidden = ''Forbidden''"
| "failure_text EndOfFile = ''End of file''"
| "failure_text InternalServerError = ''Internal server error''"
| "failure_text OrderLimitExceeded = ''Order limit exceeded''"
| "failure_text OrderLimitExceededSamePrice = ''Order limit exceeded (same price)''"
| "failure_text AuctionLimitExceeded = ''Auction limit exceeded''"

fun failure_type :: "request_failure \<Rightarrow> string" where
  "failure_type TooManyRequests = ''TooManyRequests''"
| "failure_type RequestFailed = ''RequestError''"
| "failure_type Unauthorized = ''Unauthorized''"
| "failure_type NotFound = ''NotFound''"
| "failure_type BadRequest = ''BadRequest''"
| "failure_type InvalidCredentials = ''InvalidCredentials''"
| "failure_type Forbidden = ''Forbidden''"
| "failure_type EndOfFile = ''EndOfFile''"
| "failure_type InternalServerError = ''InternalServerError''"
| "failure_type OrderLimitExceeded = ''OrderLimitExceeded''"
| "failure_type OrderLimitExceededSamePrice = ''OrderLimitExceededSamePrice''"
| "failure_type AuctionLimitExceeded = ''AuctionLimitExceeded''"

fun call_error_display :: "(json \<Rightarrow> string) \<Rightarrow> (string list \<Rightarrow> string) \<Rightarrow> call_error \<Rightarrow> string option" where
  "call_error_display show_json show_strings (WithRequest k e) =
     map_option (\<lambda>t. failure_text k @ '': '' @ t) (error_sentence show_json show_strings e)"
| "call_error_display show_json show_strings (ParsingError e p) =
     map_option (\<lambda>t. ''Parsing error: '' @ t @ '' - '' @ p) (error_sentence show_json show_strings e)"
| "call_error_display _ _ (InvalidType expected found) =
     Some (''Invalid type: expected '' @ [CHR 0x27] @ expected @ [CHR 0x27] @ '', found '' @ [CHR 0x27] @ found @ [CHR 0x27])"
| "call_error_display _ _ (UnknownError msg) = Some (''Unknown error: '' @ msg)"

text \<open>The JSON that \<open>serde\<close> derives for the error records, and \<open>to_json\<close>.\<close>

definition json_maybe :: "('a \<Rightarrow> json) \<Rightarrow> 'a option \<Rightarrow> json" where
  "json_maybe f x = (case x of Some v \<Rightarrow> f v | None \<Rightarrow> JNull)"

fun api_version_json :: "api_version \<Rightarrow> json" where
  "api_version_json ApiV1 = JStr ''V1''"
| "api_version_json ApiV2 = JStr ''V2''"
| "api_version_json (CustomApi a w) = JObj [(''Custom'', JArr [JStr a, JStr w])]"

definition json_texts :: "(string \<times> string) list \<Rightarrow> json" where
  "json_texts m = JObj (map (\<lambda>(k, v). (k, JStr v)) m)"

definition response_error_json :: "response_error \<Rightarrow> json" where
  "response_error_json e =
     JObj [(''apiVersion'', JStr (rp_api_version e)), (''data'', json_maybe (\<lambda>j. j) (rp_data e)),
           (''error'', JObj [(''request'', json_maybe (\<lambda>rs. JArr (map JStr rs)) (rp_request e)),
                             (''inputs'', json_maybe json_texts (rp_inputs e))])]"

definition request_error_fields :: "request_error \<Rightarrow> (string \<times> json) list" where
  "request_error_fields e =
     [(''status_code'', JInt (int (re_status_code e))), (''version'', api_version_json (re_version e)),
      (''method'', JStr (re_method e)), (''url'', JStr (re_url e)), (''payload'', json_maybe (\<lambda>j. j) (re_payload e)),
      (''headers'', json_texts (re_headers e)), (''content'', JStr (re_content e)),
      (''retry_after'', json_maybe (\<lambda>n. JInt (int n)) (re_retry_after e)),
      (''wfm_error'', json_maybe response_error_json (re_wfm_error e)),
      (''duration_ms'', json_maybe (\<lambda>n. JInt (int n)) (re_duration_ms e))]"

fun call_error_json :: "call_error \<Rightarrow> json" where
  "call_error_json (WithRequest k e) = JObj [(''type'', JStr (failure_type k)), (''error'', JObj (request_error_fields e))]"
| "call_error_json (ParsingError e p) =
     JObj [(''type'', JStr ''ParsingError''), (''error'', JObj (request_error_fields e)), (''parse_error'', JStr p)]"
| "call_error_json (InvalidType expected found) =
     JObj [(''type'', JStr ''InvalidType''), (''expected'', JStr expected), (''found'', JStr found)]"
| "call_error_json (UnknownError _) =
     JObj [(''type'', JStr ''Unknown''), (''message'', JStr ''An unknown error occurred.'')]"

text \<open>
  What leaves the client: the JSON file that the callback for \<open>api:error\<close> writes
  (\<open>qf_core/src/app/modules/auth.rs\<close>) and the server's own error (\<open>qf_core/src/utils/error_ext.rs\<close>).
\<close>

definition api_error_log :: "request_error \<Rightarrow> json" where
  "api_error_log e = JObj (wfm_mask_fields sensitive_fields (request_error_fields e))"

definition error_from_wfm ::
  "(json \<Rightarrow> string) \<Rightarrow> (string list \<Rightarrow> string) \<Rightarrow> string \<Rightarrow> string \<Rightarrow> call_error \<Rightarrow> string \<Rightarrow> app_error option" where
  "error_from_wfm show_json show_strings component message e location =
     (let m = call_error_mask sensitive_fields e
      in map_option (\<lambda>cause. \<lparr>ae_component = ''WFMClient:'' @ component, ae_message = message, ae_cause = cause,
           ae_log_level = LvCritical, ae_properties = Some (call_error_json m), ae_location = Some location\<rparr>)
         (call_error_display show_json show_strings m))"

section \<open>A call\<close>

text \<open>
  The client's state: its settings, the limiters of the routes that were told to slow down, and the
  count of the calls of each route. \<open>mc_limit\<close> is the limiter that every other route shares.
\<close>

record market_client =
  mc_token :: string
  mc_device_id :: string
  mc_language :: language
  mc_platform :: platform
  mc_crossplay :: bool
  mc_limit :: nat
  mc_routes :: "(string \<times> route_limiter) list"
  mc_tracking :: "(string \<times> nat) list"

definition client_new :: market_client where
  "client_new = \<lparr>mc_token = [], mc_device_id = [], mc_language = English, mc_platform = Pc, mc_crossplay = True,
     mc_limit = requests_per_second, mc_routes = [], mc_tracking = []\<rparr>"

definition track_call :: "string \<Rightarrow> market_client \<Rightarrow> market_client" where
  "track_call key c =
     c\<lparr>mc_tracking := AList.update key (case map_of (mc_tracking c) key of Some n \<Rightarrow> n + 1 | None \<Rightarrow> 1) (mc_tracking c)\<rparr>"

definition clear_wait_time :: "string \<Rightarrow> market_client \<Rightarrow> market_client" where
  "clear_wait_time key c =
     (case map_of (mc_routes c) key of
        Some l \<Rightarrow> c\<lparr>mc_routes := AList.update key (l\<lparr>rl_wait := 0\<rparr>) (mc_routes c)\<rparr>
      | None \<Rightarrow> c)"

definition set_rate_limit_for_route :: "string \<Rightarrow> rate_tier \<Rightarrow> nat \<Rightarrow> market_client \<Rightarrow> market_client option" where
  "set_rate_limit_for_route key t wait c =
     map_option (\<lambda>l. c\<lparr>mc_routes := AList.update key l (mc_routes c)\<rparr>) (route_limiter_new t wait)"

text \<open>
  What the call reads of the world: the readers of JSON, the printed form of a status, which header names and
  values are legal, the installed user agent, the gate's answer (\<open>None\<close> when no gate is installed), the answer
  of the server and the measured time. A header name is lower case in a header map.
\<close>

datatype api_reply =
    NoReply string bool bool "nat option"
  | Reply nat header_map "string + string"

record call_env =
  ce_parse_json :: "string \<Rightarrow> string + json"
  ce_parse_error :: "string \<Rightarrow> string + response_error"
  ce_show_value :: "json \<Rightarrow> string"
  ce_show_status :: "nat \<Rightarrow> string"
  ce_name_ok :: "string \<Rightarrow> bool"
  ce_value_ok :: "string \<Rightarrow> bool"
  ce_user_agent :: "string option"
  ce_gate :: "string option option"
  ce_reply :: api_reply
  ce_duration :: nat

text \<open>What a call does to the world, in order.\<close>

datatype call_effect =
    SleptFor nat
  | AskedGate
  | LimiterReady rate_tier
  | EmitBefore string string string
  | SentRequest string string "json option" "(string \<times> string) list"
  | EmitAfter string nat string string nat
  | GateResponse nat bool
  | GateTransportError
  | EmitRateLimit string nat
  | EmitError request_error

record api_call =
  ac_version :: api_version
  ac_method :: string
  ac_path :: string
  ac_key :: string
  ac_body :: "json option"
  ac_headers :: "(string \<times> string) list option"

definition user_agent_text :: "call_env \<Rightarrow> market_client \<Rightarrow> string" where
  "user_agent_text env c =
     (case ce_user_agent env of
        Some agent \<Rightarrow> agent
      | None \<Rightarrow> ''wf-market-rs/0.1.11 ('' @ platform_str (mc_platform c) @ ''; '' @ language_str (mc_language c) @ '')'')"

text \<open>The header map, built by \<open>insert\<close>; an illegal name or value panics.\<close>

fun put_headers :: "call_env \<Rightarrow> (string \<times> string) list \<Rightarrow> (string \<times> string) list \<Rightarrow> (string \<times> string) list option" where
  "put_headers env [] h = Some h"
| "put_headers env ((k, v) # hs) h =
     (if ce_name_ok env k \<and> ce_value_ok env v then put_headers env hs (AList.update (to_ascii_lowercase k) v h) else None)"

definition call_headers :: "call_env \<Rightarrow> market_client \<Rightarrow> api_call \<Rightarrow> (string \<times> string) list" where
  "call_headers env c a =
     [(''language'', language_str (mc_language c)), (''platform'', platform_str (mc_platform c)),
      (''crossplay'', if mc_crossplay c then ''true'' else ''false''), (''User-Agent'', user_agent_text env c)]
     @ (if mc_token c \<noteq> [] then [(''authorization'', auth_prefix (ac_version a) @ '' '' @ mc_token c)] else [])
     @ (case ac_headers a of Some hs \<Rightarrow> hs | None \<Rightarrow> [])"

definition u64_max :: int where "u64_max = 18446744073709551615"

definition retry_after_of :: "header_map \<Rightarrow> nat" where
  "retry_after_of headers =
     (case headers ''retry-after'' of
        Some s \<Rightarrow> (case parse_integer 0 u64_max s of Some i \<Rightarrow> nat i | None \<Rightarrow> 1)
      | None \<Rightarrow> 1)"

definition lowered :: "rate_tier \<Rightarrow> rate_tier" where
  "lowered t = (if 1 < current_limit t then sub_tract t 1 else downgrade t)"

text \<open>The error of a 400, 403 or 404 whose body could be read.\<close>

definition refusal_kind :: "nat \<Rightarrow> response_error \<Rightarrow> request_failure" where
  "refusal_kind status e =
     (if contains_error e ''app.order.error.exceededOrderLimitSamePrice'' then OrderLimitExceededSamePrice
      else if contains_error e ''app.order.error.exceededOrderLimit'' then OrderLimitExceeded
      else if contains_error e ''exceededAuctionLimit'' then AuctionLimitExceeded
      else if status = 403 then Forbidden
      else if status = 404 then NotFound
      else BadRequest)"

definition read_refusal :: "call_env \<Rightarrow> api_version \<Rightarrow> string \<Rightarrow> string + response_error" where
  "read_refusal env version body =
     (case version of
        ApiV1 \<Rightarrow> (case ce_parse_json env body of Inr v \<Rightarrow> Inr (response_error_from_v1 (ce_show_value env) v) | Inl e \<Rightarrow> Inl e)
      | _ \<Rightarrow> ce_parse_error env body)"

text \<open>
  The answer, read. \<open>t\<close> is the limit of the route as it was when the call began. The result is
  an error or the value with the headers and the record of the request.
\<close>

definition read_reply ::
  "call_env \<Rightarrow> (string \<Rightarrow> string + 't) \<Rightarrow> api_call \<Rightarrow> rate_tier \<Rightarrow> request_error \<Rightarrow> market_client
    \<Rightarrow> nat \<Rightarrow> header_map \<Rightarrow> string + string
    \<Rightarrow> ((call_error + 't \<times> header_map \<times> request_error) \<times> market_client \<times> call_effect list) option" where
  "read_reply env parse a t e c status headers body =
     (case body of
        Inl why \<Rightarrow>
          (let e1 = e\<lparr>re_content := ''Failed to read response body: '' @ why\<rparr>
           in Some (Inl (WithRequest RequestFailed e1), c, [EmitError e1]))
      | Inr text \<Rightarrow>
          (let e1 = e\<lparr>re_content := text\<rparr> in
           if status \<in> {200, 201} then
             (case parse text of
                Inr v \<Rightarrow> Some (Inr (v, headers, e1), c, [])
              | Inl why \<Rightarrow> Some (Inl (ParsingError e1 why), c, [EmitError e1]))
           else if status = 401 then Some (Inl (WithRequest Unauthorized e1), c, [EmitError e1])
           else if status = 429 then
             (let retry = retry_after_of headers; e2 = e1\<lparr>re_retry_after := Some retry\<rparr>
              in map_option (\<lambda>c1. (Inl (WithRequest TooManyRequests e2), c1, [EmitRateLimit (ac_key a) retry, EmitError e2]))
                   (set_rate_limit_for_route (ac_key a) (lowered t) retry c))
           else if status \<in> {400, 403, 404} then
             (case read_refusal env (ac_version a) text of
                Inl why \<Rightarrow> Some (Inl (ParsingError e1 why), c, [EmitError e1])
              | Inr w \<Rightarrow>
                  (let e2 = e1\<lparr>re_wfm_error := Some w\<rparr>
                   in Some (Inl (WithRequest (refusal_kind status w) e2), c, [EmitError e2])))
           else if 500 \<le> status \<and> status \<le> 599 then Some (Inl (WithRequest InternalServerError e1), c, [EmitError e1])
           else Some (Inl (UnknownError (''Unexpected status code: '' @ ce_show_status env status @ '' with body: '' @ text)),
                      c, [EmitError e1])))"

definition transport_details :: "call_env \<Rightarrow> string \<Rightarrow> string \<Rightarrow> bool \<Rightarrow> bool \<Rightarrow> nat option \<Rightarrow> string" where
  "transport_details env url why timeout connect status =
     ''Request failed: '' @ why @ [CHR 0x0A] @ ''  URL: '' @ url
     @ (if timeout then [CHR 0x0A] @ ''  Reason: timeout'' else if connect then [CHR 0x0A] @ ''  Reason: connection error'' else [])
     @ (case status of Some n \<Rightarrow> [CHR 0x0A] @ ''  HTTP status: '' @ ce_show_status env n | None \<Rightarrow> [])"

text \<open>The limiter of a call, with the wait that the route was told: the first half of a call.\<close>

definition route_limit :: "market_client \<Rightarrow> string \<Rightarrow> rate_tier \<times> rate_tier \<times> nat" where
  "route_limit c key =
     (case map_of (mc_routes c) key of
        Some l \<Rightarrow> (rl_tier l, rl_tier l, rl_wait l)
      | None \<Rightarrow> (PerSecond requests_per_second, PerSecond (mc_limit c), 0))"

definition after_wait :: "string \<Rightarrow> nat \<Rightarrow> market_client \<Rightarrow> market_client" where
  "after_wait key wait c = (if 0 < wait then clear_wait_time key c else c)"

text \<open>From the gate to the end.\<close>

definition send_call ::
  "call_env \<Rightarrow> (string \<Rightarrow> string + 't) \<Rightarrow> api_call \<Rightarrow> rate_tier \<Rightarrow> rate_tier \<Rightarrow> request_error \<Rightarrow> market_client
    \<Rightarrow> ((call_error + 't \<times> header_map \<times> request_error) \<times> market_client \<times> call_effect list) option" where
  "send_call env parse a t limiter e c =
     (let asked = (if ce_gate env = None then [] else [AskedGate]);
          sent = asked @ [LimiterReady limiter, EmitBefore (ac_key a) (re_url e) (ac_method a),
                          SentRequest (ac_method a) (re_url e) (ac_body a) (re_headers e)]
      in case ce_gate env of
        Some (Some text) \<Rightarrow>
          (let e1 = e\<lparr>re_content := text\<rparr> in Some (Inl (WithRequest RequestFailed e1), c, asked @ [EmitError e1]))
      | g \<Rightarrow>
          (case ce_reply env of
             Reply status headers body \<Rightarrow>
               (let e1 = e\<lparr>re_duration_ms := Some (ce_duration env), re_status_code := status\<rparr>
                in map_option (\<lambda>(r, c1, fx).
                     (r, c1, sent @ [EmitAfter (ac_key a) status (re_url e) (ac_method a) (ce_duration env)]
                             @ (if g = None then [] else [GateResponse status (is_challenge status headers)]) @ fx))
                   (read_reply env parse a t e1 c status headers body))
           | NoReply why timeout connect status \<Rightarrow>
               (let e1 = e\<lparr>re_content := transport_details env (re_url e) why timeout connect status,
                           re_duration_ms := Some (ce_duration env)\<rparr>
                in Some (Inl (WithRequest RequestFailed e1), c,
                         sent @ (if g = None then [] else [GateTransportError]) @ [EmitError e1]))))"

definition call_api ::
  "call_env \<Rightarrow> (string \<Rightarrow> string + 't) \<Rightarrow> api_call \<Rightarrow> market_client
    \<Rightarrow> ((call_error + 't \<times> header_map \<times> request_error) \<times> market_client \<times> call_effect list) option" where
  "call_api env parse a c =
     (let c1 = track_call (ac_key a) c;
          (t, limiter, wait) = route_limit c1 (ac_key a);
          e = request_error_new (ac_version a) (ac_method a) (api_url (ac_version a) @ ac_path a) (ac_body a)
      in case put_headers env (call_headers env c1 a) [] of
        None \<Rightarrow> None
      | Some hs \<Rightarrow>
          map_option (\<lambda>(r, c2, fx). (r, c2, (if 0 < wait then [SleptFor wait] else []) @ fx))
            (send_call env parse a t limiter (e\<lparr>re_headers := hs\<rparr>) (after_wait (ac_key a) wait c1)))"

section \<open>Sign-in and refresh\<close>

text \<open>
  \<open>signin\<close>: the payload of the answer must hold a user, the token is the header without its first four
  bytes; a shorter header panics. \<open>raw\<close> is the header as it came, legal as text if it is printable;
  \<open>read_user\<close> reads the user.
\<close>

definition header_printable :: "string \<Rightarrow> bool" where
  "header_printable s \<longleftrightarrow> list_all (\<lambda>c. (32 \<le> (of_char c :: nat) \<and> (of_char c :: nat) < 127) \<or> (of_char c :: nat) = 9) s"

definition token_of_header :: "string \<Rightarrow> string option" where
  "token_of_header h = (if length h < 4 then None else Some (drop 4 h))"

definition signin_call :: "string \<Rightarrow> string \<Rightarrow> string \<Rightarrow> api_call" where
  "signin_call username password device_id =
     \<lparr>ac_version = ApiV1, ac_method = ''POST'', ac_path = ''/auth/signin'', ac_key = ''POST:auth:signin'',
      ac_body = Some (JObj [(''auth_type'', JStr ''header''), (''email'', JStr username), (''password'', JStr password),
                            (''device_id'', JStr device_id)]),
      ac_headers = Some [(''Authorization'', ''JWT'')]\<rparr>"

definition signin_result ::
  "(json \<Rightarrow> string + 'u) \<Rightarrow> string option \<Rightarrow> call_error + json \<times> header_map \<times> request_error \<Rightarrow> (call_error + 'u \<times> string) option" where
  "signin_result read_user raw r =
     (case r of
        Inr (payload, _, err) \<Rightarrow>
          (case get_path payload [''user''] of
             None \<Rightarrow> Some (Inl (ParsingError err ''missing field `user`''))
           | Some u \<Rightarrow>
               (case read_user u of
                  Inl why \<Rightarrow> Some (Inl (ParsingError err why))
                | Inr user \<Rightarrow>
                    (case raw of
                       Some h \<Rightarrow>
                         if header_printable h then map_option (\<lambda>t. Inr (user, t)) (token_of_header h)
                         else Some (Inl (WithRequest Forbidden err))
                     | None \<Rightarrow> Some (Inl (WithRequest InvalidCredentials err)))))
      | Inl (WithRequest BadRequest e) \<Rightarrow> Some (Inl (WithRequest InvalidCredentials e))
      | Inl (WithRequest RequestFailed e) \<Rightarrow> Some (Inl (WithRequest InvalidCredentials e))
      | Inl e \<Rightarrow> Some (Inl e))"

definition signin ::
  "call_env \<Rightarrow> (string \<Rightarrow> string + json) \<Rightarrow> (json \<Rightarrow> string + 'u) \<Rightarrow> string option \<Rightarrow> string \<Rightarrow> string \<Rightarrow> string \<Rightarrow> market_client
    \<Rightarrow> ((call_error + 'u \<times> string) \<times> market_client \<times> call_effect list) option" where
  "signin env parse read_user raw username password device_id c =
     (case call_api env parse (signin_call username password device_id) c of
        None \<Rightarrow> None
      | Some (r, c1, fx) \<Rightarrow> map_option (\<lambda>x. (x, c1, fx)) (signin_result read_user raw r))"

definition authenticated :: "string \<Rightarrow> string \<Rightarrow> market_client \<Rightarrow> market_client" where
  "authenticated token device_id c = c\<lparr>mc_token := token, mc_device_id := device_id\<rparr>"

datatype tier = TierNone | Bronze | Silver | Gold | Diamond | Platinum

definition is_premium :: "tier \<Rightarrow> bool" where
  "is_premium t \<longleftrightarrow> t \<noteq> TierNone"

text \<open>
  \<open>refresh\<close>: the private profile, then the own orders, then the limits of a paying user; \<open>me\<close> and
  \<open>my_orders\<close> are the answers of the two calls, the user's subscription is read by \<open>tier_of\<close>.
\<close>

record 'u account_cache =
  ac_user :: "'u option"
  ac_orders :: route_cache
  ac_auction_limit :: nat

definition refresh ::
  "('u \<Rightarrow> tier option) \<Rightarrow> call_error + 'u \<Rightarrow> call_error + wfm_order list \<Rightarrow> 'u account_cache \<Rightarrow> (call_error + string) \<times> 'u account_cache" where
  "refresh tier_of me my_orders c =
     (case me of
        Inl e \<Rightarrow> (Inl e, c)
      | Inr user \<Rightarrow>
          (let c1 = c\<lparr>ac_user := Some user\<rparr> in
           case my_orders of
             Inl e \<Rightarrow> (Inl e, c1)
           | Inr os \<Rightarrow>
               (let c2 = c1\<lparr>ac_orders := snd (rc_my_orders (ac_orders c1) (Inr os))\<rparr> in
                case tier_of user of
                  None \<Rightarrow> (Inl (UnknownError ''User tier not found''), c2)
                | Some t \<Rightarrow>
                    (Inr ''Successfully refreshed user data'',
                     if is_premium t then c2\<lparr>ac_orders := rc_set_limit (ac_orders c2) 9999, ac_auction_limit := 9999\<rparr> else c2))))"

definition login_with_token_refused :: "string \<Rightarrow> string \<Rightarrow> call_error option" where
  "login_with_token_refused token device_id =
     (if token = [] \<or> device_id = [] then Some (UnknownError ''Token or device ID cannot be empty'') else None)"

definition get_user :: "'u account_cache \<Rightarrow> call_error + 'u" where
  "get_user c =
     (case ac_user c of
        Some u \<Rightarrow> Inr u
      | None \<Rightarrow> Inl (UnknownError ''User not found. Please call `me()` to fetch the user data.''))"

section \<open>The rate of a route\<close>

fun hourly_rate :: "rate_tier \<Rightarrow> nat" where
  "hourly_rate (PerSecond x) = 3600 * x"
| "hourly_rate (PerMinute x) = 60 * x"
| "hourly_rate (PerHour x) = x"

lemma lowered_positive: "1 \<le> current_limit t \<Longrightarrow> 1 \<le> current_limit (lowered t)"
  by (cases t) (auto simp: lowered_def)

lemma lowered_slower: "1 \<le> current_limit t \<Longrightarrow> t \<noteq> PerHour 1 \<Longrightarrow> hourly_rate (lowered t) < hourly_rate t"
  by (cases t) (auto simp: lowered_def)

lemma lowered_floor [simp]: "lowered (PerHour (Suc 0)) = PerHour (Suc 0)"
  by (simp add: lowered_def)

lemma ladder_positive: "1 \<le> current_limit ((lowered ^^ n) (PerSecond requests_per_second))"
  by (induction n) (simp_all add: requests_per_second_def lowered_positive[simplified])

lemma ladder_fixed: "(lowered ^^ n) (PerHour 1) = PerHour 1"
  by (induction n) simp_all

lemma ladder_minute: "k < x \<Longrightarrow> (lowered ^^ k) (PerMinute x) = PerMinute (x - k)"
  by (induction k) (auto simp: lowered_def)

lemma ladder_floor:
  assumes "54 \<le> n"
  shows "(lowered ^^ n) (PerSecond requests_per_second) = PerHour 1"
proof -
  have three: "(lowered ^^ 3) (PerSecond requests_per_second) = PerMinute 50"
    by (simp add: requests_per_second_def lowered_def eval_nat_numeral)
  have "(lowered ^^ 49) (PerMinute 50) = PerMinute 1" using ladder_minute[of 49 50] by simp
  moreover have "(lowered ^^ 2) (PerMinute 1) = PerHour 1" by (simp add: lowered_def eval_nat_numeral)
  ultimately have "(lowered ^^ (2 + (49 + 3))) (PerSecond requests_per_second) = PerHour 1"
    by (simp only: funpow_add comp_apply three)
  then have floor: "(lowered ^^ 54) (PerSecond requests_per_second) = PerHour 1" by simp
  have "n = (n - 54) + 54" using assms by simp
  then have "(lowered ^^ n) (PerSecond requests_per_second) = (lowered ^^ (n - 54)) ((lowered ^^ 54) (PerSecond requests_per_second))"
    by (metis funpow_add comp_apply)
  then show ?thesis by (simp only: floor ladder_fixed)
qed

definition route_tier :: "market_client \<Rightarrow> string \<Rightarrow> rate_tier" where
  "route_tier c key = fst (route_limit c key)"

definition routes_ok :: "market_client \<Rightarrow> bool" where
  "routes_ok c \<longleftrightarrow> (\<forall>k. 1 \<le> current_limit (route_tier c k))"

definition refused_by :: "call_env \<Rightarrow> bool" where
  "refused_by env \<longleftrightarrow> (case ce_gate env of Some (Some _) \<Rightarrow> True | _ \<Rightarrow> False)"

definition slowed :: "call_env \<Rightarrow> bool" where
  "slowed env \<longleftrightarrow> \<not> refused_by env
     \<and> (case ce_reply env of Reply status _ (Inr _) \<Rightarrow> status = 429 | _ \<Rightarrow> False)"

definition legal_call :: "market_client \<Rightarrow> call_env \<times> api_call \<Rightarrow> bool" where
  "legal_call c x \<longleftrightarrow> put_headers (fst x) (call_headers (fst x) c (snd x)) [] \<noteq> None"

lemma route_tier_simps [simp]:
  "route_tier (track_call k' c) k = route_tier c k"
  "route_tier (clear_wait_time k' c) k = route_tier c k"
  "route_tier (after_wait k' w c) k = route_tier c k"
  by (auto simp: route_tier_def route_limit_def track_call_def clear_wait_time_def after_wait_def update_conv' split: option.splits)

definition same_settings :: "market_client \<Rightarrow> market_client \<Rightarrow> bool" where
  "same_settings c d \<longleftrightarrow> mc_token d = mc_token c \<and> mc_device_id d = mc_device_id c \<and> mc_language d = mc_language c
     \<and> mc_platform d = mc_platform c \<and> mc_crossplay d = mc_crossplay c \<and> mc_limit d = mc_limit c"

lemma same_settings_headers: "same_settings c d \<Longrightarrow> call_headers env d a = call_headers env c a"
  by (auto simp: same_settings_def call_headers_def user_agent_text_def split: option.split)

lemma same_settings_intros:
  "same_settings c c" "same_settings c d \<Longrightarrow> same_settings d e \<Longrightarrow> same_settings c e"
  "same_settings c (c\<lparr>mc_routes := r\<rparr>)" "same_settings c (track_call k c)" "same_settings c (after_wait k w c)"
  by (auto simp: same_settings_def track_call_def after_wait_def clear_wait_time_def split: option.splits)

lemma read_reply_client:
  assumes "1 \<le> current_limit t"
  shows "\<exists>r fx. read_reply env parse a t e c status headers body =
     Some (r, if status = 429 \<and> \<not> isl body
              then c\<lparr>mc_routes := AList.update (ac_key a) \<lparr>rl_tier = lowered t, rl_wait = retry_after_of headers\<rparr> (mc_routes c)\<rparr>
              else c, fx)"
  using lowered_positive[OF assms]
  by (auto simp: read_reply_def Let_def set_rate_limit_for_route_def route_limiter_new_def build_limiter_def
      split: sum.split)

lemma send_call_client:
  assumes "1 \<le> current_limit t"
  shows "\<exists>r c1 fx. send_call env parse a t l e c = Some (r, c1, fx) \<and> same_settings c c1 \<and> mc_tracking c1 = mc_tracking c
     \<and> (\<forall>k. route_tier c1 k = (if slowed env \<and> k = ac_key a then lowered t else route_tier c k))"
proof (cases "refused_by env")
  case True
  then show ?thesis
    by (auto simp: send_call_def refused_by_def slowed_def Let_def same_settings_intros split: option.splits)
next
  case granted: False
  show ?thesis
  proof (cases "ce_reply env")
    case (NoReply w x y z)
    then show ?thesis using granted
      by (auto simp: send_call_def refused_by_def slowed_def Let_def same_settings_intros split: option.splits)
  next
    case (Reply status headers body)
    let ?e = "e\<lparr>re_duration_ms := Some (ce_duration env), re_status_code := status\<rparr>"
    let ?c1 = "if status = 429 \<and> \<not> isl body
      then c\<lparr>mc_routes := AList.update (ac_key a) \<lparr>rl_tier = lowered t, rl_wait = retry_after_of headers\<rparr> (mc_routes c)\<rparr> else c"
    obtain r fx where r: "read_reply env parse a t ?e c status headers body = Some (r, ?c1, fx)"
      using read_reply_client[OF assms] by blast
    have tier: "route_tier ?c1 k = (if slowed env \<and> k = ac_key a then lowered t else route_tier c k)" for k
      using granted Reply
      by (cases body) (auto simp: slowed_def route_tier_def route_limit_def update_conv' split: option.splits)
    have "same_settings c ?c1" "mc_tracking ?c1 = mc_tracking c" by (simp_all add: same_settings_intros)
    moreover have "\<exists>fx'. send_call env parse a t l e c = Some (r, ?c1, fx')"
      using granted Reply r by (auto simp: send_call_def refused_by_def Let_def split: option.splits)
    ultimately show ?thesis using tier by blast
  qed
qed

lemma call_api_client:
  assumes "routes_ok c" "legal_call c (env, a)"
  shows "\<exists>r c1 fx. call_api env parse a c = Some (r, c1, fx) \<and> same_settings c c1
     \<and> mc_tracking c1 = mc_tracking (track_call (ac_key a) c)
     \<and> (\<forall>k. route_tier c1 k = (if slowed env \<and> k = ac_key a then lowered (route_tier c k) else route_tier c k))"
proof -
  let ?c1 = "track_call (ac_key a) c"
  obtain t l w where rl: "route_limit ?c1 (ac_key a) = (t, l, w)" by (metis prod_cases3)
  have t: "t = route_tier c (ac_key a)" using rl route_tier_simps(1)[of "ac_key a" c "ac_key a"] by (simp add: route_tier_def)
  have pos: "1 \<le> current_limit t" using assms(1) t by (simp add: routes_ok_def)
  have settings: "same_settings c ?c1" by (rule same_settings_intros)
  obtain hs where hs: "put_headers env (call_headers env ?c1 a) [] = Some hs"
    using assms(2) same_settings_headers[OF settings] by (auto simp: legal_call_def)
  let ?e = "request_error_new (ac_version a) (ac_method a) (api_url (ac_version a) @ ac_path a) (ac_body a)"
  obtain r c2 fx where s: "send_call env parse a t l (?e\<lparr>re_headers := hs\<rparr>) (after_wait (ac_key a) w ?c1) = Some (r, c2, fx)"
    "same_settings (after_wait (ac_key a) w ?c1) c2" "mc_tracking c2 = mc_tracking (after_wait (ac_key a) w ?c1)"
    "\<forall>k. route_tier c2 k = (if slowed env \<and> k = ac_key a then lowered t else route_tier (after_wait (ac_key a) w ?c1) k)"
    using send_call_client[OF pos] by blast
  have "call_api env parse a c = Some (r, c2, (if 0 < w then [SleptFor w] else []) @ fx)"
    by (simp add: call_api_def Let_def rl hs s(1))
  moreover have "same_settings c c2"
    using settings s(2) same_settings_intros(2,5) by blast
  moreover have "mc_tracking (after_wait (ac_key a) w ?c1) = mc_tracking ?c1"
    by (simp add: after_wait_def clear_wait_time_def split: option.splits)
  ultimately show ?thesis using s(3,4) t by auto
qed

fun run_calls :: "(string \<Rightarrow> string + 't) \<Rightarrow> (call_env \<times> api_call) list \<Rightarrow> market_client \<Rightarrow> market_client option" where
  "run_calls parse [] c = Some c"
| "run_calls parse ((env, a) # cs) c =
     (case call_api env parse a c of Some (_, c1, _) \<Rightarrow> run_calls parse cs c1 | None \<Rightarrow> None)"

definition slowed_calls :: "string \<Rightarrow> (call_env \<times> api_call) list \<Rightarrow> nat" where
  "slowed_calls key cs = length (filter (\<lambda>(env, a). slowed env \<and> ac_key a = key) cs)"

lemma run_calls_tiers:
  assumes "routes_ok c" "\<forall>x\<in>set cs. legal_call c x"
  shows "\<exists>d. run_calls parse cs c = Some d \<and> (\<forall>k. route_tier d k = (lowered ^^ slowed_calls k cs) (route_tier c k))
     \<and> (\<forall>k. (case map_of (mc_tracking d) k of Some n \<Rightarrow> n | None \<Rightarrow> 0)
          = (case map_of (mc_tracking c) k of Some n \<Rightarrow> n | None \<Rightarrow> 0) + length (filter (\<lambda>x. ac_key (snd x) = k) cs))"
  using assms
proof (induction cs arbitrary: c)
  case (Cons x cs)
  obtain env a where x: "x = (env, a)" by force
  obtain r c1 fx where c1: "call_api env parse a c = Some (r, c1, fx)" "same_settings c c1"
    "mc_tracking c1 = mc_tracking (track_call (ac_key a) c)"
    "\<And>k. route_tier c1 k = (if slowed env \<and> k = ac_key a then lowered (route_tier c k) else route_tier c k)"
    using call_api_client[OF Cons.prems(1)] Cons.prems(2) x by (metis list.set_intros(1))
  have ok: "routes_ok c1" using Cons.prems(1) c1(4) lowered_positive by (simp add: routes_ok_def)
  have legal: "\<forall>y\<in>set cs. legal_call c1 y"
    using Cons.prems(2) same_settings_headers[OF c1(2)] by (auto simp: legal_call_def)
  obtain d where d: "run_calls parse cs c1 = Some d" "\<And>k. route_tier d k = (lowered ^^ slowed_calls k cs) (route_tier c1 k)"
    "\<And>k. (case map_of (mc_tracking d) k of Some n \<Rightarrow> n | None \<Rightarrow> 0)
       = (case map_of (mc_tracking c1) k of Some n \<Rightarrow> n | None \<Rightarrow> 0) + length (filter (\<lambda>x. ac_key (snd x) = k) cs)"
    using Cons.IH[OF ok legal] by blast
  have tier: "route_tier d k = (lowered ^^ slowed_calls k (x # cs)) (route_tier c k)" for k
    by (simp add: d(2) c1(4) slowed_calls_def x funpow_swap1)
  have count: "(case map_of (mc_tracking d) k of Some n \<Rightarrow> n | None \<Rightarrow> 0)
       = (case map_of (mc_tracking c) k of Some n \<Rightarrow> n | None \<Rightarrow> 0) + length (filter (\<lambda>x. ac_key (snd x) = k) (x # cs))" for k
    by (simp add: d(3) c1(3) x track_call_def update_conv' split: option.split)
  show ?case using c1(1) d(1) tier count by (simp add: x)
qed (simp add: slowed_calls_def)


definition demo_call :: api_call where
  "demo_call = \<lparr>ac_version = ApiV2, ac_method = ''GET'', ac_path = ''/me'', ac_key = ''GET:user:me'', ac_body = None, ac_headers = None\<rparr>"

definition demo_call_env :: "api_reply \<Rightarrow> call_env" where
  "demo_call_env reply =
     \<lparr>ce_parse_json = (\<lambda>_. Inl ''no''), ce_parse_error = (\<lambda>_. Inl ''no''), ce_show_value = (\<lambda>_. []), ce_show_status = show_nat,
      ce_name_ok = (\<lambda>_. True), ce_value_ok = (\<lambda>_. True), ce_user_agent = None, ce_gate = Some None, ce_reply = reply,
      ce_duration = 5\<rparr>"

lemma put_headers_total: "(\<And>s. ce_name_ok env s) \<Longrightarrow> (\<And>s. ce_value_ok env s) \<Longrightarrow> put_headers env hs h \<noteq> None"
  by (induction hs arbitrary: h) auto


text \<open>
  Refusals that overlap do not add up. The limit is read before the request and written after
  its answer, so a late refusal puts back a limit that others have lowered in between: here a route at
  one request per second is raised to two by a further refusal.
\<close>

theorem late_refusal_raises_the_limit:
  assumes "route_tier c (ac_key a) = PerSecond 1" "\<not> refused_by env" "ce_reply env = Reply 429 headers (Inr text)"
  shows "\<exists>r c1 fx. send_call env parse a (PerSecond 3) l e c = Some (r, c1, fx) \<and> route_tier c1 (ac_key a) = PerSecond 2
     \<and> hourly_rate (route_tier c (ac_key a)) < hourly_rate (route_tier c1 (ac_key a))"
proof -
  have "slowed env" using assms(2,3) by (simp add: slowed_def)
  then show ?thesis using send_call_client[of "PerSecond 3" env parse a l e c] assms(1) by (auto simp: lowered_def)
qed

text \<open>
  The first refusal of a route counts from three requests per second, whatever limit the client was given:
  a client limited to one request per second gets two per second for the refused route.
\<close>

theorem first_refusal_ignores_the_clients_limit:
  assumes "legal_call (client_new\<lparr>mc_limit := 1\<rparr>) (env, a)" "slowed env"
  shows "\<exists>r c1 fx. call_api env parse a (client_new\<lparr>mc_limit := 1\<rparr>) = Some (r, c1, fx)
     \<and> fst (snd (route_limit (client_new\<lparr>mc_limit := 1\<rparr>) (ac_key a))) = PerSecond 1 \<and> route_tier c1 (ac_key a) = PerSecond 2"
proof -
  have tier: "route_tier (client_new\<lparr>mc_limit := 1\<rparr>) k = PerSecond 3" for k
    by (simp add: route_tier_def route_limit_def client_new_def requests_per_second_def)
  have "routes_ok (client_new\<lparr>mc_limit := 1\<rparr>)" by (simp add: routes_ok_def tier[simplified])
  then show ?thesis using call_api_client[OF _ assms(1), of parse] assms(2) tier
    by (fastforce simp: lowered_def route_limit_def client_new_def)
qed

section \<open>What a call tells\<close>

definition emitted :: "call_effect list \<Rightarrow> request_error list" where
  "emitted fx = List.map_filter (\<lambda>x. case x of EmitError e \<Rightarrow> Some e | _ \<Rightarrow> None) fx"

definition sent_requests :: "call_effect list \<Rightarrow> nat" where
  "sent_requests fx = length (filter (\<lambda>x. case x of SentRequest _ _ _ _ \<Rightarrow> True | _ \<Rightarrow> False) fx)"

definition gate_reports :: "call_effect list \<Rightarrow> nat" where
  "gate_reports fx = length (filter (\<lambda>x. case x of GateResponse _ _ \<Rightarrow> True | GateTransportError \<Rightarrow> True | _ \<Rightarrow> False) fx)"

definition succeeds :: "call_env \<Rightarrow> (string \<Rightarrow> string + 't) \<Rightarrow> 't option" where
  "succeeds env parse =
     (case ce_reply env of
        Reply status _ (Inr text) \<Rightarrow>
          if status \<in> {200, 201} \<and> \<not> refused_by env then (case parse text of Inr v \<Rightarrow> Some v | Inl _ \<Rightarrow> None) else None
      | _ \<Rightarrow> None)"

definition carries :: "call_error \<Rightarrow> request_error \<Rightarrow> bool" where
  "carries err e \<longleftrightarrow> (case err of WithRequest _ e' \<Rightarrow> e' = e | ParsingError e' _ \<Rightarrow> e' = e | _ \<Rightarrow> True)"

lemmas effect_defs = emitted_def sent_requests_def gate_reports_def List.map_filter_simps

lemma read_reply_effects:
  assumes "read_reply env parse a t e c status headers body = Some (r, c1, fx)"
  shows "sent_requests fx = 0 \<and> gate_reports fx = 0
     \<and> (case r of Inr (v, h, _) \<Rightarrow> emitted fx = [] \<and> h = headers \<and> (\<exists>text. body = Inr text \<and> status \<in> {200, 201} \<and> parse text = Inr v)
              | Inl err \<Rightarrow> (\<exists>e1. emitted fx = [e1] \<and> carries err e1)
                        \<and> \<not> (\<exists>text v. body = Inr text \<and> status \<in> {200, 201} \<and> parse text = Inr v))"
  using assms
  by (auto simp: read_reply_def Let_def effect_defs carries_def split: sum.splits if_splits)

lemma counts_append:
  "sent_requests (f @ g) = sent_requests f + sent_requests g"
  "gate_reports (f @ g) = gate_reports f + gate_reports g"
  "emitted (f @ g) = emitted f @ emitted g"
  by (simp_all add: effect_defs List.map_filter_def)

lemma send_call_effects:
  assumes "send_call env parse a t l e c = Some (r, c1, fx)"
  shows "sent_requests fx = of_bool (\<not> refused_by env) \<and> gate_reports fx = of_bool (\<not> refused_by env \<and> ce_gate env \<noteq> None)
     \<and> (case r of Inr (v, h, _) \<Rightarrow> emitted fx = [] \<and> succeeds env parse = Some v
              | Inl err \<Rightarrow> (\<exists>e1. emitted fx = [e1] \<and> carries err e1) \<and> succeeds env parse = None)"
proof (cases "refused_by env")
  case True
  then show ?thesis using assms
    by (auto simp: send_call_def refused_by_def succeeds_def Let_def effect_defs carries_def split: option.splits api_reply.splits sum.splits)
next
  case granted: False
  show ?thesis
  proof (cases "ce_reply env")
    case (NoReply w x y z)
    then show ?thesis using assms granted
      by (auto simp: send_call_def refused_by_def succeeds_def Let_def effect_defs carries_def split: option.splits)
  next
    case (Reply status headers body)
    obtain fx0 where rr: "read_reply env parse a t (e\<lparr>re_duration_ms := Some (ce_duration env), re_status_code := status\<rparr>) c status headers body
        = Some (r, c1, fx0)"
      and fx: "sent_requests fx = 1 + sent_requests fx0" "gate_reports fx = of_bool (ce_gate env \<noteq> None) + gate_reports fx0" "emitted fx = emitted fx0"
      using assms granted Reply
      by (auto simp: send_call_def refused_by_def Let_def effect_defs split: option.splits)
    show ?thesis
      using read_reply_effects[OF rr] granted Reply fx
      by (cases r) (auto simp: succeeds_def split: sum.splits)
  qed
qed

text \<open>
  C37. Every call is accounted for: a request is sent unless the gate refuses it, and with a gate installed each sent
  request is reported to it exactly once, a refused one never, which is what the breaker's single probe relies on;
  the call succeeds exactly if the answer is a 200 or 201 whose body reads as the value; a success announces no
  error, a failure announces exactly one, the record that the returned error carries.
\<close>

theorem every_call_is_accounted:
  assumes "call_api env parse a c = Some (r, c1, fx)"
  shows "sent_requests fx = of_bool (\<not> refused_by env)
     \<and> (ce_gate env \<noteq> None \<longrightarrow> gate_reports fx = sent_requests fx) \<and> (ce_gate env = None \<longrightarrow> gate_reports fx = 0)
     \<and> (\<forall>v. (\<exists>h e. r = Inr (v, h, e)) \<longleftrightarrow> succeeds env parse = Some v)
     \<and> (\<forall>v h e. r = Inr (v, h, e) \<longrightarrow> emitted fx = [])
     \<and> (\<forall>err. r = Inl err \<longrightarrow> (\<exists>e. emitted fx = [e] \<and> carries err e))"
proof -
  obtain t l w hs fx0 where s: "send_call env parse a t l
      (request_error_new (ac_version a) (ac_method a) (api_url (ac_version a) @ ac_path a) (ac_body a)\<lparr>re_headers := hs\<rparr>)
      (after_wait (ac_key a) w (track_call (ac_key a) c)) = Some (r, c1, fx0)"
    and fx: "fx = (if 0 < w then [SleptFor w] else []) @ fx0"
    using assms by (auto simp: call_api_def Let_def split: prod.splits option.splits)
  have pre: "sent_requests fx = sent_requests fx0" "gate_reports fx = gate_reports fx0" "emitted fx = emitted fx0"
    by (simp_all add: fx effect_defs)
  show ?thesis
    using send_call_effects[OF s] pre by (cases r) (auto split: prod.splits)
qed

theorem every_call_is_accounted_witness:
  "\<exists>r c1 fx. call_api (demo_call_env (NoReply ''refused'' False True None)) (\<lambda>_. Inr ()) demo_call client_new = Some (r, c1, fx)
     \<and> gate_reports fx = 1 \<and> (\<exists>e. emitted fx = [e])"
proof -
  let ?env = "demo_call_env (NoReply ''refused'' False True None)"
  have "routes_ok client_new"
    by (simp add: routes_ok_def route_tier_def route_limit_def client_new_def requests_per_second_def)
  moreover have "legal_call client_new (?env, demo_call)" by (simp add: legal_call_def put_headers_total demo_call_env_def)
  ultimately obtain r c1 fx where c: "call_api ?env (\<lambda>_. Inr ()) demo_call client_new = Some (r, c1, fx)"
    using call_api_client by blast
  have "\<not> refused_by ?env" "ce_gate ?env \<noteq> None" "succeeds ?env (\<lambda>_. Inr ()) = None"
    by (simp_all add: demo_call_env_def refused_by_def succeeds_def)
  moreover obtain err where "r = Inl err"
    using every_call_is_accounted[OF c] calculation(3) by (cases r) fastforce+
  ultimately show ?thesis using every_call_is_accounted[OF c] c by auto
qed

section \<open>The token stays secret\<close>

text \<open>Two header maps that agree on everything but the value of \<open>authorization\<close>.\<close>

definition same_but_token :: "(string \<times> string) list \<Rightarrow> (string \<times> string) list \<Rightarrow> bool" where
  "same_but_token = list_all2 (\<lambda>x y. fst x = fst y \<and> (fst x \<noteq> ''authorization'' \<longrightarrow> snd x = snd y))"

lemma same_but_token_refl: "same_but_token h h"
  by (simp add: same_but_token_def list_all2_refl)

lemma same_but_token_update:
  "same_but_token h h' \<Longrightarrow> k \<noteq> ''authorization'' \<longrightarrow> v = v' \<Longrightarrow> same_but_token (AList.update k v h) (AList.update k v' h')"
  unfolding same_but_token_def by (induction h h' rule: list_all2_induct) auto

lemma put_headers_same:
  "same_but_token h h' \<Longrightarrow> rel_option same_but_token (put_headers env hs h) (put_headers env hs h')"
  by (induction hs arbitrary: h h') (auto simp: same_but_token_update)

lemma put_headers_append:
  "put_headers env (xs @ ys) h = Option.bind (put_headers env xs h) (put_headers env ys)"
  by (induction xs arbitrary: h) auto

lemma lower_authorization: "to_ascii_lowercase ''authorization'' = ''authorization''"
  by (simp add: to_ascii_lowercase_def ascii_lower_def)

lemma call_headers_same:
  assumes "t1 \<noteq> []" "t2 \<noteq> []"
    and "ce_value_ok env (auth_prefix (ac_version a) @ '' '' @ t1) = ce_value_ok env (auth_prefix (ac_version a) @ '' '' @ t2)"
  shows "rel_option same_but_token (put_headers env (call_headers env (c\<lparr>mc_token := t1\<rparr>) a) [])
                                   (put_headers env (call_headers env (c\<lparr>mc_token := t2\<rparr>) a) [])"
proof -
  let ?pre = "[(''language'', language_str (mc_language c)), (''platform'', platform_str (mc_platform c)),
      (''crossplay'', if mc_crossplay c then ''true'' else ''false''), (''User-Agent'', user_agent_text env c)]"
  let ?post = "case ac_headers a of Some hs \<Rightarrow> hs | None \<Rightarrow> []"
  have eq: "call_headers env (c\<lparr>mc_token := t\<rparr>) a = ?pre @ (''authorization'', auth_prefix (ac_version a) @ '' '' @ t) # ?post"
    if "t \<noteq> []" for t
    using that by (auto simp: call_headers_def user_agent_text_def split: option.split)
  have step: "rel_option same_but_token
      (put_headers env ((''authorization'', auth_prefix (ac_version a) @ '' '' @ t1) # ?post) h)
      (put_headers env ((''authorization'', auth_prefix (ac_version a) @ '' '' @ t2) # ?post) h)" for h
    using assms(3) by (simp add: put_headers_same same_but_token_update same_but_token_refl lower_authorization)
  show ?thesis
    unfolding eq[OF assms(1)] eq[OF assms(2)] put_headers_append[of env ?pre]
    by (cases "put_headers env ?pre []") (use step in \<open>simp_all del: put_headers.simps\<close>)
qed

text \<open>The headers of a request only pass through: they are in the errors, and nowhere else in what is decided.\<close>

definition with_headers :: "(string \<times> string) list \<Rightarrow> request_error \<Rightarrow> request_error" where
  "with_headers hs e = e\<lparr>re_headers := hs\<rparr>"

fun error_with_headers :: "(string \<times> string) list \<Rightarrow> call_error \<Rightarrow> call_error" where
  "error_with_headers hs (WithRequest k e) = WithRequest k (with_headers hs e)"
| "error_with_headers hs (ParsingError e p) = ParsingError (with_headers hs e) p"
| "error_with_headers hs e = e"

fun effect_with_headers :: "(string \<times> string) list \<Rightarrow> call_effect \<Rightarrow> call_effect" where
  "effect_with_headers hs (EmitError e) = EmitError (with_headers hs e)"
| "effect_with_headers hs (SentRequest m u b _) = SentRequest m u b hs"
| "effect_with_headers hs x = x"

definition result_with_headers ::
  "(string \<times> string) list \<Rightarrow> call_error + 't \<times> header_map \<times> request_error \<Rightarrow> call_error + 't \<times> header_map \<times> request_error" where
  "result_with_headers hs r =
     (case r of Inl e \<Rightarrow> Inl (error_with_headers hs e) | Inr (v, h, e) \<Rightarrow> Inr (v, h, with_headers hs e))"

lemma read_reply_headers:
  "read_reply env parse a t (with_headers hs e) c status headers body =
     map_option (\<lambda>(r, c1, fx). (result_with_headers hs r, c1, map (effect_with_headers hs) fx))
       (read_reply env parse a t e c status headers body)"
  by (auto simp: read_reply_def Let_def result_with_headers_def with_headers_def option.map_comp comp_def split: sum.split option.split
      intro!: option.map_cong)

lemma send_call_headers:
  "send_call env parse a t l (with_headers hs e) c =
     map_option (\<lambda>(r, c1, fx). (result_with_headers hs r, c1, map (effect_with_headers hs) fx)) (send_call env parse a t l e c)"
proof -
  have up: "e\<lparr>re_headers := hs, re_duration_ms := d, re_status_code := status\<rparr>
      = with_headers hs (e\<lparr>re_duration_ms := d, re_status_code := status\<rparr>)" for status d
    by (cases e) (simp add: with_headers_def)
  have rr: "read_reply env parse a t (e\<lparr>re_headers := hs, re_duration_ms := d, re_status_code := status\<rparr>) c status headers body =
     map_option (\<lambda>(r, c1, fx). (result_with_headers hs r, c1, map (effect_with_headers hs) fx))
       (read_reply env parse a t (e\<lparr>re_duration_ms := d, re_status_code := status\<rparr>) c status headers body)" for status headers body d
    unfolding up by (rule read_reply_headers)
  show ?thesis
    by (auto simp: send_call_def Let_def with_headers_def rr result_with_headers_def option.map_comp comp_def
        split: api_reply.split option.split intro!: option.map_cong)
qed

lemma mask_header_same:
  "same_but_token h h' \<Longrightarrow> map (mask_header sensitive_fields) h = map (mask_header sensitive_fields) h'"
proof -
  have mask: "mask_header sensitive_fields x = mask_header sensitive_fields y"
    if "fst x = fst y \<and> (fst x \<noteq> ''authorization'' \<longrightarrow> snd x = snd y)" for x y
  proof (cases "fst x = ''authorization''")
    case True
    have "str_contains ''authorization'' ''authorization''"
      unfolding str_contains_iff by (rule exI[of _ "[]"], rule exI[of _ "[]"]) simp
    then show ?thesis using True that by (simp add: mask_header_def sensitive_fields_def lower_authorization)
  next
    case False
    then show ?thesis using that by (simp add: mask_header_def)
  qed
  show "same_but_token h h' \<Longrightarrow> map (mask_header sensitive_fields) h = map (mask_header sensitive_fields) h'"
    unfolding same_but_token_def by (induction h h' rule: list_all2_induct) (simp_all add: mask)
qed

lemma mask_texts_same:
  "same_but_token h h' \<Longrightarrow> wfm_mask_fields sensitive_fields (map (\<lambda>(k, v). (k, JStr v)) h)
     = wfm_mask_fields sensitive_fields (map (\<lambda>(k, v). (k, JStr v)) h')"
  unfolding same_but_token_def
  by (induction h h' rule: list_all2_induct) (auto simp: sensitive_fields_def)

lemma wfm_mask_append: "wfm_mask_fields ps (xs @ ys) = wfm_mask_fields ps xs @ wfm_mask_fields ps ys"
  by (induction ps xs rule: wfm_mask_fields.induct) auto

lemma masked_errors_same:
  assumes "same_but_token h h'"
  shows "request_error_mask sensitive_fields (with_headers h e) = request_error_mask sensitive_fields (with_headers h' e)"
    and "api_error_log (with_headers h e) = api_error_log (with_headers h' e)"
    and "call_error_mask sensitive_fields (error_with_headers h err) = call_error_mask sensitive_fields (error_with_headers h' err)"
proof -
  show req: "request_error_mask sensitive_fields (with_headers h e) = request_error_mask sensitive_fields (with_headers h' e)" for e
    using mask_header_same[OF assms] by (simp add: request_error_mask_def with_headers_def)
  let ?pre = "[(''status_code'', JInt (int (re_status_code e))), (''version'', api_version_json (re_version e)),
      (''method'', JStr (re_method e)), (''url'', JStr (re_url e)), (''payload'', json_maybe (\<lambda>j. j) (re_payload e))]"
  let ?post = "[(''content'', JStr (re_content e)), (''retry_after'', json_maybe (\<lambda>n. JInt (int n)) (re_retry_after e)),
      (''wfm_error'', json_maybe response_error_json (re_wfm_error e)),
      (''duration_ms'', json_maybe (\<lambda>n. JInt (int n)) (re_duration_ms e))]"
  have split: "request_error_fields (with_headers hs e) = ?pre @ (''headers'', json_texts hs) # ?post" for hs
    by (simp add: request_error_fields_def with_headers_def)
  show "api_error_log (with_headers h e) = api_error_log (with_headers h' e)"
    unfolding api_error_log_def split wfm_mask_append using mask_texts_same[OF assms] by (simp add: json_texts_def)
  show "call_error_mask sensitive_fields (error_with_headers h err) = call_error_mask sensitive_fields (error_with_headers h' err)"
    by (cases err) (simp_all add: req)
qed

lemma emitted_headers: "emitted (map (effect_with_headers hs) fx) = map (with_headers hs) (emitted fx)"
proof (induction fx)
  case (Cons x fx)
  then show ?case by (cases x) (simp_all add: emitted_def List.map_filter_simps)
qed (simp add: emitted_def List.map_filter_simps)

text \<open>What others see of a call: the value or the masked error, the logged files, the masked records.\<close>

definition observed ::
  "(call_error + 't \<times> header_map \<times> request_error) \<times> market_client \<times> call_effect list
    \<Rightarrow> (call_error + 't \<times> header_map) \<times> json list \<times> request_error list" where
  "observed x = (case x of (r, _, fx) \<Rightarrow>
     (case r of Inl e \<Rightarrow> Inl (call_error_mask sensitive_fields e) | Inr (v, h, _) \<Rightarrow> Inr (v, h),
      map api_error_log (emitted fx), map (request_error_mask sensitive_fields) (emitted fx)))"

lemma observed_same:
  assumes "same_but_token h h'"
  shows "observed (result_with_headers h r, c, map (effect_with_headers h) fx)
       = observed (result_with_headers h' r, c', map (effect_with_headers h') fx)"
  using masked_errors_same[OF assms]
  by (auto simp: observed_def result_with_headers_def emitted_headers split: sum.split)

lemma send_call_token:
  "map_option (\<lambda>(r, _, fx). (r, fx)) (send_call env parse a t l e (after_wait k w (track_call k (c\<lparr>mc_token := t1\<rparr>))))
   = map_option (\<lambda>(r, _, fx). (r, fx)) (send_call env parse a t l e (after_wait k w (track_call k (c\<lparr>mc_token := t2\<rparr>))))"
  by (auto simp: send_call_def read_reply_def Let_def set_rate_limit_for_route_def option.map_comp comp_def route_limiter_new_def
      split: api_reply.split option.split sum.split intro!: option.map_cong)

text \<open>
  C38. The session token never leaves in an error: for two tokens, what a call shows, that is its value or its masked
  error, the file of each announced error and the masked record of each, is the same, whatever
  the marketplace answers. The server's own error is built from the masked error only.
\<close>

theorem token_stays_secret:
  assumes "t1 \<noteq> []" "t2 \<noteq> []"
    and "ce_value_ok env (auth_prefix (ac_version a) @ '' '' @ t1)" "ce_value_ok env (auth_prefix (ac_version a) @ '' '' @ t2)"
  shows "map_option observed (call_api env parse a (c\<lparr>mc_token := t1\<rparr>))
       = map_option observed (call_api env parse a (c\<lparr>mc_token := t2\<rparr>))"
proof -
  let ?c = "\<lambda>t. track_call (ac_key a) (c\<lparr>mc_token := t\<rparr>)"
  let ?e = "request_error_new (ac_version a) (ac_method a) (api_url (ac_version a) @ ac_path a) (ac_body a)"
  let ?d = "track_call (ac_key a) c"
  have c: "?c t = ?d\<lparr>mc_token := t\<rparr>" for t by (simp add: track_call_def)
  have limit: "route_limit (?c t) (ac_key a) = route_limit ?d (ac_key a)" for t
    by (simp add: c route_limit_def split: option.split)
  obtain t l w where rl: "route_limit ?d (ac_key a) = (t, l, w)" by (metis prod_cases3)
  let ?send = "\<lambda>tok. send_call env parse a t l ?e (after_wait (ac_key a) w (?c tok))"
  have out: "map_option observed (call_api env parse a (c\<lparr>mc_token := tok\<rparr>)) =
      Option.bind (put_headers env (call_headers env (?d\<lparr>mc_token := tok\<rparr>) a) [])
        (\<lambda>hs. map_option (\<lambda>(r, fx). observed (result_with_headers hs r, c, map (effect_with_headers hs) fx))
                (map_option (\<lambda>(r, _, fx). (r, fx)) (?send tok)))" for tok
  proof -
    have fx: "emitted ((if 0 < w then [SleptFor w] else []) @ fx) = emitted fx" for fx
      by (simp add: emitted_def List.map_filter_simps)
    have hd: "?e\<lparr>re_headers := hs\<rparr> = with_headers hs ?e" for hs by (simp add: with_headers_def)
    show ?thesis
      unfolding call_api_def Let_def limit rl hd prod.case c[of tok, symmetric] send_call_headers
      by (cases "put_headers env (call_headers env (?c tok) a) []"; cases "?send tok")
        (auto simp: observed_def counts_append emitted_def List.map_filter_simps)
  qed
  have same: "rel_option same_but_token (put_headers env (call_headers env (?d\<lparr>mc_token := t1\<rparr>) a) [])
                                        (put_headers env (call_headers env (?d\<lparr>mc_token := t2\<rparr>) a) [])"
    using call_headers_same[OF assms(1,2), of env a ?d] assms(3,4) by simp
  have send: "map_option (\<lambda>(r, _, fx). (r, fx)) (?send t1) = map_option (\<lambda>(r, _, fx). (r, fx)) (?send t2)"
    by (rule send_call_token)
  show ?thesis
  proof (cases "put_headers env (call_headers env (?d\<lparr>mc_token := t1\<rparr>) a) []")
    case None
    then show ?thesis using same by (simp add: out)
  next
    case (Some h)
    then obtain h' where h': "put_headers env (call_headers env (?d\<lparr>mc_token := t2\<rparr>) a) [] = Some h'" "same_but_token h h'"
      using same by (cases "put_headers env (call_headers env (?d\<lparr>mc_token := t2\<rparr>) a) []") auto
    show ?thesis
      unfolding out Some h'(1) Option.bind.simps send
      by (rule option.map_cong0) (auto simp: observed_same[OF h'(2), of _ c _ c])
  qed
qed

theorem token_stays_secret_witness:
  "map_option observed (call_api (demo_call_env (Reply 401 Map.empty (Inr []))) (\<lambda>_. Inr ()) demo_call (client_new\<lparr>mc_token := ''secret''\<rparr>))
   = map_option observed (call_api (demo_call_env (Reply 401 Map.empty (Inr []))) (\<lambda>_. Inr ()) demo_call (client_new\<lparr>mc_token := ''other''\<rparr>))"
  by (rule token_stays_secret) (simp_all add: demo_call_env_def)

section \<open>Sign-in\<close>

text \<open>
  A sign-in that the gate refused, or that got no answer, is reported as wrong credentials, although none were checked.
\<close>

theorem unsent_signin_blames_the_credentials:
  assumes "routes_ok c" "legal_call c (env, signin_call username password device_id)"
    and "refused_by env \<or> (\<exists>why timeout connect status. ce_reply env = NoReply why timeout connect status)"
  shows "\<exists>e c1 fx. signin env parse read_user raw username password device_id c = Some (Inl (WithRequest InvalidCredentials e), c1, fx)"
proof -
  let ?a = "signin_call username password device_id"
  obtain r c1 fx where call: "call_api env parse ?a c = Some (r, c1, fx)"
    using call_api_client[OF assms(1,2)] by blast
  obtain t l w hs fx0 where s: "send_call env parse ?a t l
      (request_error_new (ac_version ?a) (ac_method ?a) (api_url (ac_version ?a) @ ac_path ?a) (ac_body ?a)\<lparr>re_headers := hs\<rparr>)
      (after_wait (ac_key ?a) w (track_call (ac_key ?a) c)) = Some (r, c1, fx0)"
    using call by (auto simp: call_api_def Let_def split: prod.splits option.splits)
  have "\<exists>e. r = Inl (WithRequest RequestFailed e)"
    using s assms(3) by (auto simp: send_call_def refused_by_def Let_def split: option.splits api_reply.splits)
  then show ?thesis using call by (auto simp: signin_def signin_result_def)
qed

theorem unsent_signin_blames_the_credentials_witness:
  "\<exists>e c1 fx. signin (demo_call_env (NoReply ''refused'' False True None)) (\<lambda>_. Inr JNull) (\<lambda>_. Inr ()) None ''a'' ''b'' ''c'' client_new
     = Some (Inl (WithRequest InvalidCredentials e), c1, fx)"
proof (rule unsent_signin_blames_the_credentials)
  show "routes_ok client_new"
    by (simp add: routes_ok_def route_tier_def route_limit_def client_new_def requests_per_second_def)
  show "legal_call client_new (demo_call_env (NoReply ''refused'' False True None), signin_call ''a'' ''b'' ''c'')"
    by (simp add: legal_call_def put_headers_total demo_call_env_def)
  have "ce_reply (demo_call_env (NoReply ''refused'' False True None)) = NoReply ''refused'' False True None"
    by (simp add: demo_call_env_def)
  then show "refused_by (demo_call_env (NoReply ''refused'' False True None))
    \<or> (\<exists>why timeout connect status. ce_reply (demo_call_env (NoReply ''refused'' False True None)) = NoReply why timeout connect status)"
    by blast
qed

text \<open>A token header shorter than its prefix panics; a printable longer one is read without it.\<close>

lemma token_header_cases:
  assumes "get_path payload [''user''] = Some u" "read_user u = Inr user" "header_printable h"
  shows "length h < 4 \<Longrightarrow> signin_result read_user (Some h) (Inr (payload, headers, err)) = None"
    and "h = ''JWT '' @ t \<Longrightarrow> signin_result read_user (Some h) (Inr (payload, headers, err)) = Some (Inr (user, t))"
  using assms by (auto simp: signin_result_def token_of_header_def)

lemma refresh_keeps_the_user_of_a_failed_refresh:
  "refresh tier_of (Inr user) (Inl e) c = (Inl e, c\<lparr>ac_user := Some user\<rparr>)"
  by (simp add: refresh_def)

end
