(* ===== verification/Housekeeping.thy ===== *)
theory Housekeeping
  imports Trade_Pipeline "HOL-Library.AList"
begin

text \<open>
  Maintenance that runs without the collector (\<open>qf_core/src/housekeeping/\<close>): the tick with its gates, and the daily
  backup of the database with its verification and retention. A date is its number of days since the first of January
  1970, a Thursday; how a date is printed and read is a parameter, as is what the file system and SQLite
  answer. The backup directory is an association list from names to contents; error texts name files by their name in it.
\<close>

section \<open>Which backups are kept\<close>

definition backup_prefix :: string where "backup_prefix = ''quantframe-''"

definition backup_suffix :: string where "backup_suffix = ''.sqlite''"

definition backup_tmp :: string where "backup_tmp = ''.tmp''"

definition keep_daily :: nat where "keep_daily = 7"

definition keep_weekly :: nat where "keep_weekly = 4"

record calendar =
  cal_format :: "int \<Rightarrow> string"
  cal_parse :: "string \<Rightarrow> int option"

definition is_sunday :: "int \<Rightarrow> bool" where
  "is_sunday d \<longleftrightarrow> d mod 7 = 3"

definition backup_file_name :: "calendar \<Rightarrow> int \<Rightarrow> string" where
  "backup_file_name cal d = backup_prefix @ cal_format cal d @ backup_suffix"

definition suffix_stripped :: "'a list \<Rightarrow> 'a list \<Rightarrow> 'a list option" where
  "suffix_stripped s t = (if ends_with t s then Some (take (length t - length s) t) else None)"

definition parse_backup_date :: "calendar \<Rightarrow> string \<Rightarrow> int option" where
  "parse_backup_date cal name =
     Option.bind (strip_prefix backup_prefix name) (\<lambda>m. Option.bind (suffix_stripped backup_suffix m) (cal_parse cal))"

text \<open>The filter over the rest, with its counter of kept Sundays.\<close>

fun doomed_dates :: "nat \<Rightarrow> int list \<Rightarrow> int list" where
  "doomed_dates kept [] = []"
| "doomed_dates kept (d # ds) =
     (if is_sunday d \<and> kept < keep_weekly then doomed_dates (kept + 1) ds else d # doomed_dates kept ds)"

definition to_delete :: "int list \<Rightarrow> int list" where
  "to_delete dates = (let sorted = remdups_adj (rev (sort dates)) in doomed_dates 0 (drop (min (length sorted) keep_daily) sorted))"

section \<open>The backup\<close>

record 'c backup_io =
  bi_create :: "string option"
  bi_remove_stale :: "string option"
  bi_open :: "string option"
  bi_copy :: "string + 'c"
  bi_leftover :: "'c option"
  bi_verify :: "'c \<Rightarrow> string option"
  bi_remove_bad :: bool
  bi_rename :: "string option"
  bi_list :: "string option"
  bi_remove :: "string \<Rightarrow> string option"

type_synonym 'c backup_dir = "(string \<times> 'c) list"

definition backup_error :: "string \<Rightarrow> qf_error" where
  "backup_error msg = new_error ''Housekeeping:Backup'' msg"

text \<open>\<open>write\<close>: the copy under its temporary name. \<open>dir\<close> is the path of the directory.\<close>

definition temp_name :: "calendar \<Rightarrow> int \<Rightarrow> string" where
  "temp_name cal d = backup_file_name cal d @ backup_tmp"

definition backup_write ::
  "calendar \<Rightarrow> 'c backup_io \<Rightarrow> string \<Rightarrow> int \<Rightarrow> 'c backup_dir \<Rightarrow> (qf_error + unit) \<times> 'c backup_dir" where
  "backup_write cal io dir d fs =
     (let name = temp_name cal d; path = dir @ ''/'' @ name in
      case bi_create io of
        Some e \<Rightarrow> (Inl (backup_error (''cannot create '' @ dir @ '': '' @ e)), fs)
      | None \<Rightarrow>
          (let stale = map_of fs name \<noteq> None in
           case (if stale then bi_remove_stale io else None) of
             Some e \<Rightarrow> (Inl (backup_error (''cannot remove stale '' @ path @ '': '' @ e)), fs)
           | None \<Rightarrow>
               (let fs1 = (if stale then AList.delete name fs else fs) in
                if CHR 0x27 \<in> set path then (Inl (backup_error (''backup path must not contain a quote: '' @ path)), fs1)
                else case bi_open io of
                  Some e \<Rightarrow> (Inl (backup_error (''cannot open the source: '' @ e)), fs1)
                | None \<Rightarrow>
                    (case bi_copy io of
                       Inl e \<Rightarrow> (Inl (backup_error (''VACUUM INTO '' @ path @ '' failed: '' @ e)),
                                 case bi_leftover io of Some c \<Rightarrow> AList.update name c fs1 | None \<Rightarrow> fs1)
                     | Inr c \<Rightarrow> (Inr (), AList.update name c fs1)))))"

text \<open>\<open>promote\<close>: verify, then rename; a bad copy is removed. A missing temporary file does not verify.\<close>

definition verify_copy :: "'c backup_io \<Rightarrow> 'c option \<Rightarrow> qf_error + unit" where
  "verify_copy io c =
     (case c of
        None \<Rightarrow> Inl (new_error ''Housekeeping:Verify'' ''unable to open database file'')
      | Some x \<Rightarrow> (case bi_verify io x of
                    None \<Rightarrow> Inr ()
                  | Some verdict \<Rightarrow> Inl (new_error ''Housekeeping:Verify'' (''integrity_check: '' @ verdict))))"

definition promote ::
  "'c backup_io \<Rightarrow> string \<Rightarrow> string \<Rightarrow> 'c backup_dir \<Rightarrow> (qf_error + unit) \<times> 'c backup_dir" where
  "promote io tmp final fs =
     (case verify_copy io (map_of fs tmp) of
        Inl e \<Rightarrow> (Inl e, if bi_remove_bad io then AList.delete tmp fs else fs)
      | Inr _ \<Rightarrow>
          (case bi_rename io of
             Some e \<Rightarrow> (Inl (backup_error (''cannot rename '' @ tmp @ '' to '' @ final @ '': '' @ e)), fs)
           | None \<Rightarrow> (Inr (), AList.update final (the (map_of fs tmp)) (AList.delete tmp fs))))"

text \<open>\<open>prune\<close>: the listing is taken first, then the doomed files are deleted in its order.\<close>

fun remove_doomed ::
  "'c backup_io \<Rightarrow> int list \<Rightarrow> (int \<times> string) list \<Rightarrow> 'c backup_dir \<Rightarrow> (qf_error + string list) \<times> 'c backup_dir" where
  "remove_doomed io doomed [] fs = (Inr [], fs)"
| "remove_doomed io doomed ((d, name) # dated) fs =
     (if d \<in> set doomed then
        (case bi_remove io name of
           Some e \<Rightarrow> (Inl (new_error ''Housekeeping:Prune'' (''cannot delete '' @ name @ '': '' @ e)), fs)
         | None \<Rightarrow>
             (case remove_doomed io doomed dated (AList.delete name fs) of
                (Inr removed, fs1) \<Rightarrow> (Inr (name # removed), fs1)
              | (Inl e, fs1) \<Rightarrow> (Inl e, fs1)))
      else remove_doomed io doomed dated fs)"

definition dated_files :: "calendar \<Rightarrow> 'c backup_dir \<Rightarrow> (int \<times> string) list" where
  "dated_files cal fs = List.map_filter (\<lambda>x. map_option (\<lambda>d. (d, fst x)) (parse_backup_date cal (fst x))) fs"

definition prune :: "calendar \<Rightarrow> 'c backup_io \<Rightarrow> 'c backup_dir \<Rightarrow> (qf_error + string list) \<times> 'c backup_dir" where
  "prune cal io fs =
     (case bi_list io of
        Some e \<Rightarrow> (Inl (new_error ''Housekeeping:Prune'' (''cannot list: '' @ e)), fs)
      | None \<Rightarrow> (let dated = dated_files cal fs in remove_doomed io (to_delete (map fst dated)) dated fs))"

definition backup_run ::
  "calendar \<Rightarrow> 'c backup_io \<Rightarrow> string \<Rightarrow> int \<Rightarrow> 'c backup_dir \<Rightarrow> (qf_error + string option) \<times> 'c backup_dir" where
  "backup_run cal io dir today fs =
     (let final = backup_file_name cal today in
      if map_of fs final \<noteq> None then (Inr None, fs)
      else case backup_write cal io dir today fs of
        (Inl e, fs1) \<Rightarrow> (Inl e, fs1)
      | (Inr _, fs1) \<Rightarrow>
          (case promote io (temp_name cal today) final fs1 of
             (Inl e, fs2) \<Rightarrow> (Inl e, fs2)
           | (Inr _, fs2) \<Rightarrow>
               (case prune cal io fs2 of
                  (Inl e, fs3) \<Rightarrow> (Inl e, fs3)
                | (Inr _, fs3) \<Rightarrow> (Inr (Some final), fs3))))"

section \<open>The tick\<close>

record gates =
  ga_last_hourly :: "utc option"
  ga_backup_failed_on :: "int option"

definition fresh_gates :: gates where
  "fresh_gates = \<lparr>ga_last_hourly = None, ga_backup_failed_on = None\<rparr>"

record tick_report =
  tk_alerts :: nat
  tk_deleted_events :: "nat option"
  tk_backup :: "string option"

definition utc_day :: "utc \<Rightarrow> int" where
  "utc_day now = now div days 1"

text \<open>
  The state of the loop: the trade events, the gates, the backup directory and the backup alerts sent.
  \<open>tc_sweep\<close> and \<open>tc_retention\<close> are the database errors of the first two jobs, if they fail; \<open>tc_job\<close> is the backup, if
  there is one.
\<close>

record ('s, 'c) house =
  ho_trades :: "'s trade_state"
  ho_gates :: gates
  ho_dir :: "'c backup_dir"
  ho_backup_alerts :: "(stamp \<times> string) list"

record 'c tick_io =
  tc_now :: utc
  tc_sweep :: "qf_error option"
  tc_retention :: "qf_error option"
  tc_job :: "(string \<times> 'c backup_io) option"

definition sweep_job :: "'c tick_io \<Rightarrow> 's trade_state \<Rightarrow> (qf_error + nat) \<times> 's trade_state" where
  "sweep_job io st =
     (case tc_sweep io of Some e \<Rightarrow> (Inl e, st) | None \<Rightarrow> (let (n, st1) = sweep_alerts st (tc_now io) in (Inr n, st1)))"

definition hourly_due :: "gates \<Rightarrow> utc \<Rightarrow> bool" where
  "hourly_due g now \<longleftrightarrow> (case ga_last_hourly g of None \<Rightarrow> True | Some t \<Rightarrow> hours 1 \<le> now - t)"

definition retention_job :: "'c tick_io \<Rightarrow> 's trade_state \<Rightarrow> (qf_error + nat) \<times> 's trade_state" where
  "retention_job io st =
     (case tc_retention io of
        Some e \<Rightarrow> (Inl e, st)
      | None \<Rightarrow> (let (n, rows) = event_retention (tp_rows st) (tc_now io) in (Inr n, st\<lparr>tp_rows := rows\<rparr>)))"

definition first_error :: "qf_error option \<Rightarrow> qf_error + 'a \<Rightarrow> qf_error option" where
  "first_error e r = (case e of Some x \<Rightarrow> Some x | None \<Rightarrow> (case r of Inl x \<Rightarrow> Some x | Inr _ \<Rightarrow> None))"

definition backup_job :: "calendar \<Rightarrow> 'c tick_io \<Rightarrow> ('s, 'c) house \<Rightarrow> string option \<times> ('s, 'c) house" where
  "backup_job cal io h =
     (case tc_job io of
        None \<Rightarrow> (None, h)
      | Some (dir, bio) \<Rightarrow>
          (let today = utc_day (tc_now io) in
           if ga_backup_failed_on (ho_gates h) = Some today then (None, h)
           else case backup_run cal bio dir today (ho_dir h) of
             (Inr written, fs) \<Rightarrow> (written, h\<lparr>ho_dir := fs\<rparr>)
           | (Inl e, fs) \<Rightarrow>
               (None, h\<lparr>ho_dir := fs, ho_gates := (ho_gates h)\<lparr>ga_backup_failed_on := Some today\<rparr>,
                        ho_backup_alerts := ho_backup_alerts h @ [(ts (tc_now io), er_message e)]\<rparr>)))"

definition tick :: "calendar \<Rightarrow> 'c tick_io \<Rightarrow> ('s, 'c) house \<Rightarrow> (qf_error + tick_report) \<times> ('s, 'c) house" where
  "tick cal io h =
     (let (alerts, st1) = sweep_job io (ho_trades h);
          h1 = h\<lparr>ho_trades := st1\<rparr>;
          e1 = first_error None alerts;
          due = hourly_due (ho_gates h1) (tc_now io);
          (deleted, st2) = (if due then retention_job io st1 else (Inr 0, st1));
          e2 = first_error e1 deleted;
          h2 = h1\<lparr>ho_trades := st2, ho_gates := (if due \<and> \<not> isl deleted then (ho_gates h1)\<lparr>ga_last_hourly := Some (tc_now io)\<rparr> else ho_gates h1)\<rparr>;
          (written, h3) = backup_job cal io h2
      in (case e2 of
            Some e \<Rightarrow> Inl e
          | None \<Rightarrow> Inr \<lparr>tk_alerts = (case alerts of Inr n \<Rightarrow> n | Inl _ \<Rightarrow> 0),
                         tk_deleted_events = (if due then (case deleted of Inr n \<Rightarrow> Some n | Inl _ \<Rightarrow> None) else None),
                         tk_backup = written\<rparr>, h3))"

section \<open>Retention\<close>

definition newer_dates :: "int list \<Rightarrow> int \<Rightarrow> int set" where
  "newer_dates dates d = {e \<in> set dates. d < e}"

lemma strictly_descending: "sorted_wrt (>) (remdups_adj (rev (sort xs)))" for xs :: "int list"
proof -
  have "remdups_adj (rev (sort xs)) = rev (remdups_adj (sort xs))" by (simp add: remdups_adj_rev)
  moreover have "sorted_wrt (<) (remdups_adj ys)" if "sorted ys" for ys :: "int list"
    using that by (induction ys rule: remdups_adj.induct) auto
  ultimately show ?thesis by (simp add: sorted_wrt_rev)
qed

lemma take_by_rank:
  "sorted_wrt (>) ds \<Longrightarrow> d \<in> set (take n ds) \<longleftrightarrow> d \<in> set ds \<and> card {e \<in> set ds. d < e} < n" for d :: int
proof (induction ds arbitrary: n)
  case (Cons a ds)
  show ?case
  proof (cases n)
    case (Suc m)
    have a: "a \<notin> set ds" "\<And>x. x \<in> set ds \<Longrightarrow> x < a" using Cons.prems by auto
    have top: "{e. (e = a \<or> e \<in> set ds) \<and> a < e} = {}" using a(2) by force
    have step: "{e \<in> set (a # ds). d < e} = insert a {e \<in> set ds. d < e}" if "d \<in> set ds" using a(2)[OF that] by auto
    have "card {e \<in> set (a # ds). d < e} = Suc (card {e \<in> set ds. d < e})" if "d \<in> set ds"
      unfolding step[OF that] using a(1) by simp
    then show ?thesis using Cons a Suc by (cases "d = a") (auto simp: top)
  qed simp
qed simp

lemma doomed_subset: "set (doomed_dates k ds) \<subseteq> set ds" "distinct ds \<Longrightarrow> distinct (doomed_dates k ds)"
proof -
  show sub: "set (doomed_dates k ds) \<subseteq> set ds" for k ds by (induction k ds rule: doomed_dates.induct) auto
  show "distinct ds \<Longrightarrow> distinct (doomed_dates k ds)"
    by (induction k ds rule: doomed_dates.induct) (use sub in auto)
qed

lemma spared_sundays:
  assumes "sorted_wrt (>) ds" "d \<in> set ds"
  shows "d \<notin> set (doomed_dates k ds) \<longleftrightarrow> is_sunday d \<and> k + card {e \<in> set ds. d < e \<and> is_sunday e} < keep_weekly"
  using assms
proof (induction k ds rule: doomed_dates.induct)
  case (2 k a ds)
  have a: "a \<notin> set ds" "\<And>x. x \<in> set ds \<Longrightarrow> x < a" and sorted: "sorted_wrt (>) ds" using "2.prems" by auto
  show ?case
  proof (cases "d = a")
    case True
    have "{e. (e = a \<or> e \<in> set ds) \<and> a < e \<and> is_sunday e} = {}" using a(2) by force
    then show ?thesis using True a(1) doomed_subset(1)[of "k + 1" ds] by (auto simp del: Collect_empty_eq)
  next
    case False
    then have d: "d \<in> set ds" using "2.prems" by simp
    have sets: "{e \<in> set (a # ds). d < e \<and> is_sunday e} =
        (if is_sunday a then insert a {e \<in> set ds. d < e \<and> is_sunday e} else {e \<in> set ds. d < e \<and> is_sunday e})"
      using a(2)[OF d] by auto
    have count: "card {e \<in> set (a # ds). d < e \<and> is_sunday e} = of_bool (is_sunday a) + card {e \<in> set ds. d < e \<and> is_sunday e}"
      unfolding sets using a(1) by simp
    show ?thesis
    proof (cases "is_sunday a \<and> k < keep_weekly")
      case True
      then show ?thesis using "2.IH"(1)[OF True sorted d] count by simp
    next
      case spared: False
      then show ?thesis using "2.IH"(2)[OF spared sorted d] count False by (auto split: if_splits)
    qed
  qed
qed simp

lemma spared_count: "card (set ds - set (doomed_dates k ds)) \<le> keep_weekly - k"
proof (induction k ds rule: doomed_dates.induct)
  case (2 k d ds)
  show ?case
  proof (cases "is_sunday d \<and> k < keep_weekly")
    case True
    have "set (d # ds) - set (doomed_dates k (d # ds)) \<subseteq> insert d (set ds - set (doomed_dates (k + 1) ds))" using True by auto
    then have "card (set (d # ds) - set (doomed_dates k (d # ds))) \<le> card (insert d (set ds - set (doomed_dates (k + 1) ds)))"
      by (intro card_mono) simp_all
    also have "\<dots> \<le> Suc (card (set ds - set (doomed_dates (k + 1) ds)))" by (rule card_insert_le_m1) simp_all
    also have "\<dots> \<le> keep_weekly - k" using "2.IH"(1)[OF True] True by linarith
    finally show ?thesis .
  next
    case False
    have "set (d # ds) - set (doomed_dates k (d # ds)) \<subseteq> set ds - set (doomed_dates k ds)" using False by auto
    then have "card (set (d # ds) - set (doomed_dates k (d # ds))) \<le> card (set ds - set (doomed_dates k ds))"
      by (intro card_mono) simp_all
    then show ?thesis using "2.IH"(2)[OF False] by linarith
  qed
qed simp

text \<open>
  Retention keeps the seven newest dates and, of the older ones, the four newest Sundays, so at most eleven; how
  often a date occurs, and in which order, does not matter.
\<close>

theorem retention_rule:
  "set (to_delete dates) =
     {d \<in> set dates. 7 \<le> card (newer_dates dates d)
        \<and> \<not> (is_sunday d \<and> card {e \<in> newer_dates dates d. is_sunday e \<and> 7 \<le> card (newer_dates dates e)} < 4)}
   \<and> distinct (to_delete dates) \<and> card (set dates - set (to_delete dates)) \<le> 11"
proof -
  let ?ds = "remdups_adj (rev (sort dates))"
  let ?n = "min (length ?ds) keep_daily"
  let ?rest = "drop ?n ?ds"
  have desc: "sorted_wrt (>) ?ds" by (rule strictly_descending)
  have dist: "distinct ?ds" using desc by (simp add: sorted_wrt_iff_nth_less distinct_conv_nth) (metis less_irrefl linorder_neqE_nat)
  have all: "set ?ds = set dates" by simp
  have take: "take ?n ?ds = take keep_daily ?ds" by (simp add: min_def)
  have split: "set (take ?n ?ds) \<union> set ?rest = set dates" "set (take ?n ?ds) \<inter> set ?rest = {}"
    using dist by (metis all append_take_drop_id set_append) (metis append_take_drop_id dist distinct_append)
  have top: "d \<in> set (take ?n ?ds) \<longleftrightarrow> d \<in> set dates \<and> card (newer_dates dates d) < 7" for d
    unfolding take using take_by_rank[OF desc, of d keep_daily] by (simp add: newer_dates_def keep_daily_def)
  have rest: "set ?rest = {d \<in> set dates. 7 \<le> card (newer_dates dates d)}"
    using split top by (auto simp: not_less[symmetric])
  have rest_desc: "sorted_wrt (>) ?rest" by (rule sorted_wrt_drop[OF desc])
  have del: "to_delete dates = doomed_dates 0 ?rest" by (simp add: to_delete_def Let_def)
  have eq: "set (to_delete dates) =
     {d \<in> set dates. 7 \<le> card (newer_dates dates d)
        \<and> \<not> (is_sunday d \<and> card {e \<in> newer_dates dates d. is_sunday e \<and> 7 \<le> card (newer_dates dates e)} < 4)}"
  proof (intro set_eqI)
    fix d
    have sundays: "{e \<in> set ?rest. d < e \<and> is_sunday e} = {e \<in> newer_dates dates d. is_sunday e \<and> 7 \<le> card (newer_dates dates e)}"
      unfolding rest by (auto simp: newer_dates_def)
    show "d \<in> set (to_delete dates) \<longleftrightarrow> d \<in> {d \<in> set dates. 7 \<le> card (newer_dates dates d)
        \<and> \<not> (is_sunday d \<and> card {e \<in> newer_dates dates d. is_sunday e \<and> 7 \<le> card (newer_dates dates e)} < 4)}"
    proof (cases "d \<in> set ?rest")
      case True
      then show ?thesis using spared_sundays[OF rest_desc True, of 0] sundays rest by (auto simp: del keep_weekly_def)
    next
      case False
      then show ?thesis using rest doomed_subset(1)[of 0 ?rest] by (auto simp: del)
    qed
  qed
  have "set dates - set (to_delete dates) \<subseteq> set (take ?n ?ds) \<union> (set ?rest - set (doomed_dates 0 ?rest))"
    using split(1) unfolding del by blast
  then have "card (set dates - set (to_delete dates)) \<le> card (set (take ?n ?ds) \<union> (set ?rest - set (doomed_dates 0 ?rest)))"
    by (intro card_mono) simp_all
  also have "\<dots> \<le> card (set (take ?n ?ds)) + card (set ?rest - set (doomed_dates 0 ?rest))" by (rule card_Un_le)
  also have "\<dots> \<le> keep_daily + keep_weekly"
    using spared_count[of ?rest 0] card_length[of "take ?n ?ds"] by simp
  finally have "card (set dates - set (to_delete dates)) \<le> 11" by (simp add: keep_daily_def keep_weekly_def)
  moreover have "distinct (to_delete dates)" unfolding del by (intro doomed_subset(2) distinct_drop dist)
  ultimately show ?thesis using eq by blast
qed

section \<open>What a backup does to the directory\<close>

lemma temp_not_dated: "parse_backup_date cal (temp_name cal d) = None"
proof -
  have "\<not> ends_with (u @ backup_suffix @ backup_tmp) backup_suffix" for u
    by (simp add: ends_with_def backup_suffix_def backup_tmp_def)
  then show ?thesis
    by (simp add: parse_backup_date_def temp_name_def backup_file_name_def suffix_stripped_def split: Option.bind_split)
      (metis append_assoc option.inject strip_prefix_Some)
qed

lemma parse_final: "cal_parse cal (cal_format cal d) = Some d \<Longrightarrow> parse_backup_date cal (backup_file_name cal d) = Some d"
proof -
  have "strip_prefix backup_prefix (backup_file_name cal d) = Some (cal_format cal d @ backup_suffix)"
    by (simp add: strip_prefix_Some backup_file_name_def)
  moreover have "suffix_stripped backup_suffix (cal_format cal d @ backup_suffix) = Some (cal_format cal d)"
    by (simp add: suffix_stripped_def ends_with_def)
  ultimately show "cal_parse cal (cal_format cal d) = Some d \<Longrightarrow> parse_backup_date cal (backup_file_name cal d) = Some d"
    by (simp add: parse_backup_date_def)
qed

lemma delete_lookup [simp]: "map_of (AList.delete k fs) n = (if n = k then None else map_of fs n)"
  by (simp add: delete_conv')

lemma backup_write_effect:
  assumes "backup_write cal io dir d fs = (r, fs1)"
  shows "n \<noteq> temp_name cal d \<Longrightarrow> map_of fs1 n = map_of fs n"
    and "r = Inr () \<Longrightarrow> \<exists>c. bi_copy io = Inr c \<and> map_of fs1 (temp_name cal d) = Some c"
  using assms
  by (auto simp: backup_write_def Let_def update_conv' split: option.splits sum.splits if_splits)

lemma promote_effect:
  assumes "promote io tmp final fs = (r, fs1)"
  shows "r = Inr () \<Longrightarrow> \<exists>c. map_of fs tmp = Some c \<and> bi_verify io c = None
           \<and> (\<forall>n. map_of fs1 n = (if n = final then Some c else if n = tmp then None else map_of fs n))"
    and "r \<noteq> Inr () \<Longrightarrow> n \<noteq> tmp \<Longrightarrow> map_of fs1 n = map_of fs n"
  using assms
  by (auto simp: promote_def verify_copy_def update_conv' split: option.splits sum.splits if_splits)

lemma remove_doomed_only:
  "remove_doomed io doomed dated fs = (r, fs1) \<Longrightarrow>
     map_of fs1 n = map_of fs n \<or> map_of fs1 n = None \<and> (\<exists>d. (d, n) \<in> set dated \<and> d \<in> set doomed)"
  by (induction io doomed dated fs arbitrary: r rule: remove_doomed.induct)
    (auto split: if_splits option.splits prod.splits sum.splits)

lemma remove_doomed_all:
  "remove_doomed io doomed dated fs = (Inr removed, fs1) \<Longrightarrow>
     map_of fs1 n = (if \<exists>d. (d, n) \<in> set dated \<and> d \<in> set doomed then None else map_of fs n)"
proof (induction io doomed dated fs arbitrary: removed rule: remove_doomed.induct)
  case (2 io doomed d name dated fs)
  show ?case
  proof (cases "d \<in> set doomed")
    case True
    then obtain removed1 where "remove_doomed io doomed dated (AList.delete name fs) = (Inr removed1, fs1)" "bi_remove io name = None"
      using "2.prems" by (auto split: option.splits prod.splits sum.splits)
    from "2.IH"(1)[OF True this(2,1)] show ?thesis using True by auto
  next
    case False
    have "remove_doomed io doomed dated fs = (Inr removed, fs1)" using "2.prems" False by simp
    from "2.IH"(2)[OF False this] show ?thesis using False by auto
  qed
qed simp

lemma dated_files_set: "(d, n) \<in> set (dated_files cal fs) \<longleftrightarrow> map_of fs n \<noteq> None \<and> parse_backup_date cal n = Some d"
  by (auto simp: dated_files_def List.map_filter_def map_of_eq_None_iff image_iff) force+

text \<open>
  C39. A backup that wears a dated name passed its check. Whatever fails on the way: every dated file of the directory stays good
  if all were, only files under a dated name or today's temporary name are touched, and a dated file disappears
  only if the retention rule dooms its date. A run with today's file present does nothing; a run that reports success has
  exactly the verified copy under today's name, no temporary file, and all other files but the doomed ones.
\<close>

theorem backups_are_verified:
  assumes "cal_parse cal (cal_format cal today) = Some today"
    and "\<forall>c. bi_verify io c = None \<longrightarrow> good c"
    and "\<forall>n c. map_of fs n = Some c \<and> parse_backup_date cal n \<noteq> None \<longrightarrow> good c"
    and "backup_run cal io dir today fs = (r, fs1)"
    and "final = backup_file_name cal today" "doomed = set (to_delete (today # map fst (dated_files cal fs)))"
  shows "(\<forall>n c. map_of fs1 n = Some c \<and> parse_backup_date cal n \<noteq> None \<longrightarrow> good c)
     \<and> (\<forall>n. parse_backup_date cal n = None \<and> n \<noteq> temp_name cal today \<longrightarrow> map_of fs1 n = map_of fs n)
     \<and> (\<forall>n. map_of fs n \<noteq> None \<and> map_of fs1 n = None \<and> n \<noteq> temp_name cal today \<longrightarrow> (\<exists>d\<in>doomed. parse_backup_date cal n = Some d))
     \<and> (r = Inr None \<longleftrightarrow> map_of fs final \<noteq> None) \<and> (r = Inr None \<longrightarrow> fs1 = fs)
     \<and> (\<forall>p. r = Inr (Some p) \<longrightarrow> p = final \<and> (\<exists>c. bi_copy io = Inr c \<and> good c
          \<and> (\<forall>n. map_of fs1 n = (if n = temp_name cal today \<or> (\<exists>d\<in>doomed. parse_backup_date cal n = Some d) then None
                                  else if n = final then Some c else map_of fs n))))"
proof (cases "map_of fs final")
  case (Some c)
  then show ?thesis using assms(3-5) by (auto simp: backup_run_def Let_def)
next
  case None
  let ?tmp = "temp_name cal today"
  have final: "parse_backup_date cal final = Some today" using parse_final[OF assms(1)] assms(5) by simp
  have tmp: "parse_backup_date cal ?tmp = None" by (rule temp_not_dated)
  have neq: "?tmp \<noteq> final" using final tmp by auto
  obtain w fsw where w: "backup_write cal io dir today fs = (w, fsw)" by force
  note w_same = backup_write_effect(1)[OF w]
  have run: "backup_run cal io dir today fs =
      (case (w, fsw) of (Inl e, fs1) \<Rightarrow> (Inl e, fs1) | (Inr _, fs1) \<Rightarrow>
          (case promote io ?tmp final fs1 of
             (Inl e, fs2) \<Rightarrow> (Inl e, fs2)
           | (Inr _, fs2) \<Rightarrow> (case prune cal io fs2 of (Inl e, fs3) \<Rightarrow> (Inl e, fs3) | (Inr _, fs3) \<Rightarrow> (Inr (Some final), fs3))))"
    unfolding backup_run_def Let_def assms(5)[symmetric] using None w by simp
  have quiet: ?thesis if same: "\<And>n. n \<noteq> ?tmp \<Longrightarrow> map_of fs1 n = map_of fs n" and err: "\<exists>e. r = Inl e"
  proof -
    have "good c" if "map_of fs1 n = Some c" "parse_backup_date cal n \<noteq> None" for n c
      using assms(3)[rule_format, of n c] same[of n] that tmp by (cases "n = ?tmp") auto
    then show ?thesis using same err None by auto
  qed
  show ?thesis
  proof (cases w)
    case (Inl e)
    then show ?thesis using run assms(4) w_same by (intro quiet) auto
  next
    case w_ok: (Inr u)
    obtain c where c: "bi_copy io = Inr c" "map_of fsw ?tmp = Some c" using backup_write_effect(2)[OF w] w_ok by auto
    obtain p fsp where p: "promote io ?tmp final fsw = (p, fsp)" by force
    show ?thesis
    proof (cases p)
      case (Inl e)
      have "map_of fsp n = map_of fs n" if "n \<noteq> ?tmp" for n
        using promote_effect(2)[OF p _ that] Inl w_same[OF that] by simp
      then show ?thesis using run assms(4) w_ok p Inl by (intro quiet) auto
    next
      case p_ok: (Inr v)
      have fsp: "map_of fsp n = (if n = final then Some c else if n = ?tmp then None else map_of fs n)" for n
        using promote_effect(1)[OF p] p_ok c(2) w_same[of n] by auto
      have good_c: "good c" using promote_effect(1)[OF p] p_ok c(2) assms(2) by auto
      have dated: "(d, n) \<in> set (dated_files cal fsp) \<longleftrightarrow> parse_backup_date cal n = Some d \<and> (n = final \<or> map_of fs n \<noteq> None)" for d n
        using tmp by (auto simp: dated_files_set fsp neq)
      have listed: "d \<in> set (map fst (dated_files cal g)) \<longleftrightarrow> (\<exists>n. (d, n) \<in> set (dated_files cal g))" for d g by force
      have dates: "set (map fst (dated_files cal fsp)) = set (today # map fst (dated_files cal fs))"
      proof (rule set_eqI)
        fix d
        show "d \<in> set (map fst (dated_files cal fsp)) \<longleftrightarrow> d \<in> set (today # map fst (dated_files cal fs))"
          unfolding list.set(2) insert_iff listed dated unfolding dated_files_set
        proof (intro iffI)
          assume "\<exists>n. parse_backup_date cal n = Some d \<and> (n = final \<or> map_of fs n \<noteq> None)"
          then obtain n where "parse_backup_date cal n = Some d" "n = final \<or> map_of fs n \<noteq> None" by blast
          then show "d = today \<or> (\<exists>n. map_of fs n \<noteq> None \<and> parse_backup_date cal n = Some d)" using final by (cases "n = final") auto
        next
          assume "d = today \<or> (\<exists>n. map_of fs n \<noteq> None \<and> parse_backup_date cal n = Some d)"
          then show "\<exists>n. parse_backup_date cal n = Some d \<and> (n = final \<or> map_of fs n \<noteq> None)" using final by blast
        qed
      qed
      have doomed: "set (to_delete (map fst (dated_files cal fsp))) = doomed"
        unfolding assms(6) using retention_rule[of "map fst (dated_files cal fsp)"] retention_rule[of "today # map fst (dated_files cal fs)"] dates
        by (simp add: newer_dates_def)
      have gone: "(\<exists>d. (d, n) \<in> set (dated_files cal fsp) \<and> d \<in> doomed) \<Longrightarrow> \<exists>d\<in>doomed. parse_backup_date cal n = Some d" for n
        using dated by blast
      obtain q fsq where q: "prune cal io fsp = (q, fsq)" by force
      have only: "map_of fsq n = map_of fsp n \<or> map_of fsq n = None \<and> (\<exists>d\<in>doomed. parse_backup_date cal n = Some d)" for n
        using q remove_doomed_only[of io "to_delete (map fst (dated_files cal fsp))" "dated_files cal fsp" fsp q fsq n] gone doomed
        by (auto simp: prune_def Let_def split: option.splits)
      have fs1: "fs1 = fsq" using run assms(4) w_ok p p_ok q by (auto split: sum.splits)
      have r: "r = (case q of Inl e \<Rightarrow> Inl e | Inr _ \<Rightarrow> Inr (Some final))" using run assms(4) w_ok p p_ok q by (auto split: sum.splits)
      have stays_good: "good c'" if "map_of fs1 n = Some c'" "parse_backup_date cal n \<noteq> None" for n c'
      proof (cases "n = final")
        case True
        then show ?thesis using only[of n] that fsp[of n] fs1 good_c by auto
      next
        case False
        then show ?thesis using only[of n] that fsp[of n] fs1 assms(3)[rule_format, of n c'] tmp by (auto split: if_splits)
      qed
      have strangers: "map_of fs1 n = map_of fs n" if "parse_backup_date cal n = None" "n \<noteq> ?tmp" for n
        using only[of n] that fs1 fsp[of n] final by auto
      have lost: "\<exists>d\<in>doomed. parse_backup_date cal n = Some d" if "map_of fs n \<noteq> None" "map_of fs1 n = None" "n \<noteq> ?tmp" for n
        using only[of n] that fs1 fsp[of n] by (auto split: if_splits)
      have all: "map_of fs1 n = (if n = ?tmp \<or> (\<exists>d\<in>doomed. parse_backup_date cal n = Some d) then None
                                  else if n = final then Some c else map_of fs n)" if ok: "q = Inr removed" for removed n
      proof -
        have listed: "bi_list io = None" and
          rm: "remove_doomed io (to_delete (map fst (dated_files cal fsp))) (dated_files cal fsp) fsp = (Inr removed, fsq)"
          using q ok by (auto simp: prune_def Let_def split: option.splits)
        have "map_of fsq n = (if \<exists>d. (d, n) \<in> set (dated_files cal fsp) \<and> d \<in> doomed then None else map_of fsp n)"
          using remove_doomed_all[OF rm, of n] doomed by simp
        then show ?thesis using fs1 fsp[of n] dated tmp neq by auto
      qed
      have A: "\<forall>n c. map_of fs1 n = Some c \<and> parse_backup_date cal n \<noteq> None \<longrightarrow> good c" using stays_good by blast
      have B: "\<forall>n. parse_backup_date cal n = None \<and> n \<noteq> ?tmp \<longrightarrow> map_of fs1 n = map_of fs n" using strangers by blast
      have C: "\<forall>n. map_of fs n \<noteq> None \<and> map_of fs1 n = None \<and> n \<noteq> ?tmp \<longrightarrow> (\<exists>d\<in>doomed. parse_backup_date cal n = Some d)"
        using lost by blast
      have D: "r = Inr None \<longleftrightarrow> map_of fs final \<noteq> None" "r = Inr None \<longrightarrow> fs1 = fs" using r None by (cases q; simp)+
      have E: "\<forall>p. r = Inr (Some p) \<longrightarrow> p = final \<and> (\<exists>c. bi_copy io = Inr c \<and> good c
          \<and> (\<forall>n. map_of fs1 n = (if n = ?tmp \<or> (\<exists>d\<in>doomed. parse_backup_date cal n = Some d) then None
                                  else if n = final then Some c else map_of fs n)))"
      proof (intro allI impI)
        fix p
        assume "r = Inr (Some p)"
        then obtain removed where ok: "q = Inr removed" "p = final" using r by (cases q) auto
        show "p = final \<and> (\<exists>c. bi_copy io = Inr c \<and> good c
          \<and> (\<forall>n. map_of fs1 n = (if n = ?tmp \<or> (\<exists>d\<in>doomed. parse_backup_date cal n = Some d) then None
                                  else if n = final then Some c else map_of fs n)))"
          using ok(2) c(1) good_c all[OF ok(1)] by blast
      qed
      show ?thesis by (intro conjI A B C D E)
    qed
  qed
qed

definition demo_calendar :: calendar where
  "demo_calendar = \<lparr>cal_format = (\<lambda>d. show_int d), cal_parse = (\<lambda>s. parse_integer (- 1000000) 1000000 s)\<rparr>"

definition demo_backup_io :: "bool backup_io" where
  "demo_backup_io = \<lparr>bi_create = None, bi_remove_stale = None, bi_open = None, bi_copy = Inr True, bi_leftover = None,
     bi_verify = (\<lambda>c. if c then None else Some ''damaged''), bi_remove_bad = True, bi_rename = None, bi_list = None,
     bi_remove = (\<lambda>_. None)\<rparr>"

theorem backups_are_verified_witness:
  "\<exists>fs1. backup_run demo_calendar demo_backup_io ''b'' 20000 [] = (Inr (Some (backup_file_name demo_calendar 20000)), fs1)
     \<and> (\<forall>n c. map_of fs1 n = Some c \<and> parse_backup_date demo_calendar n \<noteq> None \<longrightarrow> c)"
proof -
  let ?final = "backup_file_name demo_calendar 20000"
  have date: "cal_parse demo_calendar (cal_format demo_calendar 20000) = Some 20000"
    by (simp add: demo_calendar_def parse_integer_show_int)
  have neq: "temp_name demo_calendar 20000 \<noteq> ?final" using temp_not_dated[of demo_calendar 20000] parse_final[OF date] by (metis option.distinct(1))
  have "digit_char d \<noteq> CHR 0x27" if "d < 10" for d
    using char_digit_char[OF that] by (auto simp: char_digit_def simp del: char_digit_char)
  then have digits: "CHR 0x27 \<notin> set (show_nat n)" for n using show_nat_chars by metis
  have quote: "CHR 0x27 \<notin> set (''b'' @ ''/'' @ temp_name demo_calendar 20000)"
    using digits
    by (simp add: temp_name_def backup_file_name_def backup_prefix_def backup_suffix_def backup_tmp_def demo_calendar_def show_int_def)
  have files: "dated_files demo_calendar [(?final, True)] = [(20000, ?final)]"
    using parse_final[OF date] by (simp add: dated_files_def List.map_filter_simps)
  have keep: "to_delete [20000] = []" by (simp add: to_delete_def keep_daily_def)
  have run: "backup_run demo_calendar demo_backup_io ''b'' 20000 [] = (Inr (Some ?final), [(?final, True)])"
  proof -
    have w: "backup_write demo_calendar demo_backup_io ''b'' 20000 [] = (Inr (), [(temp_name demo_calendar 20000, True)])"
      unfolding backup_write_def Let_def using quote by (simp only: if_False) (simp add: demo_backup_io_def)
    have p: "promote demo_backup_io (temp_name demo_calendar 20000) ?final [(temp_name demo_calendar 20000, True)] = (Inr (), [(?final, True)])"
      by (simp add: promote_def verify_copy_def demo_backup_io_def)
    have l: "bi_list demo_backup_io = None" by (simp add: demo_backup_io_def)
    have d: "prune demo_calendar demo_backup_io [(?final, True)] = (Inr [], [(?final, True)])"
      by (simp add: prune_def l Let_def files keep)
    show ?thesis by (simp add: backup_run_def Let_def w p d)
  qed
  show ?thesis
  proof -
    have v: "\<forall>c. bi_verify demo_backup_io c = None \<longrightarrow> c" by (simp add: demo_backup_io_def)
    have empty: "\<forall>n c. map_of [] n = Some c \<and> parse_backup_date demo_calendar n \<noteq> None \<longrightarrow> c" by simp
    show ?thesis using conjunct1[OF backups_are_verified[OF date v empty run refl refl]] run by blast
  qed
qed

section \<open>The pace of the loop\<close>

definition house_run :: "calendar \<Rightarrow> 'c tick_io list \<Rightarrow> ('s, 'c) house \<Rightarrow> ('s, 'c) house" where
  "house_run cal ios h = foldl (\<lambda>h io. snd (tick cal io h)) h ios"

fun retained_at :: "calendar \<Rightarrow> 'c tick_io list \<Rightarrow> ('s, 'c) house \<Rightarrow> utc list" where
  "retained_at cal [] h = []"
| "retained_at cal (io # ios) h =
     (if hourly_due (ho_gates h) (tc_now io) \<and> tc_retention io = None then [tc_now io] else [])
     @ retained_at cal ios (snd (tick cal io h))"

definition alert_days :: "('s, 'c) house \<Rightarrow> int list" where
  "alert_days h = map (\<lambda>(s, _). s div 86400) (ho_backup_alerts h)"

lemma backup_job_gates:
  "ga_last_hourly (ho_gates (snd (backup_job cal io h))) = ga_last_hourly (ho_gates h)"
  by (auto simp: backup_job_def Let_def split: option.split prod.split sum.split)

definition before_backup :: "'c tick_io \<Rightarrow> ('s, 'c) house \<Rightarrow> ('s, 'c) house" where
  "before_backup io h =
     (let st = snd (sweep_job io (ho_trades h)); due = hourly_due (ho_gates h) (tc_now io)
      in h\<lparr>ho_trades := (if due then snd (retention_job io st) else st),
           ho_gates := (if due \<and> tc_retention io = None then (ho_gates h)\<lparr>ga_last_hourly := Some (tc_now io)\<rparr> else ho_gates h)\<rparr>)"

lemma retention_fails: "isl (fst (retention_job io st)) \<longleftrightarrow> tc_retention io \<noteq> None"
  by (simp add: retention_job_def split: option.split prod.split)

lemma tick_state: "snd (tick cal io h) = snd (backup_job cal io (before_backup io h))"
proof -
  obtain a st1 where a: "sweep_job io (ho_trades h) = (a, st1)" by force
  obtain d st2 where d: "retention_job io st1 = (d, st2)" by force
  have "isl d \<longleftrightarrow> tc_retention io \<noteq> None" using retention_fails[of io st1] d by simp
  then show ?thesis
    by (cases "hourly_due (ho_gates h) (tc_now io)") (simp_all add: tick_def before_backup_def Let_def a d split: prod.split)
qed

lemma before_backup_simps:
  "ga_last_hourly (ho_gates (before_backup io h))
     = (if hourly_due (ho_gates h) (tc_now io) \<and> tc_retention io = None then Some (tc_now io) else ga_last_hourly (ho_gates h))"
  "ga_backup_failed_on (ho_gates (before_backup io h)) = ga_backup_failed_on (ho_gates h)"
  "ho_backup_alerts (before_backup io h) = ho_backup_alerts h"
  "ho_dir (before_backup io h) = ho_dir h"
  by (simp_all add: before_backup_def Let_def)

lemma tick_gates:
  "ga_last_hourly (ho_gates (snd (tick cal io h)))
   = (if hourly_due (ho_gates h) (tc_now io) \<and> tc_retention io = None then Some (tc_now io) else ga_last_hourly (ho_gates h))"
  by (simp add: tick_state backup_job_gates before_backup_simps)

lemma retained_apart:
  assumes "sorted (map tc_now ios)" "\<forall>t. ga_last_hourly (ho_gates h) = Some t \<longrightarrow> (\<forall>io\<in>set ios. t \<le> tc_now io)"
  shows "sorted_wrt (\<lambda>a b. a + hours 1 \<le> b) (retained_at cal ios h)
     \<and> (\<forall>t x. ga_last_hourly (ho_gates h) = Some t \<longrightarrow> x \<in> set (retained_at cal ios h) \<longrightarrow> t + hours 1 \<le> x)"
  using assms
proof (induction ios arbitrary: h)
  case (Cons io ios)
  let ?h = "snd (tick cal io h)"
  have gates: "ga_last_hourly (ho_gates ?h)
     = (if hourly_due (ho_gates h) (tc_now io) \<and> tc_retention io = None then Some (tc_now io) else ga_last_hourly (ho_gates h))"
    by (rule tick_gates)
  have IH: "sorted_wrt (\<lambda>a b. a + hours 1 \<le> b) (retained_at cal ios ?h)"
    "\<And>t x. ga_last_hourly (ho_gates ?h) = Some t \<Longrightarrow> x \<in> set (retained_at cal ios ?h) \<Longrightarrow> t + hours 1 \<le> x"
    using Cons.IH[of ?h] Cons.prems gates by (auto split: if_splits)
  show ?case
  proof (cases "hourly_due (ho_gates h) (tc_now io) \<and> tc_retention io = None")
    case True
    have later: "\<And>x. x \<in> set (retained_at cal ios ?h) \<Longrightarrow> tc_now io + hours 1 \<le> x" using IH(2) gates True by simp
    have "t + hours 1 \<le> tc_now io" if "ga_last_hourly (ho_gates h) = Some t" for t
      using True that by (simp add: hourly_due_def)
    then show ?thesis using True IH(1) later by (fastforce intro: order_trans simp: hours_def secs_def)
  next
    case False
    then show ?thesis using IH gates by auto
  qed
qed simp

lemma utc_day_stamp: "ts t div 86400 = utc_day t"
  by (simp add: ts_def utc_day_def days_def secs_def zdiv_zmult2_eq[symmetric])

lemma utc_day_mono: "a \<le> b \<Longrightarrow> utc_day a \<le> utc_day b"
  by (simp add: utc_day_def days_def secs_def zdiv_mono1)

lemma sorted_le_last: "sorted xs \<Longrightarrow> x \<in> set xs \<Longrightarrow> x \<le> last xs" for x :: int
  by (induction xs) (auto split: if_splits)

text \<open>The gate remembers the day of the last alert.\<close>

definition alerts_gated :: "int \<Rightarrow> ('s, 'c) house \<Rightarrow> bool" where
  "alerts_gated today h \<longleftrightarrow> sorted_wrt (<) (alert_days h) \<and> (\<forall>d\<in>set (alert_days h). d \<le> today)
     \<and> ga_backup_failed_on (ho_gates h) = (if alert_days h = [] then None else Some (last (alert_days h)))"

lemma alerts_gated_backup:
  assumes "alerts_gated d h" "d \<le> utc_day (tc_now io)"
  shows "alerts_gated (utc_day (tc_now io)) (snd (backup_job cal io h))"
proof -
  have weak: "alerts_gated (utc_day (tc_now io)) h" using assms by (auto simp: alerts_gated_def)
  show ?thesis
  proof (cases "tc_job io")
    case None
    then show ?thesis using weak by (simp add: backup_job_def)
  next
    case (Some job)
    obtain dir bio where job: "job = (dir, bio)" by force
    show ?thesis
    proof (cases "ga_backup_failed_on (ho_gates h) = Some (utc_day (tc_now io))")
      case True
      then show ?thesis using weak Some job by (simp add: backup_job_def Let_def)
    next
      case False
      obtain r fs where r: "backup_run cal bio dir (utc_day (tc_now io)) (ho_dir h) = (r, fs)" by force
      show ?thesis
      proof (cases r)
        case (Inl e)
        let ?h = "snd (backup_job cal io h)"
        have days: "alert_days ?h = alert_days h @ [utc_day (tc_now io)]"
          using Some job False r Inl by (simp add: backup_job_def Let_def alert_days_def utc_day_stamp)
        have gate: "ga_backup_failed_on (ho_gates ?h) = Some (utc_day (tc_now io))"
          using Some job False r Inl by (simp add: backup_job_def Let_def)
        have "x < utc_day (tc_now io)" if x: "x \<in> set (alert_days h)" for x
        proof -
          have ne: "alert_days h \<noteq> []" using x by auto
          then have "last (alert_days h) \<noteq> utc_day (tc_now io)" "last (alert_days h) \<le> utc_day (tc_now io)"
            using False weak by (auto simp: alerts_gated_def)
          moreover have "x \<le> last (alert_days h)"
          proof -
            have "sorted (alert_days h)" using weak by (auto simp: alerts_gated_def intro: strict_sorted_imp_sorted)
            then show ?thesis using x by (rule sorted_le_last)
          qed
          ultimately show ?thesis by simp
        qed
        then show ?thesis using weak days gate by (auto simp: alerts_gated_def sorted_wrt_append)
      next
        case (Inr w)
        then show ?thesis using weak Some job False r by (simp add: backup_job_def Let_def alerts_gated_def alert_days_def)
      qed
    qed
  qed
qed

lemma alerts_gated_run:
  assumes "sorted (map tc_now ios)" "alerts_gated d h" "\<forall>io\<in>set ios. d \<le> utc_day (tc_now io)"
  shows "\<exists>d. alerts_gated d (house_run cal ios h)"
  using assms
proof (induction ios arbitrary: h d)
  case (Cons io ios)
  have "alerts_gated d (before_backup io h)"
    using Cons.prems(2) by (simp add: alerts_gated_def alert_days_def before_backup_simps)
  then have step: "alerts_gated (utc_day (tc_now io)) (snd (tick cal io h))"
    unfolding tick_state by (rule alerts_gated_backup) (use Cons.prems(3) in simp)
  have "\<forall>x\<in>set ios. utc_day (tc_now io) \<le> utc_day (tc_now x)"
    using Cons.prems(1) by (auto intro: utc_day_mono)
  then show ?case using Cons.IH[OF _ step] Cons.prems(1) by (simp add: house_run_def)
qed (auto simp: house_run_def)

text \<open>
  The loop paces itself, whatever its jobs answer: over ticks at times that never go back, the hourly retention
  succeeds at most once an hour, a failed one is tried again by the next tick, a failed backup is reported at
  most once per UTC day, and neither the alert sweep nor the retention is held up by a failure of another job.
\<close>

theorem housekeeping_paces_itself:
  fixes ios :: "'c tick_io list" and h :: "('s, 'c) house"
  assumes "sorted (map tc_now ios)" "ho_gates h = fresh_gates" "ho_backup_alerts h = []"
  shows "sorted_wrt (\<lambda>a b. a + hours 1 \<le> b) (retained_at cal ios h)
     \<and> distinct (alert_days (house_run cal ios h))
     \<and> (\<forall>(io :: 'c tick_io) (g :: ('s, 'c) house). tc_retention io \<noteq> None \<longrightarrow> ga_last_hourly (ho_gates (snd (tick cal io g))) = ga_last_hourly (ho_gates g))
     \<and> (\<forall>(io :: 'c tick_io) (g :: ('s, 'c) house). ho_trades (snd (tick cal io g)) =
          (let st = snd (sweep_job io (ho_trades g)) in if hourly_due (ho_gates g) (tc_now io) then snd (retention_job io st) else st))"
proof (intro conjI allI impI)
  show "sorted_wrt (\<lambda>a b. a + hours 1 \<le> b) (retained_at cal ios h)"
    using retained_apart[OF assms(1), of h cal] assms(2) by (simp add: fresh_gates_def)
  have ready: "alerts_gated d h" for d
    using assms(2,3) by (simp add: alerts_gated_def alert_days_def fresh_gates_def)
  show "distinct (alert_days (house_run cal ios h))"
  proof (cases ios)
    case Nil
    then show ?thesis using assms(3) by (simp add: house_run_def alert_days_def)
  next
    case (Cons io rest)
    have "\<forall>x\<in>set ios. utc_day (tc_now io) \<le> utc_day (tc_now x)" using assms(1) Cons by (auto intro: utc_day_mono)
    then show ?thesis using alerts_gated_run[OF assms(1) ready] strict_sorted_iff by (fastforce simp: alerts_gated_def)
  qed
next
  fix io :: "'c tick_io" and g :: "('s, 'c) house"
  assume "tc_retention io \<noteq> None"
  then show "ga_last_hourly (ho_gates (snd (tick cal io g))) = ga_last_hourly (ho_gates g)" by (auto simp: tick_gates)
next
  fix io :: "'c tick_io" and g :: "('s, 'c) house"
  have "ho_trades (snd (backup_job cal io x)) = ho_trades x" for x :: "('s, 'c) house"
    by (auto simp: backup_job_def Let_def split: option.split prod.split sum.split)
  then show "ho_trades (snd (tick cal io g)) =
      (let st = snd (sweep_job io (ho_trades g)) in if hourly_due (ho_gates g) (tc_now io) then snd (retention_job io st) else st)"
    by (simp add: tick_state before_backup_def Let_def)
qed

definition demo_ticks :: "bool tick_io list" where
  "demo_ticks = map (\<lambda>t. \<lparr>tc_now = t, tc_sweep = None, tc_retention = None,
     tc_job = Some (''b'', demo_backup_io\<lparr>bi_create := Some ''full''\<rparr>)\<rparr>) [0, mins 1]"

definition demo_house :: "(unit, bool) house" where
  "demo_house = \<lparr>ho_trades = no_events (), ho_gates = fresh_gates, ho_dir = [], ho_backup_alerts = []\<rparr>"

theorem housekeeping_paces_itself_witness: "distinct (alert_days (house_run demo_calendar demo_ticks demo_house))"
proof -
  have "sorted (map tc_now demo_ticks)" by (simp add: demo_ticks_def mins_def secs_def)
  moreover have "ho_gates demo_house = fresh_gates" "ho_backup_alerts demo_house = []" by (simp_all add: demo_house_def)
  ultimately show ?thesis using housekeeping_paces_itself by blast
qed

end
