(* ===== verification/Dashboard.thy ===== *)
theory Dashboard
  imports Stock_Handlers "HOL-Library.AList" "HOL-Library.Multiset"
begin

text \<open>
  The figures of the dashboard: grouping by key and by date (\<open>utils/src/grouping.rs\<close>), the financial report and its
  chart (\<open>entity/src/dto/financial_report.rs\<close>, \<open>financial_graph.rs\<close>) and the summaries built from them
  (\<open>qf_core/src/helper.rs\<close>, \<open>commands/dashboard.rs\<close>, \<open>commands/transaction.rs\<close>). A hash map is an association list whose
  order stands for the order of its iteration. \<open>f64\<close> is \<open>real\<close>. The calendar and the local time zone are parameters: a civil
  time is its number of nanoseconds on the clock of its zone, a date its number of days.
\<close>

section \<open>Grouping\<close>

definition group_add :: "'k \<Rightarrow> 'a \<Rightarrow> ('k \<times> 'a list) list \<Rightarrow> ('k \<times> 'a list) list" where
  "group_add k x m = AList.update k ((case map_of m k of Some xs \<Rightarrow> xs | None \<Rightarrow> []) @ [x]) m"

definition group_by :: "('a \<Rightarrow> 'k) \<Rightarrow> 'a list \<Rightarrow> ('k \<times> 'a list) list" where
  "group_by key items = foldl (\<lambda>m x. group_add (key x) x m) [] items"

datatype date_level = ByYear | ByMonth | ByDay | ByHour

fun level_index :: "date_level \<Rightarrow> nat" where
  "level_index ByYear = 0"
| "level_index ByMonth = 1"
| "level_index ByDay = 2"
| "level_index ByHour = 3"

instantiation date_level :: linorder
begin

definition less_eq_date_level :: "date_level \<Rightarrow> date_level \<Rightarrow> bool" where
  "less_eq_date_level a b \<longleftrightarrow> level_index a \<le> level_index b"

definition less_date_level :: "date_level \<Rightarrow> date_level \<Rightarrow> bool" where
  "less_date_level a b \<longleftrightarrow> level_index a < level_index b"

instance
proof
  fix x y :: date_level
  show "x \<le> y \<Longrightarrow> y \<le> x \<Longrightarrow> x = y" by (cases x; cases y) (auto simp: less_eq_date_level_def)
qed (auto simp: less_eq_date_level_def less_date_level_def)

end

fun to_duration :: "date_level \<Rightarrow> duration" where
  "to_duration ByYear = days 365"
| "to_duration ByMonth = days 30"
| "to_duration ByDay = days 1"
| "to_duration ByHour = hours 1"

text \<open>
  \<open>cv_fields\<close> gives the year, month and day of a date; \<open>cv_day\<close> is \<open>from_ymd_opt\<close>. What the code relies on is
  \<open>civil_ok\<close>: the days of a month follow each other from its first, a month ends before the next one begins, and
  December has 31 days.
\<close>

record civil =
  cv_fields :: "int \<Rightarrow> int \<times> nat \<times> nat"
  cv_day :: "int \<Rightarrow> nat \<Rightarrow> nat \<Rightarrow> int"

definition next_month_first :: "civil \<Rightarrow> int \<Rightarrow> nat \<Rightarrow> int" where
  "next_month_first cal y m = (if m = 12 then cv_day cal (y + 1) 1 1 else cv_day cal y (m + 1) 1)"

definition civil_ok :: "civil \<Rightarrow> bool" where
  "civil_ok cal \<longleftrightarrow>
     (\<forall>n y m d. cv_fields cal n = (y, m, d) \<longleftrightarrow>
        1 \<le> m \<and> m \<le> 12 \<and> cv_day cal y m 1 \<le> n \<and> n < next_month_first cal y m \<and> int d = n - cv_day cal y m 1 + 1)
   \<and> (\<forall>n y m d. cv_fields cal n = (y, m, d) \<longrightarrow> cv_day cal y m d = n)
   \<and> (\<forall>y m. 1 \<le> m \<and> m \<le> 12 \<longrightarrow> cv_day cal y m 1 < next_month_first cal y m)
   \<and> (\<forall>y. cv_day cal y 12 31 = next_month_first cal y 12 - 1)"

definition day_number :: "int \<Rightarrow> int" where "day_number t = t div days 1"

definition hour_of :: "int \<Rightarrow> nat" where "hour_of t = nat ((t mod days 1) div hours 1)"

definition year_of :: "civil \<Rightarrow> int \<Rightarrow> int" where "year_of cal t = fst (cv_fields cal (day_number t))"

definition month_of :: "civil \<Rightarrow> int \<Rightarrow> nat" where "month_of cal t = fst (snd (cv_fields cal (day_number t)))"

definition mday_of :: "civil \<Rightarrow> int \<Rightarrow> nat" where "mday_of cal t = snd (snd (cv_fields cal (day_number t)))"

definition hms :: "int \<Rightarrow> int \<Rightarrow> int \<Rightarrow> int \<Rightarrow> int" where
  "hms d h m s = days d + secs (3600 * h + 60 * m + s)"

text \<open>\<open>generate_date_key\<close>: the parts, padded with zeros, joined by dashes.\<close>

definition zero_pad :: "nat \<Rightarrow> int \<Rightarrow> string" where
  "zero_pad w i =
     (if i < 0 then ''-'' @ replicate (w - 1 - length (show_nat (nat (- i)))) CHR ''0'' @ show_nat (nat (- i))
      else replicate (w - length (show_nat (nat i))) CHR ''0'' @ show_nat (nat i))"

fun date_part :: "civil \<Rightarrow> int \<Rightarrow> date_level \<Rightarrow> string" where
  "date_part cal t ByYear = zero_pad 4 (year_of cal t)"
| "date_part cal t ByMonth = zero_pad 2 (int (month_of cal t))"
| "date_part cal t ByDay = zero_pad 2 (int (mday_of cal t))"
| "date_part cal t ByHour = zero_pad 2 (int (hour_of t)) @ '':00''"

definition date_key :: "civil \<Rightarrow> int \<Rightarrow> date_level list \<Rightarrow> string" where
  "date_key cal t levels = str_join ''-'' (map (date_part cal t) levels)"

text \<open>\<open>local\<close> turns a UTC time into the civil time of the machine's zone.\<close>

definition group_by_date :: "civil \<Rightarrow> (utc \<Rightarrow> int) \<Rightarrow> ('a \<Rightarrow> utc) \<Rightarrow> date_level list \<Rightarrow> 'a list \<Rightarrow> (string \<times> 'a list) list" where
  "group_by_date cal local date levels items = group_by (\<lambda>x. date_key cal (local (date x)) levels) items"

definition next_cursor :: "civil \<Rightarrow> date_level list \<Rightarrow> int \<Rightarrow> int option" where
  "next_cursor cal levels c =
     (if levels = [] then None
      else Some (case Max (set levels) of
         ByHour \<Rightarrow> c + hours 1
       | ByDay \<Rightarrow> c + days 1
       | ByMonth \<Rightarrow> hms (next_month_first cal (year_of cal c) (month_of cal c)) 0 0 0
       | ByYear \<Rightarrow> hms (cv_day cal (year_of cal c + 1) 1 1) 0 0 0))"

definition entry_or_empty :: "string \<Rightarrow> (string \<times> 'a list) list \<Rightarrow> (string \<times> 'a list) list" where
  "entry_or_empty k m = (case map_of m k of Some _ \<Rightarrow> m | None \<Rightarrow> AList.update k [] m)"

partial_function (option) fill_missing ::
  "civil \<Rightarrow> date_level list \<Rightarrow> int \<Rightarrow> int \<Rightarrow> (string \<times> 'a list) list \<Rightarrow> (string \<times> 'a list) list option" where
  "fill_missing cal levels last_t cursor m =
     (if cursor \<le> last_t then
        (let m1 = entry_or_empty (date_key cal cursor levels) m in
         case next_cursor cal levels cursor of
           None \<Rightarrow> Some m1
         | Some c \<Rightarrow> fill_missing cal levels last_t c m1)
      else Some m)"

definition get_start_end_of :: "civil \<Rightarrow> utc \<Rightarrow> date_level \<Rightarrow> utc \<times> utc" where
  "get_start_end_of cal t g =
     (let y = year_of cal t; m = month_of cal t; d = cv_day cal y m (mday_of cal t); h = int (hour_of t) in
      case g of
        ByYear \<Rightarrow> (hms (cv_day cal y 1 1) 0 0 0, hms (cv_day cal y 12 31) 23 59 59)
      | ByMonth \<Rightarrow> (hms (cv_day cal y m 1) 0 0 0, hms (next_month_first cal y m - 1) 23 59 59)
      | ByDay \<Rightarrow> (hms d 0 0 0, hms d 23 59 59)
      | ByHour \<Rightarrow> (hms d h 0 0, hms d h 59 59))"

definition sort_grouped :: "(string \<times> 'a) list \<Rightarrow> (string \<times> 'a) list" where
  "sort_grouped grouped = sort_key fst grouped"

section \<open>Reports\<close>

record financial_report =
  fr_total_transactions :: nat
  fr_average_transaction :: real
  fr_total_profit :: int
  fr_average_profit :: real
  fr_profit_margin :: real
  fr_roi :: real
  fr_sale_count :: nat
  fr_highest_revenue :: real
  fr_lowest_revenue :: real
  fr_average_revenue :: real
  fr_revenue :: real
  fr_purchases_count :: nat
  fr_highest_expense :: real
  fr_lowest_expense :: real
  fr_average_expense :: real
  fr_expenses :: real
  fr_properties :: properties

definition report_new ::
  "nat \<Rightarrow> nat \<Rightarrow> real \<Rightarrow> real \<Rightarrow> int \<Rightarrow> nat \<Rightarrow> real \<Rightarrow> real \<Rightarrow> int \<Rightarrow> financial_report" where
  "report_new total_transactions sale_count highest_revenue lowest_revenue revenue purchases_count highest_expense lowest_expense expenses =
     (let profit = revenue - expenses in
      \<lparr>fr_total_transactions = total_transactions,
       fr_average_transaction = (if 0 < total_transactions then of_int (revenue + expenses) / real total_transactions else 0),
       fr_total_profit = profit,
       fr_average_profit = (if 0 < sale_count then of_int profit / real sale_count else 0),
       fr_profit_margin = (if revenue \<noteq> 0 then of_int profit / of_int revenue * 100 else 0),
       fr_roi = (if expenses \<noteq> 0 then of_int profit / of_int expenses * 100 else 0),
       fr_sale_count = sale_count, fr_highest_revenue = highest_revenue, fr_lowest_revenue = lowest_revenue,
       fr_average_revenue = (if 0 < sale_count then of_int revenue / real sale_count else 0), fr_revenue = of_int revenue,
       fr_purchases_count = purchases_count, fr_highest_expense = highest_expense, fr_lowest_expense = lowest_expense,
       fr_average_expense = (if 0 < purchases_count then of_int expenses / real purchases_count else 0),
       fr_expenses = of_int expenses, fr_properties = None\<rparr>)"

definition report_default :: financial_report where
  "report_default = report_new 0 0 0 0 0 0 0 0 0"

definition with_properties :: "json \<Rightarrow> financial_report \<Rightarrow> financial_report" where
  "with_properties j r = r\<lparr>fr_properties := Some j\<rparr>"

definition max_or_zero :: "int list \<Rightarrow> int" where
  "max_or_zero xs = (if xs = [] then 0 else Max (set xs))"

definition min_or_zero :: "int list \<Rightarrow> int" where
  "min_or_zero xs = (if xs = [] then 0 else Min (set xs))"

definition report_of_prices :: "nat \<Rightarrow> int list \<Rightarrow> int list \<Rightarrow> financial_report" where
  "report_of_prices n sales purchases =
     report_new n (length sales) (of_int (max_or_zero sales)) (of_int (min_or_zero sales)) (sum_list sales)
       (length purchases) (of_int (max_or_zero purchases)) (of_int (min_or_zero purchases)) (sum_list purchases)"

definition quantities_by_item :: "transaction list \<Rightarrow> (string \<times> int) list" where
  "quantities_by_item ts1 = map (\<lambda>(name, items). (name, sum_list (map tx_quantity items))) (group_by tx_item_name ts1)"

definition top_quantities :: "(string \<times> int) list \<Rightarrow> (string \<times> int) list" where
  "top_quantities entries = take 5 (sort_key (\<lambda>(_, q). - q) entries)"

definition json_quantities :: "(string \<times> int) list \<Rightarrow> json" where
  "json_quantities qs = JArr (map (\<lambda>(name, q). JArr [JStr name, JInt q]) qs)"

definition sales_of :: "transaction list \<Rightarrow> transaction list" where
  "sales_of ts1 = filter (\<lambda>t. tx_type t = Sale) ts1"

definition purchases_of :: "transaction list \<Rightarrow> transaction list" where
  "purchases_of ts1 = filter (\<lambda>t. tx_type t = Purchase) ts1"

definition report_of_transactions :: "transaction list \<Rightarrow> financial_report" where
  "report_of_transactions ts1 =
     with_properties
       (JObj [(''total_credits'', JInt (sum_list (map tx_credits ts1))),
              (''most_purchased_items'', json_quantities (top_quantities (quantities_by_item (purchases_of ts1)))),
              (''most_sold_items'', json_quantities (top_quantities (quantities_by_item (sales_of ts1))))])
       (report_of_prices (length ts1) (map tx_price (sales_of ts1)) (map tx_price (purchases_of ts1)))"

definition price_or_zero :: "int option \<Rightarrow> int" where
  "price_or_zero p = (case p of Some x \<Rightarrow> x | None \<Rightarrow> 0)"

definition report_of_stock :: "stock_item list \<Rightarrow> financial_report" where
  "report_of_stock items =
     report_of_prices (length items)
       (map (\<lambda>i. price_or_zero (stk_list_price i) * stk_owned i) (filter (\<lambda>i. 0 < price_or_zero (stk_list_price i)) items))
       (map (\<lambda>i. stk_bought i * stk_owned i) (filter (\<lambda>i. 0 < stk_bought i) items))"

text \<open>Of a riven row the report reads the price paid and the listed price.\<close>

record riven_prices =
  sr_bought :: int
  sr_list_price :: "int option"

definition report_of_rivens :: "riven_prices list \<Rightarrow> financial_report" where
  "report_of_rivens items =
     report_of_prices (length items)
       (map (\<lambda>i. price_or_zero (sr_list_price i)) (filter (\<lambda>i. 0 < price_or_zero (sr_list_price i)) items))
       (map sr_bought (filter (\<lambda>i. 0 < sr_bought i) items))"

definition report_of_wishes :: "wish_item list \<Rightarrow> financial_report" where
  "report_of_wishes items =
     (let prices = map (\<lambda>i. price_or_zero (wl_list_price i)) (filter (\<lambda>i. 0 < price_or_zero (wl_list_price i)) items)
      in report_of_prices (length items) prices prices)"

section \<open>Charts and summaries\<close>

record 'n financial_graph =
  fg_labels :: "string list"
  fg_values :: "'n list"

definition graph_from :: "(string \<times> 'a list) list \<Rightarrow> ('a list \<Rightarrow> 'n) \<Rightarrow> 'n financial_graph" where
  "graph_from grouped f =
     (let entries = sort_key fst (map (\<lambda>(k, xs). (k, f xs)) grouped)
      in \<lparr>fg_labels = map fst entries, fg_values = map snd entries\<rparr>)"

definition in_span_of :: "utc \<times> utc \<Rightarrow> transaction list \<Rightarrow> transaction list" where
  "in_span_of w ts1 = filter (\<lambda>t. fst w \<le> tx_created_at t \<and> tx_created_at t \<le> snd w) ts1"

definition charted ::
  "civil \<Rightarrow> (utc \<Rightarrow> int) \<Rightarrow> utc \<times> utc \<Rightarrow> date_level list \<Rightarrow> transaction list \<Rightarrow> (financial_report \<times> int financial_graph) option" where
  "charted cal local w levels ts1 =
     (let kept = in_span_of w ts1 in
      map_option (\<lambda>g. (report_of_transactions kept, graph_from g (\<lambda>xs. fr_total_profit (report_of_transactions xs))))
        (fill_missing cal levels (snd w) (fst w) (group_by_date cal local tx_created_at levels kept)))"

definition generate_transaction_summary ::
  "civil \<Rightarrow> (utc \<Rightarrow> int) \<Rightarrow> transaction list \<Rightarrow> utc \<Rightarrow> date_level \<Rightarrow> date_level list
    \<Rightarrow> (financial_report \<times> int financial_graph) option" where
  "generate_transaction_summary cal local ts1 date g levels = charted cal local (get_start_end_of cal date g) levels ts1"

text \<open>The parts of the dashboard; \<open>None\<close> if a loop over the dates did not end.\<close>

record total_summary =
  ts_total :: financial_report
  ts_present_year :: "financial_report \<times> int financial_graph"
  ts_last_year :: "financial_report \<times> int financial_graph"

definition get_total_summary :: "civil \<Rightarrow> (utc \<Rightarrow> int) \<Rightarrow> utc \<Rightarrow> transaction list \<Rightarrow> total_summary option" where
  "get_total_summary cal local now ts1 =
     Option.bind (generate_transaction_summary cal local ts1 now ByYear [ByYear, ByMonth]) (\<lambda>this.
     Option.bind (generate_transaction_summary cal local ts1 (now - days 365) ByYear [ByYear, ByMonth]) (\<lambda>before.
       Some \<lparr>ts_total = report_of_transactions ts1, ts_present_year = this, ts_last_year = before\<rparr>))"

definition get_today_summary :: "civil \<Rightarrow> (utc \<Rightarrow> int) \<Rightarrow> utc \<Rightarrow> transaction list \<Rightarrow> (financial_report \<times> int financial_graph) option" where
  "get_today_summary cal local now ts1 = generate_transaction_summary cal local ts1 now ByDay [ByHour]"

definition get_recent_days_summary ::
  "civil \<Rightarrow> (utc \<Rightarrow> int) \<Rightarrow> utc \<Rightarrow> int \<Rightarrow> transaction list \<Rightarrow> (financial_report \<times> int financial_graph) option" where
  "get_recent_days_summary cal local now n ts1 =
     (let (s, e) = get_start_end_of cal now ByDay in charted cal local (s - days n, e) [ByYear, ByMonth, ByDay] ts1)"

fun item_type_text :: "transaction_item_type \<Rightarrow> string" where
  "item_type_text ItemTx = ''item''"
| "item_type_text RivenTx = ''riven''"

definition best_seller_reports :: "(string \<times> transaction list) list \<Rightarrow> financial_report list" where
  "best_seller_reports groups =
     List.map_filter (\<lambda>(_, g). case g of [] \<Rightarrow> None
        | t # _ \<Rightarrow> Some (with_properties (JObj [(''wfm_id'', JStr (tx_wfm_id t)), (''item_name'', JStr (tx_item_name t)),
                                             (''item_type'', JStr (item_type_text (tx_item_type t)))]) (report_of_transactions g))) groups"

definition get_best_selling_items :: "transaction list \<Rightarrow> financial_report" where
  "get_best_selling_items ts1 =
     (case sort_key (\<lambda>r. - fr_total_profit r) (best_seller_reports (group_by tx_wfm_id ts1)) of
        r # _ \<Rightarrow> r
      | [] \<Rightarrow> with_properties (JObj [(''wfm_id'', JStr ''N/A''), (''item_name'', JStr ''N/A''), (''item_type'', JStr ''N/A'')]) report_default)"

record summary_category =
  sc_icon :: string
  sc_name :: string
  sc_types :: "string list"
  sc_tags :: "string list"

definition in_category :: "summary_category \<Rightarrow> transaction \<Rightarrow> bool" where
  "in_category c t \<longleftrightarrow> list_ex (\<lambda>tag. str_trim tag \<in> set (sc_tags c)) (str_split CHR '','' (tx_tags t))
     \<or> item_type_text (tx_item_type t) \<in> set (sc_types c)"

definition get_category_summary :: "transaction list \<Rightarrow> summary_category list \<Rightarrow> financial_report list" where
  "get_category_summary ts1 cs =
     map (\<lambda>c. with_properties (JObj [(''icon'', JStr (sc_icon c)), (''name'', JStr (sc_name c))])
                (report_of_transactions (filter (in_category c) ts1))) cs"

text \<open>The report of a transaction page with its ten busiest partners; nameless partners are left out.\<close>

definition partner_reports :: "transaction list \<Rightarrow> financial_report list" where
  "partner_reports ts1 =
     map (\<lambda>(name, g). with_properties (JObj [(''user'', JStr name)]) (report_of_transactions g))
       (AList.delete ''Unknown'' (group_by (\<lambda>t. if tx_user_name t = [] then ''Unknown'' else tx_user_name t) ts1))"

definition top_partners :: "transaction list \<Rightarrow> financial_report list" where
  "top_partners ts1 = take 10 (sort_key (\<lambda>r. - int (fr_total_transactions r)) (partner_reports ts1))"

section \<open>Groups partition\<close>

lemma group_by_snoc: "group_by key (xs @ [x]) = group_add (key x) x (group_by key xs)"
  by (simp add: group_by_def)

lemma group_by_Nil [simp]: "group_by key [] = []"
  by (simp add: group_by_def)

lemma group_add_lookup:
  "map_of (group_add k x m) k' = (if k' = k then Some ((case map_of m k of Some xs \<Rightarrow> xs | None \<Rightarrow> []) @ [x]) else map_of m k')"
  by (simp add: group_add_def update_conv')

lemma group_by_lookup:
  "map_of (group_by key items) k = (if filter (\<lambda>x. key x = k) items = [] then None else Some (filter (\<lambda>x. key x = k) items))"
  by (induction items rule: rev_induct) (auto simp: group_by_snoc group_add_lookup split: option.split if_splits)

lemma group_by_distinct: "distinct (map fst (group_by key items))"
  by (induction items rule: rev_induct) (simp_all add: group_by_snoc group_add_def distinct_update)

lemma group_add_sum:
  "sum_list (map (\<lambda>(_, xs). sum_list (map f xs)) (group_add k x m)) = sum_list (map (\<lambda>(_, xs). sum_list (map f xs)) m) + f x"
  for f :: "'a \<Rightarrow> int"
  unfolding group_add_def by (induction m) auto

lemma group_by_sum: "sum_list (map (\<lambda>(_, xs). sum_list (map f xs)) (group_by key items)) = sum_list (map f items)"
  for f :: "'a \<Rightarrow> int"
  by (induction items rule: rev_induct) (simp_all add: group_by_snoc group_add_sum)

section \<open>Figures\<close>

definition signed_price :: "transaction \<Rightarrow> int" where
  "signed_price t = (case tx_type t of Sale \<Rightarrow> tx_price t | Purchase \<Rightarrow> - tx_price t)"

lemma report_profit: "fr_total_profit (report_of_transactions xs) = sum_list (map signed_price xs)"
proof -
  have "sum_list (map tx_price (sales_of xs)) - sum_list (map tx_price (purchases_of xs)) = sum_list (map signed_price xs)"
    by (induction xs) (auto simp: sales_of_def purchases_of_def signed_price_def split: transaction_type.split)
  then show ?thesis by (simp add: report_of_transactions_def with_properties_def report_of_prices_def report_new_def Let_def)
qed

lemma sale_or_purchase: "length (sales_of xs) + length (purchases_of xs) = length xs"
proof (induction xs)
  case (Cons x xs)
  then show ?case by (cases "tx_type x") (simp_all add: sales_of_def purchases_of_def)
qed (simp add: sales_of_def purchases_of_def)

lemma mean_bounds:
  assumes "xs \<noteq> []"
  shows "of_int (min_or_zero xs) \<le> of_int (sum_list xs) / real (length xs)"
    and "of_int (sum_list xs) / real (length xs) \<le> real_of_int (max_or_zero xs)"
proof -
  have n: "0 < real (length xs)" using assms by simp
  have "int (length xs) * Min (set xs) \<le> sum_list xs"
    using sum_list_mono[of xs "\<lambda>_. Min (set xs)" "\<lambda>x. x"] by (simp add: sum_list_triv)
  then have "real (length xs) * of_int (Min (set xs)) \<le> of_int (sum_list xs)"
    by (metis of_int_le_iff of_int_mult of_int_of_nat_eq)
  then show "of_int (min_or_zero xs) \<le> of_int (sum_list xs) / real (length xs)"
    using n assms by (simp add: min_or_zero_def pos_le_divide_eq mult.commute)
  have "sum_list xs \<le> int (length xs) * Max (set xs)"
    using sum_list_mono[of xs "\<lambda>x. x" "\<lambda>_. Max (set xs)"] by (simp add: sum_list_triv)
  then have "of_int (sum_list xs) \<le> real (length xs) * of_int (Max (set xs))"
    by (metis of_int_le_iff of_int_mult of_int_of_nat_eq)
  then show "of_int (sum_list xs) / real (length xs) \<le> real_of_int (max_or_zero xs)"
    using n assms by (simp add: max_or_zero_def pos_divide_le_eq mult.commute)
qed

text \<open>
  The figures of a report agree with each other: sales and purchases add up to the transactions, the profit is what
  was taken less what was paid, and the average of each side lies between its lowest and its highest price.
\<close>

theorem report_is_consistent:
  "fr_sale_count (report_of_transactions xs) + fr_purchases_count (report_of_transactions xs) = fr_total_transactions (report_of_transactions xs)
   \<and> of_int (fr_total_profit (report_of_transactions xs)) = fr_revenue (report_of_transactions xs) - fr_expenses (report_of_transactions xs)
   \<and> fr_lowest_revenue (report_of_transactions xs) \<le> fr_average_revenue (report_of_transactions xs)
   \<and> fr_average_revenue (report_of_transactions xs) \<le> fr_highest_revenue (report_of_transactions xs)
   \<and> fr_lowest_expense (report_of_transactions xs) \<le> fr_average_expense (report_of_transactions xs)
   \<and> fr_average_expense (report_of_transactions xs) \<le> fr_highest_expense (report_of_transactions xs)"
proof -
  let ?s = "map tx_price (sales_of xs)" and ?p = "map tx_price (purchases_of xs)"
  let ?r = "report_of_transactions xs" and ?avg = "\<lambda>ys. if 0 < length ys then of_int (sum_list ys) / real (length ys) else 0"
  have side: "of_int (min_or_zero ys) \<le> ?avg ys \<and> ?avg ys \<le> real_of_int (max_or_zero ys)" for ys
    using mean_bounds[of ys] by (auto simp: min_or_zero_def max_or_zero_def)
  have sale: "fr_lowest_revenue ?r = of_int (min_or_zero ?s)" "fr_average_revenue ?r = ?avg ?s"
      "fr_highest_revenue ?r = of_int (max_or_zero ?s)"
    and bought: "fr_lowest_expense ?r = of_int (min_or_zero ?p)" "fr_average_expense ?r = ?avg ?p"
      "fr_highest_expense ?r = of_int (max_or_zero ?p)"
    by (simp_all add: report_of_transactions_def with_properties_def report_of_prices_def report_new_def Let_def)
  have rest: "fr_sale_count ?r + fr_purchases_count ?r = fr_total_transactions ?r"
    "of_int (fr_total_profit ?r) = fr_revenue ?r - fr_expenses ?r"
    using sale_or_purchase[of xs]
    by (simp_all add: report_of_transactions_def with_properties_def report_of_prices_def report_new_def Let_def)
  show ?thesis
    unfolding sale bought using rest side[of ?s] side[of ?p] by blast
qed

text \<open>The wish list is its own counterpart: its report shows no profit whatever the list holds.\<close>

lemma wish_report_has_no_profit: "fr_total_profit (report_of_wishes items) = 0"
  by (simp add: report_of_wishes_def report_of_prices_def report_new_def Let_def)

section \<open>The dates of a chart\<close>

lemma civil_fields_iff:
  assumes "civil_ok cal"
  shows "cv_fields cal n = (y, m, d) \<longleftrightarrow>
    1 \<le> m \<and> m \<le> 12 \<and> cv_day cal y m 1 \<le> n \<and> n < next_month_first cal y m \<and> int d = n - cv_day cal y m 1 + 1"
  by (rule conjunct1[OF iffD1[OF civil_ok_def assms], rule_format])

lemma civil_day_of_fields:
  assumes "civil_ok cal" and "cv_fields cal n = (y, m, d)"
  shows "cv_day cal y m d = n"
  using conjunct1[OF conjunct2[OF iffD1[OF civil_ok_def assms(1)]], rule_format, OF assms(2)] .

lemma civil_month_not_empty:
  assumes "civil_ok cal" and "1 \<le> m" and "m \<le> 12"
  shows "cv_day cal y m 1 < next_month_first cal y m"
  by (rule conjunct1[OF conjunct2[OF conjunct2[OF iffD1[OF civil_ok_def assms(1)]]], rule_format]) (use assms in simp)

lemma civil_year_end:
  assumes "civil_ok cal"
  shows "cv_day cal y 12 31 = next_month_first cal y 12 - 1"
  by (rule conjunct2[OF conjunct2[OF conjunct2[OF iffD1[OF civil_ok_def assms(1)]]], rule_format])

lemma civil_fieldsD:
  assumes "civil_ok cal" and "cv_fields cal n = (y, m, d)"
  shows "1 \<le> m" and "m \<le> 12" and "cv_day cal y m 1 \<le> n" and "n < next_month_first cal y m"
  using iffD1[OF civil_fields_iff[OF assms(1)] assms(2)] by simp_all

lemma civil_fieldsI:
  assumes "civil_ok cal" and "1 \<le> m" and "m \<le> 12" and "cv_day cal y m 1 \<le> n" and "n < next_month_first cal y m"
  shows "cv_fields cal n = (y, m, nat (n - cv_day cal y m 1 + 1))"
  by (rule iffD2[OF civil_fields_iff[OF assms(1)]]) (use assms in simp)

lemma days_split: "c = days (day_number c) + c mod days 1"
  by (simp add: day_number_def days_def hours_def secs_def)

lemma day_length: "0 \<le> c mod days 1" "c mod days 1 < days 1"
  by (simp_all add: days_def hours_def secs_def)

lemma days_mono: "days a < days b \<longleftrightarrow> a < b" "days (a + b) = days a + days b"
  by (simp_all add: days_def hours_def secs_def)

lemma month_in_year:
  assumes "civil_ok cal" and "1 \<le> m" and "m \<le> 12"
  shows "next_month_first cal y m \<le> cv_day cal (y + 1) 1 1"
  using assms(2,3)
proof (induction "12 - m" arbitrary: m)
  case 0
  then show ?case by (simp add: next_month_first_def)
next
  case (Suc k)
  then have m: "m < 12" "1 \<le> m" by simp_all
  have "next_month_first cal y m = cv_day cal y (m + 1) 1" using m by (simp add: next_month_first_def)
  also have "\<dots> < next_month_first cal y (m + 1)" using civil_month_not_empty[OF assms(1)] m by simp
  also have "\<dots> \<le> cv_day cal (y + 1) 1 1" using Suc m by simp
  finally show ?case by simp
qed

lemma next_cursor_later:
  assumes "civil_ok cal" and "next_cursor cal levels c = Some c'"
  shows "c < c'"
proof -
  obtain y m d where f: "cv_fields cal (day_number c) = (y, m, d)" by (cases "cv_fields cal (day_number c)") auto
  note mo = civil_fieldsD[OF assms(1) f]
  have later: "c < hms n 0 0 0" if "day_number c < n" for n
  proof -
    have "c < days (day_number c + 1)" using days_split[of c] day_length[of c] days_mono(2)[of "day_number c" 1] by simp
    also have "\<dots> \<le> days n" using that days_mono(1)[of n "day_number c + 1"] by simp
    finally show ?thesis by (simp add: hms_def secs_def)
  qed
  have "day_number c < next_month_first cal y m" using mo by simp
  moreover have "day_number c < cv_day cal (y + 1) 1 1" using mo month_in_year[OF assms(1) mo(1,2), of y] by simp
  ultimately show ?thesis
    using assms(2) f
    by (auto simp: next_cursor_def year_of_def month_of_def later days_def hours_def secs_def split: if_splits date_level.splits)
qed

lemma fill_missing_returns:
  assumes "civil_ok cal"
  shows "\<exists>m'. fill_missing cal levels last_t cursor m = Some m'"
proof (induction "nat (last_t + 1 - cursor)" arbitrary: cursor m rule: less_induct)
  case less
  show ?case
  proof (cases "cursor \<le> last_t")
    case True
    have "\<exists>m'. fill_missing cal levels last_t c (entry_or_empty (date_key cal cursor levels) m) = Some m'"
      if "next_cursor cal levels cursor = Some c" for c
      using less[of c] next_cursor_later[OF assms that] True by simp
    then show ?thesis using True by (subst fill_missing.simps) (auto simp: Let_def split: option.split)
  qed (simp add: fill_missing.simps)
qed

lemma fill_missing_invariant:
  assumes step: "\<And>k m. P m \<Longrightarrow> P (entry_or_empty k m)"
    and run: "fill_missing cal levels last_t cursor m = Some m'" and start: "P m"
  shows "P m'"
proof (rule fill_missing.raw_induct[where P = "\<lambda>cal levels l c m m'. P m \<longrightarrow> P m'", OF _ run, THEN mp, OF _ start])
  fix f cal levels last_t cursor m m'
  assume IH: "\<And>cal levels last_t cursor m m'. f cal levels last_t cursor m = Some m' \<Longrightarrow> P m \<longrightarrow> P m'"
    and body: "(if cursor \<le> last_t
       then let m1 = entry_or_empty (date_key cal cursor levels) m
            in case next_cursor cal levels cursor of None \<Rightarrow> Some m1 | Some c \<Rightarrow> f cal levels last_t c m1
       else Some m) = Some m'"
  show "P m \<longrightarrow> P m'"
    using IH body step[of m "date_key cal cursor levels"] by (auto simp: Let_def split: if_splits option.splits)
qed

lemma entry_or_empty_keys: "fst ` set (entry_or_empty k m) = insert k (fst ` set m)"
proof (cases "map_of m k")
  case (Some xs)
  then have "k \<in> fst ` set m" by (force dest: map_of_SomeD)
  then show ?thesis using Some by (simp add: entry_or_empty_def insert_absorb)
qed (simp add: entry_or_empty_def dom_update)

lemma entry_or_empty_distinct: "distinct (map fst m) \<Longrightarrow> distinct (map fst (entry_or_empty k m))"
  by (simp add: entry_or_empty_def distinct_update split: option.split)

definition chart_sum :: "(string \<times> transaction list) list \<Rightarrow> int" where
  "chart_sum m = sum_list (map (\<lambda>(_, xs). sum_list (map signed_price xs)) m)"

lemma update_absent: "map_of m k = None \<Longrightarrow> AList.update k v m = m @ [(k, v)]"
  by (induction m) (auto split: if_splits)

lemma entry_or_empty_sum: "chart_sum (entry_or_empty k m) = chart_sum m"
  by (simp add: entry_or_empty_def chart_sum_def update_absent split: option.split)

lemma graph_values_sum: "sum_list (fg_values (graph_from m f)) = sum_list (map (\<lambda>(_, xs). f xs) m)"
  for f :: "'a list \<Rightarrow> int"
proof -
  let ?e = "map (\<lambda>(k, xs). (k, f xs)) m"
  have same: "mset (map snd (sort_key fst ?e)) = mset (map snd ?e)" by (simp only: mset_map mset_sort)
  have "sum_list (map snd (sort_key fst ?e)) = sum_list (map snd ?e)"
    by (simp only: sum_mset_sum_list[symmetric] same)
  also have "map snd ?e = map (\<lambda>(_, xs). f xs) m" by (simp add: case_prod_beta comp_def)
  finally show ?thesis by (simp add: graph_from_def Let_def)
qed

lemma graph_labels:
  "sorted (fg_labels (graph_from m f))"
  "set (fg_labels (graph_from m f)) = fst ` set m"
  "distinct (map fst m) \<Longrightarrow> distinct (fg_labels (graph_from m f))"
proof -
  let ?e = "map (\<lambda>(k, xs). (k, f xs)) m"
  have l: "fg_labels (graph_from m f) = map fst (sort_key fst ?e)" by (simp add: graph_from_def Let_def)
  show "sorted (fg_labels (graph_from m f))" by (simp add: l)
  show "set (fg_labels (graph_from m f)) = fst ` set m" by (force simp: l)
  assume d: "distinct (map fst m)"
  have "map fst ?e = map fst m" by (simp add: case_prod_beta comp_def)
  moreover have "mset (map fst (sort_key fst ?e)) = mset (map fst ?e)" by (simp only: mset_map mset_sort)
  ultimately show "distinct (fg_labels (graph_from m f))"
    unfolding l using d mset_eq_imp_distinct_iff[of "map fst (sort_key fst ?e)" "map fst ?e"] by (simp only:)
qed

lemma chart_sums:
  assumes "civil_ok cal"
  shows "\<exists>g. charted cal local w levels xs = Some (report_of_transactions (in_span_of w xs), g)
    \<and> sorted (fg_labels g) \<and> distinct (fg_labels g) \<and> length (fg_values g) = length (fg_labels g)
    \<and> sum_list (fg_values g) = fr_total_profit (report_of_transactions (in_span_of w xs))"
proof -
  let ?kept = "in_span_of w xs"
  let ?m = "group_by_date cal local tx_created_at levels ?kept"
  obtain m' where m': "fill_missing cal levels (snd w) (fst w) ?m = Some m'"
    using fill_missing_returns[OF assms] by blast
  have d: "distinct (map fst m')"
    by (rule fill_missing_invariant[where P = "\<lambda>m. distinct (map fst m)", OF entry_or_empty_distinct m']) (simp_all add: group_by_date_def group_by_distinct)
  have "chart_sum m' = chart_sum ?m"
    by (rule fill_missing_invariant[where P = "\<lambda>m. chart_sum m = chart_sum ?m", OF _ m' refl]) (simp add: entry_or_empty_sum)
  also have "\<dots> = sum_list (map signed_price ?kept)" by (simp add: chart_sum_def group_by_date_def group_by_sum)
  finally have "sum_list (fg_values (graph_from m' (\<lambda>ys. fr_total_profit (report_of_transactions ys))))
      = fr_total_profit (report_of_transactions ?kept)"
    by (simp add: graph_values_sum report_profit chart_sum_def)
  moreover have "length (fg_values (graph_from m' f)) = length (fg_labels (graph_from m' f))" for f :: "transaction list \<Rightarrow> int"
    by (simp add: graph_from_def Let_def)
  ultimately show ?thesis using m' graph_labels(1,3) d by (auto simp: charted_def Let_def)
qed

section \<open>Windows\<close>

definition month31_calendar :: civil where
  "month31_calendar = \<lparr>cv_fields = \<lambda>n. (n div 372, nat (n mod 372 div 31) + 1, nat (n mod 31) + 1),
     cv_day = \<lambda>y m d. 372 * y + 31 * (int m - 1) + int d - 1\<rparr>"

definition demo_trade :: "transaction_type \<Rightarrow> string \<Rightarrow> int \<Rightarrow> transaction" where
  "demo_trade ty i p =
     \<lparr>tx_id = 0, tx_wfm_id = i, tx_wfm_url = i, tx_item_name = i, tx_item_type = ItemTx, tx_unique_name = i, tx_sub_type = None,
      tx_tags = [], tx_type = ty, tx_quantity = 1, tx_user_name = ''u'', tx_price = p, tx_profit = None, tx_credits = 0,
      tx_updated_at = days 700, tx_created_at = days 700 + secs 86399 + 5, tx_properties = None\<rparr>"

lemma demo_date_parts:
  "cv_fields month31_calendar (372 * q + (31 * a + r)) = (q, nat a + 1, nat r + 1)" if "0 \<le> a" "a < 12" "0 \<le> r" "r < 31"
proof -
  let ?n = "372 * q + (31 * a + r)"
  have y: "?n div 372 = q" using that by (intro int_div_pos_eq[of _ 372 q "31 * a + r"]) simp_all
  have rest: "?n mod 372 = 31 * a + r" using that by (intro int_mod_pos_eq[of _ 372 q "31 * a + r"]) simp_all
  have m: "?n mod 372 div 31 = a" unfolding rest using that by (intro int_div_pos_eq[of _ 31 a r]) simp_all
  have "?n mod 31 = r" using that by (intro int_mod_pos_eq[of _ 31 "12 * q + a" r]) simp_all
  with y m show ?thesis by (simp add: month31_calendar_def del: mod_mult_self1 mod_mult_self2)
qed

lemma demo_date_split:
  obtains q a r where "n = 372 * q + (31 * a + r)" "0 \<le> a" "a < 12" "0 \<le> r" "r < (31::int)"
proof -
  let ?k = "n mod 372"
  have "0 \<le> ?k" "?k < 372" by simp_all
  moreover have "?k = 31 * (?k div 31) + ?k mod 31" "0 \<le> ?k mod 31" "?k mod 31 < 31" by simp_all
  ultimately have "n = 372 * (n div 372) + (31 * (?k div 31) + ?k mod 31)"
    "0 \<le> ?k div 31" "?k div 31 < 12" "0 \<le> ?k mod 31" "?k mod 31 < 31"
    using minus_mod_eq_mult_div[of n 372] by linarith+
  then show thesis by (rule that)
qed

lemma demo_month_first:
  "1 \<le> m \<Longrightarrow> next_month_first month31_calendar y m = 372 * y + 31 * int m"
  "cv_day month31_calendar y m d = 372 * y + (31 * (int m - 1) + (int d - 1))"
  by (simp_all add: next_month_first_def month31_calendar_def algebra_simps)

lemma demo_month_unique:
  fixes q a r y k :: int
  assumes "0 \<le> a" and "a < 12" and "0 \<le> r" and "r < 31" and "1 \<le> k" and "k \<le> 12"
    and "372 * y + 31 * (k - 1) \<le> 372 * q + (31 * a + r)" and "372 * q + (31 * a + r) < 372 * y + 31 * k"
  shows "q = y \<and> a + 1 = k"
proof -
  have b: "a \<le> 11" "r \<le> 30" "372 * y + 31 * k - 31 \<le> 372 * q + (31 * a + r)" "372 * q + (31 * a + r) + 1 \<le> 372 * y + 31 * k"
    using assms by simp_all
  have "y \<le> q" using b assms(5) by simp
  moreover have "q \<le> y" using b assms(1,3,6) by simp
  ultimately have "q = y" by simp
  moreover have "a + 1 \<le> k" using b assms(3) \<open>q = y\<close> by simp
  moreover have "k \<le> a + 1" using b \<open>q = y\<close> by simp
  ultimately show ?thesis by simp
qed

lemma month31_calendar_ok: "civil_ok month31_calendar"
proof -
  have fields: "cv_fields month31_calendar n = (y, m, d) \<longleftrightarrow>
      1 \<le> m \<and> m \<le> 12 \<and> cv_day month31_calendar y m 1 \<le> n \<and> n < next_month_first month31_calendar y m
      \<and> int d = n - cv_day month31_calendar y m 1 + 1" for n y m d
  proof (cases "1 \<le> m")
    case True
    obtain q a r where n: "n = 372 * q + (31 * a + r)" and b: "0 \<le> a" "a < 12" "0 \<le> r" "r < 31" by (rule demo_date_split)
    have "cv_fields month31_calendar n = (q, nat a + 1, nat r + 1)" unfolding n using b by (rule demo_date_parts)
    then have "cv_fields month31_calendar n = (y, m, d) \<longleftrightarrow> q = y \<and> a + 1 = int m \<and> r + 1 = int d" using b by auto
    also have "\<dots> \<longleftrightarrow> int m \<le> 12 \<and> 372 * y + 31 * (int m - 1) \<le> n \<and> n < 372 * y + 31 * int m
        \<and> int d = n - (372 * y + 31 * (int m - 1)) + 1"
      (is "?l = ?r")
    proof
      assume ?r
      then have c: "int m \<le> 12" "372 * y + 31 * (int m - 1) \<le> n" "n < 372 * y + 31 * int m"
        "int d = n - (372 * y + 31 * (int m - 1)) + 1"
        by simp_all
      have "1 \<le> int m" using True by simp
      then have "q = y \<and> a + 1 = int m" using demo_month_unique[OF b, of "int m" y q] c unfolding n by blast
      then show ?l using c n by simp
    qed (use n b in simp)
    finally show ?thesis using True by (simp add: demo_month_first)
  next
    case False
    then show ?thesis by (auto simp: month31_calendar_def)
  qed
  moreover have "cv_day month31_calendar y m d = n" if "cv_fields month31_calendar n = (y, m, d)" for n y m d
    using that[unfolded fields] by (simp add: demo_month_first)
  moreover have "1 \<le> m \<Longrightarrow> m \<le> 12 \<Longrightarrow> cv_day month31_calendar y m 1 < next_month_first month31_calendar y m" for y m
    by (simp add: demo_month_first)
  moreover have "cv_day month31_calendar y 12 31 = next_month_first month31_calendar y 12 - 1" for y
    by (simp add: demo_month_first)
  ultimately show ?thesis unfolding civil_ok_def by blast
qed

text \<open>
  A chart adds up: with any calendar that obeys its laws the loop over the dates ends, the labels come sorted and once
  each, and the values of the points sum to the profit of the report beside them.
\<close>

theorem chart_adds_up:
  assumes "civil_ok cal"
  shows "\<exists>g. charted cal local w levels xs = Some (report_of_transactions (in_span_of w xs), g)
    \<and> sorted (fg_labels g) \<and> distinct (fg_labels g) \<and> length (fg_values g) = length (fg_labels g)
    \<and> sum_list (fg_values g) = fr_total_profit (report_of_transactions (in_span_of w xs))"
  by (rule chart_sums[OF assms])

theorem chart_adds_up_witness:
  "\<exists>g. charted month31_calendar (\<lambda>t. t + hours 2) (days 690, days 710) [ByYear, ByMonth, ByDay] [demo_trade Sale ''a'' 40, demo_trade Purchase ''b'' 30]
      = Some (report_of_transactions [demo_trade Sale ''a'' 40, demo_trade Purchase ''b'' 30], g)
    \<and> sum_list (fg_values g) = 10"
proof -
  have "in_span_of (days 690, days 710) [demo_trade Sale ''a'' 40, demo_trade Purchase ''b'' 30]
      = [demo_trade Sale ''a'' 40, demo_trade Purchase ''b'' 30]"
    by (simp add: in_span_of_def demo_trade_def days_def secs_def)
  then show ?thesis
    using chart_adds_up[OF month31_calendar_ok, of "\<lambda>t. t + hours 2" "(days 690, days 710)" "[ByYear, ByMonth, ByDay]"
        "[demo_trade Sale ''a'' 40, demo_trade Purchase ''b'' 30]"]
    by (auto simp: report_profit signed_price_def demo_trade_def)
qed

lemma window_of_day:
  assumes "civil_ok cal"
  shows "get_start_end_of cal t ByDay = (days (day_number t), days (day_number t) + secs 86399)"
proof -
  obtain y m d where f: "cv_fields cal (day_number t) = (y, m, d)" by (cases "cv_fields cal (day_number t)") auto
  then show ?thesis
    using civil_day_of_fields[OF assms f] by (simp add: get_start_end_of_def Let_def hms_def year_of_def month_of_def mday_of_def secs_def)
qed

text \<open>
  A window is cut at whole seconds: a transaction in the last second of its day, with any fraction of that second on
  its time, lies in no day's window, so the day it belongs to never shows it.
\<close>

theorem last_second_is_lost:
  assumes "civil_ok cal" and "0 < f" and "f < secs 1" and "tx_created_at t = days n + secs 86399 + f"
  shows "in_span_of (get_start_end_of cal date ByDay) [t] = []"
proof -
  let ?d = "day_number date"
  have "\<not> (days ?d \<le> days n + secs 86399 + f \<and> days n + secs 86399 + f \<le> days ?d + secs 86399)"
  proof
    assume h: "days ?d \<le> days n + secs 86399 + f \<and> days n + secs 86399 + f \<le> days ?d + secs 86399"
    then have "86400000000000 * n + f \<le> 86400000000000 * ?d" by (simp add: days_def secs_def)
    then have "n + 1 \<le> ?d" using assms(2) by linarith
    moreover have "86400000000000 * ?d < 86400000000000 * (n + 1)" using h assms(3) by (simp add: days_def secs_def)
    ultimately show False by simp
  qed
  then show ?thesis using assms(4) by (simp add: in_span_of_def window_of_day[OF assms(1)])
qed

theorem last_second_is_lost_witness:
  "in_span_of (get_start_end_of month31_calendar (days 700 + hours 3) ByDay) [demo_trade Sale ''a'' 40] = []"
  by (rule last_second_is_lost[where f = 5 and n = 700, OF month31_calendar_ok]) (simp_all add: secs_def demo_trade_def)

lemma year_covers_its_months:
  assumes "civil_ok cal" and "1 \<le> m" and "m \<le> 12" and "cv_day cal y 1 1 \<le> n" and "n < next_month_first cal y m"
  shows "fst (cv_fields cal n) = y"
  using assms(2-5)
proof (induction m rule: nat_induct_at_least)
  case base
  then show ?case using civil_fieldsI[OF assms(1), of 1 y n] by simp
next
  case (Suc m)
  show ?case
  proof (cases "n < cv_day cal y (Suc m) 1")
    case True
    then show ?thesis using Suc by (simp add: next_month_first_def)
  next
    case False
    then show ?thesis using civil_fieldsI[OF assms(1), of "Suc m" y n] Suc by simp
  qed
qed

text \<open>
  The card for the year before steps back 365 days: on the last day of a longer year that is the same year, and the
  card repeats this year's figures.
\<close>

theorem year_before_can_be_this_year:
  assumes "civil_ok cal" and "cv_day cal (year_of cal now) 1 1 + 365 \<le> day_number now"
  shows "generate_transaction_summary cal local xs (now - days 365) ByYear levels
    = generate_transaction_summary cal local xs now ByYear levels"
proof -
  have earlier: "day_number (now - days 365) = day_number now - 365" by (simp add: day_number_def days_def secs_def)
  obtain y m d where f: "cv_fields cal (day_number now) = (y, m, d)" by (cases "cv_fields cal (day_number now)") auto
  obtain y' m' d' where f': "cv_fields cal (day_number now - 365) = (y', m', d')"
    by (cases "cv_fields cal (day_number now - 365)") auto
  have y: "cv_day cal y 1 1 + 365 \<le> day_number now" using assms(2) f by (simp add: year_of_def)
  have "day_number now - 365 < next_month_first cal y m" using civil_fieldsD(4)[OF assms(1) f] by simp
  then have "y' = y"
    using year_covers_its_months[OF assms(1) civil_fieldsD(1,2)[OF assms(1) f], of y "day_number now - 365"] y f' by simp
  then show ?thesis
    using f f' earlier by (simp add: generate_transaction_summary_def get_start_end_of_def year_of_def Let_def)
qed

theorem year_before_can_be_this_year_witness:
  "generate_transaction_summary month31_calendar id [demo_trade Sale ''a'' 40] (days 743 - days 365) ByYear [ByYear, ByMonth]
    = generate_transaction_summary month31_calendar id [demo_trade Sale ''a'' 40] (days 743) ByYear [ByYear, ByMonth]"
  by (rule year_before_can_be_this_year[OF month31_calendar_ok])
    (simp add: month31_calendar_def year_of_def day_number_def days_def secs_def)

section \<open>Today\<close>

definition hour_label :: "nat \<Rightarrow> string" where "hour_label h = zero_pad 2 (int h) @ '':00''"

lemma filter_some: "filter P xs \<noteq> [] \<Longrightarrow> \<exists>x \<in> set xs. P x"
  by (auto simp: filter_empty_conv)

lemma hour_key: "date_key cal t [ByHour] = hour_label (hour_of t)"
  by (simp add: date_key_def hour_label_def)

lemma hour_small: "hour_of t < 24"
proof -
  have "t mod days 1 div hours 1 < 24" using day_length(2)[of t] by (simp add: days_def hours_def secs_def div_less_iff_less_mult)
  then show ?thesis by (simp add: hour_of_def)
qed

lemma hour_of_step: "k < 24 \<Longrightarrow> hour_of (days d + hours (int k)) = k"
proof -
  assume k: "k < 24"
  have "(days d + hours (int k)) mod days 1 = hours (int k)"
    using k by (intro int_mod_pos_eq[of _ _ d]) (simp_all add: days_def hours_def secs_def)
  then show ?thesis by (simp add: hour_of_def hours_def secs_def)
qed

lemma fill_hours_keys:
  assumes "k \<le> 24" and "fill_missing cal [ByHour] (days d + secs 86399) (days d + hours (int k)) m = Some m'"
  shows "fst ` set m' = fst ` set m \<union> hour_label ` {k..<24}"
  using assms
proof (induction "24 - k" arbitrary: k m)
  case 0
  then have "k = 24" by simp
  then have "m' = m" using 0(3) by (subst (asm) fill_missing.simps) (simp add: days_def hours_def secs_def)
  then show ?case using \<open>k = 24\<close> by simp
next
  case (Suc n)
  then have k: "k < 24" by simp
  have "days d + hours (int k) \<le> days d + secs 86399" using k by (simp add: hours_def secs_def)
  moreover have "days d + hours (int k) + hours 1 = days d + hours (int (Suc k))" by (simp add: hours_def secs_def)
  moreover note hour_of_step[OF k, of d]
  ultimately have "fill_missing cal [ByHour] (days d + secs 86399) (days d + hours (int (Suc k))) (entry_or_empty (hour_label k) m) = Some m'"
    using Suc(4) by (subst (asm) fill_missing.simps) (simp add: Let_def next_cursor_def hour_key add.assoc)
  from Suc(1)[OF _ _ this] Suc(2) k have "fst ` set m' = insert (hour_label k) (fst ` set m) \<union> hour_label ` {Suc k..<24}"
    by (simp add: entry_or_empty_keys)
  moreover have "{k..<24} = insert k {Suc k..<24}" using k by auto
  ultimately show ?case by auto
qed

lemma hour_labels_sorted: "sorted (map hour_label [0..<24])" "distinct (map hour_label [0..<24])"
  by code_simp+

text \<open>
  C40. Today's chart has one point for each hour of the day, in order, whatever the machine's zone and whatever was traded,
  and its points add up to the profit of the day.
\<close>

theorem today_has_every_hour:
  assumes "civil_ok cal"
  shows "\<exists>r g. get_today_summary cal local now xs = Some (r, g) \<and> fg_labels g = map hour_label [0..<24]
    \<and> sum_list (fg_values g) = fr_total_profit r"
proof -
  let ?w = "get_start_end_of cal now ByDay" and ?d = "day_number now"
  let ?m = "group_by_date cal local tx_created_at [ByHour] (in_span_of ?w xs)"
  obtain m' where m': "fill_missing cal [ByHour] (snd ?w) (fst ?w) ?m = Some m'"
    using fill_missing_returns[OF assms] by blast
  have "fill_missing cal [ByHour] (days ?d + secs 86399) (days ?d + hours (int 0)) ?m = Some m'"
    using m' by (simp add: window_of_day[OF assms] hours_def secs_def)
  then have "fst ` set m' = fst ` set ?m \<union> hour_label ` {0..<24}" by (rule fill_hours_keys[rotated]) simp
  moreover have "fst ` set ?m \<subseteq> hour_label ` {0..<24}"
  proof
    fix k
    assume "k \<in> fst ` set ?m"
    then obtain ys where "map_of ?m k = Some ys" by (metis dom_map_of_conv_image_fst domD)
    then have "filter (\<lambda>x. date_key cal (local (tx_created_at x)) [ByHour] = k) (in_span_of ?w xs) \<noteq> []"
      by (auto simp: group_by_date_def group_by_lookup split: if_splits)
    from filter_some[OF this] obtain x :: transaction where "date_key cal (local (tx_created_at x)) [ByHour] = k" by blast
    then show "k \<in> hour_label ` {0..<24}" using hour_small by (force simp: hour_key)
  qed
  ultimately have keys: "fst ` set m' = set (map hour_label [0..<24])" by auto
  let ?g = "graph_from m' (\<lambda>ys. fr_total_profit (report_of_transactions ys))"
  obtain g where g: "charted cal local ?w [ByHour] xs = Some (report_of_transactions (in_span_of ?w xs), g)"
    "sorted (fg_labels g)" "distinct (fg_labels g)" "sum_list (fg_values g) = fr_total_profit (report_of_transactions (in_span_of ?w xs))"
    using chart_sums[OF assms, of local ?w "[ByHour]" xs] by blast
  have "g = ?g" using g(1) m' by (simp add: charted_def Let_def)
  then have "set (fg_labels g) = set (map hour_label [0..<24])" using keys by (simp add: graph_labels(2))
  then have "fg_labels g = map hour_label [0..<24]" using sorted_distinct_set_unique g(2,3) hour_labels_sorted by blast
  then show ?thesis using g by (simp add: get_today_summary_def generate_transaction_summary_def)
qed

theorem today_has_every_hour_witness:
  "\<exists>r g. get_today_summary month31_calendar (\<lambda>t. t + hours 2) (days 700) [demo_trade Sale ''a'' 40, demo_trade Purchase ''b'' 30] = Some (r, g)
    \<and> fg_labels g = map hour_label [0..<24] \<and> sum_list (fg_values g) = fr_total_profit r"
  by (rule today_has_every_hour[OF month31_calendar_ok])

section \<open>Best seller\<close>

text \<open>
  The best seller is the item whose transactions made the most profit: no item of the list has a greater one, and its
  figures are those of one item of the list.
\<close>

theorem best_seller_is_best:
  assumes "t \<in> set xs"
  shows "fr_total_profit (report_of_transactions (filter (\<lambda>u. tx_wfm_id u = tx_wfm_id t) xs)) \<le> fr_total_profit (get_best_selling_items xs)
    \<and> (\<exists>b \<in> set xs. fr_total_profit (get_best_selling_items xs)
          = fr_total_profit (report_of_transactions (filter (\<lambda>u. tx_wfm_id u = tx_wfm_id b) xs)))"
proof -
  let ?g = "group_by tx_wfm_id xs" and ?of = "\<lambda>i. filter (\<lambda>u. tx_wfm_id u = i) xs"
  let ?reports = "best_seller_reports ?g" and ?profit = "\<lambda>i. fr_total_profit (report_of_transactions (?of i))"
  have group: "(i, ys) \<in> set ?g \<longleftrightarrow> ys = ?of i \<and> ys \<noteq> []" for i ys
    by (auto simp: group_by_lookup map_of_eq_Some_iff[OF group_by_distinct, symmetric])
  have profits: "fr_total_profit ` set ?reports = {?profit (tx_wfm_id b) | b. b \<in> set xs}"
  proof (rule set_eqI, rule iffI)
    fix p
    assume "p \<in> fr_total_profit ` set ?reports"
    then obtain i b ys where "(i, b # ys) \<in> set ?g" "p = fr_total_profit (report_of_transactions (b # ys))"
      by (auto simp: best_seller_reports_def map_filter_def with_properties_def split: list.splits)
    then have "b # ys = ?of i" "p = ?profit i" using group by simp_all
    moreover from this(1) have "b \<in> set (?of i)" by (metis list.set_intros(1))
    ultimately show "p \<in> {?profit (tx_wfm_id b) | b. b \<in> set xs}" by auto
  next
    fix p
    assume "p \<in> {?profit (tx_wfm_id b) | b. b \<in> set xs}"
    then obtain b where b: "b \<in> set xs" "p = ?profit (tx_wfm_id b)" by blast
    then have ne: "?of (tx_wfm_id b) \<noteq> []" by (auto simp: filter_empty_conv)
    then obtain c ys where c: "?of (tx_wfm_id b) = c # ys" by (cases "?of (tx_wfm_id b)") auto
    then have "(tx_wfm_id b, c # ys) \<in> set ?g" using group by simp
    then show "p \<in> fr_total_profit ` set ?reports"
      using b(2) c by (force simp: best_seller_reports_def map_filter_def with_properties_def image_iff)
  qed
  have "?profit (tx_wfm_id t) \<in> fr_total_profit ` set ?reports" unfolding profits using assms by blast
  then have ne: "?reports \<noteq> []" by auto
  obtain r rs where s: "sort_key (\<lambda>r. - fr_total_profit r) ?reports = r # rs"
    using ne by (metis length_0_conv length_sort list.exhaust)
  have best: "get_best_selling_items xs = r" using s by (simp add: get_best_selling_items_def)
  have "r \<in> set ?reports" by (metis s list.set_intros(1) set_sort)
  moreover have "fr_total_profit r' \<le> fr_total_profit r" if "r' \<in> set ?reports" for r'
  proof -
    have "sorted (map (\<lambda>r. - fr_total_profit r) (r # rs))" by (metis s sorted_sort_key)
    moreover have "r' \<in> set (r # rs)" by (metis s set_sort that)
    ultimately show ?thesis by auto
  qed
  ultimately show ?thesis
    unfolding best using profits \<open>?profit (tx_wfm_id t) \<in> _\<close> by (smt (verit) image_iff mem_Collect_eq)
qed

theorem best_seller_is_best_witness:
  "fr_total_profit (report_of_transactions (filter (\<lambda>u. tx_wfm_id u = ''b'')
      [demo_trade Sale ''a'' 40, demo_trade Purchase ''b'' 30, demo_trade Sale ''b'' 90])) = 60
   \<and> 60 \<le> fr_total_profit (get_best_selling_items [demo_trade Sale ''a'' 40, demo_trade Purchase ''b'' 30, demo_trade Sale ''b'' 90])"
proof -
  let ?l = "[demo_trade Sale ''a'' 40, demo_trade Purchase ''b'' 30, demo_trade Sale ''b'' 90]"
  have p: "fr_total_profit (report_of_transactions (filter (\<lambda>u. tx_wfm_id u = ''b'') ?l)) = 60"
    by (simp add: report_profit signed_price_def demo_trade_def)
  have "tx_wfm_id (demo_trade Purchase ''b'' 30) = ''b''" by (simp add: demo_trade_def)
  then show ?thesis using best_seller_is_best[of "demo_trade Purchase ''b'' 30" ?l] p by simp
qed

end
