(* ===== verification/Pages.thy ===== *)
theory Pages
  imports Dashboard Item_Entries "HOL-Library.Option_ord"
begin

text \<open>
  Lists shown page by page: the page of a list in memory (\<open>paginate\<close>, \<open>qf_core/src/helper.rs\<close>) and of a statement
  (\<open>service/src/query/helper.rs\<close>), the filters and sort orders of the stored lists
  (\<open>entity/src/*/dto/pagination_*.rs\<close>) and of the own orders (\<open>qf_core/src/commands/order.rs\<close>), and the counts made of
  a page. What SQLite and \<open>sea_orm\<close> decide is a parameter: \<open>LIKE\<close>, \<open>lower\<close>, an empty alternative and the paginator. A
  statement without an order of its own lists the rows in table order, and equal keys keep it.
\<close>

section \<open>Pages\<close>

record page_request =
  pg_page :: int
  pg_limit :: int

definition default_page :: int where "default_page = 1"

definition default_limit :: int where "default_limit = 25"

definition page_default :: page_request where
  "page_default = \<lparr>pg_page = default_page, pg_limit = default_limit\<rparr>"

definition page_new :: "int \<Rightarrow> int \<Rightarrow> page_request" where
  "page_new page limit =
     \<lparr>pg_page = (if page < 1 then default_page else page), pg_limit = (if limit < -1 then default_limit else limit)\<rparr>"

record 'a page =
  pr_total :: int
  pr_limit :: int
  pr_page :: int
  pr_total_pages :: int
  pr_results :: "'a list"

definition page_take_top :: "nat \<Rightarrow> 'a page \<Rightarrow> 'a list" where
  "page_take_top n p = take n (pr_results p)"

text \<open>\<open>(total as f64 / limit as f64).ceil() as i64\<close>: a division by zero is infinite, which saturates, or NaN, which is 0.\<close>

definition page_count :: "int \<Rightarrow> int \<Rightarrow> int" where
  "page_count total_rows limit =
     (if limit = 0 then (if total_rows = 0 then 0 else 9223372036854775807) else - ((- total_rows) div limit))"

text \<open>\<open>items[start..end]\<close>; \<open>None\<close> is the panic. A negative start is far out of range after \<open>as usize\<close>.\<close>

definition slice :: "'a list \<Rightarrow> int \<Rightarrow> int \<Rightarrow> 'a list option" where
  "slice xs s e = (if 0 \<le> s \<and> s \<le> e \<and> e \<le> int (length xs) then Some (take (nat (e - s)) (drop (nat s) xs)) else None)"

definition paginate :: "'a list \<Rightarrow> int \<Rightarrow> int \<Rightarrow> 'a page option" where
  "paginate items page per_page =
     (let total_items = int (length items);
          s = (page - 1) * per_page;
          e = min (s + per_page) total_items
      in map_option (\<lambda>r. \<lparr>pr_total = total_items, pr_limit = per_page, pr_page = page,
                          pr_total_pages = (if per_page = -1 then 1 else page_count total_items per_page), pr_results = r\<rparr>)
           (if s < total_items \<and> 0 < e then slice items s e
            else if per_page = -1 then Some items
            else Some []))"

text \<open>
  A paginator of \<open>sea_orm\<close> for the rows of a statement: the number of items and the pages, counted from 0. What it does
  for pages of size 0 is its own affair (\<open>None\<close> where it panics).
\<close>

type_synonym 'a paginator = "'a list \<Rightarrow> nat \<Rightarrow> (int \<times> (nat \<Rightarrow> 'a list)) option"

definition paginator_ok :: "'a paginator \<Rightarrow> bool" where
  "paginator_ok pgn \<longleftrightarrow> (\<forall>rows n. 0 < n \<longrightarrow> pgn rows n = Some (int (length rows), \<lambda>k. take n (drop (k * n) rows)))"

definition paginate_query :: "'a paginator \<Rightarrow> 'a list \<Rightarrow> int \<Rightarrow> int \<Rightarrow> 'a page option" where
  "paginate_query pgn rows page limit =
     (let page = max page 1; limit = max limit (-1) in
      if limit = -1 then
        Some \<lparr>pr_total = int (length rows), pr_limit = limit, pr_page = page, pr_total_pages = 1, pr_results = rows\<rparr>
      else case pgn rows (nat limit) of
        None \<Rightarrow> None
      | Some (n, fetch) \<Rightarrow>
          (let total_pages = (if n = 0 then 1 else page_count n limit);
               page = (if total_pages < page then total_pages else page)
           in Some \<lparr>pr_total = n, pr_limit = limit, pr_page = page, pr_total_pages = total_pages,
                    pr_results = fetch (nat (page - 1))\<rparr>))"

section \<open>Filters and orders\<close>

record sql =
  sq_like :: "string \<Rightarrow> string \<Rightarrow> bool"
  sq_lower :: "string \<Rightarrow> string"
  sq_no_alternative :: bool
  to_lowercase :: "string \<Rightarrow> string"

definition like_contains :: "sql \<Rightarrow> string \<Rightarrow> string \<Rightarrow> bool" where
  "like_contains s q col = sq_like s (''%'' @ to_lowercase s q @ ''%'') (sq_lower s col)"

definition like_any_tag :: "sql \<Rightarrow> string list \<Rightarrow> string \<Rightarrow> bool" where
  "like_any_tag s tags col =
     (let given = filter (\<lambda>t. t \<noteq> []) (map str_trim tags) in
      if given = [] then sq_no_alternative s else list_ex (\<lambda>t. sq_like s (''%'' @ t @ ''%'') col) given)"

definition where_value :: "'v field_change \<Rightarrow> ('v \<Rightarrow> 'a \<Rightarrow> bool) \<Rightarrow> 'a list \<Rightarrow> 'a list" where
  "where_value c P rows = (case c of FcValue v \<Rightarrow> filter (P v) rows | _ \<Rightarrow> rows)"

definition where_tags :: "sql \<Rightarrow> string list field_change \<Rightarrow> ('a \<Rightarrow> string) \<Rightarrow> 'a list \<Rightarrow> 'a list" where
  "where_tags s c col rows = (case c of FcValue tags \<Rightarrow> if tags = [] then rows else filter (\<lambda>r. like_any_tag s tags (col r)) rows | _ \<Rightarrow> rows)"

datatype sort_direction = Asc | Desc

definition direction_of :: "sort_direction field_change \<Rightarrow> sort_direction" where
  "direction_of c = (case c of FcValue d \<Rightarrow> d | _ \<Rightarrow> Asc)"

definition order_rows :: "sort_direction \<Rightarrow> ('a \<Rightarrow> 'k::linorder) \<Rightarrow> 'a list \<Rightarrow> 'a list" where
  "order_rows d key rows = (case d of Asc \<Rightarrow> sort_key key rows | Desc \<Rightarrow> rev (sort_key key (rev rows)))"

definition order_by :: "string field_change \<Rightarrow> sort_direction field_change \<Rightarrow> (string \<times> (sort_direction \<Rightarrow> 'a list \<Rightarrow> 'a list)) list
    \<Rightarrow> 'a list \<Rightarrow> 'a list" where
  "order_by sort_by direction columns rows =
     (case sort_by of
        FcValue column \<Rightarrow> (case map_of columns column of Some f \<Rightarrow> f (direction_of direction) rows | None \<Rightarrow> rows)
      | _ \<Rightarrow> rows)"

section \<open>Transactions\<close>

fun transaction_type_str :: "transaction_type \<Rightarrow> string" where
  "transaction_type_str Sale = ''sale''"
| "transaction_type_str Purchase = ''purchase''"

record transaction_query =
  tq_pagination :: page_request
  tq_query :: "string field_change"
  tq_sort_by :: "string field_change"
  tq_sort_direction :: "sort_direction field_change"
  tq_transaction_type :: "transaction_type field_change"
  tq_item_type :: "transaction_item_type field_change"
  tq_from_date :: "utc field_change"
  tq_to_date :: "utc field_change"
  tq_wfm_id :: "string field_change"
  tq_wfm_url :: "string field_change"
  tq_unique_name :: "string field_change"
  tq_sub_type :: "sub_type field_change"
  tq_tags :: "string list field_change"

definition transaction_query_new :: "int \<Rightarrow> int \<Rightarrow> transaction_query" where
  "transaction_query_new page limit =
     \<lparr>tq_pagination = page_new page limit, tq_query = FcIgnore, tq_sort_by = FcIgnore, tq_sort_direction = FcValue Asc,
      tq_transaction_type = FcIgnore, tq_item_type = FcIgnore, tq_from_date = FcIgnore, tq_to_date = FcIgnore,
      tq_wfm_id = FcIgnore, tq_wfm_url = FcIgnore, tq_unique_name = FcIgnore, tq_sub_type = FcIgnore, tq_tags = FcIgnore\<rparr>"

definition transaction_query_default :: transaction_query where
  "transaction_query_default = (transaction_query_new 0 0)\<lparr>tq_pagination := page_default\<rparr>"

definition tq_set_wfm_id :: "string \<Rightarrow> transaction_query \<Rightarrow> transaction_query" where
  "tq_set_wfm_id i q = q\<lparr>tq_wfm_id := FcValue i\<rparr>"

definition tq_set_sub_type :: "sub_type option \<Rightarrow> transaction_query \<Rightarrow> transaction_query" where
  "tq_set_sub_type s q = q\<lparr>tq_sub_type := (case s of Some v \<Rightarrow> FcValue v | None \<Rightarrow> FcNull)\<rparr>"

definition transaction_filters :: "sql \<Rightarrow> transaction_query \<Rightarrow> transaction list \<Rightarrow> transaction list" where
  "transaction_filters s q rows =
     where_tags s (tq_tags q) tx_tags
    (where_value (tq_sub_type q) (\<lambda>v t. tx_sub_type t = Some v)
    (where_value (tq_unique_name q) (\<lambda>v t. tx_unique_name t = v)
    (where_value (tq_wfm_url q) (\<lambda>v t. tx_wfm_url t = v)
    (where_value (tq_wfm_id q) (\<lambda>v t. tx_wfm_id t = v)
    (where_value (tq_to_date q) (\<lambda>v t. tx_created_at t \<le> v)
    (where_value (tq_from_date q) (\<lambda>v t. v \<le> tx_created_at t)
    (where_value (tq_item_type q) (\<lambda>v t. tx_item_type t = v)
    (where_value (tq_transaction_type q) (\<lambda>v t. tx_type t = v)
    (where_value (tq_query q) (\<lambda>v t. like_contains s v (tx_wfm_url t) \<or> like_contains s v (tx_item_name t) \<or> like_contains s v (tx_user_name t))
       rows)))))))))"

definition transaction_columns :: "(string \<times> (sort_direction \<Rightarrow> transaction list \<Rightarrow> transaction list)) list" where
  "transaction_columns =
     [(''wfm_url'', \<lambda>d. order_rows d tx_wfm_url), (''price'', \<lambda>d. order_rows d tx_price),
      (''transaction_type'', \<lambda>d. order_rows d (\<lambda>t. transaction_type_str (tx_type t))),
      (''item_type'', \<lambda>d. order_rows d (\<lambda>t. item_type_text (tx_item_type t))),
      (''created_at'', \<lambda>d. order_rows d tx_created_at), (''item_name'', \<lambda>d. order_rows d tx_item_name),
      (''user_name'', \<lambda>d. order_rows d tx_user_name), (''profit'', \<lambda>d. order_rows d tx_profit),
      (''credits'', \<lambda>d. order_rows d tx_credits)]"

definition transaction_get_query :: "sql \<Rightarrow> transaction_query \<Rightarrow> transaction list \<Rightarrow> transaction list" where
  "transaction_get_query s q rows =
     order_by (tq_sort_by q) (tq_sort_direction q) transaction_columns (transaction_filters s q rows)"

definition transaction_get_all :: "sql \<Rightarrow> transaction paginator \<Rightarrow> transaction_query \<Rightarrow> transaction list \<Rightarrow> transaction page option" where
  "transaction_get_all s pgn q rows =
     paginate_query pgn (transaction_get_query s q rows) (pg_page (tq_pagination q)) (pg_limit (tq_pagination q))"

definition export_transactions :: "sql \<Rightarrow> transaction paginator \<Rightarrow> transaction_query \<Rightarrow> transaction list \<Rightarrow> transaction list option" where
  "export_transactions s pgn q rows =
     map_option pr_results (transaction_get_all s pgn (q\<lparr>tq_pagination := (tq_pagination q)\<lparr>pg_limit := -1\<rparr>\<rparr>) rows)"

text \<open>The report of a page of transactions, with the ten busiest partners of that page as a property.\<close>

definition transaction_page_report :: "sql \<Rightarrow> transaction paginator \<Rightarrow> transaction_query \<Rightarrow> transaction list
    \<Rightarrow> (financial_report \<times> financial_report list) option" where
  "transaction_page_report s pgn q rows =
     map_option (\<lambda>p. (report_of_transactions (pr_results p), top_partners (pr_results p))) (transaction_get_all s pgn q rows)"

text \<open>The transactions an item's page shows (\<open>TransactionInfo\<close> of \<open>populate_item_market_properties\<close>).\<close>

definition item_transactions :: "sql \<Rightarrow> transaction paginator \<Rightarrow> string \<Rightarrow> sub_type option \<Rightarrow> transaction list
    \<Rightarrow> (financial_report \<times> transaction list) option" where
  "item_transactions s pgn wfm_id sub rows =
     map_option (\<lambda>p. (report_of_transactions (pr_results p), page_take_top 5 p))
       (transaction_get_all s pgn (tq_set_sub_type sub (tq_set_wfm_id wfm_id (transaction_query_new 1 (-1)))) rows)"

section \<open>Stock items and wishes\<close>

record list_query =
  lq_pagination :: page_request
  lq_query :: "string field_change"
  lq_sort_by :: "string field_change"
  lq_sort_direction :: "sort_direction field_change"
  lq_status :: "string field_change"

definition list_query_new :: "int \<Rightarrow> int \<Rightarrow> list_query" where
  "list_query_new page limit = \<lparr>lq_pagination = page_new page limit, lq_query = FcIgnore, lq_sort_by = FcIgnore,
     lq_sort_direction = FcValue Asc, lq_status = FcIgnore\<rparr>"

definition list_query_default :: list_query where
  "list_query_default = (list_query_new 0 0)\<lparr>lq_pagination := page_default\<rparr>"

definition stock_get_query :: "sql \<Rightarrow> list_query \<Rightarrow> stock_item list \<Rightarrow> stock_item list" where
  "stock_get_query s q rows =
     order_by (lq_sort_by q) (lq_sort_direction q)
       [(''item_name'', \<lambda>d. order_rows d stk_item_name), (''bought'', \<lambda>d. order_rows d stk_bought),
        (''status'', \<lambda>d. order_rows d (\<lambda>m. status_str (stk_status m))), (''list_price'', \<lambda>d. order_rows d stk_list_price),
        (''owned'', \<lambda>d. order_rows d stk_owned)]
    (where_value (lq_status q) (\<lambda>v m. status_str (stk_status m) = v)
    (where_value (lq_query q) (\<lambda>v m. like_contains s v (stk_wfm_url m) \<or> like_contains s v (stk_item_name m)
                                     \<or> like_contains s v (stk_unique_name m)) rows))"

definition wish_get_query :: "sql \<Rightarrow> list_query \<Rightarrow> wish_item list \<Rightarrow> wish_item list" where
  "wish_get_query s q rows =
     order_by (lq_sort_by q) (lq_sort_direction q)
       [(''item_name'', \<lambda>d. order_rows d wl_item_name), (''status'', \<lambda>d. order_rows d (\<lambda>m. status_str (wl_status m))),
        (''list_price'', \<lambda>d. order_rows d wl_list_price)]
    (where_value (lq_status q) (\<lambda>v m. status_str (wl_status m) = v)
    (where_value (lq_query q) (\<lambda>v m. like_contains s v (wl_wfm_url m) \<or> like_contains s v (wl_item_name m)) rows))"

definition stock_get_all :: "sql \<Rightarrow> stock_item paginator \<Rightarrow> list_query \<Rightarrow> stock_item list \<Rightarrow> stock_item page option" where
  "stock_get_all s pgn q rows = paginate_query pgn (stock_get_query s q rows) (pg_page (lq_pagination q)) (pg_limit (lq_pagination q))"

definition wish_get_all :: "sql \<Rightarrow> wish_item paginator \<Rightarrow> list_query \<Rightarrow> wish_item list \<Rightarrow> wish_item page option" where
  "wish_get_all s pgn q rows = paginate_query pgn (wish_get_query s q rows) (pg_page (lq_pagination q)) (pg_limit (lq_pagination q))"

definition status_counts :: "('a \<Rightarrow> stock_status) \<Rightarrow> 'a page \<Rightarrow> (string \<times> nat) list" where
  "status_counts status p = map (\<lambda>(k, rows). (k, length rows)) (group_by (\<lambda>m. status_str (status m)) (pr_results p))"

definition stock_status_counts :: "sql \<Rightarrow> stock_item paginator \<Rightarrow> list_query \<Rightarrow> stock_item list \<Rightarrow> (string \<times> nat) list option" where
  "stock_status_counts s pgn q rows = map_option (status_counts stk_status) (stock_get_all s pgn q rows)"

definition wish_status_counts :: "sql \<Rightarrow> wish_item paginator \<Rightarrow> list_query \<Rightarrow> wish_item list \<Rightarrow> (string \<times> nat) list option" where
  "wish_status_counts s pgn q rows = map_option (status_counts wl_status) (wish_get_all s pgn q rows)"

definition stock_page_report :: "sql \<Rightarrow> stock_item paginator \<Rightarrow> list_query \<Rightarrow> stock_item list \<Rightarrow> financial_report option" where
  "stock_page_report s pgn q rows = map_option (\<lambda>p. report_of_stock (pr_results p)) (stock_get_all s pgn q rows)"

definition wish_page_report :: "sql \<Rightarrow> wish_item paginator \<Rightarrow> list_query \<Rightarrow> wish_item list \<Rightarrow> financial_report option" where
  "wish_page_report s pgn q rows = map_option (\<lambda>p. report_of_wishes (pr_results p)) (wish_get_all s pgn q rows)"

section \<open>Own orders\<close>

record order_query =
  oq_pagination :: page_request
  oq_query :: "string field_change"
  oq_order_type :: "order_type field_change"
  oq_sort_by :: "string field_change"
  oq_sort_direction :: "sort_direction field_change"
  oq_operations :: "string list field_change"

text \<open>\<open>str::to_lowercase\<close> is the first argument.\<close>

definition order_matches :: "(string \<Rightarrow> string) \<Rightarrow> order_query \<Rightarrow> wfm_order \<Rightarrow> bool" where
  "order_matches lower q o1 \<longleftrightarrow>
     (case oq_query q of FcValue v \<Rightarrow> str_contains (lower (prop_str (or_properties o1) ''name'' [])) (lower v) | _ \<Rightarrow> True)
   \<and> (case oq_order_type q of FcValue t \<Rightarrow> or_type o1 = t | _ \<Rightarrow> True)
   \<and> (case oq_operations q of FcValue raw \<Rightarrow> os_is_subset (os_from raw) (prop_ops (or_properties o1) ''operations'') | _ \<Rightarrow> True)"

fun order_type_rank :: "order_type \<Rightarrow> nat" where
  "order_type_rank BuyOrder = 0"
| "order_type_rank SellOrder = 1"

fun order_type_str :: "order_type \<Rightarrow> string" where
  "order_type_str BuyOrder = ''buy''"
| "order_type_str SellOrder = ''sell''"

definition sort_orders :: "order_query \<Rightarrow> wfm_order list \<Rightarrow> wfm_order list" where
  "sort_orders q orders =
     order_by (oq_sort_by q) (oq_sort_direction q)
       [(''created_at'', \<lambda>d. order_rows d or_created_at), (''platinum'', \<lambda>d. order_rows d (\<lambda>o1. uint (or_platinum o1))),
        (''updated_at'', \<lambda>d. order_rows d or_updated_at), (''order_type'', \<lambda>d. order_rows d (\<lambda>o1. order_type_rank (or_type o1)))]
       orders"

definition get_wfm_orders :: "(string \<Rightarrow> string) \<Rightarrow> own_orders \<Rightarrow> order_query \<Rightarrow> wfm_order page option" where
  "get_wfm_orders lower orders q =
     paginate (sort_orders q (filter (order_matches lower q) (ol_to_vec orders))) (pg_page (oq_pagination q)) (pg_limit (oq_pagination q))"

text \<open>The number of orders, their platinum and their potential profit; platinum is multiplied as \<open>u32\<close>.\<close>

definition order_figures :: "wfm_order list \<Rightarrow> nat \<times> int \<times> real" where
  "order_figures orders =
     (length orders, sum_list (map (\<lambda>o1. uint (or_platinum o1 * or_quantity o1)) orders),
      sum_list (map (\<lambda>o1. of_int (prop_int (or_properties o1) ''potential_profit'' 0 * uint (or_quantity o1))) orders))"

definition ensure_count :: "string \<Rightarrow> (string \<times> nat \<times> int \<times> real) list \<Rightarrow> (string \<times> nat \<times> int \<times> real) list" where
  "ensure_count k m = (if map_of m k = None then AList.update k (0, 0, 0) m else m)"

definition order_status_counts :: "(string \<Rightarrow> string) \<Rightarrow> own_orders \<Rightarrow> order_query \<Rightarrow> (string \<times> nat \<times> int \<times> real) list option" where
  "order_status_counts lower orders q =
     map_option (\<lambda>p. ensure_count ''sell'' (ensure_count ''buy''
                   (map (\<lambda>(k, os). (k, order_figures os)) (group_by (\<lambda>o1. order_type_str (or_type o1)) (pr_results p)))))
       (get_wfm_orders lower orders q)"

text \<open>\<open>apply_info\<close>: the names of the item on an order; an unknown item leaves it as it is.\<close>

definition apply_info :: "item_cache \<Rightarrow> wfm_order \<Rightarrow> wfm_order" where
  "apply_info cache o1 =
     (case cache_get cache (or_item_id o1) of
        Inr it \<Rightarrow> o1\<lparr>or_properties := prop_set_all (or_properties o1)
          [(''wfm_id'', JStr (ca_wfm_id it)), (''wfm_url'', JStr (ca_wfm_url it)), (''name'', JStr (ca_name it)),
           (''image'', JStr (ca_icon it)), (''t_type'', json_item_sub_type (ca_sub_type it))]\<rparr>
      | Inl _ \<Rightarrow> o1)"

definition apply_item_info :: "item_cache \<Rightarrow> own_orders \<Rightarrow> own_orders" where
  "apply_item_info cache l = l\<lparr>ol_buy := map (apply_info cache) (ol_buy l), ol_sell := map (apply_info cache) (ol_sell l)\<rparr>"

definition order_refresh :: "item_cache \<Rightarrow> api_error + wfm_order list \<Rightarrow> route_cache \<Rightarrow> (api_error + unit) \<times> route_cache" where
  "order_refresh cache answer rc =
     (case rc_my_orders rc answer of
        (Inl e, rc1) \<Rightarrow> (Inl e, rc1)
      | (Inr _, rc1) \<Rightarrow> (Inr (), rc1\<lparr>rc_orders := apply_item_info cache (rc_orders rc1)\<rparr>))"

text \<open>
  Deleting all own orders of a side, or of both, one request each after a refresh: the first refusal ends the run; the
  orders deleted so far are gone. \<open>del\<close> is the answer to each request.
\<close>

fun delete_each :: "(string \<Rightarrow> api_error + wfm_order) \<Rightarrow> wfm_order list \<Rightarrow> route_cache \<Rightarrow> (api_error + unit) \<times> route_cache" where
  "delete_each del [] rc = (Inr (), rc)"
| "delete_each del (o1 # os) rc =
     (case rc_delete rc (or_id o1) (del (or_id o1)) of
        (Inl e, rc1) \<Rightarrow> (Inl e, rc1)
      | (Inr _, rc1) \<Rightarrow> delete_each del os rc1)"

definition order_delete_all :: "item_cache \<Rightarrow> order_type option \<Rightarrow> api_error + wfm_order list \<Rightarrow> (string \<Rightarrow> api_error + wfm_order)
    \<Rightarrow> route_cache \<Rightarrow> (api_error + unit) \<times> route_cache" where
  "order_delete_all cache ty answer del rc =
     (case order_refresh cache answer rc of
        (Inl e, rc1) \<Rightarrow> (Inl e, rc1)
      | (Inr _, rc1) \<Rightarrow>
          delete_each del (case ty of Some t \<Rightarrow> ol_side (rc_orders rc1) t | None \<Rightarrow> ol_to_vec (rc_orders rc1)) rc1)"

definition order_delete_by_id :: "string \<Rightarrow> (string \<Rightarrow> api_error + wfm_order) \<Rightarrow> route_cache
    \<Rightarrow> ((qf_error + api_error) + unit) \<times> route_cache" where
  "order_delete_by_id i del rc =
     (case ol_get_by_id (rc_orders rc) i of
        None \<Rightarrow> (Inl (Inl (new_error ''Command::OrderDeleteById'' ''Order not found'')), rc)
      | Some o1 \<Rightarrow>
          (case rc_delete rc (or_id o1) (del (or_id o1)) of
             (Inl e, rc1) \<Rightarrow> (Inl (Inr e), rc1) | (Inr _, rc1) \<Rightarrow> (Inr (), rc1)))"

section \<open>The page of an item\<close>

text \<open>
  What the page of an item is made of: the own orders, the stored transactions, the live orders of the item and the JSON
  encodings of rows that \<open>serde\<close> derives.
\<close>

record item_page_io =
  ip_orders :: own_orders
  ip_transactions :: "transaction list"
  ip_live :: "qf_error + order_with_user order_list"
  ip_report_json :: "financial_report \<Rightarrow> json"
  ip_transaction_json :: "transaction \<Rightarrow> json"
  ip_live_json :: "order_with_user \<Rightarrow> json"

definition begin_price_history :: "wfm_order \<Rightarrow> properties \<Rightarrow> properties" where
  "begin_price_history o1 p =
     (let h = prop_history p;
          h1 = (if h = [] then [\<lparr>ph_created_at = or_updated_at o1, ph_price = uint (or_platinum o1)\<rparr>] else h)
      in prop_set p ''price_history'' (JArr (map json_history h1)))"

definition profit_figures :: "int \<Rightarrow> int \<Rightarrow> properties \<Rightarrow> properties" where
  "profit_figures platinum bought p =
     (let potential_profit = platinum - bought;
          roi = (if 0 < bought then of_int potential_profit / of_int bought * 100 else 0)
      in prop_set_all p [(''roi_percent'', JReal roi), (''potential_profit'', JInt potential_profit)])"

definition market_figures :: "item_cache \<Rightarrow> (order_with_user \<Rightarrow> json) \<Rightarrow> sub_type option \<Rightarrow> order_type
    \<Rightarrow> order_with_user order_list \<Rightarrow> properties \<Rightarrow> properties" where
  "market_figures cache enc sub ty live p =
     (let l1 = ol_filter_user_status (ol_filter_by_sub_type ow_order live (from_entity sub) False) UserInGame False;
          l2 = ol_sort_by_platinum ow_order l1;
          info = (\<lambda>s. s\<lparr>ow_order := apply_info cache (ow_order s)\<rparr>);
          l3 = l2\<lparr>ol_buy := map info (ol_buy l2), ol_sell := map info (ol_sell l2)\<rparr>;
          sell_lowest = ol_lowest_price ow_order l3 SellOrder;
          buy_highest = ol_highest_price ow_order l3 BuyOrder;
          spread = sell_lowest - buy_highest
      in prop_set_all p
           [(''sell_highest_price'', JInt (ol_highest_price ow_order l3 SellOrder)), (''sell_lowest_price'', JInt sell_lowest),
            (''buy_highest_price'', JInt buy_highest), (''buy_lowest_price'', JInt (ol_lowest_price ow_order l3 BuyOrder)),
            (''supply'', JInt (int (length (ol_sell l3)))), (''demand'', JInt (int (length (ol_buy l3)))),
            (''spread'', JInt spread),
            (''spread_percent'', JReal (if 0 < sell_lowest then of_int spread / of_int sell_lowest * 100 else 0)),
            (''orders'', JArr (map enc (ol_take_top l3 5 ty)))])"

definition populate_item_market_properties :: "sql \<Rightarrow> transaction paginator \<Rightarrow> item_cache \<Rightarrow> item_page_io \<Rightarrow> string \<Rightarrow> sub_type option
    \<Rightarrow> int \<Rightarrow> int option \<Rightarrow> operation_set \<Rightarrow> order_type \<Rightarrow> properties \<Rightarrow> qf_error + properties" where
  "populate_item_market_properties s pgn cache io raw sub bought list_price ops ty p =
     (case cache_get cache raw of
        Inl e \<Rightarrow> Inl e
      | Inr it \<Rightarrow>
          (let p1 = prop_set_all p [(''name'', JStr (ca_name it)), (''image'', JStr (ca_icon it)),
                                    (''t_type'', json_item_sub_type (ca_sub_type it))];
               own = ol_find_order id (ip_orders io) (ca_wfm_id it) (from_entity sub) ty;
               platinum = (case own of Some o1 \<Rightarrow> uint (or_platinum o1) | None \<Rightarrow> price_or_zero list_price);
               own_properties = (case own of Some o1 \<Rightarrow> or_properties o1 | None \<Rightarrow> None);
               p2 = (case own of Some o1 \<Rightarrow> begin_price_history o1 p1 | None \<Rightarrow> p1);
               ops1 = (case own of Some o1 \<Rightarrow> os_merge ops (prop_ops (or_properties o1) ''operations'') | None \<Rightarrow> ops);
               p3 = (if os_has ops1 ''ProfitabilityInfo'' then profit_figures platinum bought p2 else p2);
               p4 = (if os_has ops1 ''TransactionInfo''
                     then (case item_transactions s pgn (ca_wfm_id it) sub (ip_transactions io) of
                             Some (r, latest) \<Rightarrow> prop_set_all p3 [(''report'', ip_report_json io r),
                                                 (''last_transactions'', JArr (map (ip_transaction_json io) latest))]
                           | None \<Rightarrow> p3)
                     else p3)
           in case (if os_has ops1 ''MarketInfo'' \<and> \<not> os_has ops1 ''MarketPopulated''
                    then map_sum id (\<lambda>live. market_figures cache (ip_live_json io) sub ty live p4) (ip_live io) else Inr p4) of
                Inl e \<Rightarrow> Inl e
              | Inr p5 \<Rightarrow>
                  (let p6 = (if os_has ops1 ''MarketPopulated'' then prop_merge p5 own_properties True True else p5)
                   in Inr (prop_set p6 ''ui_operations'' (JArr (map JStr ops1))))))"

definition default_operations :: "string list" where
  "default_operations = [''MarketInfo'', ''TransactionInfo'', ''ProfitabilityInfo'']"

definition stock_item_get_by_id :: "sql \<Rightarrow> transaction paginator \<Rightarrow> item_cache \<Rightarrow> item_page_io \<Rightarrow> stock_db \<Rightarrow> int
    \<Rightarrow> string list option \<Rightarrow> qf_error + stock_item" where
  "stock_item_get_by_id s pgn cache io db i operations =
     (case stock_find_id db i of
        None \<Rightarrow> Inl (new_error ''Command::StockItemGetById'' ''Stock item not found'')
      | Some m \<Rightarrow>
          map_sum id (\<lambda>p. m\<lparr>stk_properties := p\<rparr>)
            (populate_item_market_properties s pgn cache io (stk_wfm_url m) (stk_sub_type m) (stk_bought m) (stk_list_price m)
               (os_from (case operations of Some l \<Rightarrow> l | None \<Rightarrow> default_operations)) SellOrder (stk_properties m)))"

definition get_wfm_order_by_id :: "sql \<Rightarrow> transaction paginator \<Rightarrow> item_cache \<Rightarrow> item_page_io \<Rightarrow> string
    \<Rightarrow> string list option \<Rightarrow> qf_error + wfm_order" where
  "get_wfm_order_by_id s pgn cache io i operations =
     (case ol_get_by_id (ip_orders io) i of
        None \<Rightarrow> Inl (new_error ''Command::GetWfmOrderById'' ''Order not found'')
      | Some o1 \<Rightarrow>
          map_sum id (\<lambda>p. o1\<lparr>or_properties := p\<rparr>)
            (populate_item_market_properties s pgn cache io (or_item_id o1) (to_entity (or_subtype o1)) 0 (Some (uint (or_platinum o1)))
               (os_from (case operations of Some l \<Rightarrow> l | None \<Rightarrow> default_operations)) (or_type o1) None))"

section \<open>Pages cover their list\<close>

lemma chunks_cover: "concat (map (\<lambda>k. take n (drop (k * n) xs)) [0..<m]) = take (m * n) xs"
  by (induction m) (simp_all add: take_add[symmetric] add.commute)

lemma page_count_bounds:
  assumes "0 < limit"
  shows "n \<le> page_count n limit * limit" "page_count n limit * limit < n + limit"
proof -
  have q: "page_count n limit * limit = n + (- n) mod limit"
  proof -
    have "(- n) div limit * limit = - n - (- n) mod limit" by (rule minus_mod_eq_div_mult[symmetric])
    then show ?thesis using assms by (simp add: page_count_def)
  qed
  show "n \<le> page_count n limit * limit" "page_count n limit * limit < n + limit"
    using assms unfolding q by simp_all
qed

lemma page_count_nonneg: "0 \<le> n \<Longrightarrow> 0 < limit \<Longrightarrow> 0 \<le> page_count n limit"
  using page_count_bounds(1)[of limit n] by (smt (verit) mult_neg_pos)

lemma paginate_in_range:
  assumes "0 < per" and "1 \<le> page"
  shows "paginate xs page per = Some \<lparr>pr_total = int (length xs), pr_limit = per, pr_page = page,
    pr_total_pages = page_count (int (length xs)) per, pr_results = take (nat per) (drop (nat ((page - 1) * per)) xs)\<rparr>"
proof -
  define s where "s = (page - 1) * per"
  have s: "0 \<le> s" "0 < s + per" using assms by (simp_all add: s_def add_nonneg_pos)
  show ?thesis
  proof (cases "s < int (length xs)")
    case True
    have "take (nat (min (s + per) (int (length xs)) - s)) (drop (nat s) xs) = take (nat per) (drop (nat s) xs)"
      using True s assms by (cases "s + per \<le> int (length xs)") (simp_all add: min_def)
    moreover have "0 < int (length xs)" using s True by linarith
    ultimately show ?thesis using True s assms unfolding paginate_def Let_def s_def[symmetric] by (simp add: slice_def)
  next
    case False
    then show ?thesis using s assms unfolding paginate_def Let_def s_def[symmetric] by simp
  qed
qed

lemma pages_from_one: "map f [1..<Suc m] = map (\<lambda>k. f (Suc k)) [0..<m]"
  by (induction m) simp_all

lemma pages_concat:
  assumes "0 < per" and "\<And>k. g (Suc k) = take (nat per) (drop (k * nat per) xs)" and "int (length xs) \<le> tp * per"
  shows "concat (map g [1..<Suc (nat tp)]) = xs"
proof -
  have "length xs \<le> nat tp * nat per"
    using assms(1,3) by (simp add: nat_mult_distrib[symmetric] mult.commute nat_le_eq_zle le_nat_iff flip: nat_mult_distrib)
  then show ?thesis unfolding pages_from_one assms(2) chunks_cover by simp
qed

text \<open>
  The pages of a statement, asked one by one, are the whole list: every answer has the same number of pages, each page
  keeps to the limit, a page beyond the last shows the last, and the pages from the first to the last one put together
  are the rows in their order.
\<close>

theorem query_pages_cover:
  assumes "paginator_ok pgn" and "0 < limit"
  shows "\<exists>pages. 1 \<le> pages
    \<and> (\<forall>k. \<exists>p. paginate_query pgn rows k limit = Some p \<and> pr_total_pages p = pages \<and> pr_total p = int (length rows)
           \<and> pr_page p = max 1 (min k pages) \<and> int (length (pr_results p)) \<le> limit)
    \<and> concat (map (\<lambda>k. pr_results (the (paginate_query pgn rows (int k) limit))) [1..<Suc (nat pages)]) = rows"
proof -
  define pages where "pages = (if rows = [] then 1 else page_count (int (length rows)) limit)"
  have p: "pgn rows (nat limit) = Some (int (length rows), \<lambda>k. take (nat limit) (drop (k * nat limit) rows))"
    using assms by (simp add: paginator_ok_def)
  have enough: "int (length rows) \<le> pages * limit"
    using page_count_bounds(1)[OF assms(2), of "int (length rows)"] assms(2) by (simp add: pages_def)
  have one: "1 \<le> pages"
  proof (cases "rows = []")
    case False
    then have "0 < page_count (int (length rows)) limit * limit"
      using page_count_bounds(1)[OF assms(2), of "int (length rows)"] by (smt (verit) length_greater_0_conv of_nat_0_less_iff)
    then show ?thesis using False assms(2) by (simp add: pages_def zero_less_mult_iff)
  qed (simp add: pages_def)
  have run: "paginate_query pgn rows k limit = Some \<lparr>pr_total = int (length rows), pr_limit = limit, pr_page = max 1 (min k pages),
      pr_total_pages = pages, pr_results = take (nat limit) (drop (nat (max 1 (min k pages) - 1) * nat limit) rows)\<rparr>" for k
    using assms(2) p one by (auto simp: paginate_query_def Let_def pages_def max_def min_def)
  have "concat (map (\<lambda>k. pr_results (the (paginate_query pgn rows (int k) limit))) [1..<Suc (nat pages)])
      = concat (map (\<lambda>k. take (nat limit) (drop ((k - 1) * nat limit) rows)) [1..<Suc (nat pages)])"
    by (rule arg_cong[where f = concat], rule map_cong[OF refl]) (use one in \<open>auto simp: run max_def min_def nat_diff_distrib\<close>)
  also have "\<dots> = rows" by (rule pages_concat[OF assms(2) _ enough]) simp
  finally have whole: "concat (map (\<lambda>k. pr_results (the (paginate_query pgn rows (int k) limit))) [1..<Suc (nat pages)]) = rows" .
  have "int (length (take (nat limit) xs)) \<le> limit" for xs :: "'a list" using assms(2) by simp
  then have each: "\<exists>p. paginate_query pgn rows k limit = Some p \<and> pr_total_pages p = pages \<and> pr_total p = int (length rows)
      \<and> pr_page p = max 1 (min k pages) \<and> int (length (pr_results p)) \<le> limit" for k
    unfolding run by (simp del: length_take)
  show ?thesis by (intro exI[of _ pages] conjI allI one whole each)
qed

definition plain_paginator :: "'a paginator" where
  "plain_paginator rows n = (if n = 0 then None else Some (int (length rows), \<lambda>k. take n (drop (k * n) rows)))"

lemma plain_paginator_ok: "paginator_ok plain_paginator"
  by (simp add: paginator_ok_def plain_paginator_def)

theorem query_pages_cover_witness:
  "\<exists>pages. concat (map (\<lambda>k. pr_results (the (paginate_query plain_paginator [3, 1, 4, 1, 5 :: int] (int k) 2))) [1..<Suc (nat pages)]) = [3, 1, 4, 1, 5]"
proof -
  have "(0 :: int) < 2" by simp
  from query_pages_cover[OF plain_paginator_ok this, of "[3, 1, 4, 1, 5 :: int]"] show ?thesis by blast
qed

text \<open>
  The page of a list in memory panics exactly when both the page and the limit are negative and the start they make
  lies inside the list; a request like that passes the reader, which checks neither number.
\<close>

theorem paginate_panics_iff:
  "paginate items page per = None \<longleftrightarrow> page < 0 \<and> per < 0 \<and> (page - 1) * per < int (length items)"
proof -
  define s where "s = (page - 1) * per"
  have panic: "paginate items page per = None \<longleftrightarrow> s < int (length items) \<and> 0 < min (s + per) (int (length items))
      \<and> \<not> (0 \<le> s \<and> s \<le> min (s + per) (int (length items)))"
    unfolding paginate_def Let_def s_def[symmetric] by (auto simp: slice_def)
  have e: "s + per = page * per" by (simp add: s_def algebra_simps)
  show ?thesis
  proof (cases "per < 0")
    case True
    show ?thesis
    proof (cases "page < 0")
      case neg: True
      have "0 < page * per" "page * per < s" using True neg e by (simp_all add: mult_neg_neg)
      then show ?thesis unfolding panic e using True neg by (auto simp: s_def[symmetric])
    next
      case False
      then have "page * per \<le> 0" using True by (simp add: mult_nonneg_nonpos)
      then show ?thesis unfolding panic e using False by auto
    qed
  next
    case False
    then have "s \<le> page * per" using e by linarith
    moreover have "0 \<le> s" if "0 < page * per"
      using that False by (auto simp: s_def zero_less_mult_iff)
    ultimately show ?thesis unfolding panic e using False by auto
  qed
qed

section \<open>Own orders on pages\<close>

lemma order_rows_mset: "mset (order_rows d key rows) = mset rows"
  by (cases d) (simp_all add: order_rows_def)

lemma order_by_mset:
  assumes "\<And>c f d. (c, f) \<in> set columns \<Longrightarrow> mset (f d rows) = mset rows"
  shows "mset (order_by sort_by direction columns rows) = mset rows"
  using assms by (auto simp: order_by_def dest!: map_of_SomeD split: field_change.split option.split)

lemma sort_orders_mset: "mset (sort_orders q orders) = mset orders"
  unfolding sort_orders_def by (rule order_by_mset) (auto simp: order_rows_mset)

lemma order_rows_sorted: "sorted (map key (order_rows Asc key rows))" "sorted (rev (map key (order_rows Desc key rows)))"
  by (simp_all add: order_rows_def rev_map)

definition order_page :: "(string \<Rightarrow> string) \<Rightarrow> own_orders \<Rightarrow> order_query \<Rightarrow> int \<Rightarrow> wfm_order page option" where
  "order_page lower orders q k = get_wfm_orders lower orders (q\<lparr>oq_pagination := (oq_pagination q)\<lparr>pg_page := k\<rparr>\<rparr>)"

text \<open>
  The pages of the own orders show every matching order once and no other: with a positive limit no page fails, and the
  pages from the first to the last are a rearrangement of the matching orders, sorted when a known column is asked for.
\<close>

theorem order_pages_show_every_match:
  assumes "0 < pg_limit (oq_pagination q)"
  shows "\<exists>pages. (\<forall>k\<ge>1. \<exists>p. order_page lower orders q k = Some p \<and> pr_total_pages p = pages \<and> int (length (pr_results p)) \<le> pg_limit (oq_pagination q))
    \<and> mset (concat (map (\<lambda>k. pr_results (the (order_page lower orders q (int k)))) [1..<Suc (nat pages)])) = mset (filter (order_matches lower q) (ol_to_vec orders))
    \<and> (oq_sort_by q = FcValue ''platinum'' \<and> oq_sort_direction q = FcValue Asc \<longrightarrow>
         sorted (map (\<lambda>o1. uint (or_platinum o1)) (concat (map (\<lambda>k. pr_results (the (order_page lower orders q (int k)))) [1..<Suc (nat pages)]))))"
proof -
  let ?l = "pg_limit (oq_pagination q)" and ?xs = "sort_orders q (filter (order_matches lower q) (ol_to_vec orders))"
  let ?pages = "page_count (int (length ?xs)) ?l"
  have matches: "order_matches lower (q\<lparr>oq_pagination := pg\<rparr>) = order_matches lower q" for pg
    by (rule ext) (simp add: order_matches_def)
  have sorting: "sort_orders (q\<lparr>oq_pagination := pg\<rparr>) = sort_orders q" for pg
    by (rule ext) (simp add: sort_orders_def)
  have run: "order_page lower orders q k = Some \<lparr>pr_total = int (length ?xs), pr_limit = ?l, pr_page = k, pr_total_pages = ?pages,
      pr_results = take (nat ?l) (drop (nat ((k - 1) * ?l)) ?xs)\<rparr>" if "1 \<le> k" for k
    using paginate_in_range[OF assms(1) that, of ?xs] by (simp add: order_page_def get_wfm_orders_def matches sorting)
  have whole: "concat (map (\<lambda>k. pr_results (the (order_page lower orders q (int k)))) [1..<Suc (nat ?pages)]) = ?xs"
  proof (rule pages_concat[OF assms(1)])
    show "pr_results (the (order_page lower orders q (int (Suc k)))) = take (nat ?l) (drop (k * nat ?l) ?xs)" for k
      using run[of "int (Suc k)"] assms(1) by (simp add: nat_mult_distrib)
    show "int (length ?xs) \<le> ?pages * ?l" by (rule page_count_bounds(1)[OF assms(1)])
  qed
  have sorted: "sorted (map (\<lambda>o1. uint (or_platinum o1)) ?xs)"
    if "oq_sort_by q = FcValue ''platinum'' \<and> oq_sort_direction q = FcValue Asc"
    using that by (simp add: sort_orders_def order_by_def direction_of_def order_rows_sorted(1))
  have "int (length (take (nat ?l) (zs :: wfm_order list))) \<le> ?l" for zs using assms(1) by simp
  then have each: "\<exists>p. order_page lower orders q k = Some p \<and> pr_total_pages p = ?pages \<and> int (length (pr_results p)) \<le> ?l" if "1 \<le> k" for k
    unfolding run[OF that] by (simp del: length_take)
  show ?thesis
    unfolding whole[symmetric]
    by (rule exI[of _ ?pages]) (use each sorted sort_orders_mset[of q] whole in \<open>simp add: whole\<close>)
qed

section \<open>Counts of a page\<close>

lemma ensure_count_present: "map_of (ensure_count k m) k \<noteq> None" "map_of m j \<noteq> None \<Longrightarrow> map_of (ensure_count k m) j \<noteq> None"
  by (auto simp: ensure_count_def update_conv')

lemma ensure_count_total: "sum_list (map (\<lambda>(_, n, _). n) (ensure_count k m)) = sum_list (map (\<lambda>(_, n, _). n) m)"
  by (simp add: ensure_count_def update_absent)

lemma group_add_lengths: "sum_list (map (\<lambda>g. length (snd g)) (group_add k x m)) = Suc (sum_list (map (\<lambda>g. length (snd g)) m))"
  unfolding group_add_def by (induction m) auto

lemma group_by_lengths: "sum_list (map (\<lambda>g. length (snd g)) (group_by key items)) = length items"
  by (induction items rule: rev_induct) (simp_all add: group_by_snoc group_add_lengths)

text \<open>The counts always name both sides and add up to the orders of the page.\<close>

theorem order_counts_add_up:
  assumes "order_status_counts lower orders q = Some m" and "get_wfm_orders lower orders q = Some p"
  shows "map_of m ''buy'' \<noteq> None \<and> map_of m ''sell'' \<noteq> None \<and> sum_list (map (\<lambda>(_, n, _). n) m) = length (pr_results p)"
proof -
  let ?g = "map (\<lambda>(k, os). (k, order_figures os)) (group_by (\<lambda>o1. order_type_str (or_type o1)) (pr_results p))"
  have m: "m = ensure_count ''sell'' (ensure_count ''buy'' ?g)" using assms by (simp add: order_status_counts_def)
  have "sum_list (map (\<lambda>(_, n, _). n) ?g) = length (pr_results p)"
    using group_by_lengths[of "\<lambda>o1. order_type_str (or_type o1)" "pr_results p"] by (simp add: order_figures_def comp_def case_prod_beta)
  then show ?thesis unfolding m using ensure_count_present by (simp add: ensure_count_total)
qed

section \<open>Deleting own orders\<close>

lemma rc_delete_orders:
  "del (or_id o1) = Inr o2 \<Longrightarrow> rc_delete rc (or_id o1) (del (or_id o1)) = (Inr o2, rc\<lparr>rc_orders := ol_retain (\<lambda>x. or_id x \<noteq> or_id o2) (rc_orders rc)\<rparr>)"
  by (simp add: rc_delete_def ol_remove_by_id_def)

lemma ol_retain_retain: "ol_retain P (ol_retain Q l) = ol_retain (\<lambda>x. P x \<and> Q x) l"
  by (simp add: ol_retain_def conj_commute)

lemma ol_retain_True: "ol_retain (\<lambda>_. True) l = l"
  by (simp add: ol_retain_def)

text \<open>
  A run of deletions removes the orders in turn: when every request succeeds all of them are gone, and when one is
  refused the run ends with that refusal, the orders before it gone and every other order still there.
\<close>

theorem deletions_stop_at_the_first_refusal:
  assumes "\<forall>o1\<in>set os. \<forall>o2. del (or_id o1) = Inr o2 \<longrightarrow> or_id o2 = or_id o1"
  shows "case delete_each del os rc of (r, rc1) \<Rightarrow>
    \<exists>done left. os = done @ left \<and> (\<forall>o1\<in>set done. \<exists>o2. del (or_id o1) = Inr o2)
      \<and> (case r of Inr _ \<Rightarrow> left = [] | Inl e \<Rightarrow> left \<noteq> [] \<and> del (or_id (hd left)) = Inl e)
      \<and> rc1 = rc\<lparr>rc_orders := ol_retain (\<lambda>x. or_id x \<notin> or_id ` set done) (rc_orders rc)\<rparr>"
  using assms
proof (induction os arbitrary: rc)
  case Nil
  then show ?case by (simp add: ol_retain_True)
next
  case (Cons o1 os)
  show ?case
  proof (cases "del (or_id o1)")
    case (Inl e)
    then show ?thesis by (auto simp: rc_delete_def ol_retain_True intro: exI[of _ "[]"])
  next
    case (Inr o2)
    let ?rc = "rc\<lparr>rc_orders := ol_retain (\<lambda>x. or_id x \<noteq> or_id o1) (rc_orders rc)\<rparr>"
    have o2: "or_id o2 = or_id o1" using bspec[OF Cons.prems, of o1] Inr by simp
    then have step: "delete_each del (o1 # os) rc = delete_each del os ?rc"
      using rc_delete_orders[of del o1 o2 rc] Inr by simp
    obtain r rc1 where r: "delete_each del os ?rc = (r, rc1)" by (cases "delete_each del os ?rc")
    have prem: "\<forall>o1\<in>set os. \<forall>o2. del (or_id o1) = Inr o2 \<longrightarrow> or_id o2 = or_id o1"
      by (rule ballI, rule bspec[OF Cons.prems]) simp
    obtain done1 left where d: "os = done1 @ left" "\<forall>o1\<in>set done1. \<exists>o2. del (or_id o1) = Inr o2"
        "case r of Inr _ \<Rightarrow> left = [] | Inl e \<Rightarrow> left \<noteq> [] \<and> del (or_id (hd left)) = Inl e"
        "rc1 = ?rc\<lparr>rc_orders := ol_retain (\<lambda>x. or_id x \<notin> or_id ` set done1) (rc_orders ?rc)\<rparr>"
      using Cons.IH[OF prem, of ?rc, unfolded r prod.case] by blast
    have rc: "rc1 = rc\<lparr>rc_orders := ol_retain (\<lambda>x. or_id x \<notin> or_id ` set (o1 # done1)) (rc_orders rc)\<rparr>"
      unfolding d(4) by (simp add: ol_retain_retain conj_commute)
    have split: "o1 # os = (o1 # done1) @ left" and sent: "\<forall>o1\<in>set (o1 # done1). \<exists>o2. del (or_id o1) = Inr o2"
      using d(1,2) Inr by simp_all
    show ?thesis
      unfolding step r prod.case by (intro exI[of _ "o1 # done1"] exI[of _ left] conjI split sent d(3) rc)
  qed
qed

end
