(* ===== verification/Row_Commands.thy ===== *)
theory Row_Commands
  imports Pages
begin

text \<open>
  The commands on stored rows: the trade entries with their table, payloads and validation
  (\<open>entity/src/trade_entry/\<close>, \<open>service/src/mutation/trade_entry_mutation.rs\<close>, \<open>qf_core/src/utils/create_trade_entry_ext.rs\<close>,
  \<open>qf_core/src/commands/trade_entry.rs\<close>), the changes of stored transactions (\<open>transaction_mutation.rs\<close>,
  \<open>commands/transaction.rs\<close>) and the commands that work on several rows (\<open>commands/stock_item.rs\<close>, \<open>wish_list.rs\<close>). As in
  \<open>Stock_Store\<close>, only failures that the code itself raises are modelled.
\<close>

section \<open>Several rows, one after the other\<close>

text \<open>The first failure ends the run and is the answer; what was done before it stays.\<close>

fun each_until :: "('db \<Rightarrow> 'a \<Rightarrow> ('e + 'b) \<times> 'db) \<Rightarrow> 'db \<Rightarrow> 'a list \<Rightarrow> ('e + 'b list) \<times> 'db" where
  "each_until step db [] = (Inr [], db)"
| "each_until step db (a # as) =
     (case step db a of
        (Inl e, db1) \<Rightarrow> (Inl e, db1)
      | (Inr b, db1) \<Rightarrow>
          (case each_until step db1 as of (Inl e, db2) \<Rightarrow> (Inl e, db2) | (Inr bs, db2) \<Rightarrow> (Inr (b # bs), db2)))"

fun apply_each :: "('db \<Rightarrow> 'a \<Rightarrow> ('e + 'b) \<times> 'db) \<Rightarrow> 'db \<Rightarrow> 'a list \<Rightarrow> 'db" where
  "apply_each step db [] = db"
| "apply_each step db (a # as) = apply_each step (snd (step db a)) as"

text \<open>
  A statement on a table that either fails and changes nothing or keeps the invariant: then a run keeps it too, and it is the
  statements up to the first failure.
\<close>

locale row_statement =
  fixes step :: "'db \<Rightarrow> 'a \<Rightarrow> ('e + 'b) \<times> 'db"
    and inv :: "'db \<Rightarrow> bool"
    and allowed :: "'db \<Rightarrow> 'a \<Rightarrow> bool"
  assumes failure_keeps: "step db a = (Inl e, db1) \<Longrightarrow> db1 = db"
    and success_inv: "inv db \<Longrightarrow> allowed db a \<Longrightarrow> step db a = (Inr b, db1) \<Longrightarrow> inv db1"
begin

lemma run_is_a_prefix:
  "\<exists>done left. as = done @ left \<and> snd (each_until step db as) = apply_each step db done
     \<and> (case fst (each_until step db as) of
          Inr bs \<Rightarrow> left = [] \<and> length bs = length as
        | Inl e \<Rightarrow> left \<noteq> [] \<and> step (apply_each step db done) (hd left) = (Inl e, apply_each step db done))"
proof (induction as arbitrary: db)
  case (Cons a as)
  show ?case
  proof (cases "step db a")
    case (Pair r db1)
    show ?thesis
    proof (cases r)
      case (Inl e)
      then have "db1 = db" using failure_keeps Pair by blast
      then show ?thesis using Pair Inl by (intro exI[of _ "[]"] exI[of _ "a # as"]) simp
    next
      case (Inr b)
      obtain done1 left where d: "as = done1 @ left" "snd (each_until step db1 as) = apply_each step db1 done1"
        "case fst (each_until step db1 as) of
           Inr bs \<Rightarrow> left = [] \<and> length bs = length as
         | Inl e \<Rightarrow> left \<noteq> [] \<and> step (apply_each step db1 done1) (hd left) = (Inl e, apply_each step db1 done1)"
        using Cons.IH[of db1] by blast
      have "a # as = (a # done1) @ left" using d(1) by simp
      moreover have "snd (each_until step db (a # as)) = apply_each step db (a # done1)"
        using Pair Inr d(2) by (auto split: prod.splits sum.splits)
      moreover have "case fst (each_until step db (a # as)) of
           Inr bs \<Rightarrow> left = [] \<and> length bs = length (a # as)
         | Inl e \<Rightarrow> left \<noteq> [] \<and> step (apply_each step db (a # done1)) (hd left) = (Inl e, apply_each step db (a # done1))"
        using Pair Inr d(3) by (auto split: prod.splits sum.splits)
      ultimately show ?thesis by blast
    qed
  qed
qed simp

lemma run_keeps_inv:
  assumes "inv db" and "\<And>db a. a \<in> set as \<Longrightarrow> inv db \<Longrightarrow> allowed db a"
  shows "inv (snd (each_until step db as))"
  using assms
proof (induction as arbitrary: db)
  case (Cons a as)
  have ok: "allowed db a" using Cons.prems by simp
  show ?case
  proof (cases "step db a")
    case (Pair r db1)
    show ?thesis
    proof (cases r)
      case (Inl e)
      then show ?thesis using Pair failure_keeps Cons.prems(1) by auto
    next
      case (Inr b)
      then have "inv db1" using success_inv Cons.prems(1) ok Pair by blast
      then have "inv (snd (each_until step db1 as))" using Cons by simp
      then show ?thesis using Pair Inr by (auto split: prod.splits sum.splits)
    qed
  qed
qed simp

end

section \<open>Stock items and wishes\<close>

definition stock_item_delete_multiple :: "stock_db \<Rightarrow> int list \<Rightarrow> (fault + nat) \<times> stock_db" where
  "stock_item_delete_multiple db ids = apfst (map_sum id length) (each_until stock_delete_by_id db ids)"

definition stock_item_update_multiple :: "stock_db \<Rightarrow> int list \<Rightarrow> update_stock \<Rightarrow> utc \<Rightarrow> (fault + stock_item list) \<times> stock_db" where
  "stock_item_update_multiple db ids u now = each_until (\<lambda>db i. stock_update_by_id db (u\<lparr>ustk_id := i\<rparr>) now) db ids"

definition stock_item_delete :: "app_state \<Rightarrow> int \<Rightarrow> api_error + wfm_order \<Rightarrow> (fault + stock_item) \<times> app_state" where
  "stock_item_delete ap i answer =
     (case stock_find_id (ap_stock ap) i of
        None \<Rightarrow> (Inl (Failed (new_error ''Command::StockItemDelete'' (''Stock item with ID '' @ show_int i @ '' not found''))), ap)
      | Some m \<Rightarrow>
          (case handle_wfm_item ap (stk_wfm_id m) (stk_sub_type m) 1 SellOrder [''ShouldDelete''] answer of
             (Inl e, ap1) \<Rightarrow> (Inl e, ap1)
           | (Inr _, ap1) \<Rightarrow>
               (case stock_delete_by_id (ap_stock ap1) i of
                  (Inl e, db1) \<Rightarrow> (Inl e, ap1\<lparr>ap_stock := db1\<rparr>)
                | (Inr _, db1) \<Rightarrow> (Inr m, ap1\<lparr>ap_stock := db1\<rparr>))))"

definition wish_list_delete_multiple :: "stock_db \<Rightarrow> int list \<Rightarrow> (fault + nat) \<times> stock_db" where
  "wish_list_delete_multiple db ids = apfst (map_sum id length) (each_until wish_delete_by_id db ids)"

definition wish_list_update_multiple :: "stock_db \<Rightarrow> int list \<Rightarrow> update_wish \<Rightarrow> utc \<Rightarrow> (fault + wish_item list) \<times> stock_db" where
  "wish_list_update_multiple db ids u now = each_until (\<lambda>db i. wish_update_by_id db (u\<lparr>uwl_id := i\<rparr>) now) db ids"

definition wish_list_delete :: "app_state \<Rightarrow> int \<Rightarrow> api_error + wfm_order \<Rightarrow> (fault + wish_item) \<times> app_state" where
  "wish_list_delete ap i answer =
     (case wish_find_id (ap_stock ap) i of
        None \<Rightarrow> (Inl (Failed (new_error ''Command::WishListDelete'' (''Wish list item with ID '' @ show_int i @ '' not found''))), ap)
      | Some m \<Rightarrow>
          (case handle_wfm_item ap (wl_wfm_id m) (wl_sub_type m) 1 BuyOrder [''ShouldDelete''] answer of
             (Inl e, ap1) \<Rightarrow> (Inl e, ap1)
           | (Inr _, ap1) \<Rightarrow>
               (case wish_delete_by_id (ap_stock ap1) i of
                  (Inl e, db1) \<Rightarrow> (Inl e, ap1\<lparr>ap_stock := db1\<rparr>)
                | (Inr _, db1) \<Rightarrow> (Inr m, ap1\<lparr>ap_stock := db1\<rparr>))))"

section \<open>Stored transactions\<close>

record update_transaction =
  ut_id :: int
  ut_price :: "int field_change"
  ut_quantity :: "int field_change"
  ut_created_at :: "string field_change"
  ut_user_name :: "string field_change"
  ut_credits :: "int field_change"
  ut_unique_name :: "string field_change"
  ut_properties :: "json field_change"

definition update_transaction_new :: "int \<Rightarrow> update_transaction" where
  "update_transaction_new i = \<lparr>ut_id = i, ut_price = FcIgnore, ut_quantity = FcIgnore, ut_created_at = FcIgnore,
     ut_user_name = FcIgnore, ut_credits = FcIgnore, ut_unique_name = FcIgnore, ut_properties = FcIgnore\<rparr>"

text \<open>\<open>v.parse().unwrap()\<close>: a date that does not parse is a panic.\<close>

definition apply_transaction_update :: "(string \<Rightarrow> utc option) \<Rightarrow> update_transaction \<Rightarrow> transaction \<Rightarrow> fault + transaction" where
  "apply_transaction_update parse u t =
     (let t1 = fc_set (ut_price u) (\<lambda>v t. t\<lparr>tx_price := v\<rparr>) t;
          t2 = fc_set (ut_quantity u) (\<lambda>v t. t\<lparr>tx_quantity := v\<rparr>) t1;
          t3 = fc_set (ut_user_name u) (\<lambda>v t. t\<lparr>tx_user_name := v\<rparr>) t2;
          rest = (\<lambda>t4. fc_set (ut_unique_name u) (\<lambda>v t. t\<lparr>tx_unique_name := v\<rparr>)
                        (fc_set (ut_credits u) (\<lambda>v t. t\<lparr>tx_credits := v\<rparr>)
                          (fc_set_opt (ut_properties u) (\<lambda>v t. t\<lparr>tx_properties := v\<rparr>) t4)))
      in case ut_created_at u of
           FcValue v \<Rightarrow> (case parse v of Some d \<Rightarrow> Inr (rest (t3\<lparr>tx_created_at := d\<rparr>)) | None \<Rightarrow> Inl Panicked)
         | _ \<Rightarrow> Inr (rest t3))"

definition transaction_update_by_id ::
  "(string \<Rightarrow> utc option) \<Rightarrow> utc \<Rightarrow> transaction list \<Rightarrow> update_transaction \<Rightarrow> (fault + transaction) \<times> transaction list" where
  "transaction_update_by_id parse now rows u =
     (case row_lookup tx_id rows (ut_id u) of
        None \<Rightarrow> (Inl (Failed (new_error ''TransactionMutation:UpdateById'' ''Transaction not found'')), rows)
      | Some t \<Rightarrow>
          (case apply_transaction_update parse u t of
             Inl e \<Rightarrow> (Inl e, rows)
           | Inr t1 \<Rightarrow> (let t2 = t1\<lparr>tx_updated_at := now\<rparr> in (Inr t2, row_modify tx_id (ut_id u) (\<lambda>_. t2) rows))))"

definition transaction_delete_by_id :: "transaction list \<Rightarrow> int \<Rightarrow> (fault + nat) \<times> transaction list" where
  "transaction_delete_by_id rows i =
     (case row_lookup tx_id rows i of
        None \<Rightarrow> (Inl (Failed (new_error ''TransactionMutation:DeleteById'' ''Transaction not found'')), rows)
      | Some t \<Rightarrow> (Inr (length (filter (\<lambda>r. tx_id r = i) rows)), row_delete tx_id i rows))"

definition transaction_delete :: "transaction list \<Rightarrow> int \<Rightarrow> (fault + transaction) \<times> transaction list" where
  "transaction_delete rows i =
     (case row_lookup tx_id rows i of
        None \<Rightarrow> (Inl (Failed (new_error ''Command::TransactionDelete'' (''Transaction with ID '' @ show_int i @ '' not found''))), rows)
      | Some t \<Rightarrow>
          (case transaction_delete_by_id rows i of (Inl e, rows1) \<Rightarrow> (Inl e, rows1) | (Inr _, rows1) \<Rightarrow> (Inr t, rows1)))"

definition transaction_delete_bulk :: "transaction list \<Rightarrow> int list \<Rightarrow> (fault + nat) \<times> transaction list" where
  "transaction_delete_bulk rows ids = apfst (map_sum id sum_list) (each_until transaction_delete_by_id rows ids)"

text \<open>\<open>update_names\<close>: the names of rows whose lower-cased unique name the mapper knows.\<close>

definition transaction_update_names :: "(string \<Rightarrow> string) \<Rightarrow> (string \<Rightarrow> string option) \<Rightarrow> utc \<Rightarrow> transaction list \<Rightarrow> transaction list" where
  "transaction_update_names lower mapper now rows =
     map (\<lambda>t. case mapper (lower (tx_unique_name t)) of
                Some name \<Rightarrow> t\<lparr>tx_item_name := name, tx_updated_at := now\<rparr> | None \<Rightarrow> t) rows"

definition transaction_delete_all :: "transaction list \<Rightarrow> nat \<times> transaction list" where
  "transaction_delete_all rows = (length rows, [])"

section \<open>Trade entries\<close>

record trade_entry =
  te_id :: int
  te_wfm_id :: string
  te_name :: string
  te_sub_type :: "sub_type option"
  te_price :: int
  te_group :: string
  te_tags :: string
  te_updated_at :: utc
  te_created_at :: utc
  te_properties :: "json option"

definition trade_entry_new :: "string \<Rightarrow> string \<Rightarrow> sub_type option \<Rightarrow> int \<Rightarrow> string list \<Rightarrow> string \<Rightarrow> json option \<Rightarrow> trade_entry" where
  "trade_entry_new wfm_id name sub p tags grp props =
     \<lparr>te_id = 0, te_wfm_id = wfm_id, te_name = name, te_sub_type = sub, te_price = p, te_group = grp,
      te_tags = str_join '','' tags, te_updated_at = 0, te_created_at = 0, te_properties = props\<rparr>"

record update_entry =
  ue_id :: int
  ue_price :: "int field_change"
  ue_tags :: "string list field_change"
  ue_sub_type :: "sub_type option field_change"

definition update_entry_new :: "int \<Rightarrow> update_entry" where
  "update_entry_new i = \<lparr>ue_id = i, ue_price = FcIgnore, ue_tags = FcIgnore, ue_sub_type = FcIgnore\<rparr>"

definition entry_to_update :: "trade_entry \<Rightarrow> update_entry" where
  "entry_to_update m = \<lparr>ue_id = te_id m, ue_price = FcValue (te_price m), ue_tags = FcValue (str_split CHR '','' (te_tags m)),
     ue_sub_type = FcValue (te_sub_type m)\<rparr>"

definition apply_entry_update :: "update_entry \<Rightarrow> trade_entry \<Rightarrow> trade_entry" where
  "apply_entry_update u m =
     fc_set (ue_sub_type u) (\<lambda>v m. m\<lparr>te_sub_type := v\<rparr>)
       (fc_set (ue_tags u) (\<lambda>v m. m\<lparr>te_tags := str_join '','' v\<rparr>)
         (fc_set (ue_price u) (\<lambda>v m. m\<lparr>te_price := v\<rparr>) m))"

record create_entry =
  ce_raw :: string
  ce_override_existing :: bool
  ce_wfm_id :: string
  ce_name :: string
  ce_sub_type :: "sub_type option"
  ce_tags :: "string list"
  ce_price :: int
  ce_group :: string
  ce_properties :: "json option"
  ce_is_validated :: bool

definition create_entry_new :: "string \<Rightarrow> sub_type option \<Rightarrow> create_entry" where
  "create_entry_new raw sub =
     \<lparr>ce_raw = raw, ce_override_existing = False, ce_wfm_id = [], ce_name = [], ce_sub_type = sub, ce_tags = [], ce_price = 0,
      ce_group = [], ce_properties = None, ce_is_validated = False\<rparr>"

definition entry_to_model :: "create_entry \<Rightarrow> trade_entry" where
  "entry_to_model c =
     trade_entry_new (ce_wfm_id c) (ce_name c) (ce_sub_type c) (ce_price c) (ce_tags c) (ce_group c) (ce_properties c)"

definition validate_entry :: "item_cache \<Rightarrow> create_entry \<Rightarrow> qf_error + create_entry" where
  "validate_entry cache c =
     (if ce_group c = ''item'' then map_sum id (\<lambda>it. c\<lparr>ce_wfm_id := ca_wfm_id it\<rparr>) (cache_get cache (ce_raw c))
      else if ce_group c = ''riven'' then
        Inl (new_error ''CreateTradeEntry:Validate'' ''Riven trade entries are not supported in this version'')
      else if ce_group c = ''custom'' then Inr (c\<lparr>ce_wfm_id := ''custom'', ce_name := ce_raw c\<rparr>)
      else Inl (new_error ''CreateTradeEntryExt::Validate'' (''Invalid group: '' @ ce_group c)))"

record entry_db =
  ed_rows :: "trade_entry list"
  ed_next :: int

definition entry_create :: "utc \<Rightarrow> entry_db \<Rightarrow> trade_entry \<Rightarrow> trade_entry \<times> entry_db" where
  "entry_create now db m =
     (let row = m\<lparr>te_id := ed_next db, te_created_at := now, te_updated_at := now\<rparr>
      in (row, \<lparr>ed_rows = ed_rows db @ [row], ed_next = ed_next db + 1\<rparr>))"

definition entry_find :: "entry_db \<Rightarrow> int \<Rightarrow> trade_entry option" where
  "entry_find db i = row_lookup te_id (ed_rows db) i"

definition entry_find_by_ids :: "entry_db \<Rightarrow> int list \<Rightarrow> trade_entry list" where
  "entry_find_by_ids db ids = filter (\<lambda>m. te_id m \<in> set ids) (ed_rows db)"

definition entry_update_by_id :: "utc \<Rightarrow> entry_db \<Rightarrow> update_entry \<Rightarrow> (fault + trade_entry) \<times> entry_db" where
  "entry_update_by_id now db u =
     (case entry_find db (ue_id u) of
        None \<Rightarrow> (Inl (Failed (new_error ''TradeEntryMutation:UpdateById'' ''Trade Entry not found'')), db)
      | Some m \<Rightarrow>
          (let m1 = (apply_entry_update u m)\<lparr>te_updated_at := now\<rparr>
           in (Inr m1, db\<lparr>ed_rows := row_modify te_id (ue_id u) (\<lambda>_. m1) (ed_rows db)\<rparr>)))"

definition entry_delete_by_id :: "entry_db \<Rightarrow> int \<Rightarrow> (fault + unit) \<times> entry_db" where
  "entry_delete_by_id db i =
     (case entry_find db i of
        None \<Rightarrow> (Inl (Failed (new_error ''TradeEntryMutation:DeleteById'' ''Trade Entry not found'')), db)
      | Some m \<Rightarrow> (Inr (), db\<lparr>ed_rows := row_delete te_id i (ed_rows db)\<rparr>))"

definition entry_delete_all :: "entry_db \<Rightarrow> nat \<times> entry_db" where
  "entry_delete_all db = (length (ed_rows db), db\<lparr>ed_rows := []\<rparr>)"

definition entry_existing :: "entry_db \<Rightarrow> trade_entry \<Rightarrow> trade_entry option" where
  "entry_existing db m = List.find (\<lambda>r. te_wfm_id r = te_wfm_id m \<and> te_tags r = te_tags m) (ed_rows db)"

definition entry_create_or_update :: "utc \<Rightarrow> bool \<Rightarrow> entry_db \<Rightarrow> trade_entry \<Rightarrow> (fault + trade_entry) \<times> entry_db" where
  "entry_create_or_update now override_existing db m =
     (case (if override_existing then entry_existing db m else None) of
        Some existing \<Rightarrow> entry_update_by_id now db (entry_to_update (m\<lparr>te_id := te_id existing\<rparr>))
      | None \<Rightarrow> apfst Inr (entry_create now db m))"

definition trade_entry_create :: "item_cache \<Rightarrow> utc \<Rightarrow> entry_db \<Rightarrow> create_entry \<Rightarrow> (fault + trade_entry) \<times> entry_db" where
  "trade_entry_create cache now db c =
     (case validate_entry cache c of
        Inl e \<Rightarrow> (Inl (Failed e), db)
      | Inr c1 \<Rightarrow> entry_create_or_update now (ce_override_existing c1) db (entry_to_model c1))"

definition trade_entry_create_multiple :: "item_cache \<Rightarrow> utc \<Rightarrow> entry_db \<Rightarrow> create_entry list \<Rightarrow> (fault + nat) \<times> entry_db" where
  "trade_entry_create_multiple cache now db cs = apfst (map_sum id length) (each_until (trade_entry_create cache now) db cs)"

definition trade_entry_delete :: "entry_db \<Rightarrow> int \<Rightarrow> (fault + trade_entry) \<times> entry_db" where
  "trade_entry_delete db i =
     (case entry_find db i of
        None \<Rightarrow> (Inl (Failed (new_error ''Command::TradeEntryDelete'' (''Trade entry with ID '' @ show_int i @ '' not found''))), db)
      | Some m \<Rightarrow>
          (case entry_delete_by_id db i of (Inl e, db1) \<Rightarrow> (Inl e, db1) | (Inr _, db1) \<Rightarrow> (Inr m, db1)))"

definition trade_entry_delete_multiple :: "entry_db \<Rightarrow> int list \<Rightarrow> (fault + nat) \<times> entry_db" where
  "trade_entry_delete_multiple db ids = apfst (map_sum id length) (each_until entry_delete_by_id db ids)"

definition trade_entry_update_multiple :: "utc \<Rightarrow> entry_db \<Rightarrow> int list \<Rightarrow> update_entry \<Rightarrow> (fault + trade_entry list) \<times> entry_db" where
  "trade_entry_update_multiple now db ids u = each_until (\<lambda>db i. entry_update_by_id now db (u\<lparr>ue_id := i\<rparr>)) db ids"

definition trade_entry_get_by_id :: "entry_db \<Rightarrow> int \<Rightarrow> fault + trade_entry" where
  "trade_entry_get_by_id db i =
     (case entry_find db i of
        Some m \<Rightarrow> Inr m
      | None \<Rightarrow> Inl (Failed (new_error ''Command::TradeEntryGetById'' (''Trade entry with ID '' @ show_int i @ '' not found''))))"

record entry_query =
  eq_pagination :: page_request
  eq_query :: "string field_change"
  eq_group :: "string field_change"
  eq_sort_by :: "string field_change"
  eq_sort_direction :: "sort_direction field_change"
  eq_tags :: "string list field_change"

definition entry_query_new :: "int \<Rightarrow> int \<Rightarrow> entry_query" where
  "entry_query_new page limit = \<lparr>eq_pagination = page_new page limit, eq_query = FcIgnore, eq_group = FcIgnore, eq_sort_by = FcIgnore,
     eq_sort_direction = FcValue Asc, eq_tags = FcIgnore\<rparr>"

definition entry_query_default :: entry_query where
  "entry_query_default = (entry_query_new 0 0)\<lparr>eq_pagination := page_default\<rparr>"

text \<open>\<open>sub_text\<close> is the JSON text of the sub-type column; a missing sub-type matches nothing.\<close>

definition entry_get_query :: "sql \<Rightarrow> (sub_type \<Rightarrow> string) \<Rightarrow> entry_query \<Rightarrow> trade_entry list \<Rightarrow> trade_entry list" where
  "entry_get_query s sub_text q rows =
     order_by (eq_sort_by q) (eq_sort_direction q)
       [(''name'', \<lambda>d. order_rows d te_name), (''price'', \<lambda>d. order_rows d te_price)]
    (where_value (eq_group q) (\<lambda>v m. te_group m = v)
    (where_tags s (eq_tags q) te_tags
    (where_value (eq_query q) (\<lambda>v m. like_contains s v (te_name m)
        \<or> (case te_sub_type m of Some x \<Rightarrow> like_contains s v (sub_text x) | None \<Rightarrow> False)) rows)))"

definition entry_get_all :: "sql \<Rightarrow> (sub_type \<Rightarrow> string) \<Rightarrow> trade_entry paginator \<Rightarrow> entry_query \<Rightarrow> entry_db \<Rightarrow> trade_entry page option" where
  "entry_get_all s sub_text pgn q db =
     paginate_query pgn (entry_get_query s sub_text q (ed_rows db)) (pg_page (eq_pagination q)) (pg_limit (eq_pagination q))"

definition export_trade_entries :: "sql \<Rightarrow> (sub_type \<Rightarrow> string) \<Rightarrow> trade_entry paginator \<Rightarrow> entry_query \<Rightarrow> entry_db \<Rightarrow> trade_entry list option" where
  "export_trade_entries s sub_text pgn q db =
     map_option pr_results (entry_get_all s sub_text pgn (q\<lparr>eq_pagination := (eq_pagination q)\<lparr>pg_limit := -1\<rparr>\<rparr>) db)"

section \<open>What a run leaves\<close>

lemma entry_find_id: "entry_find db i = Some m \<Longrightarrow> m \<in> set (ed_rows db) \<and> te_id m = i"
  unfolding entry_find_def by (rule row_lookup_Some)

definition entries_wf :: "entry_db \<Rightarrow> bool" where
  "entries_wf db \<longleftrightarrow> distinct (map te_id (ed_rows db)) \<and> (\<forall>m \<in> set (ed_rows db). te_id m < ed_next db)"

lemma entries_wf_iff: "entries_wf db \<longleftrightarrow> distinct (map te_id (ed_rows db)) \<and> (\<forall>i \<in> set (map te_id (ed_rows db)). i < ed_next db)"
  by (simp add: entries_wf_def)

lemma entry_update_failed: "entry_update_by_id now db u = (Inl e, db1) \<Longrightarrow> db1 = db"
  by (auto simp: entry_update_by_id_def Let_def split: option.splits)

lemma entry_update_id: "te_id ((apply_entry_update u m)\<lparr>te_updated_at := now\<rparr>) = te_id m"
  by (simp add: apply_entry_update_def fc_set_def split: field_change.split)

lemma entry_update_wf:
  assumes "entries_wf db" and "entry_update_by_id now db u = (Inr m1, db1)"
  shows "entries_wf db1"
proof -
  obtain m where m: "entry_find db (ue_id u) = Some m" and m1: "m1 = (apply_entry_update u m)\<lparr>te_updated_at := now\<rparr>"
    and db1: "db1 = db\<lparr>ed_rows := row_modify te_id (ue_id u) (\<lambda>_. m1) (ed_rows db)\<rparr>"
    using assms(2) by (auto simp: entry_update_by_id_def Let_def split: option.splits)
  have id: "te_id m1 = te_id m" "m \<in> set (ed_rows db)" "te_id m = ue_id u" using entry_find_id[OF m] m1 entry_update_id by auto
  have "map te_id (ed_rows db1) = map te_id (ed_rows db)"
    using row_modify_const_keys[of te_id "ed_rows db" m te_id m1] assms(1) id by (simp add: db1 entries_wf_def)
  then have same: "map te_id (ed_rows db1) = map te_id (ed_rows db)" "ed_next db1 = ed_next db" by (simp_all add: db1)
  show ?thesis
    using assms(1) unfolding entries_wf_iff same .
qed

lemma entry_create_wf: "entries_wf db \<Longrightarrow> entries_wf (snd (entry_create now db m))"
  by (auto simp: entries_wf_def entry_create_def Let_def)

lemma entry_delete_failed: "entry_delete_by_id db i = (Inl e, db1) \<Longrightarrow> db1 = db"
  by (auto simp: entry_delete_by_id_def split: option.splits)

lemma entry_delete_wf: "entries_wf db \<Longrightarrow> entry_delete_by_id db i = (Inr r, db1) \<Longrightarrow> entries_wf db1"
  by (auto simp: entries_wf_def entry_delete_by_id_def row_delete_def distinct_map_filter split: option.splits)

lemma create_or_update_failed: "entry_create_or_update now ov db m = (Inl e, db1) \<Longrightarrow> db1 = db"
  by (auto simp: entry_create_or_update_def apfst_def map_prod_def dest: entry_update_failed split: option.splits prod.splits)

lemma create_or_update_wf: "entries_wf db \<Longrightarrow> entry_create_or_update now ov db m = (Inr r, db1) \<Longrightarrow> entries_wf db1"
  using entry_create_wf[of db now m] entry_update_wf
  by (auto simp: entry_create_or_update_def apfst_def map_prod_def split: option.splits prod.splits)

lemma trade_entry_create_failed: "trade_entry_create cache now db c = (Inl e, db1) \<Longrightarrow> db1 = db"
  by (auto simp: trade_entry_create_def dest: create_or_update_failed split: sum.splits)

lemma trade_entry_create_wf: "entries_wf db \<Longrightarrow> trade_entry_create cache now db c = (Inr r, db1) \<Longrightarrow> entries_wf db1"
  by (auto simp: trade_entry_create_def dest: create_or_update_wf split: sum.splits)

interpretation entry_creates: row_statement "trade_entry_create cache now" entries_wf "\<lambda>_ _. True" for cache now
  by unfold_locales (auto dest: trade_entry_create_failed trade_entry_create_wf)

interpretation entry_updates: row_statement "\<lambda>db i. entry_update_by_id now db (u\<lparr>ue_id := i\<rparr>)" entries_wf "\<lambda>_ _. True" for now u
  by unfold_locales (auto dest: entry_update_failed entry_update_wf)

interpretation entry_deletes: row_statement entry_delete_by_id entries_wf "\<lambda>_ _. True"
  by unfold_locales (auto dest: entry_delete_failed entry_delete_wf)

interpretation stock_deletes: row_statement stock_delete_by_id stock_inv "\<lambda>_ _. True"
proof
  show "stock_delete_by_id db a = (Inl e, db1) \<Longrightarrow> db1 = db" for db a e db1
    by (auto simp: stock_delete_by_id_def split: option.splits)
  show "stock_inv db \<Longrightarrow> stock_delete_by_id db a = (Inr b, db1) \<Longrightarrow> stock_inv db1" for db a b db1
    using stock_step_inv[of db "SkDelete a"] by simp
qed

interpretation wish_deletes: row_statement wish_delete_by_id stock_inv "\<lambda>_ _. True"
proof
  show "wish_delete_by_id db a = (Inl e, db1) \<Longrightarrow> db1 = db" for db a e db1
    by (auto simp: wish_delete_by_id_def split: option.splits)
  show "stock_inv db \<Longrightarrow> wish_delete_by_id db a = (Inr b, db1) \<Longrightarrow> stock_inv db1" for db a b db1
    using stock_step_inv[of db "SkWishDelete a"] by simp
qed

interpretation stock_updates: row_statement "\<lambda>db i. stock_update_by_id db (u\<lparr>ustk_id := i\<rparr>) now" stock_inv
  "\<lambda>db i. stock_update_ok db (u\<lparr>ustk_id := i\<rparr>)" for u now
proof
  show "stock_update_by_id db (u\<lparr>ustk_id := a\<rparr>) now = (Inl e, db1) \<Longrightarrow> db1 = db" for db a e db1
    by (auto simp: stock_update_by_id_def Let_def split: option.splits)
  show "stock_inv db \<Longrightarrow> stock_update_ok db (u\<lparr>ustk_id := a\<rparr>) \<Longrightarrow> stock_update_by_id db (u\<lparr>ustk_id := a\<rparr>) now = (Inr b, db1) \<Longrightarrow> stock_inv db1"
    for db a b db1
    using stock_update_inv[of db "u\<lparr>ustk_id := a\<rparr>" now] by simp
qed

lemma transaction_delete_failed: "transaction_delete_by_id rows i = (Inl e, rows1) \<Longrightarrow> rows1 = rows"
  by (auto simp: transaction_delete_by_id_def split: option.splits)

interpretation transaction_deletes: row_statement transaction_delete_by_id "\<lambda>rows. distinct (map tx_id rows)" "\<lambda>_ _. True"
  by unfold_locales (auto dest: transaction_delete_failed simp: transaction_delete_by_id_def row_delete_def distinct_map_filter split: option.splits)

text \<open>
  Deleting several stock items is one deletion after the other: the answer is an error exactly when some item is missing by then,
  the deletions before it stay although the answer does not name them, and the table keeps its invariant either way.
\<close>

theorem bulk_delete_keeps_what_it_did:
  assumes "stock_inv db"
  shows "stock_inv (snd (stock_item_delete_multiple db ids))
    \<and> (\<exists>done left. ids = done @ left \<and> snd (stock_item_delete_multiple db ids) = apply_each stock_delete_by_id db done
        \<and> (case fst (stock_item_delete_multiple db ids) of
             Inr n \<Rightarrow> left = [] \<and> n = length ids
           | Inl e \<Rightarrow> left \<noteq> [] \<and> stock_find_id (apply_each stock_delete_by_id db done) (hd left) = None))"
proof -
  have s: "snd (stock_item_delete_multiple db ids) = snd (each_until stock_delete_by_id db ids)"
    "fst (stock_item_delete_multiple db ids) = map_sum id length (fst (each_until stock_delete_by_id db ids))"
    by (simp_all add: stock_item_delete_multiple_def)
  obtain done1 left where d: "ids = done1 @ left" "snd (each_until stock_delete_by_id db ids) = apply_each stock_delete_by_id db done1"
    "case fst (each_until stock_delete_by_id db ids) of
       Inr bs \<Rightarrow> left = [] \<and> length bs = length ids
     | Inl e \<Rightarrow> left \<noteq> [] \<and> stock_delete_by_id (apply_each stock_delete_by_id db done1) (hd left) = (Inl e, apply_each stock_delete_by_id db done1)"
    using stock_deletes.run_is_a_prefix[of ids db] by blast
  have missing: "stock_delete_by_id db' i = (Inl e, db'') \<Longrightarrow> stock_find_id db' i = None" for db' i e db''
    by (auto simp: stock_delete_by_id_def split: option.splits)
  have "case fst (stock_item_delete_multiple db ids) of
      Inr n \<Rightarrow> left = [] \<and> n = length ids
    | Inl e \<Rightarrow> left \<noteq> [] \<and> stock_find_id (apply_each stock_delete_by_id db done1) (hd left) = None"
    using d(3) missing unfolding s(2) by (auto split: sum.splits)
  moreover have "stock_inv (snd (each_until stock_delete_by_id db ids))"
    using assms by (rule stock_deletes.run_keeps_inv) simp
  ultimately show ?thesis using d(1,2) s(1) by auto
qed

lemma str_join_split: "str_join [sep] (str_split sep s) = s"
proof (induction s)
  case (Cons c s)
  obtain p ps where s: "str_split sep s = p # ps" by (cases "str_split sep s") simp_all
  then show ?case using Cons by (cases ps) simp_all
qed simp

text \<open>
  Creating a trade entry over an existing one finds it by market id and tags alone and rewrites its price, its sub-type and its
  time of change: the name, the group and the properties of the new entry are dropped, all other rows stay.
\<close>

theorem override_rewrites_the_first_match:
  assumes "entries_wf db" and "entry_existing db m = Some e"
    and "m1 = e\<lparr>te_price := te_price m, te_sub_type := te_sub_type m, te_updated_at := now\<rparr>"
  shows "entry_create_or_update now True db m = (Inr m1, db\<lparr>ed_rows := map (\<lambda>r. if te_id r = te_id e then m1 else r) (ed_rows db)\<rparr>)"
proof -
  have e: "e \<in> set (ed_rows db)" "te_tags e = te_tags m" using find_SomeD[of _ "ed_rows db" e] assms(2) by (auto simp: entry_existing_def)
  have find: "entry_find db (te_id e) = Some e"
    using row_lookup_in[of te_id "ed_rows db" e] assms(1) e(1) by (simp add: entries_wf_def entry_find_def)
  have "(apply_entry_update (entry_to_update (m\<lparr>te_id := te_id e\<rparr>)) e)\<lparr>te_updated_at := now\<rparr> = m1"
    using e(2) by (simp add: apply_entry_update_def entry_to_update_def fc_set_def str_join_split assms(3))
  then show ?thesis
    using assms(2) find by (simp add: entry_create_or_update_def entry_update_by_id_def entry_to_update_def Let_def row_modify_def)
qed

definition demo_entries :: entry_db where
  "demo_entries = snd (entry_create 1 (snd (entry_create 1 \<lparr>ed_rows = [], ed_next = 1\<rparr>
     (trade_entry_new ''custom'' ''shield'' None 10 [''x''] ''custom'' None))) (trade_entry_new ''custom'' ''sword'' None 20 [] ''custom'' None))"

theorem override_rewrites_the_first_match_witness:
  "map (\<lambda>m. (te_name m, te_price m)) (ed_rows (snd (entry_create_or_update 5 True demo_entries
     (trade_entry_new ''custom'' ''bow'' None 99 [''x''] ''custom'' None)))) = [(''shield'', 99), (''sword'', 20)]"
proof -
  let ?m = "trade_entry_new ''custom'' ''bow'' None 99 [''x''] ''custom'' None"
  let ?e = "(trade_entry_new ''custom'' ''shield'' None 10 [''x''] ''custom'' None)\<lparr>te_id := 1, te_created_at := 1, te_updated_at := 1\<rparr>"
  have "entries_wf demo_entries" by (simp add: entries_wf_def demo_entries_def entry_create_def Let_def)
  moreover have "entry_existing demo_entries ?m = Some ?e"
    by (simp add: entry_existing_def demo_entries_def entry_create_def Let_def trade_entry_new_def)
  ultimately show ?thesis
    using override_rewrites_the_first_match[OF _ _ refl, of demo_entries ?m ?e 5]
    by (simp add: demo_entries_def entry_create_def Let_def trade_entry_new_def)
qed

definition demo_stock_db :: stock_db where
  "demo_stock_db = snd (stock_add_item empty_stock (demo_stock 3 10) 0)"

theorem bulk_delete_keeps_what_it_did_witness:
  "map stk_id (sd_items demo_stock_db) = [1] \<and> sd_items (snd (stock_item_delete_multiple demo_stock_db [1, 77])) = []
   \<and> fst (stock_item_delete_multiple demo_stock_db [1, 77]) \<noteq> Inr 2 \<and> stock_inv (snd (stock_item_delete_multiple demo_stock_db [1, 77]))"
proof -
  have inv: "stock_inv demo_stock_db"
    using stock_step_inv[of empty_stock "SkAdd (demo_stock 3 10) 0"]
    by (simp add: demo_stock_db_def stock_inv_def stock_wf_def wish_wf_def empty_stock_def demo_stock_def stock_item_new_def)
  have "map stk_id (sd_items demo_stock_db) = [1] \<and> sd_items (snd (stock_item_delete_multiple demo_stock_db [1, 77])) = []
      \<and> fst (stock_item_delete_multiple demo_stock_db [1, 77]) \<noteq> Inr 2"
    by (simp add: demo_stock_db_def demo_stock_defs stock_create_def Let_def stock_item_delete_multiple_def stock_delete_by_id_def
        stock_find_id_def stock_find_url_def row_lookup_def row_delete_def)
  with bulk_delete_keeps_what_it_did[OF inv, of "[1, 77]"] show ?thesis by blast
qed

end
