(* ===== verification/Rivens.thy ===== *)
theory Rivens
  imports Row_Commands
begin

text \<open>
  Stored riven mods: the row with its identity, setters and updates (\<open>entity/src/stock_riven/\<close>), the grades
  (\<open>entity/src/enums/riven_grade.rs\<close>, \<open>riven_attribute_grade.rs\<close>), the search filter, and the statements on the table
  (\<open>service/src/mutation/stock_riven_mutation.rs\<close>, \<open>query/stock_riven_query.rs\<close>). UUID version 5, \<open>str::to_lowercase\<close> and
  the text of an \<open>f64\<close> are parameters.
\<close>

section \<open>Grades\<close>

datatype riven_grade = Perfect | GoodRiven | HasPotential | BadRiven | UnknownRiven

fun riven_grade_str :: "riven_grade \<Rightarrow> string" where
  "riven_grade_str Perfect = ''perfect''"
| "riven_grade_str GoodRiven = ''good''"
| "riven_grade_str HasPotential = ''has_potential''"
| "riven_grade_str BadRiven = ''bad''"
| "riven_grade_str UnknownRiven = ''unknown''"

definition riven_grade_from_string :: "string \<Rightarrow> riven_grade" where
  "riven_grade_from_string s =
     (if s = ''perfect'' then Perfect else if s = ''good'' then GoodRiven else if s = ''has_potential'' then HasPotential
      else if s = ''bad'' then BadRiven else if s = ''unknown'' then UnknownRiven else UnknownRiven)"

datatype attribute_grade = Decisive | GoodAttribute | NotHelping | BadAttribute | UnknownAttribute

fun attribute_grade_str :: "attribute_grade \<Rightarrow> string" where
  "attribute_grade_str Decisive = ''decisive''"
| "attribute_grade_str GoodAttribute = ''good''"
| "attribute_grade_str NotHelping = ''not_helping''"
| "attribute_grade_str BadAttribute = ''bad''"
| "attribute_grade_str UnknownAttribute = ''unknown''"

definition attribute_grade_from_string :: "string \<Rightarrow> attribute_grade" where
  "attribute_grade_from_string s =
     (if s = ''decisive'' then Decisive else if s = ''good'' then GoodAttribute else if s = ''not_helping'' then NotHelping
      else if s = ''bad'' then BadAttribute else if s = ''unknown'' then UnknownAttribute else UnknownAttribute)"

section \<open>Attributes and search filters\<close>

record riven_attribute =
  ra_wfm_url :: string
  ra_positive :: bool
  ra_value :: real
  ra_formatted_value :: string
  ra_properties :: properties

definition riven_attribute_new :: "bool \<Rightarrow> real \<Rightarrow> string \<Rightarrow> string \<Rightarrow> riven_attribute" where
  "riven_attribute_new positive v url formatted =
     \<lparr>ra_wfm_url = url, ra_positive = positive, ra_value = v, ra_formatted_value = formatted, ra_properties = None\<rparr>"

definition attribute_to_raw :: "riven_attribute \<Rightarrow> string \<times> real \<times> bool" where
  "attribute_to_raw a = (ra_wfm_url a, ra_value a, ra_positive a)"

definition attributes_to_raw :: "riven_attribute list \<Rightarrow> (string \<times> real \<times> bool) list" where
  "attributes_to_raw as = map attribute_to_raw as"

definition total_buff_curse_count :: "riven_attribute list \<Rightarrow> nat \<times> nat" where
  "total_buff_curse_count as =
     foldl (\<lambda>(buffs, curses) a. if ra_positive a then (buffs + 1, curses) else (buffs, curses + 1)) (0, 0) as"

record min_max =
  mm_min :: int
  mm_max :: "int option"

record match_attribute =
  ma_url_name :: string
  ma_positive :: bool
  ma_is_required :: bool

record match_riven =
  mr_enabled :: "bool option"
  mr_mastery_rank :: "min_max option"
  mr_re_rolls :: "min_max option"
  mr_polarity :: "string option"
  mr_similarity :: "real option"
  mr_required_negative :: "bool option"
  mr_attributes :: "match_attribute list option"

definition match_riven_new :: match_riven where
  "match_riven_new = \<lparr>mr_enabled = Some False, mr_mastery_rank = None, mr_re_rolls = None, mr_polarity = None, mr_similarity = None,
     mr_required_negative = None, mr_attributes = None\<rparr>"

record auction_search =
  as_positive :: "string list option"
  as_negative :: "string option"
  as_min_rerolls :: "int option"
  as_max_rerolls :: "int option"
  as_min_mastery :: "int option"
  as_max_mastery :: "int option"
  as_polarity :: "string option"

definition min_given :: "min_max option \<Rightarrow> int option" where
  "min_given m = (case m of Some r \<Rightarrow> if mm_min r \<noteq> 0 then Some (mm_min r) else None | None \<Rightarrow> None)"

definition max_given :: "min_max option \<Rightarrow> int option" where
  "max_given m = (case m of Some r \<Rightarrow> mm_max r | None \<Rightarrow> None)"

definition get_auction_search_query :: "match_riven \<Rightarrow> auction_search" where
  "get_auction_search_query m =
     (if mr_enabled m = Some False then
        \<lparr>as_positive = None, as_negative = None, as_min_rerolls = None, as_max_rerolls = None, as_min_mastery = None,
         as_max_mastery = None, as_polarity = None\<rparr>
      else
        (let attributes = (case mr_attributes m of Some l \<Rightarrow> l | None \<Rightarrow> []);
             positive = map ma_url_name (filter (\<lambda>a. ma_positive a \<and> ma_is_required a) attributes);
             negative = map ma_url_name (filter (\<lambda>a. \<not> ma_positive a \<and> ma_is_required a) attributes)
                        @ (if mr_required_negative m = Some True then [''has''] else [])
         in \<lparr>as_positive = Some positive, as_negative = (case negative of n # _ \<Rightarrow> Some n | [] \<Rightarrow> None),
             as_min_rerolls = min_given (mr_re_rolls m), as_max_rerolls = max_given (mr_re_rolls m),
             as_min_mastery = min_given (mr_mastery_rank m), as_max_mastery = max_given (mr_mastery_rank m),
             as_polarity = map_option (\<lambda>p. if p = [] then ''any'' else p) (mr_polarity m)\<rparr>))"

section \<open>Rows\<close>

record stock_riven =
  rv_id :: int
  rv_weapon_id :: string
  rv_weapon_url :: string
  rv_weapon_name :: string
  rv_weapon_type :: string
  rv_unique_name :: string
  rv_sub_type :: "sub_type option"
  rv_mod_name :: string
  rv_attributes :: "riven_attribute list"
  rv_mastery_rank :: int
  rv_re_rolls :: int
  rv_polarity :: string
  rv_bought :: int
  rv_list_price :: "int option"
  rv_filter :: match_riven
  rv_is_hidden :: bool
  rv_comment :: string
  rv_status :: stock_status
  rv_uuid :: string
  rv_price_history :: "price_history list"
  rv_updated_at :: utc
  rv_created_at :: utc
  rv_is_dirty :: bool
  rv_locked :: bool
  rv_changes :: "string option"
  rv_properties :: properties

record texts =
  xt_lower :: "string \<Rightarrow> string"
  xt_real :: "real \<Rightarrow> string"
  xt_uuid :: "string \<Rightarrow> string"

definition generate_uuid_from_list :: "texts \<Rightarrow> string list \<Rightarrow> string \<times> string" where
  "generate_uuid_from_list x l = (let key = str_join '';'' l in (xt_uuid x key, key))"

definition bool_str :: "bool \<Rightarrow> string" where
  "bool_str b = (if b then ''true'' else ''false'')"

definition attribute_key :: "texts \<Rightarrow> riven_attribute \<Rightarrow> string" where
  "attribute_key x a = ''attr:'' @ ra_wfm_url a @ '':'' @ bool_str (ra_positive a) @ '':'' @ xt_real x (ra_value a) @ '';''"

definition riven_uuid :: "texts \<Rightarrow> stock_riven \<Rightarrow> string \<times> string" where
  "riven_uuid x m =
     generate_uuid_from_list x
       [''type:0;'' @ ''weapon:'' @ rv_weapon_url m @ '';'' @ ''mod_name:'' @ xt_lower x (rv_mod_name m) @ '';''
        @ ''re_rolls:'' @ show_int (rv_re_rolls m) @ '';'' @ ''mastery:'' @ show_int (rv_mastery_rank m) @ '';''
        @ (case rv_sub_type m of
             Some s \<Rightarrow> ''mod_rank:'' @ show_int (case sub_rank s of Some r \<Rightarrow> r | None \<Rightarrow> 0) @ '';'' | None \<Rightarrow> [])
        @ ''polarity:'' @ xt_lower x (rv_polarity m) @ '';''
        @ concat (map (attribute_key x) (sort_key ra_wfm_url (rv_attributes m)))]"

definition stock_riven_new ::
  "texts \<Rightarrow> string \<Rightarrow> string \<Rightarrow> string \<Rightarrow> string \<Rightarrow> string \<Rightarrow> int \<Rightarrow> string \<Rightarrow> riven_attribute list \<Rightarrow> int \<Rightarrow> int \<Rightarrow> string \<Rightarrow> int
    \<Rightarrow> bool \<Rightarrow> string \<Rightarrow> properties \<Rightarrow> stock_riven" where
  "stock_riven_new x weapon_id weapon_url weapon_name weapon_type unique_name rank mod_name attributes mastery re_rolls polarity
     bought hidden comment props =
     (let m = \<lparr>rv_id = 0, rv_weapon_id = weapon_id, rv_weapon_url = weapon_url, rv_weapon_name = weapon_name,
               rv_weapon_type = weapon_type, rv_unique_name = unique_name, rv_sub_type = Some (rank_sub rank), rv_mod_name = mod_name,
               rv_attributes = attributes, rv_mastery_rank = mastery, rv_re_rolls = re_rolls, rv_polarity = polarity,
               rv_bought = bought, rv_list_price = None, rv_filter = match_riven_new, rv_is_hidden = hidden, rv_comment = comment,
               rv_status = StPending, rv_uuid = [], rv_price_history = [], rv_updated_at = 0, rv_created_at = 0,
               rv_is_dirty = True, rv_locked = False, rv_changes = None, rv_properties = props\<rparr>
      in m\<lparr>rv_uuid := fst (riven_uuid x m)\<rparr>)"

definition json_attribute :: "riven_attribute \<Rightarrow> json" where
  "json_attribute a =
     JObj ([(''wfmUrl'', JStr (ra_wfm_url a)), (''positive'', JBool (ra_positive a)), (''value'', JReal (ra_value a)),
            (''formattedValue'', JStr (ra_formatted_value a))]
           @ (case ra_properties a of Some (JObj m) \<Rightarrow> m | _ \<Rightarrow> []))"

definition riven_to_transaction :: "stock_riven \<Rightarrow> string \<Rightarrow> int \<Rightarrow> transaction_type \<Rightarrow> transaction" where
  "riven_to_transaction m user p ty =
     \<lparr>tx_id = 0, tx_wfm_id = rv_weapon_id m, tx_wfm_url = rv_weapon_url m, tx_item_name = rv_weapon_name m, tx_item_type = RivenTx,
      tx_unique_name = rv_unique_name m, tx_sub_type = rv_sub_type m, tx_tags = str_join '','' [rv_weapon_type m], tx_type = ty,
      tx_quantity = 1, tx_user_name = user, tx_price = p, tx_profit = None, tx_credits = 0, tx_updated_at = 0, tx_created_at = 0,
      tx_properties = Some (JObj [(''mod_name'', JStr (rv_mod_name m)), (''mastery_rank'', JInt (rv_mastery_rank m)),
        (''re_rolls'', JInt (rv_re_rolls m)), (''polarity'', JStr (rv_polarity m)),
        (''attributes'', JArr (map json_attribute (rv_attributes m)))])\<rparr>"

definition rv_set_list_price :: "int option \<Rightarrow> stock_riven \<Rightarrow> stock_riven" where
  "rv_set_list_price p m =
     (if rv_locked m then m
      else if rv_list_price m \<noteq> p then m\<lparr>rv_list_price := p, rv_is_dirty := True, rv_changes := Some ''list_price''\<rparr> else m)"

definition rv_set_status :: "stock_status \<Rightarrow> stock_riven \<Rightarrow> stock_riven" where
  "rv_set_status st m =
     (if rv_locked m then m
      else if rv_status m \<noteq> st then m\<lparr>rv_status := st, rv_is_dirty := True, rv_changes := Some ''status''\<rparr> else m)"

definition rv_add_price_history :: "price_history \<Rightarrow> stock_riven \<Rightarrow> stock_riven" where
  "rv_add_price_history h m = m\<lparr>rv_price_history := add_price_history (rv_price_history m) h\<rparr>"

record update_riven =
  ur_id :: int
  ur_bought :: "int field_change"
  ur_list_price :: "int field_change"
  ur_re_rolls :: "int field_change"
  ur_mastery_rank :: "int field_change"
  ur_status :: "stock_status field_change"
  ur_is_hidden :: "bool field_change"
  ur_filter :: "match_riven field_change"
  ur_price_history :: "price_history list field_change"
  ur_grade :: "riven_grade field_change"
  ur_properties :: "properties field_change"

definition update_riven_new :: "int \<Rightarrow> update_riven" where
  "update_riven_new i = \<lparr>ur_id = i, ur_bought = FcIgnore, ur_list_price = FcIgnore, ur_re_rolls = FcIgnore, ur_mastery_rank = FcIgnore,
     ur_status = FcIgnore, ur_is_hidden = FcIgnore, ur_filter = FcIgnore, ur_price_history = FcIgnore, ur_grade = FcIgnore,
     ur_properties = FcIgnore\<rparr>"

definition riven_allowed :: "string list" where
  "riven_allowed = [''min_price'']"

definition apply_riven_update :: "update_riven \<Rightarrow> stock_riven \<Rightarrow> stock_riven" where
  "apply_riven_update u m =
     (let m1 = fc_set (ur_bought u) (\<lambda>v m. m\<lparr>rv_bought := v\<rparr>) m;
          m2 = fc_set_opt (ur_list_price u) (\<lambda>v m. m\<lparr>rv_list_price := v\<rparr>) m1;
          m3 = fc_set (ur_is_hidden u) (\<lambda>v m. m\<lparr>rv_is_hidden := v\<rparr>) m2;
          m4 = fc_set (ur_status u) (\<lambda>v m. m\<lparr>rv_status := v\<rparr>) m3;
          m5 = fc_set (ur_filter u) (\<lambda>v m. m\<lparr>rv_filter := v\<rparr>) m4;
          m6 = fc_set (ur_mastery_rank u) (\<lambda>v m. m\<lparr>rv_mastery_rank := v\<rparr>) m5;
          m7 = fc_set (ur_re_rolls u) (\<lambda>v m. m\<lparr>rv_re_rolls := v\<rparr>) m6;
          m8 = fc_set (ur_price_history u) (\<lambda>v m. m\<lparr>rv_price_history := v\<rparr>) m7
      in fc_set (ur_properties u) (\<lambda>v m. m\<lparr>rv_properties := merge_user_properties riven_allowed (rv_properties m) v\<rparr>) m8)"

definition riven_to_update :: "stock_riven \<Rightarrow> update_riven" where
  "riven_to_update m =
     \<lparr>ur_id = rv_id m, ur_bought = FcValue (rv_bought m),
      ur_list_price = (case rv_list_price m of Some v \<Rightarrow> FcValue v | None \<Rightarrow> FcNull), ur_re_rolls = FcValue (rv_re_rolls m),
      ur_mastery_rank = FcValue (rv_mastery_rank m), ur_status = FcValue (rv_status m), ur_is_hidden = FcValue (rv_is_hidden m),
      ur_filter = FcValue (rv_filter m), ur_price_history = FcValue (rv_price_history m), ur_grade = FcIgnore,
      ur_properties = FcValue (rv_properties m)\<rparr>"

record create_riven =
  cr_raw :: string
  cr_bought :: "int option"
  cr_mastery_rank :: int
  cr_re_rolls :: int
  cr_polarity :: string
  cr_attributes :: "riven_attribute list"
  cr_rank :: int
  cr_mod_name :: string
  cr_wfm_id :: string
  cr_wfm_url :: string
  cr_credits :: int
  cr_weapon_name :: string
  cr_weapon_unique_name :: string
  cr_weapon_type :: string
  cr_properties :: properties
  cr_is_validated :: bool

definition create_riven_new :: "string \<Rightarrow> string \<Rightarrow> int \<Rightarrow> int \<Rightarrow> string \<Rightarrow> riven_attribute list \<Rightarrow> int \<Rightarrow> create_riven" where
  "create_riven_new raw mod_name mastery re_rolls polarity attributes rank =
     \<lparr>cr_raw = raw, cr_bought = None, cr_mastery_rank = mastery, cr_re_rolls = re_rolls, cr_polarity = polarity,
      cr_attributes = attributes, cr_rank = rank, cr_mod_name = mod_name, cr_wfm_id = [], cr_wfm_url = [], cr_credits = 0,
      cr_weapon_name = [], cr_weapon_unique_name = [], cr_weapon_type = [], cr_properties = None, cr_is_validated = False\<rparr>"

definition riven_to_model :: "texts \<Rightarrow> create_riven \<Rightarrow> stock_riven" where
  "riven_to_model x c =
     stock_riven_new x (cr_wfm_id c) (cr_wfm_url c) (cr_weapon_name c) (cr_weapon_type c) (cr_weapon_unique_name c) (cr_rank c)
       (cr_mod_name c) (cr_attributes c) (cr_mastery_rank c) (cr_re_rolls c) (cr_polarity c)
       (case cr_bought c of Some p \<Rightarrow> p | None \<Rightarrow> 0) False [] (cr_properties c)"

section \<open>Statements\<close>

record riven_db =
  rd_rows :: "stock_riven list"
  rd_next :: int

definition riven_create :: "texts \<Rightarrow> utc \<Rightarrow> riven_db \<Rightarrow> stock_riven \<Rightarrow> (string \<times> stock_riven) \<times> riven_db" where
  "riven_create x now db m =
     (let row = m\<lparr>rv_id := rd_next db, rv_uuid := fst (riven_uuid x m), rv_created_at := now, rv_updated_at := now,
                  rv_is_dirty := False, rv_locked := False, rv_changes := None\<rparr>
      in ((''Create'', row), \<lparr>rd_rows = rd_rows db @ [row], rd_next = rd_next db + 1\<rparr>))"

definition riven_find_id :: "riven_db \<Rightarrow> int \<Rightarrow> stock_riven option" where
  "riven_find_id db i = row_lookup rv_id (rd_rows db) i"

definition riven_find_uuid :: "riven_db \<Rightarrow> string \<Rightarrow> stock_riven option" where
  "riven_find_uuid db u = List.find (\<lambda>m. rv_uuid m = u) (rd_rows db)"

definition riven_find_by_ids :: "riven_db \<Rightarrow> int list \<Rightarrow> stock_riven list" where
  "riven_find_by_ids db ids = filter (\<lambda>m. rv_id m \<in> set ids) (rd_rows db)"

definition riven_find_by_uuids :: "riven_db \<Rightarrow> string list \<Rightarrow> stock_riven list" where
  "riven_find_by_uuids db us = filter (\<lambda>m. rv_uuid m \<in> set us) (rd_rows db)"

text \<open>The name of the mod is the pattern of a \<open>LIKE\<close>.\<close>

definition riven_find_name :: "sql \<Rightarrow> riven_db \<Rightarrow> string \<Rightarrow> string \<Rightarrow> sub_type \<Rightarrow> stock_riven option" where
  "riven_find_name s db weapon_url mod_name sub =
     List.find (\<lambda>m. rv_weapon_url m = weapon_url \<and> sq_like s mod_name (rv_mod_name m) \<and> rv_sub_type m = Some sub) (rd_rows db)"

definition riven_update_by_id :: "utc \<Rightarrow> riven_db \<Rightarrow> update_riven \<Rightarrow> (fault + stock_riven) \<times> riven_db" where
  "riven_update_by_id now db u =
     (case riven_find_id db (ur_id u) of
        None \<Rightarrow> (Inl (Failed (new_error ''StockRivenMutation:UpdateById'' ''Stock Riven not found'')), db)
      | Some m \<Rightarrow>
          (let m1 = (apply_riven_update u m)\<lparr>rv_updated_at := now\<rparr>
           in (Inr m1, db\<lparr>rd_rows := row_modify rv_id (ur_id u) (\<lambda>_. m1) (rd_rows db)\<rparr>)))"

definition riven_delete :: "riven_db \<Rightarrow> int \<Rightarrow> (fault + unit) \<times> riven_db" where
  "riven_delete db i =
     (case riven_find_id db i of
        None \<Rightarrow> (Inl (Failed (new_error ''StockRivenMutation:DeleteById'' ''Stock Riven not found'')), db)
      | Some m \<Rightarrow> (Inr (), db\<lparr>rd_rows := row_delete rv_id i (rd_rows db)\<rparr>))"

definition riven_delete_uuid :: "riven_db \<Rightarrow> string \<Rightarrow> (fault + unit) \<times> riven_db" where
  "riven_delete_uuid db u =
     (case riven_find_uuid db u of
        Some m \<Rightarrow> riven_delete db (rv_id m)
      | None \<Rightarrow> (Inl (Failed (new_error ''StockRivenMutation:DeleteByUUID'' ''Stock Riven not found for given UUID'')), db))"

definition riven_delete_all :: "riven_db \<Rightarrow> nat \<times> riven_db" where
  "riven_delete_all db = (length (rd_rows db), db\<lparr>rd_rows := []\<rparr>)"

definition riven_update_names :: "texts \<Rightarrow> (string \<Rightarrow> string option) \<Rightarrow> (string \<Rightarrow> string option) \<Rightarrow> utc \<Rightarrow> riven_db \<Rightarrow> riven_db" where
  "riven_update_names x mapper attribute_mapper now db =
     db\<lparr>rd_rows := map (\<lambda>m. case mapper (xt_lower x (rv_unique_name m)) of
         Some name \<Rightarrow> m\<lparr>rv_weapon_name := name, rv_updated_at := now,
                      rv_attributes := map (\<lambda>a. case attribute_mapper (ra_wfm_url a) of
                                          Some full \<Rightarrow> a\<lparr>ra_formatted_value := full\<rparr> | None \<Rightarrow> a) (rv_attributes m)\<rparr>
       | None \<Rightarrow> m) (rd_rows db)\<rparr>"

definition riven_get_query :: "sql \<Rightarrow> list_query \<Rightarrow> stock_riven list \<Rightarrow> stock_riven list" where
  "riven_get_query s q rows =
     order_by (lq_sort_by q) (lq_sort_direction q)
       [(''weapon_name'', \<lambda>d. order_rows d rv_weapon_name), (''bought'', \<lambda>d. order_rows d rv_bought),
        (''status'', \<lambda>d. order_rows d (\<lambda>m. status_str (rv_status m))), (''list_price'', \<lambda>d. order_rows d rv_list_price)]
    (where_value (lq_status q) (\<lambda>v m. status_str (rv_status m) = v)
    (where_value (lq_query q) (\<lambda>v m. like_contains s v (rv_weapon_name m) \<or> like_contains s v (rv_weapon_url m)
                                     \<or> like_contains s v (rv_mod_name m)) rows))"

definition riven_get_all :: "sql \<Rightarrow> stock_riven paginator \<Rightarrow> list_query \<Rightarrow> riven_db \<Rightarrow> stock_riven page option" where
  "riven_get_all s pgn q db =
     paginate_query pgn (riven_get_query s q (rd_rows db)) (pg_page (lq_pagination q)) (pg_limit (lq_pagination q))"

definition riven_get_all_ids :: "sql \<Rightarrow> stock_riven paginator \<Rightarrow> riven_db \<Rightarrow> int list option" where
  "riven_get_all_ids s pgn db = map_option (\<lambda>p. map rv_id (pr_results p)) (riven_get_all s pgn (list_query_new 1 (-1)) db)"

section \<open>Properties\<close>

lemma riven_grade_roundtrip: "riven_grade_from_string (riven_grade_str g) = g"
  by (cases g) (simp_all add: riven_grade_from_string_def)

lemma attribute_grade_roundtrip: "attribute_grade_from_string (attribute_grade_str g) = g"
  by (cases g) (simp_all add: attribute_grade_from_string_def)

lemma buff_curse_total: "fst (total_buff_curse_count as) + snd (total_buff_curse_count as) = length as"
proof -
  have "fst (foldl (\<lambda>(buffs, curses) a. if ra_positive a then (buffs + 1, curses) else (buffs, curses + 1)) c as)
      + snd (foldl (\<lambda>(buffs, curses) a. if ra_positive a then (buffs + 1, curses) else (buffs, curses + 1)) c as)
      = fst c + snd c + length as" for c
    by (induction as arbitrary: c) (auto split: prod.splits)
  then show ?thesis by (simp add: total_buff_curse_count_def)
qed

text \<open>
  The identity of a riven does not depend on the order its attributes are listed in: rows with the same attributes, each named
  once, and the same other fields have the same UUID.
\<close>

theorem riven_identity_ignores_attribute_order:
  assumes "mset (rv_attributes m) = mset as" and "distinct (map ra_wfm_url as)"
  shows "riven_uuid x (m\<lparr>rv_attributes := as\<rparr>) = riven_uuid x m"
proof -
  have "inj_on ra_wfm_url (set as)" using assms(2) by (simp add: distinct_map)
  moreover have "set (rv_attributes m) = set as" by (rule mset_eq_setD[OF assms(1)])
  ultimately have "sort_key ra_wfm_url (rv_attributes m) = sort_key ra_wfm_url as"
    by (intro sort_key_inj_key_eq) (simp_all add: assms(1) mset_sort)
  then show ?thesis by (simp add: riven_uuid_def)
qed

lemma fc_set_keeps:
  "(\<And>v m. p (f v m) = p m) \<Longrightarrow> p (fc_set c f m) = p m" "(\<And>v m. p (g v m) = p m) \<Longrightarrow> p (fc_set_opt d g m) = p m"
  by (cases c; simp) (cases d; simp)

lemmas riven_update_frame =
  fc_set_keeps[where p = rv_uuid] fc_set_keeps[where p = rv_attributes] fc_set_keeps[where p = rv_mod_name] fc_set_keeps[where p = rv_id]

text \<open>
  An update never touches the stored UUID, also when it changes a field the UUID is made of: from then on the row is not found
  under the identity its fields give.
\<close>

theorem riven_update_leaves_the_uuid:
  "rv_uuid (apply_riven_update u m) = rv_uuid m \<and> rv_attributes (apply_riven_update u m) = rv_attributes m
   \<and> rv_mod_name (apply_riven_update u m) = rv_mod_name m"
  by (simp add: apply_riven_update_def Let_def riven_update_frame)

text \<open>Of the required negative attributes a search names the first only; \<open>has\<close> is sent when there is none.\<close>

theorem search_names_one_negative:
  "as_negative (get_auction_search_query m) =
     (if mr_enabled m = Some False then None
      else case List.find (\<lambda>a. \<not> ma_positive a \<and> ma_is_required a) (case mr_attributes m of Some l \<Rightarrow> l | None \<Rightarrow> []) of
        Some a \<Rightarrow> Some (ma_url_name a)
      | None \<Rightarrow> if mr_required_negative m = Some True then Some ''has'' else None)"
proof -
  have first: "(case map f (filter P l) @ r of n # _ \<Rightarrow> Some n | [] \<Rightarrow> None)
      = (case List.find P l of Some a \<Rightarrow> Some (f a) | None \<Rightarrow> (case r of n # _ \<Rightarrow> Some n | [] \<Rightarrow> None))"
    for f :: "match_attribute \<Rightarrow> string" and P l and r :: "string list"
    by (induction l) auto
  show ?thesis by (simp add: get_auction_search_query_def Let_def first split: option.split)
qed

definition rivens_wf :: "riven_db \<Rightarrow> bool" where
  "rivens_wf db \<longleftrightarrow> distinct (map rv_id (rd_rows db)) \<and> (\<forall>i \<in> set (map rv_id (rd_rows db)). i < rd_next db)"

lemma riven_update_id: "rv_id ((apply_riven_update u m)\<lparr>rv_updated_at := now\<rparr>) = rv_id m"
  by (simp add: apply_riven_update_def Let_def riven_update_frame)

lemma riven_update_wf:
  assumes "rivens_wf db" and "riven_update_by_id now db u = (Inr m1, db1)"
  shows "rivens_wf db1"
proof -
  obtain m where m: "riven_find_id db (ur_id u) = Some m" and m1: "m1 = (apply_riven_update u m)\<lparr>rv_updated_at := now\<rparr>"
    and db1: "db1 = db\<lparr>rd_rows := row_modify rv_id (ur_id u) (\<lambda>_. m1) (rd_rows db)\<rparr>"
    using assms(2) by (auto simp: riven_update_by_id_def Let_def split: option.splits)
  have id: "rv_id m1 = rv_id m" "m \<in> set (rd_rows db)" "rv_id m = ur_id u"
    using row_lookup_Some[OF m[unfolded riven_find_id_def]] m1 riven_update_id by auto
  have "map rv_id (rd_rows db1) = map rv_id (rd_rows db)"
    using row_modify_const_keys[of rv_id "rd_rows db" m rv_id m1] assms(1) id by (simp add: db1 rivens_wf_def)
  then have same: "map rv_id (rd_rows db1) = map rv_id (rd_rows db)" "rd_next db1 = rd_next db" by (simp_all add: db1)
  show ?thesis using assms(1) unfolding rivens_wf_def same .
qed

interpretation riven_updates: row_statement "riven_update_by_id now" rivens_wf "\<lambda>_ _. True" for now
proof
  show "riven_update_by_id now db a = (Inl e, db1) \<Longrightarrow> db1 = db" for db a e db1
    by (auto simp: riven_update_by_id_def Let_def split: option.splits)
  show "rivens_wf db \<Longrightarrow> riven_update_by_id now db a = (Inr b, db1) \<Longrightarrow> rivens_wf db1" for db a b db1
    by (rule riven_update_wf)
qed

interpretation riven_deletes: row_statement riven_delete rivens_wf "\<lambda>_ _. True"
proof
  show "riven_delete db a = (Inl e, db1) \<Longrightarrow> db1 = db" for db a e db1
    by (auto simp: riven_delete_def split: option.splits)
  show "rivens_wf db \<Longrightarrow> riven_delete db a = (Inr b, db1) \<Longrightarrow> rivens_wf db1" for db a b db1
    by (auto simp: rivens_wf_def riven_delete_def row_delete_def distinct_map_filter split: option.splits)
qed

end
