(* ===== verification/Market_Pages.thy ===== *)
theory Market_Pages
  imports Dashboard Collector_Maintenance Backfill
begin

text \<open>
  What the market pages read and where it comes from: the hourly roll-up with its upkeep
  (\<open>collector/maintenance.rs\<close>), the overview, the warm-up forecast and the movers (\<open>collector/market.rs\<close>), and the history of
  one item (\<open>collector/history.rs\<close>). An hour is the stamp it begins at, a day its number; the rows of a statement without an order
  come in table order, those of a \<open>GROUP BY\<close> in the order the groups are met.
\<close>

section \<open>The hourly roll-up\<close>

record hourly_row =
  hr_item_id :: string
  hr_sub_type :: string
  hr_hour :: stamp
  hr_min_sell_min :: "int option"
  hr_min_sell_avg :: "real option"
  hr_min_sell_max :: "int option"
  hr_max_buy_min :: "int option"
  hr_max_buy_avg :: "real option"
  hr_max_buy_max :: "int option"
  hr_sell_count_avg :: real
  hr_buy_count_avg :: real
  hr_samples :: nat

definition hour_start :: "stamp \<Rightarrow> stamp" where
  "hour_start t = t div 3600 * 3600"

definition hourly_key :: "hourly_row \<Rightarrow> string \<times> string \<times> stamp" where
  "hourly_key r = (hr_item_id r, hr_sub_type r, hr_hour r)"

definition summary_key :: "summary_row \<Rightarrow> string \<times> string \<times> stamp" where
  "summary_key r = (sm_item_id r, ss_sub_type (sm_summary r), hour_start (sm_swept_at r))"

text \<open>\<open>MIN\<close>, \<open>AVG\<close> and \<open>MAX\<close> pass over missing prices.\<close>

definition hourly_of :: "(string \<times> string \<times> stamp) \<times> summary_row list \<Rightarrow> hourly_row" where
  "hourly_of = (\<lambda>((item, sub, hour), rows).
     let sells = List.map_filter (\<lambda>r. ss_min_sell (sm_summary r)) rows;
         buys = List.map_filter (\<lambda>r. ss_max_buy (sm_summary r)) rows;
         avg = (\<lambda>f. sum_list (map (\<lambda>r. real (f (sm_summary r))) rows) / real (length rows))
     in \<lparr>hr_item_id = item, hr_sub_type = sub, hr_hour = hour,
         hr_min_sell_min = min_of sells, hr_min_sell_avg = mean (map real_of_int sells), hr_min_sell_max = max_of sells,
         hr_max_buy_min = min_of buys, hr_max_buy_avg = mean (map real_of_int buys), hr_max_buy_max = max_of buys,
         hr_sell_count_avg = avg ss_sell_count, hr_buy_count_avg = avg ss_buy_count, hr_samples = length rows\<rparr>)"

definition hourly_window :: "utc \<Rightarrow> summary_row \<Rightarrow> bool" where
  "hourly_window now r \<longleftrightarrow>
     (let upto = now div hours 1 * hours 1 in ts (upto - hours 48) \<le> sm_swept_at r \<and> sm_swept_at r < ts upto)"

definition rollup_hourly :: "collector_db \<Rightarrow> hourly_row list \<Rightarrow> utc \<Rightarrow> nat \<times> hourly_row list" where
  "rollup_hourly db tbl now =
     (let new_rows = map hourly_of (group_by summary_key (filter (hourly_window now) (db_summaries db)))
      in (length new_rows, foldl (\<lambda>t r. row_replace hourly_key r t) tbl new_rows))"

record hourly_report =
  hp_hourly_rows :: nat
  hp_daily_rows :: nat
  hp_deleted_summaries :: nat
  hp_deleted_vanished :: nat

record upkeep_db =
  up_collector :: collector_db
  up_hourly :: "hourly_row list"
  up_daily :: "daily_row list"
  up_closed :: closed_db

definition hourly_upkeep :: "upkeep_db \<Rightarrow> utc \<Rightarrow> hourly_report \<times> upkeep_db" where
  "hourly_upkeep d now =
     (let (n1, h) = rollup_hourly (up_collector d) (up_hourly d) now;
          (n2, dl) = rollup_daily (up_collector d) (up_daily d) now;
          ((n3, n4), c) = collector_retention (up_collector d) now;
          (_, cl) = closed_retention (up_closed d) now
      in (\<lparr>hp_hourly_rows = n1, hp_daily_rows = n2, hp_deleted_summaries = n3, hp_deleted_vanished = n4\<rparr>,
          \<lparr>up_collector = c, up_hourly = h, up_daily = dl, up_closed = cl\<rparr>))"

section \<open>Overview and warm-up\<close>

record overview_row =
  ov_stats :: item_stats
  ov_name :: string
  ov_slug :: string

definition overview :: "item_stats list \<Rightarrow> (string \<Rightarrow> (string \<times> string) option) \<Rightarrow> overview_row list" where
  "overview stats name_of =
     List.map_filter (\<lambda>s. map_option (\<lambda>(name, slug). \<lparr>ov_stats = s, ov_name = name, ov_slug = slug\<rparr>) (name_of (is_item_id s))) stats"

record warmup =
  wu_tracked :: nat
  wu_warm :: nat
  wu_projected :: "(int \<times> nat) list"
  wu_history_days :: "(string \<times> nat) list"
  wu_trades :: "(string \<times> nat) list"

definition warm_days :: int where "warm_days = 7"
definition warm_trades :: int where "warm_trades = 10"

definition trades7 :: "item_stats \<Rightarrow> int" where
  "trades7 s = round_half_away (is_volume s * 7)"

definition tally :: "('a \<Rightarrow> bool) \<Rightarrow> 'a list \<Rightarrow> nat" where
  "tally P xs = length (filter P xs)"

definition warm_on :: "int \<Rightarrow> item_stats \<Rightarrow> bool" where
  "warm_on d s \<longleftrightarrow> warm_days \<le> is_history_days s + d \<and> warm_trades \<le> trades7 s"

definition day_bucket :: "int \<Rightarrow> item_stats \<Rightarrow> bool" where
  "day_bucket d s \<longleftrightarrow> (if d = 7 then 7 \<le> is_history_days s else is_history_days s = d)"

definition trade_buckets :: "(string \<times> int \<times> int option) list" where
  "trade_buckets = [(''0'', 0, Some 0), (''1-4'', 1, Some 4), (''5-9'', 5, Some 9), (''10+'', 10, None)]"

definition in_bucket :: "int \<Rightarrow> int option \<Rightarrow> int \<Rightarrow> bool" where
  "in_bucket lo hi n \<longleftrightarrow> lo \<le> n \<and> (case hi of Some h \<Rightarrow> n \<le> h | None \<Rightarrow> True)"

definition warmup_of :: "item_stats list \<Rightarrow> int \<Rightarrow> warmup" where
  "warmup_of stats today =
     \<lparr>wu_tracked = length stats, wu_warm = tally is_warm stats,
      wu_projected = map (\<lambda>d. (today + d, tally (warm_on d) stats)) [1..7],
      wu_history_days = map (\<lambda>d. (if d = 7 then ''7+'' else show_int d, tally (day_bucket d) stats)) [0..7],
      wu_trades = map (\<lambda>(b, lo, hi). (b, tally (\<lambda>s. in_bucket lo hi (trades7 s)) stats)) trade_buckets\<rparr>"

section \<open>Movers\<close>

record mover =
  mo_item_id :: string
  mo_name :: string
  mo_slug :: string
  mo_sub_type :: string
  mo_median_now :: real
  mo_median_then :: real
  mo_change_pct :: real
  mo_volume :: real

record mover_list =
  ml_up :: "mover list"
  ml_down :: "mover list"

definition movers_per_side :: nat where "movers_per_side = 25"

definition has_median :: "string \<Rightarrow> string \<Rightarrow> daily_row \<Rightarrow> bool" where
  "has_median item sub r \<longleftrightarrow> dr_item_id r = item \<and> dr_sub_type r = sub \<and> ds_median (dr_stat r) \<noteq> None"

definition is_latest :: "daily_row list \<Rightarrow> daily_row \<Rightarrow> bool" where
  "is_latest daily r \<longleftrightarrow> has_median (dr_item_id r) (dr_sub_type r) r
     \<and> list_all (\<lambda>q. has_median (dr_item_id r) (dr_sub_type r) q \<longrightarrow> ds_day (dr_stat q) \<le> ds_day (dr_stat r)) daily"

text \<open>The median of the last day with one, at or before the given day.\<close>

definition median_before :: "daily_row list \<Rightarrow> string \<Rightarrow> string \<Rightarrow> int \<Rightarrow> real option" where
  "median_before daily item sub day =
     (case rev (sort_key (\<lambda>r. ds_day (dr_stat r)) (filter (\<lambda>r. has_median item sub r \<and> ds_day (dr_stat r) \<le> day) daily)) of
        r # _ \<Rightarrow> ds_median (dr_stat r) | [] \<Rightarrow> None)"

definition mover_of ::
  "daily_row list \<Rightarrow> (string \<Rightarrow> (string \<times> string) option) \<Rightarrow> int \<Rightarrow> daily_row \<times> item_stats \<Rightarrow> mover option" where
  "mover_of daily name_of days_back = (\<lambda>(r, s).
     case (median_before daily (dr_item_id r) (dr_sub_type r) (ds_day (dr_stat r) - days_back), ds_median (dr_stat r)) of
       (Some before, Some now) \<Rightarrow>
         if 0 < before then
           (case name_of (dr_item_id r) of
              Some (name, slug) \<Rightarrow> Some \<lparr>mo_item_id = dr_item_id r, mo_name = name, mo_slug = slug, mo_sub_type = dr_sub_type r,
                  mo_median_now = now, mo_median_then = before, mo_change_pct = (now - before) / before * 100, mo_volume = is_volume s\<rparr>
            | None \<Rightarrow> None)
         else None
     | _ \<Rightarrow> None)"

definition mover_rows :: "daily_row list \<Rightarrow> item_stats list \<Rightarrow> real \<Rightarrow> (daily_row \<times> item_stats) list" where
  "mover_rows daily stats min_volume =
     concat (map (\<lambda>r. map (\<lambda>s. (r, s)) (filter (\<lambda>s. is_item_id s = dr_item_id r \<and> is_sub_type s = dr_sub_type r
                                                   \<and> min_volume \<le> is_volume s) stats)) (filter (is_latest daily) daily))"

definition ranked_movers ::
  "daily_row list \<Rightarrow> item_stats list \<Rightarrow> int \<Rightarrow> real \<Rightarrow> (string \<Rightarrow> (string \<times> string) option) \<Rightarrow> mover list" where
  "ranked_movers daily stats days_back min_volume name_of =
     sort_key (\<lambda>m. - mo_change_pct m) (List.map_filter (mover_of daily name_of days_back) (mover_rows daily stats min_volume))"

definition movers_for ::
  "daily_row list \<Rightarrow> item_stats list \<Rightarrow> int \<Rightarrow> real \<Rightarrow> (string \<Rightarrow> (string \<times> string) option) \<Rightarrow> mover_list" where
  "movers_for daily stats days_back min_volume name_of =
     (let ranked = ranked_movers daily stats days_back min_volume name_of
      in \<lparr>ml_up = take movers_per_side (filter (\<lambda>m. 0 < mo_change_pct m) ranked),
          ml_down = take movers_per_side (filter (\<lambda>m. mo_change_pct m < 0) (rev ranked))\<rparr>)"

definition movers ::
  "daily_row list \<Rightarrow> item_stats list \<Rightarrow> real \<Rightarrow> (string \<Rightarrow> (string \<times> string) option) \<Rightarrow> mover_list \<times> mover_list" where
  "movers daily stats min_volume name_of = (movers_for daily stats 1 min_volume name_of, movers_for daily stats 7 min_volume name_of)"

section \<open>The history of an item\<close>

record trade_point =
  tp_vanished_at :: stamp
  tp_side :: string
  tp_platinum :: int
  tp_quantity :: int

record book_snapshot =
  bs_swept_at :: stamp
  bs_top_sells :: "(int \<times> int) list"
  bs_top_buys :: "(int \<times> int) list"

record item_history =
  ih_item_id :: string
  ih_sub_types :: "string list"
  ih_sub_type :: string
  ih_stats :: "item_stats option"
  ih_hourly :: "hourly_row list"
  ih_daily :: "daily_stat list"
  ih_trades :: "trade_point list"
  ih_book :: "book_snapshot option"
  ih_last_swept_at :: "stamp option"

definition known_sub_types :: "upkeep_db \<Rightarrow> string \<Rightarrow> string list" where
  "known_sub_types d item =
     sort (remdups (map is_sub_type (filter (\<lambda>s. is_item_id s = item) (db_item_stats (up_collector d)))
                    @ map hr_sub_type (filter (\<lambda>h. hr_item_id h = item) (up_hourly d))))"

definition choose_sub_type :: "string list \<Rightarrow> string option \<Rightarrow> string" where
  "choose_sub_type known wanted =
     (case (case wanted of Some s \<Rightarrow> if s \<in> set known then Some s else None | None \<Rightarrow> None) of
        Some s \<Rightarrow> s
      | None \<Rightarrow> (case known of s # _ \<Rightarrow> s | [] \<Rightarrow> []))"

definition trade_point_of :: "vanish_row \<Rightarrow> trade_point" where
  "trade_point_of v = \<lparr>tp_vanished_at = vr_vanished_at v, tp_side = so_side (vr_order v),
     tp_platinum = so_platinum (vr_order v), tp_quantity = vr_quantity v\<rparr>"

definition recent_trades :: "collector_db \<Rightarrow> string \<Rightarrow> string \<Rightarrow> vanish_row list" where
  "recent_trades db item sub =
     take 50 (rev (sort_key vr_vanished_at (sort_key vr_id
       (filter (\<lambda>v. vr_item_id v = item \<and> so_sub_type (vr_order v) = sub \<and> vr_status v = ''trade'') (db_vanished db)))))"

definition latest_book :: "collector_db \<Rightarrow> string \<Rightarrow> string \<Rightarrow> book_snapshot option" where
  "latest_book db item sub =
     (case rev (sort_key sm_swept_at (filter (\<lambda>r. sm_item_id r = item \<and> ss_sub_type (sm_summary r) = sub) (db_summaries db))) of
        r # _ \<Rightarrow> Some \<lparr>bs_swept_at = sm_swept_at r, bs_top_sells = ss_top_sells (sm_summary r), bs_top_buys = ss_top_buys (sm_summary r)\<rparr>
      | [] \<Rightarrow> None)"

definition load_history :: "upkeep_db \<Rightarrow> string \<Rightarrow> string option \<Rightarrow> int \<Rightarrow> utc \<Rightarrow> item_history" where
  "load_history d item wanted n now =
     (let db = up_collector d; known = known_sub_types d item; sub = choose_sub_type known wanted; since = now - days n
      in \<lparr>ih_item_id = item, ih_sub_types = known, ih_sub_type = sub,
          ih_stats = row_lookup stats_key (db_item_stats db) (item, sub),
          ih_hourly = sort_key hr_hour (filter (\<lambda>h. hr_item_id h = item \<and> hr_sub_type h = sub \<and> ts since \<le> hr_hour h) (up_hourly d)),
          ih_daily = sort_key ds_day (map dr_stat
            (filter (\<lambda>r. dr_item_id r = item \<and> dr_sub_type r = sub \<and> day_of since \<le> ds_day (dr_stat r)) (up_daily d))),
          ih_trades = map trade_point_of (recent_trades db item sub), ih_book = latest_book db item sub,
          ih_last_swept_at = Option.bind (row_lookup sr_item_id (db_sweep_state db) item) sr_last_swept_at\<rparr>)"

section \<open>Lemmas\<close>

lemma map_of_find: "map_of m k = map_option snd (List.find (\<lambda>p. fst p = k) m)"
  by (induction m) auto

lemma take_keeps_first:
  assumes "sorted_wrt R xs" and "x \<in> set xs" and "x \<notin> set (take n xs)"
  shows "length (take n xs) = n \<and> (\<forall>u \<in> set (take n xs). R u x)"
proof -
  have split: "take n xs @ drop n xs = xs" by simp
  have x: "x \<in> set (drop n xs)" using assms(2,3) set_append[of "take n xs" "drop n xs"] unfolding split by blast
  moreover have "sorted_wrt R (take n xs @ drop n xs)" using assms(1) by simp
  ultimately have "\<forall>u \<in> set (take n xs). R u x" unfolding sorted_wrt_append by blast
  moreover have "length (take n xs) = n" using x by (cases "n \<le> length xs") simp_all
  ultimately show ?thesis by blast
qed

lemma sorted_wrt_sort_key: "sorted_wrt (\<lambda>a b. f a \<le> f b) (sort_key f xs)"
  using sorted_sort_key[of f xs] by (simp add: sorted_map)

lemma sorted_wrt_rev_sort_key: "sorted_wrt (\<lambda>a b. f b \<le> f a) (rev (sort_key f xs))"
  using sorted_wrt_sort_key[of f xs] by (simp add: sorted_wrt_rev)

section \<open>What the roll-up stores\<close>

interpretation hourly_rows: keyed_store hourly_key "row_lookup hourly_key" "row_replace hourly_key" "row_delete hourly_key"
  by unfold_locales (simp_all add: row_lookup_replace row_lookup_delete)

lemma hourly_of_key: "hourly_key (hourly_of g) = fst g"
  by (cases g) (simp add: hourly_of_def hourly_key_def Let_def split: prod.splits)

text \<open>
  After a roll-up, the row of an item, sub-type and hour is made of all sweeps of that hour within the last 48 whole hours; where
  there is none, an older row stays as it is.
\<close>

theorem hourly_rollup_stores:
  "row_lookup hourly_key (snd (rollup_hourly db tbl now)) k =
     (let rows = filter (\<lambda>r. summary_key r = k) (filter (hourly_window now) (db_summaries db))
      in if rows = [] then row_lookup hourly_key tbl k else Some (hourly_of (k, rows)))"
proof -
  define g where "g = group_by summary_key (filter (hourly_window now) (db_summaries db))"
  have keys: "map hourly_key (map hourly_of g) = map fst g" by (simp add: comp_def hourly_of_key)
  have d: "distinct (map hourly_key (map hourly_of g))" unfolding keys unfolding g_def by (rule group_by_distinct)
  have "List.find (\<lambda>r. hourly_key r = k) (map hourly_of g) = map_option hourly_of (List.find (\<lambda>p. fst p = k) g)"
    by (simp add: find_map hourly_of_key)
  also have "\<dots> = map_option (\<lambda>rows. hourly_of (k, rows)) (map_of g k)"
    using find_SomeD[of "\<lambda>p. fst p = k" g] by (auto simp: map_of_find option.map_comp intro!: option.map_cong)
  finally show ?thesis
    using hourly_rows.look_put_all[OF d, of tbl k]
    by (simp add: rollup_hourly_def Let_def g_def hourly_rows.put_all_def group_by_lookup flip: filter_filter)
qed

text \<open>The deletions of the same pass never take a sweep an hour is made of: rolling up after them gives the same rows.\<close>

theorem retention_keeps_the_hours:
  "rollup_hourly (snd (collector_retention db now)) tbl now = rollup_hourly db tbl now"
proof -
  have "hourly_window now r \<Longrightarrow> \<not> sm_swept_at r < ts (now - days raw_summary_retention_days)" for r
  proof -
    assume w: "hourly_window now r"
    have "now - days raw_summary_retention_days \<le> now div hours 1 * hours 1 - hours 48"
      using div_mult_mod_eq[of now "hours 1"] pos_mod_bound[of "hours 1" now]
      unfolding raw_summary_retention_days_def days_def hours_def secs_def by linarith
    from ts_mono[OF this] w show ?thesis by (simp add: hourly_window_def Let_def)
  qed
  then have "filter (hourly_window now) (filter (\<lambda>r. \<not> sm_swept_at r < ts (now - days raw_summary_retention_days)) xs)
      = filter (hourly_window now) xs" for xs
    by (auto simp: filter_filter intro!: filter_cong)
  then show ?thesis by (simp add: rollup_hourly_def collector_retention_def Let_def)
qed

text \<open>A second roll-up at the same time changes no row.\<close>

theorem hourly_rollup_is_idempotent:
  "row_lookup hourly_key (snd (rollup_hourly db (snd (rollup_hourly db tbl now)) now)) k
     = row_lookup hourly_key (snd (rollup_hourly db tbl now)) k"
  by (simp add: hourly_rollup_stores Let_def)

section \<open>Warm-up\<close>

lemma tally_mono: "(\<And>x. P x \<Longrightarrow> Q x) \<Longrightarrow> tally P xs \<le> tally Q xs"
  unfolding tally_def length_filter_conv_card by (rule card_mono) auto

lemma tally_once:
  assumes "distinct bs" and "\<And>x. x \<in> set xs \<Longrightarrow> \<exists>b \<in> set bs. P b x \<and> (\<forall>c \<in> set bs. P c x \<longrightarrow> c = b)"
  shows "(\<Sum>b\<leftarrow>bs. tally (P b) xs) = length xs"
  using assms(2)
proof (induction xs)
  case (Cons x xs)
  obtain b where b: "b \<in> set bs" "P b x" "\<And>c. c \<in> set bs \<Longrightarrow> P c x \<Longrightarrow> c = b" using Cons.prems[of x] by auto
  have one: "tally (P c) (x # xs) = (if c = b then 1 else 0) + tally (P c) xs" if "c \<in> set bs" for c
    using b(2) b(3)[OF that] by (cases "P c x") (auto simp: tally_def)
  have "(\<Sum>c\<leftarrow>bs. tally (P c) (x # xs)) = (\<Sum>c\<leftarrow>bs. (if c = b then 1 else 0) + tally (P c) xs)"
    by (intro arg_cong[where f = sum_list] map_cong refl one)
  also have "\<dots> = (\<Sum>c\<leftarrow>bs. if c = b then 1 else 0) + (\<Sum>c\<leftarrow>bs. tally (P c) xs)" by (rule sum_list_addf)
  also have "(\<Sum>c\<leftarrow>bs. if c = b then 1 else 0) = (1::nat)"
    using assms(1) b(1) by (simp add: sum_list_distinct_conv_sum_set)
  finally show ?case using Cons by simp
qed (simp add: tally_def)

text \<open>The forecast never falls, and counts no more variants than are tracked.\<close>

theorem warmup_forecast_grows:
  "sorted (map snd (wu_projected (warmup_of stats today))) \<and> (\<forall>n \<in> set (map snd (wu_projected (warmup_of stats today))). n \<le> length stats)"
proof -
  have mono: "a \<le> b \<Longrightarrow> tally (warm_on a) stats \<le> tally (warm_on b) stats" for a b
    by (rule tally_mono) (simp add: warm_on_def)
  have "sorted_wrt (\<lambda>a b. tally (warm_on a) stats \<le> tally (warm_on b) stats) [1..7]"
    by (rule sorted_wrt_mono_rel[where P = "(\<le>)"]) (use mono sorted_upto in auto)
  then show ?thesis by (auto simp: warmup_of_def sorted_map tally_def)
qed

lemma round_half_away_nonneg: "0 \<le> x \<Longrightarrow> 0 \<le> round_half_away x"
  by (simp add: round_half_away_def)

text \<open>Both histograms count every tracked variant exactly once.\<close>

theorem histograms_count_each_once:
  assumes "\<forall>s \<in> set stats. 0 \<le> is_history_days s \<and> 0 \<le> is_volume s"
  shows "sum_list (map snd (wu_history_days (warmup_of stats today))) = length stats
       \<and> sum_list (map snd (wu_trades (warmup_of stats today))) = length stats"
proof
  have "(\<Sum>d\<leftarrow>[0..7]. tally (day_bucket d) stats) = length stats"
  proof (rule tally_once)
    fix s assume s: "s \<in> set stats"
    show "\<exists>d \<in> set [0..7]. day_bucket d s \<and> (\<forall>c \<in> set [0..7]. day_bucket c s \<longrightarrow> c = d)"
      by (rule bexI[of _ "min 7 (is_history_days s)"]) (use assms s in \<open>auto simp: day_bucket_def split: if_splits\<close>)
  qed simp
  then show "sum_list (map snd (wu_history_days (warmup_of stats today))) = length stats"
    by (simp add: warmup_of_def comp_def)
  have "(\<Sum>b\<leftarrow>trade_buckets. tally (\<lambda>s. (\<lambda>(_, lo, hi). in_bucket lo hi (trades7 s)) b) stats) = length stats"
  proof (rule tally_once)
    fix s assume s: "s \<in> set stats"
    have n: "0 \<le> trades7 s" using assms s by (simp add: trades7_def round_half_away_nonneg)
    show "\<exists>b \<in> set trade_buckets. (\<lambda>(_, lo, hi). in_bucket lo hi (trades7 s)) b
        \<and> (\<forall>c \<in> set trade_buckets. (\<lambda>(_, lo, hi). in_bucket lo hi (trades7 s)) c \<longrightarrow> c = b)"
      using n by (auto simp: trade_buckets_def in_bucket_def)
  qed (simp add: trade_buckets_def)
  then show "sum_list (map snd (wu_trades (warmup_of stats today))) = length stats"
    by (simp add: warmup_of_def comp_def case_prod_beta)
qed

section \<open>Movers and history\<close>

lemma ranked_sorted: "sorted_wrt (\<lambda>a b. mo_change_pct b \<le> mo_change_pct a) (ranked_movers daily stats back_days min_volume name_of)"
  using sorted_wrt_sort_key[of "\<lambda>m. - mo_change_pct m"] by (simp add: ranked_movers_def)

text \<open>
  A riser that is left out has risen no more than any of the 25 that are shown, and a faller that is left out has fallen no more.
\<close>

theorem movers_are_the_extremes:
  assumes "m \<in> set (ranked_movers daily stats back_days min_volume name_of)"
  shows "(0 < mo_change_pct m \<longrightarrow> m \<notin> set (ml_up (movers_for daily stats back_days min_volume name_of)) \<longrightarrow>
            length (ml_up (movers_for daily stats back_days min_volume name_of)) = 25
          \<and> (\<forall>u \<in> set (ml_up (movers_for daily stats back_days min_volume name_of)). mo_change_pct m \<le> mo_change_pct u))
       \<and> (mo_change_pct m < 0 \<longrightarrow> m \<notin> set (ml_down (movers_for daily stats back_days min_volume name_of)) \<longrightarrow>
            length (ml_down (movers_for daily stats back_days min_volume name_of)) = 25
          \<and> (\<forall>u \<in> set (ml_down (movers_for daily stats back_days min_volume name_of)). mo_change_pct u \<le> mo_change_pct m))"
proof -
  define r where "r = ranked_movers daily stats back_days min_volume name_of"
  have s: "sorted_wrt (\<lambda>a b. mo_change_pct b \<le> mo_change_pct a) r" unfolding r_def by (rule ranked_sorted)
  have up: "sorted_wrt (\<lambda>a b. mo_change_pct b \<le> mo_change_pct a) (filter (\<lambda>m. 0 < mo_change_pct m) r)"
    by (rule sorted_wrt_filter[OF s])
  have down: "sorted_wrt (\<lambda>a b. mo_change_pct a \<le> mo_change_pct b) (filter (\<lambda>m. mo_change_pct m < 0) (rev r))"
    by (rule sorted_wrt_filter) (simp add: sorted_wrt_rev s)
  show ?thesis
    using take_keeps_first[OF up, of m 25] take_keeps_first[OF down, of m 25] assms
    by (simp add: movers_for_def Let_def movers_per_side_def flip: r_def)
qed

lemma mover_ofD:
  assumes "mover_of daily name_of back_days (r, s) = Some m"
  shows "0 < mo_median_then m \<and> mo_volume m = is_volume s
       \<and> median_before daily (mo_item_id m) (mo_sub_type m) (ds_day (dr_stat r) - back_days) = Some (mo_median_then m)
       \<and> ds_median (dr_stat r) = Some (mo_median_now m)"
  using assms by (auto simp: mover_of_def split: option.splits if_splits)

text \<open>The sign of the change is that of the difference of the two medians, and thin variants are not ranked.\<close>

theorem ranked_movers_are_genuine:
  assumes "m \<in> set (ranked_movers daily stats back_days min_volume name_of)"
  shows "min_volume \<le> mo_volume m \<and> 0 < mo_median_then m \<and> (0 < mo_change_pct m) = (mo_median_then m < mo_median_now m)"
proof -
  obtain r s where rs: "(r, s) \<in> set (mover_rows daily stats min_volume)" and m: "mover_of daily name_of back_days (r, s) = Some m"
    using assms by (auto simp: ranked_movers_def List.map_filter_def)
  have "mo_change_pct m = (mo_median_now m - mo_median_then m) / mo_median_then m * 100"
    using m by (auto simp: mover_of_def split: option.splits if_splits)
  with rs mover_ofD[OF m] show ?thesis by (auto simp: mover_rows_def zero_less_mult_iff zero_less_divide_iff)
qed

text \<open>The trades of the history are the newest: one that is left out is no newer than the fifty that are shown.\<close>

theorem history_shows_the_newest_trades:
  assumes "v \<in> set (db_vanished db)" and "vr_item_id v = item" and "so_sub_type (vr_order v) = sub" and "vr_status v = ''trade''"
    and "v \<notin> set (recent_trades db item sub)"
  shows "length (recent_trades db item sub) = 50 \<and> (\<forall>u \<in> set (recent_trades db item sub). vr_vanished_at v \<le> vr_vanished_at u)"
  unfolding recent_trades_def
  by (rule take_keeps_first[where R = "\<lambda>a b. vr_vanished_at b \<le> vr_vanished_at a", OF sorted_wrt_rev_sort_key])
     (use assms in \<open>simp_all add: recent_trades_def\<close>)

end
