(* ===== verification/Analytics.thy ===== *)
theory Analytics
  imports Dashboard Prices
begin

text \<open>
  The analytics tabs (\<open>analytics/store.rs\<close>): profit by item, trading partners, totals by day or week with a running sum, and the
  stock at its market value. What SQLite computes of a time is a parameter: \<open>julianday\<close> of a stored instant and of a given text (\<open>None\<close>
  for \<open>NULL\<close>), the date of a row and of the Monday of its week, the text of a day. A column outside the \<open>GROUP BY\<close> is read from a row
  SQLite picks.
\<close>

section \<open>Rows\<close>

record sql_time =
  sl_julian :: "utc \<Rightarrow> real"
  sl_parse :: "string \<Rightarrow> real option"
  sl_date :: "utc \<Rightarrow> string"
  sl_monday :: "utc \<Rightarrow> string"
  sl_text :: "real \<Rightarrow> string"

record item_figures =
  if_wfm_id :: string
  if_wfm_url :: string
  if_item_name :: string
  if_sub_type :: string
  if_purchases :: nat
  if_bought_qty :: int
  if_spend :: int
  if_sales :: nat
  if_sold_qty :: int
  if_revenue :: int
  if_profit :: int
  if_avg_buy :: "real option"
  if_avg_sell :: "real option"
  if_avg_days_held :: "real option"

record partner_figures =
  pf_user_name :: string
  pf_trades :: nat
  pf_bought_count :: nat
  pf_bought_plat :: int
  pf_sold_count :: nat
  pf_sold_plat :: int
  pf_profit :: int
  pf_last_trade_at :: string

datatype bucket = DayBucket | WeekBucket

record timeline_row =
  tm_bucket_start :: string
  tm_sales :: nat
  tm_purchases :: nat
  tm_revenue :: int
  tm_expenses :: int
  tm_profit :: int
  tm_cumulative_profit :: int

record stock_figures =
  sf_item :: stock_item
  sf_days_in_stock :: real
  sf_median :: "real option"
  sf_moving_avg :: "real option"
  sf_volume :: "real option"
  sf_warm :: bool
  sf_unrealised :: "real option"
  sf_list_vs_median :: "real option"

section \<open>Sums over transactions\<close>

definition in_sql_range :: "sql_time \<Rightarrow> string \<Rightarrow> string \<Rightarrow> transaction \<Rightarrow> bool" where
  "in_sql_range st from until t =
     (case (sl_parse st from, sl_parse st until) of
        (Some a, Some b) \<Rightarrow> a \<le> sl_julian st (tx_created_at t) \<and> sl_julian st (tx_created_at t) < b
      | _ \<Rightarrow> False)"

definition sale_profit :: "transaction list \<Rightarrow> int" where
  "sale_profit ts1 = sum_list (map (\<lambda>t. case tx_profit t of Some p \<Rightarrow> p | None \<Rightarrow> 0) (sales_of ts1))"

definition sum_of :: "(transaction \<Rightarrow> int) \<Rightarrow> transaction list \<Rightarrow> int" where
  "sum_of f ts1 = sum_list (map f ts1)"

definition sub_text :: "(sub_type \<Rightarrow> string) \<Rightarrow> transaction \<Rightarrow> string" where
  "sub_text txt t = (case tx_sub_type t of Some s \<Rightarrow> txt s | None \<Rightarrow> [])"

definition same_variant :: "(sub_type \<Rightarrow> string) \<Rightarrow> transaction \<Rightarrow> transaction \<Rightarrow> bool" where
  "same_variant txt p t \<longleftrightarrow> tx_wfm_url p = tx_wfm_url t \<and> sub_text txt p = sub_text txt t"

text \<open>Days from the latest earlier purchase of the same variant, wherever it lies, to the sale.\<close>

definition days_held :: "sql_time \<Rightarrow> (sub_type \<Rightarrow> string) \<Rightarrow> transaction list \<Rightarrow> transaction \<Rightarrow> real option" where
  "days_held st txt all_txs t =
     (let before = map (\<lambda>p. sl_julian st (tx_created_at p))
            (filter (\<lambda>p. same_variant txt p t \<and> sl_julian st (tx_created_at p) \<le> sl_julian st (tx_created_at t)) (purchases_of all_txs))
      in if before = [] then None else Some (sl_julian st (tx_created_at t) - Max (set before)))"

definition per_piece :: "int \<Rightarrow> int \<Rightarrow> real option" where
  "per_piece amount qty = (if 0 < qty then Some (of_int amount / of_int qty) else None)"

definition item_figures_of ::
  "sql_time \<Rightarrow> (sub_type \<Rightarrow> string) \<Rightarrow> (transaction list \<Rightarrow> transaction) \<Rightarrow> transaction list
    \<Rightarrow> (string \<times> string) \<times> transaction list \<Rightarrow> item_figures" where
  "item_figures_of st txt pick all_txs = (\<lambda>((url, sub), rows).
     let bought = purchases_of rows; sold = sales_of rows; t = pick rows
     in \<lparr>if_wfm_id = tx_wfm_id t, if_wfm_url = url, if_item_name = tx_item_name t, if_sub_type = sub,
         if_purchases = length bought, if_bought_qty = sum_of tx_quantity bought, if_spend = sum_of tx_price bought,
         if_sales = length sold, if_sold_qty = sum_of tx_quantity sold, if_revenue = sum_of tx_price sold,
         if_profit = sale_profit rows, if_avg_buy = per_piece (sum_of tx_price bought) (sum_of tx_quantity bought),
         if_avg_sell = per_piece (sum_of tx_price sold) (sum_of tx_quantity sold),
         if_avg_days_held = mean (List.map_filter (days_held st txt all_txs) sold)\<rparr>)"

definition analytics_items ::
  "sql_time \<Rightarrow> (sub_type \<Rightarrow> string) \<Rightarrow> (transaction list \<Rightarrow> transaction) \<Rightarrow> transaction list \<Rightarrow> string \<Rightarrow> string \<Rightarrow> item_figures list" where
  "analytics_items st txt pick txs from until =
     sort_key (\<lambda>r. - if_profit r) (sort_key if_item_name
       (map (item_figures_of st txt pick txs)
         (group_by (\<lambda>t. (tx_wfm_url t, sub_text txt t)) (filter (in_sql_range st from until) txs))))"

definition partner_figures_of :: "sql_time \<Rightarrow> string \<times> transaction list \<Rightarrow> partner_figures" where
  "partner_figures_of st = (\<lambda>(user, rows).
     \<lparr>pf_user_name = user, pf_trades = length rows, pf_bought_count = length (purchases_of rows),
      pf_bought_plat = sum_of tx_price (purchases_of rows), pf_sold_count = length (sales_of rows),
      pf_sold_plat = sum_of tx_price (sales_of rows), pf_profit = sale_profit rows,
      pf_last_trade_at = sl_text st (Max (set (map (\<lambda>t. sl_julian st (tx_created_at t)) rows)))\<rparr>)"

definition analytics_partners :: "sql_time \<Rightarrow> transaction list \<Rightarrow> string \<Rightarrow> string \<Rightarrow> partner_figures list" where
  "analytics_partners st txs from until =
     sort_key (\<lambda>r. - int (pf_trades r)) (sort_key pf_user_name
       (map (partner_figures_of st)
         (group_by tx_user_name (filter (\<lambda>t. tx_user_name t \<noteq> [] \<and> in_sql_range st from until t) txs))))"

fun bucket_start :: "sql_time \<Rightarrow> bucket \<Rightarrow> transaction \<Rightarrow> string" where
  "bucket_start st DayBucket t = sl_date st (tx_created_at t)"
| "bucket_start st WeekBucket t = sl_monday st (tx_created_at t)"

definition timeline_row_of :: "string \<times> transaction list \<Rightarrow> int \<Rightarrow> timeline_row" where
  "timeline_row_of = (\<lambda>(start, rows) cumulative.
     \<lparr>tm_bucket_start = start, tm_sales = length (sales_of rows), tm_purchases = length (purchases_of rows),
      tm_revenue = sum_of tx_price (sales_of rows), tm_expenses = sum_of tx_price (purchases_of rows),
      tm_profit = sale_profit rows, tm_cumulative_profit = cumulative + sale_profit rows\<rparr>)"

fun run_timeline :: "int \<Rightarrow> (string \<times> transaction list) list \<Rightarrow> timeline_row list" where
  "run_timeline cumulative [] = []"
| "run_timeline cumulative (g # gs) = timeline_row_of g cumulative # run_timeline (cumulative + sale_profit (snd g)) gs"

definition analytics_timeline :: "sql_time \<Rightarrow> transaction list \<Rightarrow> string \<Rightarrow> string \<Rightarrow> bucket \<Rightarrow> timeline_row list" where
  "analytics_timeline st txs from until b =
     run_timeline 0 (sort_key fst (group_by (bucket_start st b) (filter (in_sql_range st from until) txs)))"

section \<open>Stock\<close>

text \<open>A median of zero stands for no market data.\<close>

definition stock_figures_of :: "sql_time \<Rightarrow> price_source \<Rightarrow> utc \<Rightarrow> stock_item \<Rightarrow> stock_figures" where
  "stock_figures_of st ps now m =
     (let info = price_find ps (stk_wfm_id m) (stk_sub_type m);
          median = (case info of Some i \<Rightarrow> if 0 < pi_median i then Some (pi_median i) else None | None \<Rightarrow> None)
      in \<lparr>sf_item = m, sf_days_in_stock = sl_julian st (ts now * 1000000000) - sl_julian st (stk_created_at m), sf_median = median,
          sf_moving_avg = Option.bind info pi_moving_avg, sf_volume = map_option pi_volume info,
          sf_warm = (case info of Some i \<Rightarrow> pi_warm i | None \<Rightarrow> False),
          sf_unrealised = map_option (\<lambda>x. (x - of_int (stk_bought m)) * of_int (stk_owned m)) median,
          sf_list_vs_median = Option.bind median (\<lambda>x. map_option (\<lambda>l. of_int l - x) (stk_list_price m))\<rparr>)"

text \<open>The comparison of \<open>sort_by\<close>: known gains first, the highest leading; rows without a market by name.\<close>

definition before_eq :: "stock_figures \<Rightarrow> stock_figures \<Rightarrow> bool" where
  "before_eq a b =
     (case (sf_unrealised a, sf_unrealised b) of
        (Some x, Some y) \<Rightarrow> y \<le> x
      | (Some _, None) \<Rightarrow> True
      | (None, Some _) \<Rightarrow> False
      | (None, None) \<Rightarrow> stk_item_name (sf_item a) \<le> stk_item_name (sf_item b))"

text \<open>A stable sort by that comparison.\<close>

fun insert_figures :: "stock_figures \<Rightarrow> stock_figures list \<Rightarrow> stock_figures list" where
  "insert_figures a [] = [a]"
| "insert_figures a (b # bs) = (if before_eq a b then a # b # bs else b # insert_figures a bs)"

definition analytics_stock :: "sql_time \<Rightarrow> price_source \<Rightarrow> utc \<Rightarrow> stock_item list \<Rightarrow> stock_figures list" where
  "analytics_stock st ps now stock =
     foldr insert_figures (map (stock_figures_of st ps now) (filter (\<lambda>m. 0 < stk_owned m) stock)) []"

section \<open>The tabs agree\<close>

lemma sale_profit_snoc: "sale_profit (xs @ ys) = sale_profit xs + sale_profit ys"
  by (simp add: sale_profit_def sales_of_def)

lemma sale_profit_sum: "sale_profit xs = sum_list (map (\<lambda>t. if tx_type t = Sale then (case tx_profit t of Some p \<Rightarrow> p | None \<Rightarrow> 0) else 0) xs)"
  by (induction xs) (auto simp: sale_profit_def sales_of_def)

lemma group_profit: "sum_list (map (\<lambda>g. sale_profit (snd g)) (group_by key xs)) = sale_profit xs"
proof -
  have "sum_list (map (\<lambda>(_, g). sum_list (map (\<lambda>t. if tx_type t = Sale then (case tx_profit t of Some p \<Rightarrow> p | None \<Rightarrow> 0) else 0) g))
          (group_by key xs)) = sale_profit xs"
    unfolding group_by_sum sale_profit_sum ..
  then show ?thesis by (simp add: sale_profit_sum[symmetric] case_prod_beta')
qed

lemma sum_list_sort_key: "sum_list (map f (sort_key k xs)) = sum_list (map f xs)"
  for f :: "'a \<Rightarrow> int"
proof -
  have "mset (map f (sort_key k xs)) = mset (map f xs)" by (simp only: mset_map mset_sort)
  then show ?thesis by (metis sum_mset_sum_list)
qed

text \<open>The profit column of the items tab adds up to the profit of the sales in the range.\<close>

theorem item_profits_add_up:
  "sum_list (map if_profit (analytics_items st txt pick txs from until)) = sale_profit (filter (in_sql_range st from until) txs)"
proof -
  have "if_profit (item_figures_of st txt pick txs g) = sale_profit (snd g)" for g
    by (simp add: item_figures_of_def Let_def case_prod_beta)
  then show ?thesis by (simp add: analytics_items_def sum_list_sort_key comp_def group_profit)
qed

lemma run_timeline_last:
  "gs \<noteq> [] \<Longrightarrow> tm_cumulative_profit (last (run_timeline c gs)) = c + sum_list (map (\<lambda>g. sale_profit (snd g)) gs)"
proof (induction gs arbitrary: c)
  case (Cons g gs)
  show ?case
  proof (cases gs)
    case Nil then show ?thesis by (simp add: timeline_row_of_def case_prod_beta)
  next
    case (Cons h hs)
    with Cons.IH[of "c + sale_profit (snd g)"] show ?thesis by simp
  qed
qed simp

text \<open>
  The running total of the timeline ends at the same figure, by day and by week: the sum of the profits of the items tab over the
  same range.
\<close>

theorem analytics_tabs_agree:
  assumes "analytics_timeline st txs from until b \<noteq> []"
  shows "tm_cumulative_profit (last (analytics_timeline st txs from until b))
       = sum_list (map if_profit (analytics_items st txt pick txs from until))"
proof -
  define gs where "gs = sort_key fst (group_by (bucket_start st b) (filter (in_sql_range st from until) txs))"
  have "gs \<noteq> []" using assms by (auto simp: analytics_timeline_def gs_def)
  from run_timeline_last[OF this, of 0] show ?thesis
    by (simp add: item_profits_add_up analytics_timeline_def gs_def sum_list_sort_key group_profit)
qed

lemma run_timeline_starts: "map tm_bucket_start (run_timeline c gs) = map fst gs"
  by (induction gs arbitrary: c) (simp_all add: timeline_row_of_def case_prod_beta)

text \<open>Every bucket has one row, and the rows go forward in time.\<close>

theorem timeline_goes_forward: "sorted_wrt (<) (map tm_bucket_start (analytics_timeline st txs from until b))"
proof -
  define gs where "gs = group_by (bucket_start st b) (filter (in_sql_range st from until) txs)"
  have "distinct (map fst (sort_key fst gs))"
    using group_by_distinct[of "bucket_start st b"] by (simp add: gs_def distinct_map)
  then show ?thesis
    by (simp add: analytics_timeline_def run_timeline_starts gs_def strict_sorted_iff)
qed

text \<open>A sale is never held for less than no time.\<close>

lemma days_held_nonneg: "days_held st txt txs t = Some x \<Longrightarrow> 0 \<le> x"
proof -
  assume held: "days_held st txt txs t = Some x"
  define before where "before = map (\<lambda>p. sl_julian st (tx_created_at p))
    (filter (\<lambda>p. same_variant txt p t \<and> sl_julian st (tx_created_at p) \<le> sl_julian st (tx_created_at t)) (purchases_of txs))"
  have "before \<noteq> []" "x = sl_julian st (tx_created_at t) - Max (set before)"
    using held by (simp_all add: days_held_def Let_def before_def split: if_splits)
  moreover from this(1) have "Max (set before) \<in> set before" by simp
  moreover have "\<forall>v \<in> set before. v \<le> sl_julian st (tx_created_at t)" by (simp add: before_def)
  ultimately show "0 \<le> x" by simp
qed

section \<open>The stock tab\<close>

lemma insert_figures_mset: "mset (insert_figures a bs) = add_mset a (mset bs)"
  by (induction bs) auto

lemma insert_figures_set: "set (insert_figures a bs) = insert a (set bs)"
  by (induction bs) auto

lemma before_eq_total: "\<not> before_eq a b \<Longrightarrow> before_eq b a"
  by (auto simp: before_eq_def split: option.splits)

lemma before_eq_trans: "before_eq a b \<Longrightarrow> before_eq b c \<Longrightarrow> before_eq a c"
  by (auto simp: before_eq_def split: option.splits)

lemma insert_figures_sorted: "sorted_wrt before_eq bs \<Longrightarrow> sorted_wrt before_eq (insert_figures a bs)"
proof (induction bs)
  case (Cons b bs)
  show ?case
  proof (cases "before_eq a b")
    case True
    then show ?thesis using Cons.prems by (auto intro: before_eq_trans)
  next
    case False
    then show ?thesis using Cons before_eq_total[OF False] by (auto simp: insert_figures_set)
  qed
qed simp

text \<open>
  The stock tab lists every owned row once, in the order of the comparison: rows without a market come after all others.
\<close>

theorem stock_tab_is_ranked:
  "sorted_wrt before_eq (analytics_stock st ps now stock)
   \<and> mset (map sf_item (analytics_stock st ps now stock)) = mset (filter (\<lambda>m. 0 < stk_owned m) stock)"
proof
  have "sorted_wrt before_eq (foldr insert_figures xs [])" for xs
    by (induction xs) (simp_all add: insert_figures_sorted)
  then show "sorted_wrt before_eq (analytics_stock st ps now stock)" by (simp add: analytics_stock_def)
  have "mset (foldr insert_figures xs []) = mset xs" for xs
    by (induction xs) (simp_all add: insert_figures_mset)
  moreover have "sf_item (stock_figures_of st ps now m) = m" for m by (simp add: stock_figures_of_def Let_def)
  ultimately show "mset (map sf_item (analytics_stock st ps now stock)) = mset (filter (\<lambda>m. 0 < stk_owned m) stock)"
    by (simp add: analytics_stock_def image_mset.compositionality comp_def)
qed

text \<open>A row whose market is unknown shows no gain, also when the market has a row of statistics without a median.\<close>

theorem unknown_market_is_no_loss:
  "sf_unrealised (stock_figures_of st ps now m) = None \<longleftrightarrow>
     (case price_find ps (stk_wfm_id m) (stk_sub_type m) of None \<Rightarrow> True | Some i \<Rightarrow> pi_median i \<le> 0)"
  by (auto simp: stock_figures_of_def Let_def split: option.splits)

end
