(* ===== verification/Trader_Reports.thy ===== *)
theory Trader_Reports
  imports Market_Pages Trade_Pipeline Trade_Orders Controller
begin

text \<open>
  What the trader shows of itself: the two price bases side by side (\<open>trader/compare.rs\<close>, \<open>commands/market.rs\<close>), the stored log of
  the dry run with its pages and its summary (\<open>trader/store.rs\<close>, \<open>commands/trader.rs\<close>), and the variables of the messages about a
  reported trade (\<open>helper_link/trades/live.rs\<close>). The text of a stamp is a parameter.
\<close>

section \<open>Both price bases\<close>

record price_row =
  pr_item_id :: string
  pr_sub_type :: string
  pr_name :: string
  pr_wfm_url :: string
  pr_inferred_volume :: "real option"
  pr_inferred_moving_avg :: "real option"
  pr_closed_volume :: "real option"
  pr_closed_moving_avg :: "real option"
  pr_closed_days :: "nat option"
  pr_week_price_shift :: "real option"
  pr_profit :: "real option"
  pr_closed_range_profit :: "real option"
  pr_warm_inferred :: bool
  pr_warm_closed :: bool
  pr_candidate_inferred :: bool
  pr_candidate_closed :: bool
  pr_guarded :: bool
  pr_fetched_at :: "stamp option"

record candidate_counts =
  cc_inferred :: nat
  cc_closed :: nat
  cc_both :: nat

record item_lookup =
  lk_name :: string
  lk_wfm_url :: string
  lk_trade_tax :: int
  lk_max_rank :: "int option"

definition candidate_uuids ::
  "item_stats list \<Rightarrow> closed_stats list \<Rightarrow> item_settings \<Rightarrow> int \<Rightarrow> profit_basis \<Rightarrow> utc \<Rightarrow> (string \<Rightarrow> item_lookup option)
    \<Rightarrow> price_source_mode \<Rightarrow> string list" where
  "candidate_uuids inferred cs s guard_pct basis now lookup mode =
     (let source = with_max_rank (\<lambda>i. Option.bind (lookup i) lk_max_rank)
            (with_trade_tax (\<lambda>i. map_option lk_trade_tax (lookup i))
              (from_effective (\<lambda>i. map_option lk_wfm_url (lookup i)) (blend inferred cs mode guard_pct basis now)))
      in map pi_uuid (get_interesting_items s source))"

definition price_keys :: "item_stats list \<Rightarrow> closed_stats list \<Rightarrow> (string \<times> string) list" where
  "price_keys inferred cs = sort (remdups (map stats_key inferred @ map closed_stats_key cs))"

definition uuid_of_key :: "string \<times> string \<Rightarrow> string" where
  "uuid_of_key = (\<lambda>(item, sub). item @ '':'' @ sub)"

text \<open>Of several rows of one key the last one written into the map counts.\<close>

definition price_row_of ::
  "item_stats list \<Rightarrow> closed_stats list \<Rightarrow> string list \<Rightarrow> string list \<Rightarrow> (string \<times> string) list
    \<Rightarrow> (string \<Rightarrow> item_lookup option) \<Rightarrow> (string \<times> stamp) list \<Rightarrow> string \<times> string \<Rightarrow> price_row option" where
  "price_row_of inferred cs as_inferred as_closed guarded lookup fetched k =
     map_option (\<lambda>item.
       let i = row_lookup stats_key (rev inferred) k; c = row_lookup closed_stats_key (rev cs) k; uuid = uuid_of_key k
       in \<lparr>pr_item_id = fst k, pr_sub_type = snd k, pr_name = lk_name item, pr_wfm_url = lk_wfm_url item,
           pr_inferred_volume = map_option is_volume i, pr_inferred_moving_avg = Option.bind i is_moving_avg,
           pr_closed_volume = map_option cz_volume c, pr_closed_moving_avg = Option.bind c cz_moving_avg,
           pr_closed_days = map_option cz_days c, pr_week_price_shift = Option.bind c cz_week_price_shift,
           pr_profit = Option.bind i is_profit, pr_closed_range_profit = Option.bind c cz_range_profit,
           pr_warm_inferred = (case i of Some s \<Rightarrow> is_warm s | None \<Rightarrow> False),
           pr_warm_closed = ((case c of Some s \<Rightarrow> cz_warm s | None \<Rightarrow> False) \<and> i \<noteq> None),
           pr_candidate_inferred = (uuid \<in> set as_inferred), pr_candidate_closed = (uuid \<in> set as_closed),
           pr_guarded = (k \<in> set guarded), pr_fetched_at = map_of fetched (fst k)\<rparr>) (lookup (fst k))"

definition compare_bases ::
  "item_stats list \<Rightarrow> closed_stats list \<Rightarrow> item_settings \<Rightarrow> int \<Rightarrow> profit_basis \<Rightarrow> utc \<Rightarrow> (string \<Rightarrow> item_lookup option)
    \<Rightarrow> (string \<times> stamp) list \<Rightarrow> price_row list \<times> candidate_counts" where
  "compare_bases inferred cs s guard_pct basis now lookup fetched =
     (let as_inferred = candidate_uuids inferred cs s guard_pct basis now lookup SourceInferred;
          as_closed = candidate_uuids inferred cs s guard_pct basis now lookup SourceClosed;
          guarded = map (\<lambda>e. stats_key (ef_stats e)) (filter ef_guarded (blend inferred cs SourceClosed guard_pct basis now));
          rows = List.map_filter (price_row_of inferred cs as_inferred as_closed guarded lookup fetched) (price_keys inferred cs)
      in (rows, \<lparr>cc_inferred = tally pr_candidate_inferred rows, cc_closed = tally pr_candidate_closed rows,
                 cc_both = tally (\<lambda>r. pr_candidate_inferred r \<and> pr_candidate_closed r) rows\<rparr>))"

text \<open>The call behind the tab: the stored statistics of both kinds under the settings in force.\<close>

definition market_price_sources ::
  "(string \<Rightarrow> item_lookup option) \<Rightarrow> live_settings \<Rightarrow> collector_db \<Rightarrow> closed_db \<Rightarrow> utc \<Rightarrow> price_row list \<times> candidate_counts" where
  "market_price_sources lookup app db cdb now =
     (let (mode, guard_pct, basis) = source_settings (Some app)
      in compare_bases (db_item_stats db) (load_fresh cdb now (cf_warm_min_trades default_stats_config)) (lv_items app)
           guard_pct basis now lookup (fetch_times cdb))"

definition market_overview ::
  "(string \<Rightarrow> (string \<times> string) option) \<Rightarrow> live_settings option \<Rightarrow> collector_db \<Rightarrow> closed_db \<Rightarrow> utc \<Rightarrow> overview_row list" where
  "market_overview name_of app db cdb now = overview (map ef_stats (effective_stats db cdb (source_settings app) now)) name_of"

definition market_warmup :: "live_settings option \<Rightarrow> collector_db \<Rightarrow> closed_db \<Rightarrow> utc \<Rightarrow> warmup" where
  "market_warmup app db cdb now =
     warmup_of (map ef_stats (filter ef_inferred (effective_stats db cdb (source_settings app) now))) (day_of now)"

section \<open>The log of the dry run\<close>

record dry_run_row =
  dw_id :: int
  dw_entry :: dry_run_entry

record dry_run_db =
  dd_rows :: "dry_run_row list"
  dd_next :: int

record dry_run_listing =
  dp_total :: nat
  dp_page :: int
  dp_limit :: int
  dp_results :: "dry_run_row list"

record dry_run_summary =
  dm_since :: stamp
  dm_by_action :: "((string \<times> string \<times> string) \<times> nat) list"
  dm_by_item :: "((string \<times> string \<times> string) \<times> nat \<times> int option \<times> int option) list"

definition dry_run_retention_days :: int where "dry_run_retention_days = 30"

definition load_options :: "trader_options option \<Rightarrow> string + trader_options" where
  "load_options row = (case row of Some o1 \<Rightarrow> Inr o1 | None \<Rightarrow> Inl ''trader_state row is missing'')"

definition insert_dry_run :: "dry_run_db \<Rightarrow> dry_run_entry \<Rightarrow> dry_run_db" where
  "insert_dry_run db e = \<lparr>dd_rows = dd_rows db @ [\<lparr>dw_id = dd_next db, dw_entry = e\<rparr>], dd_next = dd_next db + 1\<rparr>"

definition dry_run_page :: "dry_run_db \<Rightarrow> int \<Rightarrow> int \<Rightarrow> dry_run_listing" where
  "dry_run_page db page limit =
     (let page = max page 1; limit = min (max limit 1) 500
      in \<lparr>dp_total = length (dd_rows db), dp_page = page, dp_limit = limit,
          dp_results = take (nat limit) (drop (nat ((page - 1) * limit)) (rev (sort_key dw_id (dd_rows db))))\<rparr>)"

definition since_rows :: "dry_run_db \<Rightarrow> stamp \<Rightarrow> dry_run_entry list" where
  "since_rows db since = filter (\<lambda>e. since \<le> de_at e) (map dw_entry (dd_rows db))"

definition dry_run_summary_of :: "dry_run_db \<Rightarrow> utc \<Rightarrow> dry_run_summary" where
  "dry_run_summary_of db since_at =
     (let since = ts since_at; rows = since_rows db since
      in \<lparr>dm_since = since,
          dm_by_action = map (\<lambda>(k, g). (k, length g)) (sort_key fst (group_by (\<lambda>e. (de_action e, de_side e, de_forced_by e)) rows)),
          dm_by_item = take 25 (map (\<lambda>(k, g). (k, length g, min_of (List.map_filter de_price g), max_of (List.map_filter de_price g)))
            (sort_key (\<lambda>(k, g). (- int (length g), k)) (group_by (\<lambda>e. (de_item_id e, de_sub_type e, de_action e)) rows)))\<rparr>)"

definition prune_dry_run :: "dry_run_db \<Rightarrow> utc \<Rightarrow> nat \<times> dry_run_db" where
  "prune_dry_run db now =
     (let old = (\<lambda>r. de_at (dw_entry r) < ts (now - days dry_run_retention_days))
      in (length (filter old (dd_rows db)), db\<lparr>dd_rows := filter (\<lambda>r. \<not> old r) (dd_rows db)\<rparr>))"

definition trader_dry_run_summary :: "dry_run_db \<Rightarrow> int \<Rightarrow> utc \<Rightarrow> dry_run_summary" where
  "trader_dry_run_summary db n now = dry_run_summary_of db (now - days (min (max n 1) 30))"

section \<open>Messages about a trade\<close>

definition item_lines :: "raw_item list \<Rightarrow> string list" where
  "item_lines items =
     map (\<lambda>i. case ri_rank i of
            Some rank \<Rightarrow> ri_name i @ '' x'' @ show_int (ri_quantity i) @ '' (rank '' @ show_int rank @ '')''
          | None \<Rightarrow> ri_name i @ '' x'' @ show_int (ri_quantity i)) (without_platinum items)"

definition trade_kind :: "direction option \<Rightarrow> string" where
  "trade_kind d = (case d of Some DirSale \<Rightarrow> ''Sale'' | Some DirPurchase \<Rightarrow> ''Purchase'' | None \<Rightarrow> ''Trade'')"

definition trade_variables :: "(stamp \<Rightarrow> string) \<Rightarrow> helper_event \<Rightarrow> (string \<times> string) list" where
  "trade_variables stamp_text e =
     (let r = event_resolution e; offered = item_lines (rt_offered (ev_payload e)); received = item_lines (rt_received (ev_payload e))
      in [(''<PLAYER_NAME>'', rt_player_name (ev_payload e)), (''<TIME>'', stamp_text (ev_detected_at e)),
          (''<TR_TYPE>'', trade_kind (rl_direction r)), (''<TOTAL_PLAT>'', show_int (rl_platinum r)),
          (''<OF_COUNT>'', show_nat (length offered)), (''<RE_COUNT>'', show_nat (length received)),
          (''<OF_ITEMS>'', str_join [CHR 0x0A] offered), (''<RE_ITEMS>'', str_join [CHR 0x0A] received)])"

definition alert_kind :: "string \<Rightarrow> string" where
  "alert_kind reason = (if starts_with reason ''apply_failed:'' then ''apply_failed'' else ''apply_interrupted'')"

definition alert_variables :: "(stamp \<Rightarrow> string) \<Rightarrow> helper_event \<Rightarrow> (string \<times> string) list" where
  "alert_variables stamp_text e =
     (let reason = (case ev_reason e of Some r \<Rightarrow> r | None \<Rightarrow> [])
      in AList.update ''<EVENT_ID>'' (ev_id e) (AList.update ''<REASON>'' reason
           (AList.update ''<KIND>'' (alert_kind reason) (trade_variables stamp_text e))))"

definition toast_values :: "helper_event \<Rightarrow> json" where
  "toast_values e =
     (let r = event_resolution e
      in JObj [(''player_name'', JStr (rt_player_name (ev_payload e))),
               (''direction'', JStr (case rl_direction r of Some d \<Rightarrow> direction_str d | None \<Rightarrow> ''trade'')),
               (''platinum'', JInt (rl_platinum r)), (''items'', JInt (sum_list (map re_quantity (rl_items r)))),
               (''reason'', JStr (case ev_reason e of Some x \<Rightarrow> x | None \<Rightarrow> []))])"

section \<open>The tab shows what the trader works\<close>

lemma price_find_row:
  assumes "price_row_of inferred cs as_inferred as_closed guarded lookup fetched k = Some r"
  shows "(pr_item_id r, pr_sub_type r) = k \<and> (pr_candidate_inferred r \<longleftrightarrow> uuid_of_key k \<in> set as_inferred)
       \<and> (pr_candidate_closed r \<longleftrightarrow> uuid_of_key k \<in> set as_closed)"
  using assms by (auto simp: price_row_of_def Let_def)

lemma trader_candidates:
  assumes "source_settings (Some app) = (mode, guard_pct, basis)"
  shows "map pi_uuid (get_interesting_items (lv_items app)
             (load_price_source (\<lambda>i. map_option lk_wfm_url (lookup i)) (\<lambda>i. Option.bind (lookup i) lk_max_rank)
                (\<lambda>i. map_option lk_trade_tax (lookup i)) (Some app) db cdb now))
       = candidate_uuids (db_item_stats db) (load_fresh cdb now (cf_warm_min_trades default_stats_config)) (lv_items app)
           guard_pct basis now lookup mode"
  unfolding load_price_source_def candidate_uuids_def effective_stats_def assms Let_def
  by (cases mode) (simp_all add: blend_def)

text \<open>
  The candidate column of the current mode marks exactly the keys the trader itself would work: those of its price source, with the
  stored statistics and the settings in force.
\<close>

theorem price_tab_marks_the_traders_candidates:
  assumes "source_settings (Some app) = (mode, guard_pct, basis)" and "r \<in> set (fst (market_price_sources lookup app db cdb now))"
  shows "(if mode = SourceInferred then pr_candidate_inferred r else pr_candidate_closed r) \<longleftrightarrow>
     uuid_of_key (pr_item_id r, pr_sub_type r) \<in> pi_uuid ` set (get_interesting_items (lv_items app)
             (load_price_source (\<lambda>i. map_option lk_wfm_url (lookup i)) (\<lambda>i. Option.bind (lookup i) lk_max_rank)
                (\<lambda>i. map_option lk_trade_tax (lookup i)) (Some app) db cdb now))"
proof -
  define cs where "cs = load_fresh cdb now (cf_warm_min_trades default_stats_config)"
  define as where "as = candidate_uuids (db_item_stats db) cs (lv_items app) guard_pct basis now lookup"
  obtain guarded k where "price_row_of (db_item_stats db) cs (as SourceInferred) (as SourceClosed) guarded lookup (fetch_times cdb) k = Some r"
    using assms(2)
    by (auto simp: market_price_sources_def assms(1) compare_bases_def Let_def cs_def as_def List.map_filter_def)
  from price_find_row[OF this] have "(if mode = SourceInferred then pr_candidate_inferred r else pr_candidate_closed r)
      \<longleftrightarrow> uuid_of_key (pr_item_id r, pr_sub_type r) \<in> set (as mode)"
    by (cases mode) auto
  also have "set (as mode) = pi_uuid ` set (get_interesting_items (lv_items app)
             (load_price_source (\<lambda>i. map_option lk_wfm_url (lookup i)) (\<lambda>i. Option.bind (lookup i) lk_max_rank)
                (\<lambda>i. map_option lk_trade_tax (lookup i)) (Some app) db cdb now))"
    unfolding as_def cs_def trader_candidates[OF assms(1), symmetric] by simp
  finally show ?thesis .
qed

lemma uuid_inj: "CHR '':'' \<notin> set i \<Longrightarrow> CHR '':'' \<notin> set j \<Longrightarrow> i @ '':'' @ s = j @ '':'' @ t \<Longrightarrow> i = j \<and> s = t"
  by (induction i arbitrary: j) (case_tac j; auto)+

lemma map_filter_image:
  "(\<And>x y. f x = Some y \<Longrightarrow> g y = x) \<Longrightarrow> map g (List.map_filter f xs) = filter (\<lambda>x. f x \<noteq> None) xs"
  by (induction xs) (auto split: option.splits)

text \<open>
  No count exceeds the number of candidates the trader would work, as long as no item id has a colon in it.
\<close>

theorem price_tab_counts_within_candidates:
  assumes "\<forall>k \<in> set (price_keys inferred cs). CHR '':'' \<notin> set (fst k)"
  shows "cc_inferred (snd (compare_bases inferred cs s guard_pct basis now lookup fetched))
           \<le> length (candidate_uuids inferred cs s guard_pct basis now lookup SourceInferred)
       \<and> cc_closed (snd (compare_bases inferred cs s guard_pct basis now lookup fetched))
           \<le> length (candidate_uuids inferred cs s guard_pct basis now lookup SourceClosed)"
proof -
  define a b where "a = candidate_uuids inferred cs s guard_pct basis now lookup SourceInferred"
    and "b = candidate_uuids inferred cs s guard_pct basis now lookup SourceClosed"
  define rows where "rows = fst (compare_bases inferred cs s guard_pct basis now lookup fetched)"
  define key where "key r = (pr_item_id r, pr_sub_type r)" for r :: price_row
  obtain f where f: "rows = List.map_filter f (price_keys inferred cs)"
    and fk: "\<And>k r. f k = Some r \<Longrightarrow> key r = k \<and> (pr_candidate_inferred r \<longleftrightarrow> uuid_of_key k \<in> set a) \<and> (pr_candidate_closed r \<longleftrightarrow> uuid_of_key k \<in> set b)"
    unfolding rows_def compare_bases_def Let_def fst_conv a_def b_def key_def using price_find_row by blast
  have keys: "map key rows = filter (\<lambda>k. f k \<noteq> None) (price_keys inferred cs)"
    unfolding f by (rule map_filter_image) (use fk in blast)
  have d: "distinct (map key rows)" unfolding keys price_keys_def by simp
  have "inj_on uuid_of_key (set (price_keys inferred cs))"
  proof (rule inj_onI)
    fix k l assume "k \<in> set (price_keys inferred cs)" "l \<in> set (price_keys inferred cs)" "uuid_of_key k = uuid_of_key l"
    then show "k = l"
      using uuid_inj[of "fst k" "fst l" "snd k" "snd l"] assms by (simp add: uuid_of_key_def case_prod_beta prod_eq_iff)
  qed
  moreover have "key ` set rows \<subseteq> set (price_keys inferred cs)" using keys by (metis filter_is_subset set_map)
  ultimately have inj: "inj_on (uuid_of_key \<circ> key) (set rows)"
    using d by (intro comp_inj_on) (auto simp: distinct_map elim: inj_on_subset)
  have bound: "tally P rows \<le> length us" if "\<And>r. r \<in> set rows \<Longrightarrow> P r \<Longrightarrow> (uuid_of_key \<circ> key) r \<in> set us" for P us
  proof -
    have "tally P rows = card (set (filter P rows))"
      using d by (simp add: tally_def distinct_map distinct_card[symmetric])
    also have "\<dots> \<le> card (set us)"
      by (rule card_inj_on_le[where f = "uuid_of_key \<circ> key"]) (use inj that in \<open>auto intro: inj_on_subset\<close>)
    finally show ?thesis using card_length[of us] by simp
  qed
  have row: "\<exists>k. f k = Some r" if "r \<in> set rows" for r
    using that unfolding f by (auto simp: List.map_filter_def simp del: split_paired_Ex)
  have "tally pr_candidate_inferred rows \<le> length a" "tally pr_candidate_closed rows \<le> length b"
    by (rule bound; use row fk in fastforce)+
  then show ?thesis by (simp add: rows_def a_def b_def compare_bases_def Let_def)
qed

section \<open>The log of the dry run, page by page\<close>

text \<open>Pages one after the other list the log, newest first, without a gap or a repetition.\<close>

theorem dry_run_pages_cover:
  "concat (map (\<lambda>p. dp_results (dry_run_page db (int p) limit)) [1..<Suc n])
     = take (n * nat (min (max limit 1) 500)) (rev (sort_key dw_id (dd_rows db)))"
proof (induction n)
  case (Suc n)
  define m where "m = nat (min (max limit 1) 500)"
  have "nat (int n * min (max limit 1) 500) = n * m" by (simp add: m_def nat_mult_distrib)
  then have "dp_results (dry_run_page db (int (Suc n)) limit) = take m (drop (n * m) (rev (sort_key dw_id (dd_rows db))))"
    by (simp add: dry_run_page_def Let_def m_def)
  with Suc show ?case by (simp add: m_def[symmetric] take_add[symmetric] add.commute)
qed simp

text \<open>Deleting what is over age takes nothing from the summaries the page can ask for.\<close>

theorem prune_keeps_the_summaries:
  "trader_dry_run_summary (snd (prune_dry_run db now)) n now = trader_dry_run_summary db n now"
proof -
  have "ts (now - days dry_run_retention_days) \<le> ts (now - days (min (max n 1) 30))"
    by (rule ts_mono) (simp add: dry_run_retention_days_def days_def secs_def)
  moreover have "filter (\<lambda>e. a \<le> de_at e) (map dw_entry (filter (\<lambda>r. \<not> de_at (dw_entry r) < b) rows))
      = filter (\<lambda>e. a \<le> de_at e) (map dw_entry rows)" if "b \<le> a" for a b rows
    using that by (induction rows) auto
  ultimately have "since_rows (snd (prune_dry_run db now)) (ts (now - days (min (max n 1) 30))) = since_rows db (ts (now - days (min (max n 1) 30)))"
    by (simp add: since_rows_def prune_dry_run_def Let_def)
  then show ?thesis by (simp add: trader_dry_run_summary_def dry_run_summary_of_def)
qed

lemma group_by_counts: "sum_list (map (\<lambda>g. length (snd g)) (group_by key xs)) = length xs"
proof -
  have "int (sum_list (map (\<lambda>g. length (snd g)) (group_by key xs))) = sum_list (map (\<lambda>g. int (length (snd g))) (group_by key xs))"
    using sum_list_of_nat[where ?'a = int, of "map (\<lambda>g. length (snd g)) (group_by key xs)"] by (simp add: comp_def)
  also have "\<dots> = int (length xs)"
    using group_by_sum[of "\<lambda>_. 1" key xs] by (simp add: sum_list_triv case_prod_beta')
  finally show ?thesis by simp
qed

text \<open>The counts by action add up to the entries in the span, and the list by item is capped at 25.\<close>

theorem dry_run_summary_counts:
  "sum_list (map snd (dm_by_action (dry_run_summary_of db since_at))) = length (since_rows db (ts since_at))
   \<and> length (dm_by_item (dry_run_summary_of db since_at)) \<le> 25"
proof -
  have "sum_list (map f (sort_key k m)) = sum_list (map f m)" for f :: "'p \<times> 'q \<Rightarrow> nat" and k :: "'p \<times> 'q \<Rightarrow> 'r::linorder" and m
  proof -
    have "mset (map f (sort_key k m)) = mset (map f m)" by (simp only: mset_map mset_sort)
    then show ?thesis by (metis sum_mset_sum_list)
  qed
  note sorted = this
  show ?thesis by (simp add: dry_run_summary_of_def Let_def comp_def case_prod_beta' sorted group_by_counts)
qed

text \<open>An alert carries every variable of the trade message and three of its own.\<close>

theorem alert_extends_the_trade_message:
  "map_of (alert_variables stamp_text e) =
     (map_of (trade_variables stamp_text e))(''<KIND>'' \<mapsto> alert_kind (case ev_reason e of Some r \<Rightarrow> r | None \<Rightarrow> []),
        ''<REASON>'' \<mapsto> (case ev_reason e of Some r \<Rightarrow> r | None \<Rightarrow> []), ''<EVENT_ID>'' \<mapsto> ev_id e)"
  by (simp add: alert_variables_def Let_def update_conv')

end
